(* ===== verification/Prelude.thy ===== *)
theory Prelude
  imports Complex_Main "HOL-Library.Word" "HOL-Library.Monad_Syntax" "HOL-Library.Char_ord"
    "HOL-Library.Multiset" "HOL-Library.List_Lexorder"
begin

text \<open>
  What every component of the development shares.

  Numbers. A \<^verbatim>\<open>uint32_t\<close> is a 32 bit word and a \<^verbatim>\<open>uint64_t\<close> a 64 bit word. A
  \<^verbatim>\<open>double\<close> is the exact rational value of a finite double; NaN and the infinities are outside
  the model. Where the code converts a double to \<^verbatim>\<open>uint32_t\<close>, the conversion is
  \<open>u32_of_dbl\<close>: it truncates towards zero, and is undefined behaviour (\<open>None\<close>) out of range.

  Failure. An operation that can run into undefined behaviour or a failing \<^verbatim>\<open>assert\<close> returns an
  option, \<open>None\<close> meaning that the run has no further defined behaviour. Error codes the code
  returns are ordinary values inside \<open>Some\<close>.

  Ordered maps. \<^verbatim>\<open>std::map\<close> and \<^verbatim>\<open>std::set\<close> are association lists kept strictly sorted
  by key (\<open>sm_put\<close>, \<open>sm_del\<close>, \<open>map_of\<close>), so that \<^verbatim>\<open>begin()\<close> is the head and
  \<^verbatim>\<open>rbegin()\<close> the last element. Their contract is the locale \<open>ordered_map\<close>.
\<close>

type_synonym uint8 = "8 word"
type_synonym uint32 = "32 word"
type_synonym uint64 = "64 word"
type_synonym dbl = rat

named_theorems sm_simps \<open>lookup, domain and order facts of the ordered maps\<close>

section \<open>Doubles and conversions\<close>

definition trunc_dbl :: "dbl \<Rightarrow> int" where
  "trunc_dbl x = (if 0 \<le> x then \<lfloor>x\<rfloor> else \<lceil>x\<rceil>)"

definition u32_in_range :: "dbl \<Rightarrow> bool" where
  "u32_in_range x \<longleftrightarrow> -1 < x \<and> x < 4294967296"

definition u32_of_dbl :: "dbl \<Rightarrow> uint32 option" where
  "u32_of_dbl x = (if u32_in_range x then Some (word_of_int (trunc_dbl x)) else None)"

lemma u32_of_dbl_Some [simp]: "u32_in_range x \<Longrightarrow> u32_of_dbl x = Some (word_of_int (trunc_dbl x))"
  by (simp add: u32_of_dbl_def)

lemma u32_of_dbl_eq_None_iff [simp]: "u32_of_dbl x = None \<longleftrightarrow> \<not> u32_in_range x"
  by (simp add: u32_of_dbl_def)

lemma trunc_dbl_range:
  assumes "u32_in_range x"
  shows "0 \<le> trunc_dbl x" "trunc_dbl x < 2 ^ 32"
proof -
  have l: "-1 < x" and u: "x < 4294967296"
    using assms by (simp_all add: u32_in_range_def)
  show "0 \<le> trunc_dbl x"
  proof (cases "0 \<le> x")
    case False
    then show ?thesis using l by (simp add: trunc_dbl_def)
  qed (simp add: trunc_dbl_def)
  show "trunc_dbl x < 2 ^ 32"
    using u by (auto simp: trunc_dbl_def floor_less_iff ceiling_less_iff)
qed

section \<open>Time stamps\<close>

record timespec =
  tv_sec :: int
  tv_nsec :: int

definition zero_timespec :: timespec where
  "zero_timespec = \<lparr>tv_sec = 0, tv_nsec = 0\<rparr>"

section \<open>Ordered maps\<close>

definition sm_sorted :: "('k::linorder \<times> 'v) list \<Rightarrow> bool" where
  "sm_sorted m \<longleftrightarrow> sorted_wrt (<) (map fst m)"

fun sm_put :: "'k::linorder \<Rightarrow> 'v \<Rightarrow> ('k \<times> 'v) list \<Rightarrow> ('k \<times> 'v) list" where
  "sm_put k v [] = [(k, v)]"
| "sm_put k v ((a, b) # m) =
     (if k < a then (k, v) # (a, b) # m
      else if k = a then (k, v) # m
      else (a, b) # sm_put k v m)"

definition sm_del :: "'k \<Rightarrow> ('k \<times> 'v) list \<Rightarrow> ('k \<times> 'v) list" where
  "sm_del k m = filter (\<lambda>(a, b). a \<noteq> k) m"

lemma map_of_sm_put [simp, sm_simps]: "map_of (sm_put k v m) = (map_of m)(k \<mapsto> v)"
  by (induction k v m rule: sm_put.induct) (auto simp: fun_eq_iff)

lemma map_of_sm_del [simp, sm_simps]: "map_of (sm_del k m) = (map_of m)(k := None)"
  by (induction m) (auto simp: sm_del_def fun_eq_iff)

lemma sm_put_keys: "set (map fst (sm_put k v m)) = insert k (set (map fst m))"
  by (induction k v m rule: sm_put.induct) auto

lemma sm_sorted_Nil [simp, sm_simps]: "sm_sorted []"
  by (simp add: sm_sorted_def)

lemma sm_sorted_Cons [sm_simps]:
  "sm_sorted ((k, v) # m) \<longleftrightarrow> (\<forall>a \<in> set (map fst m). k < a) \<and> sm_sorted m"
  by (simp add: sm_sorted_def)

lemma sm_sorted_put [simp, intro]: "sm_sorted m \<Longrightarrow> sm_sorted (sm_put k v m)"
proof (induction k v m rule: sm_put.induct)
  case (2 k v a b m)
  then show ?case
    using sm_put_keys [of k v m] by (auto simp: sm_sorted_Cons)
qed (simp add: sm_sorted_Cons)

lemma sm_sorted_del [simp, intro]: "sm_sorted m \<Longrightarrow> sm_sorted (sm_del k m)"
  by (induction m) (auto simp: sm_sorted_def sm_del_def)

lemma sm_sorted_distinct: "sm_sorted m \<Longrightarrow> distinct (map fst m)"
  unfolding sm_sorted_def by (simp add: strict_sorted_iff)

lemma sm_in_iff: "sm_sorted m \<Longrightarrow> (k, v) \<in> set m \<longleftrightarrow> map_of m k = Some v"
  using sm_sorted_distinct [of m] by (auto simp: map_of_eq_Some_iff)

lemma sm_least:
  assumes "sm_sorted m" "m \<noteq> []"
  shows "fst (hd m) = Min (dom (map_of m))"
proof -
  obtain k v m' where m: "m = (k, v) # m'" using assms(2) by (metis list.exhaust surj_pair)
  have "k = Min (set (map fst m))"
    using assms(1) unfolding m
    by (intro Min_eqI [symmetric]) (auto simp: sm_sorted_Cons less_imp_le)
  then show ?thesis using m by (simp add: dom_map_of_conv_image_fst)
qed

lemma sm_greatest:
  assumes "sm_sorted m" "m \<noteq> []"
  shows "fst (last m) = Max (dom (map_of m))"
proof -
  obtain m' k v where m: "m = m' @ [(k, v)]" using assms(2) by (metis rev_exhaust surj_pair)
  have "k = Max (set (map fst m))"
    using assms(1) unfolding m
    by (intro Max_eqI [symmetric]) (auto simp: sm_sorted_def sorted_wrt_append less_imp_le)
  then show ?thesis using m by (simp add: dom_map_of_conv_image_fst)
qed

text \<open>The contract a client of \<^verbatim>\<open>std::map\<close> relies on.\<close>

locale ordered_map =
  fixes lookup :: "'m \<Rightarrow> 'k::linorder \<Rightarrow> 'v option"
    and put :: "'k \<Rightarrow> 'v \<Rightarrow> 'm \<Rightarrow> 'm"
    and del :: "'k \<Rightarrow> 'm \<Rightarrow> 'm"
    and nil :: "'m"
    and entries :: "'m \<Rightarrow> ('k \<times> 'v) list"
    and inv :: "'m \<Rightarrow> bool"
  assumes lookup_nil: "lookup nil = (\<lambda>_. None)"
    and lookup_put: "inv m \<Longrightarrow> lookup (put k v m) = (lookup m)(k \<mapsto> v)"
    and lookup_del: "inv m \<Longrightarrow> lookup (del k m) = (lookup m)(k := None)"
    and inv_nil: "inv nil"
    and inv_put: "inv m \<Longrightarrow> inv (put k v m)"
    and inv_del: "inv m \<Longrightarrow> inv (del k m)"
    and entries_lookup: "inv m \<Longrightarrow> (k, v) \<in> set (entries m) \<longleftrightarrow> lookup m k = Some v"
    and entries_sorted: "inv m \<Longrightarrow> sorted_wrt (<) (map fst (entries m))"
begin

definition put_all :: "('k \<times> 'v) list \<Rightarrow> 'm \<Rightarrow> 'm" where
  "put_all kvs m = fold (\<lambda>(k, v). put k v) kvs m"

lemma inv_put_all: "inv m \<Longrightarrow> inv (put_all kvs m)"
  by (induction kvs arbitrary: m) (auto simp: put_all_def inv_put)

lemma lookup_put_all: "inv m \<Longrightarrow> lookup (put_all kvs m) = lookup m ++ map_of (rev kvs)"
proof (induction kvs arbitrary: m)
  case (Cons kv kvs)
  obtain k v where kv: "kv = (k, v)" by fastforce
  have "put_all (kv # kvs) m = put_all kvs (put k v m)"
    by (simp add: put_all_def kv)
  then show ?case
    using Cons.IH [of "put k v m"] Cons.prems
    by (simp add: kv inv_put lookup_put map_add_def fun_eq_iff split: option.splits)
qed (simp add: put_all_def)

lemma lookup_put_other: "inv m \<Longrightarrow> a \<noteq> k \<Longrightarrow> lookup (put k v m) a = lookup m a"
  by (simp add: lookup_put)

lemma lookup_dom_finite: "inv m \<Longrightarrow> finite (dom (lookup m))"
proof -
  assume "inv m"
  then have "dom (lookup m) = fst ` set (entries m)"
    by (auto simp: dom_def image_iff Bex_def entries_lookup)
  then show ?thesis by simp
qed

lemma entries_unique: "inv m \<Longrightarrow> inv m' \<Longrightarrow> lookup m = lookup m' \<Longrightarrow> entries m = entries m'"
proof -
  assume a: "inv m" "inv m'" "lookup m = lookup m'"
  have "set (entries m) = set (entries m')" using a by (auto simp: entries_lookup)
  moreover have "sorted_wrt (\<lambda>x y. fst x < fst y) (entries m)"
    "sorted_wrt (\<lambda>x y. fst x < fst y) (entries m')"
    using entries_sorted a(1,2) by (auto simp: sorted_wrt_map)
  moreover have "\<And>xs ys :: ('k \<times> 'v) list. sorted_wrt (\<lambda>x y. fst x < fst y) xs \<Longrightarrow>
      sorted_wrt (\<lambda>x y. fst x < fst y) ys \<Longrightarrow> set xs = set ys \<Longrightarrow> xs = ys"
  proof -
    fix xs ys :: "('k \<times> 'v) list"
    show "sorted_wrt (\<lambda>x y. fst x < fst y) xs \<Longrightarrow>
      sorted_wrt (\<lambda>x y. fst x < fst y) ys \<Longrightarrow> set xs = set ys \<Longrightarrow> xs = ys"
    proof (induction xs arbitrary: ys)
      case (Cons x xs)
      obtain y ys' where ys: "ys = y # ys'" using Cons.prems(3) by (cases ys) auto
      have "x \<in> set ys" "y \<in> set (x # xs)"
        using Cons.prems(3) by (auto simp: ys)
      then have xy: "x = y"
        using Cons.prems(1,2) by (auto simp: ys dest: less_asym)
      have "x \<notin> set xs" "y \<notin> set ys'" using Cons.prems(1,2) by (auto simp: ys)
      then have "set xs = set ys'" using Cons.prems(3) xy ys by auto
      then show ?case using Cons.IH [of ys'] Cons.prems(1,2) by (simp add: xy ys)
    qed simp
  qed
  ultimately show ?thesis by blast
qed

end

interpretation std_map: ordered_map map_of sm_put sm_del "[]" "\<lambda>m. m" sm_sorted
  by unfold_locales (auto simp: sm_in_iff sm_sorted_def [symmetric])

section \<open>Starting a program\<close>

definition option_or :: "string option \<Rightarrow> string \<Rightarrow> string" where
  "option_or x d = (case x of Some s \<Rightarrow> s | None \<Rightarrow> d)"

text \<open>How far the start of a program gets: on with a value, an exit code, a failed assertion, an
  exception nobody catches, undefined behaviour, or waiting for a reply that does not come.\<close>

datatype 'a start = Go 'a | StopExit int | StopAssert | StopTerminate | StopUndefined | StopWait

definition go_on :: "'a start \<Rightarrow> ('a \<Rightarrow> 'b start) \<Rightarrow> 'b start" where
  "go_on x f = (case x of Go a \<Rightarrow> f a | StopExit i \<Rightarrow> StopExit i | StopAssert \<Rightarrow> StopAssert
     | StopTerminate \<Rightarrow> StopTerminate
     | StopUndefined \<Rightarrow> StopUndefined | StopWait \<Rightarrow> StopWait)"

lemma go_on_simps [simp]: "go_on (Go a) f = f a" "go_on (StopExit i) f = StopExit i"
  "go_on StopAssert f = StopAssert" "go_on StopTerminate f = StopTerminate"
  "go_on StopUndefined f = StopUndefined" "go_on StopWait f = StopWait"
  by (simp_all add: go_on_def)

lemma go_on_Go: "go_on x f = Go b \<longleftrightarrow> (\<exists>a. x = Go a \<and> f a = Go b)"
  by (cases x) simp_all

end
