(* ===== verification/Types.thy ===== *)
theory Types
  imports Prelude
begin

text \<open>
  The shared vocabulary of \<^verbatim>\<open>src/common/src/c++/utils\<close>: sides and constants
  (\<^verbatim>\<open>types.h\<close>, \<^verbatim>\<open>constants.h\<close>, \<^verbatim>\<open>venue_globals.h\<close>, \<^verbatim>\<open>msg_types.h\<close>,
  \<^verbatim>\<open>order_constants.h\<close>).
\<close>

datatype side = BID | ASK | NO_SIDE

definition side_code :: "side \<Rightarrow> int" where
  "side_code s = (case s of BID \<Rightarrow> 0 | ASK \<Rightarrow> 1 | NO_SIDE \<Rightarrow> 99)"

definition NO_BID :: int where
  "NO_BID = - 2147483648"

definition NO_ASK :: int where
  "NO_ASK = 2147483647"

definition INIT_SIZE :: dbl where
  "INIT_SIZE = - 1"

definition char2side_t :: "char \<Rightarrow> side" where
  "char2side_t c = (if c = CHR ''0'' then BID else if c = CHR ''1'' then ASK else NO_SIDE)"

end
