(* ===== verification/BookV2.thy ===== *)
theory BookV2
  imports Types
begin

text \<open>
  The limit order book of \<^verbatim>\<open>src/order_book/order_book.v2\<close>: orders (\<^verbatim>\<open>KOrder\<close>), price
  limits (\<^verbatim>\<open>KLimit\<close>) and the book (\<^verbatim>\<open>KBook\<close>).

  The order map and the lists of the limits share their orders through \<^verbatim>\<open>shared_ptr\<close>. The
  model keeps that sharing: \<open>store\<close> is the list of the orders allocated so far, a pointer is an
  index into it, and \<open>modifyOrder\<close> writes through the pointer. Limits are reached through their
  tree only and are stored in it.
\<close>

section \<open>Orders\<close>

record korder =
  ordId :: uint32
  ordSide :: side
  ordSize :: dbl
  ordPrice :: dbl

type_synonym optr = nat
type_synonym ostore = "korder list"

definition setSize :: "optr \<Rightarrow> dbl \<Rightarrow> ostore \<Rightarrow> ostore" where
  "setSize a sz h = h[a := (h ! a)\<lparr>ordSize := sz\<rparr>]"

section \<open>Limits\<close>

record klimit =
  limOrders :: "optr list"
  limPrice :: dbl
  limVolume :: uint32
  limUpdated :: "timespec option"

definition new_limit :: "dbl \<Rightarrow> klimit" where
  "new_limit p = \<lparr>limOrders = [], limPrice = p, limVolume = 0, limUpdated = None\<rparr>"

definition limCount :: "klimit \<Rightarrow> uint32" where
  "limCount l = of_nat (length (limOrders l))"

definition setUpdateTime :: "timespec option \<Rightarrow> klimit \<Rightarrow> klimit" where
  "setUpdateTime t l = l\<lparr>limUpdated := t\<rparr>"

definition addVolume :: "uint32 \<Rightarrow> klimit \<Rightarrow> klimit" where
  "addVolume v l = l\<lparr>limVolume := limVolume l + v\<rparr>"

definition removeVolume :: "uint32 \<Rightarrow> klimit \<Rightarrow> klimit" where
  "removeVolume v l = l\<lparr>limVolume := limVolume l - v\<rparr>"

definition lim_findOrder :: "ostore \<Rightarrow> uint32 \<Rightarrow> klimit \<Rightarrow> optr option" where
  "lim_findOrder h i l = List.find (\<lambda>a. ordId (h ! a) = i) (limOrders l)"

definition lim_addOrder :: "ostore \<Rightarrow> optr \<Rightarrow> klimit \<Rightarrow> (int \<times> klimit) option" where
  "lim_addOrder h a l =
     (case lim_findOrder h (ordId (h ! a)) l of
        Some _ \<Rightarrow> Some (0, l)
      | None \<Rightarrow> do {
          v \<leftarrow> u32_of_dbl (ordSize (h ! a));
          Some (1, addVolume v (l\<lparr>limOrders := limOrders l @ [a]\<rparr>))
        })"

definition lim_removeOrder :: "ostore \<Rightarrow> uint32 \<Rightarrow> klimit \<Rightarrow> (int \<times> klimit) option" where
  "lim_removeOrder h i l =
     (if limOrders l = [] then Some (1, l)
      else case lim_findOrder h i l of
        Some a \<Rightarrow> do {
          v \<leftarrow> u32_of_dbl (ordSize (h ! a));
          let l' = removeVolume v l;
          Some (1, l'\<lparr>limOrders := remove1 a (limOrders l')\<rparr>)
        }
      | None \<Rightarrow> Some (0, l))"

definition lim_modifyOrder ::
  "ostore \<Rightarrow> uint32 \<Rightarrow> dbl \<Rightarrow> klimit \<Rightarrow> (int \<times> ostore \<times> klimit) option" where
  "lim_modifyOrder h i sz l =
     (case lim_findOrder h i l of
        Some a \<Rightarrow> do {
          v \<leftarrow> u32_of_dbl (ordSize (h ! a));
          w \<leftarrow> u32_of_dbl sz;
          Some (1, setSize a sz h, addVolume w (removeVolume v l))
        }
      | None \<Rightarrow> Some (0, h, l))"

section \<open>The book\<close>

type_synonym ktree = "(dbl \<times> klimit) list"

record kbook =
  store :: ostore
  orderMap :: "(uint32 \<times> optr) list"
  bidTree :: ktree
  askTree :: ktree
  bookName :: string
  evtTime :: "timespec option"
  exchSndTime :: "timespec option"
  bookDepth :: uint32

definition new_book :: "string option \<Rightarrow> uint64 \<Rightarrow> kbook" where
  "new_book name depth =
     \<lparr>store = [], orderMap = [], bidTree = [], askTree = [],
      bookName = (case name of None \<Rightarrow> [] | Some s \<Rightarrow> take 127 s),
      evtTime = None, exchSndTime = None, bookDepth = ucast depth\<rparr>"

definition getOrder :: "uint32 \<Rightarrow> kbook \<Rightarrow> korder option" where
  "getOrder i b = map_option (\<lambda>a. store b ! a) (map_of (orderMap b) i)"

definition tree_addOrder ::
  "ostore \<Rightarrow> optr \<Rightarrow> timespec \<Rightarrow> ktree \<Rightarrow> ktree option" where
  "tree_addOrder h a t tree = (let p = ordPrice (h ! a) in
     case map_of tree p of
       Some l \<Rightarrow> do {
         (_, l') \<leftarrow> lim_addOrder h a l;
         Some (sm_put p (setUpdateTime (Some t) l') tree)
       }
     | None \<Rightarrow> do {
         (_, l') \<leftarrow> lim_addOrder h a (setUpdateTime (Some t) (new_limit p));
         Some (sm_put p l' tree)
       })"

definition addBid :: "optr \<Rightarrow> timespec \<Rightarrow> kbook \<Rightarrow> (int \<times> kbook) option" where
  "addBid a t b = do {
     tree \<leftarrow> tree_addOrder (store b) a t (bidTree b);
     Some (1, b\<lparr>bidTree := tree, evtTime := Some t,
                orderMap := sm_put (ordId (store b ! a)) a (orderMap b)\<rparr>)
   }"

definition addAsk :: "optr \<Rightarrow> timespec \<Rightarrow> kbook \<Rightarrow> (int \<times> kbook) option" where
  "addAsk a t b = do {
     tree \<leftarrow> tree_addOrder (store b) a t (askTree b);
     Some (1, b\<lparr>askTree := tree, evtTime := Some t,
                orderMap := sm_put (ordId (store b ! a)) a (orderMap b)\<rparr>)
   }"

definition book_add ::
  "uint32 \<Rightarrow> side \<Rightarrow> dbl \<Rightarrow> dbl \<Rightarrow> timespec \<Rightarrow> timespec \<Rightarrow> kbook \<Rightarrow> (int \<times> kbook) option" where
  "book_add i s sz p t xt b =
     (let a = length (store b);
          b1 = b\<lparr>exchSndTime := Some xt,
                 store := store b @ [\<lparr>ordId = i, ordSide = s, ordSize = sz, ordPrice = p\<rparr>]\<rparr>
      in if s = BID then addBid a t b1
         else if s = ASK then addAsk a t b1
         else Some (0, b1))"

definition book_clear :: "kbook \<Rightarrow> kbook" where
  "book_clear b = b\<lparr>orderMap := [], bidTree := [], askTree := []\<rparr>"

definition tree_removeOrder ::
  "ostore \<Rightarrow> uint32 \<Rightarrow> dbl \<Rightarrow> klimit \<Rightarrow> timespec \<Rightarrow> ktree \<Rightarrow> ktree option" where
  "tree_removeOrder h i p l t tree = do {
     (removeOk, l') \<leftarrow> lim_removeOrder h i l;
     if removeOk = 1 then
       let l'' = setUpdateTime (Some t) l'
       in Some (if limCount l'' = 0 then sm_del p tree else sm_put p l'' tree)
     else None
   }"

text \<open>
  For an ask, \<^verbatim>\<open>remove\<close> compares the position it found in the ask tree with the end of the bid
  tree. C++ does not define the comparison of iterators of two containers: \<open>cmp\<close> is what it answers to
  "not equal", and \<open>None\<close> stands for an implementation where it has no answer (a checked library).
\<close>

definition book_remove_cmp ::
  "bool option \<Rightarrow> uint32 \<Rightarrow> timespec \<Rightarrow> timespec \<Rightarrow> kbook \<Rightarrow> (int \<times> kbook) option" where
  "book_remove_cmp cmp i t xt b0 = (let b = b0\<lparr>exchSndTime := Some xt\<rparr> in
     case map_of (orderMap b) i of
       None \<Rightarrow> Some (0, b)
     | Some a \<Rightarrow>
         (let p = ordPrice (store b ! a); s = ordSide (store b ! a) in
          if s = BID then
            case map_of (bidTree b) p of
              Some l \<Rightarrow> do {
                tree \<leftarrow> tree_removeOrder (store b) i p l t (bidTree b);
                Some (1, b\<lparr>orderMap := sm_del i (orderMap b), bidTree := tree, evtTime := Some t\<rparr>)
              }
            | None \<Rightarrow> Some (0, b)
          else if s = ASK then
            case cmp of
              None \<Rightarrow> None
            | Some False \<Rightarrow> Some (0, b)
            | Some True \<Rightarrow>
               (case map_of (askTree b) p of
                  Some l \<Rightarrow> do {
                    tree \<leftarrow> tree_removeOrder (store b) i p l t (askTree b);
                    Some (1, b\<lparr>orderMap := sm_del i (orderMap b), askTree := tree, evtTime := Some t\<rparr>)
                  }
                | None \<Rightarrow> None)
          else Some (0, b)))"

text \<open>
  The GNU library, with which the program is built, compares the addresses of the nodes, and those of
  two trees differ. The models of the programs that use the book are models of this build.
\<close>

definition book_remove ::
  "uint32 \<Rightarrow> timespec \<Rightarrow> timespec \<Rightarrow> kbook \<Rightarrow> (int \<times> kbook) option" where
  "book_remove = book_remove_cmp (Some True)"

definition tree_modifyOrder ::
  "ostore \<Rightarrow> uint32 \<Rightarrow> dbl \<Rightarrow> dbl \<Rightarrow> klimit \<Rightarrow> timespec option \<Rightarrow> ktree \<Rightarrow> (ostore \<times> ktree) option" where
  "tree_modifyOrder h i sz p l t tree = do {
     (_, h', l') \<leftarrow> lim_modifyOrder h i sz l;
     Some (h', sm_put p (setUpdateTime t l') tree)
   }"

definition book_modify ::
  "uint32 \<Rightarrow> dbl \<Rightarrow> timespec \<Rightarrow> timespec \<Rightarrow> kbook \<Rightarrow> (int \<times> kbook) option" where
  "book_modify i sz t xt b0 = (let b = b0\<lparr>exchSndTime := Some xt\<rparr> in
     case map_of (orderMap b) i of
       None \<Rightarrow> Some (0, b)
     | Some a \<Rightarrow>
         (let p = ordPrice (store b ! a); s = ordSide (store b ! a) in
          if s = BID then
            case map_of (bidTree b) p of
              Some l \<Rightarrow> do {
                (h, tree) \<leftarrow> tree_modifyOrder (store b) i sz p l (evtTime b) (bidTree b);
                Some (1, b\<lparr>store := h, bidTree := tree, evtTime := Some t\<rparr>)
              }
            | None \<Rightarrow> Some (0, b)
          else if s = ASK then
            case map_of (askTree b) p of
              Some l \<Rightarrow> do {
                (h, tree) \<leftarrow> tree_modifyOrder (store b) i sz p l (evtTime b) (askTree b);
                Some (1, b\<lparr>store := h, askTree := tree, evtTime := Some t\<rparr>)
              }
            | None \<Rightarrow> Some (0, b)
          else None))"

definition getTotalVolumeAtLimit :: "side \<Rightarrow> dbl \<Rightarrow> kbook \<Rightarrow> uint32" where
  "getTotalVolumeAtLimit s p b =
     (if s = BID then case map_of (bidTree b) p of Some l \<Rightarrow> limVolume l | None \<Rightarrow> 0
      else if s = ASK then case map_of (askTree b) p of Some l \<Rightarrow> limVolume l | None \<Rightarrow> 0
      else 0)"

definition getOrderCountAtLimit :: "side \<Rightarrow> dbl \<Rightarrow> kbook \<Rightarrow> uint32" where
  "getOrderCountAtLimit s p b =
     (if s = BID then case map_of (bidTree b) p of Some l \<Rightarrow> limCount l | None \<Rightarrow> 0
      else if s = ASK then case map_of (askTree b) p of Some l \<Rightarrow> limCount l | None \<Rightarrow> 0
      else 0)"

definition bestPrice :: "side \<Rightarrow> kbook \<Rightarrow> dbl" where
  "bestPrice s b =
     (if s = BID then (if bidTree b = [] then of_int NO_BID else limPrice (snd (last (bidTree b))))
      else if s = ASK then (if askTree b = [] then of_int NO_ASK else limPrice (snd (hd (askTree b))))
      else -999999999)"

definition bestPriceVolume :: "side \<Rightarrow> kbook \<Rightarrow> dbl" where
  "bestPriceVolume s b = of_int (uint (getTotalVolumeAtLimit s (bestPrice s b) b))"

section \<open>Well-formed limits and trees\<close>

definition limIds :: "ostore \<Rightarrow> optr list \<Rightarrow> uint32 list" where
  "limIds h as = map (\<lambda>a. ordId (h ! a)) as"

definition sizeVol :: "ostore \<Rightarrow> optr \<Rightarrow> uint32" where
  "sizeVol h a = word_of_int (trunc_dbl (ordSize (h ! a)))"

definition limVol :: "ostore \<Rightarrow> optr list \<Rightarrow> uint32" where
  "limVol h as = sum_list (map (sizeVol h) as)"

definition lim_wf :: "side \<Rightarrow> ostore \<Rightarrow> dbl \<Rightarrow> klimit \<Rightarrow> bool" where
  "lim_wf s h p l \<longleftrightarrow>
     limPrice l = p \<and> distinct (limIds h (limOrders l)) \<and> limVolume l = limVol h (limOrders l) \<and>
     (\<forall>a \<in> set (limOrders l). a < length h \<and> ordSide (h ! a) = s \<and> ordPrice (h ! a) = p \<and>
        u32_in_range (ordSize (h ! a)))"

definition tree_wf :: "side \<Rightarrow> ostore \<Rightarrow> ktree \<Rightarrow> bool" where
  "tree_wf s h tree \<longleftrightarrow> sm_sorted tree \<and>
     (\<forall>p l. map_of tree p = Some l \<longrightarrow> lim_wf s h p l \<and> limOrders l \<noteq> [])"

definition ordersAt :: "ktree \<Rightarrow> dbl \<Rightarrow> optr list" where
  "ordersAt tree p = (case map_of tree p of None \<Rightarrow> [] | Some l \<Rightarrow> limOrders l)"

lemma lim_findOrder_None: "lim_findOrder h i l = None \<longleftrightarrow> i \<notin> set (limIds h (limOrders l))"
  by (auto simp: lim_findOrder_def find_None_iff limIds_def)

lemma lim_findOrder_Some:
  "lim_findOrder h i l = Some a \<Longrightarrow> a \<in> set (limOrders l) \<and> ordId (h ! a) = i"
  unfolding lim_findOrder_def find_Some_iff by auto

lemma lim_findOrder_iff:
  assumes "distinct (limIds h (limOrders l))"
  shows "lim_findOrder h i l = Some a \<longleftrightarrow> a \<in> set (limOrders l) \<and> ordId (h ! a) = i"
proof
  assume a: "a \<in> set (limOrders l) \<and> ordId (h ! a) = i"
  then have "lim_findOrder h i l \<noteq> None"
    by (auto simp: lim_findOrder_None limIds_def)
  then obtain b where b: "lim_findOrder h i l = Some b" by blast
  then have "b \<in> set (limOrders l) \<and> ordId (h ! b) = i" by (rule lim_findOrder_Some)
  then have "b = a" using a assms by (auto simp: limIds_def distinct_map inj_on_def)
  then show "lim_findOrder h i l = Some a" using b by simp
qed (rule lim_findOrder_Some)

lemma tree_wf_sorted [simp]: "tree_wf s h tree \<Longrightarrow> sm_sorted tree"
  by (simp add: tree_wf_def)

lemma tree_wfD:
  "tree_wf s h tree \<Longrightarrow> map_of tree p = Some l \<Longrightarrow> lim_wf s h p l \<and> limOrders l \<noteq> []"
  by (simp add: tree_wf_def)

lemma tree_wf_Nil [simp]: "tree_wf s h []"
  by (simp add: tree_wf_def)

lemma ordersAt_empty_iff:
  "tree_wf s h tree \<Longrightarrow> ordersAt tree p = [] \<longleftrightarrow> map_of tree p = None"
  by (auto simp: ordersAt_def tree_wf_def split: option.splits)

lemma tree_wf_ordersAt:
  assumes "tree_wf s h tree"
  shows "distinct (limIds h (ordersAt tree p))"
    and "a \<in> set (ordersAt tree p) \<Longrightarrow>
      a < length h \<and> ordSide (h ! a) = s \<and> ordPrice (h ! a) = p \<and> u32_in_range (ordSize (h ! a))"
  using assms
  by (cases "map_of tree p"; force simp: ordersAt_def tree_wf_def lim_wf_def limIds_def)+

lemma lim_wf_cong:
  assumes "lim_wf s h p l" "length h \<le> length h'" "\<And>a. a \<in> set (limOrders l) \<Longrightarrow> h' ! a = h ! a"
  shows "lim_wf s h' p l"
proof -
  have "limIds h' (limOrders l) = limIds h (limOrders l)" "limVol h' (limOrders l) = limVol h (limOrders l)"
    using assms(3) by (auto simp: limIds_def limVol_def sizeVol_def intro!: arg_cong [where f = sum_list])
  then show ?thesis using assms by (auto simp: lim_wf_def)
qed

lemma tree_wf_cong:
  assumes "tree_wf s h tree" "length h \<le> length h'"
    "\<And>a p. a \<in> set (ordersAt tree p) \<Longrightarrow> h' ! a = h ! a"
  shows "tree_wf s h' tree"
  unfolding tree_wf_def
proof (intro conjI allI impI)
  fix p l assume l: "map_of tree p = Some l"
  have "\<And>a. a \<in> set (limOrders l) \<Longrightarrow> h' ! a = h ! a"
    using assms(3) [of _ p] l by (simp add: ordersAt_def)
  then show "lim_wf s h' p l"
    using tree_wfD [OF assms(1) l] assms(2) by (blast intro: lim_wf_cong)
qed (use assms in \<open>auto simp: tree_wf_def\<close>)

lemma tree_wf_append: "tree_wf s h tree \<Longrightarrow> tree_wf s (h @ [x]) tree"
  by (rule tree_wf_cong) (auto simp: nth_append dest: tree_wf_ordersAt(2))

section \<open>Limit operations on well-formed limits\<close>

lemma lim_addOrder_wf:
  assumes "lim_wf s h p l" "a < length h" "ordSide (h ! a) = s" "ordPrice (h ! a) = p"
    "u32_in_range (ordSize (h ! a))"
  shows "\<exists>r l'. lim_addOrder h a l = Some (r, l') \<and> lim_wf s h p l' \<and>
     limOrders l' = (if ordId (h ! a) \<in> set (limIds h (limOrders l)) then limOrders l
                     else limOrders l @ [a]) \<and> limUpdated l' = limUpdated l"
proof (cases "lim_findOrder h (ordId (h ! a)) l")
  case None
  then have "ordId (h ! a) \<notin> set (limIds h (limOrders l))"
    by (simp add: lim_findOrder_None)
  then show ?thesis
    using assms None
    by (auto simp: lim_addOrder_def addVolume_def lim_wf_def limIds_def limVol_def sizeVol_def)
next
  case (Some b)
  then have "ordId (h ! a) \<in> set (limIds h (limOrders l))"
    using lim_findOrder_None [of h "ordId (h ! a)" l] by simp
  then show ?thesis using assms Some by (simp add: lim_addOrder_def)
qed

lemma limVol_remove1:
  "a \<in> set as \<Longrightarrow> limVol h as = sizeVol h a + limVol h (remove1 a as)"
  by (induction as) (auto simp: limVol_def)

lemma limIds_remove1:
  assumes "distinct (limIds h as)" "a \<in> set as"
  shows "set (limIds h (remove1 a as)) = set (limIds h as) - {ordId (h ! a)}"
    "distinct (limIds h (remove1 a as))"
  using assms
  by (auto simp: limIds_def distinct_map inj_on_def)

lemma lim_removeOrder_wf:
  assumes "lim_wf s h p l" "a \<in> set (limOrders l)"
  shows "\<exists>l'. lim_removeOrder h (ordId (h ! a)) l = Some (1, l') \<and> lim_wf s h p l' \<and>
     limOrders l' = remove1 a (limOrders l)"
proof -
  have d: "distinct (limIds h (limOrders l))" using assms(1) by (simp add: lim_wf_def)
  then have f: "lim_findOrder h (ordId (h ! a)) l = Some a"
    using assms(2) by (simp add: lim_findOrder_iff)
  have "limOrders l \<noteq> []" using assms(2) by auto
  then show ?thesis
    using f assms limVol_remove1 [OF assms(2), of h] limIds_remove1(2) [OF d assms(2)]
    by (auto simp: lim_removeOrder_def removeVolume_def lim_wf_def sizeVol_def
        dest: in_set_remove1 [THEN iffD1, rotated] notin_set_remove1 intro: set_remove1_subset [THEN subsetD])
qed

lemma sum_list_map_update:
  fixes f g :: "'a \<Rightarrow> 'b::ab_group_add"
  assumes "distinct xs" "a \<in> set xs" "\<And>x. x \<in> set xs \<Longrightarrow> x \<noteq> a \<Longrightarrow> g x = f x"
  shows "sum_list (map g xs) = sum_list (map f xs) - f a + g a"
proof -
  have "sum_list (map h xs) = h a + sum h (set xs - {a})" for h :: "'a \<Rightarrow> 'b"
    using assms(1,2) by (simp add: sum_list_distinct_conv_sum_set sum.remove)
  moreover have "sum g (set xs - {a}) = sum f (set xs - {a})"
    using assms(3) by (intro sum.cong) auto
  ultimately show ?thesis by simp
qed

lemma setSize_nth [simp]:
  "a < length h \<Longrightarrow> setSize a sz h ! b = (if b = a then (h ! a)\<lparr>ordSize := sz\<rparr> else h ! b)"
  by (simp add: setSize_def)

lemma setSize_length [simp]: "length (setSize a sz h) = length h"
  by (simp add: setSize_def)

lemma limIds_setSize [simp]: "a < length h \<Longrightarrow> limIds (setSize a sz h) as = limIds h as"
  by (auto simp: limIds_def)

lemma distinct_limIds: "distinct (limIds h as) \<Longrightarrow> distinct as"
  by (simp add: limIds_def distinct_map)

lemma lim_modifyOrder_wf:
  assumes "lim_wf s h p l" "a \<in> set (limOrders l)" "u32_in_range sz"
  shows "\<exists>l'. lim_modifyOrder h (ordId (h ! a)) sz l = Some (1, setSize a sz h, l') \<and>
     lim_wf s (setSize a sz h) p l' \<and> limOrders l' = limOrders l"
proof -
  have d: "distinct (limIds h (limOrders l))" and ah: "a < length h"
    using assms by (auto simp: lim_wf_def)
  then have f: "lim_findOrder h (ordId (h ! a)) l = Some a"
    using assms(2) by (simp add: lim_findOrder_iff)
  have v: "limVol (setSize a sz h) (limOrders l) =
      limVol h (limOrders l) - sizeVol h a + word_of_int (trunc_dbl sz)"
    unfolding limVol_def
    using sum_list_map_update [OF distinct_limIds [OF d] assms(2), of "sizeVol (setSize a sz h)" "sizeVol h"] ah
    by (simp add: sizeVol_def)
  show ?thesis
    using f assms ah d v
    by (auto simp: lim_modifyOrder_def removeVolume_def addVolume_def lim_wf_def sizeVol_def)
qed

end
