(* ===== verification/BookV2Correct.thy ===== *)
theory BookV2Correct
  imports BookV2
begin

text \<open>
  Correctness of the book of \<^verbatim>\<open>src/order_book/order_book.v2\<close>. \<open>book_wf\<close> is the invariant
  that every operation preserves, with no hypothesis on the ids the feed sends; \<open>book_synced\<close> is
  the stronger state that holds as long as no id is added twice; under it the book refines the
  finite map \<open>abs_book\<close> from order ids to (side, price, size).
\<close>

section \<open>Tree operations on well-formed trees\<close>

lemma tree_wf_put:
  assumes "tree_wf s h tree" "lim_wf s h p l" "limOrders l \<noteq> []"
  shows "tree_wf s h (sm_put p l tree)"
  using assms by (auto simp: tree_wf_def)

lemma ordersAt_put [simp]: "ordersAt (sm_put p l tree) q = (if q = p then limOrders l else ordersAt tree q)"
  by (simp add: ordersAt_def)

lemma ordersAt_del [simp]: "ordersAt (sm_del p tree) q = (if q = p then [] else ordersAt tree q)"
  by (simp add: ordersAt_def)

lemma lim_wf_new: "lim_wf s h p (setUpdateTime t (new_limit p))"
  by (simp add: lim_wf_def new_limit_def setUpdateTime_def limIds_def limVol_def)

lemma lim_wf_setUpdateTime [simp]: "lim_wf s h p (setUpdateTime t l) = lim_wf s h p l"
  by (simp add: lim_wf_def setUpdateTime_def)

lemma limOrders_setUpdateTime [simp]: "limOrders (setUpdateTime t l) = limOrders l"
  by (simp add: setUpdateTime_def)

definition added :: "ostore \<Rightarrow> optr \<Rightarrow> optr list \<Rightarrow> optr list" where
  "added h a as = (if ordId (h ! a) \<in> set (limIds h as) then as else as @ [a])"

lemma tree_addOrder_wf:
  assumes "tree_wf s h tree" "a < length h" "ordSide (h ! a) = s" "u32_in_range (ordSize (h ! a))"
  shows "\<exists>tree'. tree_addOrder h a t tree = Some tree' \<and> tree_wf s h tree' \<and>
    (\<forall>q. ordersAt tree' q = (if q = ordPrice (h ! a) then added h a (ordersAt tree q) else ordersAt tree q))"
proof (cases "map_of tree (ordPrice (h ! a))")
  case None
  obtain r l' where l': "lim_addOrder h a (setUpdateTime (Some t) (new_limit (ordPrice (h ! a)))) = Some (r, l')"
    "lim_wf s h (ordPrice (h ! a)) l'" "limOrders l' = [a]"
    using lim_addOrder_wf [OF lim_wf_new, of a h s "ordPrice (h ! a)" "Some t"] assms
    by (auto simp: new_limit_def limIds_def)
  then show ?thesis
    using None assms(1) tree_wf_put [OF assms(1) l'(2)]
    by (auto simp: tree_addOrder_def Let_def added_def ordersAt_def limIds_def)
next
  case (Some l)
  have wl: "lim_wf s h (ordPrice (h ! a)) l" "limOrders l \<noteq> []"
    using tree_wfD [OF assms(1) Some] by auto
  obtain r l' where l': "lim_addOrder h a l = Some (r, l')"
    "lim_wf s h (ordPrice (h ! a)) l'" "limOrders l' = added h a (limOrders l)"
    using lim_addOrder_wf [OF wl(1) assms(2,3) refl assms(4)] by (auto simp: added_def)
  then have "tree_wf s h (sm_put (ordPrice (h ! a)) (setUpdateTime (Some t) l') tree)"
    using wl(2) by (intro tree_wf_put [OF assms(1)]) (auto simp: added_def)
  then show ?thesis
    using Some l' by (auto simp: tree_addOrder_def Let_def ordersAt_def)
qed

lemma limCount_zero:
  assumes "distinct (limIds h (limOrders l))" "i \<notin> set (limIds h (limOrders l))"
  shows "limCount l = 0 \<longleftrightarrow> limOrders l = []"
proof -
  have "insert i (set (limIds h (limOrders l))) \<subseteq> (UNIV :: uint32 set)" by simp
  then have "card (insert i (set (limIds h (limOrders l)))) \<le> card (UNIV :: uint32 set)"
    by (rule card_mono [rotated]) simp
  moreover have "card (set (limIds h (limOrders l))) = length (limOrders l)"
    using distinct_card [OF assms(1)] by (simp add: limIds_def)
  ultimately have "Suc (length (limOrders l)) \<le> 2 ^ 32"
    using assms by (simp add: card_word)
  then have "length (limOrders l) < 2 ^ 32" by simp
  then have "unat (limCount l) = length (limOrders l)"
    by (simp add: limCount_def unat_of_nat take_bit_nat_eq_self)
  then show ?thesis by (metis length_0_conv unat_0 unat_eq_zero)
qed

lemma tree_removeOrder_wf:
  assumes "tree_wf s h tree" "map_of tree p = Some l" "a \<in> set (limOrders l)"
  shows "\<exists>tree'. tree_removeOrder h (ordId (h ! a)) p l t tree = Some tree' \<and> tree_wf s h tree' \<and>
    (\<forall>q. ordersAt tree' q = (if q = p then remove1 a (ordersAt tree q) else ordersAt tree q))"
proof -
  have wl: "lim_wf s h p l" using tree_wfD [OF assms(1,2)] by simp
  obtain l' where l': "lim_removeOrder h (ordId (h ! a)) l = Some (1, l')" "lim_wf s h p l'"
    "limOrders l' = remove1 a (limOrders l)"
    using lim_removeOrder_wf [OF wl assms(3)] by blast
  have c: "limCount (setUpdateTime (Some t) l') = 0 \<longleftrightarrow> limOrders l' = []"
    using limCount_zero [of h "setUpdateTime (Some t) l'" "ordId (h ! a)"] l' wl
      limIds_remove1(1) [OF _ assms(3), of h]
    by (simp add: lim_wf_def)
  have "tree_wf s h (sm_del p tree)"
    using assms(1) by (auto simp: tree_wf_def)
  moreover have "limOrders l' \<noteq> [] \<Longrightarrow> tree_wf s h (sm_put p (setUpdateTime (Some t) l') tree)"
    using l' by (intro tree_wf_put [OF assms(1)]) auto
  ultimately show ?thesis
    using l' c assms(2) by (auto simp: tree_removeOrder_def Let_def ordersAt_def)
qed

lemma tree_modifyOrder_wf:
  assumes "tree_wf s h tree" "map_of tree p = Some l" "a \<in> set (limOrders l)" "u32_in_range sz"
  shows "\<exists>tree'. tree_modifyOrder h (ordId (h ! a)) sz p l t tree = Some (setSize a sz h, tree') \<and>
    tree_wf s (setSize a sz h) tree' \<and> ordersAt tree' = ordersAt tree"
proof -
  let ?h = "setSize a sz h"
  have wl: "lim_wf s h p l" and ne: "limOrders l \<noteq> []" using tree_wfD [OF assms(1,2)] by auto
  then have ah: "a < length h" "ordPrice (h ! a) = p" using assms(3) by (auto simp: lim_wf_def)
  obtain l' where l': "lim_modifyOrder h (ordId (h ! a)) sz l = Some (1, ?h, l')"
    "lim_wf s ?h p l'" "limOrders l' = limOrders l"
    using lim_modifyOrder_wf [OF wl assms(3,4)] by blast
  have "tree_wf s ?h (sm_put p (setUpdateTime t l') tree)"
    unfolding tree_wf_def
  proof (intro conjI allI impI)
    fix q m assume m: "map_of (sm_put p (setUpdateTime t l') tree) q = Some m"
    show "lim_wf s ?h q m"
    proof (cases "q = p")
      case False
      then have "map_of tree q = Some m" using m by simp
      then have w: "lim_wf s h q m" using tree_wfD [OF assms(1)] by blast
      then have "a \<notin> set (limOrders m)" using ah False by (auto simp: lim_wf_def)
      then show ?thesis using w ah(1) by (auto intro: lim_wf_cong)
    qed (use m l' in auto)
    show "limOrders m \<noteq> []"
      using m l' ne tree_wfD [OF assms(1), of q m] by (auto split: if_splits)
  qed (use assms(1) in \<open>auto simp: tree_wf_def\<close>)
  then show ?thesis
    using l' assms(2) by (auto simp: tree_modifyOrder_def ordersAt_def fun_eq_iff)
qed

section \<open>The invariant of the book\<close>

definition sideTree :: "side \<Rightarrow> kbook \<Rightarrow> ktree" where
  "sideTree s b = (if s = BID then bidTree b else askTree b)"

definition entry_ok :: "kbook \<Rightarrow> uint32 \<Rightarrow> optr \<Rightarrow> bool" where
  "entry_ok b i a \<longleftrightarrow> a < length (store b) \<and> ordId (store b ! a) = i \<and> ordSide (store b ! a) \<noteq> NO_SIDE \<and>
     i \<in> set (limIds (store b) (ordersAt (sideTree (ordSide (store b ! a)) b) (ordPrice (store b ! a))))"

definition book_wf :: "kbook \<Rightarrow> bool" where
  "book_wf b \<longleftrightarrow> tree_wf BID (store b) (bidTree b) \<and> tree_wf ASK (store b) (askTree b) \<and>
     sm_sorted (orderMap b) \<and> (\<forall>i a. map_of (orderMap b) i = Some a \<longrightarrow> entry_ok b i a)"

definition book_synced :: "kbook \<Rightarrow> bool" where
  "book_synced b \<longleftrightarrow> (\<forall>s p. s \<noteq> NO_SIDE \<longrightarrow> (\<forall>a \<in> set (ordersAt (sideTree s b) p).
     map_of (orderMap b) (ordId (store b ! a)) = Some a))"

definition abs_book :: "kbook \<Rightarrow> uint32 \<Rightarrow> (side \<times> dbl \<times> dbl) option" where
  "abs_book b i = map_option
     (\<lambda>a. (ordSide (store b ! a), ordPrice (store b ! a), ordSize (store b ! a))) (map_of (orderMap b) i)"

lemma book_wf_tree: "book_wf b \<Longrightarrow> s \<noteq> NO_SIDE \<Longrightarrow> tree_wf s (store b) (sideTree s b)"
  by (cases s) (auto simp: book_wf_def sideTree_def)

lemma book_wf_entry: "book_wf b \<Longrightarrow> map_of (orderMap b) i = Some a \<Longrightarrow> entry_ok b i a"
  by (simp add: book_wf_def)

lemma book_wf_new: "book_wf (new_book name d)" "book_synced (new_book name d)"
  "abs_book (new_book name d) = (\<lambda>_. None)"
  by (simp_all add: book_wf_def book_synced_def new_book_def ordersAt_def sideTree_def abs_book_def fun_eq_iff)

lemma book_wf_clear: "book_wf (book_clear b)" "book_synced (book_clear b)"
  "abs_book (book_clear b) = (\<lambda>_. None)"
  by (simp_all add: book_wf_def book_synced_def book_clear_def ordersAt_def sideTree_def abs_book_def fun_eq_iff)

section \<open>Every operation preserves the invariant and commutes with the abstraction\<close>

lemma entry_okI:
  assumes "entry_ok b i a" "length (store b) \<le> length (store b')"
    "\<And>a. a < length (store b) \<Longrightarrow> ordId (store b' ! a) = ordId (store b ! a) \<and>
        ordSide (store b' ! a) = ordSide (store b ! a) \<and> ordPrice (store b' ! a) = ordPrice (store b ! a)"
    "i \<in> set (limIds (store b) (ordersAt (sideTree (ordSide (store b ! a)) b) (ordPrice (store b ! a)))) \<Longrightarrow>
     i \<in> set (limIds (store b') (ordersAt (sideTree (ordSide (store b ! a)) b') (ordPrice (store b ! a))))"
  shows "entry_ok b' i a"
  using assms by (auto simp: entry_ok_def)

lemma limIds_append_store:
  "\<forall>a \<in> set as. a < length h \<Longrightarrow> limIds (h @ [x]) as = limIds h as"
  by (auto simp: limIds_def nth_append)

definition alloc :: "korder \<Rightarrow> timespec \<Rightarrow> kbook \<Rightarrow> kbook" where
  "alloc ord xt b = b\<lparr>exchSndTime := Some xt, store := store b @ [ord]\<rparr>"

lemma alloc_simps [simp]:
  "store (alloc ord xt b) = store b @ [ord]" "orderMap (alloc ord xt b) = orderMap b"
  "sideTree s (alloc ord xt b) = sideTree s b" "bidTree (alloc ord xt b) = bidTree b"
  "askTree (alloc ord xt b) = askTree b"
  by (simp_all add: alloc_def sideTree_def)

lemma alloc_wf:
  assumes "book_wf b"
  shows "book_wf (alloc ord xt b)" "abs_book (alloc ord xt b) = abs_book b"
    "book_synced b \<Longrightarrow> book_synced (alloc ord xt b)"
proof -
  have e: "\<And>i a. map_of (orderMap b) i = Some a \<Longrightarrow> entry_ok b i a" using assms by (rule book_wf_entry)
  have oa: "\<And>s p. s \<noteq> NO_SIDE \<Longrightarrow> \<forall>a \<in> set (ordersAt (sideTree s b) p). a < length (store b)"
    using tree_wf_ordersAt(2) [OF book_wf_tree [OF assms]] by blast
  show "book_wf (alloc ord xt b)"
    unfolding book_wf_def
  proof (intro conjI allI impI)
    fix i a assume "map_of (orderMap (alloc ord xt b)) i = Some a"
    then have "entry_ok b i a" using e by simp
    then show "entry_ok (alloc ord xt b) i a"
      by (rule entry_okI) (use oa e \<open>entry_ok b i a\<close> in
          \<open>auto simp: nth_append limIds_append_store entry_ok_def\<close>)
  qed (use assms in \<open>auto simp: book_wf_def intro: tree_wf_append\<close>)
  show "abs_book (alloc ord xt b) = abs_book b"
    using e by (auto simp: abs_book_def fun_eq_iff nth_append entry_ok_def split: option.splits
        intro!: map_option_cong)
  show "book_synced b \<Longrightarrow> book_synced (alloc ord xt b)"
    using oa by (auto simp: book_synced_def nth_append)
qed

definition limitIds :: "side \<Rightarrow> dbl \<Rightarrow> kbook \<Rightarrow> uint32 list" where
  "limitIds s p b = limIds (store b) (ordersAt (sideTree s b) p)"

definition setTree :: "side \<Rightarrow> ktree \<Rightarrow> kbook \<Rightarrow> kbook" where
  "setTree s tree b = (if s = BID then b\<lparr>bidTree := tree\<rparr> else b\<lparr>askTree := tree\<rparr>)"

lemma setTree_simps [simp]:
  "store (setTree s tree b) = store b" "orderMap (setTree s tree b) = orderMap b"
  "sideTree r (setTree s tree b) = (if (r = BID) = (s = BID) then tree else sideTree r b)"
  by (simp_all add: setTree_def sideTree_def)

lemma sideTree_update [simp]:
  "sideTree s (b\<lparr>evtTime := t\<rparr>) = sideTree s b" "sideTree s (b\<lparr>orderMap := m\<rparr>) = sideTree s b"
  "sideTree s (b\<lparr>store := h\<rparr>) = sideTree s b" "sideTree s (b\<lparr>exchSndTime := xt\<rparr>) = sideTree s b"
  by (simp_all add: sideTree_def)

lemma book_wf_sides:
  "book_wf b \<longleftrightarrow> (\<forall>s. s \<noteq> NO_SIDE \<longrightarrow> tree_wf s (store b) (sideTree s b)) \<and>
     sm_sorted (orderMap b) \<and> (\<forall>i a. map_of (orderMap b) i = Some a \<longrightarrow> entry_ok b i a)"
proof -
  have "(\<forall>s. s \<noteq> NO_SIDE \<longrightarrow> tree_wf s (store b) (sideTree s b)) \<longleftrightarrow>
      tree_wf BID (store b) (bidTree b) \<and> tree_wf ASK (store b) (askTree b)"
    by (metis side.distinct(1,3,5) side.exhaust sideTree_def)
  then show ?thesis by (auto simp: book_wf_def)
qed

lemma book_add_side:
  assumes "s \<noteq> NO_SIDE"
  shows "book_add i s sz p t xt b = (let ord = \<lparr>ordId = i, ordSide = s, ordSize = sz, ordPrice = p\<rparr>;
      a = length (store b); b1 = alloc ord xt b in do {
        tree \<leftarrow> tree_addOrder (store b1) a t (sideTree s b1);
        Some (1, (setTree s tree b1)\<lparr>evtTime := Some t, orderMap := sm_put i a (orderMap b)\<rparr>)
      })"
  using assms
  by (cases s) (simp_all add: book_add_def Let_def alloc_def addBid_def addAsk_def sideTree_def setTree_def)

lemma limIds_added: "set (limIds h (added h a as)) = insert (ordId (h ! a)) (set (limIds h as))"
  by (auto simp: added_def limIds_def)

lemma book_add_wf:
  assumes wf: "book_wf b" and s: "s \<noteq> NO_SIDE" and sz: "u32_in_range sz"
  shows "\<exists>b'. book_add i s sz p t xt b = Some (1, b') \<and> book_wf b' \<and>
    abs_book b' = (abs_book b)(i \<mapsto> (s, p, sz)) \<and> (book_synced b \<longrightarrow> abs_book b i = None \<longrightarrow> book_synced b') \<and>
    (\<forall>r q. r \<noteq> NO_SIDE \<longrightarrow> limitIds r q b' =
       limitIds r q b @ (if r = s \<and> q = p \<and> i \<notin> set (limitIds r q b) then [i] else []))"
proof -
  define ord where "ord = \<lparr>ordId = i, ordSide = s, ordSize = sz, ordPrice = p\<rparr>"
  define a where "a = length (store b)"
  define b1 where "b1 = alloc ord xt b"
  have wf1: "book_wf b1" and abs1: "abs_book b1 = abs_book b"
    using alloc_wf [OF wf] by (simp_all add: b1_def)
  have a1: "store b1 ! a = ord" "a < length (store b1)" by (simp_all add: b1_def a_def)
  have t1: "tree_wf s (store b1) (sideTree s b1)" using book_wf_tree [OF wf1 s] .
  obtain tree where tree: "tree_addOrder (store b1) a t (sideTree s b1) = Some tree"
    "tree_wf s (store b1) tree"
    "\<And>q. ordersAt tree q = (if q = p then added (store b1) a (ordersAt (sideTree s b1) q)
                            else ordersAt (sideTree s b1) q)"
    using tree_addOrder_wf [OF t1 a1(2), of t] a1 sz by (auto simp: ord_def)
  define b' where "b' = (setTree s tree b1)\<lparr>evtTime := Some t, orderMap := sm_put i a (orderMap b)\<rparr>"
  have st: "store b' = store b1" and om: "orderMap b' = sm_put i a (orderMap b1)"
    and sd: "\<And>r. r \<noteq> NO_SIDE \<Longrightarrow> sideTree r b' = (if r = s then tree else sideTree r b1)"
    using s by (auto simp: b'_def b1_def sideTree_def setTree_def alloc_def) (metis side.exhaust)+
  have ids: "set (limIds (store b1) (ordersAt (sideTree r b') q)) =
      (if r = s \<and> q = p then insert i (set (limIds (store b1) (ordersAt (sideTree r b1) q)))
       else set (limIds (store b1) (ordersAt (sideTree r b1) q)))" if "r \<noteq> NO_SIDE" for r q
    using that a1 by (simp add: sd tree(3) limIds_added ord_def)
  have "book_wf b'"
    unfolding book_wf_sides
  proof (intro conjI allI impI)
    fix r assume "r \<noteq> NO_SIDE"
    then show "tree_wf r (store b') (sideTree r b')"
      using tree(2) book_wf_tree [OF wf1] by (simp add: st sd)
  next
    show "sm_sorted (orderMap b')" using wf1 by (simp add: om book_wf_def)
  next
    fix j c assume j: "map_of (orderMap b') j = Some c"
    show "entry_ok b' j c"
    proof (cases "j = i")
      case True
      then have "c = a" using j by (simp add: om)
      then show ?thesis using True a1 s ids by (simp add: entry_ok_def st ord_def)
    next
      case False
      then have "entry_ok b1 j c" using j book_wf_entry [OF wf1] by (simp add: om)
      then show ?thesis using ids by (auto simp: entry_ok_def st)
    qed
  qed
  moreover have "abs_book b' = (abs_book b)(i \<mapsto> (s, p, sz))"
    unfolding abs1 [symmetric] using a1 by (auto simp: abs_book_def om st fun_eq_iff ord_def)
  moreover have "book_synced b'" if "book_synced b" "abs_book b i = None"
    unfolding book_synced_def
  proof (intro allI ballI impI)
    fix r q c assume r: "r \<noteq> NO_SIDE" and c: "c \<in> set (ordersAt (sideTree r b') q)"
    have i: "map_of (orderMap b1) i = None" using that(2) by (simp add: abs1 [symmetric] abs_book_def)
    have sync1: "\<And>c. c \<in> set (ordersAt (sideTree r b1) q) \<Longrightarrow>
        map_of (orderMap b1) (ordId (store b1 ! c)) = Some c"
      using alloc_wf(3) [OF wf that(1), of ord xt] r unfolding book_synced_def b1_def by blast
    have "c = a \<or> c \<in> set (ordersAt (sideTree r b1) q)"
      using c sd [OF r] tree(3) by (auto simp: added_def split: if_splits)
    then show "map_of (orderMap b') (ordId (store b' ! c)) = Some c"
      using a1 i sync1 [of c] by (auto simp: om st ord_def)
  qed
  moreover have "limitIds r q b' =
      limitIds r q b @ (if r = s \<and> q = p \<and> i \<notin> set (limitIds r q b) then [i] else [])"
    if r: "r \<noteq> NO_SIDE" for r q
  proof -
    have "\<forall>x \<in> set (ordersAt (sideTree r b) q). x < length (store b)"
      using tree_wf_ordersAt(2) [OF book_wf_tree [OF wf r]] by blast
    then have l1: "limIds (store b1) (ordersAt (sideTree r b1) q) = limitIds r q b"
      by (simp add: limitIds_def b1_def limIds_append_store)
    have "limIds (store b1) (added (store b1) a as) =
        limIds (store b1) as @ (if i \<notin> set (limIds (store b1) as) then [i] else [])" for as
      using a1 by (simp add: added_def limIds_def ord_def)
    then show ?thesis
      using l1 unfolding limitIds_def [of r q b'] sd [OF r] st by (auto simp: tree(3))
  qed
  ultimately show ?thesis
    using tree(1) by (simp add: book_add_side [OF s] Let_def ord_def a_def b1_def b'_def)
qed

lemma book_add_no_side:
  assumes "book_wf b"
  shows "\<exists>b'. book_add i NO_SIDE sz p t xt b = Some (0, b') \<and> book_wf b' \<and>
    abs_book b' = abs_book b \<and> (book_synced b \<longrightarrow> book_synced b')"
  using alloc_wf [OF assms, of "\<lparr>ordId = i, ordSide = NO_SIDE, ordSize = sz, ordPrice = p\<rparr>" xt]
  by (simp add: book_add_def Let_def alloc_def)

lemma entry_ok_exch [simp]: "entry_ok (b\<lparr>exchSndTime := xt\<rparr>) i a = entry_ok b i a"
  by (simp add: entry_ok_def)

lemma book_wf_exch [simp]: "book_wf (b\<lparr>exchSndTime := xt\<rparr>) = book_wf b"
  "book_synced (b\<lparr>exchSndTime := xt\<rparr>) = book_synced b" "abs_book (b\<lparr>exchSndTime := xt\<rparr>) = abs_book b"
  "limitIds r q (b\<lparr>exchSndTime := xt\<rparr>) = limitIds r q b"
  by (simp_all add: limitIds_def book_wf_def book_synced_def entry_ok_def abs_book_def fun_eq_iff)

lemma entry_limit:
  assumes "book_wf b" "map_of (orderMap b) i = Some a"
  obtains l c where "ordSide (store b ! a) \<noteq> NO_SIDE"
    "map_of (sideTree (ordSide (store b ! a)) b) (ordPrice (store b ! a)) = Some l"
    "c \<in> set (limOrders l)" "ordId (store b ! c) = i"
    "tree_wf (ordSide (store b ! a)) (store b) (sideTree (ordSide (store b ! a)) b)"
proof -
  have e: "entry_ok b i a" by (rule book_wf_entry [OF assms])
  then have w: "tree_wf (ordSide (store b ! a)) (store b) (sideTree (ordSide (store b ! a)) b)"
    using book_wf_tree [OF assms(1)] by (simp add: entry_ok_def)
  obtain l where l: "map_of (sideTree (ordSide (store b ! a)) b) (ordPrice (store b ! a)) = Some l"
    using e by (cases "map_of (sideTree (ordSide (store b ! a)) b) (ordPrice (store b ! a))")
      (auto simp: entry_ok_def limIds_def ordersAt_def)
  then obtain c where "c \<in> set (limOrders l)" "ordId (store b ! c) = i"
    using e by (auto simp: entry_ok_def limIds_def ordersAt_def)
  then show ?thesis
    using e w l that by (simp add: entry_ok_def)
qed

lemma book_wf_setTree:
  assumes wf: "book_wf b" and s: "s \<noteq> NO_SIDE"
    and trees: "\<And>r. r \<noteq> NO_SIDE \<Longrightarrow> tree_wf r h (if r = s then tree else sideTree r b)"
    and map: "sm_sorted m" "\<And>i a. map_of m i = Some a \<Longrightarrow> map_of (orderMap b) i = Some a"
    and h: "length h = length (store b)"
      "\<And>a. a < length h \<Longrightarrow> ordId (h ! a) = ordId (store b ! a) \<and>
        ordSide (h ! a) = ordSide (store b ! a) \<and> ordPrice (h ! a) = ordPrice (store b ! a)"
    and ids: "\<And>i q. i \<in> dom (map_of m) \<Longrightarrow> i \<in> set (limIds (store b) (ordersAt (sideTree s b) q)) \<Longrightarrow>
        i \<in> set (limIds (store b) (ordersAt tree q))"
  shows "book_wf ((setTree s tree b)\<lparr>store := h, orderMap := m, evtTime := t\<rparr>)" (is "book_wf ?b'")
  unfolding book_wf_sides
proof (intro conjI allI impI)
  have sd: "sideTree r ?b' = (if r = s then tree else sideTree r b)" if "r \<noteq> NO_SIDE" for r
    using that s by (cases r; cases s) (auto simp: sideTree_def setTree_def)
  have li: "limIds h as = limIds (store b) as" if "\<forall>a \<in> set as. a < length h" for as
    using that h(2) by (auto simp: limIds_def)
  fix i a assume "map_of (orderMap ?b') i = Some a"
  then have i: "map_of m i = Some a" by simp
  then have e: "entry_ok b i a" using map(2) book_wf_entry [OF wf] by blast
  let ?s = "ordSide (store b ! a)" and ?p = "ordPrice (store b ! a)"
  have ns: "?s \<noteq> NO_SIDE" and "i \<in> set (limIds (store b) (ordersAt (sideTree ?s b) ?p))"
    using e by (auto simp: entry_ok_def)
  then have "i \<in> set (limIds (store b) (ordersAt (sideTree ?s ?b') ?p))"
    using ids [of i] i unfolding sd [OF ns] by (auto simp: domI)
  moreover have "\<forall>c \<in> set (ordersAt (sideTree ?s ?b') ?p). c < length h"
    unfolding sd [OF ns] using tree_wf_ordersAt(2) [OF trees [OF ns]] by blast
  ultimately have "i \<in> set (limIds h (ordersAt (sideTree ?s ?b') ?p))"
    by (simp add: li)
  then show "entry_ok ?b' i a"
    using e h by (auto simp: entry_ok_def)
next
  fix r assume r: "r \<noteq> NO_SIDE"
  then have "sideTree r ?b' = (if r = s then tree else sideTree r b)"
    using s by (cases r; cases s) (auto simp: sideTree_def setTree_def)
  then show "tree_wf r (store ?b') (sideTree r ?b')" using trees [OF r] by simp
qed (use map in simp)

lemma book_remove_wf:
  assumes wf: "book_wf b"
  shows "\<exists>b'. book_remove i t xt b = Some (if abs_book b i = None then 0 else 1, b') \<and> book_wf b' \<and>
    abs_book b' = (abs_book b)(i := None) \<and> (book_synced b \<longrightarrow> book_synced b') \<and>
    (\<forall>r q. r \<noteq> NO_SIDE \<longrightarrow> limitIds r q b' =
       (if \<exists>sz. abs_book b i = Some (r, q, sz) then filter (\<lambda>j. j \<noteq> i) (limitIds r q b) else limitIds r q b))"
proof (cases "map_of (orderMap b) i")
  case None
  then have "abs_book b i = None" by (simp add: abs_book_def)
  then show ?thesis using None wf by (simp add: book_remove_def book_remove_cmp_def Let_def fun_upd_idem limitIds_def)
next
  case (Some a)
  define s where "s = ordSide (store b ! a)"
  define p where "p = ordPrice (store b ! a)"
  obtain l c where s: "s \<noteq> NO_SIDE" and l: "map_of (sideTree s b) p = Some l"
    and c: "c \<in> set (limOrders l)" "ordId (store b ! c) = i" and tw: "tree_wf s (store b) (sideTree s b)"
    using entry_limit [OF wf Some] unfolding s_def p_def by metis
  obtain tree where tree: "tree_removeOrder (store b) i p l t (sideTree s b) = Some tree"
    "tree_wf s (store b) tree"
    "\<And>q. ordersAt tree q = (if q = p then remove1 c (ordersAt (sideTree s b) q) else ordersAt (sideTree s b) q)"
    using tree_removeOrder_wf [OF tw l c(1), of t] c(2) by metis
  define b' where "b' = (setTree s tree (b\<lparr>exchSndTime := Some xt\<rparr>))
    \<lparr>store := store b, orderMap := sm_del i (orderMap b), evtTime := Some t\<rparr>"
  have sd: "sideTree r b' = (if r = s then tree else sideTree r b)" if "r \<noteq> NO_SIDE" for r
    using that s by (cases r; cases s) (auto simp: sideTree_def setTree_def b'_def)
  have d: "distinct (limIds (store b) (ordersAt (sideTree s b) q))" for q
    by (rule tree_wf_ordersAt(1) [OF tw])
  have cl: "c \<in> set (ordersAt (sideTree s b) p)" using l c by (simp add: ordersAt_def)
  have "book_wf b'"
    unfolding b'_def
  proof (rule book_wf_setTree)
    fix j q assume "j \<in> dom (map_of (sm_del i (orderMap b)))"
      "j \<in> set (limIds (store (b\<lparr>exchSndTime := Some xt\<rparr>)) (ordersAt (sideTree s (b\<lparr>exchSndTime := Some xt\<rparr>)) q))"
    then show "j \<in> set (limIds (store (b\<lparr>exchSndTime := Some xt\<rparr>)) (ordersAt tree q))"
      using limIds_remove1(1) [OF d cl] c(2) by (auto simp: tree(3) split: if_splits)
  qed (use wf s tree(2) book_wf_tree [OF wf] in \<open>auto split: if_splits simp: book_wf_def\<close>)
  moreover have "abs_book b' = (abs_book b)(i := None)"
    by (auto simp: abs_book_def b'_def fun_eq_iff)
  moreover have "book_synced b'" if sy: "book_synced b"
    unfolding book_synced_def
  proof (intro allI ballI impI)
    fix r q x assume r: "r \<noteq> NO_SIDE" and x: "x \<in> set (ordersAt (sideTree r b') q)"
    have xb: "x \<in> set (ordersAt (sideTree r b) q)"
      using x set_remove1_subset [of c "ordersAt (sideTree s b) p"]
      unfolding sd [OF r] by (auto simp: tree(3) split: if_splits)
    moreover have "ordId (store b ! x) \<noteq> i"
    proof
      assume eq: "ordId (store b ! x) = i"
      then have "map_of (orderMap b) i = Some x" "map_of (orderMap b) i = Some c"
        using sy xb r cl c(2) s unfolding book_synced_def by metis+
      then have "x = c" by simp
      moreover have "r = s" "q = p"
        using tree_wf_ordersAt(2) [OF book_wf_tree [OF wf r] xb] tree_wf_ordersAt(2) [OF tw cl] \<open>x = c\<close> by auto
      ultimately show False
        using distinct_limIds [OF d, of p] x \<open>x = c\<close> unfolding sd [OF r] by (auto simp: tree(3))
    qed
    ultimately show "map_of (orderMap b') (ordId (store b' ! x)) = Some x"
      using sy r by (auto simp: book_synced_def b'_def)
  qed
  moreover have "limitIds r q b' =
      (if \<exists>sz. abs_book b i = Some (r, q, sz) then filter (\<lambda>j. j \<noteq> i) (limitIds r q b) else limitIds r q b)"
    if r: "r \<noteq> NO_SIDE" for r q
  proof -
    have ab: "(\<exists>sz. abs_book b i = Some (r, q, sz)) \<longleftrightarrow> r = s \<and> q = p"
      using Some by (auto simp: abs_book_def s_def p_def)
    have "limIds (store b) (remove1 c as) = filter (\<lambda>j. j \<noteq> i) (limIds (store b) as)"
      if "distinct (limIds (store b) as)" "c \<in> set as" for as
      using that c(2) by (induction as) (auto simp: limIds_def intro!: filter_True [symmetric])
    then show ?thesis
      using d cl unfolding limitIds_def ab sd [OF r] by (auto simp: tree(3) b'_def)
  qed
  moreover have "book_remove i t xt b = Some (1, b')"
    using Some s l tree(1) by (cases s) (auto simp: book_remove_def book_remove_cmp_def Let_def s_def [symmetric] p_def [symmetric] sideTree_def setTree_def b'_def)
  moreover have "abs_book b i \<noteq> None" using Some by (simp add: abs_book_def)
  ultimately show ?thesis by auto
qed

definition abs_modify ::
  "uint32 \<Rightarrow> dbl \<Rightarrow> (uint32 \<Rightarrow> (side \<times> dbl \<times> dbl) option) \<Rightarrow> uint32 \<Rightarrow> (side \<times> dbl \<times> dbl) option" where
  "abs_modify i sz m = (case m i of None \<Rightarrow> m | Some (s, p, _) \<Rightarrow> m(i \<mapsto> (s, p, sz)))"

lemma book_modify_wf:
  assumes wf: "book_wf b" and sz: "u32_in_range sz"
  shows "\<exists>b'. book_modify i sz t xt b = Some (if abs_book b i = None then 0 else 1, b') \<and> book_wf b' \<and>
    (book_synced b \<longrightarrow> book_synced b' \<and> abs_book b' = abs_modify i sz (abs_book b)) \<and>
    (\<forall>r q. r \<noteq> NO_SIDE \<longrightarrow> limitIds r q b' = limitIds r q b)"
proof (cases "map_of (orderMap b) i")
  case None
  then have "abs_book b i = None" by (simp add: abs_book_def)
  then show ?thesis using None wf by (simp add: book_modify_def Let_def abs_modify_def)
next
  case (Some a)
  define s where "s = ordSide (store b ! a)"
  define p where "p = ordPrice (store b ! a)"
  obtain l c where s: "s \<noteq> NO_SIDE" and l: "map_of (sideTree s b) p = Some l"
    and c: "c \<in> set (limOrders l)" "ordId (store b ! c) = i" and tw: "tree_wf s (store b) (sideTree s b)"
    using entry_limit [OF wf Some] unfolding s_def p_def by metis
  define h where "h = setSize c sz (store b)"
  obtain tree where tree: "tree_modifyOrder (store b) i sz p l (evtTime b) (sideTree s b) = Some (h, tree)"
    "tree_wf s h tree" "ordersAt tree = ordersAt (sideTree s b)"
    using tree_modifyOrder_wf [OF tw l c(1) sz, of "evtTime b"] c(2) unfolding h_def by metis
  define b' where "b' = (setTree s tree (b\<lparr>exchSndTime := Some xt\<rparr>))
    \<lparr>store := h, orderMap := orderMap b, evtTime := Some t\<rparr>"
  have sd: "sideTree r b' = (if r = s then tree else sideTree r b)" if "r \<noteq> NO_SIDE" for r
    using that s by (cases r; cases s) (auto simp: sideTree_def setTree_def b'_def)
  have cl: "c \<in> set (ordersAt (sideTree s b) p)" using l c by (simp add: ordersAt_def)
  have ch: "c < length (store b)" "ordSide (store b ! c) = s"
    using tree_wf_ordersAt(2) [OF tw cl] by auto
  have keep: "length h = length (store b)" "ordId (h ! x) = ordId (store b ! x)"
    "ordSide (h ! x) = ordSide (store b ! x)" "ordPrice (h ! x) = ordPrice (store b ! x)" for x
    using ch by (simp_all add: h_def)
  have other: "tree_wf r h (sideTree r b)" if "r \<noteq> NO_SIDE" "r \<noteq> s" for r
  proof (rule tree_wf_cong [OF book_wf_tree [OF wf that(1)]])
    fix x q assume "x \<in> set (ordersAt (sideTree r b) q)"
    then have "x \<noteq> c" using tree_wf_ordersAt(2) [OF book_wf_tree [OF wf that(1)]] ch that(2) by blast
    then show "h ! x = store b ! x" using ch by (simp add: h_def)
  qed (simp add: keep)
  have "book_wf b'"
    unfolding b'_def
    by (rule book_wf_setTree) (use wf s tree other keep in \<open>auto simp: book_wf_def\<close>)
  moreover have orders: "\<forall>s p. s \<noteq> NO_SIDE \<longrightarrow> ordersAt (sideTree s b') p = ordersAt (sideTree s b) p"
    using tree(3) sd by auto
  moreover have "book_synced b' \<and> abs_book b' = abs_modify i sz (abs_book b)" if sy: "book_synced b"
  proof
    have "store b' = h" "orderMap b' = orderMap b" by (simp_all add: b'_def)
    then show "book_synced b'" using sy orders by (simp add: book_synced_def keep)
    have "map_of (orderMap b) i = Some c" using sy cl c(2) s unfolding book_synced_def by metis
    then have "a = c" using Some by simp
    show "abs_book b' = abs_modify i sz (abs_book b)"
    proof
      fix j show "abs_book b' j = abs_modify i sz (abs_book b) j"
      proof (cases "map_of (orderMap b) j")
        case (Some d)
        then have "ordId (store b ! d) = j"
          using book_wf_entry [OF wf] by (auto simp: entry_ok_def)
        then show ?thesis
          using Some \<open>map_of (orderMap b) i = Some c\<close> ch c(2)
          by (auto simp: abs_book_def abs_modify_def b'_def h_def)
      qed (use \<open>map_of (orderMap b) i = Some c\<close> in
          \<open>auto simp: abs_book_def abs_modify_def b'_def\<close>)
    qed
  qed
  moreover have "book_modify i sz t xt b = Some (1, b')"
    using Some s l tree(1) by (cases s) (auto simp: book_modify_def Let_def s_def [symmetric]
        p_def [symmetric] sideTree_def setTree_def b'_def)
  moreover have "abs_book b i \<noteq> None" using Some by (simp add: abs_book_def)
  moreover have "limitIds r q b' = limitIds r q b" if "r \<noteq> NO_SIDE" for r q
    using orders that by (simp add: limitIds_def limIds_def b'_def keep)
  ultimately show ?thesis by auto
qed

section \<open>Queries\<close>

lemma getTotalVolumeAtLimit_orders:
  assumes "book_wf b" "s \<noteq> NO_SIDE"
  shows "getTotalVolumeAtLimit s p b = limVol (store b) (ordersAt (sideTree s b) p)"
  using tree_wfD [OF book_wf_tree [OF assms], of p] assms(2)
  by (cases s; cases "map_of (sideTree s b) p")
    (auto simp: getTotalVolumeAtLimit_def sideTree_def ordersAt_def limVol_def lim_wf_def)

lemma getOrderCountAtLimit_orders:
  assumes "s \<noteq> NO_SIDE"
  shows "getOrderCountAtLimit s p b = of_nat (length (ordersAt (sideTree s b) p))"
  using assms
  by (cases s; cases "map_of (sideTree s b) p")
    (auto simp: getOrderCountAtLimit_def sideTree_def ordersAt_def limCount_def)

text \<open>Under \<open>book_synced\<close> the orders at a limit are exactly the ids the abstract map has there.\<close>

definition abs_ids :: "(uint32 \<Rightarrow> (side \<times> dbl \<times> dbl) option) \<Rightarrow> side \<Rightarrow> dbl \<Rightarrow> uint32 set" where
  "abs_ids m s p = {i. \<exists>sz. m i = Some (s, p, sz)}"

definition abs_vol :: "(uint32 \<Rightarrow> (side \<times> dbl \<times> dbl) option) \<Rightarrow> uint32 \<Rightarrow> uint32" where
  "abs_vol m i = (case m i of None \<Rightarrow> 0 | Some (_, _, sz) \<Rightarrow> word_of_int (trunc_dbl sz))"

lemma abs_ids_orders:
  assumes wf: "book_wf b" and sy: "book_synced b" and s: "s \<noteq> NO_SIDE"
  shows "abs_ids (abs_book b) s p = set (limIds (store b) (ordersAt (sideTree s b) p))"
proof
  show "abs_ids (abs_book b) s p \<subseteq> set (limIds (store b) (ordersAt (sideTree s b) p))"
    using book_wf_entry [OF wf] by (auto simp: abs_ids_def abs_book_def entry_ok_def)
  show "set (limIds (store b) (ordersAt (sideTree s b) p)) \<subseteq> abs_ids (abs_book b) s p"
  proof
    fix i assume "i \<in> set (limIds (store b) (ordersAt (sideTree s b) p))"
    then obtain a where a: "a \<in> set (ordersAt (sideTree s b) p)" "i = ordId (store b ! a)"
      by (auto simp: limIds_def)
    then have "map_of (orderMap b) i = Some a" using sy s by (auto simp: book_synced_def)
    then show "i \<in> abs_ids (abs_book b) s p"
      using tree_wf_ordersAt(2) [OF book_wf_tree [OF wf s] a(1)] by (simp add: abs_ids_def abs_book_def)
  qed
qed

lemma abs_vol_orders:
  assumes "book_wf b" "book_synced b" "s \<noteq> NO_SIDE"
  shows "limVol (store b) (ordersAt (sideTree s b) p) =
    (\<Sum>i \<in> abs_ids (abs_book b) s p. abs_vol (abs_book b) i)"
proof -
  let ?as = "ordersAt (sideTree s b) p"
  have d: "distinct (limIds (store b) ?as)" by (rule tree_wf_ordersAt(1) [OF book_wf_tree [OF assms(1,3)]])
  have "sizeVol (store b) a = abs_vol (abs_book b) (ordId (store b ! a))" if "a \<in> set ?as" for a
    using assms(2,3) that by (simp add: book_synced_def abs_vol_def abs_book_def sizeVol_def)
  then have "limVol (store b) ?as = sum_list (map (abs_vol (abs_book b)) (limIds (store b) ?as))"
    unfolding limVol_def limIds_def map_map o_def
    by (intro arg_cong [where f = sum_list] map_cong) auto
  also have "\<dots> = sum (abs_vol (abs_book b)) (set (limIds (store b) ?as))"
    by (rule sum_list_distinct_conv_sum_set [OF d])
  finally show ?thesis by (simp add: abs_ids_orders [OF assms])
qed

lemma tree_prices:
  assumes "tree_wf s h tree"
  shows "dom (map_of tree) = {p. ordersAt tree p \<noteq> []}"
  using ordersAt_empty_iff [OF assms] by (auto simp: dom_def)

lemma tree_key_price: "tree_wf s h tree \<Longrightarrow> (p, l) \<in> set tree \<Longrightarrow> limPrice l = p"
  using tree_wfD [of s h tree p l] sm_in_iff [of tree p l] by (simp add: lim_wf_def)

definition abs_best :: "side \<Rightarrow> (uint32 \<Rightarrow> (side \<times> dbl \<times> dbl) option) \<Rightarrow> dbl" where
  "abs_best s m = (let ps = {p. abs_ids m s p \<noteq> {}} in
     if ps = {} then (if s = BID then of_int NO_BID else of_int NO_ASK)
     else (if s = BID then Max ps else Min ps))"

lemma bestPrice_abs:
  assumes "book_wf b" "book_synced b" "s \<noteq> NO_SIDE"
  shows "bestPrice s b = abs_best s (abs_book b)"
proof -
  let ?t = "sideTree s b"
  have tw: "tree_wf s (store b) ?t" by (rule book_wf_tree [OF assms(1,3)])
  have ps: "{p. abs_ids (abs_book b) s p \<noteq> {}} = dom (map_of ?t)"
    unfolding tree_prices [OF tw] abs_ids_orders [OF assms] by (auto simp: limIds_def)
  have empty: "dom (map_of ?t) = {} \<longleftrightarrow> ?t = []" by (simp add: dom_map_of_conv_image_fst)
  have k: "limPrice (snd x) = fst x" if "x \<in> set ?t" for x
    using tree_key_price [OF tw, of "fst x" "snd x"] that by simp
  have "bestPrice s b = (if ?t = [] then (if s = BID then of_int NO_BID else of_int NO_ASK)
      else if s = BID then fst (last ?t) else fst (hd ?t))"
    using assms(3) k [of "last ?t"] k [of "hd ?t"] by (cases s) (auto simp: bestPrice_def sideTree_def)
  then show ?thesis
    using sm_least [OF tree_wf_sorted [OF tw]] sm_greatest [OF tree_wf_sorted [OF tw]]
    by (auto simp: abs_best_def Let_def ps empty)
qed

section \<open>Runs of the book\<close>

datatype book_op =
    OpAdd uint32 side dbl dbl timespec timespec
  | OpRemove uint32 timespec timespec
  | OpModify uint32 dbl timespec timespec
  | OpClear

fun book_step :: "book_op \<Rightarrow> kbook \<Rightarrow> (int \<times> kbook) option" where
  "book_step (OpAdd i s sz p t xt) b = book_add i s sz p t xt b"
| "book_step (OpRemove i t xt) b = book_remove i t xt b"
| "book_step (OpModify i sz t xt) b = book_modify i sz t xt b"
| "book_step OpClear b = Some (0, book_clear b)"

fun book_run :: "book_op list \<Rightarrow> kbook \<Rightarrow> (int list \<times> kbook) option" where
  "book_run [] b = Some ([], b)"
| "book_run (op # ops) b = do {
     (r, b') \<leftarrow> book_step op b;
     (rs, b'') \<leftarrow> book_run ops b';
     Some (r # rs, b'')
   }"

type_synonym abook = "uint32 \<Rightarrow> (side \<times> dbl \<times> dbl) option"

fun abs_step :: "book_op \<Rightarrow> abook \<Rightarrow> abook" where
  "abs_step (OpAdd i s sz p t xt) m = (if s = NO_SIDE then m else m(i \<mapsto> (s, p, sz)))"
| "abs_step (OpRemove i t xt) m = m(i := None)"
| "abs_step (OpModify i sz t xt) m = abs_modify i sz m"
| "abs_step OpClear m = (\<lambda>_. None)"

fun abs_ret :: "book_op \<Rightarrow> abook \<Rightarrow> int" where
  "abs_ret (OpAdd i s sz p t xt) m = (if s = NO_SIDE then 0 else 1)"
| "abs_ret (OpRemove i t xt) m = (if m i = None then 0 else 1)"
| "abs_ret (OpModify i sz t xt) m = (if m i = None then 0 else 1)"
| "abs_ret OpClear m = 0"

fun sizes_ok :: "book_op \<Rightarrow> bool" where
  "sizes_ok (OpAdd i s sz p t xt) = u32_in_range sz"
| "sizes_ok (OpModify i sz t xt) = u32_in_range sz"
| "sizes_ok _ = True"

fun fresh_op :: "book_op \<Rightarrow> abook \<Rightarrow> bool" where
  "fresh_op (OpAdd i s sz p t xt) m = (s \<noteq> NO_SIDE \<longrightarrow> m i = None)"
| "fresh_op _ m = True"

fun abs_run :: "book_op list \<Rightarrow> abook \<Rightarrow> int list \<times> abook" where
  "abs_run [] m = ([], m)"
| "abs_run (op # ops) m = (let (rs, m') = abs_run ops (abs_step op m) in (abs_ret op m # rs, m'))"

fun fresh_run :: "book_op list \<Rightarrow> abook \<Rightarrow> bool" where
  "fresh_run [] m = True"
| "fresh_run (op # ops) m = (fresh_op op m \<and> fresh_run ops (abs_step op m))"

text \<open>
  What a client of the book relies on: every operation is defined on a state with the invariant,
  keeps it, and, while the ids are fresh, acts on the view as the abstract map does.
\<close>

locale order_store =
  fixes step :: "book_op \<Rightarrow> 'b \<Rightarrow> (int \<times> 'b) option"
    and inv :: "'b \<Rightarrow> bool"
    and synced :: "'b \<Rightarrow> bool"
    and view :: "'b \<Rightarrow> abook"
  assumes step_inv: "inv b \<Longrightarrow> sizes_ok op \<Longrightarrow> \<exists>r b'. step op b = Some (r, b') \<and> inv b'"
    and step_view: "inv b \<Longrightarrow> synced b \<Longrightarrow> sizes_ok op \<Longrightarrow> fresh_op op (view b) \<Longrightarrow>
      \<exists>b'. step op b = Some (abs_ret op (view b), b') \<and> synced b' \<and> view b' = abs_step op (view b)"
begin

fun run :: "book_op list \<Rightarrow> 'b \<Rightarrow> (int list \<times> 'b) option" where
  "run [] b = Some ([], b)"
| "run (op # ops) b = (case step op b of None \<Rightarrow> None | Some (r, b') \<Rightarrow>
     (case run ops b' of None \<Rightarrow> None | Some (rs, b'') \<Rightarrow> Some (r # rs, b'')))"

lemma run_inv:
  "inv b \<Longrightarrow> \<forall>op \<in> set ops. sizes_ok op \<Longrightarrow> \<exists>rs b'. run ops b = Some (rs, b') \<and> inv b'"
proof (induction ops arbitrary: b)
  case (Cons op ops)
  obtain r b' where b': "step op b = Some (r, b')" "inv b'"
    using step_inv Cons.prems by (metis list.set_intros(1))
  then show ?case using Cons.IH [OF b'(2)] Cons.prems(2) by (auto split: option.splits)
qed simp

lemma run_view:
  "inv b \<Longrightarrow> synced b \<Longrightarrow> \<forall>op \<in> set ops. sizes_ok op \<Longrightarrow> fresh_run ops (view b) \<Longrightarrow>
   \<exists>b'. run ops b = Some (fst (abs_run ops (view b)), b') \<and> inv b' \<and> synced b' \<and>
        view b' = snd (abs_run ops (view b))"
proof (induction ops arbitrary: b)
  case (Cons op ops)
  have p: "inv b" "synced b" "sizes_ok op" "fresh_op op (view b)" using Cons.prems by auto
  obtain b' where b': "step op b = Some (abs_ret op (view b), b')" "synced b'"
    "view b' = abs_step op (view b)"
    using step_view [OF p] by blast
  then have "inv b'" using step_inv [OF p(1,3)] by auto
  then show ?case
    using Cons.IH [of b'] Cons.prems b' by (auto split: prod.splits)
qed simp

end

lemma book_step_inv:
  assumes "book_wf b" "sizes_ok op"
  shows "\<exists>r b'. book_step op b = Some (r, b') \<and> book_wf b'"
proof (cases op)
  case (OpAdd i s sz p t xt)
  then show ?thesis
    using book_add_wf [OF assms(1), of s sz i p t xt] book_add_no_side [OF assms(1), of i sz p t xt] assms(2)
    by (cases "s = NO_SIDE") auto
qed (use assms book_remove_wf [OF assms(1)] book_modify_wf [OF assms(1)] book_wf_clear in fastforce)+

lemma book_step_view:
  assumes "book_wf b" "book_synced b" "sizes_ok op" "fresh_op op (abs_book b)"
  shows "\<exists>b'. book_step op b = Some (abs_ret op (abs_book b), b') \<and> book_synced b' \<and>
    abs_book b' = abs_step op (abs_book b)"
proof (cases op)
  case (OpAdd i s sz p t xt)
  then show ?thesis
    using book_add_wf [OF assms(1), of s sz i p t xt] book_add_no_side [OF assms(1), of i sz p t xt] assms
    by (cases "s = NO_SIDE") auto
next
  case (OpRemove i t xt)
  then show ?thesis using book_remove_wf [OF assms(1), of i t xt] assms(2) by auto
next
  case (OpModify i sz t xt)
  then show ?thesis using book_modify_wf [OF assms(1), of sz i t xt] assms(2,3) by auto
qed (use book_wf_clear in simp)

interpretation kbook: order_store book_step book_wf book_synced abs_book
  by unfold_locales (auto intro: book_step_inv book_step_view)

lemma kbook_run: "kbook.run ops b = book_run ops b"
  by (induction ops arbitrary: b) (auto simp: split: option.splits prod.splits Option.bind_splits)

section \<open>The comparison of iterators\<close>

text \<open>A run in which the comparison of an ask's iterator with the end of the bid tree answers \<open>cmp\<close>.\<close>

fun book_step_cmp :: "bool option \<Rightarrow> book_op \<Rightarrow> kbook \<Rightarrow> (int \<times> kbook) option" where
  "book_step_cmp cmp (OpRemove i t xt) b = book_remove_cmp cmp i t xt b"
| "book_step_cmp cmp op b = book_step op b"

fun book_run_cmp :: "bool option \<Rightarrow> book_op list \<Rightarrow> kbook \<Rightarrow> (int list \<times> kbook) option" where
  "book_run_cmp cmp [] b = Some ([], b)"
| "book_run_cmp cmp (op # ops) b = do {
     (r, b') \<leftarrow> book_step_cmp cmp op b;
     (rs, b'') \<leftarrow> book_run_cmp cmp ops b';
     Some (r # rs, b'')
   }"

text \<open>Whether a run removes a live ask, from the sides of the live ids alone.\<close>

fun removes_ask :: "book_op list \<Rightarrow> (uint32 \<Rightarrow> side option) \<Rightarrow> bool" where
  "removes_ask [] m = False"
| "removes_ask (OpAdd i s sz p t xt # ops) m = removes_ask ops (if s = NO_SIDE then m else m(i \<mapsto> s))"
| "removes_ask (OpRemove i t xt # ops) m = (m i = Some ASK \<or> removes_ask ops (m(i := None)))"
| "removes_ask (OpModify i sz t xt # ops) m = removes_ask ops m"
| "removes_ask (OpClear # ops) m = removes_ask ops (\<lambda>_. None)"

definition live_sides :: "kbook \<Rightarrow> uint32 \<Rightarrow> side option" where
  "live_sides b i = map_option fst (abs_book b i)"

lemma setSize_side [simp]: "ordSide (setSize a sz h ! c) = ordSide (h ! c)"
  by (cases "a < length h") (simp_all add: setSize_def nth_list_update list_update_beyond)

lemma live_sides_modify: "book_modify i sz t xt b = Some (r, b') \<Longrightarrow> live_sides b' = live_sides b"
  by (auto simp: book_modify_def Let_def tree_modifyOrder_def lim_modifyOrder_def live_sides_def abs_book_def fun_eq_iff
      option.map_comp comp_def split: if_splits option.splits Option.bind_splits prod.splits)

lemma live_sides_step:
  assumes "book_wf b" "sizes_ok op" "book_step op b = Some (r, b')"
  shows "removes_ask (op # ops) (live_sides b) \<longleftrightarrow>
    (\<exists>i t xt. op = OpRemove i t xt \<and> live_sides b i = Some ASK) \<or> removes_ask ops (live_sides b')"
proof (cases op)
  case (OpAdd i s sz p t xt)
  then have "live_sides b' = (if s = NO_SIDE then live_sides b else (live_sides b)(i \<mapsto> s))"
    using book_add_wf [OF assms(1), of s sz i p t xt] book_add_no_side [OF assms(1), of i sz p t xt] assms(2,3)
    by (cases "s = NO_SIDE") (auto simp: live_sides_def fun_eq_iff)
  then show ?thesis using OpAdd by simp
next
  case (OpRemove i t xt)
  then have "live_sides b' = (live_sides b)(i := None)"
    using book_remove_wf [OF assms(1), of i t xt] assms(3) by (auto simp: live_sides_def fun_eq_iff)
  then show ?thesis using OpRemove by simp
next
  case (OpModify i sz t xt)
  then show ?thesis using live_sides_modify [of i sz t xt b r b'] assms(3) by simp
next
  case OpClear
  then have "live_sides b' = (\<lambda>_. None)" using assms(3) book_wf_clear [of b] by (auto simp: live_sides_def)
  then show ?thesis using OpClear by simp
qed

lemma remove_cmp:
  "book_remove_cmp cmp i t xt b = (if live_sides b i = Some ASK \<and> cmp \<noteq> Some True
     then (if cmp = None then None else Some (0, b\<lparr>exchSndTime := Some xt\<rparr>)) else book_remove i t xt b)"
  by (auto simp: book_remove_def book_remove_cmp_def live_sides_def abs_book_def Let_def split: option.splits bool.splits)

lemma run_cmp_True: "book_run_cmp (Some True) ops b = book_run ops b"
proof (induction ops arbitrary: b)
  case (Cons op ops)
  have "book_step_cmp (Some True) op b = book_step op b" by (cases op) (simp_all add: book_remove_def)
  then show ?case by (simp add: Cons cong: Option.bind_cong)
qed simp

lemma step_cmp_defined:
  assumes "book_wf b" "sizes_ok op"
  shows "\<exists>r b'. book_step_cmp (Some c) op b = Some (r, b') \<and> book_wf b'"
  using book_step_inv [OF assms] assms(1)
  by (cases op) (auto simp: remove_cmp [of "Some c"])

lemma run_cmp_defined:
  "book_wf b \<Longrightarrow> \<forall>op \<in> set ops. sizes_ok op \<Longrightarrow> \<exists>rs b'. book_run_cmp (Some c) ops b = Some (rs, b') \<and> book_wf b'"
proof (induction ops arbitrary: b)
  case (Cons op ops)
  obtain r b' where b': "book_step_cmp (Some c) op b = Some (r, b')" "book_wf b'"
    using step_cmp_defined [OF Cons.prems(1), of op c] Cons.prems(2) by auto
  then show ?case using Cons.IH [OF b'(2)] Cons.prems(2) by auto
qed simp

lemma run_cmp_None:
  "book_wf b \<Longrightarrow> \<forall>op \<in> set ops. sizes_ok op \<Longrightarrow>
    book_run_cmp None ops b = (if removes_ask ops (live_sides b) then None else book_run ops b)"
proof (induction ops arbitrary: b)
  case (Cons op ops)
  obtain r b' where b': "book_step op b = Some (r, b')" "book_wf b'"
    using book_step_inv [OF Cons.prems(1), of op] Cons.prems(2) by auto
  have "book_step_cmp None op b = (if \<exists>i t xt. op = OpRemove i t xt \<and> live_sides b i = Some ASK then None else book_step op b)"
    by (cases op) (simp_all add: remove_cmp [of None])
  then show ?case
    using live_sides_step [OF Cons.prems(1) _ b'(1), of ops] Cons.IH [OF b'(2)] Cons.prems(2) b'(1)
    by (simp split: option.splits) auto
qed simp

section \<open>Properties of the book\<close>

text \<open>
  C1. What a sequence of operations on a new book can run into, as long as the sizes fit
  \<^verbatim>\<open>uint32_t\<close>, whatever ids, sides and prices the feed sends (duplicate adds and unknown ids
  included). The only undefined behaviour is the comparison of an iterator of the ask tree with the end
  of the bid tree in \<^verbatim>\<open>remove\<close>: a run is undefined exactly when the comparison has no answer and
  the run removes a live ask. With either answer every run ends, without a failing assertion, another
  undefined operation or a conversion out of range, and the book keeps its invariant: both trees sorted
  by price without empty limits, each limit's total volume the sum of the sizes of its orders modulo
  2 to the 32, and each id of the order map present at the limit its order names. With the answer of the
  GNU library the run is that of the book as it is built.
\<close>

theorem book_run_defined:
  assumes "\<forall>op \<in> set ops. sizes_ok op"
  shows "(book_run_cmp cmp ops (new_book name depth) = None \<longleftrightarrow> cmp = None \<and> removes_ask ops (\<lambda>_. None)) \<and>
    (\<forall>rs b. book_run_cmp cmp ops (new_book name depth) = Some (rs, b) \<longrightarrow> book_wf b) \<and>
    book_run_cmp (Some True) ops (new_book name depth) = book_run ops (new_book name depth)"
proof -
  let ?b = "new_book name depth"
  have wf: "book_wf ?b" and live: "live_sides ?b = (\<lambda>_. None)"
    using book_wf_new [of name depth] by (simp_all add: live_sides_def fun_eq_iff)
  obtain rs b where r: "book_run ops ?b = Some (rs, b)" "book_wf b"
    using run_cmp_defined [OF wf assms, of True] by (auto simp: run_cmp_True)
  show ?thesis
  proof (cases cmp)
    case None
    then show ?thesis using run_cmp_None [OF wf assms] r by (auto simp: live run_cmp_True)
  next
    case (Some c)
    then show ?thesis using run_cmp_defined [OF wf assms, of c] by (auto simp: run_cmp_True)
  qed
qed

lemma book_run_defined_witness:
  "book_run_cmp None [OpAdd 7 BID 100 (5/4) zero_timespec zero_timespec,
      OpAdd 7 ASK 30 (3/2) zero_timespec zero_timespec, OpModify 7 50 zero_timespec zero_timespec,
      OpRemove 7 zero_timespec zero_timespec] (new_book None 5) = None \<and>
   book_run_cmp None [OpAdd 7 ASK 100 (5/4) zero_timespec zero_timespec,
      OpAdd 7 BID 30 (3/2) zero_timespec zero_timespec, OpModify 7 50 zero_timespec zero_timespec,
      OpRemove 7 zero_timespec zero_timespec] (new_book None 5) \<noteq> None"
  by (intro conjI; subst book_run_defined [THEN conjunct1]) (simp_all add: u32_in_range_def)

text \<open>
  C2. Refinement: while no live id is added a second time, a run of the book returns exactly the
  codes of the abstract map from ids to (side, price, size), and its view is the abstract map's
  final state.
\<close>

theorem book_run_refines:
  assumes "\<forall>op \<in> set ops. sizes_ok op" and "fresh_run ops (\<lambda>_. None)"
  shows "\<exists>b. book_run ops (new_book name depth) = Some (fst (abs_run ops (\<lambda>_. None)), b) \<and>
    abs_book b = snd (abs_run ops (\<lambda>_. None))"
  using kbook.run_view [OF book_wf_new(1,2) assms(1), of name depth] assms(2) book_wf_new(3)
  by (auto simp: kbook_run)

lemma book_run_refines_witness:
  "\<exists>b. book_run [OpAdd 7 BID 100 (5/4) zero_timespec zero_timespec,
      OpRemove 7 zero_timespec zero_timespec, OpAdd 7 ASK 30 (3/2) zero_timespec zero_timespec]
      (new_book None 5) = Some ([1, 1, 1], b) \<and> abs_book b = [7 \<mapsto> (ASK, 3/2, 30)]"
  using book_run_refines [of "[OpAdd 7 BID 100 (5/4) zero_timespec zero_timespec,
      OpRemove 7 zero_timespec zero_timespec, OpAdd 7 ASK 30 (3/2) zero_timespec zero_timespec]" None 5]
  by (simp add: u32_in_range_def)

text \<open>
  C3. What the queries answer after any such run: the best price of a side is the greatest bid
  (least ask) price of a live order, or the sentinel \<^verbatim>\<open>NO_BID\<close> / \<^verbatim>\<open>NO_ASK\<close> on an empty
  side; the volume at a limit is the sum modulo 2 to the 32 of the truncated sizes of the live
  orders there; the count is their number.
\<close>

theorem book_queries_refine:
  assumes "\<forall>op \<in> set ops. sizes_ok op" and "fresh_run ops (\<lambda>_. None)"
    and "book_run ops (new_book name depth) = Some (rs, b)" and "s \<noteq> NO_SIDE"
  shows "let m = snd (abs_run ops (\<lambda>_. None)) in
    bestPrice s b = abs_best s m \<and>
    getTotalVolumeAtLimit s p b = (\<Sum>i \<in> abs_ids m s p. abs_vol m i) \<and>
    getOrderCountAtLimit s p b = of_nat (card (abs_ids m s p))"
proof -
  have b: "book_wf b" "book_synced b" "abs_book b = snd (abs_run ops (\<lambda>_. None))"
    using kbook.run_view [OF book_wf_new(1,2) assms(1), of name depth] assms(2,3) book_wf_new(3)
    by (auto simp: kbook_run)
  have "card (abs_ids (abs_book b) s p) = length (ordersAt (sideTree s b) p)"
    using distinct_card [OF tree_wf_ordersAt(1) [OF book_wf_tree [OF b(1) assms(4)], of p]]
    by (simp add: abs_ids_orders [OF b(1,2) assms(4)] limIds_def)
  then show ?thesis
    unfolding b(3) [symmetric] Let_def
    by (simp add: bestPrice_abs [OF b(1,2) assms(4)] getTotalVolumeAtLimit_orders [OF b(1) assms(4)]
        abs_vol_orders [OF b(1,2) assms(4)] getOrderCountAtLimit_orders [OF assms(4)])
qed

lemma book_queries_refine_witness:
  "case book_run [OpAdd 7 BID 100 (5/4) zero_timespec zero_timespec,
      OpAdd 8 BID 30 (3/2) zero_timespec zero_timespec] (new_book None 5) of None \<Rightarrow> False
   | Some (rs, b) \<Rightarrow> bestPrice BID b = abs_best BID [7 \<mapsto> (BID, 5/4, 100), 8 \<mapsto> (BID, 3/2, 30)]"
proof -
  let ?ops = "[OpAdd 7 BID 100 (5/4) zero_timespec zero_timespec,
      OpAdd 8 BID 30 (3/2) zero_timespec zero_timespec]"
  have ok: "\<forall>op \<in> set ?ops. sizes_ok op" "fresh_run ?ops (\<lambda>_. None)" by (simp_all add: u32_in_range_def)
  obtain rs b where b: "book_run ?ops (new_book None 5) = Some (rs, b)"
    using kbook.run_inv [OF book_wf_new(1) ok(1), of None 5] by (auto simp: kbook_run)
  show ?thesis
    using book_queries_refine [OF ok b, of BID] b by (simp add: Let_def)
qed

text \<open>
  C4. Time priority: an add appends the new id at the end of the queue of its limit, a remove takes
  only that id out, a modify keeps every queue as it is, and no operation touches the queue of
  another limit.
\<close>

theorem book_queue_priority:
  assumes "book_wf b" and "u32_in_range sz" and "s \<noteq> NO_SIDE" and "r \<noteq> NO_SIDE"
  shows "(\<exists>b'. book_add i s sz p t xt b = Some (1, b') \<and>
      limitIds r q b' = limitIds r q b @ (if r = s \<and> q = p \<and> i \<notin> set (limitIds r q b) then [i] else [])) \<and>
    (\<exists>c b'. book_remove i t xt b = Some (c, b') \<and>
      limitIds r q b' = (if \<exists>z. abs_book b i = Some (r, q, z)
        then filter (\<lambda>j. j \<noteq> i) (limitIds r q b) else limitIds r q b)) \<and>
    (\<exists>c b'. book_modify i sz t xt b = Some (c, b') \<and> limitIds r q b' = limitIds r q b)"
  using book_add_wf [OF assms(1,3,2), of i p t xt] book_remove_wf [OF assms(1), of i t xt]
    book_modify_wf [OF assms(1,2), of i t xt] assms(4) by metis

lemma book_queue_priority_witness:
  "\<exists>b b'. book_add 1 BID 10 2 zero_timespec zero_timespec (new_book None 5) = Some (1, b) \<and>
     book_add 9 BID 40 2 zero_timespec zero_timespec b = Some (1, b') \<and> limitIds BID 2 b' = [1, 9]"
proof -
  have r: "u32_in_range 10" "u32_in_range 40" by (simp_all add: u32_in_range_def)
  obtain b where b: "book_add 1 BID 10 2 zero_timespec zero_timespec (new_book None 5) = Some (1, b)"
    "book_wf b" "limitIds BID 2 b = [1]"
    using book_add_wf [OF book_wf_new(1) _ r(1), of BID 1 2 zero_timespec zero_timespec None 5]
    by (auto simp: limitIds_def ordersAt_def sideTree_def new_book_def limIds_def)
  then show ?thesis
    using book_queue_priority [OF b(2) r(2), of BID BID 9 2 zero_timespec zero_timespec 2] by auto
qed

text \<open>
  A second add of an id that is still in the limit it names reports success and replaces the
  entry of the order map, but leaves the limit's queue and total volume unchanged: from then on
  \<^verbatim>\<open>getOrder\<close> answers with an order that no limit contains.
\<close>

theorem book_duplicate_add:
  assumes "book_wf b" and "s \<noteq> NO_SIDE" and "i \<in> set (limitIds s p b)"
  shows "\<exists>b'. book_add i s sz p t xt b = Some (1, b') \<and>
    getTotalVolumeAtLimit s p b' = getTotalVolumeAtLimit s p b \<and>
    getOrderCountAtLimit s p b' = getOrderCountAtLimit s p b \<and>
    getOrder i b' = Some \<lparr>ordId = i, ordSide = s, ordSize = sz, ordPrice = p\<rparr>"
proof -
  let ?ord = "\<lparr>ordId = i, ordSide = s, ordSize = sz, ordPrice = p\<rparr>"
  obtain l where l: "map_of (sideTree s b) p = Some l" "i \<in> set (limIds (store b) (limOrders l))"
    using assms(3) by (cases "map_of (sideTree s b) p") (auto simp: limitIds_def ordersAt_def limIds_def)
  have "\<forall>a \<in> set (limOrders l). a < length (store b)"
    using tree_wfD [OF book_wf_tree [OF assms(1,2)] l(1)] by (auto simp: lim_wf_def)
  then have "lim_findOrder (store b @ [?ord]) i l \<noteq> None"
    using l(2) by (simp add: lim_findOrder_None limIds_append_store)
  then have "lim_addOrder (store b @ [?ord]) (length (store b)) l = Some (0, l)"
    by (auto simp: lim_addOrder_def)
  then show ?thesis
    using l(1) assms(2)
    by (cases s) (auto simp: book_add_side Let_def tree_addOrder_def sideTree_def setTree_def
        getTotalVolumeAtLimit_def getOrderCountAtLimit_def getOrder_def setUpdateTime_def limCount_def)
qed

lemma book_duplicate_add_witness:
  "\<exists>b b'. book_add 1 ASK 10 2 zero_timespec zero_timespec (new_book None 5) = Some (1, b) \<and>
     book_add 1 ASK 40 2 zero_timespec zero_timespec b = Some (1, b') \<and>
     getTotalVolumeAtLimit ASK 2 b' = getTotalVolumeAtLimit ASK 2 b \<and>
     getOrder 1 b' = Some \<lparr>ordId = 1, ordSide = ASK, ordSize = 40, ordPrice = 2\<rparr>"
proof -
  have r: "u32_in_range 10" by (simp add: u32_in_range_def)
  obtain b where b: "book_add 1 ASK 10 2 zero_timespec zero_timespec (new_book None 5) = Some (1, b)"
    "book_wf b" "limitIds ASK 2 b = [1]"
    using book_add_wf [OF book_wf_new(1) _ r, of ASK 1 2 zero_timespec zero_timespec None 5]
    by (auto simp: limitIds_def ordersAt_def sideTree_def new_book_def limIds_def)
  then show ?thesis
    using book_duplicate_add [OF b(2), of ASK 1 2 40 zero_timespec zero_timespec] by auto
qed

end
