(* ===== verification/RingBuffer.thy ===== *)
theory RingBuffer
  imports Prelude
begin

text \<open>
  The expandable ring buffer of \<^verbatim>\<open>src/market_data/itch/ExpandableRingBuffer.cpp\<close>.

  The heap block is a list of cells; a cell is \<open>None\<close> as long as nothing was written to it, so that
  reading memory \<^verbatim>\<open>realloc\<close> left uninitialised is visible. An access outside the block, a
  failing \<^verbatim>\<open>assert\<close> and a \<^verbatim>\<open>memcpy\<close> with a negative length are \<open>None\<close>. Lengths and
  offsets are never negative and kept as naturals; a sum that leaves the range of \<^verbatim>\<open>int\<close>, which
  C++ does not define, is \<open>None\<close> too.

  The buffer is a queue of bytes: \<open>repr\<close> relates it to the bytes it holds.
\<close>

section \<open>Memory blocks\<close>

type_synonym cells = "char option list"

definition mem_read :: "nat \<Rightarrow> nat \<Rightarrow> cells \<Rightarrow> cells option" where
  "mem_read p n m = (if p + n \<le> length m then Some (take n (drop p m)) else None)"

definition mem_write :: "nat \<Rightarrow> cells \<Rightarrow> cells \<Rightarrow> cells option" where
  "mem_write p xs m =
     (if p + length xs \<le> length m then Some (take p m @ xs @ drop (p + length xs) m) else None)"

definition mem_move :: "nat \<Rightarrow> nat \<Rightarrow> nat \<Rightarrow> cells \<Rightarrow> cells option" where
  "mem_move dst src n m = do { xs \<leftarrow> mem_read src n m; mem_write dst xs m }"

definition mem_realloc :: "nat \<Rightarrow> cells option \<Rightarrow> cells" where
  "mem_realloc n p = (let m = (case p of None \<Rightarrow> [] | Some m \<Rightarrow> m)
     in take n m @ replicate (n - length m) None)"

text \<open>\<^verbatim>\<open>memchr\<close>: comparing an uninitialised cell is not defined.\<close>

fun mem_chr :: "char \<Rightarrow> nat \<Rightarrow> nat \<Rightarrow> cells \<Rightarrow> nat option option" where
  "mem_chr c 0 p m = Some None"
| "mem_chr c (Suc n) p m =
     (if p < length m then
        (case m ! p of None \<Rightarrow> None
         | Some d \<Rightarrow> if d = c then Some (Some p) else mem_chr c n (Suc p) m)
      else None)"

lemma mem_write_Some_iff [simp]: "(\<exists>m'. mem_write p xs m = Some m') \<longleftrightarrow> p + length xs \<le> length m"
  by (simp add: mem_write_def)

lemma mem_write_nth:
  assumes "mem_write p xs m = Some m'" "k < length m"
  shows "m' ! k = (if p \<le> k \<and> k < p + length xs then xs ! (k - p) else m ! k)"
  using assms by (auto simp: mem_write_def nth_append min_def split: if_splits)

lemma mem_write_length: "mem_write p xs m = Some m' \<Longrightarrow> length m' = length m"
  by (auto simp: mem_write_def split: if_splits)

lemma mem_read_nth:
  assumes "mem_read p n m = Some xs"
  shows "length xs = n" "k < n \<Longrightarrow> xs ! k = m ! (p + k)"
  using assms by (auto simp: mem_read_def split: if_splits)

section \<open>The buffer\<close>

record ring =
  blockSize :: nat
  bufHead :: "cells option"
  bufLength :: nat
  dataOffset :: nat
  dataLength :: nat

definition DEFAULT_RINGBUFFER_BLOCKSIZE :: nat where
  "DEFAULT_RINGBUFFER_BLOCKSIZE = 8192"

definition new_ring :: "int \<Rightarrow> ring" where
  "new_ring n = \<lparr>blockSize = (if n \<le> 0 then DEFAULT_RINGBUFFER_BLOCKSIZE else nat n),
     bufHead = None, bufLength = 0, dataOffset = 0, dataLength = 0\<rparr>"

text \<open>A sum of two or three \<^verbatim>\<open>int\<close> values.\<close>

definition int_ok :: "nat \<Rightarrow> bool" where
  "int_ok n \<longleftrightarrow> int n < 2147483648"

definition round_up :: "nat \<Rightarrow> nat \<Rightarrow> nat" where
  "round_up n bs = ((n + bs - 1) div bs) * bs"

definition ring_unwrap :: "nat \<Rightarrow> ring \<Rightarrow> cells \<Rightarrow> cells option" where
  "ring_unwrap newLen rb m = (let dend = (dataOffset rb + dataLength rb) mod bufLength rb in
     if \<not> int_ok (dataOffset rb + dataLength rb) then None
     else if dend < dataOffset rb then
       let newFree = newLen - bufLength rb;
           mv = (if dend < newFree then dend else newFree)
       in do {
         m1 \<leftarrow> mem_move (bufLength rb) 0 mv m;
         if mv < dend then mem_move mv 0 (dend - mv) m1 else Some m1
       }
     else Some m)"

definition ring_expand :: "nat \<Rightarrow> ring \<Rightarrow> cells \<Rightarrow> (cells \<times> nat) option" where
  "ring_expand n rb m =
     (if int (bufLength rb) - int (dataLength rb) < int n then
        if \<not> int_ok (dataLength rb + n + blockSize rb) then None
        else let newLen = round_up (dataLength rb + n) (blockSize rb);
            m1 = mem_realloc newLen (Some m)
        in do {
          m2 \<leftarrow> (if dataLength rb > 0 then ring_unwrap newLen rb m1 else Some m1);
          Some (m2, newLen)
        }
      else Some (m, bufLength rb))"

definition ring_append :: "string \<Rightarrow> nat \<Rightarrow> nat \<Rightarrow> nat \<Rightarrow> cells \<Rightarrow> cells option" where
  "ring_append bytes off len bl m = (let dend = (off + len) mod bl; n = length bytes in
     if \<not> int_ok (off + len) then None
     else if dend > off then
       let trailing = bl - dend; mv = (if n > trailing then trailing else n)
       in do {
         m1 \<leftarrow> mem_write dend (map Some (take mv bytes)) m;
         if mv < n then mem_write 0 (map Some (drop mv bytes)) m1 else Some m1
       }
     else mem_write dend (map Some bytes) m)"

definition writeData :: "string \<Rightarrow> ring \<Rightarrow> ring option" where
  "writeData bytes rb =
     (let n = length bytes in
      if n = 0 then Some rb
      else case bufHead rb of
        None \<Rightarrow>
          if dataOffset rb = 0 \<and> int_ok (n + blockSize rb) then do {
            let newLen = round_up n (blockSize rb);
            let (m, bl) = (if newLen > bufLength rb then (mem_realloc newLen None, newLen)
                           else ([], bufLength rb));
            m' \<leftarrow> mem_write 0 (map Some bytes) m;
            Some (rb\<lparr>bufHead := Some m', bufLength := bl, dataLength := n\<rparr>)
          } else None
      | Some m0 \<Rightarrow>
          if dataLength rb = 0 then
            if dataOffset rb = 0 \<and> int_ok (n + blockSize rb) then do {
              let newLen = round_up n (blockSize rb);
              let (m, bl) = (if newLen > bufLength rb then (mem_realloc newLen (Some m0), newLen)
                             else (m0, bufLength rb));
              m' \<leftarrow> mem_write 0 (map Some bytes) m;
              Some (rb\<lparr>bufHead := Some m', bufLength := bl, dataLength := n\<rparr>)
            } else None
          else do {
            (m, bl) \<leftarrow> ring_expand n rb m0;
            m' \<leftarrow> ring_append bytes (dataOffset rb) (dataLength rb) bl m;
            Some (rb\<lparr>bufHead := Some m', bufLength := bl, dataLength := dataLength rb + n\<rparr>)
          })"

definition peekByte :: "ring \<Rightarrow> char option option" where
  "peekByte rb =
     (case bufHead rb of None \<Rightarrow> Some (Some (CHR 0x00))
      | Some m \<Rightarrow>
          if dataLength rb = 0 then Some (Some (CHR 0x00))
          else if dataOffset rb < length m then Some (m ! dataOffset rb) else None)"

definition readData :: "int \<Rightarrow> ring \<Rightarrow> (cells \<times> ring) option" where
  "readData nLength rb =
     (case bufHead rb of None \<Rightarrow> Some ([], rb)
      | Some m \<Rightarrow>
          if dataLength rb = 0 then Some ([], rb)
          else
            let k = (if nLength > int (dataLength rb) then int (dataLength rb) else nLength) in
            if k < 0 \<or> \<not> int_ok (dataOffset rb + nat k) then None
            else let n = nat k in do {
              xs \<leftarrow> (if dataOffset rb + n > bufLength rb then
                        let mv = bufLength rb - dataOffset rb in do {
                          a \<leftarrow> mem_read (dataOffset rb) mv m;
                          c \<leftarrow> mem_read 0 (n - mv) m;
                          Some (a @ c)
                        }
                      else mem_read (dataOffset rb) n m);
              let len = dataLength rb - n;
              Some (xs, rb\<lparr>dataOffset := (if len = 0 then 0 else (dataOffset rb + n) mod bufLength rb),
                           dataLength := len\<rparr>)
            })"

definition offsetOfByte :: "char \<Rightarrow> ring \<Rightarrow> int option" where
  "offsetOfByte c rb =
     (case bufHead rb of None \<Rightarrow> Some (- 1)
      | Some m \<Rightarrow>
          if dataLength rb = 0 then Some (- 1)
          else if \<not> int_ok (dataOffset rb + dataLength rb) then None
          else if dataOffset rb + dataLength rb > bufLength rb then
            let trailing = bufLength rb - dataOffset rb in do {
              r \<leftarrow> mem_chr c trailing (dataLength rb) m;
              (case r of
                 None \<Rightarrow> do {
                   r2 \<leftarrow> mem_chr c (dataLength rb - trailing) 0 m;
                   Some (case r2 of Some p \<Rightarrow> int p + int trailing | None \<Rightarrow> - 1)
                 }
               | Some p \<Rightarrow> Some (int p - int (dataOffset rb)))
            }
          else do {
            r \<leftarrow> mem_chr c (dataLength rb) (dataOffset rb) m;
            Some (case r of Some p \<Rightarrow> int p - int (dataOffset rb) | None \<Rightarrow> - 1)
          })"

definition containsByte :: "char \<Rightarrow> ring \<Rightarrow> bool option" where
  "containsByte c rb = map_option (\<lambda>i. i \<ge> 0) (offsetOfByte c rb)"

definition readDataUtilByte :: "int \<Rightarrow> char \<Rightarrow> bool \<Rightarrow> ring \<Rightarrow> (cells \<times> ring) option" where
  "readDataUtilByte nMaxLength c incl rb =
     (if bufHead rb = None \<or> dataLength rb = 0 then Some ([], rb)
      else do {
        off \<leftarrow> offsetOfByte c rb;
        let p = (if off < 0 then int (dataLength rb) else if incl then off + 1 else off);
        readData (if nMaxLength > p then p else nMaxLength) rb
      })"

section \<open>The bytes a buffer holds\<close>

definition ring_idx :: "nat \<Rightarrow> nat \<Rightarrow> nat \<Rightarrow> nat" where
  "ring_idx off bl i = (if off + i < bl then off + i else off + i - bl)"

definition holds :: "cells \<Rightarrow> nat \<Rightarrow> nat \<Rightarrow> string \<Rightarrow> bool" where
  "holds m off bl ds \<longleftrightarrow> length m = bl \<and> off < bl \<and> length ds \<le> bl \<and>
     (\<forall>i < length ds. m ! ring_idx off bl i = Some (ds ! i))"

text \<open>Blocks are multiples of the block size of less than a gibibyte: twice their length is an \<^verbatim>\<open>int\<close>, so that no sum of an offset and
  a length overflows.\<close>

definition ring_repr :: "ring \<Rightarrow> string \<Rightarrow> bool" where
  "ring_repr rb ds \<longleftrightarrow> 0 < blockSize rb \<and> length ds = dataLength rb \<and>
     (ds = [] \<longrightarrow> dataOffset rb = 0) \<and>
     (case bufHead rb of None \<Rightarrow> bufLength rb = 0 \<and> ds = []
      | Some m \<Rightarrow> holds m (dataOffset rb) (bufLength rb) ds \<and> blockSize rb dvd bufLength rb \<and> bufLength rb < 2 ^ 30)"

lemma ring_repr_new: "ring_repr (new_ring n) []"
  by (simp add: ring_repr_def new_ring_def DEFAULT_RINGBUFFER_BLOCKSIZE_def)

lemma round_up_ge: "0 < bs \<Longrightarrow> n \<le> round_up n bs"
proof -
  assume bs: "0 < bs"
  have "(n + bs - 1) div bs * bs + (n + bs - 1) mod bs = n + bs - 1" by simp
  moreover have "(n + bs - 1) mod bs < bs" using bs by simp
  ultimately show ?thesis unfolding round_up_def using bs by linarith
qed

lemma round_up_bounds:
  assumes "0 < bs" "0 < n"
  shows "bs dvd round_up n bs" "round_up n bs < n + bs" "n \<le> bl \<Longrightarrow> bs dvd bl \<Longrightarrow> round_up n bs \<le> bl"
proof -
  show "bs dvd round_up n bs" by (simp add: round_up_def)
  show "round_up n bs \<le> bl" if "n \<le> bl" "bs dvd bl"
  proof -
    note le = that
    obtain k where k: "bl = bs * k" using le(2) by (elim dvdE)
    have "(n + bs - 1) div bs \<le> (bs * k + (bs - 1)) div bs" using le(1) k by (intro div_le_mono) auto
    also have "\<dots> = k" using assms(1) by (intro div_nat_eqI) (auto simp: algebra_simps)
    finally show ?thesis by (simp add: round_up_def k mult.commute)
  qed
  have "(n + bs - 1) div bs * bs \<le> n + bs - 1" by simp
  then show "round_up n bs < n + bs" unfolding round_up_def using assms by linarith
qed

lemma ring_repr_ints:
  assumes "ring_repr rb ds" "bufHead rb = Some m"
  shows "int_ok (dataOffset rb + dataLength rb)" "blockSize rb \<le> bufLength rb"
proof -
  have b: "dataOffset rb < bufLength rb" "dataLength rb \<le> bufLength rb" "bufLength rb < 2 ^ 30" "blockSize rb dvd bufLength rb"
    using assms by (auto simp: ring_repr_def holds_def)
  then show "int_ok (dataOffset rb + dataLength rb)" by (simp add: int_ok_def)
  show "blockSize rb \<le> bufLength rb" using b by (intro dvd_imp_le) auto
qed

lemma int_ok_mono: "int_ok n \<Longrightarrow> m \<le> n \<Longrightarrow> int_ok m"
  by (simp add: int_ok_def)

lemma mem_realloc_length [simp]: "length (mem_realloc n p) = n"
  by (simp add: mem_realloc_def Let_def)

lemma mem_realloc_nth: "k < length m \<Longrightarrow> k < n \<Longrightarrow> mem_realloc n (Some m) ! k = m ! k"
  by (simp add: mem_realloc_def nth_append)

lemma mem_write_total:
  assumes "p + length xs \<le> length m"
  shows "\<exists>m'. mem_write p xs m = Some m' \<and> length m' = length m \<and>
    (\<forall>k < length m. m' ! k = (if p \<le> k \<and> k < p + length xs then xs ! (k - p) else m ! k))"
proof -
  obtain m' where "mem_write p xs m = Some m'" using assms mem_write_Some_iff by blast
  then show ?thesis using mem_write_nth mem_write_length by blast
qed

lemma mem_move_total:
  assumes "src + n \<le> length m" "dst + n \<le> length m"
  shows "\<exists>m'. mem_move dst src n m = Some m' \<and> length m' = length m \<and>
    (\<forall>k < length m. m' ! k = (if dst \<le> k \<and> k < dst + n then m ! (src + (k - dst)) else m ! k))"
proof -
  have r: "mem_read src n m = Some (take n (drop src m))" using assms by (simp add: mem_read_def)
  have l: "length (take n (drop src m)) = n" using assms by simp
  obtain m' where m': "mem_write dst (take n (drop src m)) m = Some m'" "length m' = length m"
    "\<forall>k < length m. m' ! k = (if dst \<le> k \<and> k < dst + n then take n (drop src m) ! (k - dst) else m ! k)"
    using mem_write_total [of dst "take n (drop src m)" m] assms(2) unfolding l by blast
  moreover have "take n (drop src m) ! (k - dst) = m ! (src + (k - dst))" if "dst \<le> k \<and> k < dst + n" for k
    using that assms by (simp add: less_diff_conv2)
  ultimately show ?thesis using r by (auto simp: mem_move_def)
qed

lemma mem_write_bytes:
  assumes "p + length bs \<le> length m"
  shows "\<exists>m'. mem_write p (map Some bs) m = Some m' \<and> length m' = length m \<and>
    (\<forall>k < length m. m' ! k = (if p \<le> k \<and> k < p + length bs then Some (bs ! (k - p)) else m ! k))"
proof -
  obtain m' where m': "mem_write p (map Some bs) m = Some m'" "length m' = length m"
    "\<forall>k < length m. m' ! k = (if p \<le> k \<and> k < p + length bs then map Some bs ! (k - p) else m ! k)"
    using mem_write_total [of p "map Some bs" m] assms by auto
  moreover have "map Some bs ! (k - p) = Some (bs ! (k - p))" if "p \<le> k \<and> k < p + length bs" for k
    using that by (intro nth_map) auto
  ultimately show ?thesis by auto
qed

lemma mem_write_prefix:
  assumes "p + n \<le> length m" "n \<le> length bs"
  shows "\<exists>m'. mem_write p (map Some (take n bs)) m = Some m' \<and> length m' = length m \<and>
    (\<forall>k < length m. m' ! k = (if p \<le> k \<and> k < p + n then Some (bs ! (k - p)) else m ! k))"
proof -
  have l: "length (take n bs) = n" using assms by simp
  obtain m' where m': "mem_write p (map Some (take n bs)) m = Some m'" "length m' = length m"
    "\<forall>k < length m. m' ! k = (if p \<le> k \<and> k < p + n then Some (take n bs ! (k - p)) else m ! k)"
    using mem_write_bytes [of p "take n bs" m] assms unfolding l by blast
  moreover have "take n bs ! (k - p) = bs ! (k - p)" if "p \<le> k \<and> k < p + n" for k
    using that by (simp add: less_diff_conv2)
  ultimately show ?thesis by auto
qed

lemma ring_idx_cases:
  assumes "off < bl" "i < bl"
  shows "ring_idx off bl i < bl" "off + i < bl \<Longrightarrow> ring_idx off bl i = off + i"
    "bl \<le> off + i \<Longrightarrow> ring_idx off bl i = off + i - bl"
  using assms by (auto simp: ring_idx_def)

lemma holds_nth: "holds m off bl ds \<Longrightarrow> i < length ds \<Longrightarrow> m ! ring_idx off bl i = Some (ds ! i)"
  by (simp add: holds_def)

text \<open>Appending where the free space is split: up to the end of the block, then from its head.\<close>

lemma ring_append_split:
  assumes h: "holds m off bl ds" and n: "length ds + length bytes \<le> bl"
    and lt: "off + length ds < bl" and mv: "mv = min (length bytes) (bl - (off + length ds))"
    and w1: "length m1 = bl"
      "\<And>k. k < bl \<Longrightarrow> m1 ! k = (if off + length ds \<le> k \<and> k < off + length ds + mv
        then Some (bytes ! (k - (off + length ds))) else m ! k)"
    and w2: "length m2 = bl"
      "\<And>k. k < bl \<Longrightarrow> m2 ! k = (if k < length bytes - mv then Some (bytes ! (mv + k)) else m1 ! k)"
  shows "holds m2 off bl (ds @ bytes)"
  unfolding holds_def
proof (intro conjI allI impI)
  fix i assume i: "i < length (ds @ bytes)"
  then have ib: "i < bl" using n by simp
  have off: "off < bl" using h by (simp add: holds_def)
  consider (old) "i < length ds" | (tail) "length ds \<le> i" "off + i < bl" | (wrap) "length ds \<le> i" "bl \<le> off + i"
    by linarith
  then show "m2 ! ring_idx off bl i = Some ((ds @ bytes) ! i)"
  proof cases
    case old
    have k: "ring_idx off bl i < bl" "ring_idx off bl i < off + length ds"
      "\<not> ring_idx off bl i < length bytes - mv"
      using old off ib n mv lt by (auto simp: ring_idx_def)
    then show ?thesis using old holds_nth [OF h old] by (simp add: w1(2) w2(2) nth_append)
  next
    case tail
    have k: "\<not> off + i < length bytes - mv" "off + i < off + length ds + mv"
      using tail i mv n by auto
    have "m2 ! (off + i) = m1 ! (off + i)" using k tail by (simp add: w2(2))
    also have "\<dots> = Some (bytes ! (i - length ds))" using k tail by (simp add: w1(2))
    finally show ?thesis using tail by (simp add: ring_idx_def nth_append)
  next
    case wrap
    have k: "off + i - bl < length bytes - mv" "mv + (off + i - bl) = i - length ds" "off + i - bl < bl"
      using wrap i mv n lt off ib by auto
    have "m2 ! (off + i - bl) = Some (bytes ! (i - length ds))" using k by (simp add: w2(2))
    then show ?thesis using wrap by (simp add: ring_idx_def nth_append)
  qed
qed (use assms in \<open>auto simp: holds_def\<close>)

lemma ring_append_joined:
  assumes h: "holds m off bl ds" and n: "length ds + length bytes \<le> bl"
    and ge: "bl \<le> off + length ds"
    and w1: "length m1 = bl"
      "\<And>k. k < bl \<Longrightarrow> m1 ! k = (if off + length ds - bl \<le> k \<and> k < off + length ds - bl + length bytes
        then Some (bytes ! (k - (off + length ds - bl))) else m ! k)"
  shows "holds m1 off bl (ds @ bytes)"
  unfolding holds_def
proof (intro conjI allI impI)
  fix i assume i: "i < length (ds @ bytes)"
  then have ib: "i < bl" using n by simp
  have off: "off < bl" using h by (simp add: holds_def)
  show "m1 ! ring_idx off bl i = Some ((ds @ bytes) ! i)"
  proof (cases "i < length ds")
    case True
    have "ring_idx off bl i < bl"
      "\<not> (off + length ds - bl \<le> ring_idx off bl i \<and> ring_idx off bl i < off + length ds - bl + length bytes)"
      using True off ib n ge by (auto simp: ring_idx_def)
    then have "m1 ! ring_idx off bl i = m ! ring_idx off bl i"
      unfolding w1(2) [OF \<open>ring_idx off bl i < bl\<close>] by (intro if_not_P)
    then show ?thesis using True holds_nth [OF h True] by (simp add: nth_append)
  next
    case False
    have k: "ring_idx off bl i = off + i - bl" "off + i - bl < bl" "off + length ds - bl \<le> off + i - bl"
      "off + i - bl < off + length ds - bl + length bytes" "off + i - bl - (off + length ds - bl) = i - length ds"
      using False i off ib n ge by (auto simp: ring_idx_def)
    have "m1 ! (off + i - bl) = Some (bytes ! (i - length ds))"
      using k(2-4) unfolding w1(2) [OF k(2)] k(5) by simp
    then show ?thesis using False by (simp add: k(1) nth_append)
  qed
qed (use assms in \<open>auto simp: holds_def\<close>)

lemma ring_append_holds:
  assumes h: "holds m off bl ds" and n: "length ds + length bytes \<le> bl"
    and ne: "ds \<noteq> []" "bytes \<noteq> []" and i: "int_ok (off + length ds)"
  shows "\<exists>m'. ring_append bytes off (length ds) bl m = Some m' \<and> holds m' off bl (ds @ bytes)"
proof -
  have lm: "length m = bl" "off < bl" "length ds \<le> bl" using h by (auto simp: holds_def)
  show ?thesis
  proof (cases "off + length ds < bl")
    case True
    define mv where "mv = min (length bytes) (bl - (off + length ds))"
    have mv': "(if length bytes > bl - (off + length ds) then bl - (off + length ds) else length bytes) = mv"
      by (simp add: mv_def)
    have dend: "(off + length ds) mod bl = off + length ds" using True by simp
    have b: "off + length ds + mv \<le> length m" "mv \<le> length bytes"
      using True lm by (simp_all add: mv_def)
    obtain m1 where m1: "mem_write (off + length ds) (map Some (take mv bytes)) m = Some m1" "length m1 = bl"
      "\<And>k. k < bl \<Longrightarrow> m1 ! k = (if off + length ds \<le> k \<and> k < off + length ds + mv
         then Some (bytes ! (k - (off + length ds))) else m ! k)"
      using mem_write_prefix [OF b] lm(1) by auto
    have b2: "0 + length (drop mv bytes) \<le> length m1" using m1(2) n by simp
    obtain m2 where m2: "mem_write 0 (map Some (drop mv bytes)) m1 = Some m2" "length m2 = bl"
      "\<And>k. k < bl \<Longrightarrow> m2 ! k = (if k < length bytes - mv then Some (bytes ! (mv + k)) else m1 ! k)"
      using mem_write_bytes [OF b2] m1(2) nth_drop [OF b(2)] by auto
    have h2: "holds m2 off bl (ds @ bytes)"
      by (rule ring_append_split [OF h n True mv_def m1(2) m1(3) m2(2) m2(3)])
    have "m2 = m1" if "\<not> mv < length bytes"
      using that m1(2) m2(2,3) by (intro nth_equalityI) auto
    moreover have "ring_append bytes off (length ds) bl m = (if mv < length bytes then Some m2 else Some m1)"
      using i True ne(1) m1(1) m2(1) by (simp add: ring_append_def Let_def dend mv')
    ultimately show ?thesis using h2 by auto
  next
    case False
    then have dend: "(off + length ds) mod bl = off + length ds - bl"
      using lm by (simp add: mod_if)
    have nd: "\<not> off + length ds - bl > off" using lm by auto
    have b3: "off + length ds - bl + length bytes \<le> length m" using lm n False by auto
    obtain m1 where m1: "mem_write (off + length ds - bl) (map Some bytes) m = Some m1" "length m1 = bl"
      "\<And>k. k < bl \<Longrightarrow> m1 ! k = (if off + length ds - bl \<le> k \<and> k < off + length ds - bl + length bytes
         then Some (bytes ! (k - (off + length ds - bl))) else m ! k)"
      using mem_write_bytes [OF b3] lm(1) by auto
    have "holds m1 off bl (ds @ bytes)"
      using False by (intro ring_append_joined [OF h n _ m1(2) m1(3)]) auto
    moreover have "ring_append bytes off (length ds) bl m = Some m1"
      using i nd m1(1) by (simp add: ring_append_def Let_def dend)
    ultimately show ?thesis by blast
  qed
qed

section \<open>Expansion\<close>

text \<open>
  The expansions the code performs correctly: those up to a gibibyte where the data does not wrap, or it wraps, the block is not
  full, and the wrapped part fits into the block's new tail.
\<close>

definition expand_ok :: "nat \<Rightarrow> ring \<Rightarrow> bool" where
  "expand_ok n rb \<longleftrightarrow> bufLength rb < dataLength rb + n \<longrightarrow> int (dataLength rb + n + blockSize rb) \<le> 1073741824 \<and>
     (dataOffset rb + dataLength rb \<le> bufLength rb \<or>
     dataLength rb < bufLength rb \<and>
     dataOffset rb + dataLength rb \<le> round_up (dataLength rb + n) (blockSize rb))"

lemma holds_cong:
  assumes "holds m off bl ds" "length m' = bl'" "bl \<le> bl'" "off + length ds \<le> bl'"
    "\<And>i. i < length ds \<Longrightarrow> m' ! (off + i) = m ! ring_idx off bl i"
  shows "holds m' off bl' ds"
  using assms by (auto simp: holds_def ring_idx_def)

lemma ring_expand_holds:
  assumes r: "ring_repr rb ds" and m: "bufHead rb = Some m" and ok: "expand_ok n rb"
    and ne: "ds \<noteq> []" and n: "0 < n"
  shows "\<exists>m' bl. ring_expand n rb m = Some (m', bl) \<and> holds m' (dataOffset rb) bl ds \<and> length ds + n \<le> bl \<and>
    blockSize rb dvd bl \<and> bl < 2 ^ 30"
proof (cases "bufLength rb < dataLength rb + n")
  case False
  then show ?thesis using r m by (auto simp: ring_expand_def ring_repr_def)
next
  case True
  define off where "off = dataOffset rb"
  define bl where "bl = bufLength rb"
  define nl where "nl = round_up (dataLength rb + n) (blockSize rb)"
  define m1 where "m1 = mem_realloc nl (Some m)"
  have h: "holds m off bl ds" and len: "length ds = dataLength rb" and bs: "0 < blockSize rb"
    using r m by (auto simp: ring_repr_def off_def bl_def)
  have lm: "length m = bl" "off < bl" "length ds \<le> bl" using h by (auto simp: holds_def)
  have nl: "length ds + n \<le> nl" using round_up_ge [OF bs] by (simp add: nl_def len)
  then have nlbl: "bl < nl" using True by (simp add: bl_def len)
  have bounds: "blockSize rb dvd bl" "blockSize rb dvd nl" "nl < 2 ^ 30" "int_ok (dataOffset rb + dataLength rb)"
    "int_ok (dataLength rb + n + blockSize rb)"
    using r m ok True round_up_bounds(1,2) [OF bs, of "dataLength rb + n"] n ring_repr_ints(1) [OF r m]
    by (auto simp: ring_repr_def bl_def nl_def expand_ok_def int_ok_def)
  have keep: "m1 ! k = m ! k" if "k < bl" for k
    using that lm nlbl by (simp add: m1_def mem_realloc_nth)
  have lm1: "length m1 = nl" by (simp add: m1_def)
  have "\<exists>m2. ring_unwrap nl rb m1 = Some m2 \<and> holds m2 off nl ds"
  proof (cases "off + length ds \<le> bl")
    case t: True
    have "holds m1 off nl ds"
    proof (rule holds_cong [OF h lm1])
      show "m1 ! (off + i) = m ! ring_idx off bl i" if "i < length ds" for i
        using that t keep by (simp add: ring_idx_def)
    qed (use nlbl t in auto)
    moreover have "ring_unwrap nl rb m1 = Some m1"
    proof (cases "off + length ds = bl")
      case True
      then have "(dataOffset rb + dataLength rb) mod bufLength rb = 0"
        using len by (simp add: off_def bl_def)
      moreover have "mem_move bl 0 0 m1 = Some m1"
        using lm1 nlbl by (simp add: mem_move_def mem_read_def mem_write_def)
      ultimately show ?thesis
        using bounds(4) by (simp add: ring_unwrap_def Let_def off_def bl_def)
    next
      case False
      then have "(dataOffset rb + dataLength rb) mod bufLength rb = off + length ds"
        using t len by (simp add: off_def bl_def)
      then show ?thesis using bounds(4) by (simp add: ring_unwrap_def off_def)
    qed
    ultimately show ?thesis by blast
  next
    case f: False
    have ok': "length ds < bl" "off + length ds \<le> nl"
      using ok True f len by (auto simp: expand_ok_def off_def bl_def nl_def)
    define de where "de = off + length ds - bl"
    have de: "(dataOffset rb + dataLength rb) mod bufLength rb = de"
      using f lm len by (simp add: de_def off_def bl_def mod_if)
    have lt: "de < off" "de \<le> nl - bl" using ok' f nlbl by (auto simp: de_def)
    have ends: "0 + de \<le> length m1" "bl + de \<le> length m1" using lm1 lt nlbl by auto
    obtain m2 where m2': "mem_move bl 0 de m1 = Some m2" "length m2 = length m1"
      "\<And>k. k < length m1 \<Longrightarrow> m2 ! k = (if bl \<le> k \<and> k < bl + de then m1 ! (0 + (k - bl)) else m1 ! k)"
      using mem_move_total [OF ends] by blast
    note m2 = m2' [unfolded lm1]
    have "holds m2 off nl ds"
    proof (rule holds_cong [OF h m2(2)])
      fix i assume i: "i < length ds"
      have k: "off + i < nl" using i ok' by simp
      show "m2 ! (off + i) = m ! ring_idx off bl i"
      proof (cases "off + i < bl")
        case False
        then have "bl \<le> off + i \<and> off + i < bl + de" "off + i - bl < bl"
          using i f lm by (auto simp: de_def)
        then show ?thesis using False by (simp add: m2(3) [OF k] keep ring_idx_def)
      qed (use k in \<open>simp add: m2(3) keep ring_idx_def\<close>)
    qed (use nlbl ok' in auto)
    moreover have mv: "(if de < nl - bufLength rb then de else nl - bufLength rb) = de"
      using lt by (auto simp: bl_def)
    have "ring_unwrap nl rb m1 = Some m2"
      unfolding ring_unwrap_def Let_def de mv using lt(1) m2(1) bounds(4) by (simp add: off_def bl_def)
    ultimately show ?thesis by blast
  qed
  moreover have "dataLength rb > 0" using ne len by (cases ds) auto
  ultimately show ?thesis
    using True nl bounds nlbl by (auto simp: ring_expand_def Let_def nl_def m1_def off_def len bl_def)
qed

section \<open>The operations on the bytes\<close>

lemma write_bounds:
  assumes "ring_repr rb ds" "expand_ok n rb" "0 < n"
  shows "blockSize rb dvd round_up n (blockSize rb)" "dataLength rb = 0 \<Longrightarrow> int_ok (n + blockSize rb)"
    "dataLength rb = 0 \<Longrightarrow> bufLength rb < round_up n (blockSize rb) \<Longrightarrow> round_up n (blockSize rb) < 2 ^ 30"
proof -
  have bs: "0 < blockSize rb" using assms(1) by (simp add: ring_repr_def)
  show "blockSize rb dvd round_up n (blockSize rb)" using round_up_bounds(1) [OF bs assms(3)] .
  assume e: "dataLength rb = 0"
  show "int_ok (n + blockSize rb)"
  proof (cases "bufLength rb < n")
    case False
    then obtain m where "bufHead rb = Some m" using assms(1,3) by (cases "bufHead rb") (auto simp: ring_repr_def)
    then show ?thesis
      using False assms(1) ring_repr_ints(2) [OF assms(1)] by (auto simp: ring_repr_def int_ok_def)
  qed (use assms(2) e in \<open>simp add: expand_ok_def int_ok_def\<close>)
  assume lt: "bufLength rb < round_up n (blockSize rb)"
  have "bufLength rb < n"
  proof (rule ccontr)
    assume "\<not> bufLength rb < n"
    moreover have "blockSize rb dvd bufLength rb" using assms(1) by (auto simp: ring_repr_def split: option.splits)
    ultimately show False using round_up_bounds(3) [OF bs assms(3), of "bufLength rb"] lt by simp
  qed
  then show "round_up n (blockSize rb) < 2 ^ 30"
    using assms(2) e round_up_bounds(2) [OF bs assms(3)] by (simp add: expand_ok_def)
qed

lemma writeData_repr:
  assumes r: "ring_repr rb ds" and ok: "expand_ok (length bytes) rb"
  shows "\<exists>rb'. writeData bytes rb = Some rb' \<and> ring_repr rb' (ds @ bytes) \<and> blockSize rb' = blockSize rb"
proof (cases "bytes = []")
  case True
  then show ?thesis using r by (simp add: writeData_def)
next
  case bn: False
  have bs: "0 < blockSize rb" and len: "length ds = dataLength rb" using r by (auto simp: ring_repr_def)
  have up: "length bytes \<le> round_up (length bytes) (blockSize rb)" using round_up_ge [OF bs] .
  have bounds: "blockSize rb dvd round_up (length bytes) (blockSize rb)"
    "dataLength rb = 0 \<Longrightarrow> int_ok (length bytes + blockSize rb)"
    "dataLength rb = 0 \<Longrightarrow> bufLength rb < round_up (length bytes) (blockSize rb) \<Longrightarrow>
       round_up (length bytes) (blockSize rb) < 2 ^ 30"
    using write_bounds [OF r ok] bn by auto
  have fresh: "\<exists>m'. mem_write 0 (map Some bytes) m = Some m' \<and> holds m' 0 (length m) bytes"
    if "length bytes \<le> length m" for m
    using mem_write_bytes [of 0 bytes m] that bn by (auto simp: holds_def ring_idx_def)
  show ?thesis
  proof (cases "bufHead rb")
    case None
    then have "ds = []" "dataOffset rb = 0" "bufLength rb = 0" "dataLength rb = 0"
      using r len by (auto simp: ring_repr_def)
    then show ?thesis
      using None bn up fresh [of "mem_realloc (round_up (length bytes) (blockSize rb)) None"] bs bounds ok
      by (auto simp: writeData_def Let_def ring_repr_def)
  next
    case (Some m0)
    show ?thesis
    proof (cases "dataLength rb = 0")
      case True
      then have ds: "ds = []" "dataOffset rb = 0" "length m0 = bufLength rb"
        using r len Some by (auto simp: ring_repr_def holds_def)
      moreover have "blockSize rb dvd bufLength rb" "bufLength rb < 2 ^ 30" using r Some by (auto simp: ring_repr_def)
      ultimately show ?thesis
        using Some True bn up bs bounds ok fresh [of m0]
          fresh [of "mem_realloc (round_up (length bytes) (blockSize rb)) (Some m0)"]
        by (auto simp: writeData_def Let_def ring_repr_def)
    next
      case False
      then have ne: "ds \<noteq> []" using len by auto
      obtain m1 bl where m1: "ring_expand (length bytes) rb m0 = Some (m1, bl)"
        "holds m1 (dataOffset rb) bl ds" "length ds + length bytes \<le> bl" "blockSize rb dvd bl" "bl < 2 ^ 30"
        using ring_expand_holds [OF r Some ok ne] bn by auto
      obtain m2 where m2: "ring_append bytes (dataOffset rb) (length ds) bl m1 = Some m2"
        "holds m2 (dataOffset rb) bl (ds @ bytes)"
        using ring_append_holds [OF m1(2,3) ne bn] ring_repr_ints(1) [OF r Some] len by auto
      show ?thesis
        using Some False bn m1(1,4,5) m2 bs len ne by (auto simp: writeData_def Let_def ring_repr_def)
    qed
  qed
qed

lemma holds_bounds: "holds m off bl ds \<Longrightarrow> length m = bl \<and> off < bl \<and> length ds \<le> bl"
  by (simp add: holds_def)

lemma holds_drop:
  assumes "holds m off bl ds" "n \<le> length ds"
  shows "holds m ((off + n) mod bl) bl (drop n ds)"
  unfolding holds_def
proof (intro conjI allI impI)
  have b: "length m = bl" "off < bl" "length ds \<le> bl" using holds_bounds [OF assms(1)] by auto
  fix i assume i: "i < length (drop n ds)"
  then have "ring_idx ((off + n) mod bl) bl i = ring_idx off bl (n + i)"
    using b assms(2) by (auto simp: ring_idx_def mod_if)
  then show "m ! ring_idx ((off + n) mod bl) bl i = Some (drop n ds ! i)"
    using holds_nth [OF assms(1), of "n + i"] i assms(2) by simp
qed (use holds_bounds [OF assms(1)] assms(2) in auto)

text \<open>The \<open>n\<close> first bytes, read in one piece or in two.\<close>

lemma holds_read:
  assumes h: "holds m off bl ds" and n: "n \<le> length ds"
  shows "off + n \<le> bl \<Longrightarrow> mem_read off n m = Some (map Some (take n ds))"
    and "bl < off + n \<Longrightarrow> \<exists>a c. mem_read off (bl - off) m = Some a \<and> mem_read 0 (n - (bl - off)) m = Some c \<and>
      a @ c = map Some (take n ds)"
proof -
  have b: "length m = bl" "off < bl" "length ds \<le> bl" using holds_bounds [OF h] by auto
  show "mem_read off n m = Some (map Some (take n ds))" if t: "off + n \<le> bl"
  proof -
    have "take n (drop off m) = map Some (take n ds)"
    proof (rule nth_equalityI)
      show "take n (drop off m) ! i = map Some (take n ds) ! i" if "i < length (take n (drop off m))" for i
        using holds_nth [OF h, of i] that b n t by (simp add: ring_idx_def)
    qed (use b n t in simp)
    then show ?thesis using t b by (simp add: mem_read_def)
  qed
  show "\<exists>a c. mem_read off (bl - off) m = Some a \<and> mem_read 0 (n - (bl - off)) m = Some c \<and>
      a @ c = map Some (take n ds)" if t: "bl < off + n"
  proof -
    let ?a = "take (bl - off) (drop off m)" and ?c = "take (n - (bl - off)) m"
    have "?a @ ?c = map Some (take n ds)"
    proof (rule nth_equalityI)
      show "(?a @ ?c) ! i = map Some (take n ds) ! i" if "i < length (?a @ ?c)" for i
        using holds_nth [OF h, of i] that b n t
        by (cases "off + i < bl") (auto simp: ring_idx_def nth_append add.commute)
    qed (use b n t in simp)
    then show ?thesis using t b n by (simp add: mem_read_def)
  qed
qed

lemma readData_repr:
  assumes r: "ring_repr rb ds" and n: "0 \<le> n"
  shows "\<exists>rb'. readData n rb = Some (map Some (take (nat n) ds), rb') \<and>
    ring_repr rb' (drop (nat n) ds) \<and> blockSize rb' = blockSize rb"
proof (cases "bufHead rb = None \<or> dataLength rb = 0")
  case True
  then have "ds = []" using r by (auto simp: ring_repr_def)
  then show ?thesis using True r by (auto simp: readData_def split: option.splits)
next
  case False
  then obtain m where m: "bufHead rb = Some m" by auto
  have h: "holds m (dataOffset rb) (bufLength rb) ds" and len: "length ds = dataLength rb"
    using r m by (auto simp: ring_repr_def)
  define k where "k = min (nat n) (dataLength rb)"
  have k: "k \<le> length ds" "take k ds = take (nat n) ds" "drop k ds = drop (nat n) ds"
    by (auto simp: k_def len min_def)
  have kk: "(if n > int (dataLength rb) then int (dataLength rb) else n) = int k"
    using n by (auto simp: k_def)
  have i: "int_ok (dataOffset rb + k)"
    using ring_repr_ints(1) [OF r m] by (rule int_ok_mono) (simp add: k_def)
  define rb' where "rb' = rb\<lparr>dataOffset := (if dataLength rb - k = 0 then 0 else (dataOffset rb + k) mod bufLength rb),
    dataLength := dataLength rb - k\<rparr>"
  have "holds m (dataOffset rb') (bufLength rb) (drop k ds)"
  proof (cases "dataLength rb - k = 0")
    case True
    then show ?thesis using holds_bounds [OF h] len by (auto simp: holds_def rb'_def)
  qed (use holds_drop [OF h k(1)] in \<open>simp add: rb'_def\<close>)
  then have "ring_repr rb' (drop k ds)"
    using r m len k(1) by (auto simp: ring_repr_def rb'_def)
  moreover have "readData n rb = Some (map Some (take k ds), rb')"
  proof (cases "bufLength rb < dataOffset rb + k")
    case True
    then obtain a c where "mem_read (dataOffset rb) (bufLength rb - dataOffset rb) m = Some a"
      "mem_read 0 (k - (bufLength rb - dataOffset rb)) m = Some c" "a @ c = map Some (take k ds)"
      using holds_read(2) [OF h k(1)] by blast
    then show ?thesis
      using False m True i unfolding readData_def Let_def kk by (simp add: rb'_def)
  next
    case f: False
    then show ?thesis
      using False m i holds_read(1) [OF h k(1)] unfolding readData_def Let_def kk by (simp add: rb'_def)
  qed
  ultimately show ?thesis unfolding k by (auto simp: rb'_def)
qed

lemma peekByte_repr:
  assumes "ring_repr rb ds"
  shows "peekByte rb = Some (Some (case ds of [] \<Rightarrow> CHR 0x00 | d # _ \<Rightarrow> d))"
proof (cases ds)
  case (Cons d ds')
  then obtain m where m: "bufHead rb = Some m" "holds m (dataOffset rb) (bufLength rb) ds"
    using assms by (auto simp: ring_repr_def split: option.splits)
  then have "m ! dataOffset rb = Some d"
    using holds_nth [OF m(2), of 0] holds_bounds [OF m(2)] Cons by (simp add: ring_idx_def)
  then show ?thesis
    using m holds_bounds [OF m(2)] Cons assms by (auto simp: peekByte_def ring_repr_def)
qed (use assms in \<open>auto simp: peekByte_def ring_repr_def split: option.splits\<close>)

text \<open>The search is correct as long as the data does not wrap.\<close>

definition first_index :: "char \<Rightarrow> string \<Rightarrow> int" where
  "first_index c ds = (if c \<in> set ds then int (length (takeWhile (\<lambda>d. d \<noteq> c) ds)) else - 1)"

lemma mem_chr_first:
  "p + length ds \<le> length m \<Longrightarrow> (\<And>i. i < length ds \<Longrightarrow> m ! (p + i) = Some (ds ! i)) \<Longrightarrow>
   mem_chr c (length ds) p m =
     Some (if c \<in> set ds then Some (p + length (takeWhile (\<lambda>d. d \<noteq> c) ds)) else None)"
proof (induction ds arbitrary: p)
  case (Cons d ds)
  have "m ! p = Some d" using Cons.prems(2) [of 0] by simp
  moreover have "m ! (Suc p + i) = Some (ds ! i)" if "i < length ds" for i
    using Cons.prems(2) [of "Suc i"] that by simp
  ultimately show ?case using Cons.IH [of "Suc p"] Cons.prems(1) by auto
qed simp

lemma offsetOfByte_repr:
  assumes r: "ring_repr rb ds" and "dataOffset rb + dataLength rb \<le> bufLength rb \<or> bufHead rb = None"
  shows "offsetOfByte c rb = Some (first_index c ds)"
proof (cases "bufHead rb = None \<or> dataLength rb = 0")
  case True
  then have "ds = []" using r by (auto simp: ring_repr_def)
  then show ?thesis using True by (auto simp: offsetOfByte_def first_index_def split: option.splits)
next
  case False
  then obtain m where m: "bufHead rb = Some m" by auto
  have h: "holds m (dataOffset rb) (bufLength rb) ds" and len: "length ds = dataLength rb"
    using r m by (auto simp: ring_repr_def)
  have nw: "dataOffset rb + length ds \<le> bufLength rb" using assms(2) m len by simp
  have "mem_chr c (length ds) (dataOffset rb) m =
      Some (if c \<in> set ds then Some (dataOffset rb + length (takeWhile (\<lambda>d. d \<noteq> c) ds)) else None)"
  proof (rule mem_chr_first)
    show "m ! (dataOffset rb + i) = Some (ds ! i)" if "i < length ds" for i
      using holds_nth [OF h that] nw that by (simp add: ring_idx_def)
  qed (use nw holds_bounds [OF h] in simp)
  then show ?thesis using m False nw len ring_repr_ints(1) [OF r m] by (auto simp: offsetOfByte_def first_index_def)
qed

section \<open>Runs: the buffer as a queue of bytes\<close>

datatype qop = QWrite string | QRead nat

fun op_written :: "qop \<Rightarrow> string" where
  "op_written (QWrite bs) = bs"
| "op_written (QRead n) = []"

text \<open>What the socket layer relies on: bytes come out in the order they went in.\<close>

locale byte_queue =
  fixes wr :: "string \<Rightarrow> 'q \<Rightarrow> 'q option"
    and rd :: "int \<Rightarrow> 'q \<Rightarrow> (cells \<times> 'q) option"
    and repr :: "'q \<Rightarrow> string \<Rightarrow> bool"
    and room :: "nat \<Rightarrow> 'q \<Rightarrow> bool"
  assumes wr_repr: "repr q ds \<Longrightarrow> room (length bs) q \<Longrightarrow> \<exists>q'. wr bs q = Some q' \<and> repr q' (ds @ bs)"
    and rd_repr: "repr q ds \<Longrightarrow> 0 \<le> n \<Longrightarrow>
      \<exists>q'. rd n q = Some (map Some (take (nat n) ds), q') \<and> repr q' (drop (nat n) ds)"
begin

fun qrun :: "qop list \<Rightarrow> 'q \<Rightarrow> (cells \<times> 'q) option" where
  "qrun [] q = Some ([], q)"
| "qrun (QWrite bs # ops) q = (case wr bs q of None \<Rightarrow> None | Some q' \<Rightarrow> qrun ops q')"
| "qrun (QRead n # ops) q = (case rd (int n) q of None \<Rightarrow> None | Some (xs, q') \<Rightarrow>
     (case qrun ops q' of None \<Rightarrow> None | Some (ys, q'') \<Rightarrow> Some (xs @ ys, q'')))"

fun has_room :: "qop list \<Rightarrow> 'q \<Rightarrow> bool" where
  "has_room [] q = True"
| "has_room (QWrite bs # ops) q \<longleftrightarrow> room (length bs) q \<and>
     (case wr bs q of None \<Rightarrow> True | Some q' \<Rightarrow> has_room ops q')"
| "has_room (QRead n # ops) q \<longleftrightarrow>
     (case rd (int n) q of None \<Rightarrow> True | Some (xs, q') \<Rightarrow> has_room ops q')"

lemma qrun_fifo:
  "repr q ds \<Longrightarrow> has_room ops q \<Longrightarrow>
   \<exists>out rest q'. qrun ops q = Some (map Some out, q') \<and> repr q' rest \<and>
     out @ rest = ds @ concat (map op_written ops)"
proof (induction ops q arbitrary: ds rule: has_room.induct)
  case (2 bs ops q)
  obtain q' where q': "wr bs q = Some q'" "repr q' (ds @ bs)"
    using wr_repr [OF 2(2)] 2(3) by auto
  show ?case using 2(1) [OF q'(1) q'(2)] 2(3) q'(1) by auto
next
  case (3 n ops q)
  obtain q' where q': "rd (int n) q = Some (map Some (take n ds), q')" "repr q' (drop n ds)"
    using rd_repr [OF 3(2), of "int n"] by auto
  have "has_room ops q'" using 3(3) q'(1) by simp
  then obtain out rest q'' where o: "qrun ops q' = Some (map Some out, q'')" "repr q'' rest"
    "out @ rest = drop n ds @ concat (map op_written ops)"
    using 3(1) [OF q'(1) refl q'(2)] by auto
  have "(take n ds @ out) @ rest = ds @ concat (map op_written ops)"
    using o(3) by (metis append.assoc append_take_drop_id)
  then show ?case
    using o q'(1) by (intro exI [of _ "take n ds @ out"] exI [of _ rest] exI [of _ q'']) simp
qed simp

end

lemma ring_wr_queue:
  "ring_repr q ds \<Longrightarrow> expand_ok (length bs) q \<Longrightarrow> \<exists>q'. writeData bs q = Some q' \<and> ring_repr q' (ds @ bs)"
  using writeData_repr by blast

lemma ring_rd_queue:
  "ring_repr q ds \<Longrightarrow> 0 \<le> n \<Longrightarrow>
   \<exists>q'. readData n q = Some (map Some (take (nat n) ds), q') \<and> ring_repr q' (drop (nat n) ds)"
  using readData_repr by blast

interpretation ring: byte_queue writeData readData ring_repr expand_ok
  by unfold_locales (auto intro: ring_wr_queue ring_rd_queue)

fun ring_run :: "qop list \<Rightarrow> ring \<Rightarrow> (cells \<times> ring) option" where
  "ring_run [] rb = Some ([], rb)"
| "ring_run (QWrite bs # ops) rb = do { rb' \<leftarrow> writeData bs rb; ring_run ops rb' }"
| "ring_run (QRead n # ops) rb = do {
     (xs, rb') \<leftarrow> readData (int n) rb;
     (ys, rb'') \<leftarrow> ring_run ops rb';
     Some (xs @ ys, rb'')
   }"

fun ring_room :: "qop list \<Rightarrow> ring \<Rightarrow> bool" where
  "ring_room [] rb = True"
| "ring_room (QWrite bs # ops) rb \<longleftrightarrow> expand_ok (length bs) rb \<and>
     (case writeData bs rb of None \<Rightarrow> True | Some rb' \<Rightarrow> ring_room ops rb')"
| "ring_room (QRead n # ops) rb \<longleftrightarrow>
     (case readData (int n) rb of None \<Rightarrow> True | Some (xs, rb') \<Rightarrow> ring_room ops rb')"

lemma ring_run_eq: "ring.qrun ops rb = ring_run ops rb"
  by (induction ops rb rule: ring_run.induct) (auto split: option.splits prod.splits Option.bind_splits)

lemma ring_room_eq: "ring.has_room ops rb = ring_room ops rb"
  by (induction ops rb rule: ring_room.induct) (auto split: option.splits prod.splits)

definition upto_byte :: "char \<Rightarrow> string \<Rightarrow> string" where
  "upto_byte c ds = takeWhile (\<lambda>d. d \<noteq> c) ds @ (if c \<in> set ds then [c] else [])"

lemma ring_read_line:
  assumes "ring_repr rb ds" and "dataOffset rb + dataLength rb \<le> bufLength rb" and "0 \<le> k"
  shows "containsByte c rb = Some (c \<in> set ds) \<and>
    (\<exists>rb'. readDataUtilByte k c True rb = Some (map Some (take (nat k) (upto_byte c ds)), rb') \<and>
      ring_repr rb' (drop (min (nat k) (length (upto_byte c ds))) ds))"
proof
  have off: "offsetOfByte c rb = Some (first_index c ds)"
    using offsetOfByte_repr [OF assms(1)] assms(2) by simp
  have "0 \<le> first_index c ds \<longleftrightarrow> c \<in> set ds" by (simp add: first_index_def)
  then show "containsByte c rb = Some (c \<in> set ds)" by (simp add: containsByte_def off)
  define p where "p = (if first_index c ds < 0 then int (dataLength rb) else first_index c ds + 1)"
  have len: "length ds = dataLength rb" using assms(1) by (simp add: ring_repr_def)
  have p: "p = int (length (upto_byte c ds))" "upto_byte c ds = take (length (upto_byte c ds)) ds"
  proof -
    have "length (takeWhile (\<lambda>d. d \<noteq> c) ds) = length ds" if "c \<notin> set ds"
      using that by (induction ds) auto
    then show "p = int (length (upto_byte c ds))"
      using len by (cases "c \<in> set ds") (simp_all add: p_def first_index_def upto_byte_def)
    show "upto_byte c ds = take (length (upto_byte c ds)) ds"
      by (induction ds) (auto simp: upto_byte_def)
  qed
  have m: "nat (if k > p then p else k) = min (nat k) (length (upto_byte c ds))"
    using p(1) assms(3) by auto
  have t: "take (min (nat k) (length (upto_byte c ds))) ds = take (nat k) (upto_byte c ds)"
    by (metis p(2) take_take)
  have k0: "0 \<le> (if k > p then p else k)" using assms(3) p(1) by simp
  obtain rb' where rb': "readData (if k > p then p else k) rb = Some (map Some (take (nat k) (upto_byte c ds)), rb')"
    "ring_repr rb' (drop (min (nat k) (length (upto_byte c ds))) ds)"
    using readData_repr [OF assms(1) k0] unfolding m t by blast
  show "\<exists>rb'. readDataUtilByte k c True rb = Some (map Some (take (nat k) (upto_byte c ds)), rb') \<and>
      ring_repr rb' (drop (min (nat k) (length (upto_byte c ds))) ds)"
  proof (cases "bufHead rb = None \<or> dataLength rb = 0")
    case True
    then have "ds = []" using len assms(1) by (auto simp: ring_repr_def)
    then show ?thesis using True assms(1) by (auto simp: readDataUtilByte_def upto_byte_def)
  next
    case False
    then have "readDataUtilByte k c True rb = readData (if k > p then p else k) rb"
      by (auto simp: readDataUtilByte_def off p_def Let_def)
    then show ?thesis using rb' by auto
  qed
qed

section \<open>Properties of the buffer\<close>

text \<open>
  C5. The ring buffer is a FIFO queue of bytes: from a new buffer of any block size, any sequence of
  writes and reads in which every write either fits or expands a block that \<open>expand_ok\<close> admits (one
  that does not wrap, or whose wrapped part fits behind it, to less than a gibibyte) stays within the
  allocated memory, fails no assertion, overflows no \<^verbatim>\<open>int\<close>, reads no uninitialised cell, and the
  bytes read followed by the bytes still held are exactly the bytes written, in order.
\<close>

theorem ring_fifo:
  assumes "ring_room ops (new_ring n)"
  shows "\<exists>out rest rb. ring_run ops (new_ring n) = Some (map Some out, rb) \<and> ring_repr rb rest \<and>
    out @ rest = concat (map op_written ops)"
  using ring.qrun_fifo [OF ring_repr_new, of ops n] assms by (simp add: ring_run_eq ring_room_eq)

lemma ring_fifo_witness:
  "\<exists>out rest rb. ring_run [QWrite ''abc'', QRead 2, QWrite ''def'', QRead 3, QWrite ''ghijkl'', QRead 7] (new_ring 4)
     = Some (map Some out, rb) \<and> ring_repr rb rest \<and> out @ rest = ''abcdefghijkl''"
proof -
  have "ring_room [QWrite ''abc'', QRead 2, QWrite ''def'', QRead 3, QWrite ''ghijkl'', QRead 7] (new_ring 4)"
    by code_simp
  from ring_fifo [OF this] show ?thesis by simp
qed

text \<open>The largest block size the constructor takes is too large for any write: rounding overflows.\<close>

theorem ring_block_overflow: "0 < length bytes \<Longrightarrow> writeData bytes (new_ring 2147483647) = None"
  by (simp add: writeData_def new_ring_def Let_def int_ok_def)

text \<open>
  As long as the held data does not wrap around the end of the block, \<^verbatim>\<open>ContainsByte\<close> and
  \<^verbatim>\<open>ReadDataUtilByte\<close> see exactly the held bytes: the read returns the bytes up to and
  including the first delimiter, or all held bytes when there is none, cut at the given maximum.
\<close>

theorem ring_read_until:
  assumes "ring_repr rb ds" and "dataOffset rb + dataLength rb \<le> bufLength rb" and "0 \<le> k"
  shows "containsByte c rb = Some (c \<in> set ds) \<and>
    (\<exists>rb'. readDataUtilByte k c True rb = Some (map Some (take (nat k) (upto_byte c ds)), rb') \<and>
      ring_repr rb' (drop (min (nat k) (length (upto_byte c ds))) ds))"
  by (rule ring_read_line [OF assms])

lemma ring_read_until_witness:
  "case writeData ''ab\<newline>cd'' (new_ring 16) of None \<Rightarrow> False
   | Some rb \<Rightarrow> containsByte CHR 0x0A rb = Some True \<and>
       (\<exists>rb'. readDataUtilByte 2048 CHR 0x0A True rb = Some (map Some ''ab\<newline>'', rb'))"
proof -
  obtain rb where rb: "writeData ''ab\<newline>cd'' (new_ring 16) = Some rb" "ring_repr rb ''ab\<newline>cd''"
    using writeData_repr [OF ring_repr_new, of "''ab\<newline>cd''" 16]
    by (auto simp: expand_ok_def new_ring_def)
  moreover have "dataOffset rb = 0" "dataLength rb = 5" "bufLength rb = 16"
    using rb(1) by (auto simp: writeData_def new_ring_def Let_def round_up_def mem_write_def int_ok_def)
  ultimately show ?thesis
    using ring_read_until [of rb "''ab\<newline>cd''" 2048 "CHR 0x0A"] by (auto simp: upto_byte_def)
qed

text \<open>
  Once the data wraps, the delimiter search starts at the data length instead of the data
  offset: in a reachable buffer that holds a delimiter as its first byte, the search does not find
  it, and reading up to the delimiter returns the bytes behind it as well.
\<close>

theorem ring_search_wrapped:
  "(do { (_, rb) \<leftarrow> ring_run [QWrite ''abc\<newline>'', QRead 3, QWrite ''x''] (new_ring 4);
         c \<leftarrow> containsByte CHR 0x0A rb;
         (xs, _) \<leftarrow> readDataUtilByte 2048 CHR 0x0A True rb;
         Some (c, xs) }) = Some (False, map Some ''\<newline>x'')"
  by code_simp

text \<open>
  Expanding a full block whose data does not start at offset 0 loses the queue: the wrapped
  part is left behind and the reads return cells nobody wrote. \<open>expand_ok\<close> excludes exactly this
  kind of expansion.
\<close>

theorem ring_expand_full:
  "map_option fst (ring_run [QWrite ''abc'', QRead 2, QWrite ''def'', QWrite ''g'', QRead 5] (new_ring 4)) =
    Some (map Some ''abcd'' @ [None, None, Some CHR ''g'']) \<and>
   ring_room [QWrite ''abc'', QRead 2, QWrite ''def''] (new_ring 4) \<and>
   \<not> ring_room [QWrite ''abc'', QRead 2, QWrite ''def'', QWrite ''g''] (new_ring 4)"
  by code_simp

end
