(* ===== verification/Numeric.thy ===== *)
theory Numeric
  imports Prelude
begin

text \<open>
  The parts of the C library the wire formats use: character classes, decimal printing,
  \<^verbatim>\<open>strtol\<close>, \<^verbatim>\<open>strtod\<close> and the conversions of \<^verbatim>\<open>printf\<close>. Strings end at the first
  NUL where the code passes them as \<^verbatim>\<open>char *\<close> (\<open>c_str\<close>). \<open>dbl_round\<close> is the rounding of
  IEEE binary64 to nearest, ties to even, on exact rationals.
\<close>

section \<open>Characters and decimal digits\<close>

definition NUL :: char where
  "NUL = CHR 0x00"

definition c_str :: "string \<Rightarrow> string" where
  "c_str s = takeWhile (\<lambda>c. c \<noteq> NUL) s"

definition ord_c :: "char \<Rightarrow> nat" where
  "ord_c c = of_char c"

definition is_space :: "char \<Rightarrow> bool" where
  "is_space c \<longleftrightarrow> ord_c c = 32 \<or> (9 \<le> ord_c c \<and> ord_c c \<le> 13)"

definition is_digit :: "char \<Rightarrow> bool" where
  "is_digit c \<longleftrightarrow> 48 \<le> ord_c c \<and> ord_c c \<le> 57"

definition digit_val :: "char \<Rightarrow> nat" where
  "digit_val c = ord_c c - 48"

definition digit_char :: "nat \<Rightarrow> char" where
  "digit_char d = char_of (48 + d)"

definition to_lower :: "char \<Rightarrow> char" where
  "to_lower c = (if 65 \<le> ord_c c \<and> ord_c c \<le> 90 then char_of (ord_c c + 32) else c)"

definition is_hex :: "char \<Rightarrow> bool" where
  "is_hex c \<longleftrightarrow> is_digit c \<or> (97 \<le> ord_c (to_lower c) \<and> ord_c (to_lower c) \<le> 102)"

definition hex_val :: "char \<Rightarrow> nat" where
  "hex_val c = (if is_digit c then digit_val c else ord_c (to_lower c) - 87)"

definition digits_val :: "nat \<Rightarrow> (char \<Rightarrow> nat) \<Rightarrow> string \<Rightarrow> nat" where
  "digits_val b f s = foldl (\<lambda>a c. a * b + f c) 0 s"

fun show_nat :: "nat \<Rightarrow> string" where
  "show_nat n = (if n < 10 then [digit_char n] else show_nat (n div 10) @ [digit_char (n mod 10)])"

declare show_nat.simps [simp del]

definition show_int :: "int \<Rightarrow> string" where
  "show_int i = (if i < 0 then CHR ''-'' # show_nat (nat (- i)) else show_nat (nat i))"

definition trim_right :: "string \<Rightarrow> string" where
  "trim_right s = rev (dropWhile is_space (rev s))"

definition pad_left :: "nat \<Rightarrow> string \<Rightarrow> string" where
  "pad_left n s = replicate (n - length s) (CHR '' '') @ s"

definition pad_right :: "nat \<Rightarrow> string \<Rightarrow> string" where
  "pad_right n s = s @ replicate (n - length s) (CHR '' '')"

section \<open>strtol\<close>

definition LONG_MIN :: int where "LONG_MIN = - 9223372036854775808"
definition LONG_MAX :: int where "LONG_MAX = 9223372036854775807"

definition read_sign :: "string \<Rightarrow> bool \<times> string" where
  "read_sign s = (case s of [] \<Rightarrow> (False, [])
     | c # cs \<Rightarrow> if c = CHR ''-'' then (True, cs) else if c = CHR ''+'' then (False, cs) else (False, s))"

text \<open>The value, what follows the number, and whether \<^verbatim>\<open>errno\<close> becomes \<^verbatim>\<open>ERANGE\<close>.\<close>

definition strtol10 :: "string \<Rightarrow> int \<times> string \<times> bool" where
  "strtol10 s = (let (neg, s2) = read_sign (dropWhile is_space s);
       ds = takeWhile is_digit s2; rest = dropWhile is_digit s2;
       m = int (digits_val 10 digit_val ds); v = (if neg then - m else m)
     in if ds = [] then (0, s, False)
        else if v < LONG_MIN then (LONG_MIN, rest, True)
        else if v > LONG_MAX then (LONG_MAX, rest, True)
        else (v, rest, False))"

text \<open>Narrowing \<^verbatim>\<open>long\<close> to \<^verbatim>\<open>int\<close> keeps the low 32 bits.\<close>

definition int_of_long :: "int \<Rightarrow> int" where
  "int_of_long v = sint (word_of_int v :: 32 word)"

definition atoi :: "string \<Rightarrow> int" where
  "atoi s = int_of_long (fst (strtol10 (c_str s)))"

section \<open>Rounding to binary64\<close>

definition pow2 :: "int \<Rightarrow> rat" where
  "pow2 e = (if 0 \<le> e then 2 ^ nat e else 1 / 2 ^ nat (- e))"

fun ilog2 :: "nat \<Rightarrow> nat" where
  "ilog2 n = (if n < 2 then 0 else Suc (ilog2 (n div 2)))"

declare ilog2.simps [simp del]

definition flog2 :: "rat \<Rightarrow> int" where
  "flog2 x = (let (a, b) = quotient_of x; e = int (ilog2 (nat a)) - int (ilog2 (nat b))
     in if pow2 e \<le> x then e else e - 1)"

definition round_half_even :: "rat \<Rightarrow> int" where
  "round_half_even x = (let f = \<lfloor>x\<rfloor>; d = x - of_int f
     in if d < 1 / 2 then f else if d > 1 / 2 then f + 1 else if even f then f else f + 1)"

definition dbl_quantum :: "rat \<Rightarrow> rat" where
  "dbl_quantum m = pow2 (max (flog2 m - 52) (- 1074))"

definition dbl_round :: "rat \<Rightarrow> dbl" where
  "dbl_round x = (if x = 0 then 0
     else let q = dbl_quantum \<bar>x\<bar> in sgn x * of_int (round_half_even (\<bar>x\<bar> / q)) * q)"

text \<open>A double with its sign bit, as parsed and printed.\<close>

datatype dval = Fin bool dbl | Inf bool | NaN bool

definition dval_of :: "bool \<Rightarrow> rat \<Rightarrow> dval \<times> bool" where
  "dval_of neg x = (if x = 0 then (Fin neg 0, False)
     else let r = dbl_round x in
       if r \<ge> pow2 1024 then (Inf neg, True)
       else (Fin neg r, r < pow2 (- 1022) \<and> r \<noteq> x))"

section \<open>strtod\<close>

definition starts_ci :: "string \<Rightarrow> string \<Rightarrow> bool" where
  "starts_ci p s \<longleftrightarrow> map to_lower (take (length p) s) = p"

definition is_nan_char :: "char \<Rightarrow> bool" where
  "is_nan_char c \<longleftrightarrow> is_digit c \<or> (97 \<le> ord_c (to_lower c) \<and> ord_c (to_lower c) \<le> 122) \<or> c = CHR ''_''"

definition nan_rest :: "string \<Rightarrow> string" where
  "nan_rest s = (case s of [] \<Rightarrow> []
     | c # cs \<Rightarrow> if c = CHR ''('' then
         (case dropWhile is_nan_char cs of [] \<Rightarrow> s
          | d # ds \<Rightarrow> if d = CHR '')'' then ds else s)
       else s)"

text \<open>Digits, an optional point, digits; \<open>None\<close> without any digit.\<close>

definition read_mantissa :: "nat \<Rightarrow> (char \<Rightarrow> bool) \<Rightarrow> (char \<Rightarrow> nat) \<Rightarrow> string \<Rightarrow> (rat \<times> string) option" where
  "read_mantissa b is_d val s = (let i = takeWhile is_d s; s1 = dropWhile is_d s;
       (f, s2) = (case s1 of [] \<Rightarrow> ([], [])
         | c # cs \<Rightarrow> if c = CHR ''.'' \<and> (i \<noteq> [] \<or> takeWhile is_d cs \<noteq> [])
                     then (takeWhile is_d cs, dropWhile is_d cs) else ([], s1))
     in if i = [] \<and> f = [] then None
        else Some (of_nat (digits_val b val (i @ f)) / of_nat (b ^ length f), s2))"

definition read_exponent :: "char \<Rightarrow> string \<Rightarrow> int \<times> string" where
  "read_exponent e s = (case s of [] \<Rightarrow> (0, [])
     | c # cs \<Rightarrow> if to_lower c = e then
         let (neg, s1) = read_sign cs; ds = takeWhile is_digit s1; m = int (digits_val 10 digit_val ds)
         in if ds = [] then (0, s) else (if neg then - m else m, dropWhile is_digit s1)
       else (0, s))"

definition pow10 :: "int \<Rightarrow> rat" where
  "pow10 e = (if 0 \<le> e then 10 ^ nat e else 1 / 10 ^ nat (- e))"

definition strtod :: "string \<Rightarrow> dval \<times> string \<times> bool" where
  "strtod s = (let (neg, b) = read_sign (dropWhile is_space s) in
     if starts_ci ''infinity'' b then (Inf neg, drop 8 b, False)
     else if starts_ci ''inf'' b then (Inf neg, drop 3 b, False)
     else if starts_ci ''nan'' b then (NaN neg, nan_rest (drop 3 b), False)
     else case (if starts_ci ''0x'' b then read_mantissa 16 is_hex hex_val (drop 2 b) else None) of
       Some (m, r) \<Rightarrow>
         (let (e, r2) = read_exponent CHR ''p'' r; (v, er) = dval_of neg (m * pow2 e) in (v, r2, er))
     | None \<Rightarrow>
         (case read_mantissa 10 is_digit digit_val b of
            Some (m, r) \<Rightarrow>
              (let (e, r2) = read_exponent CHR ''e'' r; (v, er) = dval_of neg (m * pow10 e) in (v, r2, er))
          | None \<Rightarrow> (Fin False 0, s, False)))"

section \<open>printf\<close>

definition fmt_fixed :: "nat \<Rightarrow> dval \<Rightarrow> string" where
  "fmt_fixed k v = (case v of
     Fin neg m \<Rightarrow> (let n = nat (round_half_even (m * 10 ^ k)); f = show_nat (n mod 10 ^ k)
       in (if neg then ''-'' else []) @ show_nat (n div 10 ^ k) @
          (if k = 0 then [] else CHR ''.'' # replicate (k - length f) (CHR ''0'') @ f))
   | Inf neg \<Rightarrow> (if neg then ''-inf'' else ''inf'')
   | NaN neg \<Rightarrow> (if neg then ''-nan'' else ''nan''))"

end
