(* ===== verification/Packet.thy ===== *)
theory Packet
  imports Numeric
begin

text \<open>
  The fixed-width reader and writer of \<^verbatim>\<open>src/market_data/itch/msg/PacketBase.cpp\<close>.

  A read returns \<open>None\<close> where the code returns \<^verbatim>\<open>false\<close>; the caller then drops the object it
  was filling, and only \<^verbatim>\<open>ResetReadPosition\<close> uses the packet again, which does not depend on
  the read position. The position is an \<^verbatim>\<open>int\<close> that the comparisons convert to \<^verbatim>\<open>size_t\<close>
  (\<open>to_size\<close>): it becomes \<open>-1\<close> when \<^verbatim>\<open>ReadUntilTLF\<close> runs on an empty buffer. A
  \<^verbatim>\<open>substr\<close> from there throws \<^verbatim>\<open>std::out_of_range\<close>; \<open>readString\<close> is \<open>None\<close> then.
\<close>

record packet =
  pktBuffer :: string
  pktPos :: int

definition new_packet :: "string \<Rightarrow> packet" where
  "new_packet s = \<lparr>pktBuffer = s, pktPos = 0\<rparr>"

definition to_size :: "int \<Rightarrow> int" where
  "to_size p = p mod 2 ^ 64"

definition buf_size :: "packet \<Rightarrow> int" where
  "buf_size p = int (length (pktBuffer p))"

definition peekChar :: "packet \<Rightarrow> char" where
  "peekChar p = (if to_size (pktPos p) \<ge> buf_size p then NUL else pktBuffer p ! nat (pktPos p))"

definition readChar :: "packet \<Rightarrow> (char \<times> packet) option" where
  "readChar p = (if to_size (pktPos p) \<ge> buf_size p then None
     else Some (pktBuffer p ! nat (pktPos p), p\<lparr>pktPos := pktPos p + 1\<rparr>))"

definition readString :: "nat \<Rightarrow> bool \<Rightarrow> packet \<Rightarrow> (string \<times> packet) option" where
  "readString n trim p =
     (if to_size (pktPos p + int n) > buf_size p then None
      else if pktPos p < 0 then None
      else let s = take n (drop (nat (pktPos p)) (pktBuffer p))
           in Some (if trim then trim_right s else s, p\<lparr>pktPos := pktPos p + int n\<rparr>))"

definition readLong :: "nat \<Rightarrow> packet \<Rightarrow> (int \<times> packet) option" where
  "readLong n p = do {
     (str, p1) \<leftarrow> readString n True p;
     let (num, rest, erange) = strtol10 (c_str str);
     if rest \<noteq> [] then None
     else if erange then None
     else Some (num, p1)
   }"

definition readInt :: "nat \<Rightarrow> packet \<Rightarrow> (int \<times> packet) option" where
  "readInt n p = do { (v, p1) \<leftarrow> readLong n p; Some (int_of_long v, p1) }"

definition readDbl :: "nat \<Rightarrow> packet \<Rightarrow> (dval \<times> packet) option" where
  "readDbl n p = do {
     (str, p1) \<leftarrow> readString n True p;
     let (num, rest, erange) = strtod (c_str str);
     if rest \<noteq> [] then None
     else if erange then None
     else Some (num, p1)
   }"

definition readUntilTLF :: "packet \<Rightarrow> (string \<times> packet) option" where
  "readUntilTLF p = (let pos = to_size (pktPos p); last = to_size (buf_size p - 1) in
     if pos \<ge> last then None
     else Some (take (length (pktBuffer p) - nat pos - 1) (drop (nat pos) (pktBuffer p)),
                p\<lparr>pktPos := buf_size p - 1\<rparr>))"

definition writeChar :: "char \<Rightarrow> packet \<Rightarrow> packet" where
  "writeChar c p = (let b = pktBuffer p @ [c] in \<lparr>pktBuffer = b, pktPos = int (length b)\<rparr>)"

definition writeString :: "string \<Rightarrow> nat \<Rightarrow> packet \<Rightarrow> packet option" where
  "writeString str n p = (let s = c_str str in
     if length s > n then None
     else let b = pktBuffer p @ pad_right n s in Some \<lparr>pktBuffer = b, pktPos = int (length b)\<rparr>)"

definition writeLong :: "int \<Rightarrow> nat \<Rightarrow> packet \<Rightarrow> packet option" where
  "writeLong num n p = (let s = pad_left n (show_int num) in
     if length s > n then None
     else let b = pktBuffer p @ s in Some \<lparr>pktBuffer = b, pktPos = int (length b)\<rparr>)"

definition assign :: "string \<Rightarrow> packet \<Rightarrow> packet" where
  "assign s p = \<lparr>pktBuffer = s, pktPos = 0\<rparr>"

definition resetReadPosition :: "int \<Rightarrow> packet \<Rightarrow> bool \<times> packet" where
  "resetReadPosition n p = (if n < 0 \<or> n > buf_size p then (False, p) else (True, p\<lparr>pktPos := n\<rparr>))"

section \<open>Reading a packet at a known position\<close>

text \<open>\<open>reads_at p pre rest\<close>: \<open>pre\<close> is consumed, \<open>rest\<close> is still to be read.\<close>

definition reads_at :: "packet \<Rightarrow> string \<Rightarrow> string \<Rightarrow> bool" where
  "reads_at p pre rest \<longleftrightarrow> pktBuffer p = pre @ rest \<and> pktPos p = int (length pre) \<and>
     int (length (pktBuffer p)) < 2 ^ 31"

definition advance :: "nat \<Rightarrow> packet \<Rightarrow> packet" where
  "advance n p = p\<lparr>pktPos := pktPos p + int n\<rparr>"

named_theorems reader \<open>what the reads return at a known position\<close>

lemma reads_at_new: "int (length s) < 2 ^ 31 \<Longrightarrow> reads_at (new_packet s) [] s"
  by (simp add: reads_at_def new_packet_def)

lemma reads_at_advance: "reads_at p pre (xs @ rest) \<Longrightarrow> n = length xs \<Longrightarrow> reads_at (advance n p) (pre @ xs) rest"
  by (auto simp: reads_at_def advance_def)

lemma to_size_small: "0 \<le> p \<Longrightarrow> p < 2 ^ 63 \<Longrightarrow> to_size p = p"
  by (simp add: to_size_def)

lemma reads_at_pos:
  assumes "reads_at p pre rest"
  shows "to_size (pktPos p) = int (length pre)" "buf_size p = int (length pre + length rest)"
    "n < 2 ^ 31 \<Longrightarrow> to_size (pktPos p + int n) = int (length pre + n)"
proof -
  have l: "int (length pre) < 2 ^ 31" using assms by (auto simp: reads_at_def)
  show "to_size (pktPos p) = int (length pre)" "buf_size p = int (length pre + length rest)"
    using assms l by (auto simp: reads_at_def buf_size_def intro!: to_size_small)
  show "to_size (pktPos p + int n) = int (length pre + n)" if "n < 2 ^ 31"
    using assms l that by (auto simp: reads_at_def intro!: to_size_small)
qed

lemma peekChar_at [reader]: "reads_at p pre rest \<Longrightarrow> peekChar p = (case rest of [] \<Rightarrow> NUL | c # _ \<Rightarrow> c)"
  using reads_at_pos [of p pre rest] by (cases rest) (auto simp: peekChar_def reads_at_def)

lemma readChar_at [reader]:
  "reads_at p pre rest \<Longrightarrow> readChar p = (case rest of [] \<Rightarrow> None | c # _ \<Rightarrow> Some (c, advance 1 p))"
  using reads_at_pos [of p pre rest] by (cases rest) (auto simp: readChar_def reads_at_def advance_def)

lemma readString_at [reader]:
  assumes "reads_at p pre rest" "n < 2 ^ 31"
  shows "readString n t p = (if n \<le> length rest
    then Some (if t then trim_right (take n rest) else take n rest, advance n p) else None)"
proof -
  have "\<not> pktPos p < 0" "nat (pktPos p) = length pre" using assms by (auto simp: reads_at_def)
  moreover have "drop (length pre) (pktBuffer p) = rest" using assms by (simp add: reads_at_def)
  ultimately show ?thesis
    using reads_at_pos [OF assms(1)] assms(2) by (auto simp: readString_def advance_def Let_def)
qed

definition long_field :: "string \<Rightarrow> int option" where
  "long_field s = (let (num, rest, erange) = strtol10 (c_str (trim_right s))
     in if rest \<noteq> [] \<or> erange then None else Some num)"

definition int_field :: "string \<Rightarrow> int option" where
  "int_field s = map_option int_of_long (long_field s)"

definition dbl_field :: "string \<Rightarrow> dval option" where
  "dbl_field s = (let (num, rest, erange) = strtod (c_str (trim_right s))
     in if rest \<noteq> [] \<or> erange then None else Some num)"

lemma readLong_at [reader]:
  assumes "reads_at p pre rest" "n < 2 ^ 31"
  shows "readLong n p = (if n \<le> length rest then map_option (\<lambda>v. (v, advance n p)) (long_field (take n rest)) else None)"
  using readString_at [OF assms] by (auto simp: readLong_def long_field_def split: prod.splits)

lemma readInt_at [reader]:
  assumes "reads_at p pre rest" "n < 2 ^ 31"
  shows "readInt n p = (if n \<le> length rest then map_option (\<lambda>v. (v, advance n p)) (int_field (take n rest)) else None)"
  using readLong_at [OF assms]
  by (cases "long_field (take n rest)") (auto simp: readInt_def int_field_def)

lemma readDbl_at [reader]:
  assumes "reads_at p pre rest" "n < 2 ^ 31"
  shows "readDbl n p = (if n \<le> length rest then map_option (\<lambda>v. (v, advance n p)) (dbl_field (take n rest)) else None)"
  using readString_at [OF assms] by (auto simp: readDbl_def dbl_field_def split: prod.splits)

lemma readUntilTLF_at [reader]:
  assumes "reads_at p pre rest" "pre @ rest \<noteq> []"
  shows "readUntilTLF p = (if length rest \<le> 1 then None
    else Some (butlast rest, advance (length rest - 1) p))"
proof -
  have l: "int (length pre + length rest) < 2 ^ 31" "1 \<le> length pre + length rest"
    using assms by (auto simp: reads_at_def Suc_le_eq)
  then have last: "to_size (buf_size p - 1) = int (length pre + length rest) - 1"
    unfolding reads_at_pos(2) [OF assms(1)] by (intro to_size_small) auto
  have "drop (length pre) (pktBuffer p) = rest" "length (pktBuffer p) = length pre + length rest"
    using assms by (simp_all add: reads_at_def)
  then show ?thesis
    using assms l unfolding readUntilTLF_def Let_def last reads_at_pos(1) [OF assms(1)]
    by (auto simp: reads_at_def buf_size_def advance_def butlast_conv_take)
qed

end
