(* ===== verification/ItchMessages.thy ===== *)
theory ItchMessages
  imports Packet
begin

text \<open>
  The messages of the ITCH session (\<^verbatim>\<open>src/market_data/itch/msg\<close>): the server messages and the
  HotspotFX payloads with their \<^verbatim>\<open>Load\<close> functions, the client messages with \<^verbatim>\<open>Save\<close>, the
  lines \<^verbatim>\<open>LogMessage\<close> writes, and \<^verbatim>\<open>MessageFactory\<close>.

  A constructor of \<open>message\<close> is a class; its arguments are the class's members. A \<^verbatim>\<open>Load\<close> that
  returns \<^verbatim>\<open>false\<close> is \<open>None\<close>: the factory deletes the object.
\<close>

section \<open>The message classes\<close>

record fx_order =
  foAmount :: dval
  foMinQty :: dval
  foLotSize :: dval
  foOrderID :: string

record bid_or_offer =
  boPrice :: string
  boOrders :: "fx_order list"

record currency_pair =
  cpName :: string
  cpBids :: "bid_or_offer list"
  cpOffers :: "bid_or_offer list"

record new_order =
  noBuyOrSell :: char
  noCurrencyPair :: string
  noOrderID :: string
  noPrice :: string
  noAmount :: dval
  noMinQty :: dval
  noLotSize :: dval

record modify_order =
  moCurrencyPair :: string
  moOrderID :: string
  moAmount :: dval
  moMinQty :: dval
  moLotSize :: dval

record ticker =
  tkBuyOrSell :: char
  tkCurrencyPair :: string
  tkPrice :: string
  tkTransactionDate :: string
  tkTransactionTime :: string

datatype message =
    ServerErrorNotification string
  | ServerHeartbeat
  | ServerInstrumentDirectory "string list"
  | ServerLoginAccepted int
  | ServerLoginRejected string
  | ServerSequencedData bool string string "message option"
  | ServerUnsupported char string
  | HotspotNewOrder new_order
  | HotspotModifyOrder modify_order
  | HotspotCancelOrder string string
  | HotspotMarketSnapshot int "currency_pair list"
  | HotspotTicker ticker
  | ClientHeartbeat
  | ClientInstrumentDirectory
  | ClientLogout
  | ClientLogin string string bool
  | ClientMarketDataSubscribe string
  | ClientMarketDataUnsubscribe string
  | ClientMarketSnapshot string
  | ClientTickerSubscribe string
  | ClientTickerUnsubscribe string

fun getMessageType :: "message \<Rightarrow> char" where
  "getMessageType (ServerErrorNotification _) = CHR ''E''"
| "getMessageType ServerHeartbeat = CHR ''H''"
| "getMessageType (ServerInstrumentDirectory _) = CHR ''R''"
| "getMessageType (ServerLoginAccepted _) = CHR ''A''"
| "getMessageType (ServerLoginRejected _) = CHR ''J''"
| "getMessageType (ServerSequencedData _ _ _ _) = CHR ''S''"
| "getMessageType (ServerUnsupported c _) = c"
| "getMessageType (HotspotNewOrder _) = CHR ''N''"
| "getMessageType (HotspotModifyOrder _) = CHR ''M''"
| "getMessageType (HotspotCancelOrder _ _) = CHR ''X''"
| "getMessageType (HotspotMarketSnapshot _ _) = CHR ''S''"
| "getMessageType (HotspotTicker _) = CHR ''T''"
| "getMessageType ClientHeartbeat = CHR ''R''"
| "getMessageType ClientInstrumentDirectory = CHR ''I''"
| "getMessageType ClientLogout = CHR ''O''"
| "getMessageType (ClientLogin _ _ _) = CHR ''L''"
| "getMessageType (ClientMarketDataSubscribe _) = CHR ''A''"
| "getMessageType (ClientMarketDataUnsubscribe _) = CHR ''B''"
| "getMessageType (ClientMarketSnapshot _) = CHR ''M''"
| "getMessageType (ClientTickerSubscribe _) = CHR ''T''"
| "getMessageType (ClientTickerUnsubscribe _) = CHR ''U''"

definition isHeartbeat :: "message \<Rightarrow> bool" where
  "isHeartbeat m \<longleftrightarrow> m = ServerHeartbeat \<or> m = ClientHeartbeat"

definition isEndOfSession :: "message \<Rightarrow> bool" where
  "isEndOfSession m = (case m of ServerSequencedData eos _ _ _ \<Rightarrow> eos | _ \<Rightarrow> False)"

definition TLF :: char where
  "TLF = CHR 0x0A"

section \<open>Load\<close>

type_synonym 'a loader = "packet \<Rightarrow> ('a \<times> packet) option"

text \<open>\<^verbatim>\<open>while (--n >= 0)\<close> around a sub-load.\<close>

fun load_times :: "nat \<Rightarrow> 'a loader \<Rightarrow> 'a list loader" where
  "load_times 0 f p = Some ([], p)"
| "load_times (Suc n) f p = do {
     (x, p1) \<leftarrow> f p;
     (xs, p2) \<leftarrow> load_times n f p1;
     Some (x # xs, p2)
   }"

definition load_error_notification :: "message loader" where
  "load_error_notification p = do {
     (s, p1) \<leftarrow> readString 100 True p;
     Some (ServerErrorNotification s, p1)
   }"

definition load_heartbeat :: "message loader" where
  "load_heartbeat p = Some (ServerHeartbeat, p)"

definition load_instrument_directory :: "message loader" where
  "load_instrument_directory p = do {
     (n, p1) \<leftarrow> readInt 4 p;
     (xs, p2) \<leftarrow> load_times (nat n) (readString 7 True) p1;
     Some (ServerInstrumentDirectory xs, p2)
   }"

definition load_login_accepted :: "message loader" where
  "load_login_accepted p = do {
     (n, p1) \<leftarrow> readInt 10 p;
     Some (ServerLoginAccepted n, p1)
   }"

definition load_login_rejected :: "message loader" where
  "load_login_rejected p = do {
     (s, p1) \<leftarrow> readString 20 True p;
     Some (ServerLoginRejected s, p1)
   }"

definition load_unsupported :: "char \<Rightarrow> message loader" where
  "load_unsupported c p = do {
     (s, p1) \<leftarrow> readUntilTLF p;
     Some (ServerUnsupported c s, p1)
   }"

definition load_new_order :: "message loader" where
  "load_new_order p = do {
     (c, p1) \<leftarrow> readChar p;
     (pair, p2) \<leftarrow> readString 7 True p1;
     (oid, p3) \<leftarrow> readString 15 True p2;
     (price, p4) \<leftarrow> readString 10 True p3;
     (amount, p5) \<leftarrow> readDbl 16 p4;
     (minq, p6) \<leftarrow> readDbl 16 p5;
     (lot, p7) \<leftarrow> readDbl 16 p6;
     Some (HotspotNewOrder \<lparr>noBuyOrSell = c, noCurrencyPair = pair, noOrderID = oid, noPrice = price,
       noAmount = amount, noMinQty = minq, noLotSize = lot\<rparr>, p7)
   }"

definition load_modify_order :: "message loader" where
  "load_modify_order p = do {
     (pair, p1) \<leftarrow> readString 7 True p;
     (oid, p2) \<leftarrow> readString 15 True p1;
     (amount, p3) \<leftarrow> readDbl 16 p2;
     (minq, p4) \<leftarrow> readDbl 16 p3;
     (lot, p5) \<leftarrow> readDbl 16 p4;
     Some (HotspotModifyOrder \<lparr>moCurrencyPair = pair, moOrderID = oid, moAmount = amount,
       moMinQty = minq, moLotSize = lot\<rparr>, p5)
   }"

definition load_cancel_order :: "message loader" where
  "load_cancel_order p = do {
     (pair, p1) \<leftarrow> readString 7 True p;
     (oid, p2) \<leftarrow> readString 15 True p1;
     Some (HotspotCancelOrder pair oid, p2)
   }"

definition load_ticker :: "message loader" where
  "load_ticker p = do {
     (c, p1) \<leftarrow> readChar p;
     (pair, p2) \<leftarrow> readString 7 True p1;
     (price, p3) \<leftarrow> readString 10 True p2;
     (date, p4) \<leftarrow> readString 8 True p3;
     (time, p5) \<leftarrow> readString 6 True p4;
     Some (HotspotTicker \<lparr>tkBuyOrSell = c, tkCurrencyPair = pair, tkPrice = price,
       tkTransactionDate = date, tkTransactionTime = time\<rparr>, p5)
   }"

definition load_fx_order :: "fx_order loader" where
  "load_fx_order p = do {
     (amount, p1) \<leftarrow> readDbl 16 p;
     (minq, p2) \<leftarrow> readDbl 16 p1;
     (lot, p3) \<leftarrow> readDbl 16 p2;
     (oid, p4) \<leftarrow> readString 15 True p3;
     Some (\<lparr>foAmount = amount, foMinQty = minq, foLotSize = lot, foOrderID = oid\<rparr>, p4)
   }"

definition load_bid_or_offer :: "bid_or_offer loader" where
  "load_bid_or_offer p = do {
     (price, p1) \<leftarrow> readString 10 True p;
     (n, p2) \<leftarrow> readInt 4 p1;
     (orders, p3) \<leftarrow> load_times (nat n) load_fx_order p2;
     Some (\<lparr>boPrice = price, boOrders = orders\<rparr>, p3)
   }"

definition load_currency_pair :: "currency_pair loader" where
  "load_currency_pair p = do {
     (name, p1) \<leftarrow> readString 7 True p;
     (nb, p2) \<leftarrow> readInt 4 p1;
     (bids, p3) \<leftarrow> load_times (nat nb) load_bid_or_offer p2;
     (no, p4) \<leftarrow> readInt 4 p3;
     (offers, p5) \<leftarrow> load_times (nat no) load_bid_or_offer p4;
     Some (\<lparr>cpName = name, cpBids = bids, cpOffers = offers\<rparr>, p5)
   }"

definition load_market_snapshot :: "message loader" where
  "load_market_snapshot p = do {
     (len, p1) \<leftarrow> readInt 6 p;
     (n, p2) \<leftarrow> readInt 4 p1;
     (pairs, p3) \<leftarrow> load_times (nat n) load_currency_pair p2;
     Some (HotspotMarketSnapshot len pairs, p3)
   }"

section \<open>The factory\<close>

definition create_hotspot :: "char \<Rightarrow> message loader option" where
  "create_hotspot c =
     (if c = CHR ''N'' then Some load_new_order
      else if c = CHR ''M'' then Some load_modify_order
      else if c = CHR ''X'' then Some load_cancel_order
      else if c = CHR ''S'' then Some load_market_snapshot
      else if c = CHR ''T'' then Some load_ticker
      else None)"

definition parseMessage :: "(char \<Rightarrow> message loader option) \<Rightarrow> message loader" where
  "parseMessage create p = do {
     (c, p1) \<leftarrow> readChar p;
     (case create c of
        None \<Rightarrow> load_unsupported c p1
      | Some load \<Rightarrow>
          (case load p1 of
             Some r \<Rightarrow> Some r
           | None \<Rightarrow> load_unsupported c (snd (resetReadPosition 1 p1))))
   }"

definition load_sequenced_data :: "message loader" where
  "load_sequenced_data p =
     (if peekChar p = TLF then Some (ServerSequencedData True [] [] None, p)
      else do {
        (ts, p1) \<leftarrow> readString 9 True p;
        (payload, p2) \<leftarrow> readUntilTLF p1;
        (m, _) \<leftarrow> parseMessage create_hotspot (new_packet payload);
        Some (ServerSequencedData False ts payload (Some m), p2)
      })"

definition create_itch :: "char \<Rightarrow> message loader option" where
  "create_itch c =
     (if c = CHR ''E'' then Some load_error_notification
      else if c = CHR ''H'' then Some load_heartbeat
      else if c = CHR ''R'' then Some load_instrument_directory
      else if c = CHR ''A'' then Some load_login_accepted
      else if c = CHR ''J'' then Some load_login_rejected
      else if c = CHR ''S'' then Some load_sequenced_data
      else None)"

definition parse_itch :: "packet \<Rightarrow> message option" where
  "parse_itch p = map_option fst (parseMessage create_itch p)"

section \<open>Save\<close>

definition save_currency_pair :: "char \<Rightarrow> string \<Rightarrow> packet \<Rightarrow> packet option" where
  "save_currency_pair c pair p = writeString pair 7 (writeChar c p)"

definition save_login :: "string \<Rightarrow> string \<Rightarrow> bool \<Rightarrow> packet \<Rightarrow> packet option" where
  "save_login user pw unsub p = do {
     p1 \<leftarrow> writeString user 40 (writeChar CHR ''L'' p);
     p2 \<leftarrow> writeString pw 40 p1;
     writeLong 0 9 (writeChar (if unsub then CHR ''T'' else CHR ''F'') p2)
   }"

fun save :: "message \<Rightarrow> packet \<Rightarrow> packet option" where
  "save (ClientLogin user pw unsub) p = save_login user pw unsub p"
| "save (ClientMarketDataSubscribe pair) p = save_currency_pair CHR ''A'' pair p"
| "save (ClientMarketDataUnsubscribe pair) p = save_currency_pair CHR ''B'' pair p"
| "save (ClientMarketSnapshot pair) p = save_currency_pair CHR ''M'' pair p"
| "save (ClientTickerSubscribe pair) p = save_currency_pair CHR ''T'' pair p"
| "save (ClientTickerUnsubscribe pair) p = save_currency_pair CHR ''U'' pair p"
| "save m p = Some (writeChar (getMessageType m) p)"

section \<open>LogMessage\<close>

definition log_field :: "string \<Rightarrow> string" where
  "log_field s = CHR ''|'' # s"

definition log_fx_order :: "fx_order \<Rightarrow> string" where
  "log_fx_order o' = log_field (fmt_fixed 6 (foAmount o')) @ log_field (fmt_fixed 6 (foMinQty o')) @
     log_field (fmt_fixed 6 (foLotSize o')) @ log_field (c_str (foOrderID o'))"

definition log_bid_or_offer :: "bid_or_offer \<Rightarrow> string" where
  "log_bid_or_offer b = log_field (c_str (boPrice b)) @ log_field (show_nat (length (boOrders b))) @
     concat (map log_fx_order (boOrders b))"

definition log_currency_pair :: "currency_pair \<Rightarrow> string" where
  "log_currency_pair c = log_field (c_str (cpName c)) @
     log_field (show_nat (length (cpBids c))) @ concat (map log_bid_or_offer (cpBids c)) @
     log_field (show_nat (length (cpOffers c))) @ concat (map log_bid_or_offer (cpOffers c))"

fun log_body :: "message \<Rightarrow> string" where
  "log_body (ServerErrorNotification s) = log_field (c_str s)"
| "log_body (ServerInstrumentDirectory xs) =
     log_field (show_nat (length xs)) @ concat (map (\<lambda>x. log_field (c_str x)) xs)"
| "log_body (ServerLoginAccepted n) = log_field (show_int n)"
| "log_body (ServerLoginRejected s) = log_field (c_str s)"
| "log_body (ServerSequencedData eos ts payload m) =
     (if eos then []
      else log_field (c_str ts) @ ''|'' @
        (case m of Some x \<Rightarrow> getMessageType x # log_body x | None \<Rightarrow> c_str payload))"
| "log_body (ServerUnsupported c s) = log_field (c_str s)"
| "log_body (HotspotNewOrder n) = log_field [noBuyOrSell n] @ log_field (c_str (noCurrencyPair n)) @
     log_field (c_str (noOrderID n)) @ log_field (c_str (noPrice n)) @
     log_field (fmt_fixed 6 (noAmount n)) @ log_field (fmt_fixed 6 (noMinQty n)) @
     log_field (fmt_fixed 6 (noLotSize n))"
| "log_body (HotspotModifyOrder m) = log_field (c_str (moCurrencyPair m)) @
     log_field (c_str (moOrderID m)) @ log_field (fmt_fixed 6 (moAmount m)) @
     log_field (fmt_fixed 6 (moMinQty m)) @ log_field (fmt_fixed 6 (moLotSize m))"
| "log_body (HotspotCancelOrder pair oid) = log_field (c_str pair) @ log_field (c_str oid)"
| "log_body (HotspotMarketSnapshot len pairs) =
     log_field (show_int len) @ log_field (show_nat (length pairs)) @ concat (map log_currency_pair pairs)"
| "log_body (HotspotTicker t) = log_field [tkBuyOrSell t] @ log_field (c_str (tkCurrencyPair t)) @
     log_field (c_str (tkPrice t)) @ log_field (c_str (tkTransactionDate t)) @
     log_field (c_str (tkTransactionTime t))"
| "log_body (ClientLogin user pw unsub) = log_field (c_str user) @ log_field (c_str pw) @
     log_field (if unsub then ''T'' else ''F'') @ log_field ''0''"
| "log_body (ClientMarketDataSubscribe pair) = log_field (c_str pair)"
| "log_body (ClientMarketDataUnsubscribe pair) = log_field (c_str pair)"
| "log_body (ClientMarketSnapshot pair) = log_field (c_str pair)"
| "log_body (ClientTickerSubscribe pair) = log_field (c_str pair)"
| "log_body (ClientTickerUnsubscribe pair) = log_field (c_str pair)"
| "log_body m = []"

definition log_message :: "message \<Rightarrow> string" where
  "log_message m = getMessageType m # log_body m"

end
