(* ===== verification/ItchSocket.thy ===== *)
theory ItchSocket
  imports RingBuffer ItchMessages
begin

text \<open>
  The socket of the ITCH session (\<^verbatim>\<open>src/market_data/itch/Socket.cpp\<close>, built with the ring
  buffer). What the kernel answers is an input: one \<open>recv_res\<close> for each call of \<^verbatim>\<open>recv\<close>, one
  \<open>sel_res\<close> for each \<^verbatim>\<open>select\<close>, one \<open>send_res\<close> for each \<^verbatim>\<open>send\<close>. The clock is the
  argument \<open>now\<close>. A call that still waits when its inputs are used up is \<open>Blocked\<close>; \<open>Undefined\<close>
  is the undefined behaviour of the ring buffer.
\<close>

datatype recv_res = RecvError | RecvShutdown | RecvData string
datatype sel_res = SelError | SelTimeout | SelReady
datatype send_res = SendError | Sent nat

datatype 'a outcome = Done 'a | Blocked | Undefined

record isocket =
  sockUp :: bool
  timeConnected :: int
  timeDisconnected :: int
  sockRing :: ring

definition new_isocket :: "int \<Rightarrow> isocket" where
  "new_isocket now = \<lparr>sockUp = True, timeConnected = now, timeDisconnected = 0, sockRing = new_ring 8192\<rparr>"

definition sock_close :: "int \<Rightarrow> isocket \<Rightarrow> isocket" where
  "sock_close now s = s\<lparr>timeDisconnected := now, sockUp := False\<rparr>"

definition getUptimeSeconds :: "int \<Rightarrow> isocket \<Rightarrow> int" where
  "getUptimeSeconds now s =
     (if timeConnected s = 0 then 0
      else (if timeDisconnected s = 0 then now else timeDisconnected s) - timeConnected s)"

section \<open>Sending\<close>

text \<open>
  The loop around \<^verbatim>\<open>send\<close>: the result, the bytes written, what is left of the inputs. After a
  \<^verbatim>\<open>send\<close> of 0 bytes the code waits for buffer space with one \<^verbatim>\<open>select\<close>.
\<close>

fun send_loop :: "string \<Rightarrow> (send_res \<times> sel_res) list \<Rightarrow>
    ((bool \<times> string) \<times> (send_res \<times> sel_res) list) outcome" where
  "send_loop bs [] = Blocked"
| "send_loop bs ((r, sel) # es) =
     (case r of
        SendError \<Rightarrow> Done ((False, []), es)
      | Sent k \<Rightarrow>
          if k \<ge> length bs then Done ((True, bs), es)
          else if k = 0 \<and> sel \<noteq> SelReady then Done ((False, []), es)
          else (case send_loop (drop k bs) es of
                  Done ((ok, out), es') \<Rightarrow> Done ((ok, take k bs @ out), es')
                | Blocked \<Rightarrow> Blocked
                | Undefined \<Rightarrow> Undefined))"

definition sendPacket :: "int \<Rightarrow> (send_res \<times> sel_res) list \<Rightarrow> packet \<Rightarrow> isocket \<Rightarrow>
    (bool \<times> string \<times> isocket \<times> (send_res \<times> sel_res) list) outcome" where
  "sendPacket now es p s = (let bs = pktBuffer p in
     if \<not> sockUp s then Done (False, [], s, es)
     else if bs = [] then Done (True, [], s, es)
     else case send_loop bs es of
       Blocked \<Rightarrow> Blocked
     | Undefined \<Rightarrow> Undefined
     | Done ((False, out), es') \<Rightarrow> Done (False, out, sock_close now s, es')
     | Done ((True, out), es') \<Rightarrow>
         if last bs \<noteq> TLF then
           (case es' of
              [] \<Rightarrow> Blocked
            | (SendError, _) # es'' \<Rightarrow> Done (False, out, sock_close now s, es'')
            | (Sent k, _) # es'' \<Rightarrow> Done (True, out @ (if k = 0 then [] else [TLF]), s, es''))
         else Done (True, out, s, es'))"

section \<open>Receiving\<close>

text \<open>\<^verbatim>\<open>recv\<close> on a closed descriptor fails.\<close>

definition recvIntoBuffer :: "int \<Rightarrow> recv_res \<Rightarrow> isocket \<Rightarrow> (bool \<times> bool \<times> isocket) option" where
  "recvIntoBuffer now r s =
     (case (if sockUp s then r else RecvError) of
        RecvError \<Rightarrow> Some (False, False, sock_close now s)
      | RecvShutdown \<Rightarrow> Some (False, False, sock_close now s)
      | RecvData bs \<Rightarrow>
          if bs = [] then Some (False, False, sock_close now s)
          else do {
            rb \<leftarrow> writeData (take 2048 bs) (sockRing s);
            Some (True, TLF \<in> set (take 2048 bs), s\<lparr>sockRing := rb\<rparr>)
          })"

fun recvMessage_loop :: "int \<Rightarrow> (sel_res \<times> recv_res) list \<Rightarrow> isocket \<Rightarrow> (bool \<times> isocket) outcome" where
  "recvMessage_loop now [] s = Blocked"
| "recvMessage_loop now ((sel, r) # es) s =
     (case sel of
        SelError \<Rightarrow> Done (False, sock_close now s)
      | SelTimeout \<Rightarrow> Done (False, s)
      | SelReady \<Rightarrow>
          (case recvIntoBuffer now r s of
             None \<Rightarrow> Undefined
           | Some (False, _, s') \<Rightarrow> Done (False, s')
           | Some (True, True, s') \<Rightarrow> Done (True, s')
           | Some (True, False, s') \<Rightarrow> recvMessage_loop now es s'))"

definition recvMessage :: "int \<Rightarrow> (sel_res \<times> recv_res) list \<Rightarrow> isocket \<Rightarrow> (bool \<times> isocket) outcome" where
  "recvMessage now es s =
     (if \<not> sockUp s then Done (False, s)
      else case containsByte TLF (sockRing s) of
        None \<Rightarrow> Undefined
      | Some True \<Rightarrow> Done (True, s)
      | Some False \<Rightarrow> recvMessage_loop now es s)"

text \<open>The \<^verbatim>\<open>select\<close> timeout the code computes from milliseconds, in seconds and microseconds.\<close>

definition recv_timeout :: "int \<Rightarrow> int \<times> int" where
  "recv_timeout ms = (ms div 1000, (ms mod 1000) * 1000000)"

definition cells_string :: "cells \<Rightarrow> string option" where
  "cells_string xs = (if None \<in> set xs then None else Some (map the xs))"

fun recvPacket_loop :: "int \<Rightarrow> recv_res list \<Rightarrow> string \<Rightarrow> isocket \<Rightarrow>
    (string \<times> isocket \<times> recv_res list) outcome" where
  "recvPacket_loop now es str s =
     (case readDataUtilByte 2048 TLF True (sockRing s) of
        None \<Rightarrow> Undefined
      | Some (xs, rb) \<Rightarrow>
          (case cells_string xs of
             None \<Rightarrow> Undefined
           | Some bs \<Rightarrow>
               let s1 = s\<lparr>sockRing := rb\<rparr> in
               if bs \<noteq> [] \<and> last bs = TLF then Done (str @ bs, s1, es)
               else (case es of
                       [] \<Rightarrow> Blocked
                     | r # es' \<Rightarrow>
                         (case recvIntoBuffer now r s1 of
                            None \<Rightarrow> Undefined
                          | Some (_, _, s2) \<Rightarrow> recvPacket_loop now es' (str @ bs) s2))))"

declare recvPacket_loop.simps [simp del]

definition recvPacket :: "int \<Rightarrow> recv_res list \<Rightarrow> packet \<Rightarrow> isocket \<Rightarrow>
    (packet \<times> isocket \<times> recv_res list) outcome" where
  "recvPacket now es p s =
     (case recvPacket_loop now es [] s of
        Done (str, s', es') \<Rightarrow> Done (assign str p, s', es')
      | Blocked \<Rightarrow> Blocked
      | Undefined \<Rightarrow> Undefined)"

text \<open>\<^verbatim>\<open>MessageFactory::ReceiveMessage\<close>: wait for a terminator, then take one packet.\<close>

definition receiveMessage :: "int \<Rightarrow> (sel_res \<times> recv_res) list \<Rightarrow> recv_res list \<Rightarrow> isocket \<Rightarrow>
    (message option \<times> isocket) outcome" where
  "receiveMessage now ses es s =
     (case recvMessage now ses s of
        Blocked \<Rightarrow> Blocked
      | Undefined \<Rightarrow> Undefined
      | Done (False, s') \<Rightarrow> Done (None, s')
      | Done (True, s') \<Rightarrow>
          (case recvPacket now es (new_packet []) s' of
             Done (p, s'', _) \<Rightarrow> Done (parse_itch p, s'')
           | Blocked \<Rightarrow> Blocked
           | Undefined \<Rightarrow> Undefined))"

section \<open>Properties of the socket\<close>

lemma cells_string_Some [simp]: "cells_string (map Some bs) = Some bs"
  by (auto simp: cells_string_def comp_def)

lemma readDataUtilByte_line:
  assumes r: "ring_repr rb (line @ TLF # rest)" and nw: "dataOffset rb + dataLength rb \<le> bufLength rb"
    and l: "TLF \<notin> set line" "length line < 2048"
  shows "\<exists>rb'. readDataUtilByte 2048 TLF True rb = Some (map Some (line @ [TLF]), rb') \<and> ring_repr rb' rest"
proof -
  have u: "upto_byte TLF (line @ TLF # rest) = line @ [TLF]"
    using l(1) by (simp add: upto_byte_def takeWhile_append)
  have m: "min (nat 2048) (length (line @ [TLF])) = length (line @ [TLF])"
    "take (nat 2048) (line @ [TLF]) = line @ [TLF]" using l(2) by simp_all
  have d: "drop (length (line @ [TLF])) (line @ TLF # rest) = rest" by simp
  obtain rb' where "readDataUtilByte 2048 TLF True rb = Some (map Some (take (nat 2048) (upto_byte TLF (line @ TLF # rest))), rb')"
    "ring_repr rb' (drop (min (nat 2048) (length (upto_byte TLF (line @ TLF # rest)))) (line @ TLF # rest))"
    using ring_read_line [OF r nw, of 2048 TLF] by auto
  then show ?thesis unfolding u m d by blast
qed

end
