(* ===== verification/NumericCorrect.thy ===== *)
theory NumericCorrect
  imports Packet
begin

text \<open>
  What a number or a string written into a fixed-width field reads back as, and that rounding to
  binary64 keeps the integers up to 2 to the 53.
\<close>

section \<open>Decimal digits\<close>

lemma ord_digit_char: "d < 10 \<Longrightarrow> ord_c (digit_char d) = 48 + d"
  by (simp add: ord_c_def digit_char_def)

lemma digit_char_facts [simp]:
  assumes "d < 10"
  shows "is_digit (digit_char d)" "digit_val (digit_char d) = d" "\<not> is_space (digit_char d)"
    "digit_char d \<noteq> NUL" "digit_char d \<noteq> CHR ''-''" "digit_char d \<noteq> CHR ''+''"
proof -
  have o: "ord_c (digit_char d) = 48 + d" by (rule ord_digit_char [OF assms])
  then show "is_digit (digit_char d)" "digit_val (digit_char d) = d" "\<not> is_space (digit_char d)"
    using assms by (auto simp: is_digit_def digit_val_def is_space_def)
  have "ord_c NUL = 0" "ord_c CHR ''-'' = 45" "ord_c CHR ''+'' = 43" by (simp_all add: ord_c_def NUL_def)
  then show "digit_char d \<noteq> NUL" "digit_char d \<noteq> CHR ''-''" "digit_char d \<noteq> CHR ''+''"
    using o by auto
qed

lemma show_nat_digits: "\<forall>c \<in> set (show_nat n). \<exists>d < 10. c = digit_char d"
proof (induction n rule: show_nat.induct)
  case (1 n)
  show ?case
  proof (cases "n < 10")
    case True
    then show ?thesis by (simp add: show_nat.simps [of n]) blast
  next
    case False
    then have "set (show_nat n) = insert (digit_char (n mod 10)) (set (show_nat (n div 10)))"
      by (simp add: show_nat.simps [of n])
    moreover have "\<exists>d < 10. digit_char (n mod 10) = digit_char d"
      by (rule exI [of _ "n mod 10"]) simp
    ultimately show ?thesis using 1 [OF False] by simp
  qed
qed

lemma show_nat_small: "n < 10 \<Longrightarrow> show_nat n = [digit_char n]"
  by (simp add: show_nat.simps)

lemma show_nat_nonempty [simp]: "show_nat n \<noteq> []"
  by (subst show_nat.simps) simp

lemma show_nat_val: "digits_val 10 digit_val (show_nat n) = n"
proof (induction n rule: show_nat.induct)
  case (1 n)
  show ?case
  proof (cases "n < 10")
    case False
    then have "show_nat n = show_nat (n div 10) @ [digit_char (n mod 10)]" by (simp add: show_nat.simps [of n])
    then show ?thesis using 1 [OF False] by (simp add: digits_val_def)
  qed (simp add: show_nat.simps [of n] digits_val_def)
qed

lemma show_nat_props:
  assumes "c \<in> set (show_nat n)"
  shows "is_digit c" "\<not> is_space c" "c \<noteq> NUL" "c \<noteq> CHR ''-''" "c \<noteq> CHR ''+''"
  using show_nat_digits [of n] assms digit_char_facts by metis+

lemma takeWhile_all: "\<forall>x \<in> set xs. P x \<Longrightarrow> takeWhile P xs = xs \<and> dropWhile P xs = []"
  by (induction xs) auto

lemma show_nat_takeWhile [simp]:
  "takeWhile is_digit (show_nat n) = show_nat n" "dropWhile is_digit (show_nat n) = []"
  using takeWhile_all [of "show_nat n" is_digit] show_nat_props(1) by auto

section \<open>Fields padded with spaces\<close>

lemma is_space_blank [simp]: "is_space CHR '' ''"
  by (simp add: is_space_def ord_c_def)

lemma blank_not_NUL [simp]: "CHR '' '' \<noteq> NUL" "NUL \<noteq> CHR '' ''"
  by (simp_all add: NUL_def)

lemma dropWhile_blanks: "dropWhile is_space (replicate k CHR '' '' @ s) = dropWhile is_space s"
  by (induction k) auto

lemma trim_right_pad [simp]: "trim_right (pad_right n s) = trim_right s"
  by (simp add: trim_right_def pad_right_def dropWhile_blanks)

lemma trim_right_id:
  assumes "s \<noteq> []" "\<not> is_space (last s)"
  shows "trim_right (p @ s) = p @ s"
proof -
  obtain s' c where s: "s = s' @ [c]" using assms(1) by (metis rev_exhaust)
  then show ?thesis using assms(2) by (simp add: trim_right_def)
qed

lemma c_str_id: "NUL \<notin> set s \<Longrightarrow> c_str s = s"
  by (induction s) (auto simp: c_str_def)

lemma pad_right_length [simp]: "length s \<le> n \<Longrightarrow> length (pad_right n s) = n"
  by (simp add: pad_right_def)

lemma pad_left_length [simp]: "length s \<le> n \<Longrightarrow> length (pad_left n s) = n"
  by (simp add: pad_left_def)

text \<open>A right-aligned field: trimming keeps it, the conversions skip the blanks in front.\<close>

lemma field_pad_left:
  assumes "s \<noteq> []" "\<not> is_space (last s)" "\<not> is_space (hd s)" "NUL \<notin> set s"
  shows "c_str (trim_right (pad_left n s)) = pad_left n s" "dropWhile is_space (pad_left n s) = s"
proof -
  have "trim_right (pad_left n s) = pad_left n s"
    unfolding pad_left_def by (rule trim_right_id [OF assms(1,2)])
  moreover have "NUL \<notin> set (pad_left n s)" using assms(4) by (auto simp: pad_left_def)
  ultimately show "c_str (trim_right (pad_left n s)) = pad_left n s" by (simp add: c_str_id)
  obtain c s' where "s = c # s'" using assms(1) by (cases s) auto
  then show "dropWhile is_space (pad_left n s) = s"
    using assms(3) by (simp add: pad_left_def dropWhile_blanks)
qed

lemma show_int_ends:
  "show_int v \<noteq> []" "\<not> is_space (last (show_int v))" "\<not> is_space (hd (show_int v))" "NUL \<notin> set (show_int v)"
proof -
  have d: "ord_c CHR ''-'' = 45" by (simp add: ord_c_def)
  then have m: "\<not> is_space CHR ''-''" "CHR ''-'' \<noteq> NUL" by (auto simp: is_space_def NUL_def)
  show "show_int v \<noteq> []" by (simp add: show_int_def)
  show "\<not> is_space (last (show_int v))" "\<not> is_space (hd (show_int v))"
    using show_nat_props(2) [OF last_in_set [OF show_nat_nonempty]]
      show_nat_props(2) [OF hd_in_set [OF show_nat_nonempty]] m by (auto simp: show_int_def)
  show "NUL \<notin> set (show_int v)" using show_nat_props(3) m by (auto simp: show_int_def)
qed

lemma read_sign_show_nat: "read_sign (show_nat n) = (False, show_nat n)"
  using show_nat_props(4,5) [of _ n] by (cases "show_nat n") (auto simp: read_sign_def)

lemma strtol10_show:
  assumes "LONG_MIN \<le> v" "v \<le> LONG_MAX" "dropWhile is_space s = show_int v"
  shows "strtol10 s = (v, [], False)"
proof (cases "v < 0")
  case True
  then have "read_sign (show_int v) = (True, show_nat (nat (- v)))" by (simp add: show_int_def read_sign_def)
  then show ?thesis using True assms by (auto simp: strtol10_def Let_def show_nat_val)
next
  case False
  then have "read_sign (show_int v) = (False, show_nat (nat v))" by (simp add: show_int_def read_sign_show_nat)
  then show ?thesis using False assms by (auto simp: strtol10_def Let_def show_nat_val)
qed

lemma long_field_show:
  "LONG_MIN \<le> v \<Longrightarrow> v \<le> LONG_MAX \<Longrightarrow> long_field (pad_left n (show_int v)) = Some v"
  using strtol10_show [of v "pad_left n (show_int v)"]
  by (simp add: long_field_def field_pad_left [OF show_int_ends])

lemma int_of_long_id: "- (2 ^ 31) \<le> v \<Longrightarrow> v < 2 ^ 31 \<Longrightarrow> int_of_long v = v"
  unfolding int_of_long_def sint_sbintrunc' by (simp add: signed_take_bit_int_eq_self)

lemma int_field_show:
  "- (2 ^ 31) \<le> v \<Longrightarrow> v < 2 ^ 31 \<Longrightarrow> int_field (pad_left n (show_int v)) = Some v"
  using long_field_show [of v n] int_of_long_id [of v]
  by (simp add: int_field_def LONG_MIN_def LONG_MAX_def)

lemma show_int_nat: "show_int (int n) = show_nat n"
  by (simp add: show_int_def)

section \<open>Rounding keeps small integers\<close>

lemma pow2_nat: "pow2 (int n) = 2 ^ n"
  by (simp add: pow2_def)

lemma pow2_pos [simp]: "0 < pow2 e"
  by (simp add: pow2_def)

lemma pow2_neg_nat: "pow2 (- int n) = 1 / 2 ^ n"
  by (cases "n = 0") (simp_all add: pow2_def)

lemma ilog2_bounds: "0 < n \<Longrightarrow> 2 ^ ilog2 n \<le> n \<and> n < 2 ^ Suc (ilog2 n)"
proof (induction n rule: ilog2.induct)
  case (1 n)
  show ?case
  proof (cases "n < 2")
    case True
    then show ?thesis using 1(2) by (simp add: ilog2.simps [of n])
  next
    case False
    then have "2 ^ ilog2 (n div 2) \<le> n div 2 \<and> n div 2 < 2 ^ Suc (ilog2 (n div 2))" using 1 by simp
    then have "2 ^ ilog2 n \<le> 2 * (n div 2)" "n div 2 + 1 \<le> 2 ^ ilog2 n"
      using False by (auto simp: ilog2.simps [of n])
    moreover have "2 * (n div 2) \<le> n" "n < 2 * (n div 2 + 1)" by auto
    ultimately show ?thesis by simp
  qed
qed

lemma round_half_even_int: "round_half_even (of_int z) = z"
  by (simp add: round_half_even_def)

lemma flog2_nat: "0 < n \<Longrightarrow> flog2 (of_nat n) = int (ilog2 n)"
proof -
  assume n: "0 < n"
  have q: "quotient_of (of_nat n) = (int n, 1)"
    using quotient_of_int [of "int n"] by (simp add: Fract_of_int_quotient [symmetric] of_int_rat)
  have i1: "ilog2 (Suc 0) = 0" by (simp add: ilog2.simps)
  have "pow2 (int (ilog2 n)) \<le> of_nat n"
    using ilog2_bounds [OF n] unfolding pow2_nat by (metis of_nat_le_iff of_nat_numeral of_nat_power)
  then show ?thesis by (simp add: flog2_def q i1 Let_def)
qed

lemma dbl_round_nat:
  assumes "n \<le> 2 ^ 53"
  shows "dbl_round (of_nat n) = of_nat n"
proof (cases "n = 0")
  case False
  then have n: "0 < n" by simp
  have "2 ^ ilog2 n \<le> n" using ilog2_bounds [OF n] by simp
  then have "(2::nat) ^ ilog2 n \<le> 2 ^ 53" using assms by linarith
  then have l: "ilog2 n \<le> 53" by (rule power_le_imp_le_exp [rotated]) simp
  show ?thesis
  proof (cases "ilog2 n = 53")
    case True
    then have "n = 2 ^ 53" using ilog2_bounds [OF n] assms by simp
    moreover have "dbl_quantum (of_nat n) = 2"
      using n True by (simp add: dbl_quantum_def flog2_nat pow2_def)
    moreover have "round_half_even (4503599627370496 :: rat) = 4503599627370496"
      using round_half_even_int [of 4503599627370496] by simp
    ultimately show ?thesis by (simp add: dbl_round_def Let_def)
  next
    case False
    define k where "k = 52 - ilog2 n"
    have k: "int (ilog2 n) - 52 = - int k" "k \<le> 1074" using False l by (auto simp: k_def)
    have "dbl_quantum (of_nat n) = 1 / 2 ^ k"
      using n k by (simp add: dbl_quantum_def flog2_nat pow2_neg_nat)
    moreover have "(of_nat n :: rat) * 2 ^ k = of_int (int n * 2 ^ k)" by simp
    ultimately show ?thesis
      using n by (simp add: dbl_round_def Let_def round_half_even_int del: of_int_mult)
        (simp add: field_simps)
  qed
qed (simp add: dbl_round_def)

end
