(* ===== verification/ItchCorrect.thy ===== *)
theory ItchCorrect
  imports ItchMessages NumericCorrect
begin

text \<open>
  The wire format of the ITCH messages as an encoder, and the proof that the loaders and the factory
  read back every well-formed message. \<open>parses ld w x\<close> says that \<open>ld\<close> consumes exactly \<open>w\<close> and
  returns \<open>x\<close>, wherever in a packet \<open>w\<close> stands; it composes along the loaders.
\<close>

section \<open>Loaders that read an encoding back\<close>

definition parses :: "'a loader \<Rightarrow> string \<Rightarrow> 'a \<Rightarrow> bool" where
  "parses ld w x \<longleftrightarrow> (\<forall>p pre rest. reads_at p pre (w @ rest) \<longrightarrow>
     (\<exists>p'. ld p = Some (x, p') \<and> reads_at p' (pre @ w) rest))"

lemma parsesI:
  assumes "\<And>p pre rest. reads_at p pre (w @ rest) \<Longrightarrow> \<exists>p'. ld p = Some (x, p') \<and> reads_at p' (pre @ w) rest"
  shows "parses ld w x"
  using assms by (simp add: parses_def)

lemma parsesD:
  assumes "parses ld w x" "reads_at p pre (w @ rest)"
  obtains p' where "ld p = Some (x, p')" "reads_at p' (pre @ w) rest"
  using assms unfolding parses_def by blast

lemma parses_ret: "parses (\<lambda>p. Some (x, p)) [] x"
  by (simp add: parses_def)

lemma parses_done: "y = x \<Longrightarrow> parses (\<lambda>p. Some (y, p)) [] x"
  by (simp add: parses_def)

lemma parses_bind:
  assumes f: "parses f w x" and g: "parses (g x) w' y"
  shows "parses (\<lambda>p. Option.bind (f p) (\<lambda>(a, p1). g a p1)) (w @ w') y"
proof (rule parsesI)
  fix p pre rest assume "reads_at p pre ((w @ w') @ rest)"
  then have "reads_at p pre (w @ (w' @ rest))" by simp
  then obtain p1 where p1: "f p = Some (x, p1)" "reads_at p1 (pre @ w) (w' @ rest)"
    using parsesD [OF f] by blast
  obtain p2 where "g x p1 = Some (y, p2)" "reads_at p2 ((pre @ w) @ w') rest"
    using parsesD [OF g p1(2)] by blast
  then show "\<exists>p'. Option.bind (f p) (\<lambda>(a, p1). g a p1) = Some (y, p') \<and> reads_at p' (pre @ w @ w') rest"
    using p1(1) by simp
qed

lemma parses_readString:
  assumes "length w = n" "n < 2 ^ 31" "x = trim_right w"
  shows "parses (readString n True) w x"
proof (rule parsesI)
  fix p pre rest assume a: "reads_at p pre (w @ rest)"
  show "\<exists>p'. readString n True p = Some (x, p') \<and> reads_at p' (pre @ w) rest"
    using readString_at [OF a assms(2), of True] reads_at_advance [OF a, of n] assms by simp
qed

lemma parses_readInt:
  assumes "length w = n" "n < 2 ^ 31" "int_field w = Some v"
  shows "parses (readInt n) w v"
proof (rule parsesI)
  fix p pre rest assume a: "reads_at p pre (w @ rest)"
  show "\<exists>p'. readInt n p = Some (v, p') \<and> reads_at p' (pre @ w) rest"
    using readInt_at [OF a assms(2)] reads_at_advance [OF a, of n] assms by simp
qed

lemma parses_readDbl:
  assumes "length w = n" "n < 2 ^ 31" "dbl_field w = Some v"
  shows "parses (readDbl n) w v"
proof (rule parsesI)
  fix p pre rest assume a: "reads_at p pre (w @ rest)"
  show "\<exists>p'. readDbl n p = Some (v, p') \<and> reads_at p' (pre @ w) rest"
    using readDbl_at [OF a assms(2)] reads_at_advance [OF a, of n] assms by simp
qed

lemma parses_readChar: "parses readChar [c] c"
proof (rule parsesI)
  fix p pre rest assume a: "reads_at p pre ([c] @ rest)"
  show "\<exists>p'. readChar p = Some (c, p') \<and> reads_at p' (pre @ [c]) rest"
    using readChar_at [OF a] reads_at_advance [OF a, of 1] by simp
qed

text \<open>A field with an encoding, and counted repetitions of it.\<close>

locale field_format =
  fixes rd :: "'a loader" and enc :: "'a \<Rightarrow> string" and ok :: "'a \<Rightarrow> bool"
  assumes rd_enc: "ok x \<Longrightarrow> parses rd (enc x) x"
begin

lemma times_enc:
  "\<forall>x \<in> set xs. ok x \<Longrightarrow> n = length xs \<Longrightarrow> parses (load_times n rd) (concat (map enc xs)) xs"
proof (induction xs arbitrary: n)
  case Nil
  then show ?case by (simp add: parses_def)
next
  case (Cons x xs)
  have t: "parses (load_times (length xs) rd) (concat (map enc xs)) xs" using Cons by simp
  have p1: "parses rd (enc x) x" using Cons.prems(1) by (intro rd_enc) simp
  have "parses (\<lambda>p. Option.bind (rd p) (\<lambda>(a, p1). Option.bind (load_times (length xs) rd p1)
      (\<lambda>(as, p2). Some (a # as, p2)))) (enc x @ (concat (map enc xs) @ [])) (x # xs)"
    by (intro parses_bind [OF p1] parses_bind [OF t] parses_ret)
  moreover have "load_times n rd = (\<lambda>p. Option.bind (rd p) (\<lambda>(a, p1). Option.bind (load_times (length xs) rd p1)
      (\<lambda>(as, p2). Some (a # as, p2))))"
    using Cons.prems(2) by (simp add: fun_eq_iff)
  ultimately show ?case by simp
qed

end

section \<open>The wire format\<close>

definition str_ok :: "nat \<Rightarrow> string \<Rightarrow> bool" where
  "str_ok n s \<longleftrightarrow> length s \<le> n \<and> trim_right s = s"

definition wire_nat :: "nat \<Rightarrow> nat \<Rightarrow> string" where
  "wire_nat n v = pad_left n (show_nat v)"

definition nat_ok :: "nat \<Rightarrow> nat \<Rightarrow> bool" where
  "nat_ok n v \<longleftrightarrow> length (show_nat v) \<le> n \<and> v < 2 ^ 31"

definition wire_amt :: "dval \<Rightarrow> string" where
  "wire_amt d = (case d of Fin _ r \<Rightarrow> wire_nat 16 (nat \<lfloor>r\<rfloor>) | _ \<Rightarrow> [])"

definition amt_ok :: "dval \<Rightarrow> bool" where
  "amt_ok d = (case d of Fin neg r \<Rightarrow> \<not> neg \<and> 0 \<le> r \<and> r \<le> 2 ^ 53 \<and> of_int \<lfloor>r\<rfloor> = r | _ \<Rightarrow> False)"

definition wire_fx_order :: "fx_order \<Rightarrow> string" where
  "wire_fx_order o' = wire_amt (foAmount o') @ wire_amt (foMinQty o') @ wire_amt (foLotSize o') @
     pad_right 15 (foOrderID o')"

definition fx_order_ok :: "fx_order \<Rightarrow> bool" where
  "fx_order_ok o' \<longleftrightarrow> amt_ok (foAmount o') \<and> amt_ok (foMinQty o') \<and> amt_ok (foLotSize o') \<and>
     str_ok 15 (foOrderID o')"

definition wire_bid_or_offer :: "bid_or_offer \<Rightarrow> string" where
  "wire_bid_or_offer b = pad_right 10 (boPrice b) @ wire_nat 4 (length (boOrders b)) @
     concat (map wire_fx_order (boOrders b))"

definition bid_or_offer_ok :: "bid_or_offer \<Rightarrow> bool" where
  "bid_or_offer_ok b \<longleftrightarrow> str_ok 10 (boPrice b) \<and> nat_ok 4 (length (boOrders b)) \<and>
     (\<forall>x \<in> set (boOrders b). fx_order_ok x)"

definition wire_currency_pair :: "currency_pair \<Rightarrow> string" where
  "wire_currency_pair c = pad_right 7 (cpName c) @
     wire_nat 4 (length (cpBids c)) @ concat (map wire_bid_or_offer (cpBids c)) @
     wire_nat 4 (length (cpOffers c)) @ concat (map wire_bid_or_offer (cpOffers c))"

definition currency_pair_ok :: "currency_pair \<Rightarrow> bool" where
  "currency_pair_ok c \<longleftrightarrow> str_ok 7 (cpName c) \<and> nat_ok 4 (length (cpBids c)) \<and>
     (\<forall>x \<in> set (cpBids c). bid_or_offer_ok x) \<and> nat_ok 4 (length (cpOffers c)) \<and>
     (\<forall>x \<in> set (cpOffers c). bid_or_offer_ok x)"

fun wire_payload :: "message \<Rightarrow> string" where
  "wire_payload (HotspotNewOrder n) = [noBuyOrSell n] @ pad_right 7 (noCurrencyPair n) @
     pad_right 15 (noOrderID n) @ pad_right 10 (noPrice n) @
     wire_amt (noAmount n) @ wire_amt (noMinQty n) @ wire_amt (noLotSize n)"
| "wire_payload (HotspotModifyOrder m) = pad_right 7 (moCurrencyPair m) @
     pad_right 15 (moOrderID m) @ wire_amt (moAmount m) @ wire_amt (moMinQty m) @ wire_amt (moLotSize m)"
| "wire_payload (HotspotCancelOrder pair oid) = pad_right 7 pair @ pad_right 15 oid"
| "wire_payload (HotspotMarketSnapshot len pairs) = wire_nat 6 (nat len) @ wire_nat 4 (length pairs) @
     concat (map wire_currency_pair pairs)"
| "wire_payload (HotspotTicker t) = [tkBuyOrSell t] @ pad_right 7 (tkCurrencyPair t) @
     pad_right 10 (tkPrice t) @ pad_right 8 (tkTransactionDate t) @ pad_right 6 (tkTransactionTime t)"
| "wire_payload _ = []"

fun payload_ok :: "message \<Rightarrow> bool" where
  "payload_ok (HotspotNewOrder n) \<longleftrightarrow> str_ok 7 (noCurrencyPair n) \<and> str_ok 15 (noOrderID n) \<and>
     str_ok 10 (noPrice n) \<and> amt_ok (noAmount n) \<and> amt_ok (noMinQty n) \<and> amt_ok (noLotSize n)"
| "payload_ok (HotspotModifyOrder m) \<longleftrightarrow> str_ok 7 (moCurrencyPair m) \<and> str_ok 15 (moOrderID m) \<and>
     amt_ok (moAmount m) \<and> amt_ok (moMinQty m) \<and> amt_ok (moLotSize m)"
| "payload_ok (HotspotCancelOrder pair oid) \<longleftrightarrow> str_ok 7 pair \<and> str_ok 15 oid"
| "payload_ok (HotspotMarketSnapshot len pairs) \<longleftrightarrow> 0 \<le> len \<and> nat_ok 6 (nat len) \<and>
     nat_ok 4 (length pairs) \<and> (\<forall>x \<in> set pairs. currency_pair_ok x)"
| "payload_ok (HotspotTicker t) \<longleftrightarrow> str_ok 7 (tkCurrencyPair t) \<and> str_ok 10 (tkPrice t) \<and>
     str_ok 8 (tkTransactionDate t) \<and> str_ok 6 (tkTransactionTime t)"
| "payload_ok _ = False"

definition wire_hotspot :: "message \<Rightarrow> string" where
  "wire_hotspot m = getMessageType m # wire_payload m"

fun wire_body :: "message \<Rightarrow> string" where
  "wire_body (ServerErrorNotification s) = pad_right 100 s"
| "wire_body (ServerInstrumentDirectory xs) = wire_nat 4 (length xs) @ concat (map (pad_right 7) xs)"
| "wire_body (ServerLoginAccepted n) = pad_left 10 (show_int n)"
| "wire_body (ServerLoginRejected s) = pad_right 20 s"
| "wire_body (ServerSequencedData eos ts payload m) = (if eos then [] else pad_right 9 ts @ payload)"
| "wire_body _ = []"

text \<open>The image of a server message on the wire, with its terminator.\<close>

definition wire :: "message \<Rightarrow> string" where
  "wire m = getMessageType m # wire_body m @ [TLF]"

fun server_ok :: "message \<Rightarrow> bool" where
  "server_ok (ServerErrorNotification s) = str_ok 100 s"
| "server_ok ServerHeartbeat = True"
| "server_ok (ServerInstrumentDirectory xs) \<longleftrightarrow> nat_ok 4 (length xs) \<and> (\<forall>x \<in> set xs. str_ok 7 x)"
| "server_ok (ServerLoginAccepted n) \<longleftrightarrow> length (show_int n) \<le> 10 \<and> - (2 ^ 31) \<le> n \<and> n < 2 ^ 31"
| "server_ok (ServerLoginRejected s) = str_ok 20 s"
| "server_ok (ServerSequencedData eos ts payload m) =
     (if eos then ts = [] \<and> payload = [] \<and> m = None
      else str_ok 9 ts \<and> take 1 ts \<noteq> [TLF] \<and>
        (case m of None \<Rightarrow> False | Some x \<Rightarrow> payload_ok x \<and> payload = wire_hotspot x))"
| "server_ok _ = False"

section \<open>Fields read back\<close>

lemma to_lower_digit: "is_digit c \<Longrightarrow> to_lower c = c"
  by (simp add: is_digit_def to_lower_def)

lemma starts_ci_show_nat:
  assumes "c \<in> set w" "\<not> is_digit c"
  shows "\<not> starts_ci w (show_nat n)"
proof
  assume "starts_ci w (show_nat n)"
  then have "c \<in> set (map to_lower (take (length w) (show_nat n)))" using assms(1) by (simp add: starts_ci_def)
  then obtain d where "d \<in> set (show_nat n)" "c = to_lower d" by (auto dest: in_set_takeD)
  then show False using assms(2) show_nat_props(1) to_lower_digit by auto
qed

lemma strtod_show:
  assumes "n \<le> 2 ^ 53" "dropWhile is_space s = show_nat n"
  shows "strtod s = (Fin False (of_nat n), [], False)"
proof -
  have nd: "\<not> is_digit CHR ''i''" "\<not> is_digit CHR ''x''" "\<not> is_digit CHR ''a''"
    by (simp_all add: is_digit_def ord_c_def)
  have st: "\<not> starts_ci ''infinity'' (show_nat n)" "\<not> starts_ci ''inf'' (show_nat n)"
    "\<not> starts_ci ''nan'' (show_nat n)" "\<not> starts_ci ''0x'' (show_nat n)"
    by (rule starts_ci_show_nat [OF _ nd(1)], simp, rule starts_ci_show_nat [OF _ nd(1)], simp,
        rule starts_ci_show_nat [OF _ nd(3)], simp, rule starts_ci_show_nat [OF _ nd(2)], simp)
  have m: "read_mantissa 10 is_digit digit_val (show_nat n) = Some (of_nat n, [])"
    by (simp add: read_mantissa_def show_nat_val)
  have d: "dval_of False (of_nat n) = (Fin False (of_nat n), False)"
  proof (cases "n = 0")
    case False
    have "(of_nat n :: rat) \<le> of_nat (2 ^ 53)" using assms(1) by (simp only: of_nat_le_iff)
    also have "\<dots> < pow2 1024" by (simp add: pow2_def)
    finally show ?thesis using False by (simp add: dval_of_def dbl_round_nat [OF assms(1)])
  qed (simp add: dval_of_def)
  show ?thesis
    unfolding strtod_def assms(2) read_sign_show_nat Let_def prod.case if_not_P [OF st(1)]
      if_not_P [OF st(2)] if_not_P [OF st(3)] if_not_P [OF st(4)] option.case m
    by (simp add: read_exponent_def pow10_def d)
qed

lemma dbl_field_show: "n \<le> 2 ^ 53 \<Longrightarrow> dbl_field (wire_nat k n) = Some (Fin False (of_nat n))"
  using strtod_show [of n "pad_left k (show_nat n)"] field_pad_left [OF show_int_ends, of k "int n"]
  by (simp add: dbl_field_def wire_nat_def show_int_nat)

lemma show_nat_length: "n < 10 ^ k \<Longrightarrow> 0 < k \<Longrightarrow> length (show_nat n) \<le> k"
proof (induction n arbitrary: k rule: show_nat.induct)
  case (1 n)
  show ?case
  proof (cases "n < 10")
    case False
    then have "k \<noteq> 1" using 1(2) by (intro notI) simp
    then obtain j where j: "k = Suc j" "0 < j" using 1(3) by (cases k) auto
    have "n div 10 < 10 ^ j" using 1(2) j(1) by (simp add: less_mult_imp_div_less mult.commute)
    then have "length (show_nat (n div 10)) \<le> j" using 1(1) [OF False] j(2) by simp
    then show ?thesis using False j by (simp add: show_nat.simps [of n])
  qed (use 1(3) in \<open>simp add: show_nat.simps [of n]\<close>)
qed

lemma parses_str: "str_ok n s \<Longrightarrow> n < 2 ^ 31 \<Longrightarrow> parses (readString n True) (pad_right n s) s"
  by (rule parses_readString) (auto simp: str_ok_def)

lemma parses_nat: "nat_ok n v \<Longrightarrow> n < 2 ^ 31 \<Longrightarrow> parses (readInt n) (wire_nat n v) (int v)"
  using int_field_show [of "int v" n]
  by (intro parses_readInt) (auto simp: nat_ok_def wire_nat_def show_int_nat)

lemma parses_amt: "amt_ok d \<Longrightarrow> parses (readDbl 16) (wire_amt d) d"
proof -
  assume ok: "amt_ok d"
  then obtain r where d: "d = Fin False r" and r: "0 \<le> r" "r \<le> 2 ^ 53" "of_int \<lfloor>r\<rfloor> = r"
    by (auto simp: amt_ok_def split: dval.splits)
  define n where "n = nat \<lfloor>r\<rfloor>"
  have "of_nat n = (of_int \<lfloor>r\<rfloor> :: rat)" using r(1) unfolding n_def by simp
  then have rn: "r = of_nat n" using r(3) by metis
  have "(of_nat n :: rat) \<le> of_nat (2 ^ 53)" using r(2) rn by simp
  then have n: "n \<le> 2 ^ 53" by (simp only: of_nat_le_iff)
  then have "length (show_nat n) \<le> 16" by (intro show_nat_length) auto
  then have "length (wire_nat 16 n) = 16" by (simp add: wire_nat_def)
  then have "parses (readDbl 16) (wire_nat 16 n) (Fin False (of_nat n))"
    using dbl_field_show [OF n] by (intro parses_readDbl) auto
  then show ?thesis using d rn by (simp add: wire_amt_def)
qed

interpretation pair7: field_format "readString 7 True" "pad_right 7" "str_ok 7"
  by unfold_locales (simp add: parses_str)

lemma parses_fx_order: "fx_order_ok x \<Longrightarrow> parses load_fx_order (wire_fx_order x) x"
proof -
  assume ok: "fx_order_ok x"
  have p: "parses (readDbl 16) (wire_amt (foAmount x)) (foAmount x)"
    "parses (readDbl 16) (wire_amt (foMinQty x)) (foMinQty x)"
    "parses (readDbl 16) (wire_amt (foLotSize x)) (foLotSize x)"
    "parses (readString 15 True) (pad_right 15 (foOrderID x)) (foOrderID x)"
    using ok by (auto simp: fx_order_ok_def intro: parses_amt parses_str)
  have "parses load_fx_order (wire_amt (foAmount x) @ wire_amt (foMinQty x) @ wire_amt (foLotSize x) @
      pad_right 15 (foOrderID x) @ []) x"
    unfolding load_fx_order_def [abs_def]
    by (intro parses_bind [OF p(1)] parses_bind [OF p(2)] parses_bind [OF p(3)] parses_bind [OF p(4)])
      (rule parses_done, simp)
  then show ?thesis by (simp add: wire_fx_order_def)
qed

interpretation fx_orders: field_format load_fx_order wire_fx_order fx_order_ok
  by unfold_locales (rule parses_fx_order)

lemma parses_bid_or_offer: "bid_or_offer_ok x \<Longrightarrow> parses load_bid_or_offer (wire_bid_or_offer x) x"
proof -
  assume ok: "bid_or_offer_ok x"
  have p: "parses (readString 10 True) (pad_right 10 (boPrice x)) (boPrice x)"
    "parses (readInt 4) (wire_nat 4 (length (boOrders x))) (int (length (boOrders x)))"
    "parses (load_times (nat (int (length (boOrders x)))) load_fx_order)
       (concat (map wire_fx_order (boOrders x))) (boOrders x)"
    using ok by (auto simp: bid_or_offer_ok_def intro: parses_nat parses_str fx_orders.times_enc)
  have "parses load_bid_or_offer (pad_right 10 (boPrice x) @ wire_nat 4 (length (boOrders x)) @
      concat (map wire_fx_order (boOrders x)) @ []) x"
    unfolding load_bid_or_offer_def [abs_def]
    by (intro parses_bind [OF p(1)] parses_bind [OF p(2)] parses_bind [OF p(3)])
      (rule parses_done, simp)
  then show ?thesis by (simp add: wire_bid_or_offer_def)
qed

interpretation levels: field_format load_bid_or_offer wire_bid_or_offer bid_or_offer_ok
  by unfold_locales (rule parses_bid_or_offer)

lemma parses_currency_pair: "currency_pair_ok x \<Longrightarrow> parses load_currency_pair (wire_currency_pair x) x"
proof -
  assume ok: "currency_pair_ok x"
  have p: "parses (readString 7 True) (pad_right 7 (cpName x)) (cpName x)"
    "parses (readInt 4) (wire_nat 4 (length (cpBids x))) (int (length (cpBids x)))"
    "parses (load_times (nat (int (length (cpBids x)))) load_bid_or_offer)
       (concat (map wire_bid_or_offer (cpBids x))) (cpBids x)"
    "parses (readInt 4) (wire_nat 4 (length (cpOffers x))) (int (length (cpOffers x)))"
    "parses (load_times (nat (int (length (cpOffers x)))) load_bid_or_offer)
       (concat (map wire_bid_or_offer (cpOffers x))) (cpOffers x)"
    using ok by (auto simp: currency_pair_ok_def intro: parses_nat parses_str levels.times_enc)
  have "parses load_currency_pair (pad_right 7 (cpName x) @ wire_nat 4 (length (cpBids x)) @
      concat (map wire_bid_or_offer (cpBids x)) @ wire_nat 4 (length (cpOffers x)) @
      concat (map wire_bid_or_offer (cpOffers x)) @ []) x"
    unfolding load_currency_pair_def [abs_def]
    by (intro parses_bind [OF p(1)] parses_bind [OF p(2)] parses_bind [OF p(3)] parses_bind [OF p(4)]
        parses_bind [OF p(5)]) (rule parses_done, simp)
  then show ?thesis by (simp add: wire_currency_pair_def)
qed

interpretation pairs: field_format load_currency_pair wire_currency_pair currency_pair_ok
  by unfold_locales (rule parses_currency_pair)

section \<open>Payloads and whole messages\<close>

lemma parses_new_order: "payload_ok (HotspotNewOrder n) \<Longrightarrow>
  parses load_new_order (wire_payload (HotspotNewOrder n)) (HotspotNewOrder n)"
proof -
  assume ok: "payload_ok (HotspotNewOrder n)"
  have p: "parses readChar [noBuyOrSell n] (noBuyOrSell n)"
    "parses (readString 7 True) (pad_right 7 (noCurrencyPair n)) (noCurrencyPair n)"
    "parses (readString 15 True) (pad_right 15 (noOrderID n)) (noOrderID n)"
    "parses (readString 10 True) (pad_right 10 (noPrice n)) (noPrice n)"
    "parses (readDbl 16) (wire_amt (noAmount n)) (noAmount n)"
    "parses (readDbl 16) (wire_amt (noMinQty n)) (noMinQty n)"
    "parses (readDbl 16) (wire_amt (noLotSize n)) (noLotSize n)"
    using ok by (auto intro: parses_amt parses_str parses_readChar)
  have "parses load_new_order ([noBuyOrSell n] @ pad_right 7 (noCurrencyPair n) @ pad_right 15 (noOrderID n) @
      pad_right 10 (noPrice n) @ wire_amt (noAmount n) @ wire_amt (noMinQty n) @ wire_amt (noLotSize n) @ [])
      (HotspotNewOrder n)"
    unfolding load_new_order_def [abs_def]
    by (intro parses_bind [OF p(1)] parses_bind [OF p(2)] parses_bind [OF p(3)] parses_bind [OF p(4)]
        parses_bind [OF p(5)] parses_bind [OF p(6)] parses_bind [OF p(7)]) (rule parses_done, simp)
  then show ?thesis by simp
qed

lemma parses_modify_order: "payload_ok (HotspotModifyOrder n) \<Longrightarrow>
  parses load_modify_order (wire_payload (HotspotModifyOrder n)) (HotspotModifyOrder n)"
proof -
  assume ok: "payload_ok (HotspotModifyOrder n)"
  have p: "parses (readString 7 True) (pad_right 7 (moCurrencyPair n)) (moCurrencyPair n)"
    "parses (readString 15 True) (pad_right 15 (moOrderID n)) (moOrderID n)"
    "parses (readDbl 16) (wire_amt (moAmount n)) (moAmount n)"
    "parses (readDbl 16) (wire_amt (moMinQty n)) (moMinQty n)"
    "parses (readDbl 16) (wire_amt (moLotSize n)) (moLotSize n)"
    using ok by (auto intro: parses_amt parses_str)
  have "parses load_modify_order (pad_right 7 (moCurrencyPair n) @ pad_right 15 (moOrderID n) @
      wire_amt (moAmount n) @ wire_amt (moMinQty n) @ wire_amt (moLotSize n) @ []) (HotspotModifyOrder n)"
    unfolding load_modify_order_def [abs_def]
    by (intro parses_bind [OF p(1)] parses_bind [OF p(2)] parses_bind [OF p(3)] parses_bind [OF p(4)]
        parses_bind [OF p(5)]) (rule parses_done, simp)
  then show ?thesis by simp
qed

lemma parses_cancel_order: "payload_ok (HotspotCancelOrder pair oid) \<Longrightarrow>
  parses load_cancel_order (wire_payload (HotspotCancelOrder pair oid)) (HotspotCancelOrder pair oid)"
proof -
  assume ok: "payload_ok (HotspotCancelOrder pair oid)"
  have p: "parses (readString 7 True) (pad_right 7 pair) pair"
    "parses (readString 15 True) (pad_right 15 oid) oid"
    using ok by (auto intro: parses_str)
  have "parses load_cancel_order (pad_right 7 pair @ pad_right 15 oid @ []) (HotspotCancelOrder pair oid)"
    unfolding load_cancel_order_def [abs_def]
    by (intro parses_bind [OF p(1)] parses_bind [OF p(2)] parses_ret)
  then show ?thesis by simp
qed

lemma parses_ticker: "payload_ok (HotspotTicker n) \<Longrightarrow>
  parses load_ticker (wire_payload (HotspotTicker n)) (HotspotTicker n)"
proof -
  assume ok: "payload_ok (HotspotTicker n)"
  have p: "parses readChar [tkBuyOrSell n] (tkBuyOrSell n)"
    "parses (readString 7 True) (pad_right 7 (tkCurrencyPair n)) (tkCurrencyPair n)"
    "parses (readString 10 True) (pad_right 10 (tkPrice n)) (tkPrice n)"
    "parses (readString 8 True) (pad_right 8 (tkTransactionDate n)) (tkTransactionDate n)"
    "parses (readString 6 True) (pad_right 6 (tkTransactionTime n)) (tkTransactionTime n)"
    using ok by (auto intro: parses_str parses_readChar)
  have "parses load_ticker ([tkBuyOrSell n] @ pad_right 7 (tkCurrencyPair n) @ pad_right 10 (tkPrice n) @
      pad_right 8 (tkTransactionDate n) @ pad_right 6 (tkTransactionTime n) @ []) (HotspotTicker n)"
    unfolding load_ticker_def [abs_def]
    by (intro parses_bind [OF p(1)] parses_bind [OF p(2)] parses_bind [OF p(3)] parses_bind [OF p(4)]
        parses_bind [OF p(5)]) (rule parses_done, simp)
  then show ?thesis by simp
qed

lemma parses_market_snapshot: "payload_ok (HotspotMarketSnapshot len xs) \<Longrightarrow>
  parses load_market_snapshot (wire_payload (HotspotMarketSnapshot len xs)) (HotspotMarketSnapshot len xs)"
proof -
  assume ok: "payload_ok (HotspotMarketSnapshot len xs)"
  have p1: "parses (readInt 6) (wire_nat 6 (nat len)) (int (nat len))"
    using ok by (intro parses_nat) auto
  have p: "parses (readInt 4) (wire_nat 4 (length xs)) (int (length xs))"
    "parses (load_times (nat (int (length xs))) load_currency_pair) (concat (map wire_currency_pair xs)) xs"
    using ok by (auto intro: parses_nat pairs.times_enc)
  have "parses load_market_snapshot (wire_nat 6 (nat len) @ wire_nat 4 (length xs) @
      concat (map wire_currency_pair xs) @ []) (HotspotMarketSnapshot len xs)"
    unfolding load_market_snapshot_def [abs_def]
    by (intro parses_bind [OF p1] parses_bind [OF p(1)] parses_bind [OF p(2)])
      (rule parses_done, use ok in simp)
  then show ?thesis by simp
qed

lemma payload_loader:
  "payload_ok m \<Longrightarrow> \<exists>ld. create_hotspot (getMessageType m) = Some ld \<and> parses ld (wire_payload m) m"
  by (cases m) (auto simp: create_hotspot_def intro: parses_new_order [simplified] parses_modify_order [simplified]
      parses_cancel_order [simplified] parses_ticker [simplified] parses_market_snapshot [simplified])

lemma parseMessage_reads:
  assumes "create c = Some ld" "parses ld w x" "reads_at p [] ((c # w) @ rest)"
  shows "\<exists>p'. parseMessage create p = Some (x, p') \<and> reads_at p' (c # w) rest"
proof -
  obtain p1 where p1: "readChar p = Some (c, p1)" "reads_at p1 [c] (w @ rest)"
    using parsesD [OF parses_readChar, of p "[]" c "w @ rest"] assms(3) by auto
  then obtain p2 where "ld p1 = Some (x, p2)" "reads_at p2 (c # w) rest"
    using parsesD [OF assms(2) p1(2)] by auto
  then show ?thesis using p1(1) assms(1) by (simp add: parseMessage_def)
qed

lemma parse_hotspot:
  assumes "payload_ok m" "int (length (wire_hotspot m)) < 2 ^ 31"
  shows "\<exists>p'. parseMessage create_hotspot (new_packet (wire_hotspot m)) = Some (m, p')"
proof -
  obtain ld where ld: "create_hotspot (getMessageType m) = Some ld" "parses ld (wire_payload m) m"
    using payload_loader [OF assms(1)] by blast
  have "reads_at (new_packet (wire_hotspot m)) [] ((getMessageType m # wire_payload m) @ [])"
    using reads_at_new [OF assms(2)] by (simp add: wire_hotspot_def)
  from parseMessage_reads [of create_hotspot _ ld "wire_payload m" m _ "[]", OF ld this] show ?thesis
    by blast
qed

lemma parses_instrument_directory: "server_ok (ServerInstrumentDirectory xs) \<Longrightarrow>
  parses load_instrument_directory (wire_body (ServerInstrumentDirectory xs)) (ServerInstrumentDirectory xs)"
proof -
  assume ok: "server_ok (ServerInstrumentDirectory xs)"
  have p: "parses (readInt 4) (wire_nat 4 (length xs)) (int (length xs))"
    "parses (load_times (nat (int (length xs))) (readString 7 True)) (concat (map (pad_right 7) xs)) xs"
    using ok by (auto intro: parses_nat pair7.times_enc)
  have "parses load_instrument_directory (wire_nat 4 (length xs) @ concat (map (pad_right 7) xs) @ [])
      (ServerInstrumentDirectory xs)"
    unfolding load_instrument_directory_def [abs_def]
    by (intro parses_bind [OF p(1)] parses_bind [OF p(2)] parses_ret)
  then show ?thesis by simp
qed

lemma parses_simple_server:
  "str_ok 100 s \<Longrightarrow> parses load_error_notification (pad_right 100 s) (ServerErrorNotification s)"
  "str_ok 20 s \<Longrightarrow> parses load_login_rejected (pad_right 20 s) (ServerLoginRejected s)"
  "parses load_heartbeat [] ServerHeartbeat"
  "length (show_int n) \<le> 10 \<Longrightarrow> - (2 ^ 31) \<le> n \<Longrightarrow> n < 2 ^ 31 \<Longrightarrow>
   parses load_login_accepted (pad_left 10 (show_int n)) (ServerLoginAccepted n)"
proof -
  show "parses load_error_notification (pad_right 100 s) (ServerErrorNotification s)" if "str_ok 100 s"
    using parses_bind [OF parses_str [OF that] parses_ret, of "\<lambda>s. ServerErrorNotification s"]
    by (simp add: load_error_notification_def [abs_def])
  show "parses load_login_rejected (pad_right 20 s) (ServerLoginRejected s)" if "str_ok 20 s"
    using parses_bind [OF parses_str [OF that] parses_ret, of "\<lambda>s. ServerLoginRejected s"]
    by (simp add: load_login_rejected_def [abs_def])
  show "parses load_heartbeat [] ServerHeartbeat"
    using parses_ret [of ServerHeartbeat] by (simp add: load_heartbeat_def [abs_def])
  show "parses load_login_accepted (pad_left 10 (show_int n)) (ServerLoginAccepted n)"
    if "length (show_int n) \<le> 10" "- (2 ^ 31) \<le> n" "n < 2 ^ 31"
  proof -
    have "parses (readInt 10) (pad_left 10 (show_int n)) n"
      using that int_field_show [OF that(2,3), of 10] by (intro parses_readInt) auto
    from parses_bind [OF this parses_ret, of "\<lambda>n. ServerLoginAccepted n"]
    show ?thesis by (simp add: load_login_accepted_def [abs_def])
  qed
qed

lemma wire_hotspot_nonempty: "wire_hotspot m \<noteq> []"
  by (simp add: wire_hotspot_def)

lemma load_sequenced_data_reads:
  assumes ok: "server_ok (ServerSequencedData eos ts payload m)"
    and r: "reads_at p [CHR ''S''] (wire_body (ServerSequencedData eos ts payload m) @ [TLF])"
  shows "\<exists>p'. load_sequenced_data p = Some (ServerSequencedData eos ts payload m, p')"
proof (cases eos)
  case True
  then show ?thesis using ok peekChar_at [OF r] by (simp add: load_sequenced_data_def)
next
  case False
  then obtain x where x: "m = Some x" "payload_ok x" "payload = wire_hotspot x" "str_ok 9 ts" "take 1 ts \<noteq> [TLF]"
    using ok by (auto split: option.splits)
  have r1: "reads_at p [CHR ''S''] (pad_right 9 ts @ (payload @ [TLF]))" using r False by simp
  have "CHR '' '' \<noteq> TLF" by (simp add: TLF_def)
  then have nt: "peekChar p \<noteq> TLF"
    using peekChar_at [OF r1] x(5) by (cases ts) (auto simp: pad_right_def eval_nat_numeral)
  obtain p1 where p1: "readString 9 True p = Some (ts, p1)"
    "reads_at p1 ([CHR ''S''] @ pad_right 9 ts) (payload @ [TLF])"
    using parsesD [OF parses_str [OF x(4)] r1] by auto
  have "payload \<noteq> []" using x(3) wire_hotspot_nonempty by simp
  then obtain p2 where p2: "readUntilTLF p1 = Some (payload, p2)"
    using readUntilTLF_at [OF p1(2)] by (cases payload) auto
  have "int (length (wire_hotspot x)) < 2 ^ 31" using r1 x(3) by (auto simp: reads_at_def)
  then obtain p3 where "parseMessage create_hotspot (new_packet payload) = Some (x, p3)"
    using parse_hotspot [OF x(2)] x(3) by blast
  then show ?thesis using nt p1(1) p2 x(1) False by (simp add: load_sequenced_data_def)
qed

lemma server_loader:
  assumes "server_ok m" "reads_at p [getMessageType m] (wire_body m @ [TLF])"
  shows "\<exists>ld p'. create_itch (getMessageType m) = Some ld \<and> ld p = Some (m, p')"
proof (cases "\<exists>eos ts payload x. m = ServerSequencedData eos ts payload x")
  case True
  then show ?thesis
    using load_sequenced_data_reads [of _ _ _ _ p] assms by (auto simp: create_itch_def simp del: server_ok.simps)
next
  case False
  then have "\<exists>ld. create_itch (getMessageType m) = Some ld \<and> parses ld (wire_body m) m"
    using assms(1) parses_simple_server parses_instrument_directory
    by (cases m) (auto simp: create_itch_def)
  then show ?thesis using assms(2) by (auto elim: parsesD)
qed

section \<open>Properties of the ITCH messages\<close>

text \<open>
  C6. Round trip: the factory reads every well-formed server message back from its image on the
  wire. This covers each server message type, and sequenced data with each HotspotFX payload,
  including market snapshots with their counted, nested lists of pairs, levels and orders.
\<close>

theorem itch_roundtrip:
  assumes "server_ok m" and "int (length (wire m)) < 2 ^ 31"
  shows "parse_itch (new_packet (wire m)) = Some m"
proof -
  have "reads_at (new_packet (wire m)) [] ([getMessageType m] @ (wire_body m @ [TLF]))"
    using reads_at_new [OF assms(2)] by (simp add: wire_def)
  then obtain p1 where p1: "readChar (new_packet (wire m)) = Some (getMessageType m, p1)"
    "reads_at p1 ([] @ [getMessageType m]) (wire_body m @ [TLF])"
    by (rule parsesD [OF parses_readChar])
  obtain ld p2 where "create_itch (getMessageType m) = Some ld" "ld p1 = Some (m, p2)"
    using server_loader [OF assms(1), of p1] p1(2) by auto
  then show ?thesis using p1(1) by (simp add: parse_itch_def parseMessage_def)
qed

lemma itch_roundtrip_witness:
  "parse_itch (new_packet (wire (ServerSequencedData False ''093015123''
      (wire_hotspot (HotspotMarketSnapshot 9 [\<lparr>cpName = ''EUR/USD'',
         cpBids = [\<lparr>boPrice = ''1.30512'', boOrders = [\<lparr>foAmount = Fin False 7, foMinQty = Fin False 0,
           foLotSize = Fin False 1, foOrderID = ''A17''\<rparr>]\<rparr>], cpOffers = []\<rparr>]))
      (Some (HotspotMarketSnapshot 9 [\<lparr>cpName = ''EUR/USD'',
         cpBids = [\<lparr>boPrice = ''1.30512'', boOrders = [\<lparr>foAmount = Fin False 7, foMinQty = Fin False 0,
           foLotSize = Fin False 1, foOrderID = ''A17''\<rparr>]\<rparr>], cpOffers = []\<rparr>]))))) \<noteq> None"
  (is "parse_itch (new_packet (wire ?m)) \<noteq> None")
proof -
  have ok: "server_ok ?m"
    by (simp add: str_ok_def trim_right_def is_space_def ord_c_def nat_ok_def amt_ok_def show_nat_small
        TLF_def currency_pair_ok_def bid_or_offer_ok_def fx_order_ok_def)
  have "int (length (wire ?m)) < 2 ^ 31"
    by (simp add: wire_def wire_hotspot_def wire_currency_pair_def wire_bid_or_offer_def wire_fx_order_def
        wire_amt_def wire_nat_def pad_right_def pad_left_def show_nat_small)
  then show ?thesis using itch_roundtrip [OF ok] by simp
qed

text \<open>
  What a login and a subscription put on the wire: fixed-width fields in order, and no packet
  at all exactly when a field does not fit its width.
\<close>

theorem client_save_layout:
  "save (ClientLogin user pw unsub) (new_packet []) =
     (if length (c_str user) \<le> 40 \<and> length (c_str pw) \<le> 40
      then Some \<lparr>pktBuffer = ''L'' @ pad_right 40 (c_str user) @ pad_right 40 (c_str pw) @
                   (if unsub then ''T'' else ''F'') @ ''        0'', pktPos = 91\<rparr>
      else None) \<and>
   save (ClientTickerSubscribe pair) (new_packet []) =
     (if length (c_str pair) \<le> 7
      then Some \<lparr>pktBuffer = ''T'' @ pad_right 7 (c_str pair), pktPos = 8\<rparr> else None)"
proof -
  have z: "pad_left 9 (show_int 0) = ''        0''" by code_simp
  have l: "length (pad_right n s) = n" if "length s \<le> n" for n and s :: string using that by simp
  have "save (ClientLogin user pw unsub) (new_packet []) = save_login user pw unsub (new_packet [])"
    by simp
  then show ?thesis
    using l [of "c_str user" 40] l [of "c_str pw" 40] l [of "c_str pair" 7]
    by (auto simp: save_login_def save_currency_pair_def writeString_def writeChar_def writeLong_def
        new_packet_def Let_def z)
qed

text \<open>
  A HotspotFX payload of a type without a class is kept as an unsupported message, but the
  payload has lost its terminator by then and \<^verbatim>\<open>ReadUntilTLF\<close> drops its last byte; with at most
  one byte behind the type the whole sequenced message is rejected.
\<close>

theorem unsupported_payload_truncated:
  assumes "create_hotspot c = None" and "int (length body) < 2 ^ 31 - 1"
  shows "map_option fst (parseMessage create_hotspot (new_packet (c # body))) =
    (if length body \<le> 1 then None else Some (ServerUnsupported c (butlast body)))"
proof -
  have "reads_at (new_packet (c # body)) [] ([c] @ body)"
    using reads_at_new [of "c # body"] assms(2) by simp
  then obtain p1 where p1: "readChar (new_packet (c # body)) = Some (c, p1)" "reads_at p1 ([] @ [c]) body"
    by (rule parsesD [OF parses_readChar])
  have "readUntilTLF p1 = (if length body \<le> 1 then None else Some (butlast body, advance (length body - 1) p1))"
    using readUntilTLF_at [OF p1(2)] by simp
  then show ?thesis using p1(1) assms(1) by (simp add: parseMessage_def load_unsupported_def)
qed

lemma unsupported_payload_truncated_witness:
  "map_option fst (parseMessage create_hotspot (new_packet ''Qabc'')) = Some (ServerUnsupported CHR ''Q'' ''ab'')"
  using unsupported_payload_truncated [of "CHR ''Q''" "''abc''"] by (simp add: create_hotspot_def)

end
