(* ===== verification/ItchSocketCorrect.thy ===== *)
theory ItchSocketCorrect
  imports ItchSocket ItchCorrect
begin

text \<open>
  Properties of the ITCH socket: framing of what is sent, one line per received packet, and the
  cases in which \<^verbatim>\<open>RecvPacket\<close> does not return.
\<close>

section \<open>Sending\<close>

text \<open>The bytes a packet occupies on the wire.\<close>

definition frame :: "string \<Rightarrow> string" where
  "frame bs = (if bs = [] \<or> last bs = TLF then bs else bs @ [TLF])"

lemma send_loop_prefix:
  "send_loop bs es = Done ((ok, out), es') \<Longrightarrow> (\<exists>rest. bs = out @ rest) \<and> (ok \<longrightarrow> out = bs)"
proof (induction bs es arbitrary: ok out es' rule: send_loop.induct)
  case (2 bs r sel es)
  show ?case
  proof (cases r)
    case (Sent k)
    show ?thesis
    proof (cases "k \<ge> length bs \<or> (k = 0 \<and> sel \<noteq> SelReady)")
      case True
      then show ?thesis using 2(2) Sent by (auto split: if_splits)
    next
      case False
      then obtain out1 where o1: "send_loop (drop k bs) es = Done ((ok, out1), es')" "out = take k bs @ out1"
        using 2(2) Sent by (auto split: outcome.splits if_splits prod.splits)
      have "(\<exists>rest. drop k bs = out1 @ rest) \<and> (ok \<longrightarrow> out1 = drop k bs)"
        using 2(1) [OF Sent _ _ o1(1)] False by auto
      then show ?thesis using o1(2) by (metis append.assoc append_take_drop_id)
    qed
  qed (use 2(2) in auto)
qed simp

lemma sendPacket_cases:
  assumes "sendPacket now es p s = Done (ok, out, s', es')" "pktBuffer p \<noteq> []" "sockUp s"
  obtains out1 es1 where "send_loop (pktBuffer p) es = Done ((False, out1), es1)" "ok = False" "out = out1"
  | es1 where "send_loop (pktBuffer p) es = Done ((True, pktBuffer p), es1)" "last (pktBuffer p) = TLF"
      "ok" "out = pktBuffer p"
  | es1 where "send_loop (pktBuffer p) es = Done ((True, pktBuffer p), es1)" "last (pktBuffer p) \<noteq> TLF"
      "out = pktBuffer p \<or> (ok \<and> out = pktBuffer p @ [TLF])"
proof -
  obtain ok1 out1 es1 where l: "send_loop (pktBuffer p) es = Done ((ok1, out1), es1)"
    using assms by (auto simp: sendPacket_def Let_def split: outcome.splits)
  have "ok1 \<Longrightarrow> out1 = pktBuffer p" using send_loop_prefix [OF l] by simp
  then show ?thesis
    using assms l that
    by (cases ok1) (auto simp: sendPacket_def Let_def split: if_splits list.splits send_res.splits)
qed

section \<open>Receiving\<close>

lemma recvPacket_step:
  assumes "readDataUtilByte 2048 TLF True (sockRing s) = Some (map Some bs, rb)"
  shows "recvPacket_loop now es str s =
    (if bs \<noteq> [] \<and> last bs = TLF then Done (str @ bs, s\<lparr>sockRing := rb\<rparr>, es)
     else (case es of [] \<Rightarrow> Blocked
       | r # es' \<Rightarrow> (case recvIntoBuffer now r (s\<lparr>sockRing := rb\<rparr>) of None \<Rightarrow> Undefined
           | Some (_, _, s2) \<Rightarrow> recvPacket_loop now es' (str @ bs) s2)))"
  by (subst recvPacket_loop.simps) (simp add: assms Let_def)

lemma readUntil_empty: "ring_repr rb [] \<Longrightarrow> readDataUtilByte n c b rb = Some (map Some [], rb)"
  by (simp add: readDataUtilByte_def ring_repr_def)

lemma recv_closed: "\<not> sockUp s \<Longrightarrow> recvIntoBuffer now r s = Some (False, False, sock_close now s)"
  by (simp add: recvIntoBuffer_def)

lemma sock_close_simps [simp]: "sockUp (sock_close now s) = False" "sockRing (sock_close now s) = sockRing s"
  by (simp_all add: sock_close_def)

lemma recvPacket_loop_closed:
  "\<not> sockUp s \<Longrightarrow> ring_repr (sockRing s) [] \<Longrightarrow> recvPacket_loop now es str s = Blocked"
proof (induction es arbitrary: s str)
  case Nil
  then show ?case using recvPacket_step [OF readUntil_empty] by simp
next
  case (Cons r es)
  have "recvPacket_loop now (r # es) str s = recvPacket_loop now es (str @ []) (sock_close now s)"
    using recvPacket_step [OF readUntil_empty, where s = s and es = "r # es" and str = str] Cons.prems recv_closed [of s]
    by simp
  then show ?case using Cons.IH [of "sock_close now s"] Cons.prems by simp
qed

lemma upto_byte_none: "c \<notin> set ds \<Longrightarrow> upto_byte c ds = ds"
  by (auto simp: upto_byte_def takeWhile_eq_all_conv)

section \<open>Properties of the socket\<close>

text \<open>
  C7. Framing: whatever the sequence of partial sends, the bytes written are a prefix of the packet
  followed by one terminator (none is added when the packet has its own), and a send that reports
  success has written at least the whole packet.
\<close>

theorem send_packet_frame:
  assumes "sendPacket now es p s = Done (ok, out, s', es')"
  shows "(\<exists>rest. frame (pktBuffer p) = out @ rest) \<and> (ok \<longrightarrow> (\<exists>rest. out = pktBuffer p @ rest))"
proof (cases "pktBuffer p = [] \<or> \<not> sockUp s")
  case True
  then show ?thesis using assms by (auto simp: sendPacket_def Let_def frame_def split: if_splits)
next
  case False
  show ?thesis
  proof (rule sendPacket_cases [OF assms])
    fix out1 es1 assume a: "send_loop (pktBuffer p) es = Done ((False, out1), es1)" "ok = False" "out = out1"
    show ?thesis using send_loop_prefix [OF a(1)] a by (auto simp: frame_def)
  qed (use False in \<open>auto simp: frame_def\<close>)
qed

lemma send_packet_frame_witness:
  "\<exists>rest. frame ''R'' = [CHR ''R''] @ [TLF] @ rest"
proof -
  have "sendPacket 0 [(Sent 0, SelReady), (Sent 1, SelReady), (Sent 1, SelReady)] (new_packet ''R'') (new_isocket 7)
    = Done (True, ''R'' @ [TLF], new_isocket 7, [])"
    by (simp add: sendPacket_def new_packet_def new_isocket_def TLF_def)
  from send_packet_frame [OF this] show ?thesis by (simp add: new_packet_def)
qed

text \<open>
  A message that lies in the receive buffer, unwrapped and shorter than 2048 bytes, is received:
  no further input is taken from the network, the factory returns the message, and the buffer is
  left with the bytes behind its terminator.
\<close>

theorem receive_buffered_message:
  assumes "sockUp s" and "ring_repr (sockRing s) (wire m @ rest)"
    and "dataOffset (sockRing s) + dataLength (sockRing s) \<le> bufLength (sockRing s)"
    and "server_ok m" and "TLF \<notin> set (getMessageType m # wire_body m)" and "length (wire m) \<le> 2048"
  shows "\<exists>s'. receiveMessage now ses es s = Done (Some m, s') \<and> ring_repr (sockRing s') rest"
proof -
  let ?line = "getMessageType m # wire_body m"
  have w: "wire m = ?line @ [TLF]" by (simp add: wire_def)
  have r: "ring_repr (sockRing s) (?line @ TLF # rest)" using assms(2) w by simp
  have l: "length ?line < 2048" using assms(6) by (simp add: w)
  obtain rb where rb: "readDataUtilByte 2048 TLF True (sockRing s) = Some (map Some (?line @ [TLF]), rb)"
    "ring_repr rb rest"
    using readDataUtilByte_line [OF r assms(3,5) l] by blast
  have "containsByte TLF (sockRing s) = Some True"
    using ring_read_line [OF r assms(3), of 2048 TLF] by simp
  then have m1: "recvMessage now ses s = Done (True, s)" using assms(1) by (simp add: recvMessage_def)
  have "recvPacket now es (new_packet []) s = Done (new_packet (wire m), s\<lparr>sockRing := rb\<rparr>, es)"
    by (simp add: recvPacket_def recvPacket_step [OF rb(1)] w assign_def new_packet_def)
  moreover have "parse_itch (new_packet (wire m)) = Some m"
    using assms(6) by (intro itch_roundtrip [OF assms(4)]) simp
  ultimately show ?thesis using m1 rb(2) by (simp add: receiveMessage_def)
qed

lemma buffered:
  "bs \<noteq> [] \<Longrightarrow> length bs \<le> 16 \<Longrightarrow> \<exists>rb. writeData bs (new_ring 16) = Some rb \<and> ring_repr rb bs \<and>
     dataOffset rb = 0 \<and> dataLength rb = length bs \<and> bufLength rb = 16"
proof -
  assume bs: "bs \<noteq> []" "length bs \<le> 16"
  obtain rb where rb: "writeData bs (new_ring 16) = Some rb" "ring_repr rb bs"
    using writeData_repr [OF ring_repr_new, of bs 16] bs by (auto simp: expand_ok_def new_ring_def)
  have "(15 + length bs) div 16 = 1"
    using bs by (intro div_nat_eqI) (auto simp: Suc_le_eq)
  then have "dataOffset rb = 0 \<and> dataLength rb = length bs \<and> bufLength rb = 16"
    using rb(1) bs by (auto simp: writeData_def new_ring_def Let_def round_up_def mem_write_def int_ok_def)
  then show ?thesis using rb by blast
qed

lemma receive_buffered_message_witness:
  "\<exists>s s'. sockUp s \<and> receiveMessage 0 [] [] s = Done (Some ServerHeartbeat, s') \<and> ring_repr (sockRing s') ''AB''"
proof -
  have l: "wire ServerHeartbeat @ ''AB'' \<noteq> []" "length (wire ServerHeartbeat @ ''AB'') \<le> 16" by (simp_all add: wire_def)
  obtain rb where rb: "ring_repr rb (wire ServerHeartbeat @ ''AB'')" "dataOffset rb = 0"
    "dataLength rb = length (wire ServerHeartbeat @ ''AB'')" "bufLength rb = 16"
    using buffered [OF l] by blast
  define s where "s = \<lparr>sockUp = True, timeConnected = 1, timeDisconnected = 0, sockRing = rb\<rparr>"
  have "\<exists>s'. receiveMessage 0 [] [] s = Done (Some ServerHeartbeat, s') \<and> ring_repr (sockRing s') ''AB''"
    using rb l(2) by (intro receive_buffered_message) (auto simp: s_def TLF_def wire_def)
  moreover have "sockUp s" by (simp add: s_def)
  ultimately show ?thesis by blast
qed

text \<open>
  C8. \<^verbatim>\<open>RecvPacket\<close> never returns when the peer closes before the terminator: however many
  further calls of \<^verbatim>\<open>recv\<close> fail, it is still waiting. The comment in \<^verbatim>\<open>Socket.h\<close>
  promises that it returns false then.
\<close>

theorem recv_packet_closed_blocks:
  assumes "ring_repr (sockRing s) ds" and "TLF \<notin> set ds" and "length ds \<le> 2048"
    and "dataOffset (sockRing s) + dataLength (sockRing s) \<le> bufLength (sockRing s)"
  shows "recvPacket now (RecvShutdown # es) p s = Blocked"
proof -
  have u: "upto_byte TLF ds = ds" by (rule upto_byte_none [OF assms(2)])
  have m: "min (nat 2048) (length ds) = length ds" "take (nat 2048) ds = ds" using assms(3) by simp_all
  have "\<exists>rb. readDataUtilByte 2048 TLF True (sockRing s) = Some (map Some ds, rb) \<and> ring_repr rb []"
    using ring_read_line [OF assms(1,4), of 2048 TLF, THEN conjunct2] unfolding u m by simp
  then obtain rb where rb: "readDataUtilByte 2048 TLF True (sockRing s) = Some (map Some ds, rb)" "ring_repr rb []"
    by blast
  have nl: "\<not> (ds \<noteq> [] \<and> last ds = TLF)" using assms(2) by (metis last_in_set)
  obtain s2 where s2: "recvIntoBuffer now RecvShutdown (s\<lparr>sockRing := rb\<rparr>) = Some (False, False, s2)"
    "\<not> sockUp s2" "sockRing s2 = rb"
    by (auto simp: recvIntoBuffer_def)
  have "recvPacket_loop now (RecvShutdown # es) [] s = recvPacket_loop now es ([] @ ds) s2"
    unfolding recvPacket_step [OF rb(1)] if_not_P [OF nl] by (simp add: s2(1))
  then show ?thesis
    using recvPacket_loop_closed [OF s2(2), of now es] s2(3) rb(2) by (simp add: recvPacket_def)
qed

lemma recv_packet_closed_blocks_witness:
  "recvPacket 5 (RecvShutdown # replicate 100 RecvError) (new_packet []) (new_isocket 1) = Blocked"
  by (rule recv_packet_closed_blocks [of "new_isocket 1" "[]"])
    (auto simp: new_isocket_def ring_repr_new, simp add: new_ring_def)

text \<open>
  A message of more than 2048 bytes is not received from the buffer although it is complete:
  after the first 2048 bytes the code calls \<^verbatim>\<open>recv\<close> again instead of reading on.
\<close>

theorem recv_packet_long_blocks:
  assumes "ring_repr (sockRing s) (line @ TLF # rest)" and "TLF \<notin> set line" and "2048 \<le> length line"
    and "dataOffset (sockRing s) + dataLength (sockRing s) \<le> bufLength (sockRing s)"
  shows "recvPacket now [] p s = Blocked"
proof -
  have u: "upto_byte TLF (line @ TLF # rest) = line @ [TLF]"
    using assms(2) by (simp add: upto_byte_def takeWhile_append)
  have t: "take (nat 2048) (line @ [TLF]) = take 2048 line" using assms(3) by simp
  obtain rb where rb: "readDataUtilByte 2048 TLF True (sockRing s) = Some (map Some (take 2048 line), rb)"
    using ring_read_line [OF assms(1,4), of 2048 TLF, THEN conjunct2] unfolding u t by auto
  have "last (take 2048 line) \<in> set line"
    using assms(3) by (intro in_set_takeD [OF last_in_set]) auto
  then have nl: "\<not> (take 2048 line \<noteq> [] \<and> last (take 2048 line) = TLF)" using assms(2) by auto
  have "recvPacket_loop now [] [] s = Blocked"
    unfolding recvPacket_step [OF rb(1)] if_not_P [OF nl] by simp
  then show ?thesis by (simp add: recvPacket_def)
qed

lemma recv_packet_long_blocks_witness:
  "\<exists>s. ring_repr (sockRing s) (replicate 3000 CHR ''x'' @ TLF # []) \<and> recvPacket 0 [] (new_packet []) s = Blocked"
proof -
  let ?bs = "replicate 3000 CHR ''x'' @ [TLF]"
  obtain rb where rb: "writeData ?bs (new_ring 4096) = Some rb" "ring_repr rb ?bs"
    using writeData_repr [OF ring_repr_new, of ?bs 4096] by (auto simp: expand_ok_def new_ring_def)
  have "dataOffset rb = 0 \<and> dataLength rb = 3001 \<and> bufLength rb = 4096"
    using rb(1) by (auto simp: writeData_def new_ring_def Let_def round_up_def mem_write_def int_ok_def)
  moreover define s where "s = \<lparr>sockUp = True, timeConnected = 1, timeDisconnected = 0, sockRing = rb\<rparr>"
  ultimately have "recvPacket 0 [] (new_packet []) s = Blocked"
    using rb(2) by (intro recv_packet_long_blocks) (auto simp: s_def TLF_def)
  moreover have "ring_repr (sockRing s) ?bs" using rb(2) by (simp add: s_def)
  ultimately show ?thesis by blast
qed

end
