(* ===== verification/ItchSession.thy ===== *)
theory ItchSession
  imports ItchSocketCorrect "HOL-Library.Multiset"
begin

text \<open>
  The ITCH session (\<^verbatim>\<open>src/market_data/itch/Session.cpp\<close>): sending, logging, the routing of a
  dequeued message to its handler, the bodies of the worker loops, and the threads as a step relation
  over the shared dispatch queue and the messages the dispatchers hold. Thread creation and joins are
  not modelled; a step is one critical section, or one call of a handler outside them. The broken-down local time and the outcome of \<^verbatim>\<open>fopen\<close> are inputs of \<open>log_step\<close>,
  and so are the parts of the log file's path, which \<^verbatim>\<open>boost::filesystem\<close> computes.
\<close>

section \<open>Handlers\<close>

text \<open>
  The virtual functions a message is routed to. \<open>NoHandler\<close>: the switch has no case for the type.
\<close>

datatype handler =
    OnLoginAccepted int
  | OnLoginRejected string
  | OnSessionEnd
  | OnErrorNotification string
  | OnInstrumentDirectory "string list"
  | OnNewOrder message
  | OnModifyOrder message
  | OnCancelOrder message
  | OnMarketSnapshot message
  | OnTicker message
  | NoHandler

definition route_payload :: "message \<Rightarrow> handler" where
  "route_payload x = (let c = getMessageType x in
     if c = CHR ''N'' then OnNewOrder x
     else if c = CHR ''M'' then OnModifyOrder x
     else if c = CHR ''X'' then OnCancelOrder x
     else if c = CHR ''S'' then OnMarketSnapshot x
     else if c = CHR ''T'' then OnTicker x
     else NoHandler)"

text \<open>
  The switch of \<^verbatim>\<open>DispatcherWorker\<close> goes by the type character and casts the object to the
  class of that type; \<open>None\<close> when the object is not of that class.
\<close>

definition route_message :: "message \<Rightarrow> handler option" where
  "route_message m = (let c = getMessageType m in
     if c = CHR ''A'' then (case m of ServerLoginAccepted n \<Rightarrow> Some (OnLoginAccepted n) | _ \<Rightarrow> None)
     else if c = CHR ''J'' then (case m of ServerLoginRejected s \<Rightarrow> Some (OnLoginRejected s) | _ \<Rightarrow> None)
     else if c = CHR ''S'' then
       (if isEndOfSession m then Some OnSessionEnd
        else (case m of ServerSequencedData _ _ _ (Some x) \<Rightarrow> Some (route_payload x) | _ \<Rightarrow> None))
     else if c = CHR ''E'' then (case m of ServerErrorNotification s \<Rightarrow> Some (OnErrorNotification s) | _ \<Rightarrow> None)
     else if c = CHR ''R'' then (case m of ServerInstrumentDirectory xs \<Rightarrow> Some (OnInstrumentDirectory xs) | _ \<Rightarrow> None)
     else Some NoHandler)"

section \<open>The session log\<close>

record tm =
  tm_year :: nat
  tm_mon :: nat
  tm_mday :: nat
  tm_hour :: nat
  tm_min :: nat
  tm_sec :: nat

record log_path =
  lpParent :: string
  lpStem :: string
  lpExt :: string

record session_log =
  lgFile :: string
  lgOpen :: bool
  lgEntries :: nat
  lgLastDay :: nat
  lgWritten :: "(string \<times> string) list"

definition pad0 :: "nat \<Rightarrow> nat \<Rightarrow> string" where
  "pad0 k n = (let s = show_nat n in replicate (k - length s) CHR ''0'' @ s)"

definition dated_file :: "log_path \<Rightarrow> tm \<Rightarrow> string" where
  "dated_file lp t =
     (let dir = lpParent lp;
          dir' = (if dir \<noteq> [] \<and> last dir \<noteq> CHR ''/'' then dir @ ''/'' else dir)
      in dir' @ lpStem lp @ ''-'' @ pad0 4 (tm_year t + 1900) @ pad0 2 (tm_mon t + 1) @ pad0 2 (tm_mday t) @
         lpExt lp)"

definition log_stamp :: "tm \<Rightarrow> timespec \<Rightarrow> string" where
  "log_stamp t ts = pad0 4 (tm_year t + 1900) @ ''-'' @ pad0 2 (tm_mon t + 1) @ ''-'' @ pad0 2 (tm_mday t) @ '' '' @
     pad0 2 (tm_hour t) @ '':'' @ pad0 2 (tm_min t) @ '':'' @ pad0 2 (tm_sec t) @ ''.'' @
     pad0 6 (nat (tv_nsec ts) div 1000)"

definition log_step :: "log_path \<Rightarrow> tm \<Rightarrow> timespec \<Rightarrow> bool \<Rightarrow> bool \<Rightarrow> message \<Rightarrow> session_log \<Rightarrow> session_log" where
  "log_step lp t ts fopen_ok toServer m lg =
     (let lg1 = (if lgFile lg = [] \<or> lgLastDay lg \<noteq> tm_mday t
                 then lg\<lparr>lgOpen := False, lgLastDay := tm_mday t, lgFile := dated_file lp t\<rparr> else lg);
          lg2 = (if \<not> lgOpen lg1 then lg1\<lparr>lgOpen := fopen_ok, lgEntries := 0\<rparr> else lg1)
      in if lgOpen lg2 then
           let line = log_stamp t ts @ (if toServer then ''>>>'' else ''<<<'') @ log_message m @ ''.'' @ [TLF];
               n = lgEntries lg2 + 1
           in lg2\<lparr>lgWritten := lgWritten lg2 @ [(lgFile lg2, line)], lgEntries := n, lgOpen := (n < 100)\<rparr>
         else lg2)"

section \<open>The session\<close>

record session =
  ssShutdown :: bool
  ssSocket :: "isocket option"
  ssReceived :: nat
  ssSent :: nat
  ssQueue :: "message list"
  ssLastClient :: timespec
  ssHeartbeatDelay :: int
  ssServerTimeout :: "int option"

definition new_session :: session where
  "new_session = \<lparr>ssShutdown = True, ssSocket = None, ssReceived = 0, ssSent = 0, ssQueue = [],
     ssLastClient = zero_timespec, ssHeartbeatDelay = 1, ssServerTimeout = None\<rparr>"

definition isConnected :: "session \<Rightarrow> bool" where
  "isConnected s = (case ssSocket s of None \<Rightarrow> False | Some k \<Rightarrow> sockUp k)"

definition setHeartbeatDelay :: "int \<Rightarrow> session \<Rightarrow> session" where
  "setHeartbeatDelay n s = s\<lparr>ssHeartbeatDelay := (if n \<le> 0 then 1 else n)\<rparr>"

definition setServerTimeout :: "int \<Rightarrow> session \<Rightarrow> session" where
  "setServerTimeout n s = s\<lparr>ssServerTimeout := Some n\<rparr>"

text \<open>\<^verbatim>\<open>Start\<close>: the socket the constructor connected (or \<open>None\<close>) and the time are inputs.\<close>

definition session_start :: "isocket option \<Rightarrow> timespec \<Rightarrow> session \<Rightarrow> session" where
  "session_start k now s =
     (if isConnected s then s
      else case k of
        None \<Rightarrow> s\<lparr>ssSocket := None\<rparr>
      | Some sock \<Rightarrow> s\<lparr>ssSocket := Some sock, ssShutdown := False, ssReceived := 0, ssSent := 0,
                       ssLastClient := now\<rparr>)"

text \<open>\<^verbatim>\<open>LogMessage\<close> counts every message, also without a log file.\<close>

definition count_message :: "bool \<Rightarrow> session \<Rightarrow> session" where
  "count_message toServer s =
     (if toServer then s\<lparr>ssSent := ssSent s + 1\<rparr> else s\<lparr>ssReceived := ssReceived s + 1\<rparr>)"

definition sendMessage :: "timespec \<Rightarrow> (send_res \<times> sel_res) list \<Rightarrow> message \<Rightarrow> session \<Rightarrow>
    (bool \<times> string \<times> session) outcome" where
  "sendMessage now es m s =
     (case ssSocket s of
        None \<Rightarrow> Done (False, [], s)
      | Some k \<Rightarrow>
          if \<not> sockUp k then Done (False, [], s)
          else case save m (new_packet []) of
            None \<Rightarrow> Done (False, [], s)
          | Some p \<Rightarrow>
              (case sendPacket (tv_sec now) es p k of
                 Done (True, out, k', _) \<Rightarrow>
                   Done (True, out, count_message True (s\<lparr>ssSocket := Some k', ssLastClient := now\<rparr>))
               | Done (False, out, k', _) \<Rightarrow> Done (False, out, s\<lparr>ssSocket := Some k'\<rparr>)
               | Blocked \<Rightarrow> Blocked
               | Undefined \<Rightarrow> Undefined))"

definition dispatchServerMessage :: "int \<Rightarrow> message \<Rightarrow> session \<Rightarrow> session" where
  "dispatchServerMessage now m s0 = (let s = count_message False s0 in
     if isHeartbeat m then s
     else (if isEndOfSession m then s\<lparr>ssSocket := map_option (sock_close now) (ssSocket s)\<rparr> else s)
       \<lparr>ssQueue := ssQueue s @ [m]\<rparr>)"

text \<open>One iteration of \<^verbatim>\<open>DispatcherWorker\<close>: wait, exit, or take the front message.\<close>

datatype worker_step = WWait | WExit | WTake message session

definition dispatcher_worker :: "session \<Rightarrow> worker_step" where
  "dispatcher_worker s =
     (case ssQueue s of
        [] \<Rightarrow> if ssShutdown s then WExit else WWait
      | m # q \<Rightarrow> WTake m (s\<lparr>ssQueue := q\<rparr>))"

text \<open>
  One iteration of \<^verbatim>\<open>ServerWorker\<close> on the result of \<^verbatim>\<open>ReceiveMessage\<close>: the new session and
  time of the last message, and whether the worker goes on. The server timeout is read uninitialised
  unless \<^verbatim>\<open>SetServerTimeout\<close> was called: \<open>None\<close>.
\<close>

definition server_worker :: "timespec \<Rightarrow> message option \<Rightarrow> session \<Rightarrow> timespec \<Rightarrow>
    (bool \<times> session \<times> timespec) option" where
  "server_worker now r s lastSeen =
     (case r of
        Some m \<Rightarrow> Some (\<not> ssShutdown s, dispatchServerMessage (tv_sec now) m s, now)
      | None \<Rightarrow>
          if ssShutdown s then Some (False, s, lastSeen)
          else if isConnected s then
            (case ssServerTimeout s of
               None \<Rightarrow> None
             | Some secs \<Rightarrow>
                 if tv_sec now - tv_sec lastSeen \<ge> secs
                 then Some (False, s\<lparr>ssSocket := map_option (sock_close (tv_sec now)) (ssSocket s)\<rparr>, lastSeen)
                 else Some (True, s, lastSeen))
          else Some (False, s, lastSeen))"

text \<open>The body of \<^verbatim>\<open>ClientWorker\<close> after its timed wait: send a heartbeat when one is due.\<close>

definition client_worker :: "timespec \<Rightarrow> (send_res \<times> sel_res) list \<Rightarrow> session \<Rightarrow> session outcome" where
  "client_worker now es s =
     (if ssShutdown s \<or> \<not> isConnected s then Done s
      else if tv_sec now - tv_sec (ssLastClient s) < ssHeartbeatDelay s then Done s
      else case (save ClientHeartbeat (new_packet []), ssSocket s) of
        (Some p, Some k) \<Rightarrow>
          (case sendPacket (tv_sec now) es p k of
             Done (ok, out, k', _) \<Rightarrow>
               Done ((if ok then count_message True (s\<lparr>ssSocket := Some k'\<rparr>)
                      else s\<lparr>ssSocket := Some (sock_close (tv_sec now) k')\<rparr>)\<lparr>ssLastClient := now\<rparr>)
           | Blocked \<Rightarrow> Blocked
           | Undefined \<Rightarrow> Undefined)
      | _ \<Rightarrow> Done s)"

text \<open>The deadline \<^verbatim>\<open>WaitClose\<close> passes to \<^verbatim>\<open>pthread_cond_timedwait\<close>.\<close>

definition wait_deadline :: "timespec \<Rightarrow> int \<Rightarrow> timespec" where
  "wait_deadline now ms =
     \<lparr>tv_sec = tv_sec now + ms div 1000, tv_nsec = tv_nsec now + (ms mod 1000) * 1000000\<rparr>"

section \<open>The threads\<close>

text \<open>
  The server thread enqueues; a dispatcher of the pool takes a message inside its critical section,
  and handles it after it has left it; \<^verbatim>\<open>Stop\<close> sets the flag. The size of the pool is fixed by a
  macro (8 by default). A label records what happened.
\<close>

datatype worker = Idle | Handling message | Exited

record dispatch_state =
  dsSession :: session
  dsWorkers :: "worker list"

definition DISPATCH_THREAD_POOL_SIZE :: nat where "DISPATCH_THREAD_POOL_SIZE = 8"

definition start_pool :: "nat \<Rightarrow> session \<Rightarrow> dispatch_state" where
  "start_pool n s = \<lparr>dsSession = s, dsWorkers = replicate n Idle\<rparr>"

definition set_worker :: "nat \<Rightarrow> worker \<Rightarrow> dispatch_state \<Rightarrow> dispatch_state" where
  "set_worker i w d = d\<lparr>dsWorkers := (dsWorkers d)[i := w]\<rparr>"

datatype slabel = LReceived message | LTaken nat message | LHandled nat message handler | LWorkerExit nat | LStop

inductive session_step :: "dispatch_state \<Rightarrow> slabel \<Rightarrow> dispatch_state \<Rightarrow> bool" where
  receive: "session_step d (LReceived m) (d\<lparr>dsSession := dispatchServerMessage now m (dsSession d)\<rparr>)"
| take_msg: "i < length (dsWorkers d) \<Longrightarrow> dsWorkers d ! i = Idle \<Longrightarrow>
    dispatcher_worker (dsSession d) = WTake m s' \<Longrightarrow>
    session_step d (LTaken i m) (set_worker i (Handling m) (d\<lparr>dsSession := s'\<rparr>))"
| handle_msg: "i < length (dsWorkers d) \<Longrightarrow> dsWorkers d ! i = Handling m \<Longrightarrow> route_message m = Some h \<Longrightarrow>
    session_step d (LHandled i m h) (set_worker i Idle d)"
| worker_exit: "i < length (dsWorkers d) \<Longrightarrow> dsWorkers d ! i = Idle \<Longrightarrow>
    dispatcher_worker (dsSession d) = WExit \<Longrightarrow> session_step d (LWorkerExit i) (set_worker i Exited d)"
| stop: "session_step d LStop (d\<lparr>dsSession := (dsSession d)\<lparr>ssShutdown := True\<rparr>\<rparr>)"

inductive_cases session_stepE: "session_step d l d'"
inductive_simps session_step_exit: "session_step d (LWorkerExit i) d'"

inductive session_run :: "dispatch_state \<Rightarrow> slabel list \<Rightarrow> dispatch_state \<Rightarrow> bool" where
  run_nil: "session_run d [] d"
| run_snoc: "session_run d ls d' \<Longrightarrow> session_step d' l d'' \<Longrightarrow> session_run d (ls @ [l]) d''"

definition received_of :: "slabel list \<Rightarrow> message list" where
  "received_of ls = List.map_filter (\<lambda>l. case l of LReceived m \<Rightarrow> Some m | _ \<Rightarrow> None) ls"

definition taken_of :: "slabel list \<Rightarrow> (nat \<times> message) list" where
  "taken_of ls = List.map_filter (\<lambda>l. case l of LTaken i m \<Rightarrow> Some (i, m) | _ \<Rightarrow> None) ls"

definition handled_of :: "slabel list \<Rightarrow> (nat \<times> message \<times> handler) list" where
  "handled_of ls = List.map_filter (\<lambda>l. case l of LHandled i m h \<Rightarrow> Some (i, m, h) | _ \<Rightarrow> None) ls"

text \<open>What one dispatcher has taken, handled, and holds.\<close>

definition taken_by :: "nat \<Rightarrow> slabel list \<Rightarrow> message list" where
  "taken_by i ls = map snd (filter (\<lambda>t. fst t = i) (taken_of ls))"

definition handled_by :: "nat \<Rightarrow> slabel list \<Rightarrow> message list" where
  "handled_by i ls = map (fst \<circ> snd) (filter (\<lambda>t. fst t = i) (handled_of ls))"

fun hand :: "worker \<Rightarrow> message list" where
  "hand (Handling m) = [m]"
| "hand _ = []"

definition in_hand :: "dispatch_state \<Rightarrow> message multiset" where
  "in_hand d = (\<Sum>w\<leftarrow>dsWorkers d. mset (hand w))"

lemmas trace_defs = received_of_def taken_of_def handled_of_def taken_by_def handled_by_def map_filter_simps

lemma trace_append [simp]:
  "received_of (xs @ ys) = received_of xs @ received_of ys" "taken_of (xs @ ys) = taken_of xs @ taken_of ys"
  "handled_of (xs @ ys) = handled_of xs @ handled_of ys" "taken_by i (xs @ ys) = taken_by i xs @ taken_by i ys"
  "handled_by i (xs @ ys) = handled_by i xs @ handled_by i ys"
  by (simp_all add: trace_defs map_filter_def)

lemma trace_Nil [simp]:
  "received_of [] = []" "taken_of [] = []" "handled_of [] = []" "taken_by i [] = []" "handled_by i [] = []"
  by (simp_all add: trace_defs)

lemma dispatch_queue:
  "ssQueue (dispatchServerMessage now m s) = ssQueue s @ (if isHeartbeat m then [] else [m])"
  "ssReceived (dispatchServerMessage now m s) = ssReceived s + 1"
  "ssShutdown (dispatchServerMessage now m s) = ssShutdown s"
  by (simp_all add: dispatchServerMessage_def Let_def count_message_def)

lemma trace_single [simp]:
  "received_of [l] = (case l of LReceived m \<Rightarrow> [m] | _ \<Rightarrow> [])" "taken_of [l] = (case l of LTaken i m \<Rightarrow> [(i, m)] | _ \<Rightarrow> [])"
  "handled_of [l] = (case l of LHandled i m h \<Rightarrow> [(i, m, h)] | _ \<Rightarrow> [])"
  "taken_by i [l] = (case l of LTaken j m \<Rightarrow> if j = i then [m] else [] | _ \<Rightarrow> [])"
  "handled_by i [l] = (case l of LHandled j m h \<Rightarrow> if j = i then [m] else [] | _ \<Rightarrow> [])"
  by (simp_all add: trace_defs split: slabel.splits)

lemma set_worker_simps [simp]:
  "dsSession (set_worker i w d) = dsSession d" "dsWorkers (set_worker i w d) = (dsWorkers d)[i := w]"
  by (simp_all add: set_worker_def)

lemma in_hand_split:
  assumes "i < length (dsWorkers d)"
  shows "\<exists>ms. in_hand d = ms + mset (hand (dsWorkers d ! i)) \<and> (\<forall>w. in_hand (set_worker i w d) = ms + mset (hand w))"
proof -
  let ?s = "\<lambda>ws. \<Sum>w\<leftarrow>ws. mset (hand w)"
  let ?ms = "?s (take i (dsWorkers d)) + ?s (drop (Suc i) (dsWorkers d))"
  have "?s (dsWorkers d) = ?ms + mset (hand (dsWorkers d ! i))"
    by (subst id_take_nth_drop [OF assms]) (simp add: ac_simps)
  moreover have "?s ((dsWorkers d)[i := w]) = ?ms + mset (hand w)" for w
    using assms by (simp add: upd_conv_take_nth_drop ac_simps)
  ultimately show ?thesis by (auto simp: in_hand_def)
qed

lemma in_hand_session [simp]: "in_hand (d\<lparr>dsSession := s\<rparr>) = in_hand d"
  by (simp add: in_hand_def)

lemma dispatcher_worker_simps:
  "dispatcher_worker s = WTake m s' \<longleftrightarrow> (\<exists>q. ssQueue s = m # q \<and> s' = s\<lparr>ssQueue := q\<rparr>)"
  "dispatcher_worker s = WExit \<longleftrightarrow> ssQueue s = [] \<and> ssShutdown s"
  by (auto simp: dispatcher_worker_def split: list.splits)

text \<open>What every step keeps.\<close>

definition session_inv :: "dispatch_state \<Rightarrow> slabel list \<Rightarrow> dispatch_state \<Rightarrow> bool" where
  "session_inv d0 ls d \<longleftrightarrow>
     map snd (taken_of ls) @ ssQueue (dsSession d) = ssQueue (dsSession d0) @ filter (\<lambda>m. \<not> isHeartbeat m) (received_of ls) \<and>
     ssReceived (dsSession d) = ssReceived (dsSession d0) + length (received_of ls) \<and>
     length (dsWorkers d) = length (dsWorkers d0) \<and>
     (\<forall>i < length (dsWorkers d). taken_by i ls = handled_by i ls @ hand (dsWorkers d ! i)) \<and>
     mset (map snd (taken_of ls)) = mset (map (fst \<circ> snd) (handled_of ls)) + in_hand d \<and>
     (\<forall>(i, m, h) \<in> set (handled_of ls). route_message m = Some h) \<and>
     (Exited \<in> set (dsWorkers d) \<longrightarrow> ssShutdown (dsSession d))"

lemma exited_update: "Exited \<in> set (ws[i := w]) \<Longrightarrow> w \<noteq> Exited \<Longrightarrow> Exited \<in> set ws"
  using set_update_subset_insert [of ws i w] by auto

lemma session_step_inv:
  assumes "session_inv d0 ls d" "session_step d l d'"
  shows "session_inv d0 (ls @ [l]) d'"
  using assms(2)
proof cases
  case (receive m now)
  then show ?thesis using assms(1) by (simp add: session_inv_def dispatch_queue)
next
  case (take_msg i m s')
  obtain ms where "in_hand d = ms + mset (hand (dsWorkers d ! i))" "\<And>w. in_hand (set_worker i w d) = ms + mset (hand w)"
    using in_hand_split [OF take_msg(3)] by blast
  moreover have "in_hand (set_worker i (Handling m) (d\<lparr>dsSession := s'\<rparr>)) = in_hand (set_worker i (Handling m) d)"
    by (simp add: in_hand_def)
  ultimately show ?thesis using assms(1) take_msg
    by (auto simp: session_inv_def dispatcher_worker_simps nth_list_update dest: exited_update)
next
  case (handle_msg i m h)
  obtain ms where "in_hand d = ms + mset (hand (dsWorkers d ! i))" "\<And>w. in_hand (set_worker i w d) = ms + mset (hand w)"
    using in_hand_split [OF handle_msg(3)] by blast
  then show ?thesis using assms(1) handle_msg
    by (auto simp: session_inv_def nth_list_update dest: exited_update)
next
  case (worker_exit i)
  obtain ms where "in_hand d = ms + mset (hand (dsWorkers d ! i))" "\<And>w. in_hand (set_worker i w d) = ms + mset (hand w)"
    using in_hand_split [OF worker_exit(3)] by blast
  then show ?thesis using assms(1) worker_exit
    by (auto simp: session_inv_def dispatcher_worker_simps nth_list_update simp del: mset_map)
next
  case stop
  then show ?thesis using assms(1) by (simp add: session_inv_def)
qed

lemma hands_idle: "(\<Sum>w\<leftarrow>replicate n Idle. mset (hand w)) = {#}"
  by (induction n) auto

lemma session_run_inv:
  assumes "session_run (start_pool n s) ls d"
  shows "session_inv (start_pool n s) ls d"
  using assms
proof (induction "start_pool n s" ls d rule: session_run.induct)
  case run_nil
  then show ?case
    using hands_idle [of n] by (simp add: session_inv_def start_pool_def in_hand_def)
qed (rule session_step_inv)

section \<open>Properties of the session\<close>

text \<open>
  C9. Dispatch: in every interleaving of the server thread, a pool of any number of dispatcher
  threads and \<^verbatim>\<open>Stop\<close>, the dispatchers take the received messages other than heartbeats in the
  order of their arrival, those not yet taken being queued. Every message taken is handled exactly
  once, by the handler its type routes it to, or is in the hand of its dispatcher; each dispatcher
  handles its messages in the order it took them (the pool as a whole need not). Every received message
  is counted; a dispatcher leaves only on an empty queue after \<^verbatim>\<open>Stop\<close>.
\<close>

theorem session_dispatch_order:
  assumes "session_run (start_pool n s) ls d" and "ssQueue s = []"
  shows "map snd (taken_of ls) @ ssQueue (dsSession d) = filter (\<lambda>m. \<not> isHeartbeat m) (received_of ls) \<and>
    mset (map snd (taken_of ls)) = mset (map (fst \<circ> snd) (handled_of ls)) + in_hand d \<and>
    (\<forall>i < n. taken_by i ls = handled_by i ls @ hand (dsWorkers d ! i)) \<and>
    (\<forall>(i, m, h) \<in> set (handled_of ls). route_message m = Some h) \<and>
    ssReceived (dsSession d) = ssReceived s + length (received_of ls) \<and>
    (\<forall>i d'. session_step d (LWorkerExit i) d' \<longrightarrow> ssQueue (dsSession d) = [] \<and> ssShutdown (dsSession d))"
proof -
  have "session_inv (start_pool n s) ls d" using session_run_inv [OF assms(1)] .
  then show ?thesis
    using assms(2) by (simp add: session_inv_def session_step_exit dispatcher_worker_simps) (simp add: start_pool_def)
qed

text \<open>Two logins taken by two dispatchers, the second handled first.\<close>

definition overtaking :: "slabel list" where
  "overtaking = [LReceived ServerHeartbeat, LReceived (ServerLoginAccepted 3), LReceived (ServerLoginAccepted 4),
     LTaken 0 (ServerLoginAccepted 3), LTaken 1 (ServerLoginAccepted 4),
     LHandled 1 (ServerLoginAccepted 4) (OnLoginAccepted 4), LHandled 0 (ServerLoginAccepted 3) (OnLoginAccepted 3)]"

text \<open>The run of a list of labels, as a function.\<close>

fun apply_label :: "slabel \<Rightarrow> dispatch_state \<Rightarrow> dispatch_state option" where
  "apply_label (LReceived m) d = Some (d\<lparr>dsSession := dispatchServerMessage 0 m (dsSession d)\<rparr>)"
| "apply_label (LTaken i m) d = (case dispatcher_worker (dsSession d) of
     WTake m' s' \<Rightarrow> if m' = m \<and> i < length (dsWorkers d) \<and> dsWorkers d ! i = Idle
       then Some (set_worker i (Handling m) (d\<lparr>dsSession := s'\<rparr>)) else None
   | _ \<Rightarrow> None)"
| "apply_label (LHandled i m h) d =
     (if i < length (dsWorkers d) \<and> dsWorkers d ! i = Handling m \<and> route_message m = Some h then Some (set_worker i Idle d) else None)"
| "apply_label (LWorkerExit i) d =
     (if i < length (dsWorkers d) \<and> dsWorkers d ! i = Idle \<and> dispatcher_worker (dsSession d) = WExit
      then Some (set_worker i Exited d) else None)"
| "apply_label LStop d = Some (d\<lparr>dsSession := (dsSession d)\<lparr>ssShutdown := True\<rparr>\<rparr>)"

lemma apply_label_step: "apply_label l d = Some d' \<Longrightarrow> session_step d l d'"
  by (cases l) (auto split: worker_step.splits if_splits intro: session_step.intros)

lemma apply_labels_run:
  "fold (\<lambda>l r. Option.bind r (apply_label l)) ls (Some d) = Some d' \<Longrightarrow> session_run d ls d'"
proof (induction ls arbitrary: d' rule: rev_induct)
  case (snoc l ls)
  then show ?case by (auto simp: bind_eq_Some_conv intro: run_snoc apply_label_step)
qed (simp add: run_nil)

lemma overtaking_run: "\<exists>d. session_run (start_pool DISPATCH_THREAD_POOL_SIZE new_session) overtaking d"
proof -
  have "fold (\<lambda>l r. Option.bind r (apply_label l)) overtaking (Some (start_pool DISPATCH_THREAD_POOL_SIZE new_session)) \<noteq> None"
    by (simp add: overtaking_def start_pool_def DISPATCH_THREAD_POOL_SIZE_def set_worker_def numeral_eq_Suc new_session_def
        dispatchServerMessage_def dispatcher_worker_def isHeartbeat_def isEndOfSession_def count_message_def route_message_def)
  then show ?thesis using apply_labels_run by (metis not_None_eq)
qed

lemma session_dispatch_order_witness:
  "\<exists>d. session_run (start_pool DISPATCH_THREAD_POOL_SIZE new_session) overtaking d \<and> ssQueue (dsSession d) = [] \<and>
     in_hand d = {#} \<and> ssReceived (dsSession d) = 3 \<and>
     map (fst \<circ> snd) (handled_of overtaking) = [ServerLoginAccepted 4, ServerLoginAccepted 3]"
proof -
  obtain d where d: "session_run (start_pool DISPATCH_THREAD_POOL_SIZE new_session) overtaking d" using overtaking_run by blast
  have "ssQueue new_session = []" "ssReceived new_session = 0" by (simp_all add: new_session_def)
  then show ?thesis using session_dispatch_order [OF d] d
    by (auto simp: trace_defs overtaking_def isHeartbeat_def)
qed

text \<open>
  Every well-formed server message that is not a heartbeat is routed to the handler of its
  class with its contents; sequenced data goes to the handler of its payload.
\<close>

theorem route_well_formed:
  assumes "server_ok m" and "\<not> isHeartbeat m"
  shows "route_message m = Some (case m of
      ServerErrorNotification s \<Rightarrow> OnErrorNotification s
    | ServerInstrumentDirectory xs \<Rightarrow> OnInstrumentDirectory xs
    | ServerLoginAccepted n \<Rightarrow> OnLoginAccepted n
    | ServerLoginRejected s \<Rightarrow> OnLoginRejected s
    | ServerSequencedData eos ts payload x \<Rightarrow>
        (if eos then OnSessionEnd
         else case x of
           Some (HotspotNewOrder n) \<Rightarrow> OnNewOrder (HotspotNewOrder n)
         | Some (HotspotModifyOrder n) \<Rightarrow> OnModifyOrder (HotspotModifyOrder n)
         | Some (HotspotCancelOrder p i) \<Rightarrow> OnCancelOrder (HotspotCancelOrder p i)
         | Some (HotspotMarketSnapshot l ps) \<Rightarrow> OnMarketSnapshot (HotspotMarketSnapshot l ps)
         | Some (HotspotTicker t) \<Rightarrow> OnTicker (HotspotTicker t)
         | _ \<Rightarrow> NoHandler)
    | _ \<Rightarrow> NoHandler)"
proof (cases m)
  case (ServerSequencedData eos ts payload x)
  show ?thesis
  proof (cases eos)
    case False
    then obtain y where y: "x = Some y" "payload_ok y" using assms(1) ServerSequencedData
      by (auto split: option.splits)
    then show ?thesis using ServerSequencedData False
      by (cases y) (simp_all add: route_message_def route_payload_def isEndOfSession_def Let_def)
  qed (use ServerSequencedData in \<open>simp add: route_message_def isEndOfSession_def Let_def\<close>)
qed (use assms in \<open>simp_all add: route_message_def isHeartbeat_def Let_def\<close>)

lemma route_well_formed_witness:
  "route_message (ServerLoginRejected ''bad login'') = Some (OnLoginRejected ''bad login'')"
proof -
  have "server_ok (ServerLoginRejected ''bad login'')" "\<not> isHeartbeat (ServerLoginRejected ''bad login'')"
    by (simp_all add: str_ok_def trim_right_def is_space_def ord_c_def isHeartbeat_def)
  from route_well_formed [OF this] show ?thesis by simp
qed

text \<open>
  A malformed message reaches the dispatcher as an unsupported message that keeps the type
  character of the class it failed to load as, and the switch then casts it to that class: sequenced
  data whose payload is a lone type character has no defined routing.
\<close>

theorem malformed_type_confusion:
  "parse_itch (new_packet (''S093015123X'' @ [TLF])) = Some (ServerUnsupported CHR ''S'' ''093015123X'') \<and>
   route_message (ServerUnsupported CHR ''S'' ''093015123X'') = None"
  by (simp add: TLF_def) code_simp

end
