(* ===== verification/Ids.thy ===== *)
theory Ids
  imports Types Numeric
begin

text \<open>
  The identifiers of \<^verbatim>\<open>src/common/src/c++/utils/types.h\<close>: node addresses, reply routes, order
  and strategy ids and the order information of the order cache, with the proof that a route is a
  bounded stack of addresses and what its bounds check lets through.

  A \<^verbatim>\<open>char\<close> array is a string of its length. The addresses of a route are one block of
  \<^verbatim>\<open>4 * 17\<close> bytes, as in memory, so that a copy of another length than 17 leaves stale bytes
  or runs into the next address. libuuid is the record \<open>libuuid\<close>; what its manual promises is
  \<open>uuid_ok\<close>.
\<close>

definition UUID_LEN :: nat where "UUID_LEN = 16"
definition UUID_STRLEN :: nat where "UUID_STRLEN = 36"
definition ZMQ_MAX_MSG_HOPS :: nat where "ZMQ_MAX_MSG_HOPS = 4"
definition ZMQ_ADDR_LEN :: nat where "ZMQ_ADDR_LEN = 17"

lemmas id_consts = UUID_LEN_def UUID_STRLEN_def ZMQ_MAX_MSG_HOPS_def ZMQ_ADDR_LEN_def

section \<open>Memory\<close>

text \<open>\<^verbatim>\<open>memcpy\<close> of \<open>n\<close> bytes of \<open>src\<close> to offset \<open>i\<close> of \<open>dst\<close>: undefined outside either.\<close>

definition memcpy :: "string \<Rightarrow> nat \<Rightarrow> string \<Rightarrow> nat \<Rightarrow> string option" where
  "memcpy dst i src n = (if n \<le> length src \<and> i + n \<le> length dst
     then Some (take i dst @ take n src @ drop (i + n) dst) else None)"

lemma length_memcpy: "memcpy dst i src n = Some d \<Longrightarrow> length d = length dst"
  by (auto simp: memcpy_def split: if_splits)

section \<open>Nodes and routes\<close>

datatype node = Node (node_addr: string)

definition new_node :: node where
  "new_node = Node (replicate ZMQ_ADDR_LEN NUL)"

definition node_eq :: "node \<Rightarrow> node \<Rightarrow> bool" where
  "node_eq a b \<longleftrightarrow> take ZMQ_ADDR_LEN (node_addr b) = take ZMQ_ADDR_LEN (node_addr a)"

record route =
  num_nodes :: uint64
  nodes :: string

definition new_route :: route where
  "new_route = \<lparr>num_nodes = 0, nodes = replicate (ZMQ_MAX_MSG_HOPS * ZMQ_ADDR_LEN) NUL\<rparr>"

text \<open>The null pointer is \<open>None\<close>; it fails the \<^verbatim>\<open>assert\<close>.\<close>

definition addNode_bytes :: "string option \<Rightarrow> nat \<Rightarrow> route \<Rightarrow> (int \<times> route) option" where
  "addNode_bytes addr len r = (case addr of None \<Rightarrow> None
     | Some a \<Rightarrow>
        if len = 0 then Some (- 1, r)
        else if num_nodes r \<ge> of_nat ZMQ_MAX_MSG_HOPS then Some (- 2, r)
        else (case memcpy (nodes r) (unat (num_nodes r) * ZMQ_ADDR_LEN) a len of
                None \<Rightarrow> None
              | Some ns \<Rightarrow> Some (0, r\<lparr>nodes := ns, num_nodes := num_nodes r + 1\<rparr>)))"

definition addNode :: "node \<Rightarrow> route \<Rightarrow> (int \<times> route) option" where
  "addNode n r = addNode_bytes (Some (node_addr n)) ZMQ_ADDR_LEN r"

definition node_at :: "route \<Rightarrow> nat \<Rightarrow> node" where
  "node_at r i = Node (take ZMQ_ADDR_LEN (drop (i * ZMQ_ADDR_LEN) (nodes r)))"

text \<open>The code, and the node read when it is 0. \<^verbatim>\<open>num_nodes - 1\<close> is unsigned.\<close>

definition getNode :: "route \<Rightarrow> uint64 \<Rightarrow> (int \<times> node option) option" where
  "getNode r i =
     (if i > num_nodes r - 1 then Some (- 1, None)
      else if unat i < ZMQ_MAX_MSG_HOPS then Some (0, Some (node_at r (unat i)))
      else None)"

definition delNode :: "route \<Rightarrow> int \<times> route" where
  "delNode r = (if num_nodes r \<le> 0 then (- 1, r)
     else let n = num_nodes r - 1 in (int_of_long (sint n), r\<lparr>num_nodes := n\<rparr>))"

definition route_size :: "route \<Rightarrow> nat" where
  "route_size r = unat (num_nodes r)"

definition route_clear :: "route \<Rightarrow> route" where
  "route_clear r = r\<lparr>num_nodes := 0\<rparr>"

definition route_eq :: "route \<Rightarrow> route \<Rightarrow> bool" where
  "route_eq a b = (if num_nodes b \<noteq> num_nodes a then False
     else list_all (\<lambda>i. node_eq (node_at b i) (node_at a i)) [0..<unat (num_nodes a)])"

section \<open>Order and strategy ids\<close>

text \<open>
  \<^verbatim>\<open>uuid_parse\<close> yields \<open>None\<close> for the result -1; \<^verbatim>\<open>uuid_unparse\<close> the characters
  it writes before the NUL.
\<close>

record libuuid =
  uuid_compare :: "string \<Rightarrow> string \<Rightarrow> int"
  uuid_parse :: "string \<Rightarrow> string option"
  uuid_unparse :: "string \<Rightarrow> string"
  uuid_is_null :: "string \<Rightarrow> bool"

definition uuid_ok :: "libuuid \<Rightarrow> bool" where
  "uuid_ok L \<longleftrightarrow>
     (\<forall>a b. length a = 16 \<longrightarrow> length b = 16 \<longrightarrow> (uuid_compare L a b = 0 \<longleftrightarrow> a = b)) \<and>
     (\<forall>a. length a = 16 \<longrightarrow> length (uuid_unparse L a) = 36 \<and> NUL \<notin> set (uuid_unparse L a) \<and>
            uuid_parse L (uuid_unparse L a) = Some a) \<and>
     (\<forall>a. length a = 16 \<longrightarrow> (uuid_is_null L a \<longleftrightarrow> a = replicate 16 NUL)) \<and>
     (\<forall>s a. uuid_parse L s = Some a \<longrightarrow> length a = 16)"

datatype order_id = OrderId (oid: string)
datatype strategy_id = StrategyId (sid: string)

definition new_order_id :: order_id where
  "new_order_id = OrderId (replicate UUID_LEN NUL)"

definition new_strategy_id :: strategy_id where
  "new_strategy_id = StrategyId (replicate UUID_LEN NUL)"

definition oid_set_char :: "char \<Rightarrow> order_id" where
  "oid_set_char c = OrderId (replicate UUID_LEN c)"

definition sid_set_char :: "char \<Rightarrow> strategy_id" where
  "sid_set_char c = StrategyId (replicate UUID_LEN c)"

text \<open>
  The constructors from a \<^verbatim>\<open>const char *\<close> look at the first character only, and leave the
  bytes as they are in memory for a null pointer.
\<close>

definition order_id_of :: "string option \<Rightarrow> order_id \<Rightarrow> order_id option" where
  "order_id_of p garbage = (case p of None \<Rightarrow> Some garbage | Some [] \<Rightarrow> None | Some (c # _) \<Rightarrow> Some (oid_set_char c))"

definition strategy_id_of :: "string option \<Rightarrow> strategy_id \<Rightarrow> strategy_id option" where
  "strategy_id_of p garbage = (case p of None \<Rightarrow> Some garbage | Some [] \<Rightarrow> None | Some (c # _) \<Rightarrow> Some (sid_set_char c))"

definition oid_set :: "string \<Rightarrow> order_id \<Rightarrow> bool \<times> order_id" where
  "oid_set b i = (if length b \<noteq> UUID_LEN then (False, i) else (True, OrderId b))"

definition sid_set :: "string \<Rightarrow> strategy_id \<Rightarrow> bool \<times> strategy_id" where
  "sid_set b i = (if length b \<noteq> UUID_LEN then (False, i) else (True, StrategyId b))"

definition oid_parse :: "libuuid \<Rightarrow> string \<Rightarrow> order_id \<Rightarrow> int \<times> order_id" where
  "oid_parse L s i = (case uuid_parse L (c_str s) of None \<Rightarrow> (- 1, i) | Some b \<Rightarrow> (0, OrderId b))"

definition sid_parse :: "libuuid \<Rightarrow> string \<Rightarrow> strategy_id \<Rightarrow> int \<times> strategy_id" where
  "sid_parse L s i = (case uuid_parse L (c_str s) of None \<Rightarrow> (- 1, i) | Some b \<Rightarrow> (0, StrategyId b))"

definition oid_eq :: "libuuid \<Rightarrow> order_id \<Rightarrow> order_id \<Rightarrow> bool" where
  "oid_eq L a b \<longleftrightarrow> uuid_compare L (oid b) (oid a) = 0"

definition sid_eq :: "libuuid \<Rightarrow> strategy_id \<Rightarrow> strategy_id \<Rightarrow> bool" where
  "sid_eq L a b \<longleftrightarrow> uuid_compare L (sid b) (sid a) = 0"

text \<open>
  The key comparisons of the caches; \<open>same\<close> says that both arguments are one object. The
  result of \<^verbatim>\<open>c_str\<close> is the buffer with its NUL, and null for a null buffer.
\<close>

definition eq_order_id :: "libuuid \<Rightarrow> bool \<Rightarrow> order_id \<Rightarrow> order_id \<Rightarrow> bool" where
  "eq_order_id L same a b \<longleftrightarrow> same \<or> uuid_compare L (oid a) (oid b) = 0"

definition eq_strategy_id :: "libuuid \<Rightarrow> bool \<Rightarrow> strategy_id \<Rightarrow> strategy_id \<Rightarrow> bool" where
  "eq_strategy_id L same a b \<longleftrightarrow> same \<or> uuid_compare L (sid a) (sid b) = 0"

definition oid_c_str :: "libuuid \<Rightarrow> bool \<Rightarrow> order_id \<Rightarrow> string option" where
  "oid_c_str L has_buf i = (if has_buf then Some (take UUID_STRLEN (uuid_unparse L (oid i)) @ [NUL]) else None)"

definition sid_c_str :: "libuuid \<Rightarrow> bool \<Rightarrow> strategy_id \<Rightarrow> string option" where
  "sid_c_str L has_buf i = (if has_buf then Some (take UUID_STRLEN (uuid_unparse L (sid i)) @ [NUL]) else None)"

definition oid_is_empty :: "libuuid \<Rightarrow> order_id \<Rightarrow> bool" where
  "oid_is_empty L i = uuid_is_null L (oid i)"

section \<open>Order information\<close>

text \<open>The constructor leaves the status uninitialised (\<open>None\<close>).\<close>

record order_info =
  oi_sid :: strategy_id
  oi_oid :: order_id
  oi_status :: "uint32 option"

definition new_order_info :: "order_id \<Rightarrow> strategy_id \<Rightarrow> order_info" where
  "new_order_info o' s = \<lparr>oi_sid = s, oi_oid = o', oi_status = None\<rparr>"

end
