(* ===== verification/IdsCorrect.thy ===== *)
theory IdsCorrect
  imports Ids NumericCorrect
begin

text \<open>
  A route refines a stack of at most four addresses as long as every address has 17 bytes and no
  node is fetched from an empty route; what happens outside these conditions is stated too.
\<close>

section \<open>The abstract stack\<close>

datatype route_op = RAdd string | RDel | RClear | RGet uint64

type_synonym route_result = "int \<times> string option"

fun stack_step :: "route_op \<Rightarrow> string list \<Rightarrow> (route_result \<times> string list) option" where
  "stack_step (RAdd a) q = (if length a \<noteq> 17 then None
     else if length q < 4 then Some ((0, None), q @ [a]) else Some ((- 2, None), q))"
| "stack_step RDel q = (if q = [] then Some ((- 1, None), [])
     else Some ((int (length q) - 1, None), butlast q))"
| "stack_step RClear q = Some ((0, None), [])"
| "stack_step (RGet i) q = (if q = [] then None
     else if unat i < length q then Some ((0, Some (q ! unat i)), q) else Some ((- 1, None), q))"

fun stack_run :: "route_op list \<Rightarrow> string list \<Rightarrow> (route_result list \<times> string list) option" where
  "stack_run [] q = Some ([], q)"
| "stack_run (x # xs) q = (case stack_step x q of None \<Rightarrow> None
     | Some (y, q') \<Rightarrow> (case stack_run xs q' of None \<Rightarrow> None | Some (ys, q2) \<Rightarrow> Some (y # ys, q2)))"

fun route_step :: "route_op \<Rightarrow> route \<Rightarrow> (route_result \<times> route) option" where
  "route_step (RAdd a) r = (case addNode_bytes (Some a) (length a) r of None \<Rightarrow> None
     | Some (c, r') \<Rightarrow> Some ((c, None), r'))"
| "route_step RDel r = (case delNode r of (c, r') \<Rightarrow> Some ((c, None), r'))"
| "route_step RClear r = Some ((0, None), route_clear r)"
| "route_step (RGet i) r = (case getNode r i of None \<Rightarrow> None
     | Some (c, n) \<Rightarrow> Some ((c, map_option node_addr n), r))"

fun route_run :: "route_op list \<Rightarrow> route \<Rightarrow> (route_result list \<times> route) option" where
  "route_run [] r = Some ([], r)"
| "route_run (x # xs) r = (case route_step x r of None \<Rightarrow> None
     | Some (y, r') \<Rightarrow> (case route_run xs r' of None \<Rightarrow> None | Some (ys, r2) \<Rightarrow> Some (y # ys, r2)))"

definition route_abs :: "route \<Rightarrow> string list" where
  "route_abs r = map (\<lambda>i. node_addr (node_at r i)) [0..<unat (num_nodes r)]"

definition route_inv :: "route \<Rightarrow> bool" where
  "route_inv r \<longleftrightarrow> unat (num_nodes r) \<le> 4 \<and> length (nodes r) = 68"

section \<open>Each operation\<close>

lemma new_route_facts: "route_inv new_route" "route_abs new_route = []"
  by (simp_all add: route_inv_def route_abs_def new_route_def id_consts)

lemma route_abs_length [simp]: "length (route_abs r) = unat (num_nodes r)"
  by (simp add: route_abs_def)

lemma route_abs_nth: "i < unat (num_nodes r) \<Longrightarrow> route_abs r ! i = node_addr (node_at r i)"
  by (simp add: route_abs_def)

lemma num_nodes_eq_0: "num_nodes r = 0 \<longleftrightarrow> route_abs r = []"
  by (metis length_0_conv route_abs_length unat_eq_0)

lemma num_ge_4: "num_nodes r \<ge> 4 \<longleftrightarrow> unat (num_nodes r) \<ge> 4"
  by (simp add: word_le_nat_alt)

lemma slice_memcpy_other:
  assumes "memcpy d j a n = Some d'" "k + m \<le> j"
  shows "take m (drop k d') = take m (drop k d)"
proof -
  have j: "j \<le> length d" and d': "d' = take j d @ take n a @ drop (j + n) d"
    using assms(1) by (auto simp: memcpy_def split: if_splits)
  have "drop k d' = take (j - k) (drop k d) @ take n a @ drop (j + n) d"
    using assms(2) j by (simp add: d' drop_take)
  moreover have "m \<le> length (take (j - k) (drop k d))" "min m (j - k) = m" using assms(2) j by auto
  ultimately show ?thesis by simp
qed

lemma slice_memcpy_same:
  assumes "memcpy d j a (length a) = Some d'"
  shows "take (length a) (drop j d') = a"
  using assms by (auto simp: memcpy_def split: if_splits)

lemma route_add:
  assumes "route_inv r" "length a = 17"
  shows "\<exists>c r'. addNode_bytes (Some a) 17 r = Some (c, r') \<and> route_inv r' \<and>
    (if length (route_abs r) < 4 then c = 0 \<and> route_abs r' = route_abs r @ [a] else c = - 2 \<and> r' = r)"
proof (cases "unat (num_nodes r) < 4")
  case True
  let ?n = "unat (num_nodes r)"
  obtain ns where m: "memcpy (nodes r) (?n * 17) a 17 = Some ns"
    using True assms by (auto simp: memcpy_def route_inv_def)
  define r' where "r' = r\<lparr>nodes := ns, num_nodes := num_nodes r + 1\<rparr>"
  have s: "unat (num_nodes r + 1) = ?n + 1"
    using True unat_word_ariths(1) [of "num_nodes r" 1] by simp
  have num: "num_nodes r' = num_nodes r + 1" by (simp add: r'_def)
  have "length ns = 68" using length_memcpy [OF m] assms by (simp add: route_inv_def)
  then have i: "route_inv r'" using True by (simp add: r'_def route_inv_def s)
  have old: "node_at r' k = node_at r k" if "k < ?n" for k
    using slice_memcpy_other [OF m, of "k * 17" 17] that by (simp add: node_at_def r'_def id_consts)
  have new: "node_addr (node_at r' ?n) = a"
    using slice_memcpy_same [of "nodes r" "?n * 17" a ns] m assms by (simp add: node_at_def r'_def id_consts)
  have "route_abs r' = route_abs r @ [a]"
    using old new by (simp add: route_abs_def s num)
  moreover have "\<not> num_nodes r \<ge> 4" using True by (simp add: num_ge_4)
  ultimately show ?thesis
    using i m True by (intro exI [of _ 0] exI [of _ r']) (simp add: addNode_bytes_def id_consts r'_def)
next
  case False
  then show ?thesis using assms by (simp add: addNode_bytes_def id_consts num_ge_4)
qed

lemma unat_dec: "x \<noteq> 0 \<Longrightarrow> unat ((x :: uint64) - 1) = unat x - 1"
  by (rule unat_minus_one)

lemma small_word: "unat (w :: uint64) < 4 \<Longrightarrow> w \<in> {0, 1, 2, 3}"
proof -
  assume "unat w < 4"
  then have "unat w \<in> {0, 1, 2, 3}" by auto
  then have "(of_nat (unat w) :: uint64) \<in> of_nat ` {0, 1, 2, 3 :: nat}" by (rule imageI)
  moreover have "of_nat (unat w) = w" by simp
  ultimately show ?thesis by (simp del: of_nat_unat)
qed

lemma route_del:
  assumes "route_inv r" "delNode r = (c, r')"
  shows "route_inv r' \<and> route_abs r' = butlast (route_abs r) \<and>
    c = (if route_abs r = [] then - 1 else int (length (route_abs r)) - 1)"
proof (cases "num_nodes r = 0")
  case True
  then have "route_abs r = []" by (simp add: num_nodes_eq_0)
  then show ?thesis using True assms by (auto simp: delNode_def)
next
  case False
  let ?n = "unat (num_nodes r)"
  have u: "unat (num_nodes r - 1) = ?n - 1" "?n \<noteq> 0" using False unat_dec unat_eq_0 by auto
  have r': "r' = r\<lparr>num_nodes := num_nodes r - 1\<rparr>" "c = int_of_long (sint (num_nodes r - 1))"
    using assms(2) False by (auto simp: delNode_def Let_def)
  have le: "?n - 1 < 4" using assms(1) u(2) by (auto simp: route_inv_def)
  have "num_nodes r - 1 \<in> {0, 1, 2, 3}" using le u(1) by (intro small_word) simp
  then have "c = int (unat (num_nodes r - 1))" unfolding r'(2) int_of_long_def by auto
  then have "c = int (?n - 1)" by (simp add: u(1))
  moreover have "route_abs r' = butlast (route_abs r)"
    using u by (simp add: route_abs_def r' node_at_def flip: map_butlast)
      (metis Suc_pred butlast_snoc diff_Suc_1 neq0_conv upt_Suc zero_le)
  ultimately show ?thesis
    using assms(1) u False by (auto simp: route_inv_def r' num_nodes_eq_0 [symmetric] of_nat_diff)
qed

lemma route_get:
  assumes "route_inv r" "route_abs r \<noteq> []"
  shows "getNode r i = (if unat i < length (route_abs r) then Some (0, Some (node_at r (unat i)))
    else Some (- 1, None))"
proof -
  have "num_nodes r \<noteq> 0" using assms by (simp add: num_nodes_eq_0)
  then have "i > num_nodes r - 1 \<longleftrightarrow> \<not> unat i < unat (num_nodes r)"
    using unat_dec [of "num_nodes r"] unat_eq_0 [of "num_nodes r"] by (auto simp: word_less_nat_alt)
  then show ?thesis using assms by (auto simp: getNode_def route_inv_def id_consts)
qed

lemma route_step_refines:
  assumes "route_inv r" "stack_step x (route_abs r) = Some (y, q)"
  shows "\<exists>r'. route_step x r = Some (y, r') \<and> route_inv r' \<and> route_abs r' = q"
proof (cases x)
  case (RAdd a)
  then have a: "length a = 17" using assms by (auto split: if_splits)
  show ?thesis using route_add [OF assms(1) a] assms(2) RAdd a by (auto split: if_splits)
next
  case RDel
  obtain c r' where d: "delNode r = (c, r')" by fastforce
  show ?thesis using route_del [OF assms(1) d] assms(2) RDel d by (auto split: if_splits)
next
  case RClear
  then show ?thesis using assms by (auto simp: route_clear_def route_inv_def route_abs_def)
next
  case (RGet i)
  then show ?thesis using route_get [OF assms(1), of i] assms
    by (auto simp: route_abs_nth split: if_splits)
qed

lemma route_run_sim:
  "route_inv r \<Longrightarrow> stack_run xs (route_abs r) = Some (ys, q) \<Longrightarrow>
   \<exists>r'. route_run xs r = Some (ys, r') \<and> route_inv r' \<and> route_abs r' = q"
proof (induction xs arbitrary: r ys)
  case (Cons x xs)
  obtain y q1 ys' where s: "stack_step x (route_abs r) = Some (y, q1)" "stack_run xs q1 = Some (ys', q)" "ys = y # ys'"
    using Cons.prems(2) by (auto split: option.splits)
  obtain r1 where r1: "route_step x r = Some (y, r1)" "route_inv r1" "route_abs r1 = q1"
    using route_step_refines [OF Cons.prems(1) s(1)] by auto
  show ?case using Cons.IH [of r1 ys'] r1 s by auto
qed simp

text \<open>
  C10. Routes. Adding 17 byte addresses, deleting, clearing, and fetching from a route that is not
  empty behave as on a list of at most four addresses: additions append until the route is full
  (then -2), deletions drop the last address and return the new size (-1 when there is none), a
  fetch returns the address at the index or -1; and the route stays well formed.
\<close>

theorem route_run_refines:
  assumes "stack_run xs [] = Some (ys, q)"
  shows "\<exists>r. route_run xs new_route = Some (ys, r) \<and> route_inv r \<and> route_abs r = q"
  using route_run_sim [of new_route xs ys q] assms by (simp add: new_route_facts)

lemma route_run_refines_witness:
  "\<exists>r. route_run [RAdd (replicate 17 CHR ''a''), RAdd (replicate 17 CHR ''b''), RGet 1, RDel, RGet 1, RDel, RDel] new_route
     = Some ([(0, None), (0, None), (0, Some (replicate 17 CHR ''b'')), (1, None), (- 1, None), (0, None), (- 1, None)], r) \<and>
     route_inv r \<and> route_abs r = []"
  by (rule route_run_refines) simp

lemma take_slice: "length a = n \<Longrightarrow> take n (a @ b) = a" by simp

lemma route_other_lengths_aux:
  assumes "a \<noteq> []" "length a \<le> 17"
  shows "\<exists>r. addNode_bytes (Some a) (length a) new_route = Some (0, r) \<and> route_size r = 1 \<and>
            getNode r 0 = Some (0, Some (Node (a @ replicate (17 - length a) NUL)))"
proof -
  have m: "memcpy (replicate 68 NUL) 0 a (length a) = Some (a @ replicate (68 - length a) NUL)"
    using assms(2) by (simp add: memcpy_def)
  have t: "take 17 (a @ replicate (68 - length a) NUL) = a @ replicate (17 - length a) NUL"
    using assms(2) by (simp add: min_def)
  have "addNode_bytes (Some a) (length a) new_route
      = Some (0, \<lparr>num_nodes = 1, nodes = a @ replicate (68 - length a) NUL\<rparr>)"
    using assms(1) m by (simp add: addNode_bytes_def new_route_def id_consts)
  moreover have "getNode \<lparr>num_nodes = 1, nodes = a @ replicate (68 - length a) NUL\<rparr> 0
      = Some (0, Some (Node (a @ replicate (17 - length a) NUL)))"
    using t by (simp add: getNode_def node_at_def id_consts del: take_append)
  ultimately show ?thesis by (simp add: route_size_def)
qed

text \<open>
  Outside these conditions. An address shorter than 17 bytes is stored with the bytes that
  were there before, NULs in a new route, so that the address read back is another one; one longer
  than the 68 bytes of the array overruns it; and fetching from an empty route is not refused: it
  succeeds for the first four indices and reads past the array for every other index.
\<close>

theorem route_other_lengths:
  assumes "a \<noteq> []" "length a \<le> 17" "68 < length b"
  shows "(\<exists>r. addNode_bytes (Some a) (length a) new_route = Some (0, r) \<and> route_size r = 1 \<and>
            getNode r 0 = Some (0, Some (Node (a @ replicate (17 - length a) NUL)))) \<and>
         addNode_bytes (Some b) (length b) new_route = None \<and>
         getNode new_route i = (if unat i < 4 then Some (0, Some new_node) else None)"
proof -
  have 2: "addNode_bytes (Some b) (length b) new_route = None"
    using assms(3) by (auto simp: addNode_bytes_def new_route_def memcpy_def id_consts)
  have 3: "getNode new_route i = (if unat i < 4 then Some (0, Some new_node) else None)"
  proof -
    have "\<not> i > 0 - (1 :: uint64)" by (simp add: not_less)
    moreover have "take 17 (drop (unat i * 17) (replicate 68 NUL)) = replicate 17 NUL" if "unat i < 4"
      using that by (simp add: min_def)
    ultimately show ?thesis by (simp add: getNode_def new_route_def node_at_def new_node_def id_consts)
  qed
  show ?thesis using route_other_lengths_aux [OF assms(1,2)] 2 3 by simp
qed

lemma route_other_lengths_witness:
  "(\<exists>r. addNode_bytes (Some ''abcde'') (length ''abcde'') new_route = Some (0, r) \<and> route_size r = 1 \<and>
       getNode r 0 = Some (0, Some (Node (''abcde'' @ replicate 12 NUL)))) \<and>
   getNode new_route 7 = None"
  using route_other_lengths [of "''abcde''" "replicate 69 NUL" 7] by simp

section \<open>Ids\<close>

text \<open>
  Order and strategy ids. Printing an id and parsing it gives the id back; two ids compare
  equal exactly when their bytes agree, for the operators and the keys of the caches; an id is
  empty exactly when it is the default one; and setting the bytes refuses other lengths than 16 and
  keeps the old id then.
\<close>

theorem ids_text_and_equality:
  assumes "uuid_ok L" "length a = 16" "length b = 16"
  shows "oid_parse L (the (oid_c_str L True (OrderId a))) x = (0, OrderId a) \<and>
    sid_parse L (the (sid_c_str L True (StrategyId a))) y = (0, StrategyId a) \<and>
    (oid_eq L (OrderId a) (OrderId b) \<longleftrightarrow> a = b) \<and> (sid_eq L (StrategyId a) (StrategyId b) \<longleftrightarrow> a = b) \<and>
    (eq_order_id L (a = b) (OrderId a) (OrderId b) \<longleftrightarrow> a = b) \<and>
    (eq_strategy_id L (a = b) (StrategyId a) (StrategyId b) \<longleftrightarrow> a = b) \<and>
    (oid_is_empty L (OrderId a) \<longleftrightarrow> OrderId a = new_order_id) \<and>
    oid_set b x = (True, OrderId b) \<and> oid_set (b @ c # d) x = (False, x)"
proof -
  have "NUL \<notin> set (uuid_unparse L a)" using assms by (simp add: uuid_ok_def)
  then have c: "c_str (uuid_unparse L a @ [NUL]) = uuid_unparse L a"
    unfolding c_str_def by (subst takeWhile_append2) auto
  have l: "length (uuid_unparse L a) = 36" "uuid_parse L (uuid_unparse L a) = Some a"
    using assms by (auto simp: uuid_ok_def)
  have e: "uuid_compare L a b = 0 \<longleftrightarrow> a = b" "uuid_compare L b a = 0 \<longleftrightarrow> b = a"
    using assms by (simp_all add: uuid_ok_def)
  have n: "uuid_is_null L a \<longleftrightarrow> a = replicate 16 NUL" using assms by (simp add: uuid_ok_def)
  show ?thesis
    using assms(2,3) c l e n
    by (auto simp: oid_parse_def sid_parse_def oid_c_str_def sid_c_str_def oid_eq_def sid_eq_def
        eq_order_id_def eq_strategy_id_def oid_is_empty_def new_order_id_def oid_set_def id_consts)
qed

text \<open>A library that writes each byte as two letters, to instantiate the property.\<close>

fun letters :: "string \<Rightarrow> string" where
  "letters [] = []"
| "letters (c # cs) = char_of (65 + ord_c c div 16) # char_of (65 + ord_c c mod 16) # letters cs"

fun unletters :: "string \<Rightarrow> string" where
  "unletters (p # q # cs) = char_of ((ord_c p - 65) * 16 + (ord_c q - 65)) # unletters cs"
| "unletters _ = []"

definition demo_uuid :: libuuid where
  "demo_uuid = \<lparr>uuid_compare = (\<lambda>a b. if a = b then 0 else 1),
     uuid_parse = (\<lambda>s. if length s = 36 then Some (unletters (take 32 s)) else None),
     uuid_unparse = (\<lambda>a. letters a @ ''----''),
     uuid_is_null = (\<lambda>a. a = replicate 16 NUL)\<rparr>"

lemma ord_c_lt: "ord_c c < 256" by (simp add: ord_c_def)

lemma ord_c_char_of: "n < 256 \<Longrightarrow> ord_c (char_of n) = n"
  by (simp add: ord_c_def)

lemma letters_facts: "length (letters a) = 2 * length a \<and> NUL \<notin> set (letters a) \<and> unletters (letters a) = a"
proof (induction a)
  case (Cons c a)
  have b: "ord_c c div 16 < 16" using ord_c_lt [of c] by (simp add: less_mult_imp_div_less)
  have "ord_c (char_of (65 + ord_c c div 16)) = 65 + ord_c c div 16"
    "ord_c (char_of (65 + ord_c c mod 16)) = 65 + ord_c c mod 16"
    using b by (auto intro!: ord_c_char_of intro: less_trans [of _ 81])
  moreover have "ord_c NUL = 0" by (simp add: ord_c_def NUL_def)
  moreover have "char_of (ord_c c) = c" by (simp add: ord_c_def)
  ultimately show ?case using Cons.IH by (auto simp: mult.commute [of _ 16])
qed simp

lemma unletters_length: "length (unletters s) = length s div 2"
  by (induction s rule: unletters.induct) auto

lemma demo_uuid_ok: "uuid_ok demo_uuid"
proof -
  have "NUL \<notin> set ''----''" by (simp add: NUL_def)
  then show ?thesis
    by (auto simp: uuid_ok_def demo_uuid_def letters_facts unletters_length)
qed

lemma ids_text_and_equality_witness:
  "oid_parse demo_uuid (the (oid_c_str demo_uuid True (OrderId ''abcdefghijklmnop''))) new_order_id
     = (0, OrderId ''abcdefghijklmnop'') \<and>
   \<not> oid_eq demo_uuid (OrderId ''abcdefghijklmnop'') (OrderId ''bbcdefghijklmnop'')"
  using ids_text_and_equality [OF demo_uuid_ok, of "''abcdefghijklmnop''" "''bbcdefghijklmnop''" new_order_id]
  by simp

end
