(* ===== verification/TimeUtils.thy ===== *)
theory TimeUtils
  imports IdsCorrect "HOL-Library.Signed_Division"
begin

text \<open>
  Time arithmetic and conversions: \<^verbatim>\<open>utils/time_utils.cpp\<close> and \<^verbatim>\<open>utils/fix_convertors.cpp\<close>.

  \<^verbatim>\<open>time_t\<close> and \<^verbatim>\<open>long\<close> have 64 bits; an overflow of their arithmetic is undefined behaviour
  (\<open>s64\<close>, \<open>s32\<close> give \<open>None\<close>). The difference of two instants in micro seconds is converted
  to \<^verbatim>\<open>uint64_t\<close> before it is divided, so a negative one becomes huge. The QuickFIX time stamp
  is the record \<open>fix_time\<close> of the operations the conversions call; \<open>fix_time_ok\<close> says that a
  stamp keeps the second and the millisecond it was built from.
\<close>

definition s64 :: "int \<Rightarrow> int option" where
  "s64 x = (if - 9223372036854775808 \<le> x \<and> x \<le> 9223372036854775807 then Some x else None)"

definition s32 :: "int \<Rightarrow> int option" where
  "s32 x = (if - 2147483648 \<le> x \<and> x \<le> 2147483647 then Some x else None)"

definition NANOS_PER_SECOND :: int where "NANOS_PER_SECOND = 1000000000"

section \<open>Differences of instants\<close>

definition timespec_micros :: "timespec \<Rightarrow> int option" where
  "timespec_micros t = do { a \<leftarrow> s64 (tv_sec t * 1000000); s64 (a + tv_nsec t sdiv 1000) }"

definition timespec_delta_millis :: "timespec \<Rightarrow> timespec \<Rightarrow> uint64 option" where
  "timespec_delta_millis start end' = do {
     e \<leftarrow> timespec_micros end';
     s \<leftarrow> timespec_micros start;
     usec \<leftarrow> s64 (e - s);
     Some ((word_of_int usec :: uint64) div 1000) }"

definition timespec_delta :: "timespec \<Rightarrow> timespec \<Rightarrow> timespec option" where
  "timespec_delta start end' = do {
     n \<leftarrow> s64 (tv_nsec end' - tv_nsec start);
     d \<leftarrow> s64 (tv_sec end' - tv_sec start);
     (if n < 0 then do {
        d1 \<leftarrow> s64 (d - 1);
        n1 \<leftarrow> s64 (NANOS_PER_SECOND + tv_nsec end');
        n2 \<leftarrow> s64 (n1 - tv_nsec start);
        Some \<lparr>tv_sec = d1, tv_nsec = n2\<rparr> }
      else Some \<lparr>tv_sec = d, tv_nsec = n\<rparr>) }"

text \<open>The null pointer is \<open>None\<close>; the value is written only with the code 0.\<close>

definition timespec2int64_t :: "timespec option \<Rightarrow> bool \<Rightarrow> (int \<times> int option) option" where
  "timespec2int64_t ts has_out = (case ts of
     Some t \<Rightarrow> if has_out
       then do { a \<leftarrow> s64 (tv_sec t * NANOS_PER_SECOND); v \<leftarrow> s64 (a + tv_nsec t); Some (0, Some v) }
       else Some (- 1, None)
   | None \<Rightarrow> Some (- 1, None))"

section \<open>Text\<close>

definition put_timespec :: "timespec \<Rightarrow> string" where
  "put_timespec t = show_int (tv_sec t) @ CHR '':'' #
     replicate (9 - length (show_int (tv_nsec t))) (CHR ''0'') @ show_int (tv_nsec t)"

definition is_bad_filename_char :: "char \<Rightarrow> bool" where
  "is_bad_filename_char c \<longleftrightarrow> c = CHR ''/'' \<or> c = CHR 0x5C \<or> c = CHR '' ''"

definition remove_bad_filename_chars :: "string \<Rightarrow> string" where
  "remove_bad_filename_chars s = filter (\<lambda>c. \<not> is_bad_filename_char c) (c_str s)"

section \<open>QuickFIX time stamps\<close>

record ('tm, 'dt, 't) fix_time =
  ft_gmtime :: "int \<Rightarrow> 'tm"
  ft_fromTm :: "'tm \<Rightarrow> int \<Rightarrow> 'dt"
  ft_hms :: "'dt \<Rightarrow> int \<times> int \<times> int \<times> int"
  ft_ymd :: "'dt \<Rightarrow> int \<times> int \<times> int"
  ft_setHMS :: "int \<times> int \<times> int \<times> int \<Rightarrow> 't \<Rightarrow> 't"
  ft_setYMD :: "int \<times> int \<times> int \<Rightarrow> 't \<Rightarrow> 't"
  ft_getTimeT :: "'t \<Rightarrow> int"
  ft_getHMS :: "'t \<Rightarrow> int \<times> int \<times> int \<times> int"

definition fix_time_ok :: "('tm, 'dt, 't) fix_time \<Rightarrow> bool" where
  "fix_time_ok F \<longleftrightarrow> (\<forall>s m t. 0 \<le> m \<and> m < 1000 \<longrightarrow>
     (let d = ft_fromTm F (ft_gmtime F s) m; t' = ft_setYMD F (ft_ymd F d) (ft_setHMS F (ft_hms F d) t)
      in ft_getTimeT F t' = s \<and> (\<exists>h mi sec. ft_getHMS F t' = (h, mi, sec, m))))"

definition stamp_millis :: "int \<Rightarrow> int" where
  "stamp_millis nanos =
     (if nanos \<le> 999999 then 0
      else if nanos \<le> 9999999 then nanos sdiv 1000000
      else if nanos \<le> 99999999 then nanos sdiv 1000000
      else if nanos \<le> 999999999 then nanos sdiv 1000000
      else (nanos + 100000) sdiv 1000000)"

definition TimespecToUTCTimeStamp :: "('tm, 'dt, 't) fix_time \<Rightarrow> timespec \<Rightarrow> 't \<Rightarrow> 't" where
  "TimespecToUTCTimeStamp F ts t = (let
     seconds = int_of_long (tv_sec ts);
     nanos = int_of_long (tv_nsec ts);
     fdt = ft_fromTm F (ft_gmtime F seconds) (stamp_millis nanos)
   in ft_setYMD F (ft_ymd F fdt) (ft_setHMS F (ft_hms F fdt) t))"

definition UTCTimeStampToTimespec :: "('tm, 'dt, 't) fix_time \<Rightarrow> 't \<Rightarrow> timespec option" where
  "UTCTimeStampToTimespec F t = (case ft_getHMS F t of (h, mi, sec, millis) \<Rightarrow>
     do { n \<leftarrow> s32 (millis * 1000000); Some \<lparr>tv_sec = ft_getTimeT F t, tv_nsec = n\<rparr> })"

text \<open>
  The text for Boost's parser: \<open>ts\<close> is QuickFIX's \<^verbatim>\<open>YYYYMMDD-HH:MM:SS.mmm\<close>, \<open>buflen\<close> is
  \<open>None\<close> for a null buffer, and the result is \<open>Some None\<close> when the code returns false.
\<close>

definition ptime_text :: "string \<Rightarrow> nat option \<Rightarrow> string option option" where
  "ptime_text ts buflen = (case buflen of None \<Rightarrow> Some None | Some n \<Rightarrow>
     if n < 27 then Some None
     else (let s = ts @ [NUL] in do {
       b \<leftarrow> memcpy (replicate n NUL) 0 s 4;
       b \<leftarrow> memcpy b 4 ''-'' 1;
       b \<leftarrow> memcpy b 5 (drop 4 s) 2;
       b \<leftarrow> memcpy b 7 ''-'' 1;
       b \<leftarrow> memcpy b 8 (drop 6 s) 2;
       b \<leftarrow> memcpy b 10 '' '' 1;
       b \<leftarrow> memcpy b 11 (drop 9 s) 12;
       b \<leftarrow> memcpy b 23 ''000'' 3;
       Some (Some (c_str b)) }))"

definition UTCTimeStampToPTime :: "(string \<Rightarrow> 'p) \<Rightarrow> string \<Rightarrow> nat option \<Rightarrow> 'p option option" where
  "UTCTimeStampToPTime time_from_string ts buflen =
     map_option (map_option time_from_string) (ptime_text ts buflen)"

section \<open>Exactness\<close>

text \<open>A normalised instant, small enough that no arithmetic overflows.\<close>

definition ts_ok :: "timespec \<Rightarrow> bool" where
  "ts_ok t \<longleftrightarrow> 0 \<le> tv_sec t \<and> tv_sec t < 2 ^ 42 \<and> 0 \<le> tv_nsec t \<and> tv_nsec t < 1000000000"

definition total_nanos :: "timespec \<Rightarrow> int" where
  "total_nanos t = tv_sec t * 1000000000 + tv_nsec t"

definition total_micros :: "timespec \<Rightarrow> int" where
  "total_micros t = total_nanos t div 1000"

lemma sdiv_pos [simp]: "0 \<le> a \<Longrightarrow> 0 < b \<Longrightarrow> (a :: int) sdiv b = a div b"
  by (cases "a = 0") (simp_all add: signed_divide_int_def)

lemma total_micros_split: "total_micros t = tv_sec t * 1000000 + tv_nsec t div 1000"
  by (simp add: total_micros_def total_nanos_def)

lemma total_micros_range: "ts_ok t \<Longrightarrow> 0 \<le> total_micros t \<and> total_micros t < 2 ^ 62"
proof -
  assume t: "ts_ok t"
  then have "tv_nsec t div 1000 < 1000000" "0 \<le> tv_nsec t div 1000" by (auto simp: ts_ok_def)
  then show ?thesis using t by (simp add: ts_ok_def total_micros_split)
qed

lemma timespec_micros_ok: "ts_ok t \<Longrightarrow> timespec_micros t = Some (total_micros t)"
proof -
  assume t: "ts_ok t"
  then have "tv_nsec t div 1000 < 1000000" "0 \<le> tv_nsec t div 1000" by (auto simp: ts_ok_def)
  then show ?thesis using t by (simp add: ts_ok_def timespec_micros_def s64_def total_micros_split)
qed

lemma delta_millis_eq:
  assumes "ts_ok s" "ts_ok e"
  shows "timespec_delta_millis s e = Some (word_of_int (total_micros e - total_micros s) div 1000)"
  using total_micros_range [OF assms(1)] total_micros_range [OF assms(2)]
  by (simp add: timespec_delta_millis_def timespec_micros_ok assms s64_def)

lemma delta_millis_forward:
  assumes "ts_ok s" "ts_ok e" "total_nanos s \<le> total_nanos e"
  shows "\<exists>w. timespec_delta_millis s e = Some w \<and> uint w = (total_micros e - total_micros s) div 1000"
proof -
  have "total_micros s \<le> total_micros e" using assms(3) by (simp add: total_micros_def zdiv_mono1)
  then have "take_bit 64 (total_micros e - total_micros s) = total_micros e - total_micros s"
    using total_micros_range [OF assms(1)] total_micros_range [OF assms(2)]
    by (intro take_bit_int_eq_self) auto
  then have "uint (word_of_int (total_micros e - total_micros s) :: uint64) = total_micros e - total_micros s"
    by (simp add: uint_word_of_int_eq del: of_int_diff)
  then show ?thesis by (simp only: delta_millis_eq assms uint_div_distrib simp_thms ex_simps option.inject) simp
qed

text \<open>
  Differences of instants. For normalised instants \<open>timespec_delta\<close> is exact and normalised
  in both directions, and the difference in milliseconds is the number of whole milliseconds between
  the two micro second readings when time runs forward; when it runs backwards by a microsecond or
  more the result is more than thirteen quadrillion milliseconds.
\<close>

theorem timespec_delta_exact:
  assumes "ts_ok s" "ts_ok e"
  shows "(\<exists>d. timespec_delta s e = Some d \<and> total_nanos d = total_nanos e - total_nanos s \<and>
            0 \<le> tv_nsec d \<and> tv_nsec d < 1000000000) \<and>
         (\<exists>w. timespec_delta_millis s e = Some w \<and>
            (total_nanos s \<le> total_nanos e \<longrightarrow> uint w = (total_micros e - total_micros s) div 1000) \<and>
            (total_micros e < total_micros s \<longrightarrow> 13000000000000000 < uint w))"
proof
  show "\<exists>d. timespec_delta s e = Some d \<and> total_nanos d = total_nanos e - total_nanos s \<and>
            0 \<le> tv_nsec d \<and> tv_nsec d < 1000000000"
    using assms by (auto simp: timespec_delta_def s64_def ts_ok_def total_nanos_def NANOS_PER_SECOND_def)
  let ?d = "total_micros e - total_micros s"
  have bw: "13000000000000000 < uint ((word_of_int ?d :: uint64) div 1000)" if "?d < 0"
  proof -
    have r: "- (2 ^ 62) < ?d"
      using total_micros_range [OF assms(1)] total_micros_range [OF assms(2)] by simp
    have "take_bit 64 ?d = ?d + 2 ^ 64"
      using that r mod_pos_pos_trivial [of "?d + 2 ^ 64" "2 ^ 64"] by (simp add: take_bit_eq_mod)
    then have "uint (word_of_int ?d :: uint64) = ?d + 2 ^ 64"
      by (simp add: uint_word_of_int_eq del: of_int_diff)
    then have "uint ((word_of_int ?d :: uint64) div 1000) = (?d + 2 ^ 64) div 1000"
      by (simp only: uint_div_distrib) simp
    moreover have "(13000000000000001000 :: int) div 1000 \<le> (?d + 2 ^ 64) div 1000"
      by (rule zdiv_mono1) (use r in simp_all)
    ultimately show ?thesis by simp
  qed
  show "\<exists>w. timespec_delta_millis s e = Some w \<and>
      (total_nanos s \<le> total_nanos e \<longrightarrow> uint w = ?d div 1000) \<and>
      (total_micros e < total_micros s \<longrightarrow> 13000000000000000 < uint w)"
    using delta_millis_forward [OF assms] delta_millis_eq [OF assms] bw by auto
qed

lemma timespec_delta_exact_witness:
  "\<exists>d. timespec_delta \<lparr>tv_sec = 1, tv_nsec = 900000000\<rparr> \<lparr>tv_sec = 3, tv_nsec = 100000000\<rparr> = Some d \<and>
     total_nanos d = 1200000000"
  using timespec_delta_exact [of "\<lparr>tv_sec = 1, tv_nsec = 900000000\<rparr>" "\<lparr>tv_sec = 3, tv_nsec = 100000000\<rparr>"]
  by (auto simp: ts_ok_def total_nanos_def)

section \<open>Text and time stamps\<close>

lemma remove_bad_filename_chars_facts:
  "c \<in> set (remove_bad_filename_chars s) \<Longrightarrow> \<not> is_bad_filename_char c"
  "remove_bad_filename_chars (remove_bad_filename_chars s) = remove_bad_filename_chars s"
proof -
  show "c \<in> set (remove_bad_filename_chars s) \<Longrightarrow> \<not> is_bad_filename_char c"
    by (simp add: remove_bad_filename_chars_def)
  have "\<forall>c \<in> set (remove_bad_filename_chars s). c \<noteq> NUL"
    by (auto simp: remove_bad_filename_chars_def c_str_def dest: set_takeWhileD)
  then have "c_str (remove_bad_filename_chars s) = remove_bad_filename_chars s"
    by (simp add: c_str_def takeWhile_eq_all_conv)
  then show "remove_bad_filename_chars (remove_bad_filename_chars s) = remove_bad_filename_chars s"
    by (subst remove_bad_filename_chars_def) (simp add: remove_bad_filename_chars_def)
qed

lemma stamp_millis_normal: "0 \<le> n \<Longrightarrow> n < 1000000000 \<Longrightarrow> stamp_millis n = n div 1000000"
  by (auto simp: stamp_millis_def)

lemma ptime_text_layout:
  assumes "length y = 4" "length m = 2" "length d = 2" "length t = 12" "NUL \<notin> set (y @ m @ d @ t)" "27 \<le> n"
  shows "ptime_text (y @ m @ d @ ''-'' @ t) (Some n) = Some (Some (y @ ''-'' @ m @ ''-'' @ d @ '' '' @ t @ ''000''))"
proof -
  obtain y1 y2 y3 y4 m1 m2 d1 d2 where
    sm: "y = [y1, y2, y3, y4]" "m = [m1, m2]" "d = [d1, d2]"
    using assms(1-3) by (auto simp: length_Suc_conv numeral_eq_Suc)
  obtain t1 t2 t3 t4 t5 t6 t7 t8 t9 t10 t11 t12 where
    t: "t = [t1, t2, t3, t4, t5, t6, t7, t8, t9, t10, t11, t12]"
    using assms(4) by (auto simp: length_Suc_conv numeral_eq_Suc)
  obtain k where k: "n = 27 + k" using assms(6) le_Suc_ex by blast
  have r: "replicate n NUL = [NUL, NUL, NUL, NUL, NUL, NUL, NUL, NUL, NUL, NUL, NUL, NUL, NUL, NUL,
      NUL, NUL, NUL, NUL, NUL, NUL, NUL, NUL, NUL, NUL, NUL, NUL, NUL] @ replicate k NUL"
    unfolding k replicate_add by (simp add: numeral_eq_Suc)
  have z: "CHR ''0'' \<noteq> NUL" "CHR ''-'' \<noteq> NUL" "CHR '' '' \<noteq> NUL" by (simp_all add: NUL_def)
  have "\<forall>x \<in> set (y @ m @ d @ t). x \<noteq> NUL" using assms(5) by blast
  then show ?thesis
    using assms(6) unfolding ptime_text_def option.case r sm t
    by (simp add: memcpy_def c_str_def not_less [symmetric] z)
qed

text \<open>
  FIX time stamps. A time stamp built from an instant and converted back is the instant with
  its nanoseconds cut down to whole milliseconds, for every normalised instant before 2038; and the
  text handed to Boost for \<^verbatim>\<open>YYYYMMDD-HH:MM:SS.mmm\<close> is
  \<^verbatim>\<open>YYYY-MM-DD HH:MM:SS.mmm000\<close>, refused for buffers under 27 bytes.
\<close>

theorem utc_stamp_roundtrip:
  fixes F :: "('tm, 'dt, 't) fix_time"
  assumes "fix_time_ok F" "ts_ok ts" "tv_sec ts < 2 ^ 31"
    and "length y = 4" "length m = 2" "length d = 2" "length t = 12" "NUL \<notin> set (y @ m @ d @ t)"
    and "27 \<le> n"
  shows "UTCTimeStampToTimespec F (TimespecToUTCTimeStamp F ts st)
      = Some \<lparr>tv_sec = tv_sec ts, tv_nsec = tv_nsec ts div 1000000 * 1000000\<rparr> \<and>
    ptime_text (y @ m @ d @ ''-'' @ t) (Some n) = Some (Some (y @ ''-'' @ m @ ''-'' @ d @ '' '' @ t @ ''000'')) \<and>
    ptime_text (y @ m @ d @ ''-'' @ t) (Some (n mod 27)) = Some None"
proof -
  have n: "0 \<le> tv_nsec ts" "tv_nsec ts < 1000000000" "0 \<le> tv_sec ts" using assms(2) by (auto simp: ts_ok_def)
  define ms where "ms = tv_nsec ts div 1000000"
  have ms: "0 \<le> ms" "ms < 1000" using n by (auto simp: ms_def)
  have i: "int_of_long (tv_sec ts) = tv_sec ts" "stamp_millis (int_of_long (tv_nsec ts)) = ms"
    using n assms(3) by (auto simp: int_of_long_id stamp_millis_normal ms_def)
  define fdt where "fdt = ft_fromTm F (ft_gmtime F (tv_sec ts)) ms"
  define st' where "st' = ft_setYMD F (ft_ymd F fdt) (ft_setHMS F (ft_hms F fdt) st)"
  obtain h mi sec where st': "ft_getTimeT F st' = tv_sec ts" "ft_getHMS F st' = (h, mi, sec, ms)"
    using assms(1) ms unfolding fix_time_ok_def Let_def st'_def fdt_def by blast
  have "TimespecToUTCTimeStamp F ts st = st'"
    by (simp only: TimespecToUTCTimeStamp_def Let_def i st'_def fdt_def)
  then have 1: "UTCTimeStampToTimespec F (TimespecToUTCTimeStamp F ts st) = Some \<lparr>tv_sec = tv_sec ts, tv_nsec = ms * 1000000\<rparr>"
    using ms by (simp add: UTCTimeStampToTimespec_def st' s32_def)
  have 2: "ptime_text (y @ m @ d @ ''-'' @ t) (Some n) = Some (Some (y @ ''-'' @ m @ ''-'' @ d @ '' '' @ t @ ''000''))"
    using assms(4-9) by (rule ptime_text_layout)
  show ?thesis using 1 2 by (simp add: ms_def ptime_text_def)
qed

text \<open>A stamp that keeps the second and the millisecond, to instantiate the property.\<close>

definition demo_fix_time :: "(int, int \<times> int, int \<times> int) fix_time" where
  "demo_fix_time = \<lparr>ft_gmtime = (\<lambda>s. s), ft_fromTm = (\<lambda>s m. (s, m)),
     ft_hms = (\<lambda>(s, m). (0, 0, 0, m)), ft_ymd = (\<lambda>(s, m). (s, 0, 0)),
     ft_setHMS = (\<lambda>(h, mi, sec, m) (s, m'). (s, m)), ft_setYMD = (\<lambda>(s, _, _) (s', m). (s, m)),
     ft_getTimeT = fst, ft_getHMS = (\<lambda>(s, m). (0, 0, 0, m))\<rparr>"

lemma utc_stamp_roundtrip_witness:
  "UTCTimeStampToTimespec demo_fix_time (TimespecToUTCTimeStamp demo_fix_time \<lparr>tv_sec = 1314000000, tv_nsec = 123987654\<rparr> (0, 0))
     = Some \<lparr>tv_sec = 1314000000, tv_nsec = 123000000\<rparr> \<and>
   ptime_text ''20110822-08:00:00.123'' (Some 27) = Some (Some ''2011-08-22 08:00:00.123000'')"
  using utc_stamp_roundtrip [of demo_fix_time "\<lparr>tv_sec = 1314000000, tv_nsec = 123987654\<rparr>"
      "''2011''" "''08''" "''22''" "''08:00:00.123''" 27 "(0, 0)"]
  by (simp add: fix_time_ok_def demo_fix_time_def ts_ok_def NUL_def)

end
