(* ===== verification/AggBook.thy ===== *)
theory AggBook
  imports TimeUtils
begin

text \<open>
  The aggregated book: \<^verbatim>\<open>src/aggregated_book\<close> with the structures of
  \<^verbatim>\<open>utils/bbo_book_types\<close>.

  The global arrays are the lists of an \<open>agg\<close> state (500 instruments of 126 venues); an index
  past them is undefined behaviour, \<open>None\<close>. The monotonic clock is a function of the number of
  readings so far. A parsed protobuf message is the record \<open>bbo_msg\<close>; the size of a serialised one
  is the parameter \<open>bsz\<close>. A broadcast is its header frame and its message, in the order sent.
\<close>

definition NULL_VENUE_ID :: uint32 where "NULL_VENUE_ID = 0"
definition INIT_BID :: dbl where "INIT_BID = of_int NO_BID"
definition INIT_ASK :: dbl where "INIT_ASK = of_int NO_ASK"
definition SYMBOL_LEN :: nat where "SYMBOL_LEN = 8"
definition MAX_VENUES :: nat where "MAX_VENUES = 126"
definition MAX_SYMBOLS :: nat where "MAX_SYMBOLS = 500"
definition MSGBUF_SIZ :: nat where "MSGBUF_SIZ = 2048"
definition UPDATE_TIMEOUT_MILLIS :: int where "UPDATE_TIMEOUT_MILLIS = 5000"

record single_bbo =
  venue_id :: uint32
  sb_symbol :: string
  bid_price :: dbl
  ask_price :: dbl
  bid_size :: dbl
  ask_size :: dbl
  last_update :: timespec

record instrument_bbo =
  ib_symbol :: string
  bid_venue_id :: uint32
  ib_bid_price :: dbl
  ib_bid_size :: dbl
  bid_last_update :: timespec
  ask_venue_id :: uint32
  ib_ask_price :: dbl
  ib_ask_size :: dbl
  ask_last_update :: timespec

definition InstrumentBBO_init :: instrument_bbo where
  "InstrumentBBO_init = \<lparr>ib_symbol = replicate SYMBOL_LEN NUL,
     bid_venue_id = NULL_VENUE_ID, ib_bid_price = INIT_BID, ib_bid_size = INIT_SIZE, bid_last_update = zero_timespec,
     ask_venue_id = NULL_VENUE_ID, ib_ask_price = INIT_ASK, ib_ask_size = INIT_SIZE, ask_last_update = zero_timespec\<rparr>"

section \<open>Symbols\<close>

definition STRCMP8 :: "string \<Rightarrow> string \<Rightarrow> bool" where
  "STRCMP8 a b \<longleftrightarrow> list_all (\<lambda>i. a ! i = b ! i) [0..<8]"

text \<open>A \<^verbatim>\<open>std::string\<close> may be read up to its NUL.\<close>

definition STRCPY8 :: "string \<Rightarrow> string option" where
  "STRCPY8 src = (if length src < 7 then None else Some (take 8 (src @ [NUL])))"

definition strncmp_eq :: "nat \<Rightarrow> string \<Rightarrow> string \<Rightarrow> bool" where
  "strncmp_eq n a b \<longleftrightarrow> c_str (take n a) = c_str (take n b)"

section \<open>State\<close>

text \<open>\<open>bcast_sock\<close> is whether the global socket of that name is set; nothing in the program sets it.\<close>

record instrument_info =
  symbol :: string
  venues :: "single_bbo list"

record agg =
  instruments :: "instrument_info list"
  VENUE_COUNT :: nat
  seq_num :: uint32
  clock_reads :: nat
  bcast_sock :: bool

definition zero_bbo :: single_bbo where
  "zero_bbo = \<lparr>venue_id = 0, sb_symbol = replicate SYMBOL_LEN NUL, bid_price = 0, ask_price = 0,
     bid_size = 0, ask_size = 0, last_update = zero_timespec\<rparr>"

definition zero_agg :: agg where
  "zero_agg = \<lparr>instruments = replicate MAX_SYMBOLS
       \<lparr>symbol = replicate SYMBOL_LEN NUL, venues = replicate MAX_VENUES zero_bbo\<rparr>,
     VENUE_COUNT = 0, seq_num = 0, clock_reads = 0, bcast_sock = False\<rparr>"

definition instrument_reset :: "single_bbo \<Rightarrow> single_bbo" where
  "instrument_reset b = b\<lparr>bid_price := INIT_BID, ask_price := INIT_ASK, bid_size := INIT_SIZE, ask_size := INIT_SIZE\<rparr>"

definition instrument_is_unset :: "single_bbo \<Rightarrow> bool" where
  "instrument_is_unset b \<longleftrightarrow> bid_price b = INIT_BID \<and> ask_price b = INIT_ASK \<and>
     bid_size b = INIT_SIZE \<and> ask_size b = INIT_SIZE"

definition isZeroTimespec :: "timespec \<Rightarrow> bool" where
  "isZeroTimespec t \<longleftrightarrow> tv_sec t = 0 \<and> tv_nsec t = 0"

text \<open>\<open>conf\<close> holds the venue ids of the configuration, \<open>n\<close> is \<^verbatim>\<open>symbol_count\<close>.\<close>

definition init_venue :: "uint32 \<Rightarrow> single_bbo \<Rightarrow> single_bbo" where
  "init_venue v b = b\<lparr>venue_id := v, last_update := zero_timespec,
     bid_price := INIT_BID, ask_price := INIT_ASK, bid_size := - 1, ask_size := - 1\<rparr>"

fun init_venues :: "uint32 list \<Rightarrow> single_bbo list \<Rightarrow> single_bbo list option" where
  "init_venues [] bs = Some bs"
| "init_venues (v # vs) [] = None"
| "init_venues (v # vs) (b # bs) = map_option ((#) (init_venue v b)) (init_venues vs bs)"

fun init_instruments :: "uint32 list \<Rightarrow> nat \<Rightarrow> string list \<Rightarrow> instrument_info list \<Rightarrow> instrument_info list option" where
  "init_instruments conf 0 ss is = Some is"
| "init_instruments conf (Suc n) (s # ss) (i # is) = do {
     sym \<leftarrow> STRCPY8 s;
     vs \<leftarrow> init_venues conf (venues i);
     is' \<leftarrow> init_instruments conf n ss is;
     Some (i\<lparr>symbol := sym, venues := vs\<rparr> # is') }"
| "init_instruments conf (Suc n) _ _ = None"

definition initialize_instrument_info :: "uint32 list \<Rightarrow> string list \<Rightarrow> nat \<Rightarrow> agg \<Rightarrow> agg option" where
  "initialize_instrument_info conf ss n a =
     (if n > 0 \<and> VENUE_COUNT a > 0
      then map_option (\<lambda>is. a\<lparr>instruments := is\<rparr>) (init_instruments conf n ss (instruments a))
      else None)"

text \<open>What \<^verbatim>\<open>main\<close> does with the two inputs before the listeners start.\<close>

definition agg_setup :: "uint32 list \<Rightarrow> string list \<Rightarrow> agg option" where
  "agg_setup conf ss =
     (if length ss < MAX_SYMBOLS \<and> ss \<noteq> []
      then initialize_instrument_info conf ss (length ss) (zero_agg\<lparr>VENUE_COUNT := length conf\<rparr>)
      else None)"

section \<open>Updates\<close>

text \<open>The parsed message, on both the receiving and the sending side.\<close>

record bbo_msg =
  m_symbol :: string
  m_bid_venue_id :: uint32
  m_bid_price :: dbl
  m_bid_size :: dbl
  m_ask_venue_id :: uint32
  m_ask_price :: dbl
  m_ask_size :: dbl
  m_sequence :: uint32

type_synonym broadcast = "string \<times> bbo_msg"

definition broadcastBBO :: "(bbo_msg \<Rightarrow> nat) \<Rightarrow> instrument_bbo \<Rightarrow> agg \<Rightarrow> broadcast list \<times> agg" where
  "broadcastBBO bsz b a = (let
     p = \<lparr>m_symbol = c_str (ib_symbol b), m_bid_venue_id = bid_venue_id b, m_bid_price = ib_bid_price b,
          m_bid_size = ib_bid_size b, m_ask_venue_id = ask_venue_id b, m_ask_price = ib_ask_price b,
          m_ask_size = ib_ask_size b, m_sequence = seq_num a\<rparr>;
     a' = a\<lparr>seq_num := seq_num a + 1\<rparr>
   in if bsz p > MSGBUF_SIZ then ([], a') else ([(take SYMBOL_LEN (ib_symbol b), p)], a'))"

text \<open>
  The first loop: the quote is stored at the first venue that is both its bid and its ask venue.
  \<open>n\<close> counts the venues left, \<open>t\<close> the clock readings.
\<close>

fun store_venues :: "(nat \<Rightarrow> timespec) \<Rightarrow> instrument_bbo \<Rightarrow> nat \<Rightarrow> single_bbo list \<Rightarrow> nat \<Rightarrow>
    (bool \<times> single_bbo list \<times> nat) option" where
  "store_venues clk q 0 bs t = Some (False, bs, t)"
| "store_venues clk q (Suc n) [] t = None"
| "store_venues clk q (Suc n) (b # bs) t =
     (if venue_id b \<noteq> NULL_VENUE_ID \<and> venue_id b = bid_venue_id q \<and> venue_id b = ask_venue_id q
      then Some (True, b\<lparr>bid_price := ib_bid_price q, ask_price := ib_ask_price q,
             bid_size := ib_bid_size q, ask_size := ib_ask_size q, last_update := clk t\<rparr> # bs, t + 1)
      else do { (f, bs', t') \<leftarrow> store_venues clk q n bs t; Some (f, b # bs', t') })"

fun store_instruments :: "(nat \<Rightarrow> timespec) \<Rightarrow> instrument_bbo \<Rightarrow> nat \<Rightarrow> nat \<Rightarrow> instrument_info list \<Rightarrow> nat \<Rightarrow>
    (bool \<times> bool \<times> instrument_info list \<times> nat) option" where
  "store_instruments clk q vc 0 is t = Some (False, False, is, t)"
| "store_instruments clk q vc (Suc n) [] t = None"
| "store_instruments clk q vc (Suc n) (i # is) t =
     (if STRCMP8 (ib_symbol q) (symbol i)
      then do { (fv, vs, t1) \<leftarrow> store_venues clk q vc (venues i) t;
                (fs, fv', is', t2) \<leftarrow> store_instruments clk q vc n is t1;
                Some (True, fv \<or> fv', i\<lparr>venues := vs\<rparr> # is', t2) }
      else do { (fs, fv, is', t1) \<leftarrow> store_instruments clk q vc n is t;
                Some (fs, fv, i # is', t1) })"

text \<open>The second loop, over the venues of one instrument: time out, then take the better prices.\<close>

definition take_better :: "single_bbo \<Rightarrow> instrument_bbo \<Rightarrow> instrument_bbo" where
  "take_better b m = (let
     m1 = (if bid_price b > ib_bid_price m
           then m\<lparr>ib_bid_price := bid_price b, bid_venue_id := venue_id b, ib_bid_size := bid_size b\<rparr> else m)
   in if ask_price b < ib_ask_price m1
      then m1\<lparr>ib_ask_price := ask_price b, ask_venue_id := venue_id b, ib_ask_size := ask_size b\<rparr> else m1)"

definition check_timeout :: "timespec \<Rightarrow> single_bbo \<Rightarrow> single_bbo option" where
  "check_timeout now b = do {
     w \<leftarrow> timespec_delta_millis (last_update b) now;
     Some (if sint w > UPDATE_TIMEOUT_MILLIS then instrument_reset b else b) }"

fun collect_venues :: "(nat \<Rightarrow> timespec) \<Rightarrow> nat \<Rightarrow> single_bbo list \<Rightarrow> instrument_bbo \<Rightarrow> nat \<Rightarrow>
    (single_bbo list \<times> instrument_bbo \<times> nat) option" where
  "collect_venues clk 0 bs m t = Some (bs, m, t)"
| "collect_venues clk (Suc n) [] m t = None"
| "collect_venues clk (Suc n) (b # bs) m t = do {
     (b', t1) \<leftarrow> (if venue_id b \<noteq> NULL_VENUE_ID
        then map_option (\<lambda>b'. (b', t + 1)) (check_timeout (clk t) b) else Some (b, t));
     (bs', m', t') \<leftarrow> collect_venues clk n bs (take_better b' m) t1;
     Some (b' # bs', m', t') }"

fun collect_instruments :: "(nat \<Rightarrow> timespec) \<Rightarrow> (bbo_msg \<Rightarrow> nat) \<Rightarrow> string \<Rightarrow> nat \<Rightarrow> instrument_info list \<Rightarrow>
    instrument_bbo \<Rightarrow> agg \<Rightarrow> (broadcast list \<times> instrument_info list \<times> agg) option" where
  "collect_instruments clk bsz s 0 is m a = Some ([], is, a)"
| "collect_instruments clk bsz s (Suc n) [] m a = None"
| "collect_instruments clk bsz s (Suc n) (i # is) m a =
     (if strncmp_eq SYMBOL_LEN s (symbol i)
      then do { (vs, m', t) \<leftarrow> collect_venues clk (VENUE_COUNT a) (venues i) m (clock_reads a);
                let (out, a1) = broadcastBBO bsz m' (a\<lparr>clock_reads := t\<rparr>);
                (out', is', a2) \<leftarrow> collect_instruments clk bsz s n is m' a1;
                Some (out @ out', i\<lparr>venues := vs\<rparr> # is', a2) }
      else do { (out, is', a') \<leftarrow> collect_instruments clk bsz s n is m a; Some (out, i # is', a') })"

definition updateOrderBooks :: "(nat \<Rightarrow> timespec) \<Rightarrow> (bbo_msg \<Rightarrow> nat) \<Rightarrow> nat \<Rightarrow> instrument_bbo \<Rightarrow> agg \<Rightarrow>
    (broadcast list \<times> agg) option" where
  "updateOrderBooks clk bsz n q a = do {
     (fs, fv, is, t) \<leftarrow> store_instruments clk q (VENUE_COUNT a) n (instruments a) (clock_reads a);
     let a1 = a\<lparr>instruments := is, clock_reads := t\<rparr>;
     (if \<not> fs then Some ([], a1)
      else if \<not> fv then Some ([], a1)
      else do {
        (out, is', a2) \<leftarrow> collect_instruments clk bsz (ib_symbol q) n is InstrumentBBO_init a1;
        Some (out, a2\<lparr>instruments := is'\<rparr>) }) }"

text \<open>One turn of \<^verbatim>\<open>run\<close>; the two time stamps of the local quote are never set nor read.\<close>

definition agg_receive :: "(nat \<Rightarrow> timespec) \<Rightarrow> (bbo_msg \<Rightarrow> nat) \<Rightarrow> nat \<Rightarrow> bbo_msg \<Rightarrow> agg \<Rightarrow>
    (broadcast list \<times> agg) option" where
  "agg_receive clk bsz n p a = do {
     s \<leftarrow> STRCPY8 (m_symbol p);
     updateOrderBooks clk bsz n
       \<lparr>ib_symbol = s, bid_venue_id = m_bid_venue_id p, ib_bid_price = m_bid_price p, ib_bid_size = m_bid_size p,
        bid_last_update = zero_timespec, ask_venue_id = m_ask_venue_id p, ib_ask_price = m_ask_price p,
        ib_ask_size = m_ask_size p, ask_last_update = zero_timespec\<rparr> a }"

fun agg_loop :: "(nat \<Rightarrow> timespec) \<Rightarrow> (bbo_msg \<Rightarrow> nat) \<Rightarrow> nat \<Rightarrow> bbo_msg list \<Rightarrow> agg \<Rightarrow>
    (broadcast list \<times> agg) option" where
  "agg_loop clk bsz n [] a = Some ([], a)"
| "agg_loop clk bsz n (p # ps) a = do {
     (out, a1) \<leftarrow> agg_receive clk bsz n p a;
     (out', a2) \<leftarrow> agg_loop clk bsz n ps a1;
     Some (out @ out', a2) }"

text \<open>
  \<^verbatim>\<open>run\<close> of the aggregator creates its own socket \<^verbatim>\<open>_bcast_sock\<close> and then asserts the
  global one. \<open>asserts\<close> is whether assertions are compiled in; the Makefile leaves them out.
\<close>

definition agg_run :: "bool \<Rightarrow> (nat \<Rightarrow> timespec) \<Rightarrow> (bbo_msg \<Rightarrow> nat) \<Rightarrow> nat \<Rightarrow> bbo_msg list \<Rightarrow> agg \<Rightarrow>
    (broadcast list \<times> agg) option" where
  "agg_run asserts clk bsz n ps a =
     (if asserts \<and> \<not> bcast_sock a then None else agg_loop clk bsz n ps a)"

text \<open>
  \<^verbatim>\<open>run\<close> of a listener: it sets an option of the global socket and binds it, which is undefined on
  the null pointer (\<open>None\<close>); when the bind fails the exception ends the thread. Then it connects to its
  address and forwards every frame, with whether more frames follow, to the aggregator.
\<close>

definition listener_run :: "bool \<Rightarrow> string \<Rightarrow> (string \<times> bool) list \<Rightarrow> agg \<Rightarrow> (string list \<times> (string \<times> bool) list) option" where
  "listener_run bind_ok addr frames a =
     (if \<not> bcast_sock a then None else if \<not> bind_ok then Some ([], []) else Some ([addr], frames))"

end
