(* ===== verification/AggBookCorrect.thy ===== *)
theory AggBookCorrect
  imports AggBook
begin

text \<open>
  The aggregated book against its contract: a table of the last quote of each symbol and venue with
  its time. Every update of a known symbol and venue broadcasts the best bid and ask over the
  quotes that are at most five seconds old when they are looked at (\<open>agg_run_refines\<close>), in a
  message that does not say which symbol it is about (\<open>agg_broadcast_anonymous\<close>).
\<close>

section \<open>The table of last quotes\<close>

definition key8 :: "string \<Rightarrow> string" where
  "key8 s = take 8 (s @ [NUL])"

definition sym_ok :: "string \<Rightarrow> bool" where
  "sym_ok s \<longleftrightarrow> 7 \<le> length s \<and> NUL \<notin> set s"

definition clk_ok :: "(nat \<Rightarrow> timespec) \<Rightarrow> bool" where
  "clk_ok clk \<longleftrightarrow> (\<forall>i. ts_ok (clk i)) \<and> (\<forall>i j. i \<le> j \<longrightarrow> total_nanos (clk i) \<le> total_nanos (clk j))"

type_synonym last_quotes = "uint32 \<Rightarrow> (bbo_msg \<times> timespec) option"

definition stale :: "timespec \<Rightarrow> timespec \<Rightarrow> bool" where
  "stale t now \<longleftrightarrow> 5000 < (total_micros now - total_micros t) div 1000"

text \<open>The quotes still fresh; the clock is read once per venue, from reading \<open>T\<close> on.\<close>

fun fresh :: "(nat \<Rightarrow> timespec) \<Rightarrow> last_quotes \<Rightarrow> uint32 list \<Rightarrow> nat \<Rightarrow> bbo_msg list" where
  "fresh clk f [] T = []"
| "fresh clk f (v # vs) T =
     (case f v of None \<Rightarrow> [] | Some (p, t) \<Rightarrow> if stale t (clk T) then [] else [p]) @ fresh clk f vs (T + 1)"

definition accepted :: "uint32 list \<Rightarrow> string list \<Rightarrow> bbo_msg \<Rightarrow> bool" where
  "accepted conf syms p \<longleftrightarrow> key8 (m_symbol p) \<in> key8 ` set syms \<and>
     m_bid_venue_id p = m_ask_venue_id p \<and> m_bid_venue_id p \<in> set conf"

fun expected :: "(nat \<Rightarrow> timespec) \<Rightarrow> uint32 list \<Rightarrow> string list \<Rightarrow> bbo_msg list \<Rightarrow> (string \<Rightarrow> last_quotes) \<Rightarrow> nat \<Rightarrow>
    bbo_msg list list" where
  "expected clk conf syms [] L T = []"
| "expected clk conf syms (p # ps) L T =
     (if accepted conf syms p
      then let k = key8 (m_symbol p); f = (L k)(m_bid_venue_id p \<mapsto> (p, clk T))
           in fresh clk f conf (T + 1) # expected clk conf syms ps (L(k := f)) (T + 1 + length conf)
      else expected clk conf syms ps L T)"

definition best_of :: "bbo_msg list \<Rightarrow> bbo_msg \<Rightarrow> bool" where
  "best_of ps m \<longleftrightarrow>
     m_bid_price m = Max (insert INIT_BID (m_bid_price ` set ps)) \<and>
     m_ask_price m = Min (insert INIT_ASK (m_ask_price ` set ps)) \<and>
     (if INIT_BID < m_bid_price m
      then \<exists>p \<in> set ps. m_bid_price p = m_bid_price m \<and> m_bid_venue_id p = m_bid_venue_id m \<and> m_bid_size p = m_bid_size m
      else m_bid_venue_id m = NULL_VENUE_ID \<and> m_bid_size m = - 1) \<and>
     (if m_ask_price m < INIT_ASK
      then \<exists>p \<in> set ps. m_ask_price p = m_ask_price m \<and> m_ask_venue_id p = m_ask_venue_id m \<and> m_ask_size p = m_ask_size m
      else m_ask_venue_id m = NULL_VENUE_ID \<and> m_ask_size m = - 1)"

section \<open>The fold over fresh quotes\<close>

definition merge_quote :: "bbo_msg \<Rightarrow> instrument_bbo \<Rightarrow> instrument_bbo" where
  "merge_quote p m = (let
     m1 = (if m_bid_price p > ib_bid_price m
           then m\<lparr>ib_bid_price := m_bid_price p, bid_venue_id := m_bid_venue_id p, ib_bid_size := m_bid_size p\<rparr> else m)
   in if m_ask_price p < ib_ask_price m1
      then m1\<lparr>ib_ask_price := m_ask_price p, ask_venue_id := m_ask_venue_id p, ib_ask_size := m_ask_size p\<rparr> else m1)"

text \<open>What a partial fold has found, over the quotes \<open>ps\<close> seen so far.\<close>

definition merged :: "bbo_msg list \<Rightarrow> instrument_bbo \<Rightarrow> bool" where
  "merged ps m \<longleftrightarrow> ib_symbol m = replicate 8 NUL \<and>
     ib_bid_price m = Max (insert INIT_BID (m_bid_price ` set ps)) \<and>
     ib_ask_price m = Min (insert INIT_ASK (m_ask_price ` set ps)) \<and>
     (if INIT_BID < ib_bid_price m
      then \<exists>p \<in> set ps. m_bid_price p = ib_bid_price m \<and> m_bid_venue_id p = bid_venue_id m \<and> m_bid_size p = ib_bid_size m
      else bid_venue_id m = NULL_VENUE_ID \<and> ib_bid_size m = - 1) \<and>
     (if ib_ask_price m < INIT_ASK
      then \<exists>p \<in> set ps. m_ask_price p = ib_ask_price m \<and> m_ask_venue_id p = ask_venue_id m \<and> m_ask_size p = ib_ask_size m
      else ask_venue_id m = NULL_VENUE_ID \<and> ib_ask_size m = - 1)"

lemma merged_init: "merged [] InstrumentBBO_init"
  by (simp add: merged_def InstrumentBBO_init_def SYMBOL_LEN_def INIT_SIZE_def)

lemma Max_insert_snoc: "finite A \<Longrightarrow> Max (insert (c :: rat) (insert x A)) = max x (Max (insert c A))"
  by (metis Max_insert finite_insert insert_commute insert_not_empty)

lemma Min_insert_snoc: "finite A \<Longrightarrow> Min (insert (c :: rat) (insert x A)) = min x (Min (insert c A))"
  by (metis Min_insert finite_insert insert_commute insert_not_empty)

lemma init_bid_le: "finite A \<Longrightarrow> INIT_BID \<le> Max (insert INIT_BID A)" by simp
lemma init_ask_ge: "finite A \<Longrightarrow> Min (insert INIT_ASK A) \<le> INIT_ASK" by simp

text \<open>One side of the fold: the price, with the venue and the size of the quote that has it.\<close>

definition found :: "rat \<Rightarrow> rat \<Rightarrow> (uint32 \<times> dbl) \<Rightarrow> (rat \<times> uint32 \<times> dbl) set \<Rightarrow> bool" where
  "found i x vs Q \<longleftrightarrow> (if x \<noteq> i then (x, vs) \<in> Q else vs = (NULL_VENUE_ID, - 1))"

lemma found_keep: "found i x vs Q \<Longrightarrow> found i x vs (insert q Q)"
  by (auto simp: found_def split: if_splits)

lemma found_new: "x \<noteq> i \<Longrightarrow> found i x vs (insert (x, vs) Q)"
  by (simp add: found_def)

abbreviation bid_set :: "bbo_msg list \<Rightarrow> (rat \<times> uint32 \<times> dbl) set" where
  "bid_set ps \<equiv> (\<lambda>p. (m_bid_price p, m_bid_venue_id p, m_bid_size p)) ` set ps"

abbreviation ask_set :: "bbo_msg list \<Rightarrow> (rat \<times> uint32 \<times> dbl) set" where
  "ask_set ps \<equiv> (\<lambda>p. (m_ask_price p, m_ask_venue_id p, m_ask_size p)) ` set ps"

lemma merged_alt:
  "merged ps m \<longleftrightarrow> ib_symbol m = replicate 8 NUL \<and>
     ib_bid_price m = Max (insert INIT_BID (m_bid_price ` set ps)) \<and>
     ib_ask_price m = Min (insert INIT_ASK (m_ask_price ` set ps)) \<and>
     found INIT_BID (ib_bid_price m) (bid_venue_id m, ib_bid_size m) (bid_set ps) \<and>
     found INIT_ASK (ib_ask_price m) (ask_venue_id m, ib_ask_size m) (ask_set ps)"
proof -
  have b: "INIT_BID < Max (insert INIT_BID (m_bid_price ` set ps)) \<longleftrightarrow> Max (insert INIT_BID (m_bid_price ` set ps)) \<noteq> INIT_BID"
    unfolding less_le using init_bid_le [OF finite_imageI [OF finite_set], of m_bid_price ps] by auto
  have a: "Min (insert INIT_ASK (m_ask_price ` set ps)) < INIT_ASK \<longleftrightarrow> Min (insert INIT_ASK (m_ask_price ` set ps)) \<noteq> INIT_ASK"
    unfolding less_le using init_ask_ge [OF finite_imageI [OF finite_set], of m_ask_price ps] by auto
  have e: "(y, v, z) \<in> bid_set ps \<longleftrightarrow> (\<exists>p \<in> set ps. m_bid_price p = y \<and> m_bid_venue_id p = v \<and> m_bid_size p = z)"
    "(y, v, z) \<in> ask_set ps \<longleftrightarrow> (\<exists>p \<in> set ps. m_ask_price p = y \<and> m_ask_venue_id p = v \<and> m_ask_size p = z)" for y v z
    by blast+
  show ?thesis
  proof (cases "ib_bid_price m = Max (insert INIT_BID (m_bid_price ` set ps)) \<and>
      ib_ask_price m = Min (insert INIT_ASK (m_ask_price ` set ps))")
    case True
    then have "INIT_BID < ib_bid_price m \<longleftrightarrow> ib_bid_price m \<noteq> INIT_BID" "ib_ask_price m < INIT_ASK \<longleftrightarrow> ib_ask_price m \<noteq> INIT_ASK"
      using a b by simp_all
    then show ?thesis unfolding merged_def found_def e prod.inject by simp
  qed (auto simp: merged_def)
qed

lemma merged_step:
  assumes "merged ps m"
  shows "merged (ps @ [p]) (merge_quote p m)"
proof -
  let ?B = "ib_bid_price m" and ?A = "ib_ask_price m"
  have m: "ib_symbol m = replicate 8 NUL" "?B = Max (insert INIT_BID (m_bid_price ` set ps))"
    "?A = Min (insert INIT_ASK (m_ask_price ` set ps))"
    "found INIT_BID ?B (bid_venue_id m, ib_bid_size m) (bid_set ps)"
    "found INIT_ASK ?A (ask_venue_id m, ib_ask_size m) (ask_set ps)"
    using iffD1 [OF merged_alt assms] by blast+
  have b: "INIT_BID \<le> ?B" and a: "?A \<le> INIT_ASK" using m(2,3) by simp_all
  have s: "set (ps @ [p]) = insert p (set ps)" by simp
  have M: "Max (insert INIT_BID (m_bid_price ` set (ps @ [p]))) = max (m_bid_price p) ?B"
    "Min (insert INIT_ASK (m_ask_price ` set (ps @ [p]))) = min (m_ask_price p) ?A"
    unfolding s image_insert m(2,3) by (simp_all only: Max_insert_snoc Min_insert_snoc finite_imageI finite_set)
  have S: "bid_set (ps @ [p]) = insert (m_bid_price p, m_bid_venue_id p, m_bid_size p) (bid_set ps)"
    "ask_set (ps @ [p]) = insert (m_ask_price p, m_ask_venue_id p, m_ask_size p) (ask_set ps)"
    by simp_all
  show ?thesis
    unfolding merged_alt M S merge_quote_def Let_def
    using m(1) found_keep [OF m(4)] found_keep [OF m(5)] b a
      found_new [of "m_bid_price p" INIT_BID "(m_bid_venue_id p, m_bid_size p)" "bid_set ps"]
      found_new [of "m_ask_price p" INIT_ASK "(m_ask_venue_id p, m_ask_size p)" "ask_set ps"]
    by (simp add: max_def min_def not_less)
qed

lemma merged_fold: "merged qs m \<Longrightarrow> merged (qs @ ps) (fold merge_quote ps m)"
proof (induction ps arbitrary: qs m)
  case (Cons p ps)
  show ?case using Cons.IH [OF merged_step [OF Cons.prems, of p]] by simp
qed simp

section \<open>One venue\<close>

lemma list_all2_mono_strong:
  assumes "list_all2 P xs ys" "\<And>x y. x \<in> set xs \<Longrightarrow> P x y \<Longrightarrow> Q x y"
  shows "list_all2 Q xs ys"
  using assms by (auto simp: list_all2_conv_all_nth)

definition holds_quote :: "bbo_msg \<Rightarrow> single_bbo \<Rightarrow> bool" where
  "holds_quote p b \<longleftrightarrow> bid_price b = m_bid_price p \<and> ask_price b = m_ask_price p \<and>
     bid_size b = m_bid_size p \<and> ask_size b = m_ask_size p"

definition brel :: "(nat \<Rightarrow> timespec) \<Rightarrow> last_quotes \<Rightarrow> nat \<Rightarrow> uint32 \<Rightarrow> single_bbo \<Rightarrow> bool" where
  "brel clk f T v b \<longleftrightarrow> venue_id b = v \<and>
     (case f v of
        None \<Rightarrow> instrument_is_unset b \<and> last_update b = zero_timespec
      | Some (p, t) \<Rightarrow> last_update b = t \<and> (\<exists>T0 < T. t = clk T0) \<and> m_bid_venue_id p = v \<and> m_ask_venue_id p = v \<and>
          (holds_quote p b \<or> instrument_is_unset b \<and> (\<exists>T1 < T. stale t (clk T1))))"

lemma brel_mono: "brel clk f T v b \<Longrightarrow> T \<le> T' \<Longrightarrow> brel clk f T' v b"
  by (force simp: brel_def split: option.splits)

lemma brel_cong: "f v = g v \<Longrightarrow> brel clk f T v b = brel clk g T v b"
  by (simp add: brel_def)

lemma stale_mono:
  assumes "clk_ok clk" "i \<le> j" "stale t (clk i)"
  shows "stale t (clk j)"
proof -
  have "total_micros (clk i) \<le> total_micros (clk j)"
    using assms(1,2) by (simp add: clk_ok_def total_micros_def zdiv_mono1)
  then have "(total_micros (clk i) - total_micros t) div 1000 \<le> (total_micros (clk j) - total_micros t) div 1000"
    by (intro zdiv_mono1) auto
  then show ?thesis using assms(3) by (simp add: stale_def)
qed

lemma zero_timespec_ok: "ts_ok zero_timespec" "ts_ok t \<Longrightarrow> total_nanos zero_timespec \<le> total_nanos t"
  by (simp_all add: ts_ok_def zero_timespec_def total_nanos_def)

lemma sint_small: "uint (w :: uint64) < 2 ^ 63 \<Longrightarrow> sint w = uint w"
proof -
  assume a: "uint w < 2 ^ 63"
  have "signed_take_bit 63 (uint w) = uint w"
  proof (rule signed_take_bit_int_eq_self)
    have "0 \<le> uint w" by simp
    then show "- (2 ^ 63) \<le> uint w" by (rule order_trans [rotated]) simp
  qed (rule a)
  then show ?thesis by (simp add: sint_uint)
qed

lemma check_timeout_eq:
  assumes "ts_ok (last_update b)" "ts_ok now" "total_nanos (last_update b) \<le> total_nanos now"
  shows "check_timeout now b = Some (if stale (last_update b) now then instrument_reset b else b)"
proof -
  obtain w where w: "timespec_delta_millis (last_update b) now = Some w"
    "uint w = (total_micros now - total_micros (last_update b)) div 1000"
    using delta_millis_forward [OF assms] by blast
  have "(total_micros now - total_micros (last_update b)) div 1000 \<le> 2 ^ 62 div 1000"
    using total_micros_range [OF assms(1)] total_micros_range [OF assms(2)] by (intro zdiv_mono1) auto
  then have "uint w < 2 ^ 63" by (simp add: w)
  then have "sint w = uint w" by (rule sint_small)
  then show ?thesis by (simp add: check_timeout_def w stale_def UPDATE_TIMEOUT_MILLIS_def)
qed

lemma unset_reset: "instrument_is_unset (instrument_reset b)" "venue_id (instrument_reset b) = venue_id b"
  "last_update (instrument_reset b) = last_update b" "instrument_is_unset b \<Longrightarrow> instrument_reset b = b"
  by (simp_all add: instrument_is_unset_def instrument_reset_def)

lemma brel_timeout:
  assumes "clk_ok clk" "brel clk f T v b"
  obtains b' where "check_timeout (clk T) b = Some b'" "brel clk f (T + 1) v b'"
    "case f v of None \<Rightarrow> instrument_is_unset b'
       | Some (p, t) \<Rightarrow> if stale t (clk T) then instrument_is_unset b' else holds_quote p b'"
proof -
  have now: "ts_ok (clk T)" using assms(1) by (simp add: clk_ok_def)
  show thesis
  proof (cases "f v")
    case None
    then have b: "instrument_is_unset b" "last_update b = zero_timespec" using assms(2) by (simp_all add: brel_def)
    have "check_timeout (clk T) b = Some b"
      using check_timeout_eq [of b "clk T"] b now by (simp add: zero_timespec_ok unset_reset)
    then show thesis using that [of b] None b brel_mono [OF assms(2), of "T + 1"] by simp
  next
    case (Some pt)
    obtain p t where pt: "pt = (p, t)" by fastforce
    obtain T0 where t: "last_update b = t" "T0 < T" "t = clk T0" "venue_id b = v" "m_bid_venue_id p = v" "m_ask_venue_id p = v"
      and h: "holds_quote p b \<or> instrument_is_unset b \<and> (\<exists>T1 < T. stale t (clk T1))"
      using assms(2) unfolding brel_def Some pt option.case prod.case by blast
    have c: "check_timeout (clk T) b = Some (if stale t (clk T) then instrument_reset b else b)"
      using check_timeout_eq [of b "clk T"] assms(1) now t by (simp add: clk_ok_def)
    have T0: "T0 < T + 1" using t(2) by simp
    show thesis
    proof (cases "stale t (clk T)")
      case True
      have "\<exists>T1 < T + 1. stale t (clk T1)" using True by (intro exI [of _ T]) simp
      then have "brel clk f (T + 1) v (instrument_reset b)"
        unfolding brel_def Some pt option.case prod.case using t T0 unset_reset by metis
      then show thesis using that [of "instrument_reset b"] c t(1) True Some pt by (simp add: unset_reset)
    next
      case False
      have "holds_quote p b"
      proof (rule ccontr)
        assume "\<not> holds_quote p b"
        then obtain T1 where "T1 < T" "stale t (clk T1)" using h by blast
        then show False using stale_mono [OF assms(1), of T1 T t] False by simp
      qed
      then show thesis
        using that [of b] c t(1) False Some pt brel_mono [OF assms(2), of "T + 1"] by simp
    qed
  qed
qed

lemma take_better_unset:
  assumes "instrument_is_unset b" "merged ps m"
  shows "take_better b m = m"
proof -
  have "INIT_BID \<le> ib_bid_price m" "ib_ask_price m \<le> INIT_ASK" using assms(2) by (simp_all add: merged_def)
  then show ?thesis using assms(1) by (auto simp: take_better_def instrument_is_unset_def)
qed

lemma take_better_quote:
  "holds_quote p b \<Longrightarrow> venue_id b = v \<Longrightarrow> m_bid_venue_id p = v \<Longrightarrow> m_ask_venue_id p = v \<Longrightarrow>
   take_better b m = merge_quote p m"
  by (simp add: take_better_def merge_quote_def holds_quote_def)

lemma collect_venues_ok:
  "clk_ok clk \<Longrightarrow> list_all2 (brel clk f T) conf bs \<Longrightarrow> 0 \<notin> set conf \<Longrightarrow> merged ps m \<Longrightarrow>
   \<exists>bs'. collect_venues clk (length conf) (bs @ rest) m T
       = Some (bs' @ rest, fold merge_quote (fresh clk f conf T) m, T + length conf) \<and>
     list_all2 (brel clk f (T + length conf)) conf bs'"
proof (induction conf arbitrary: bs T m ps)
  case (Cons v conf)
  obtain b bs1 where bs: "bs = b # bs1" "brel clk f T v b" "list_all2 (brel clk f T) conf bs1"
    using Cons.prems(2) by (auto simp: list_all2_Cons1)
  obtain b' where b': "check_timeout (clk T) b = Some b'" "brel clk f (T + 1) v b'"
    "case f v of None \<Rightarrow> instrument_is_unset b'
       | Some (p, t) \<Rightarrow> if stale t (clk T) then instrument_is_unset b' else holds_quote p b'"
    by (rule brel_timeout [OF Cons.prems(1) bs(2)])
  have v: "venue_id b = v" "v \<noteq> 0" using bs(2) Cons.prems(3) by (auto simp: brel_def)
  let ?now = "(case f v of None \<Rightarrow> [] | Some (p, t) \<Rightarrow> if stale t (clk T) then [] else [p])"
  have tb: "take_better b' m = fold merge_quote ?now m"
    using b'(2,3) take_better_unset [OF _ Cons.prems(4), of b']
    by (auto simp: brel_def take_better_quote split: option.splits if_splits)
  have "merged (ps @ ?now) (take_better b' m)" unfolding tb by (rule merged_fold [OF Cons.prems(4)])
  moreover have "list_all2 (brel clk f (T + 1)) conf bs1"
    using bs(3) by (rule list_all2_mono) (auto intro: brel_mono)
  ultimately obtain bs' where IH:
    "collect_venues clk (length conf) (bs1 @ rest) (take_better b' m) (T + 1)
       = Some (bs' @ rest, fold merge_quote (fresh clk f conf (T + 1)) (take_better b' m), T + 1 + length conf)"
    "list_all2 (brel clk f (T + 1 + length conf)) conf bs'"
    using Cons.IH [of "T + 1" bs1] Cons.prems(1,3) by auto
  have "collect_venues clk (length (v # conf)) (bs @ rest) m T
      = Some ((b' # bs') @ rest, fold merge_quote (fresh clk f (v # conf) T) m, T + length (v # conf))"
    using IH(1) v by (simp add: bs b'(1) tb NULL_VENUE_ID_def)
  moreover have "brel clk f (T + length (v # conf)) v b'" by (rule brel_mono [OF b'(2)]) simp
  ultimately show ?case using IH(2) by auto
qed simp

lemma store_venues_hit:
  "list_all2 (brel clk f T) conf bs \<Longrightarrow> 0 \<notin> set conf \<Longrightarrow> distinct conf \<Longrightarrow> w \<in> set conf \<Longrightarrow>
   bid_venue_id q = w \<Longrightarrow> ask_venue_id q = w \<Longrightarrow> m_bid_venue_id p = w \<Longrightarrow> m_ask_venue_id p = w \<Longrightarrow>
   ib_bid_price q = m_bid_price p \<Longrightarrow> ib_ask_price q = m_ask_price p \<Longrightarrow>
   ib_bid_size q = m_bid_size p \<Longrightarrow> ib_ask_size q = m_ask_size p \<Longrightarrow>
   g w = Some (p, clk T) \<Longrightarrow> (\<And>x. x \<noteq> w \<Longrightarrow> g x = f x) \<Longrightarrow>
   \<exists>bs'. store_venues clk q (length conf) (bs @ rest) T = Some (True, bs' @ rest, T + 1) \<and>
     list_all2 (brel clk g (T + 1)) conf bs'"
proof (induction conf arbitrary: bs)
  case (Cons v conf)
  obtain b bs1 where bs: "bs = b # bs1" "brel clk f T v b" "list_all2 (brel clk f T) conf bs1"
    using Cons.prems(1) by (auto simp: list_all2_Cons1)
  have v: "venue_id b = v" "v \<noteq> 0" using bs(2) Cons.prems(2) by (auto simp: brel_def)
  show ?case
  proof (cases "v = w")
    case True
    let ?b = "b\<lparr>bid_price := ib_bid_price q, ask_price := ib_ask_price q, bid_size := ib_bid_size q,
      ask_size := ib_ask_size q, last_update := clk T\<rparr>"
    have "brel clk g (T + 1) v ?b"
      using Cons.prems True v by (auto simp: brel_def holds_quote_def)
    moreover have "list_all2 (brel clk g (T + 1)) conf bs1"
    proof (rule list_all2_mono_strong [OF bs(3)])
      fix x y assume xy: "x \<in> set conf" "brel clk f T x y"
      have "x \<noteq> w" using xy(1) Cons.prems(3) True by auto
      with xy have "brel clk g T x y" using Cons.prems(3) True brel_cong [of f x g clk T y] Cons.prems(14) by auto
      then show "brel clk g (T + 1) x y" by (rule brel_mono) simp
    qed
    ultimately show ?thesis using True v Cons.prems
      by (intro exI [of _ "?b # bs1"]) (simp add: bs NULL_VENUE_ID_def)
  next
    case False
    then obtain bs' where IH: "store_venues clk q (length conf) (bs1 @ rest) T = Some (True, bs' @ rest, T + 1)"
      "list_all2 (brel clk g (T + 1)) conf bs'"
      using Cons.IH [OF bs(3)] Cons.prems by (auto simp del: fun_upd_apply)
    have "brel clk g T v b" using bs(2) False brel_cong [of f v g clk T b] Cons.prems(14) by auto
    then have "brel clk g (T + 1) v b" by (rule brel_mono) simp
    then show ?thesis using IH False v Cons.prems
      by (intro exI [of _ "b # bs'"]) (simp add: bs NULL_VENUE_ID_def)
  qed
qed simp

lemma store_venues_miss:
  "list_all2 (brel clk f T) conf bs \<Longrightarrow> bid_venue_id q \<noteq> ask_venue_id q \<or> bid_venue_id q \<notin> set conf \<Longrightarrow>
   store_venues clk q (length conf) (bs @ rest) T = Some (False, bs @ rest, T)"
  by (induction conf arbitrary: bs) (auto simp: list_all2_Cons1 brel_def)

section \<open>All instruments\<close>

definition irel :: "(nat \<Rightarrow> timespec) \<Rightarrow> uint32 list \<Rightarrow> (string \<Rightarrow> last_quotes) \<Rightarrow> nat \<Rightarrow> string \<Rightarrow> instrument_info \<Rightarrow> bool" where
  "irel clk conf L T s i \<longleftrightarrow> symbol i = key8 s \<and>
     (\<exists>bs rest. venues i = bs @ rest \<and> list_all2 (brel clk (L (key8 s)) T) conf bs)"

lemma irel_mono:
  assumes "irel clk conf L T s i" "T \<le> T'" "L (key8 s) = L' (key8 s)"
  shows "irel clk conf L' T' s i"
proof -
  obtain bs rest where v: "venues i = bs @ rest" "list_all2 (brel clk (L (key8 s)) T) conf bs" "symbol i = key8 s"
    using assms(1) by (auto simp: irel_def)
  have "list_all2 (brel clk (L' (key8 s)) T') conf bs"
    using v(2) by (rule list_all2_mono_strong) (use assms(2,3) in \<open>auto intro: brel_mono\<close>)
  then show ?thesis using v by (auto simp: irel_def)
qed

lemma irel_mono_list:
  assumes "list_all2 (irel clk conf L T) ss is" "T \<le> T'" "\<And>s. s \<in> set ss \<Longrightarrow> L (key8 s) = L' (key8 s)"
  shows "list_all2 (irel clk conf L' T') ss is"
  using assms(1) by (rule list_all2_mono_strong) (auto intro: irel_mono assms(2,3))

lemma key8_length: "sym_ok s \<Longrightarrow> length (key8 s) = 8"
  by (auto simp: key8_def sym_ok_def)

lemma STRCMP8_eq: "length a = 8 \<Longrightarrow> length b = 8 \<Longrightarrow> STRCMP8 a b \<longleftrightarrow> a = b"
  by (auto simp: STRCMP8_def list_all_iff list_eq_iff_nth_eq)

lemma c_str_key8:
  assumes "sym_ok s"
  shows "key8 s = (if length (c_str (key8 s)) < 8 then c_str (key8 s) @ [NUL] else c_str (key8 s))"
proof -
  have n: "\<forall>c \<in> set s. c \<noteq> NUL" "7 \<le> length s" using assms by (auto simp: sym_ok_def)
  show ?thesis
  proof (cases "length s = 7")
    case True
    then have k: "key8 s = s @ [NUL]" by (simp add: key8_def)
    have "c_str (s @ [NUL]) = s" using n(1) unfolding c_str_def by (subst takeWhile_append2) auto
    then show ?thesis using True by (simp add: k)
  next
    case False
    then have k: "key8 s = take 8 s" "8 \<le> length s" using n(2) by (auto simp: key8_def)
    have "\<forall>c \<in> set (take 8 s). c \<noteq> NUL" using n(1) by (auto dest: in_set_takeD)
    then have "c_str (take 8 s) = take 8 s" by (simp add: c_str_def takeWhile_eq_all_conv)
    then show ?thesis using k by simp
  qed
qed

lemma strncmp_key8: "sym_ok a \<Longrightarrow> sym_ok b \<Longrightarrow> strncmp_eq SYMBOL_LEN (key8 a) (key8 b) \<longleftrightarrow> key8 a = key8 b"
  using c_str_key8 [of a] c_str_key8 [of b]
  unfolding strncmp_eq_def SYMBOL_LEN_def by (metis key8_length order_refl take_all)

text \<open>The stored quote, and the parsed message it comes from.\<close>

definition quote_of :: "bbo_msg \<Rightarrow> instrument_bbo" where
  "quote_of p = \<lparr>ib_symbol = key8 (m_symbol p), bid_venue_id = m_bid_venue_id p, ib_bid_price = m_bid_price p,
     ib_bid_size = m_bid_size p, bid_last_update = zero_timespec, ask_venue_id = m_ask_venue_id p,
     ib_ask_price = m_ask_price p, ib_ask_size = m_ask_size p, ask_last_update = zero_timespec\<rparr>"

lemma store_instruments_other:
  "list_all2 (irel clk conf L T) ss is \<Longrightarrow> sym_ok (m_symbol p) \<Longrightarrow> \<forall>s \<in> set ss. sym_ok s \<Longrightarrow>
   key8 (m_symbol p) \<notin> key8 ` set ss \<Longrightarrow>
   store_instruments clk (quote_of p) vc (length ss) (is @ rest) t = Some (False, False, is @ rest, t)"
  by (induction ss arbitrary: "is") (auto simp: list_all2_Cons1 irel_def quote_of_def STRCMP8_eq key8_length)

lemma quote_cmp:
  assumes "sym_ok (m_symbol p)" "sym_ok s" "irel clk conf L T s i"
  shows "STRCMP8 (ib_symbol (quote_of p)) (symbol i) \<longleftrightarrow> key8 (m_symbol p) = key8 s"
  using assms by (simp add: quote_of_def STRCMP8_eq key8_length irel_def)

lemma store_instruments_miss:
  "list_all2 (irel clk conf L T) ss is \<Longrightarrow> sym_ok (m_symbol p) \<Longrightarrow> \<forall>s \<in> set ss. sym_ok s \<Longrightarrow>
   distinct (map key8 ss) \<Longrightarrow> key8 (m_symbol p) \<in> key8 ` set ss \<Longrightarrow>
   m_bid_venue_id p \<noteq> m_ask_venue_id p \<or> m_bid_venue_id p \<notin> set conf \<Longrightarrow>
   store_instruments clk (quote_of p) (length conf) (length ss) (is @ rest) T = Some (True, False, is @ rest, T)"
proof (induction ss arbitrary: "is")
  case (Cons s ss)
  obtain i is1 where i: "is = i # is1" "irel clk conf L T s i" "list_all2 (irel clk conf L T) ss is1"
    using Cons.prems(1) by (auto simp: list_all2_Cons1)
  obtain bs r where v: "venues i = bs @ r" "list_all2 (brel clk (L (key8 s)) T) conf bs"
    using i(2) by (auto simp: irel_def)
  have cmp: "STRCMP8 (ib_symbol (quote_of p)) (symbol i) \<longleftrightarrow> key8 (m_symbol p) = key8 s"
    by (rule quote_cmp [OF Cons.prems(2) _ i(2)]) (use Cons.prems(3) in simp)
  have sv: "store_venues clk (quote_of p) (length conf) (bs @ r) T = Some (False, bs @ r, T)"
    using Cons.prems(6) by (intro store_venues_miss [OF v(2)]) (auto simp: quote_of_def)
  show ?case
  proof (cases "key8 (m_symbol p) = key8 s")
    case True
    have "store_instruments clk (quote_of p) (length conf) (length ss) (is1 @ rest) T = Some (False, False, is1 @ rest, T)"
      by (rule store_instruments_other [OF i(3) Cons.prems(2)]) (use Cons.prems(3,4) True in auto)
    then show ?thesis using cmp True sv v(1) by (simp add: i(1))
  next
    case False
    then have "key8 (m_symbol p) \<in> key8 ` set ss" using Cons.prems(5) by auto
    then show ?thesis using Cons.IH [OF i(3) Cons.prems(2)] Cons.prems(3,4,6) cmp False by (simp add: i(1))
  qed
qed simp

lemma store_instruments_hit:
  assumes "sym_ok (m_symbol p)" "0 \<notin> set conf" "distinct conf"
    "m_bid_venue_id p = m_ask_venue_id p" "m_bid_venue_id p \<in> set conf"
    and L': "\<And>k. k \<noteq> key8 (m_symbol p) \<Longrightarrow> L' k = L k"
      "L' (key8 (m_symbol p)) (m_bid_venue_id p) = Some (p, clk T)"
      "\<And>x. x \<noteq> m_bid_venue_id p \<Longrightarrow> L' (key8 (m_symbol p)) x = L (key8 (m_symbol p)) x"
  shows "list_all2 (irel clk conf L T) ss is \<Longrightarrow> \<forall>s \<in> set ss. sym_ok s \<Longrightarrow> distinct (map key8 ss) \<Longrightarrow>
    key8 (m_symbol p) \<in> key8 ` set ss \<Longrightarrow>
    \<exists>is'. store_instruments clk (quote_of p) (length conf) (length ss) (is @ rest) T = Some (True, True, is' @ rest, T + 1) \<and>
      list_all2 (irel clk conf L' (T + 1)) ss is'"
proof (induction ss arbitrary: "is")
  case (Cons s ss)
  let ?q = "quote_of p" and ?w = "m_bid_venue_id p"
  obtain i is1 where i: "is = i # is1" "irel clk conf L T s i" "list_all2 (irel clk conf L T) ss is1"
    using Cons.prems(1) by (auto simp: list_all2_Cons1)
  obtain bs r where v: "venues i = bs @ r" "list_all2 (brel clk (L (key8 s)) T) conf bs" "symbol i = key8 s"
    using i(2) by (auto simp: irel_def)
  have cmp: "STRCMP8 (ib_symbol ?q) (symbol i) \<longleftrightarrow> key8 (m_symbol p) = key8 s"
    by (rule quote_cmp [OF assms(1) _ i(2)]) (use Cons.prems(2) in simp)
  show ?case
  proof (cases "key8 (m_symbol p) = key8 s")
    case True
    have nin: "key8 (m_symbol p) \<notin> key8 ` set ss" using Cons.prems(3) True by auto
    have o: "store_instruments clk ?q (length conf) (length ss) (is1 @ rest) (T + 1) = Some (False, False, is1 @ rest, T + 1)"
      by (rule store_instruments_other [OF i(3) assms(1) _ nin]) (use Cons.prems(2) in simp)
    have "list_all2 (irel clk conf L' (T + 1)) ss is1"
      using i(3) by (rule irel_mono_list) (use nin L'(1) in \<open>auto simp: image_iff\<close>)
    moreover have q: "bid_venue_id ?q = ?w" "ask_venue_id ?q = ?w" "m_ask_venue_id p = ?w" "ib_bid_price ?q = m_bid_price p"
      "ib_ask_price ?q = m_ask_price p" "ib_bid_size ?q = m_bid_size p" "ib_ask_size ?q = m_ask_size p"
      using assms(4) by (simp_all add: quote_of_def)
    have l: "L' (key8 s) ?w = Some (p, clk T)" "\<And>x. x \<noteq> ?w \<Longrightarrow> L' (key8 s) x = L (key8 s) x"
      using L'(2,3) unfolding True by simp_all
    obtain bs' where b: "store_venues clk ?q (length conf) (bs @ r) T = Some (True, bs' @ r, T + 1)"
      "list_all2 (brel clk (L' (key8 s)) (T + 1)) conf bs'"
      using store_venues_hit [where rest = r, OF v(2) assms(2,3,5) q(1,2) refl q(3-7) l] by blast
    ultimately have "list_all2 (irel clk conf L' (T + 1)) (s # ss) (i\<lparr>venues := bs' @ r\<rparr> # is1)"
      using v(3) by (auto simp: irel_def)
    moreover have "store_instruments clk ?q (length conf) (length (s # ss)) (is @ rest) T
        = Some (True, True, (i\<lparr>venues := bs' @ r\<rparr> # is1) @ rest, T + 1)"
      using b(1) o cmp True v(1) by (simp add: i(1))
    ultimately show ?thesis by blast
  next
    case False
    have "key8 (m_symbol p) \<in> key8 ` set ss" using Cons.prems(4) False by auto
    then obtain is' where IH: "store_instruments clk ?q (length conf) (length ss) (is1 @ rest) T = Some (True, True, is' @ rest, T + 1)"
      "list_all2 (irel clk conf L' (T + 1)) ss is'"
      using Cons.IH [OF i(3)] Cons.prems(2,3) by auto
    have "irel clk conf L' (T + 1) s i"
      using irel_mono [OF i(2), of "T + 1" L'] False L'(1) [of "key8 s"] by auto
    then have "list_all2 (irel clk conf L' (T + 1)) (s # ss) (i # is')" using IH(2) by simp
    moreover have "store_instruments clk ?q (length conf) (length (s # ss)) (is @ rest) T = Some (True, True, (i # is') @ rest, T + 1)"
      using IH(1) cmp False by (simp add: i(1))
    ultimately show ?thesis by blast
  qed
qed simp

text \<open>The second loop broadcasts once, for the instrument of the symbol.\<close>

definition small_msgs :: "(bbo_msg \<Rightarrow> nat) \<Rightarrow> bool" where
  "small_msgs bsz \<longleftrightarrow> (\<forall>m. bsz m \<le> MSGBUF_SIZ)"

definition sent :: "instrument_bbo \<Rightarrow> uint32 \<Rightarrow> broadcast" where
  "sent m n = (replicate 8 NUL, \<lparr>m_symbol = [], m_bid_venue_id = bid_venue_id m, m_bid_price = ib_bid_price m,
     m_bid_size = ib_bid_size m, m_ask_venue_id = ask_venue_id m, m_ask_price = ib_ask_price m,
     m_ask_size = ib_ask_size m, m_sequence = n\<rparr>)"

lemma broadcastBBO_eq:
  "small_msgs bsz \<Longrightarrow> ib_symbol m = replicate 8 NUL \<Longrightarrow>
   broadcastBBO bsz m a = ([sent m (seq_num a)], a\<lparr>seq_num := seq_num a + 1\<rparr>)"
  by (simp add: broadcastBBO_def small_msgs_def sent_def Let_def SYMBOL_LEN_def c_str_def not_less numeral_eq_Suc)

lemma collect_instruments_other:
  "list_all2 (irel clk conf L T) ss is \<Longrightarrow> sym_ok s0 \<Longrightarrow> \<forall>s \<in> set ss. sym_ok s \<Longrightarrow> key8 s0 \<notin> key8 ` set ss \<Longrightarrow>
   collect_instruments clk bsz (key8 s0) (length ss) (is @ rest) m a = Some ([], is @ rest, a)"
  by (induction ss arbitrary: "is") (auto simp: list_all2_Cons1 irel_def strncmp_key8)

lemma collect_instruments_ok:
  assumes "clk_ok clk" "sym_ok s0" "0 \<notin> set conf" "small_msgs bsz" "VENUE_COUNT a = length conf" "clock_reads a = T"
  shows "list_all2 (irel clk conf L T) ss is \<Longrightarrow> \<forall>s \<in> set ss. sym_ok s \<Longrightarrow> distinct (map key8 ss) \<Longrightarrow>
    key8 s0 \<in> key8 ` set ss \<Longrightarrow>
    \<exists>is' m. merged (fresh clk (L (key8 s0)) conf T) m \<and>
      collect_instruments clk bsz (key8 s0) (length ss) (is @ rest) InstrumentBBO_init a
        = Some ([sent m (seq_num a)], is' @ rest, a\<lparr>clock_reads := T + length conf, seq_num := seq_num a + 1\<rparr>) \<and>
      list_all2 (irel clk conf L (T + length conf)) ss is'"
proof (induction ss arbitrary: "is")
  case (Cons s ss)
  obtain i is1 where i: "is = i # is1" "irel clk conf L T s i" "list_all2 (irel clk conf L T) ss is1"
    using Cons.prems(1) by (auto simp: list_all2_Cons1)
  obtain bs r where v: "venues i = bs @ r" "list_all2 (brel clk (L (key8 s)) T) conf bs" "symbol i = key8 s"
    using i(2) by (auto simp: irel_def)
  have cmp: "strncmp_eq SYMBOL_LEN (key8 s0) (symbol i) \<longleftrightarrow> key8 s0 = key8 s"
    using strncmp_key8 [OF assms(2), of s] Cons.prems(2) v(3) by simp
  show ?case
  proof (cases "key8 s0 = key8 s")
    case True
    define m where "m = fold merge_quote (fresh clk (L (key8 s)) conf T) InstrumentBBO_init"
    have m: "merged (fresh clk (L (key8 s0)) conf T) m"
      using merged_fold [OF merged_init] by (simp add: m_def True)
    obtain bs' where b: "collect_venues clk (length conf) (bs @ r) InstrumentBBO_init T = Some (bs' @ r, m, T + length conf)"
      "list_all2 (brel clk (L (key8 s)) (T + length conf)) conf bs'"
      using collect_venues_ok [OF assms(1) v(2) assms(3) merged_init] unfolding m_def by blast
    have bc: "broadcastBBO bsz m (a\<lparr>clock_reads := T + length conf\<rparr>)
        = ([sent m (seq_num a)], a\<lparr>clock_reads := T + length conf, seq_num := seq_num a + 1\<rparr>)"
      using broadcastBBO_eq [OF assms(4), of m "a\<lparr>clock_reads := T + length conf\<rparr>"] m by (simp add: merged_def)
    have "key8 s0 \<notin> key8 ` set ss" using Cons.prems(3) True by auto
    then have o: "collect_instruments clk bsz (key8 s0) (length ss) (is1 @ rest) m' a' = Some ([], is1 @ rest, a')" for m' a'
      using collect_instruments_other [OF i(3) assms(2)] Cons.prems(2) by simp
    have "collect_instruments clk bsz (key8 s0) (length (s # ss)) (is @ rest) InstrumentBBO_init a
        = Some ([sent m (seq_num a)], (i\<lparr>venues := bs' @ r\<rparr> # is1) @ rest, a\<lparr>clock_reads := T + length conf, seq_num := seq_num a + 1\<rparr>)"
      using b(1) bc o cmp True v(1) assms(5,6) by (simp add: i(1))
    moreover have "irel clk conf L (T + length conf) s (i\<lparr>venues := bs' @ r\<rparr>)"
      using b(2) v(3) by (auto simp: irel_def)
    moreover have "list_all2 (irel clk conf L (T + length conf)) ss is1"
      using i(3) by (rule irel_mono_list) simp_all
    ultimately show ?thesis using m by blast
  next
    case False
    then have "key8 s0 \<in> key8 ` set ss" using Cons.prems(4) by auto
    then obtain is' m where IH: "merged (fresh clk (L (key8 s0)) conf T) m"
      "collect_instruments clk bsz (key8 s0) (length ss) (is1 @ rest) InstrumentBBO_init a
        = Some ([sent m (seq_num a)], is' @ rest, a\<lparr>clock_reads := T + length conf, seq_num := seq_num a + 1\<rparr>)"
      "list_all2 (irel clk conf L (T + length conf)) ss is'"
      using Cons.IH [OF i(3)] Cons.prems(2,3) by auto
    have "collect_instruments clk bsz (key8 s0) (length (s # ss)) (is @ rest) InstrumentBBO_init a
        = Some ([sent m (seq_num a)], (i # is') @ rest, a\<lparr>clock_reads := T + length conf, seq_num := seq_num a + 1\<rparr>)"
      using IH(2) cmp False by (simp add: i(1))
    moreover have "irel clk conf L (T + length conf) s i" by (rule irel_mono [OF i(2)]) simp_all
    ultimately show ?thesis using IH(1,3) by (metis list_all2_Cons)
  qed
qed simp

section \<open>Runs\<close>

definition arel :: "(nat \<Rightarrow> timespec) \<Rightarrow> uint32 list \<Rightarrow> (string \<Rightarrow> last_quotes) \<Rightarrow> string list \<Rightarrow> agg \<Rightarrow> bool" where
  "arel clk conf L ss a \<longleftrightarrow> VENUE_COUNT a = length conf \<and>
     (\<exists>is rest. instruments a = is @ rest \<and> list_all2 (irel clk conf L (clock_reads a)) ss is)"

definition book_config :: "uint32 list \<Rightarrow> string list \<Rightarrow> bool" where
  "book_config conf ss \<longleftrightarrow> conf \<noteq> [] \<and> length conf \<le> 126 \<and> 0 \<notin> set conf \<and> distinct conf \<and>
     ss \<noteq> [] \<and> length ss < 500 \<and> (\<forall>s \<in> set ss. sym_ok s) \<and> distinct (map key8 ss)"

lemma agg_receive_eq:
  "sym_ok (m_symbol p) \<Longrightarrow> agg_receive clk bsz n p a = updateOrderBooks clk bsz n (quote_of p) a"
  by (auto simp: agg_receive_def STRCPY8_def sym_ok_def quote_of_def key8_def)

lemma receive_rejected:
  assumes "arel clk conf L ss a" "book_config conf ss" "sym_ok (m_symbol p)" "\<not> accepted conf ss p"
  shows "agg_receive clk bsz (length ss) p a = Some ([], a)"
proof -
  obtain "is" rest where i: "instruments a = is @ rest" "list_all2 (irel clk conf L (clock_reads a)) ss is"
    and vc: "VENUE_COUNT a = length conf" using assms(1) by (auto simp: arel_def)
  have c: "\<forall>s \<in> set ss. sym_ok s" "distinct (map key8 ss)" using assms(2) by (auto simp: book_config_def)
  have same: "a\<lparr>instruments := is @ rest, clock_reads := clock_reads a\<rparr> = a" using i(1) by simp
  show ?thesis
  proof (cases "key8 (m_symbol p) \<in> key8 ` set ss")
    case True
    have "store_instruments clk (quote_of p) (length conf) (length ss) (is @ rest) (clock_reads a) = Some (True, False, is @ rest, clock_reads a)"
      using store_instruments_miss [OF i(2) assms(3) c True] assms(4) True by (auto simp: accepted_def)
    then show ?thesis using same i(1) vc by (simp add: agg_receive_eq [OF assms(3)] updateOrderBooks_def Let_def)
  next
    case False
    have "store_instruments clk (quote_of p) (length conf) (length ss) (is @ rest) (clock_reads a) = Some (False, False, is @ rest, clock_reads a)"
      by (rule store_instruments_other [OF i(2) assms(3) c(1) False])
    then show ?thesis using same i(1) vc by (simp add: agg_receive_eq [OF assms(3)] updateOrderBooks_def Let_def)
  qed
qed

lemma receive_accepted:
  assumes "clk_ok clk" "small_msgs bsz" "arel clk conf L ss a" "book_config conf ss" "sym_ok (m_symbol p)" "accepted conf ss p"
    and L': "L' = L(key8 (m_symbol p) := (L (key8 (m_symbol p)))(m_bid_venue_id p \<mapsto> (p, clk (clock_reads a))))"
  shows "\<exists>m a'. agg_receive clk bsz (length ss) p a = Some ([sent m (seq_num a)], a') \<and>
    merged (fresh clk (L' (key8 (m_symbol p))) conf (clock_reads a + 1)) m \<and> arel clk conf L' ss a' \<and>
    clock_reads a' = clock_reads a + 1 + length conf \<and> seq_num a' = seq_num a + 1"
proof -
  let ?T = "clock_reads a" and ?k = "key8 (m_symbol p)"
  obtain "is" rest where i: "instruments a = is @ rest" "list_all2 (irel clk conf L ?T) ss is"
    and vc: "VENUE_COUNT a = length conf" using assms(3) by (auto simp: arel_def)
  have c: "\<forall>s \<in> set ss. sym_ok s" "distinct (map key8 ss)" "0 \<notin> set conf" "distinct conf"
    using assms(4) by (auto simp: book_config_def)
  have acc: "?k \<in> key8 ` set ss" "m_bid_venue_id p = m_ask_venue_id p" "m_bid_venue_id p \<in> set conf"
    using assms(6) by (auto simp: accepted_def)
  obtain is' where st: "store_instruments clk (quote_of p) (length conf) (length ss) (is @ rest) ?T = Some (True, True, is' @ rest, ?T + 1)"
    "list_all2 (irel clk conf L' (?T + 1)) ss is'"
    using store_instruments_hit [OF assms(5) c(3,4) acc(2,3), of L' L clk ?T ss "is" rest] i(2) c(1,2) acc(1)
    by (auto simp: L')
  define a1 where "a1 = a\<lparr>instruments := is' @ rest, clock_reads := ?T + 1\<rparr>"
  have a1: "VENUE_COUNT a1 = length conf" "clock_reads a1 = ?T + 1" "seq_num a1 = seq_num a" using vc by (simp_all add: a1_def)
  obtain is2 m where co: "merged (fresh clk (L' ?k) conf (?T + 1)) m"
    "collect_instruments clk bsz ?k (length ss) (is' @ rest) InstrumentBBO_init a1
      = Some ([sent m (seq_num a1)], is2 @ rest, a1\<lparr>clock_reads := ?T + 1 + length conf, seq_num := seq_num a1 + 1\<rparr>)"
    "list_all2 (irel clk conf L' (?T + 1 + length conf)) ss is2"
    using collect_instruments_ok [OF assms(1,5) c(3) assms(2) a1(1,2) st(2) c(1,2) acc(1), of rest] by blast
  have sym: "ib_symbol (quote_of p) = ?k" by (simp add: quote_of_def)
  have e: "a\<lparr>instruments := is' @ rest, clock_reads := Suc ?T\<rparr> = a1" by (simp add: a1_def)
  have "agg_receive clk bsz (length ss) p a = Some ([sent m (seq_num a)],
      a1\<lparr>clock_reads := ?T + 1 + length conf, seq_num := seq_num a + 1, instruments := is2 @ rest\<rparr>)"
    using st(1) co(2) by (simp add: agg_receive_eq [OF assms(5)] updateOrderBooks_def i(1) vc sym a1(3) e)
  moreover have "arel clk conf L' ss (a1\<lparr>clock_reads := ?T + 1 + length conf, seq_num := seq_num a + 1, instruments := is2 @ rest\<rparr>)"
    using co(3) a1 by (auto simp: arel_def)
  ultimately show ?thesis using co(1) by fastforce
qed

lemma best_of_sent: "merged ps m \<Longrightarrow> best_of ps (snd (sent m n))"
  unfolding merged_def best_of_def sent_def snd_conv bbo_msg.select_convs by blast

lemma agg_loop_sim:
  assumes "clk_ok clk" "small_msgs bsz" "book_config conf ss"
  shows "arel clk conf L ss a \<Longrightarrow> \<forall>p \<in> set ps. sym_ok (m_symbol p) \<Longrightarrow>
    \<exists>out a'. agg_loop clk bsz (length ss) ps a = Some (out, a') \<and>
      list_all2 best_of (expected clk conf ss ps L (clock_reads a)) (map snd out) \<and>
      map (m_sequence \<circ> snd) out = map (\<lambda>i. seq_num a + of_nat i) [0..<length out]"
proof (induction ps arbitrary: L a)
  case (Cons p ps)
  show ?case
  proof (cases "accepted conf ss p")
    case True
    define L' where "L' = L(key8 (m_symbol p) := (L (key8 (m_symbol p)))(m_bid_venue_id p \<mapsto> (p, clk (clock_reads a))))"
    obtain m a1 where r: "agg_receive clk bsz (length ss) p a = Some ([sent m (seq_num a)], a1)"
      "merged (fresh clk (L' (key8 (m_symbol p))) conf (clock_reads a + 1)) m" "arel clk conf L' ss a1"
      "clock_reads a1 = clock_reads a + 1 + length conf" "seq_num a1 = seq_num a + 1"
      using receive_accepted [OF assms(1,2) Cons.prems(1) assms(3) _ True L'_def] Cons.prems(2) by auto
    have sp: "\<forall>p \<in> set ps. sym_ok (m_symbol p)" using Cons.prems(2) by simp
    obtain out a' where IH: "agg_loop clk bsz (length ss) ps a1 = Some (out, a')"
      "list_all2 best_of (expected clk conf ss ps L' (clock_reads a1)) (map snd out)"
      "map (m_sequence \<circ> snd) out = map (\<lambda>i. seq_num a1 + of_nat i) [0..<length out]"
      using Cons.IH [OF r(3) sp] by blast
    have e: "expected clk conf ss (p # ps) L (clock_reads a)
        = fresh clk (L' (key8 (m_symbol p))) conf (clock_reads a + 1) # expected clk conf ss ps L' (clock_reads a1)"
      using True by (simp add: Let_def L'_def r(4))
    have "map (m_sequence \<circ> snd) (sent m (seq_num a) # out) = map (\<lambda>i. seq_num a + of_nat i) [0..<length (sent m (seq_num a) # out)]"
      using IH(3) r(5) by (simp add: sent_def map_upt_Suc add.assoc add.commute del: upt_Suc)
    moreover have "list_all2 best_of (expected clk conf ss (p # ps) L (clock_reads a)) (map snd (sent m (seq_num a) # out))"
      unfolding e using IH(2) best_of_sent [OF r(2)] by simp
    ultimately show ?thesis using r(1) IH(1)
      by (intro exI [of _ "sent m (seq_num a) # out"]) (simp del: map_map expected.simps map_upt_Suc upt_Suc comp_apply)
  next
    case False
    have "agg_receive clk bsz (length ss) p a = Some ([], a)"
      using receive_rejected [OF Cons.prems(1) assms(3) _ False] Cons.prems(2) by simp
    then show ?thesis using Cons.IH [OF Cons.prems(1)] Cons.prems(2) False by auto
  qed
qed simp

lemma init_venues_ok: "length conf \<le> length bs \<Longrightarrow>
  \<exists>vs. init_venues conf bs = Some (vs @ drop (length conf) bs) \<and> list_all2 (brel clk (\<lambda>_. None) T) conf vs"
proof (induction conf bs rule: init_venues.induct)
  case (3 v vs b bs)
  then obtain ws where "init_venues vs bs = Some (ws @ drop (length vs) bs)" "list_all2 (brel clk (\<lambda>_. None) T) vs ws"
    by auto
  moreover have "brel clk (\<lambda>_. None) T v (init_venue v b)"
    by (simp add: brel_def init_venue_def instrument_is_unset_def INIT_SIZE_def)
  ultimately show ?case by (intro exI [of _ "init_venue v b # ws"]) simp
qed auto

lemma init_instruments_ok:
  "length ss \<le> length is \<Longrightarrow> \<forall>i \<in> set is. length conf \<le> length (venues i) \<Longrightarrow> \<forall>s \<in> set ss. sym_ok s \<Longrightarrow>
   \<exists>js. init_instruments conf (length ss) ss is = Some (js @ drop (length ss) is) \<and>
     list_all2 (irel clk conf (\<lambda>_ _. None) T) ss js"
proof (induction ss arbitrary: "is")
  case (Cons s ss)
  obtain i is1 where i: "is = i # is1" using Cons.prems(1) by (cases "is") auto
  obtain js where js: "init_instruments conf (length ss) ss is1 = Some (js @ drop (length ss) is1)"
    "list_all2 (irel clk conf (\<lambda>_ _. None) T) ss js"
    using Cons.IH [of is1] Cons.prems by (auto simp: i)
  obtain vs where vs: "init_venues conf (venues i) = Some (vs @ drop (length conf) (venues i))"
    "list_all2 (brel clk (\<lambda>_. None) T) conf vs"
    using init_venues_ok [of conf "venues i" clk T] Cons.prems(2) by (auto simp: i)
  have s: "STRCPY8 s = Some (key8 s)" using Cons.prems(3) by (auto simp: STRCPY8_def sym_ok_def key8_def)
  have "irel clk conf (\<lambda>_ _. None) T s (i\<lparr>symbol := key8 s, venues := vs @ drop (length conf) (venues i)\<rparr>)"
    using vs(2) by (auto simp: irel_def)
  then show ?case
    using js vs s by (intro exI [of _ "i\<lparr>symbol := key8 s, venues := vs @ drop (length conf) (venues i)\<rparr> # js"]) (simp add: i)
qed simp

lemma agg_setup_sock: "agg_setup conf ss = Some a \<Longrightarrow> \<not> bcast_sock a"
  by (auto simp: agg_setup_def initialize_instrument_info_def zero_agg_def split: if_splits)

lemma agg_setup_ok:
  assumes "book_config conf ss"
  shows "\<exists>a. agg_setup conf ss = Some a \<and> arel clk conf (\<lambda>_ _. None) ss a \<and> clock_reads a = 0 \<and> seq_num a = 0"
proof -
  let ?is = "replicate 500 \<lparr>symbol = replicate SYMBOL_LEN NUL, venues = replicate MAX_VENUES zero_bbo\<rparr>"
  have c: "length ss \<le> length ?is" "\<forall>i \<in> set ?is. length conf \<le> length (venues i)" "\<forall>s \<in> set ss. sym_ok s"
    using assms by (auto simp: book_config_def MAX_VENUES_def)
  obtain js where js: "init_instruments conf (length ss) ss ?is = Some (js @ drop (length ss) ?is)"
    "list_all2 (irel clk conf (\<lambda>_ _. None) 0) ss js"
    using init_instruments_ok [OF c] by blast
  have "agg_setup conf ss = Some (zero_agg\<lparr>VENUE_COUNT := length conf, instruments := js @ drop (length ss) ?is\<rparr>)"
    using assms js(1) by (simp add: agg_setup_def initialize_instrument_info_def book_config_def zero_agg_def MAX_SYMBOLS_def)
  moreover have "arel clk conf (\<lambda>_ _. None) ss (zero_agg\<lparr>VENUE_COUNT := length conf, instruments := js @ drop (length ss) ?is\<rparr>)"
    using js(2) by (auto simp: arel_def zero_agg_def)
  ultimately show ?thesis by (simp add: zero_agg_def)
qed

text \<open>
  C11. The aggregator. For every configuration of up to 126 distinct non-zero venues and fewer than 500
  symbols that differ in their first eight characters and have at least seven, a clock that does not go
  back, and every sequence of updates with such symbols whose broadcasts fit the buffer, the set-up
  succeeds, and where assertions are compiled out (as in the Makefile) no update runs into undefined
  behaviour: updates of an unknown symbol or venue broadcast nothing, and each other one broadcasts the
  best bid and the best ask among the last quotes of the configured venues that are not older than five
  seconds, with the venue and size of a quote that has the price (the initial price, no venue and size
  -1 when there is none); the sequence numbers count the broadcasts. Where assertions are compiled in,
  the aggregator always fails the one on the global socket, which is never set.
\<close>

theorem agg_run_refines:
  assumes "clk_ok clk" "small_msgs bsz" "book_config conf ss" "\<forall>p \<in> set ps. sym_ok (m_symbol p)"
  shows "\<exists>a out a'. agg_setup conf ss = Some a \<and> agg_run False clk bsz (length ss) ps a = Some (out, a') \<and>
    list_all2 best_of (expected clk conf ss ps (\<lambda>_ _. None) 0) (map snd out) \<and>
    map (m_sequence \<circ> snd) out = map of_nat [0..<length out] \<and> agg_run True clk bsz (length ss) ps a = None"
proof -
  obtain a where a: "agg_setup conf ss = Some a" "arel clk conf (\<lambda>_ _. None) ss a" "clock_reads a = 0" "seq_num a = 0"
    using agg_setup_ok [OF assms(3)] by blast
  then show ?thesis using agg_loop_sim [OF assms(1-3) a(2) assms(4)] agg_setup_sock [OF a(1)] by (auto simp: agg_run_def)
qed

definition demo_clock :: "nat \<Rightarrow> timespec" where
  "demo_clock i = \<lparr>tv_sec = 100 + min (int i) 1000, tv_nsec = 0\<rparr>"

definition demo_quote :: bbo_msg where
  "demo_quote = \<lparr>m_symbol = ''EUR/USD'', m_bid_venue_id = 7, m_bid_price = 1, m_bid_size = 100,
     m_ask_venue_id = 7, m_ask_price = 2, m_ask_size = 200, m_sequence = 0\<rparr>"

lemma demo_book: "clk_ok demo_clock" "small_msgs (\<lambda>_. 64)" "book_config [7, 9] [''EUR/USD'']"
  "sym_ok (m_symbol demo_quote)"
  by (auto simp: clk_ok_def demo_clock_def ts_ok_def total_nanos_def small_msgs_def MSGBUF_SIZ_def book_config_def
      sym_ok_def NUL_def demo_quote_def)

lemma agg_run_refines_witness:
  "\<exists>a out a'. agg_setup [7, 9] [''EUR/USD''] = Some a \<and>
     agg_run False demo_clock (\<lambda>_. 64) (length [''EUR/USD'']) [demo_quote, demo_quote] a = Some (out, a') \<and>
     list_all2 best_of (expected demo_clock [7, 9] [''EUR/USD''] [demo_quote, demo_quote] (\<lambda>_ _. None) 0) (map snd out) \<and>
     map (m_sequence \<circ> snd) out = map of_nat [0..<length out] \<and>
     agg_run True demo_clock (\<lambda>_. 64) (length [''EUR/USD'']) [demo_quote, demo_quote] a = None"
  by (rule agg_run_refines [OF demo_book(1-3)]) (use demo_book(4) in simp)

section \<open>Broadcasts are anonymous\<close>

lemma take_better_symbol [simp]: "ib_symbol (take_better b m) = ib_symbol m"
  by (simp add: take_better_def Let_def)

lemma collect_venues_symbol:
  "collect_venues clk n bs m t = Some (bs', m', t') \<Longrightarrow> ib_symbol m' = ib_symbol m"
proof (induction clk n bs m t arbitrary: bs' m' t' rule: collect_venues.induct)
  case (3 clk n b bs m t)
  from 3(2) obtain b1 t1 bs1 where c: "(if venue_id b \<noteq> NULL_VENUE_ID
        then map_option (\<lambda>b'. (b', t + 1)) (check_timeout (clk t) b) else Some (b, t)) = Some (b1, t1)"
    "collect_venues clk n bs (take_better b1 m) t1 = Some (bs1, m', t')"
    by (auto simp: bind_eq_Some_conv)
  show ?case using 3(1) [OF c(1) refl c(2)] by simp
qed auto

definition anonymous :: "broadcast \<Rightarrow> bool" where
  "anonymous x \<longleftrightarrow> fst x = replicate 8 NUL \<and> m_symbol (snd x) = []"

lemma broadcast_anonymous:
  "ib_symbol b = replicate 8 NUL \<Longrightarrow> broadcastBBO bsz b a = (out, a') \<Longrightarrow> x \<in> set out \<Longrightarrow> anonymous x"
  by (auto simp: broadcastBBO_def Let_def anonymous_def SYMBOL_LEN_def c_str_def numeral_eq_Suc split: if_splits)

lemma collect_anonymous:
  "ib_symbol m = replicate 8 NUL \<Longrightarrow> collect_instruments clk bsz s n is m a = Some (out, is', a') \<Longrightarrow>
   x \<in> set out \<Longrightarrow> anonymous x"
proof (induction clk bsz s n "is" m a arbitrary: out is' a' rule: collect_instruments.induct)
  case (3 clk bsz s n i "is" m a)
  show ?case
  proof (cases "strncmp_eq SYMBOL_LEN s (symbol i)")
    case True
    obtain vs m' t where c1: "collect_venues clk (VENUE_COUNT a) (venues i) m (clock_reads a) = Some (vs, m', t)"
      using 3(4) True by (auto simp: bind_eq_Some_conv)
    obtain out1 a1 where c2: "broadcastBBO bsz m' (a\<lparr>clock_reads := t\<rparr>) = (out1, a1)" by fastforce
    obtain out2 is2 where "collect_instruments clk bsz s n is m' a1 = Some (out2, is2, a')" "out = out1 @ out2"
      using 3(4) True c1 c2 by (auto simp: bind_eq_Some_conv)
    note c = c1 c2 this
    have m': "ib_symbol m' = replicate 8 NUL" using collect_venues_symbol [OF c(1)] 3(3) by simp
    have "x \<in> set out1 \<or> x \<in> set out2" using 3(5) c(4) by auto
    then show ?thesis
    proof
      assume "x \<in> set out1"
      then show ?thesis by (rule broadcast_anonymous [OF m' c(2)])
    next
      assume "x \<in> set out2"
      then show ?thesis using 3(1) [OF True c(1) refl refl refl c(2) [symmetric] m' c(3)] by blast
    qed
  next
    case False
    then obtain is2 where c: "collect_instruments clk bsz s n is m a = Some (out, is2, a')"
      using 3(4) by (auto simp: bind_eq_Some_conv)
    show ?thesis by (rule 3(2) [OF False 3(3) c 3(5)])
  qed
qed auto

text \<open>
  No broadcast says which instrument it is about: whatever the state and the updates, the header
  frame is eight NUL bytes and the symbol field of the message is empty, because the symbol of the
  local best quote is cleared and never filled in.
\<close>

theorem agg_broadcast_anonymous:
  assumes "agg_loop clk bsz n ps a = Some (out, a')"
  shows "\<forall>x \<in> set out. anonymous x"
  using assms
proof (induction ps arbitrary: a out)
  case (Cons p ps)
  obtain out1 a1 out2 where c: "agg_receive clk bsz n p a = Some (out1, a1)"
    "agg_loop clk bsz n ps a1 = Some (out2, a')" "out = out1 @ out2"
    using Cons.prems by (auto simp: bind_eq_Some_conv)
  have i: "ib_symbol InstrumentBBO_init = replicate 8 NUL" by (simp add: InstrumentBBO_init_def SYMBOL_LEN_def)
  have "\<forall>x \<in> set out1. anonymous x"
    using c(1) collect_anonymous [OF i]
    by (auto simp: agg_receive_def updateOrderBooks_def bind_eq_Some_conv Let_def split: if_splits)
  then show ?case using Cons.IH [OF c(2)] c(3) by auto
qed simp

lemma agg_broadcast_anonymous_witness:
  "\<exists>a out a'. agg_setup [7, 9] [''EUR/USD''] = Some a \<and>
     agg_loop demo_clock (\<lambda>_. 64) 1 [demo_quote] a = Some (out, a') \<and> length out = 1 \<and> (\<forall>x \<in> set out. anonymous x)"
proof -
  obtain a where a: "agg_setup [7, 9] [''EUR/USD''] = Some a" "arel demo_clock [7, 9] (\<lambda>_ _. None) [''EUR/USD''] a"
    using agg_setup_ok [OF demo_book(3)] by blast
  have acc: "accepted [7, 9] [''EUR/USD''] demo_quote" by (simp add: accepted_def demo_quote_def)
  obtain m a1 where "agg_receive demo_clock (\<lambda>_. 64) 1 demo_quote a = Some ([sent m (seq_num a)], a1)"
    using receive_accepted [OF demo_book(1,2) a(2) demo_book(3,4) acc refl] by auto
  then have r: "agg_loop demo_clock (\<lambda>_. 64) 1 [demo_quote] a = Some ([sent m (seq_num a)], a1)" by simp
  show ?thesis using a(1) r agg_broadcast_anonymous [OF r] by auto
qed

end
