(* ===== verification/JenkinsCorrect.thy ===== *)
theory JenkinsCorrect
  imports JenkinsHash
begin

text \<open>
  The hash functions of \<^verbatim>\<open>JenkinsHash\<close> against one reference, \<^verbatim>\<open>lookup3\<close>, that reads a list of
  bytes through a byte order.  The locale \<open>block_reader\<close> says what a way of reading the key must
  give for one block and for the last one; inside it the loop is shown to compute the reference,
  and every reader of the code is an interpretation of it.\<close>

unbundle bit_operations_syntax

section \<open>The reference\<close>

text \<open>A word of the key, from at most four bytes: little-endian, or big-endian with the missing
  low bytes zero.\<close>

definition le_word :: "8 word list \<Rightarrow> 32 word" where
  "le_word bs = le_num (take 4 bs)"

definition be_word :: "8 word list \<Rightarrow> 32 word" where
  "be_word bs = le_num (rev (take 4 (bs @ [0, 0, 0, 0])))"

fun add_block :: "(8 word list \<Rightarrow> 32 word) \<Rightarrow> 8 word list \<Rightarrow> abc \<Rightarrow> abc" where
  "add_block W bs (a, b, c) = (a + W bs, b + W (drop 4 bs), c + W (drop 8 bs))"

function lookup3 :: "(8 word list \<Rightarrow> 32 word) \<Rightarrow> 8 word list \<Rightarrow> abc \<Rightarrow> abc" where
  "lookup3 W bs s =
     (if 12 < length bs then lookup3 W (drop 12 bs) (mix (add_block W (take 12 bs) s))
      else if bs = [] then s else final (add_block W bs s))"
  by pat_completeness auto
termination
  by (relation "measure (\<lambda>(W, bs, s). length bs)") auto

declare lookup3.simps [simp del] hash_loop.simps [simp del] hashword_loop.simps [simp del]

section \<open>Bytes of memory\<close>

lemma length_bytes_at [simp]: "length (bytes_at m p n) = n"
  by (simp add: bytes_at_def)

lemma nth_bytes_at [simp]: "i < n \<Longrightarrow> bytes_at m p n ! i = m (p + i)"
  by (simp add: bytes_at_def)

lemma take_bytes_at: "take k (bytes_at m p n) = bytes_at m p (min k n)"
  by (rule nth_equalityI) auto

lemma drop_bytes_at: "drop k (bytes_at m p n) = bytes_at m (p + k) (n - k)"
  by (rule nth_equalityI) (auto simp: add.assoc)

lemma bytes_at_0 [simp]: "bytes_at m p 0 = []"
  by (simp add: bytes_at_def)

section \<open>The loop over a reader\<close>

locale block_reader =
  fixes W :: "8 word list \<Rightarrow> 32 word"
    and blk :: "memory \<Rightarrow> nat \<Rightarrow> abc \<Rightarrow> abc"
    and lst :: "memory \<Rightarrow> nat \<Rightarrow> nat \<Rightarrow> abc \<Rightarrow> switch_end"
  assumes blk_add: "blk m p s = add_block W (bytes_at m p 12) s"
    and lst_empty: "lst m p 0 s = Return s"
    and lst_add: "0 < n \<Longrightarrow> n \<le> 12 \<Longrightarrow> lst m p n s = Break (add_block W (bytes_at m p n) s)"
begin

lemma loop_lookup3: "hash_loop blk lst m p n s = lookup3 W (bytes_at m p n) s"
proof (induction n arbitrary: p s rule: less_induct)
  case (less n)
  show ?case
  proof (cases "12 < n")
    case True
    then have "hash_loop blk lst m p n s = hash_loop blk lst m (p + 12) (n - 12) (mix (blk m p s))"
      by (simp add: hash_loop.simps)
    also have "\<dots> = lookup3 W (bytes_at m (p + 12) (n - 12)) (mix (blk m p s))"
      using True by (intro less) simp
    also have "\<dots> = lookup3 W (bytes_at m p n) s"
      using True by (subst (2) lookup3.simps) (simp add: blk_add take_bytes_at drop_bytes_at)
    finally show ?thesis .
  next
    case False
    show ?thesis
    proof (cases "n = 0")
      case True
      then show ?thesis by (simp add: hash_loop.simps lookup3.simps lst_empty)
    next
      case nonempty: False
      then have "bytes_at m p n \<noteq> []"
        by (metis length_bytes_at list.size(3))
      then show ?thesis
        using False nonempty by (simp add: hash_loop.simps lookup3.simps lst_add)
    qed
  qed
qed

end

section \<open>Words of bytes\<close>

lemma uint8_bounds: "0 \<le> uint (b :: 8 word)" "uint b < 256"
  using unsigned_less [of b, where 'a = int] by simp_all

definition int_word :: "int \<Rightarrow> int \<Rightarrow> int \<Rightarrow> int \<Rightarrow> int" where
  "int_word b0 b1 b2 b3 = b0 + 256 * b1 + 65536 * b2 + 16777216 * b3"

lemma le_num_int:
  "le_num [b0, b1, b2, b3] = word_of_int (int_word (uint b0) (uint b1) (uint b2) (uint b3))"
  by (simp add: int_word_def algebra_simps)

lemma uint_le_num:
  "uint (le_num [b0, b1, b2, b3]) = int_word (uint b0) (uint b1) (uint b2) (uint b3)"
  unfolding le_num_int uint_word_of_int_eq using uint8_bounds [of b0] uint8_bounds [of b1]
    uint8_bounds [of b2] uint8_bounds [of b3]
  by (simp add: take_bit_eq_mod int_word_def)

lemma le_num_pad [simp]: 
  "le_num [b0] = le_num [b0, 0, 0, 0]"
  "le_num [b0, b1] = le_num [b0, b1, 0, 0]"
  "le_num [b0, b1, b2] = le_num [b0, b1, b2, 0]"
  by simp_all

lemma and_low:
  "(w :: 32 word) AND 0xffffff = take_bit 24 w"
  "w AND 0xffff = take_bit 16 w"
  "w AND 0xff = take_bit 8 w"
  by (simp_all add: take_bit_eq_mask mask_eq_exp_minus_1)

lemma and_high:
  "(w :: 32 word) AND 0xffffff00 = w - take_bit 8 w"
  "w AND 0xffff0000 = w - take_bit 16 w"
  "w AND 0xff000000 = w - take_bit 24 w"
proof -
  have m: "w AND NOT (mask n) = w - take_bit n w" for n
  proof -
    have "w AND NOT (mask n) = push_bit n (drop_bit n w)"
      by (rule bit_eqI) (auto simp: bit_simps)
    then show ?thesis
      by (metis add_diff_cancel_right' bits_ident)
  qed
  have c: "(0xffffff00 :: 32 word) = NOT (mask 8)" "(0xffff0000 :: 32 word) = NOT (mask 16)"
    "(0xff000000 :: 32 word) = NOT (mask 24)"
    by (simp_all add: mask_eq_exp_minus_1 not_eq_complement)
  show "w AND 0xffffff00 = w - take_bit 8 w" "w AND 0xffff0000 = w - take_bit 16 w"
    "w AND 0xff000000 = w - take_bit 24 w"
    unfolding c m by (rule refl)+
qed

lemma int_word_mod:
  assumes "0 \<le> x" "x < 256" "0 \<le> y" "y < 256" "0 \<le> z" "z < 256"
  shows "int_word x y z u mod 16777216 = int_word x y z 0"
    "int_word x y z u mod 65536 = int_word x y 0 0"
    "int_word x y z u mod 256 = int_word x 0 0 0"
proof -
  have *: "int_word x y z u mod k = e" if "int_word x y z u = e + v * k" "0 \<le> e" "e < k" for e v k
    using that by simp
  show "int_word x y z u mod 16777216 = int_word x y z 0"
    by (rule * [where v = u]) (use assms in \<open>simp_all add: int_word_def\<close>)
  show "int_word x y z u mod 65536 = int_word x y 0 0"
    by (rule * [where v = "z + 256 * u"]) (use assms in \<open>simp_all add: int_word_def\<close>)
  show "int_word x y z u mod 256 = int_word x 0 0 0"
    by (rule * [where v = "y + 256 * z + 65536 * u"]) (use assms in \<open>simp_all add: int_word_def\<close>)
qed

lemma take_le_num:
  "take_bit 24 (le_num [b0, b1, b2, b3]) = le_num [b0, b1, b2, 0]"
  "take_bit 16 (le_num [b0, b1, b2, b3]) = le_num [b0, b1, 0, 0]"
  "take_bit 8 (le_num [b0, b1, b2, b3]) = le_num [b0, 0, 0, 0]"
  by (rule word_uint_eqI, subst unsigned_take_bit_eq,
      simp add: uint_le_num take_bit_eq_mod int_word_mod uint8_bounds del: le_num.simps)+

lemma le_num_0 [simp]: "le_num [0, 0, 0, 0] = 0"
  by simp

lemma and_high_le_num:
  "le_num [b3, b2, b1, b0] AND 0xffffff00 = le_num [0, b2, b1, b0]"
  "le_num [b3, b2, b1, b0] AND 0xffff0000 = le_num [0, 0, b1, b0]"
  "le_num [b3, b2, b1, b0] AND 0xff000000 = le_num [0, 0, 0, b0]"
  unfolding and_high take_le_num by simp_all

lemma bytes_at_lists [simp]:
  "bytes_at m p (Suc 0) = [m p]"
  "bytes_at m p 2 = [m p, m (p + 1)]"
  "bytes_at m p 3 = [m p, m (p + 1), m (p + 2)]"
  "bytes_at m p 4 = [m p, m (p + 1), m (p + 2), m (p + 3)]"
  "bytes_at m p 5 = [m p, m (p + 1), m (p + 2), m (p + 3), m (p + 4)]"
  "bytes_at m p 6 = [m p, m (p + 1), m (p + 2), m (p + 3), m (p + 4), m (p + 5)]"
  "bytes_at m p 7 = [m p, m (p + 1), m (p + 2), m (p + 3), m (p + 4), m (p + 5), m (p + 6)]"
  "bytes_at m p 8 = [m p, m (p + 1), m (p + 2), m (p + 3), m (p + 4), m (p + 5), m (p + 6),
     m (p + 7)]"
  "bytes_at m p 9 = [m p, m (p + 1), m (p + 2), m (p + 3), m (p + 4), m (p + 5), m (p + 6),
     m (p + 7), m (p + 8)]"
  "bytes_at m p 10 = [m p, m (p + 1), m (p + 2), m (p + 3), m (p + 4), m (p + 5), m (p + 6),
     m (p + 7), m (p + 8), m (p + 9)]"
  "bytes_at m p 11 = [m p, m (p + 1), m (p + 2), m (p + 3), m (p + 4), m (p + 5), m (p + 6),
     m (p + 7), m (p + 8), m (p + 9), m (p + 10)]"
  "bytes_at m p 12 = [m p, m (p + 1), m (p + 2), m (p + 3), m (p + 4), m (p + 5), m (p + 6),
     m (p + 7), m (p + 8), m (p + 9), m (p + 10), m (p + 11)]"
  by (simp_all add: bytes_at_def upt_conv_Cons eval_nat_numeral)

lemma push_bytes:
  "push_bit 8 (x :: 32 word) = 256 * x" "push_bit 16 x = 65536 * x" "push_bit 24 x = 16777216 * x"
  by (simp_all add: push_bit_eq_mult)

lemmas reader_simps = load8_def le_word_def be_word_def push_bytes Let_def ac_simps

lemma upto_12: "0 < n \<Longrightarrow> n \<le> 12 \<Longrightarrow> n = 12 \<or> n = 4 \<or> n = 8 \<or> n = 11 \<or> n = 3 \<or> n = 7 \<or>
    n = 10 \<or> n = 2 \<or> n = 6 \<or> n = 9 \<or> n = 1 \<or> n = (5 :: nat)"
  by presburger

section \<open>Every reader is the reference\<close>

interpretation little8: block_reader le_word block8_little last8_little
proof
  fix m p s
  show "block8_little m p s = add_block le_word (bytes_at m p 12) s"
    by (cases s) (simp add: block8_little_def reader_simps)
  show "last8_little m p 0 s = Return s"
    by (cases s) (simp add: last8_little_def)
next
  fix m p n s
  assume "0 < (n :: nat)" "n \<le> 12"
  from upto_12 [OF this]
  show "last8_little m p n s = Break (add_block le_word (bytes_at m p n) s)"
    by (cases s, elim disjE)
      (simp_all add: last8_little_def reader_simps)
qed

interpretation big8: block_reader be_word block8_big last8_big
proof
  fix m p s
  show "block8_big m p s = add_block be_word (bytes_at m p 12) s"
    by (cases s) (simp add: block8_big_def reader_simps)
  show "last8_big m p 0 s = Return s"
    by (cases s) (simp add: last8_big_def)
next
  fix m p n s
  assume "0 < (n :: nat)" "n \<le> 12"
  from upto_12 [OF this]
  show "last8_big m p n s = Break (add_block be_word (bytes_at m p n) s)"
    by (cases s, elim disjE)
      (simp_all add: last8_big_def reader_simps)
qed

interpretation little16: block_reader le_word "block16 Little_endian" "last16 Little_endian"
proof
  fix m p s
  show "block16 Little_endian m p s = add_block le_word (bytes_at m p 12) s"
    by (cases s)
      (simp add: block16_def load16_def le_word_def push_bytes Let_def algebra_simps Suc3_eq_add_3)
  show "last16 Little_endian m p 0 s = Return s"
    by (cases s) (simp add: last16_def)
next
  fix m p n s
  assume "0 < (n :: nat)" "n \<le> 12"
  from upto_12 [OF this]
  show "last16 Little_endian m p n s = Break (add_block le_word (bytes_at m p n) s)"
    by (cases s, elim disjE) (simp_all add: last16_def load16_def load8_def le_word_def push_bytes Let_def
        algebra_simps Suc3_eq_add_3)
qed

lemma block32_little:
  "block32 Little_endian m p s = add_block le_word (bytes_at m p 12) s"
  by (cases s) (simp add: block32_def load32_def reader_simps)

lemma block32_big: "block32 Big_endian m p s = add_block be_word (bytes_at m p 12) s"
  by (cases s) (simp add: block32_def load32_def reader_simps)

interpretation little32: block_reader le_word "block32 Little_endian" "last32_little Little_endian"
proof
  fix m p s
  show "block32 Little_endian m p s = add_block le_word (bytes_at m p 12) s"
    by (rule block32_little)
  show "last32_little Little_endian m p 0 s = Return s"
    by (cases s) (simp add: last32_little_def)
next
  fix m p n s
  assume "0 < (n :: nat)" "n \<le> 12"
  from upto_12 [OF this]
  show "last32_little Little_endian m p n s = Break (add_block le_word (bytes_at m p n) s)"
    by (cases s, elim disjE)
      (simp_all add: last32_little_def load32_def and_low take_le_num reader_simps
        del: le_num.simps(2))
qed

interpretation little32_vg: block_reader le_word "block32 Little_endian" "last32_little_vg Little_endian"
proof
  fix m p s
  show "block32 Little_endian m p s = add_block le_word (bytes_at m p 12) s"
    by (rule block32_little)
  show "last32_little_vg Little_endian m p 0 s = Return s"
    by (cases s) (simp add: last32_little_vg_def)
next
  fix m p n s
  assume "0 < (n :: nat)" "n \<le> 12"
  from upto_12 [OF this]
  show "last32_little_vg Little_endian m p n s = Break (add_block le_word (bytes_at m p n) s)"
    by (cases s, elim disjE) (simp_all add: last32_little_vg_def load32_def reader_simps)
qed

interpretation big32: block_reader be_word "block32 Big_endian" "last32_big Big_endian"
proof
  fix m p s
  show "block32 Big_endian m p s = add_block be_word (bytes_at m p 12) s"
    by (rule block32_big)
  show "last32_big Big_endian m p 0 s = Return s"
    by (cases s) (simp add: last32_big_def)
next
  fix m p n s
  assume "0 < (n :: nat)" "n \<le> 12"
  from upto_12 [OF this]
  show "last32_big Big_endian m p n s = Break (add_block be_word (bytes_at m p n) s)"
    by (cases s, elim disjE)
      (simp_all add: last32_big_def load32_def and_high_le_num be_word_def Let_def
        add.commute [where 'a = nat]
        del: le_num.simps(2))
qed

interpretation big32_vg: block_reader be_word "block32 Big_endian" "last32_big_vg Big_endian"
proof
  fix m p s
  show "block32 Big_endian m p s = add_block be_word (bytes_at m p 12) s"
    by (rule block32_big)
  show "last32_big_vg Big_endian m p 0 s = Return s"
    by (cases s) (simp add: last32_big_vg_def)
next
  fix m p n s
  assume "0 < (n :: nat)" "n \<le> 12"
  from upto_12 [OF this]
  show "last32_big_vg Big_endian m p n s = Break (add_block be_word (bytes_at m p n) s)"
    by (cases s, elim disjE) (simp_all add: last32_big_vg_def load32_def reader_simps)
qed

section \<open>The dispatch\<close>

lemma hashlittle_body_lookup3:
  "hashlittle_body e valgrind m p n s = lookup3 le_word (bytes_at m p n) s"
  by (simp add: hashlittle_body_def HASH_LITTLE_ENDIAN_def little8.loop_lookup3
      little16.loop_lookup3 little32.loop_lookup3 little32_vg.loop_lookup3)

definition hash_seed :: "nat \<Rightarrow> 32 word \<Rightarrow> 32 word \<Rightarrow> abc" where
  "hash_seed n pc pb = (let a = 0xdeadbeef + of_nat n + pc in (a, a, a + pb))"

lemma hash_seed_0: "hash_seed n iv 0 =
    (0xdeadbeef + of_nat n + iv, 0xdeadbeef + of_nat n + iv, 0xdeadbeef + of_nat n + iv)"
  by (simp add: hash_seed_def Let_def)

section \<open>Keys of whole words\<close>

lemma hashword_loop_lookup3:
  assumes ld: "\<And>q. load32 e m q = W (bytes_at m q 4)"
    and W4: "\<And>bs. W bs = W (take 4 bs)"
    and W0: "W [] = 0"
  shows "hashword_loop (\<lambda>i. load32 e m (p + 4 * i)) i n s
    = lookup3 W (bytes_at m (p + 4 * i) (4 * n)) s"
proof (induction n arbitrary: i s rule: less_induct)
  case (less n)
  obtain a b c where s: "s = (a, b, c)" by (cases s)
  let ?k = "\<lambda>i. load32 e m (p + 4 * i)"
  have w: "W (bytes_at m (p + 4 * j) r) = ?k j" if "4 \<le> r" for j r
    using that W4 [of "bytes_at m (p + 4 * j) r"] by (simp add: ld take_bytes_at)
  have blk: "add_block W (bytes_at m (p + 4 * i) r) s =
      (a + ?k i, if 8 \<le> r then b + ?k (i + 1) else b, if 12 \<le> r then c + ?k (i + 2) else c)"
    if "r \<in> {4, 8, 12}" for r
    using that w [of _ i] w [of _ "i + 1"] w [of _ "i + 2"]
    by (auto simp: s drop_bytes_at algebra_simps W0)
  show ?case
  proof (cases "3 < n")
    case True
    then have "hashword_loop ?k i n s = hashword_loop ?k (i + 3) (n - 3)
        (mix (a + ?k i, b + ?k (i + 1), c + ?k (i + 2)))"
      by (simp add: s hashword_loop.simps)
    also have "\<dots> = lookup3 W (bytes_at m (p + 4 * (i + 3)) (4 * (n - 3)))
        (mix (a + ?k i, b + ?k (i + 1), c + ?k (i + 2)))"
      using True by (intro less) simp
    also have "\<dots> = lookup3 W (bytes_at m (p + 4 * i) (4 * n)) s"
      using True blk [of 12]
      by (subst (2) lookup3.simps) (simp add: take_bytes_at drop_bytes_at algebra_simps)
    finally show ?thesis .
  next
    case False
    show ?thesis
    proof (cases "n = 0")
      case True
      then show ?thesis by (simp add: s hashword_loop.simps lookup3.simps)
    next
      case nonempty: False
      then have "bytes_at m (p + 4 * i) (4 * n) \<noteq> []" "4 * n \<in> {4, 8, 12}"
        using False by (auto simp flip: length_0_conv)
      then show ?thesis
        using False nonempty blk [of "4 * n"]
        by (simp add: s hashword_loop.simps lookup3.simps Let_def del: bytes_at_lists)
    qed
  qed
qed

lemma load32_words:
  "load32 Little_endian m q = le_word (bytes_at m q 4)"
  "load32 Big_endian m q = be_word (bytes_at m q 4)"
  by (simp_all add: load32_def le_word_def be_word_def)

lemma words_take4:
  "le_word bs = le_word (take 4 bs)" "be_word bs = be_word (take 4 bs)" "le_word [] = 0"
  "be_word [] = 0"
  by (simp_all add: le_word_def be_word_def min_def)

lemma hashword_loop_little:
  "hashword_loop (\<lambda>i. load32 Little_endian m (p + 4 * i)) 0 n s
    = lookup3 le_word (bytes_at m p (4 * n)) s"
  using hashword_loop_lookup3 [OF load32_words(1) words_take4(1) words_take4(3), of m p 0 n s]
  by simp

lemma hashword_loop_big:
  "hashword_loop (\<lambda>i. load32 Big_endian m (p + 4 * i)) 0 n s
    = lookup3 be_word (bytes_at m p (4 * n)) s"
  using hashword_loop_lookup3 [OF load32_words(2) words_take4(2) words_take4(4), of m p 0 n s]
  by simp

lemma push_of_nat: "push_bit 2 (of_nat n :: 32 word) = of_nat (4 * n)" "n * 4 = 4 * n"
  by (simp_all add: push_bit_eq_mult)

section \<open>mix and final are reversible\<close>

definition mix_a :: "nat \<Rightarrow> abc \<Rightarrow> abc" where
  "mix_a k = (\<lambda>(a, b, c). ((a - c) XOR rot c k, b, c + b))"

definition turn :: "abc \<Rightarrow> abc" where
  "turn = (\<lambda>(a, b, c). (b, c, a))"

lemma mix_steps: "mix = (\<lambda>s. turn (mix_a 4 (turn (mix_a 19 (turn (mix_a 16
    (turn (mix_a 8 (turn (mix_a 6 (turn (mix_a 4 s))))))))))))"
  by (rule ext) (auto simp: mix_def mix_a_def turn_def Let_def)


lemma bij_mix_a: "bij (mix_a k)"
  by (rule o_bij [where g = "\<lambda>(a, b, c). ((a XOR rot (c - b) k) + (c - b), b, c - b)"])
    (auto simp: mix_a_def xor.assoc)

lemma bij_turn: "bij turn"
  by (rule o_bij [where g = "\<lambda>(b, c, a). (a, b, c)"]) (auto simp: turn_def)

lemma bij_mix: "bij mix"
proof -
  have "bij (turn \<circ> (mix_a 4 \<circ> (turn \<circ> (mix_a 19 \<circ> (turn \<circ> (mix_a 16 \<circ> (turn \<circ> (mix_a 8 \<circ>
      (turn \<circ> (mix_a 6 \<circ> (turn \<circ> mix_a 4)))))))))))"
    by (intro bij_comp bij_mix_a bij_turn)
  then show ?thesis
    by (simp add: mix_steps comp_def)
qed

section \<open>The properties\<close>

text \<open>C14. Whatever the byte order of the machine, the alignment of the key and the VALGRIND
  switch, \<^verbatim>\<open>hashlittle\<close> and \<^verbatim>\<open>hashlittle2\<close> return the words of the byte-wise reference for the
  little-endian reading of the key, and \<^verbatim>\<open>hashbig\<close> the one for the big-endian reading: the
  masked reads past the end of the key, the 16-bit reads and the byte reads agree, and the value
  depends on the bytes of the key only.\<close>

theorem hash_branches_agree:
  "hashlittle e valgrind m p n pc = snd (snd (lookup3 le_word (bytes_at m p n) (hash_seed n pc 0)))
   \<and> hashlittle2 e valgrind m p n pc pb =
       (case lookup3 le_word (bytes_at m p n) (hash_seed n pc pb) of (a, b, c) \<Rightarrow> (c, b))
   \<and> hashbig e valgrind m p n pc = snd (snd (lookup3 be_word (bytes_at m p n) (hash_seed n pc 0)))"
proof (intro conjI)
  show "hashlittle e valgrind m p n pc =
      snd (snd (lookup3 le_word (bytes_at m p n) (hash_seed n pc 0)))"
    by (simp add: hashlittle_def hashlittle_body_lookup3 hash_seed_def Let_def split_beta)
  show "hashlittle2 e valgrind m p n pc pb =
      (case lookup3 le_word (bytes_at m p n) (hash_seed n pc pb) of (a, b, c) \<Rightarrow> (c, b))"
    by (simp add: hashlittle2_def hashlittle_body_lookup3 hash_seed_def Let_def)
  show "hashbig e valgrind m p n pc =
      snd (snd (lookup3 be_word (bytes_at m p n) (hash_seed n pc 0)))"
    by (simp add: hashbig_def HASH_BIG_ENDIAN_def big8.loop_lookup3 big32.loop_lookup3
        big32_vg.loop_lookup3 hash_seed_def Let_def split_beta)
qed

text \<open>What the comments of \<^verbatim>\<open>jenkins_hash.h\<close> promise of the four functions: on a
  little-endian machine \<^verbatim>\<open>hashword\<close> of n words is \<^verbatim>\<open>hashlittle\<close> of the same 4 n bytes, on a
  big-endian machine it is \<^verbatim>\<open>hashbig\<close>; \<^verbatim>\<open>hashword2\<close> and \<^verbatim>\<open>hashlittle2\<close> with a zero second
  seed store the value of \<^verbatim>\<open>hashword\<close> and \<^verbatim>\<open>hashlittle\<close> in \<^verbatim>\<open>*pc\<close>; and \<^verbatim>\<open>mix\<close> is reversible.\<close>

theorem hash_words_and_bytes:
  "hashword Little_endian m p n iv = hashlittle Little_endian valgrind m p (4 * n) iv
   \<and> hashword Big_endian m p n iv = hashbig Big_endian valgrind m p (4 * n) iv
   \<and> fst (hashword2 e m p n iv 0) = hashword e m p n iv
   \<and> fst (hashlittle2 e valgrind m p n iv 0) = hashlittle e valgrind m p n iv
   \<and> bij mix"
proof (intro conjI)
  show "hashword Little_endian m p n iv = hashlittle Little_endian valgrind m p (4 * n) iv"
    by (simp add: hashword_def hashword_loop_little hashlittle_def hashlittle_body_lookup3
        push_of_nat Let_def)
  show "hashword Big_endian m p n iv = hashbig Big_endian valgrind m p (4 * n) iv"
    by (simp add: hashword_def hashword_loop_big hashbig_def HASH_BIG_ENDIAN_def
        big8.loop_lookup3 big32.loop_lookup3 big32_vg.loop_lookup3 push_of_nat Let_def)
  show "fst (hashword2 e m p n iv 0) = hashword e m p n iv"
    by (simp add: hashword_def hashword2_def push_of_nat Let_def split_beta)
  show "fst (hashlittle2 e valgrind m p n iv 0) = hashlittle e valgrind m p n iv"
    by (simp add: hashlittle_def hashlittle2_def Let_def split_beta)
qed (rule bij_mix)

end
