(* ===== verification/FixFields.thy ===== *)
theory FixFields
  imports Types
begin

text \<open>
  FIX messages as QuickFIX presents them to an application, shared by the FIX applications of the
  repository: the type of a message with the fields of its header, of its body and of its repeating
  groups. A field set is a map from tags to typed values, the type being the one the field has in the
  FIX dictionary: a field of another type in this model is one whose text QuickFIX cannot convert, and
  reading it throws.
\<close>

section \<open>FIX messages\<close>

text \<open>The field numbers of the FIX protocol.\<close>

type_synonym fix_tag = nat

abbreviation (input) Account :: fix_tag where "Account \<equiv> 1"
abbreviation (input) AvgPx :: fix_tag where "AvgPx \<equiv> 6"
abbreviation (input) BeginString :: fix_tag where "BeginString \<equiv> 8"
abbreviation (input) ClOrdID :: fix_tag where "ClOrdID \<equiv> 11"
abbreviation (input) CumQty :: fix_tag where "CumQty \<equiv> 14"
abbreviation (input) Currency :: fix_tag where "Currency \<equiv> 15"
abbreviation (input) ExecID :: fix_tag where "ExecID \<equiv> 17"
abbreviation (input) ExecInst :: fix_tag where "ExecInst \<equiv> 18"
abbreviation (input) ExecRefID :: fix_tag where "ExecRefID \<equiv> 19"
abbreviation (input) ExecTransType :: fix_tag where "ExecTransType \<equiv> 20"
abbreviation (input) HandlInst :: fix_tag where "HandlInst \<equiv> 21"
abbreviation (input) LastPx :: fix_tag where "LastPx \<equiv> 31"
abbreviation (input) LastShares :: fix_tag where "LastShares \<equiv> 32"
abbreviation (input) OrderID :: fix_tag where "OrderID \<equiv> 37"
abbreviation (input) OrderQty :: fix_tag where "OrderQty \<equiv> 38"
abbreviation (input) OrdStatus :: fix_tag where "OrdStatus \<equiv> 39"
abbreviation (input) OrdType :: fix_tag where "OrdType \<equiv> 40"
abbreviation (input) OrigClOrdID :: fix_tag where "OrigClOrdID \<equiv> 41"
abbreviation (input) PossDupFlag :: fix_tag where "PossDupFlag \<equiv> 43"
abbreviation (input) Price :: fix_tag where "Price \<equiv> 44"
abbreviation (input) SenderCompID :: fix_tag where "SenderCompID \<equiv> 49"
abbreviation (input) Side :: fix_tag where "Side \<equiv> 54"
abbreviation (input) Symbol :: fix_tag where "Symbol \<equiv> 55"
abbreviation (input) TargetCompID :: fix_tag where "TargetCompID \<equiv> 56"
abbreviation (input) Text :: fix_tag where "Text \<equiv> 58"
abbreviation (input) TimeInForce :: fix_tag where "TimeInForce \<equiv> 59"
abbreviation (input) TransactTime :: fix_tag where "TransactTime \<equiv> 60"
abbreviation (input) RawDataLength :: fix_tag where "RawDataLength \<equiv> 95"
abbreviation (input) RawData :: fix_tag where "RawData \<equiv> 96"
abbreviation (input) CxlRejReason :: fix_tag where "CxlRejReason \<equiv> 102"
abbreviation (input) OrdRejReason :: fix_tag where "OrdRejReason \<equiv> 103"
abbreviation (input) MinQty :: fix_tag where "MinQty \<equiv> 110"
abbreviation (input) ResetSeqNumFlag :: fix_tag where "ResetSeqNumFlag \<equiv> 141"
abbreviation (input) ExecType :: fix_tag where "ExecType \<equiv> 150"
abbreviation (input) LeavesQty :: fix_tag where "LeavesQty \<equiv> 151"
abbreviation (input) SecurityType :: fix_tag where "SecurityType \<equiv> 167"
abbreviation (input) RefMsgType :: fix_tag where "RefMsgType \<equiv> 372"
abbreviation (input) ExecRestatementReason :: fix_tag where "ExecRestatementReason \<equiv> 378"
abbreviation (input) BusinessRejectReason :: fix_tag where "BusinessRejectReason \<equiv> 380"
abbreviation (input) CxlRejResponseTo :: fix_tag where "CxlRejResponseTo \<equiv> 434"
abbreviation (input) Username :: fix_tag where "Username \<equiv> 553"
abbreviation (input) Password :: fix_tag where "Password \<equiv> 554"

text \<open>\<open>FEmpty\<close> is the value of a field object that was never assigned.\<close>

datatype fix_value = FString string | FChar char | FDouble dbl | FInt int | FTime string | FBool bool | FEmpty

type_synonym fields = "fix_tag \<rightharpoonup> fix_value"

record fix_message =
  fm_type :: string
  fm_header :: fields
  fm_body :: fields

datatype 'a app_result = Ret 'a | Throw | Abort

text \<open>The check for possible duplicates that the applications make before a message is sent:
  \<^verbatim>\<open>isSetField\<close> of a message looks at its body, \<^verbatim>\<open>getField\<close> reads the header. What it throws
  is caught on the spot, \<^verbatim>\<open>DoNotSend\<close> as well when it is derived from \<^verbatim>\<open>FIX::Exception\<close>, as
  QuickFIX declares it; the parameter \<open>derived\<close> says whether it is.\<close>

datatype dup_throw = ThrowsFieldNotFound | ThrowsDataFormat | ThrowsDoNotSend

definition check_possdup :: "fix_message \<Rightarrow> dup_throw option" where
  "check_possdup m = (if fm_body m PossDupFlag = None then None
     else (case fm_header m PossDupFlag of
         None \<Rightarrow> Some ThrowsFieldNotFound
       | Some (FBool b) \<Rightarrow> if b then Some ThrowsDoNotSend else None
       | Some _ \<Rightarrow> Some ThrowsDataFormat))"

text \<open>Settings, as QuickFIX reads them from a file: texts by name, an empty one or false when they are
  missing. \<open>None\<close> is the exception for a text that is not a boolean.\<close>

definition dict_string :: "(string \<rightharpoonup> string) \<Rightarrow> string \<Rightarrow> string" where
  "dict_string dict k = (case dict k of Some s \<Rightarrow> s | None \<Rightarrow> [])"

definition dict_bool :: "(string \<Rightarrow> bool option) \<Rightarrow> (string \<rightharpoonup> string) \<Rightarrow> string \<Rightarrow> bool option" where
  "dict_bool getBool dict k = (case dict k of None \<Rightarrow> Some False | Some s \<Rightarrow> getBool s)"

definition Side_BUY :: char where "Side_BUY = CHR ''1''"
definition Side_SELL :: char where "Side_SELL = CHR ''2''"
definition TimeInForce_DAY :: char where "TimeInForce_DAY = CHR ''0''"
definition TimeInForce_IMMEDIATE_OR_CANCEL :: char where "TimeInForce_IMMEDIATE_OR_CANCEL = CHR ''3''"
definition TimeInForce_FILL_OR_KILL :: char where "TimeInForce_FILL_OR_KILL = CHR ''4''"

lemmas fix_chars = Side_BUY_def Side_SELL_def TimeInForce_DAY_def
  TimeInForce_IMMEDIATE_OR_CANCEL_def TimeInForce_FILL_OR_KILL_def

text \<open>A \<^verbatim>\<open>char\<close> is signed: its conversions to and from \<^verbatim>\<open>int\<close>.\<close>

definition int_of_char :: "char \<Rightarrow> int" where
  "int_of_char c = (let n = of_char c in if n < 128 then n else n - 256)"

definition char_of_int :: "int \<Rightarrow> char" where
  "char_of_int i = char_of (nat (i mod 256))"

end
