(* ===== verification/MdParser.thy ===== *)
theory MdParser
  imports FixFields BookV2 AggBook TimeUtils JenkinsHash
begin

text \<open>
  The FIX market data handler, \<^verbatim>\<open>market_data/fix/md_parser_qf.cpp\<close> and
  \<^verbatim>\<open>md_broadcast.cpp\<close>, as compiled for FIX 4.2: after a logon it creates a book for every
  symbol and subscribes; snapshots (35=W) and incremental refreshes (35=X) change the books of
  \<^verbatim>\<open>BookV2\<close>, and the best prices are broadcast for the aggregated book.

  A handler returns the state together with what stopped it: nothing, an exception (which QuickFIX
  catches: the state stays as it is at the throw and the session goes on), a failing \<^verbatim>\<open>assert\<close>,
  \<^verbatim>\<open>exit\<close>, a null book, or undefined behaviour. Assertions are those of a build without
  \<^verbatim>\<open>NDEBUG\<close>, which the default Makefile defines. Book pointers are the keys of the symbol map. A field
  object that was never assigned is \<open>FEmpty\<close>: its text is empty, and converting it throws. Messages
  to the exchange and broadcasts are recorded; logs and console output are not modelled, nor are
  variables that are read from a message and never used.
\<close>

section \<open>Fields, configuration and state\<close>

abbreviation (input) SendingTime :: fix_tag where "SendingTime \<equiv> 52"
abbreviation (input) TestReqID :: fix_tag where "TestReqID \<equiv> 112"
abbreviation (input) NoRelatedSym :: fix_tag where "NoRelatedSym \<equiv> 146"
abbreviation (input) MDReqID :: fix_tag where "MDReqID \<equiv> 262"
abbreviation (input) SubscriptionRequestType :: fix_tag where "SubscriptionRequestType \<equiv> 263"
abbreviation (input) MarketDepth :: fix_tag where "MarketDepth \<equiv> 264"
abbreviation (input) MDUpdateType :: fix_tag where "MDUpdateType \<equiv> 265"
abbreviation (input) AggregatedBook :: fix_tag where "AggregatedBook \<equiv> 266"
abbreviation (input) NoMDEntryTypes :: fix_tag where "NoMDEntryTypes \<equiv> 267"
abbreviation (input) NoMDEntries :: fix_tag where "NoMDEntries \<equiv> 268"
abbreviation (input) MDEntryType :: fix_tag where "MDEntryType \<equiv> 269"
abbreviation (input) MDEntryPx :: fix_tag where "MDEntryPx \<equiv> 270"
abbreviation (input) MDEntrySize :: fix_tag where "MDEntrySize \<equiv> 271"
abbreviation (input) MDEntryID :: fix_tag where "MDEntryID \<equiv> 278"
abbreviation (input) MDUpdateAction :: fix_tag where "MDUpdateAction \<equiv> 279"
abbreviation (input) MDEntryRefID :: fix_tag where "MDEntryRefID \<equiv> 280"
abbreviation (input) TradSesStatus :: fix_tag where "TradSesStatus \<equiv> 340"
abbreviation (input) QuoteEntryID :: fix_tag where "QuoteEntryID \<equiv> 299"

definition MDEntryType_BID :: char where "MDEntryType_BID = CHR ''0''"
definition MDEntryType_OFFER :: char where "MDEntryType_OFFER = CHR ''1''"
definition MDUpdateAction_NEW :: char where "MDUpdateAction_NEW = CHR ''0''"
definition MDUpdateAction_CHANGE :: char where "MDUpdateAction_CHANGE = CHR ''1''"
definition MDUpdateAction_DELETE :: char where "MDUpdateAction_DELETE = CHR ''2''"

lemmas md_chars = MDEntryType_BID_def MDEntryType_OFFER_def MDUpdateAction_NEW_def
  MDUpdateAction_CHANGE_def MDUpdateAction_DELETE_def

text \<open>A message with the groups added to it, each with the tag that counts it.\<close>

record group_message = fix_message +
  fm_groups :: "(fix_tag \<times> fields) list"

definition groups_of :: "fix_tag \<Rightarrow> group_message \<Rightarrow> fields list" where
  "groups_of t m = map snd (filter (\<lambda>(u, g). u = t) (fm_groups m))"

record md_config =
  mdc_venue_id :: int
  mdc_username :: string
  mdc_password :: string
  mdc_sendPasswordInRawDataField :: bool
  mdc_sendIndividualMarketDataRequests :: bool
  mdc_version :: int
  mdc_is_publishing :: bool
  mdc_market_depth :: int
  mdc_want_aggregated_book :: bool
  mdc_update_type :: int
  mdc_reset_seq_nums :: bool
  mdc_new_replaces :: bool

text \<open>The environment: QuickFIX time stamps and their texts, the monotonic clock, the byte order
  and the addresses of the strings that are hashed, the size of a serialised broadcast.\<close>

record ('tm, 'dt, 't) md_env =
  me_time :: "('tm, 'dt, 't) fix_time"
  me_stamp :: "string \<Rightarrow> 't"
  me_clk :: "nat \<Rightarrow> timespec"
  me_endian :: endian
  me_addr :: "string \<Rightarrow> nat"
  me_size :: "bbo_msg \<Rightarrow> nat"

record md_app =
  md_cfg :: md_config
  md_session :: "string \<times> string"
  md_symbols :: "string list"
  md_loginCount :: uint32
  md_appMsgCount :: uint32
  md_books :: "(string \<times> kbook) list"
  md_clock :: nat
  md_sent :: "group_message list"
  md_bcast :: "bbo_msg list"
  md_socket :: "string option"

text \<open>The constructor leaves the socket unset; it is known by the address it is bound to.\<close>

definition new_md_app :: "md_config \<Rightarrow> md_app" where
  "new_md_app cfg = \<lparr>md_cfg = cfg, md_session = ([], []), md_symbols = [], md_loginCount = 0,
     md_appMsgCount = 0, md_books = [], md_clock = 0, md_sent = [], md_bcast = [], md_socket = None\<rparr>"

datatype md_stop =
    FieldError | UnsupportedVersion | UnsupportedMessage
  | NullBook | NullStream | AssertFails | Exits | Undefined

definition addSymbols :: "string list \<Rightarrow> md_app \<Rightarrow> md_app" where
  "addSymbols ss ap = ap\<lparr>md_symbols := ss\<rparr>"

definition setZMQSocket :: "string \<Rightarrow> md_app \<Rightarrow> md_app" where
  "setZMQSocket addr ap = ap\<lparr>md_socket := Some addr\<rparr>"

text \<open>\<^verbatim>\<open>main\<close> binds the publisher's socket and hands it over only when prices are to be
  published; whether it could be bound is not looked at.\<close>

definition connect_publisher :: "string \<Rightarrow> md_app \<Rightarrow> md_app" where
  "connect_publisher addr ap = (if mdc_is_publishing (md_cfg ap) then setZMQSocket addr ap else ap)"

definition addBook :: "string \<Rightarrow> kbook \<Rightarrow> md_app \<Rightarrow> md_app" where
  "addBook s b ap = ap\<lparr>md_books := sm_put s b (md_books ap)\<rparr>"

definition getBook :: "string \<Rightarrow> md_app \<Rightarrow> kbook option" where
  "getBook s ap = map_of (md_books ap) s"

section \<open>Requests\<close>

text \<open>The group of a symbol, and the fields both requests share. The constructor of a QuickFIX message
  sets the version.\<close>

definition symbol_group :: "string \<Rightarrow> fix_tag \<times> fields" where
  "symbol_group s = (NoRelatedSym, [Symbol \<mapsto> FString s])"

definition market_data_request :: "string \<Rightarrow> string \<Rightarrow> (fix_tag \<times> fields) list \<Rightarrow> md_app \<Rightarrow> group_message" where
  "market_data_request version reqID syms ap =
    (let cfg = md_cfg ap;
         b = [MDReqID \<mapsto> FString reqID, SubscriptionRequestType \<mapsto> FChar CHR ''1'',
              MarketDepth \<mapsto> FInt (mdc_market_depth cfg)];
         b = (if mdc_want_aggregated_book cfg then b(AggregatedBook \<mapsto> FBool True) else b)
     in \<lparr>fm_type = ''V'',
         fm_header = [BeginString \<mapsto> FString version, SenderCompID \<mapsto> FString (fst (md_session ap)),
           TargetCompID \<mapsto> FString (snd (md_session ap))],
         fm_body = b(MDUpdateType \<mapsto> FInt (mdc_update_type cfg)),
         fm_groups = [(NoMDEntryTypes, [MDEntryType \<mapsto> FChar MDEntryType_BID]),
                      (NoMDEntryTypes, [MDEntryType \<mapsto> FChar MDEntryType_OFFER])] @ syms\<rparr>)"

definition sendSingleMarketDataRequest42 :: "string \<Rightarrow> md_app \<Rightarrow> group_message" where
  "sendSingleMarketDataRequest42 s ap =
     market_data_request ''FIX.4.2'' (c_str (''CAPK-'' @ s)) [symbol_group s] ap"

definition sendMarketDataRequest42 :: "string list \<Rightarrow> md_app \<Rightarrow> group_message" where
  "sendMarketDataRequest42 ss ap =
     market_data_request ''FIX.4.2'' ''CAPK'' (map symbol_group (filter (\<lambda>s. s \<noteq> []) ss)) ap"

definition test_request :: "string \<Rightarrow> group_message" where
  "test_request version = \<lparr>fm_type = ''1'', fm_header = [BeginString \<mapsto> FString version],
     fm_body = [TestReqID \<mapsto> FString ''TestRequest''], fm_groups = []\<rparr>"

definition sendTestRequest42 :: group_message where
  "sendTestRequest42 = test_request ''FIX.4.2''"

definition md_send :: "group_message \<Rightarrow> md_app \<Rightarrow> md_app" where
  "md_send m ap = ap\<lparr>md_sent := md_sent ap @ [m]\<rparr>"

text \<open>\<^verbatim>\<open>sendToTarget\<close> with a session sets the header's ids.\<close>

definition to_session :: "md_app \<Rightarrow> group_message \<Rightarrow> group_message" where
  "to_session ap m = m\<lparr>fm_header := (fm_header m)(SenderCompID \<mapsto> FString (fst (md_session ap)),
     TargetCompID \<mapsto> FString (snd (md_session ap)))\<rparr>"

definition sendTestRequest :: "md_app \<Rightarrow> md_stop option \<times> md_app" where
  "sendTestRequest ap = (if mdc_version (md_cfg ap) = 42
     then (None, md_send (to_session ap sendTestRequest42) ap)
     else (Some UnsupportedVersion, ap))"

definition sendSingleMarketDataRequest :: "string \<Rightarrow> md_app \<Rightarrow> md_stop option \<times> md_app" where
  "sendSingleMarketDataRequest s ap = (if mdc_version (md_cfg ap) = 42
     then (None, md_send (sendSingleMarketDataRequest42 s ap) ap) else (Some UnsupportedVersion, ap))"

definition sendMarketDataRequest :: "string list \<Rightarrow> md_app \<Rightarrow> md_stop option \<times> md_app" where
  "sendMarketDataRequest ss ap = (if mdc_version (md_cfg ap) = 42
     then (None, md_send (sendMarketDataRequest42 ss ap) ap) else (Some UnsupportedVersion, ap))"

section \<open>Session\<close>

text \<open>A new book for every symbol up to the first empty one; books of an earlier logon are replaced
  in the map (and leak).\<close>

fun make_books :: "string list \<Rightarrow> md_app \<Rightarrow> md_app" where
  "make_books [] ap = ap"
| "make_books (s # ss) ap = (if s = [] then ap
     else make_books ss (addBook s (new_book (Some (c_str s)) (word_of_int (mdc_market_depth (md_cfg ap)))) ap))"

fun send_all_single :: "string list \<Rightarrow> md_app \<Rightarrow> md_stop option \<times> md_app" where
  "send_all_single [] ap = (None, ap)"
| "send_all_single (s # ss) ap = (if s = [] then send_all_single ss ap
     else case sendSingleMarketDataRequest s ap of
       (None, ap') \<Rightarrow> send_all_single ss ap' | (Some e, ap') \<Rightarrow> (Some e, ap'))"

definition md_run_app :: "md_app \<Rightarrow> md_stop option \<times> md_app" where
  "md_run_app ap = (let ap = make_books (md_symbols ap) ap in
     if mdc_sendIndividualMarketDataRequests (md_cfg ap)
     then send_all_single (md_symbols ap) ap
     else sendMarketDataRequest (md_symbols ap) ap)"

definition md_onLogon :: "string \<times> string \<Rightarrow> md_app \<Rightarrow> md_stop option \<times> md_app" where
  "md_onLogon sess ap = md_run_app (ap\<lparr>md_session := sess, md_loginCount := md_loginCount ap + 1\<rparr>)"

definition md_toAdmin :: "md_app \<Rightarrow> fix_message \<Rightarrow> fix_message" where
  "md_toAdmin ap m = (if fm_type m = ''A'' then
     let cfg = md_cfg ap; h = fm_header m;
         h = (if 0 < length (mdc_username cfg) then h(Username \<mapsto> FString (mdc_username cfg)) else h);
         h = (if mdc_sendPasswordInRawDataField cfg
              then h(RawData \<mapsto> FString (c_str (mdc_password cfg)),
                     RawDataLength \<mapsto> FInt (int (length (mdc_password cfg))))
              else if mdc_password cfg \<noteq> [] then h(Password \<mapsto> FString (mdc_password cfg)) else h);
         b = (if mdc_reset_seq_nums cfg then (fm_body m)(ResetSeqNumFlag \<mapsto> FString ''Y'') else fm_body m)
     in m\<lparr>fm_header := h, fm_body := b\<rparr>
   else m)"

text \<open>Whether a message is sent.\<close>

definition md_toApp :: "bool \<Rightarrow> fix_message \<Rightarrow> bool" where
  "md_toApp derived m = (check_possdup m = Some ThrowsDoNotSend \<longrightarrow> derived)"

section \<open>Reading fields\<close>

fun bnd :: "md_stop + 'a \<Rightarrow> ('a \<Rightarrow> md_stop + 'b) \<Rightarrow> md_stop + 'b" where
  "bnd (Inl e) f = Inl e"
| "bnd (Inr x) f = f x"

definition get_string :: "fix_value \<Rightarrow> md_stop + string" where
  "get_string v = (case v of FString s \<Rightarrow> Inr s | FEmpty \<Rightarrow> Inr [] | _ \<Rightarrow> Inl FieldError)"

definition get_char :: "fix_value \<Rightarrow> md_stop + char" where
  "get_char v = (case v of FChar c \<Rightarrow> Inr c | _ \<Rightarrow> Inl FieldError)"

definition get_double :: "fix_value \<Rightarrow> md_stop + dbl" where
  "get_double v = (case v of FDouble d \<Rightarrow> Inr d | _ \<Rightarrow> Inl FieldError)"

definition get_int :: "fix_value \<Rightarrow> md_stop + int" where
  "get_int v = (case v of FInt i \<Rightarrow> Inr i | _ \<Rightarrow> Inl FieldError)"

definition get_time :: "fix_value \<Rightarrow> md_stop + string" where
  "get_time v = (case v of FTime x \<Rightarrow> Inr x | _ \<Rightarrow> Inl FieldError)"

text \<open>\<^verbatim>\<open>unsigned int size = mdEntrySize.getValue()\<close>, later passed on as a \<^verbatim>\<open>double\<close>.\<close>

definition get_size :: "fix_value \<Rightarrow> md_stop + dbl" where
  "get_size v = bnd (get_double v) (\<lambda>d. case u32_of_dbl d of
     None \<Rightarrow> Inl Undefined | Some w \<Rightarrow> Inr (of_int (uint w)))"

definition defined :: "'a option \<Rightarrow> md_stop + 'a" where
  "defined x = (case x of None \<Rightarrow> Inl Undefined | Some a \<Rightarrow> Inr a)"

text \<open>The sending time of the message as a time stamp.\<close>

definition send_time :: "('tm, 'dt, 't) md_env \<Rightarrow> fix_value \<Rightarrow> md_stop + timespec" where
  "send_time E st = bnd (get_time st) (\<lambda>x. defined (UTCTimeStampToTimespec (me_time E) (me_stamp E x)))"

text \<open>The bytes of a string at its address, and the book id of an entry id.\<close>

definition string_memory :: "nat \<Rightarrow> string \<Rightarrow> memory" where
  "string_memory a s = (\<lambda>p. if a \<le> p \<and> p < a + length s then of_char (s ! (p - a)) else 0)"

definition md_hash :: "('tm, 'dt, 't) md_env \<Rightarrow> string \<Rightarrow> uint32" where
  "md_hash E s = hashlittle (me_endian E) False (string_memory (me_addr E s) s) (me_addr E s) (length s) 0"

text \<open>The field objects declared before the loop over the entries: an entry that does not set a
  field leaves the value of an earlier entry in place.\<close>

record md_vars =
  v_symbol :: fix_value
  v_type :: fix_value
  v_id :: fix_value
  v_px :: fix_value
  v_size :: fix_value
  v_quote_id :: fix_value
  v_action :: fix_value

definition init_vars :: md_vars where
  "init_vars = \<lparr>v_symbol = FEmpty, v_type = FEmpty, v_id = FEmpty, v_px = FEmpty, v_size = FEmpty,
     v_quote_id = FEmpty, v_action = FEmpty\<rparr>"

definition if_set :: "fields \<Rightarrow> fix_tag \<Rightarrow> fix_value \<Rightarrow> fix_value" where
  "if_set g t v = (case g t of None \<Rightarrow> v | Some x \<Rightarrow> x)"

fun for_groups :: "(fields \<Rightarrow> 's \<Rightarrow> md_stop option \<times> 's) \<Rightarrow> nat \<Rightarrow> fields list \<Rightarrow> 's \<Rightarrow> md_stop option \<times> 's" where
  "for_groups f 0 gs s = (None, s)"
| "for_groups f (Suc n) [] s = (Some FieldError, s)"
| "for_groups f (Suc n) (g # gs) s = (case f g s of
     (None, s') \<Rightarrow> for_groups f n gs s' | (Some e, s') \<Rightarrow> (Some e, s'))"

section \<open>Broadcast\<close>

definition MAX_MSG_SIZE :: nat where "MAX_MSG_SIZE = 256"

text \<open>A socket that was never set is an uninitialised pointer, which must not be read. The assertion
  is there in a build without \<^verbatim>\<open>NDEBUG\<close>.\<close>

definition broadcast_bbo_book ::
  "('tm, 'dt, 't) md_env \<Rightarrow> string \<Rightarrow> dbl \<Rightarrow> dbl \<Rightarrow> dbl \<Rightarrow> dbl \<Rightarrow> uint32 \<Rightarrow> md_app \<Rightarrow> md_stop option \<times> md_app" where
  "broadcast_bbo_book E s bb ba bs as vid ap =
    (let m = \<lparr>m_symbol = c_str s, m_bid_venue_id = vid, m_bid_price = bb, m_bid_size = bs,
              m_ask_venue_id = vid, m_ask_price = ba, m_ask_size = as, m_sequence = 0\<rparr>
     in case md_socket ap of
          None \<Rightarrow> (Some Undefined, ap)
        | Some _ \<Rightarrow> if me_size E m < MAX_MSG_SIZE then (None, ap\<lparr>md_bcast := md_bcast ap @ [m]\<rparr>)
            else (Some AssertFails, ap))"

text \<open>The end of both handlers: the best prices of the book in hand (\<open>None\<close> is the null pointer),
  broadcast under the last symbol read.\<close>

definition book_in_hand :: "string option \<Rightarrow> md_app \<Rightarrow> kbook option" where
  "book_in_hand cur ap = (case cur of None \<Rightarrow> None | Some k \<Rightarrow> getBook k ap)"

definition broadcast_book ::
  "('tm, 'dt, 't) md_env \<Rightarrow> bool \<Rightarrow> md_vars \<Rightarrow> string option \<Rightarrow> md_app \<Rightarrow> md_stop option \<times> md_app" where
  "broadcast_book E publish v cur ap = (case book_in_hand cur ap of
     None \<Rightarrow> (Some NullBook, ap)
   | Some b \<Rightarrow>
      (if publish then
         (case get_string (v_symbol v) of
            Inl e \<Rightarrow> (Some e, ap)
          | Inr s \<Rightarrow> broadcast_bbo_book E s (bestPrice BID b) (bestPrice ASK b)
              (bestPriceVolume BID b) (bestPriceVolume ASK b) (word_of_int (mdc_venue_id (md_cfg ap))) ap)
       else (None, ap)))"

section \<open>Full refresh\<close>

definition refresh_vars :: "fields \<Rightarrow> md_vars \<Rightarrow> md_vars" where
  "refresh_vars g v = v\<lparr>v_symbol := if_set g Symbol (v_symbol v), v_type := if_set g MDEntryType (v_type v),
     v_id := if_set g MDEntryID (v_id v), v_px := if_set g MDEntryPx (v_px v),
     v_size := if_set g MDEntrySize (v_size v), v_quote_id := if_set g QuoteEntryID (v_quote_id v)\<rparr>"

text \<open>What an entry adds to the book: id, side, size, price and sending time. The quote entry id
  stands in for an empty entry id.\<close>

definition snapshot_quote ::
  "('tm, 'dt, 't) md_env \<Rightarrow> fix_value \<Rightarrow> md_vars \<Rightarrow> md_stop + (uint32 \<times> side \<times> dbl \<times> dbl \<times> timespec)" where
  "snapshot_quote E st v =
     bnd (get_time st) (\<lambda>_. bnd (get_char (v_type v)) (\<lambda>c. bnd (get_string (v_id v)) (\<lambda>i1.
     bnd (if i1 = [] then get_string (v_quote_id v) else Inr i1) (\<lambda>i.
     bnd (get_double (v_px v)) (\<lambda>p. bnd (get_size (v_size v)) (\<lambda>sz.
     bnd (send_time E st) (\<lambda>xt. Inr (md_hash E i, char2side_t c, sz, p, xt))))))))"

definition refresh_entry ::
  "('tm, 'dt, 't) md_env \<Rightarrow> fix_value \<Rightarrow> string option \<Rightarrow> fields \<Rightarrow> md_vars \<times> md_app
     \<Rightarrow> md_stop option \<times> md_vars \<times> md_app" where
  "refresh_entry E st cur g = (\<lambda>(v0, ap). let v = refresh_vars g v0 in
     case snapshot_quote E st v of
       Inl e \<Rightarrow> (Some e, v, ap)
     | Inr (i, s, sz, p, xt) \<Rightarrow>
         (case (cur, book_in_hand cur ap) of
            (Some k, Some b) \<Rightarrow>
              (case book_add i s sz p (me_clk E (md_clock ap)) xt b of
                 None \<Rightarrow> (Some Undefined, v, ap)
               | Some (_, b') \<Rightarrow> (None, v, addBook k b' (ap\<lparr>md_clock := md_clock ap + 1\<rparr>)))
          | _ \<Rightarrow> (Some NullBook, v, ap)))"

text \<open>The book found before the loop, cleared; none when the message has no entries.\<close>

definition refresh_start :: "int \<Rightarrow> md_vars \<Rightarrow> md_app \<Rightarrow> md_stop + string option \<times> md_app" where
  "refresh_start n v ap = (if 0 < n then bnd (get_string (v_symbol v)) (\<lambda>s. Inr
     (case getBook s ap of None \<Rightarrow> (None, ap) | Some b \<Rightarrow> (Some s, addBook s (book_clear b) ap)))
   else Inr (None, ap))"

definition full_refresh ::
  "('tm, 'dt, 't) md_env \<Rightarrow> group_message \<Rightarrow> md_app \<Rightarrow> md_stop option \<times> md_app" where
  "full_refresh E m ap = (case fm_header m SendingTime of
     None \<Rightarrow> (Some FieldError, ap)
   | Some st \<Rightarrow> (case fm_body m NoMDEntries of
       None \<Rightarrow> (None, ap)
     | Some nv \<Rightarrow>
        (let n = (case get_int nv of Inr i \<Rightarrow> i | Inl _ \<Rightarrow> 0);
             v = init_vars\<lparr>v_symbol := if_set (fm_body m) Symbol FEmpty\<rparr>
         in case refresh_start n v ap of
              Inl e \<Rightarrow> (Some e, ap)
            | Inr (cur, ap1) \<Rightarrow>
               (case for_groups (refresh_entry E st cur) (nat n) (groups_of NoMDEntries m) (v, ap1) of
                  (Some e, v', ap2) \<Rightarrow> (Some e, ap2)
                | (None, v', ap2) \<Rightarrow> broadcast_book E True v' cur ap2))))"

section \<open>Incremental refresh\<close>

text \<open>A size that an entry does not set is zero; the other fields are kept.\<close>

definition update_vars :: "fields \<Rightarrow> md_vars \<Rightarrow> md_vars" where
  "update_vars g v = v\<lparr>v_action := if_set g MDUpdateAction (v_action v), v_type := if_set g MDEntryType (v_type v),
     v_id := if_set g MDEntryID (v_id v), v_symbol := if_set g Symbol (v_symbol v),
     v_px := if_set g MDEntryPx (v_px v), v_size := if_set g MDEntrySize (FDouble 0)\<rparr>"

definition apply_new ::
  "bool \<Rightarrow> uint32 \<Rightarrow> side \<Rightarrow> dbl \<Rightarrow> dbl \<Rightarrow> timespec \<Rightarrow> timespec \<Rightarrow> kbook \<Rightarrow> md_stop + kbook" where
  "apply_new replaces i s sz p t xt b =
     bnd (if replaces then defined (map_option snd (book_remove i t xt b)) else Inr b)
       (\<lambda>b. defined (map_option snd (book_add i s sz p t xt b)))"

text \<open>A change with a reference id renames and replaces the order; one without changes the size
  of an order that is there, whatever its price and side say.\<close>

definition apply_rename ::
  "uint32 \<Rightarrow> uint32 \<Rightarrow> side \<Rightarrow> dbl \<Rightarrow> dbl \<Rightarrow> timespec \<Rightarrow> timespec \<Rightarrow> kbook \<Rightarrow> md_stop + kbook" where
  "apply_rename r i s sz p t xt b =
     bnd (defined (map_option snd (book_remove r t xt b)))
       (\<lambda>b. defined (map_option snd (book_add i s sz p t xt b)))"

definition apply_change :: "uint32 \<Rightarrow> dbl \<Rightarrow> timespec \<Rightarrow> timespec \<Rightarrow> kbook \<Rightarrow> md_stop + kbook" where
  "apply_change i sz t xt b = (case getOrder i b of
     None \<Rightarrow> Inr b | Some _ \<Rightarrow> defined (map_option snd (book_modify i sz t xt b)))"

definition apply_delete :: "uint32 \<Rightarrow> timespec \<Rightarrow> timespec \<Rightarrow> kbook \<Rightarrow> md_stop + kbook" where
  "apply_delete i t xt b = (case getOrder i b of
     None \<Rightarrow> Inl AssertFails | Some _ \<Rightarrow> defined (map_option snd (book_remove i t xt b)))"

definition apply_update ::
  "('tm, 'dt, 't) md_env \<Rightarrow> bool \<Rightarrow> fields \<Rightarrow> md_vars \<Rightarrow> timespec \<Rightarrow> timespec \<Rightarrow> kbook \<Rightarrow> md_stop + kbook" where
  "apply_update E replaces g v t xt b =
     bnd (get_char (v_type v)) (\<lambda>c. bnd (get_size (v_size v)) (\<lambda>sz. bnd (get_string (v_id v)) (\<lambda>id.
     bnd (get_char (v_action v)) (\<lambda>action.
       let s = char2side_t c; i = md_hash E id in
       if action = MDUpdateAction_NEW then
         bnd (get_double (v_px v)) (\<lambda>p. apply_new replaces i s sz p t xt b)
       else if action = MDUpdateAction_CHANGE then
         bnd (get_double (v_px v)) (\<lambda>p. case g MDEntryRefID of
             Some rv \<Rightarrow> bnd (get_string rv) (\<lambda>r. apply_rename (md_hash E r) i s sz p t xt b)
           | None \<Rightarrow> apply_change i sz t xt b)
       else if action = MDUpdateAction_DELETE then apply_delete i t xt b
       else Inl Exits))))"

text \<open>One entry: the book is looked up for each; an unknown symbol is only reported.\<close>

definition update_entry ::
  "('tm, 'dt, 't) md_env \<Rightarrow> fix_value \<Rightarrow> fields \<Rightarrow> md_vars \<times> string option \<times> md_app
     \<Rightarrow> md_stop option \<times> md_vars \<times> string option \<times> md_app" where
  "update_entry E st g = (\<lambda>(v0, cur, ap). let v = update_vars g v0 in
     case send_time E st of
       Inl e \<Rightarrow> (Some e, v, cur, ap)
     | Inr xt \<Rightarrow>
        (let t = me_clk E (md_clock ap); ap = ap\<lparr>md_clock := md_clock ap + 1\<rparr> in
         case get_string (v_symbol v) of
           Inl e \<Rightarrow> (Some e, v, cur, ap)
         | Inr k \<Rightarrow> (case getBook k ap of
             None \<Rightarrow> (None, v, None, ap)
           | Some b \<Rightarrow> (case apply_update E (mdc_new_replaces (md_cfg ap)) g v t xt b of
               Inl e \<Rightarrow> (Some e, v, Some k, ap)
             | Inr b' \<Rightarrow> (None, v, Some k, addBook k b' ap)))))"

definition incremental_update ::
  "('tm, 'dt, 't) md_env \<Rightarrow> group_message \<Rightarrow> md_app \<Rightarrow> md_stop option \<times> md_app" where
  "incremental_update E m ap = (case fm_header m SendingTime of
     None \<Rightarrow> (Some FieldError, ap)
   | Some st \<Rightarrow> (case fm_body m NoMDEntries of
       None \<Rightarrow> (None, ap)
     | Some nv \<Rightarrow> (case get_int nv of
         Inl e \<Rightarrow> (Some e, ap)
       | Inr n \<Rightarrow>
          (let v = init_vars\<lparr>v_symbol := if_set (fm_body m) Symbol FEmpty\<rparr> in
           case for_groups (update_entry E st) (nat n) (groups_of NoMDEntries m) (v, None, ap) of
             (Some e, v', cur, ap') \<Rightarrow> (Some e, ap')
           | (None, v', cur, ap') \<Rightarrow> broadcast_book E (mdc_is_publishing (md_cfg ap')) v' cur ap'))))"

section \<open>Dispatch\<close>

text \<open>The status of a trading session is only logged; reading it may throw.\<close>

definition trading_session_status :: "group_message \<Rightarrow> md_app \<Rightarrow> md_stop option \<times> md_app" where
  "trading_session_status m ap = (case fm_body m TradSesStatus of
     None \<Rightarrow> (None, ap)
   | Some v \<Rightarrow> (case get_int v of Inl e \<Rightarrow> (Some e, ap) | Inr _ \<Rightarrow> (None, ap)))"

text \<open>The messages for which the class has a handler; those of another type are refused by
  QuickFIX's cracker.\<close>

datatype md_message =
    MarketDataSnapshotFullRefresh group_message
  | MarketDataIncrementalRefresh group_message
  | MarketDataRequestReject
  | TradingSessionStatus group_message
  | MdOtherMessage

definition md_onMessage ::
  "('tm, 'dt, 't) md_env \<Rightarrow> md_message \<Rightarrow> md_app \<Rightarrow> md_stop option \<times> md_app" where
  "md_onMessage E msg ap = (case msg of
     MarketDataSnapshotFullRefresh m \<Rightarrow> full_refresh E m ap
   | MarketDataIncrementalRefresh m \<Rightarrow> incremental_update E m ap
   | MarketDataRequestReject \<Rightarrow> (None, ap)
   | TradingSessionStatus m \<Rightarrow> trading_session_status m ap
   | MdOtherMessage \<Rightarrow> (Some UnsupportedMessage, ap))"

definition md_fromApp ::
  "('tm, 'dt, 't) md_env \<Rightarrow> md_message \<Rightarrow> md_app \<Rightarrow> md_stop option \<times> md_app" where
  "md_fromApp E msg ap = md_onMessage E msg (ap\<lparr>md_appMsgCount := md_appMsgCount ap + 1\<rparr>)"

end
