(* ===== verification/MdParserCorrect.thy ===== *)
theory MdParserCorrect
  imports MdParser BookV2Correct JenkinsCorrect
begin

text \<open>
  What the FIX market data handler does with a feed. The specification keeps, for every symbol, a
  map from the texts of the exchange's entry ids to side, price and size; it knows nothing of hashes,
  orders, limits or trees. The handler refines it as long as no two ids in use have the same hash.
\<close>

section \<open>Book ids\<close>

text \<open>The id depends on the text only, not on the machine or on where the text is stored.\<close>

definition entry_hash :: "string \<Rightarrow> uint32" where
  "entry_hash s = snd (snd (lookup3 le_word (map of_char s) (hash_seed (length s) 0 0)))"

lemma bytes_at_string: "bytes_at (string_memory a s) a (length s) = map of_char s"
  by (rule nth_equalityI) (auto simp: string_memory_def)

lemma md_hash_text: "md_hash E s = entry_hash s"
  by (simp add: md_hash_def entry_hash_def hashlittle_def hashlittle_body_lookup3 bytes_at_string
      hash_seed_0 Let_def split_beta)

text \<open>The last mixing as seven equal steps, to compute with.\<close>

definition final_step :: "nat \<Rightarrow> abc \<Rightarrow> abc" where
  "final_step k = (\<lambda>(x, y, z). (z, (x XOR y) - rot y k, y))"

lemma final_steps:
  "final (a, b, c) = (case fold final_step [14, 11, 25, 16, 4, 14, 24] (c, b, a) of (a, c, b) \<Rightarrow> (a, b, c))"
  by (simp add: final_def final_step_def Let_def)

lemma hash_collision: "entry_hash ''147257'' = entry_hash ''152941''"
  by (simp add: entry_hash_def lookup3.simps hash_seed_0 le_word_def final_steps) (simp add: final_step_def rot_def)

section \<open>The specification of a feed\<close>

text \<open>The live quotes of a symbol by the text of their entry ids, and the feed: the quotes of every
  subscribed symbol.\<close>

type_synonym quotes = "string \<rightharpoonup> side \<times> dbl \<times> dbl"
type_synonym feed = "string \<rightharpoonup> quotes"

text \<open>What an exchange may say of a quote: it is new, it replaces another one (or itself), its size
  changes, it is deleted.\<close>

datatype quote_op =
    QNew string side dbl dbl
  | QReplace string string side dbl dbl
  | QResize string dbl
  | QDelete string

text \<open>An entry that is neither a bid nor an ask is no quote. \<open>None\<close> is a breach of the protocol: a
  live id is announced again, or a quote that is not live is deleted.\<close>

definition put_quote :: "string \<Rightarrow> side \<Rightarrow> dbl \<Rightarrow> dbl \<Rightarrow> quotes \<Rightarrow> quotes option" where
  "put_quote i s sz p m = (if s = NO_SIDE then Some m
     else if m i = None then Some (m(i \<mapsto> (s, p, sz))) else None)"

fun q_step :: "quote_op \<Rightarrow> quotes \<Rightarrow> quotes option" where
  "q_step (QNew i s sz p) m = put_quote i s sz p m"
| "q_step (QReplace r i s sz p) m = put_quote i s sz p (m(r := None))"
| "q_step (QResize i sz) m = Some (case m i of None \<Rightarrow> m | Some (s, p, _) \<Rightarrow> m(i \<mapsto> (s, p, sz)))"
| "q_step (QDelete i) m = (if m i = None then None else Some (m(i := None)))"

fun q_ids :: "quote_op \<Rightarrow> string set" where
  "q_ids (QNew i s sz p) = {i}"
| "q_ids (QReplace r i s sz p) = {r, i}"
| "q_ids (QResize i sz) = {i}"
| "q_ids (QDelete i) = {i}"

fun feed_run :: "(string \<times> quote_op) list \<Rightarrow> feed \<Rightarrow> feed option" where
  "feed_run [] f = Some f"
| "feed_run ((k, q) # es) f = (case f k of
     None \<Rightarrow> None
   | Some m \<Rightarrow> (case q_step q m of None \<Rightarrow> None | Some m' \<Rightarrow> feed_run es (f(k \<mapsto> m'))))"

text \<open>The best price of a side, and the volume there in the 32 bits of the book.\<close>

definition quotes_at :: "side \<Rightarrow> dbl \<Rightarrow> quotes \<Rightarrow> string set" where
  "quotes_at s p m = {i. \<exists>sz. m i = Some (s, p, sz)}"

definition quote_size :: "quotes \<Rightarrow> string \<Rightarrow> uint32" where
  "quote_size m i = (case m i of None \<Rightarrow> 0 | Some (_, _, sz) \<Rightarrow> word_of_int (trunc_dbl sz))"

definition best_quote :: "side \<Rightarrow> quotes \<Rightarrow> dbl" where
  "best_quote s m = (let ps = {p. quotes_at s p m \<noteq> {}} in
     if ps = {} then (if s = BID then of_int NO_BID else of_int NO_ASK)
     else if s = BID then Max ps else Min ps)"

definition best_volume :: "side \<Rightarrow> quotes \<Rightarrow> dbl" where
  "best_volume s m = of_int (uint (\<Sum>i \<in> quotes_at s (best_quote s m) m. quote_size m i))"

definition bbo_of :: "uint32 \<Rightarrow> string \<Rightarrow> quotes \<Rightarrow> bbo_msg" where
  "bbo_of vid k m = \<lparr>m_symbol = c_str k, m_bid_venue_id = vid, m_bid_price = best_quote BID m,
     m_bid_size = best_volume BID m, m_ask_venue_id = vid, m_ask_price = best_quote ASK m,
     m_ask_size = best_volume ASK m, m_sequence = 0\<rparr>"

section \<open>Books against quotes\<close>

text \<open>\<open>I\<close> are the ids in use; the book has their hashes and nothing else.\<close>

definition hash_rel :: "string set \<Rightarrow> abook \<Rightarrow> quotes \<Rightarrow> bool" where
  "hash_rel I a m \<longleftrightarrow> dom m \<subseteq> I \<and> (\<forall>i \<in> I. a (entry_hash i) = m i) \<and> dom a \<subseteq> entry_hash ` I"

lemma hash_rel_upd:
  assumes "inj_on entry_hash I" "hash_rel I a m" "i \<in> I"
  shows "hash_rel I (a(entry_hash i := x)) (m(i := x))"
  using assms by (auto simp: hash_rel_def inj_on_def split: if_splits)

lemma hash_rel_at: "hash_rel I a m \<Longrightarrow> i \<in> I \<Longrightarrow> a (entry_hash i) = m i"
  by (simp add: hash_rel_def)

lemma hash_rel_ids:
  assumes "hash_rel I a m"
  shows "abs_ids a s p = entry_hash ` quotes_at s p m"
proof (intro set_eqI iffI)
  fix h assume "h \<in> abs_ids a s p"
  then obtain sz where sz: "a h = Some (s, p, sz)" by (auto simp: abs_ids_def)
  then obtain i where "i \<in> I" "h = entry_hash i" using assms by (auto simp: hash_rel_def)
  then show "h \<in> entry_hash ` quotes_at s p m"
    using sz hash_rel_at [OF assms] by (auto simp: quotes_at_def)
next
  fix h assume "h \<in> entry_hash ` quotes_at s p m"
  then obtain i sz where i: "h = entry_hash i" "m i = Some (s, p, sz)" by (auto simp: quotes_at_def)
  then have "i \<in> I" using assms by (auto simp: hash_rel_def)
  then show "h \<in> abs_ids a s p" using i hash_rel_at [OF assms] by (auto simp: abs_ids_def)
qed

lemma hash_rel_best: "hash_rel I a m \<Longrightarrow> abs_best s a = best_quote s m"
  by (simp add: abs_best_def best_quote_def hash_rel_ids)

lemma hash_rel_volume:
  assumes "inj_on entry_hash I" "hash_rel I a m"
  shows "(\<Sum>h \<in> abs_ids a s p. abs_vol a h) = (\<Sum>i \<in> quotes_at s p m. quote_size m i)"
proof -
  have I: "quotes_at s p m \<subseteq> I" using assms(2) by (auto simp: hash_rel_def quotes_at_def)
  have "(\<Sum>h \<in> entry_hash ` quotes_at s p m. abs_vol a h) = (\<Sum>i \<in> quotes_at s p m. abs_vol a (entry_hash i))"
    using inj_on_subset [OF assms(1) I] by (simp add: sum.reindex)
  also have "\<dots> = (\<Sum>i \<in> quotes_at s p m. quote_size m i)"
    using I hash_rel_at [OF assms(2)] by (intro sum.cong) (auto simp: abs_vol_def quote_size_def)
  finally show ?thesis by (simp add: hash_rel_ids [OF assms(2)])
qed

text \<open>Every order store follows the quotes through the three operations the handler uses.\<close>

context order_store
begin

definition tracks :: "string set \<Rightarrow> 'b \<Rightarrow> quotes \<Rightarrow> bool" where
  "tracks I b m \<longleftrightarrow> inv b \<and> synced b \<and> hash_rel I (view b) m"

lemma tracks_step:
  assumes "tracks I b m" "sizes_ok op" "fresh_op op (view b)" "hash_rel I (abs_step op (view b)) m'"
  shows "\<exists>r b'. step op b = Some (r, b') \<and> tracks I b' m'"
  using step_inv [of b op] step_view [of b op] assms by (fastforce simp: tracks_def)

lemma tracks_add:
  assumes "inj_on entry_hash I" "tracks I b m" "i \<in> I" "u32_in_range sz" "put_quote i s sz p m = Some m'"
  shows "\<exists>r b'. step (OpAdd (entry_hash i) s sz p t xt) b = Some (r, b') \<and> tracks I b' m'"
proof (rule tracks_step [OF assms(2)])
  have a: "hash_rel I (view b) m" using assms(2) by (simp add: tracks_def)
  show "fresh_op (OpAdd (entry_hash i) s sz p t xt) (view b)"
    using hash_rel_at [OF a assms(3)] assms(5) by (auto simp: put_quote_def split: if_splits)
  show "hash_rel I (abs_step (OpAdd (entry_hash i) s sz p t xt) (view b)) m'"
    using a hash_rel_upd [OF assms(1) a assms(3)] assms(5) by (auto simp: put_quote_def split: if_splits)
qed (use assms(4) in simp)

lemma tracks_remove:
  assumes "inj_on entry_hash I" "tracks I b m" "i \<in> I"
  shows "\<exists>r b'. step (OpRemove (entry_hash i) t xt) b = Some (r, b') \<and> tracks I b' (m(i := None))"
  by (rule tracks_step [OF assms(2)])
    (use assms(2) hash_rel_upd [OF assms(1) _ assms(3)] in \<open>auto simp: tracks_def\<close>)

lemma tracks_modify:
  assumes "inj_on entry_hash I" "tracks I b m" "i \<in> I" "u32_in_range sz" "q_step (QResize i sz) m = Some m'"
  shows "\<exists>r b'. step (OpModify (entry_hash i) sz t xt) b = Some (r, b') \<and> tracks I b' m'"
proof (rule tracks_step [OF assms(2)])
  have a: "hash_rel I (view b) m" using assms(2) by (simp add: tracks_def)
  show "hash_rel I (abs_step (OpModify (entry_hash i) sz t xt) (view b)) m'"
    using a hash_rel_at [OF a assms(3)] hash_rel_upd [OF assms(1) a assms(3)] assms(5)
    by (auto simp: abs_modify_def split: option.splits)
qed (use assms(4) in simp_all)

end

section \<open>Entries\<close>

text \<open>What an entry of an incremental refresh says, the field objects being as the loop has them.\<close>

definition read_entry :: "bool \<Rightarrow> fields \<Rightarrow> md_vars \<Rightarrow> (string \<times> quote_op) option" where
  "read_entry replaces g v =
    (case (get_string (v_symbol v), get_char (v_type v), get_size (v_size v), get_string (v_id v), get_char (v_action v)) of
       (Inr k, Inr c, Inr sz, Inr i, Inr action) \<Rightarrow>
         (let s = char2side_t c in
          if action = MDUpdateAction_NEW then
            (case get_double (v_px v) of
               Inr p \<Rightarrow> Some (k, if replaces then QReplace i i s sz p else QNew i s sz p) | Inl _ \<Rightarrow> None)
          else if action = MDUpdateAction_CHANGE then
            (case (get_double (v_px v), g MDEntryRefID) of
               (Inr p, Some rv) \<Rightarrow> (case get_string rv of Inr r \<Rightarrow> Some (k, QReplace r i s sz p) | Inl _ \<Rightarrow> None)
             | (Inr p, None) \<Rightarrow> Some (k, QResize i sz)
             | _ \<Rightarrow> None)
          else if action = MDUpdateAction_DELETE then Some (k, QDelete i) else None)
     | _ \<Rightarrow> None)"

lemma uint32_range: "u32_in_range (unsigned (w :: uint32))"
proof -
  have "of_int (uint w) < (of_int (2 ^ 32) :: rat)" "0 \<le> (of_int (uint w) :: rat)"
    using uint_lt2p [of w] by (simp_all only: of_int_less_iff of_int_0_le_iff) simp_all
  then have "-1 < (of_int (uint w) :: rat) \<and> (of_int (uint w) :: rat) < 4294967296" by auto
  then show ?thesis by (simp add: u32_in_range_def)
qed

lemma get_size_range: "get_size v = Inr sz \<Longrightarrow> u32_in_range sz"
  by (cases "get_double v") (auto simp: get_size_def split: option.splits intro: uint32_range)

lemma getOrder_None: "getOrder i b = None \<longleftrightarrow> abs_book b i = None"
  by (simp add: getOrder_def abs_book_def)

lemma tracks_view: "kbook.tracks I b m \<Longrightarrow> i \<in> I \<Longrightarrow> abs_book b (entry_hash i) = m i"
  by (auto simp: kbook.tracks_def intro: hash_rel_at)

lemmas kbook_tracks = kbook.tracks_add [unfolded book_step.simps]
  kbook.tracks_remove [unfolded book_step.simps] kbook.tracks_modify [unfolded book_step.simps]

lemma apply_replace_tracks:
  assumes "inj_on entry_hash I" "kbook.tracks I b m" "r \<in> I" "i \<in> I" "u32_in_range sz"
    "q_step (QReplace r i s sz p) m = Some m'"
  shows "\<exists>b'. apply_rename (entry_hash r) (entry_hash i) s sz p t xt b = Inr b' \<and> kbook.tracks I b' m'"
proof -
  obtain x b1 where b1: "book_remove (entry_hash r) t xt b = Some (x, b1)" "kbook.tracks I b1 (m(r := None))"
    using kbook_tracks(2) [OF assms(1-3), of t xt] by blast
  obtain y b2 where "book_add (entry_hash i) s sz p t xt b1 = Some (y, b2)" "kbook.tracks I b2 m'"
    using kbook_tracks(1) [OF assms(1) b1(2) assms(4,5), of s p m' t xt] assms(6) by auto
  then show ?thesis using b1 by (simp add: apply_rename_def defined_def)
qed

lemma apply_new_rename:
  "apply_new True i s sz p t xt b = apply_rename i i s sz p t xt b"
  by (simp add: apply_new_def apply_rename_def)

lemma apply_change_tracks:
  assumes "inj_on entry_hash I" "kbook.tracks I b m" "i \<in> I" "u32_in_range sz" "q_step (QResize i sz) m = Some m'"
  shows "\<exists>b'. apply_change (entry_hash i) sz t xt b = Inr b' \<and> kbook.tracks I b' m'"
proof (cases "getOrder (entry_hash i) b")
  case None
  then have "m' = m" using tracks_view [OF assms(2,3)] assms(5) by (auto simp: getOrder_None split: option.splits)
  then show ?thesis using None assms(2) by (simp add: apply_change_def)
next
  case (Some ord)
  then show ?thesis
    using kbook_tracks(3) [OF assms(1-4), of m' t xt] assms(5) by (auto simp: apply_change_def defined_def)
qed

lemma apply_delete_tracks:
  assumes "inj_on entry_hash I" "kbook.tracks I b m" "i \<in> I" "q_step (QDelete i) m = Some m'"
  shows "\<exists>b'. apply_delete (entry_hash i) t xt b = Inr b' \<and> kbook.tracks I b' m'"
proof -
  have "getOrder (entry_hash i) b \<noteq> None" and m': "m' = m(i := None)"
    using tracks_view [OF assms(2,3)] assms(4) by (auto simp: getOrder_None split: if_splits)
  then show ?thesis
    using kbook_tracks(2) [OF assms(1-3), of t xt] by (auto simp: apply_delete_def defined_def)
qed

text \<open>An entry acts on the book as the quote operation it says, on the hashes of its ids.\<close>

fun apply_q :: "quote_op \<Rightarrow> timespec \<Rightarrow> timespec \<Rightarrow> kbook \<Rightarrow> md_stop + kbook" where
  "apply_q (QNew i s sz p) t xt b = apply_new False (entry_hash i) s sz p t xt b"
| "apply_q (QReplace r i s sz p) t xt b = apply_rename (entry_hash r) (entry_hash i) s sz p t xt b"
| "apply_q (QResize i sz) t xt b = apply_change (entry_hash i) sz t xt b"
| "apply_q (QDelete i) t xt b = apply_delete (entry_hash i) t xt b"

fun q_size_ok :: "quote_op \<Rightarrow> bool" where
  "q_size_ok (QNew i s sz p) = u32_in_range sz"
| "q_size_ok (QReplace r i s sz p) = u32_in_range sz"
| "q_size_ok (QResize i sz) = u32_in_range sz"
| "q_size_ok (QDelete i) = True"

lemma apply_update_read:
  assumes "read_entry replaces g v = Some (k, q)"
  shows "apply_update E replaces g v t xt b = apply_q q t xt b" "q_size_ok q" "get_string (v_symbol v) = Inr k"
proof -
  obtain c sz i a where v: "get_char (v_type v) = Inr c" "get_size (v_size v) = Inr sz"
    "get_string (v_id v) = Inr i" "get_char (v_action v) = Inr a"
    using assms by (auto simp: read_entry_def split: sum.splits)
  show "apply_update E replaces g v t xt b = apply_q q t xt b" "q_size_ok q" "get_string (v_symbol v) = Inr k"
    using assms v get_size_range [OF v(2)]
    by (auto simp: read_entry_def apply_update_def md_hash_text apply_new_rename Let_def
        split: sum.splits if_splits option.splits)
qed

lemma apply_q_tracks:
  assumes "inj_on entry_hash I" "kbook.tracks I b m" "q_size_ok q" "q_ids q \<subseteq> I" "q_step q m = Some m'"
  shows "\<exists>b'. apply_q q t xt b = Inr b' \<and> kbook.tracks I b' m'"
proof (cases q)
  case (QNew i s sz p)
  then show ?thesis
    using kbook_tracks(1) [OF assms(1,2), of i sz s p m' t xt] assms(3-5)
    by (auto simp: apply_new_def defined_def)
next
  case (QReplace r i s sz p)
  then show ?thesis using apply_replace_tracks [OF assms(1,2), of r i sz s p m' t xt] assms(3-5) by simp
next
  case (QResize i sz)
  then show ?thesis using apply_change_tracks [OF assms(1,2), of i sz m' t xt] assms(3-5) by simp
next
  case (QDelete i)
  then show ?thesis using apply_delete_tracks [OF assms(1,2), of i m' t xt] assms(3-5) by simp
qed

section \<open>Incremental refreshes\<close>

definition feed_rel :: "string set \<Rightarrow> md_app \<Rightarrow> feed \<Rightarrow> bool" where
  "feed_rel I ap f \<longleftrightarrow> (\<forall>k. rel_option (kbook.tracks I) (getBook k ap) (f k))"

lemma getBook_addBook [simp]: "getBook j (addBook k b ap) = (if j = k then Some b else getBook j ap)"
  by (simp add: getBook_def addBook_def)

lemma addBook_fields [simp]:
  "md_cfg (addBook k b ap) = md_cfg ap" "md_bcast (addBook k b ap) = md_bcast ap" "md_clock (addBook k b ap) = md_clock ap"
  "md_socket (addBook k b ap) = md_socket ap"
  by (simp_all add: addBook_def)

lemma getBook_fields [simp]:
  "getBook k (ap\<lparr>md_clock := n\<rparr>) = getBook k ap" "getBook k (ap\<lparr>md_bcast := bs\<rparr>) = getBook k ap"
  "getBook k (ap\<lparr>md_appMsgCount := c\<rparr>) = getBook k ap" "getBook k (ap\<lparr>md_sent := ms\<rparr>) = getBook k ap"
  by (simp_all add: getBook_def)

lemma feed_rel_fields [simp]:
  "feed_rel I (ap\<lparr>md_clock := n\<rparr>) f = feed_rel I ap f" "feed_rel I (ap\<lparr>md_bcast := bs\<rparr>) f = feed_rel I ap f"
  "feed_rel I (ap\<lparr>md_appMsgCount := c\<rparr>) f = feed_rel I ap f" "feed_rel I (ap\<lparr>md_sent := ms\<rparr>) f = feed_rel I ap f"
  by (simp_all add: feed_rel_def)

lemma feed_rel_addBook:
  "feed_rel I ap f \<Longrightarrow> kbook.tracks I b m \<Longrightarrow> feed_rel I (addBook k b ap) (f(k \<mapsto> m))"
  by (simp add: feed_rel_def)

lemma feed_rel_book:
  assumes "feed_rel I ap f" "f k = Some m"
  obtains b where "getBook k ap = Some b" "kbook.tracks I b m"
  using assms by (metis feed_rel_def option_rel_Some2)

lemma feed_rel_no_book: "feed_rel I ap f \<Longrightarrow> getBook k ap = None \<longleftrightarrow> f k = None"
  by (metis feed_rel_def option.rel_distinct(1,2) option.exhaust)

lemma update_entry_feed:
  assumes "inj_on entry_hash I" "feed_rel I ap f" "send_time E st = Inr xt"
    "read_entry (mdc_new_replaces (md_cfg ap)) g (update_vars g v) = Some (k, q)"
    "q_ids q \<subseteq> I" "f k = Some m" "q_step q m = Some m'"
  shows "\<exists>ap'. update_entry E st g (v, cur, ap) = (None, update_vars g v, Some k, ap') \<and>
    feed_rel I ap' (f(k \<mapsto> m')) \<and> md_cfg ap' = md_cfg ap \<and> md_bcast ap' = md_bcast ap \<and> md_socket ap' = md_socket ap"
proof -
  obtain b where b: "getBook k ap = Some b" "kbook.tracks I b m"
    using feed_rel_book [OF assms(2,6)] .
  obtain b' where b': "apply_update E (mdc_new_replaces (md_cfg ap)) g (update_vars g v) (me_clk E (md_clock ap)) xt b
      = Inr b'" "kbook.tracks I b' m'"
    using apply_q_tracks [OF assms(1) b(2) apply_update_read(2) [OF assms(4)] assms(5,7)]
    by (auto simp: apply_update_read(1) [OF assms(4)])
  then show ?thesis
    using assms(2,3) b(1) apply_update_read(3) [OF assms(4)] by (simp add: update_entry_def Let_def feed_rel_addBook)
qed

fun read_entries :: "bool \<Rightarrow> fields list \<Rightarrow> md_vars \<Rightarrow> ((string \<times> quote_op) list \<times> md_vars) option" where
  "read_entries replaces [] v = Some ([], v)"
| "read_entries replaces (g # gs) v = (let v1 = update_vars g v in
     case read_entry replaces g v1 of None \<Rightarrow> None
     | Some e \<Rightarrow> map_option (\<lambda>(es, v'). (e # es, v')) (read_entries replaces gs v1))"

definition feed_ids :: "(string \<times> quote_op) list \<Rightarrow> string set" where
  "feed_ids es = (\<Union>e \<in> set es. q_ids (snd e))"

definition last_key :: "string option \<Rightarrow> (string \<times> quote_op) list \<Rightarrow> string option" where
  "last_key cur es = (if es = [] then cur else Some (fst (last es)))"

lemma last_key_Cons [simp]: "last_key cur ((k, q) # es) = last_key (Some k) es" "last_key cur [] = cur"
  by (simp_all add: last_key_def)

lemma update_entries_feed:
  assumes "inj_on entry_hash I" "send_time E st = Inr xt"
  shows "feed_rel I ap f \<Longrightarrow> read_entries (mdc_new_replaces (md_cfg ap)) gs v = Some (es, v') \<Longrightarrow>
    feed_ids es \<subseteq> I \<Longrightarrow> feed_run es f = Some f' \<Longrightarrow>
    \<exists>ap'. for_groups (update_entry E st) (length gs) gs (v, cur, ap) = (None, v', last_key cur es, ap') \<and>
      feed_rel I ap' f' \<and> md_cfg ap' = md_cfg ap \<and> md_bcast ap' = md_bcast ap \<and> md_socket ap' = md_socket ap"
proof (induction gs arbitrary: es v f cur ap)
  case (Cons g gs)
  let ?v = "update_vars g v" and ?r = "mdc_new_replaces (md_cfg ap)"
  obtain k q es1 where e: "es = (k, q) # es1" "read_entry ?r g ?v = Some (k, q)"
    "read_entries ?r gs ?v = Some (es1, v')"
    using Cons.prems(2) by (auto simp: Let_def split: option.splits prod.splits)
  obtain m m' where m: "f k = Some m" "q_step q m = Some m'" "feed_run es1 (f(k \<mapsto> m')) = Some f'"
    using Cons.prems(4) by (auto simp: e split: option.splits)
  have ids: "q_ids q \<subseteq> I" "feed_ids es1 \<subseteq> I" using Cons.prems(3) by (auto simp: e feed_ids_def)
  obtain ap1 where ap1: "update_entry E st g (v, cur, ap) = (None, ?v, Some k, ap1)"
    "feed_rel I ap1 (f(k \<mapsto> m'))" "md_cfg ap1 = md_cfg ap" "md_bcast ap1 = md_bcast ap" "md_socket ap1 = md_socket ap"
    using update_entry_feed [OF assms(1) Cons.prems(1) assms(2) e(2) ids(1) m(1,2), of cur] by blast
  show ?case
    using Cons.IH [OF ap1(2) _ ids(2) m(3), of ?v "Some k"] e(3) ap1 by (auto simp: e(1))
qed simp

lemma read_entries_symbol:
  "read_entries replaces gs v = Some (es, v') \<Longrightarrow> es \<noteq> [] \<Longrightarrow>
     get_string (v_symbol v') = Inr (fst (last es))"
proof (induction gs arbitrary: es v)
  case (Cons g gs)
  let ?v = "update_vars g v"
  obtain e es1 where e: "es = e # es1" "read_entry replaces g ?v = Some e" "read_entries replaces gs ?v = Some (es1, v')"
    using Cons.prems(1) by (auto simp: Let_def split: option.splits prod.splits)
  have "get_string (v_symbol ?v) = Inr (fst e)"
    using e(2) apply_update_read(3) by (cases e) simp
  then show ?case
    using e Cons.IH [OF e(3)] by (cases gs; cases "es1 = []") (auto simp: Let_def split: option.splits)
qed simp

lemma read_entries_length: "read_entries replaces gs v = Some (es, v') \<Longrightarrow> length es = length gs"
  by (induction gs arbitrary: es v) (auto simp: Let_def split: option.splits prod.splits)

lemma feed_run_last: "feed_run es f = Some f' \<Longrightarrow> es \<noteq> [] \<Longrightarrow> \<exists>m. f' (fst (last es)) = Some m"
proof -
  have keep: "feed_run es f = Some f' \<Longrightarrow> f k \<noteq> None \<Longrightarrow> f' k \<noteq> None" for es f f' k
    by (induction es f rule: feed_run.induct) (auto split: option.splits if_splits)
  assume "feed_run es f = Some f'" "es \<noteq> []"
  then show ?thesis
  proof (induction es f rule: feed_run.induct)
    case (2 k q es f)
    then obtain m m' where m: "f k = Some m" "q_step q m = Some m'" "feed_run es (f(k \<mapsto> m')) = Some f'"
      by (auto split: option.splits)
    show ?case using 2(1) [OF m] keep [OF m(3), of k] m(3) by (cases "es = []") auto
  qed simp
qed

section \<open>Broadcasts\<close>

definition venue_of :: "md_config \<Rightarrow> uint32" where
  "venue_of cfg = word_of_int (mdc_venue_id cfg)"

lemma tracks_best:
  assumes "inj_on entry_hash I" "kbook.tracks I b m" "s \<noteq> NO_SIDE"
  shows "bestPrice s b = best_quote s m" "bestPriceVolume s b = best_volume s m"
proof -
  have b: "book_wf b" "book_synced b" "hash_rel I (abs_book b) m"
    using assms(2) by (simp_all add: kbook.tracks_def)
  show 1: "bestPrice s b = best_quote s m"
    by (simp add: bestPrice_abs [OF b(1,2) assms(3)] hash_rel_best [OF b(3)])
  show "bestPriceVolume s b = best_volume s m"
    unfolding bestPriceVolume_def best_volume_def 1
    by (simp add: getTotalVolumeAtLimit_orders [OF b(1) assms(3)] abs_vol_orders [OF b(1,2) assms(3)]
        hash_rel_volume [OF assms(1) b(3)])
qed

lemma broadcast_book_feed:
  assumes "inj_on entry_hash I" "feed_rel I ap f" "f k = Some m" "get_string (v_symbol v) = Inr j"
    "publish \<longrightarrow> md_socket ap \<noteq> None \<and> me_size E (bbo_of (venue_of (md_cfg ap)) j m) < MAX_MSG_SIZE"
  shows "broadcast_book E publish v (Some k) ap =
    (None, ap\<lparr>md_bcast := md_bcast ap @ (if publish then [bbo_of (venue_of (md_cfg ap)) j m] else [])\<rparr>)"
proof -
  obtain b where b: "getBook k ap = Some b" "kbook.tracks I b m"
    using feed_rel_book [OF assms(2,3)] .
  then show ?thesis
    using tracks_best [OF assms(1) b(2)] assms(4,5)
    by (auto simp: broadcast_book_def book_in_hand_def broadcast_bbo_book_def bbo_of_def venue_of_def Let_def)
qed

end
