(* ===== verification/MdFeedCorrect.thy ===== *)
theory MdFeedCorrect
  imports MdParserCorrect
begin

text \<open>
  From entries to messages and sessions: the handler refines the specification of a feed over any
  sequence of messages after a logon, what an exception in the middle of a message leaves behind, and
  the messages that bring the process down.
\<close>

section \<open>Snapshots\<close>

fun put_quotes :: "(string \<times> side \<times> dbl \<times> dbl) list \<Rightarrow> quotes \<Rightarrow> quotes option" where
  "put_quotes [] m = Some m"
| "put_quotes ((i, s, sz, p) # qs) m =
     (case put_quote i s sz p m of None \<Rightarrow> None | Some m' \<Rightarrow> put_quotes qs m')"

definition read_quote :: "md_vars \<Rightarrow> (string \<times> side \<times> dbl \<times> dbl) option" where
  "read_quote v =
    (case (get_char (v_type v), get_string (v_id v), get_string (v_quote_id v), get_double (v_px v), get_size (v_size v)) of
       (Inr c, Inr i, Inr j, Inr p, Inr sz) \<Rightarrow> Some (if i = [] then j else i, char2side_t c, sz, p)
     | _ \<Rightarrow> None)"

fun read_quotes :: "fields list \<Rightarrow> md_vars \<Rightarrow> ((string \<times> side \<times> dbl \<times> dbl) list \<times> md_vars) option" where
  "read_quotes [] v = Some ([], v)"
| "read_quotes (g # gs) v = (let v1 = refresh_vars g v in
     case read_quote v1 of None \<Rightarrow> None
     | Some e \<Rightarrow> map_option (\<lambda>(es, v'). (e # es, v')) (read_quotes gs v1))"

lemma get_time_send: "send_time E st = Inr xt \<Longrightarrow> \<exists>x. get_time st = Inr x"
  by (cases "get_time st") (auto simp: send_time_def)

lemma snapshot_quote_read:
  assumes "send_time E st = Inr xt" "read_quote v = Some (i, s, sz, p)"
  shows "snapshot_quote E st v = Inr (entry_hash i, s, sz, p, xt) \<and> u32_in_range sz"
  using assms(2) get_time_send [OF assms(1)] assms(1)
  by (auto simp: read_quote_def snapshot_quote_def md_hash_text get_size_range split: sum.splits if_splits)

lemma refresh_entry_feed:
  assumes "inj_on entry_hash I" "feed_rel I ap f" "f k = Some m" "send_time E st = Inr xt"
    "read_quote (refresh_vars g v) = Some (i, s, sz, p)" "i \<in> I" "put_quote i s sz p m = Some m'"
  shows "\<exists>ap'. refresh_entry E st (Some k) g (v, ap) = (None, refresh_vars g v, ap') \<and>
    feed_rel I ap' (f(k \<mapsto> m')) \<and> md_cfg ap' = md_cfg ap \<and> md_bcast ap' = md_bcast ap \<and> md_socket ap' = md_socket ap"
proof -
  obtain b where b: "getBook k ap = Some b" "kbook.tracks I b m"
    using feed_rel_book [OF assms(2,3)] .
  note q = snapshot_quote_read [OF assms(4,5)]
  obtain r b' where "book_add (entry_hash i) s sz p (me_clk E (md_clock ap)) xt b = Some (r, b')"
    "kbook.tracks I b' m'"
    using kbook_tracks(1) [OF assms(1) b(2) assms(6) _ assms(7)] q by blast
  then show ?thesis
    using b(1) q assms(2) by (simp add: refresh_entry_def book_in_hand_def Let_def feed_rel_addBook)
qed

definition quote_ids :: "(string \<times> side \<times> dbl \<times> dbl) list \<Rightarrow> string set" where
  "quote_ids qs = fst ` set qs"

lemma refresh_entries_feed:
  assumes "inj_on entry_hash I" "send_time E st = Inr xt"
  shows "feed_rel I ap f \<Longrightarrow> f k = Some m \<Longrightarrow> read_quotes gs v = Some (qs, v') \<Longrightarrow>
    quote_ids qs \<subseteq> I \<Longrightarrow> put_quotes qs m = Some m' \<Longrightarrow>
    \<exists>ap'. for_groups (refresh_entry E st (Some k)) (length gs) gs (v, ap) = (None, v', ap') \<and>
      feed_rel I ap' (f(k \<mapsto> m')) \<and> md_cfg ap' = md_cfg ap \<and> md_bcast ap' = md_bcast ap \<and> md_socket ap' = md_socket ap"
proof (induction gs arbitrary: qs v f m ap)
  case (Cons g gs)
  let ?v = "refresh_vars g v"
  obtain i s sz p qs1 where e: "qs = (i, s, sz, p) # qs1" "read_quote ?v = Some (i, s, sz, p)"
    "read_quotes gs ?v = Some (qs1, v')"
    using Cons.prems(3) by (auto simp: Let_def split: option.splits prod.splits)
  obtain m1 where m1: "put_quote i s sz p m = Some m1" "put_quotes qs1 m1 = Some m'"
    using Cons.prems(5) by (auto simp: e split: option.splits)
  have ids: "i \<in> I" "quote_ids qs1 \<subseteq> I" using Cons.prems(4) by (auto simp: e quote_ids_def)
  obtain ap1 where ap1: "refresh_entry E st (Some k) g (v, ap) = (None, ?v, ap1)"
    "feed_rel I ap1 (f(k \<mapsto> m1))" "md_cfg ap1 = md_cfg ap" "md_bcast ap1 = md_bcast ap"
    "md_socket ap1 = md_socket ap"
    using refresh_entry_feed [OF assms(1) Cons.prems(1,2) assms(2) e(2) ids(1) m1(1)] by blast
  have k: "(f(k \<mapsto> m1)) k = Some m1" by simp
  show ?case
    using Cons.IH [OF ap1(2) k e(3) ids(2) m1(2)] ap1 by (auto simp del: fun_upd_apply)
next
  case Nil
  then have "f(k \<mapsto> m') = f" by (auto simp: fun_upd_idem)
  then show ?case using Nil by simp
qed

lemma tracks_clear: "kbook.tracks I (book_clear b) Map.empty"
  by (simp add: kbook.tracks_def book_wf_clear hash_rel_def)

section \<open>Messages\<close>

text \<open>What a well-formed message says: a snapshot of symbol \<open>k\<close>, broadcast under the symbol \<open>j\<close>
  that was read last, or a list of updates.\<close>

datatype md_event =
    Snapshot string string "(string \<times> side \<times> dbl \<times> dbl) list"
  | Updates "(string \<times> quote_op) list"

fun event_ids :: "md_event \<Rightarrow> string set" where
  "event_ids (Snapshot k j qs) = quote_ids qs"
| "event_ids (Updates es) = feed_ids es"

text \<open>A snapshot replaces the quotes of its symbol and is always broadcast; after updates only the
  symbol of the last one is broadcast, and only by a publishing handler.\<close>

fun event_step :: "md_config \<Rightarrow> md_event \<Rightarrow> feed \<Rightarrow> (feed \<times> bbo_msg list) option" where
  "event_step cfg (Snapshot k j qs) f =
     (if qs = [] \<or> f k = None then None
      else case put_quotes qs Map.empty of None \<Rightarrow> None
        | Some m \<Rightarrow> Some (f(k \<mapsto> m), [bbo_of (venue_of cfg) j m]))"
| "event_step cfg (Updates es) f =
     (if es = [] then None
      else case feed_run es f of None \<Rightarrow> None
        | Some f' \<Rightarrow> (let k = fst (last es) in Some (f',
            if mdc_is_publishing cfg then [bbo_of (venue_of cfg) k (the (f' k))] else [])))"

fun event_run :: "md_config \<Rightarrow> md_event list \<Rightarrow> feed \<Rightarrow> (feed \<times> bbo_msg list) option" where
  "event_run cfg [] f = Some (f, [])"
| "event_run cfg (ev # evs) f = (case event_step cfg ev f of None \<Rightarrow> None
     | Some (f', out) \<Rightarrow> map_option (\<lambda>(f'', outs). (f'', out @ outs)) (event_run cfg evs f'))"

definition body_vars :: "group_message \<Rightarrow> md_vars" where
  "body_vars m = init_vars\<lparr>v_symbol := if_set (fm_body m) Symbol FEmpty\<rparr>"

definition well_framed :: "('tm, 'dt, 't) md_env \<Rightarrow> group_message \<Rightarrow> bool" where
  "well_framed E m \<longleftrightarrow>
     (case fm_header m SendingTime of Some st \<Rightarrow> (case send_time E st of Inr _ \<Rightarrow> True | Inl _ \<Rightarrow> False) | None \<Rightarrow> False) \<and>
     fm_body m NoMDEntries = Some (FInt (int (length (groups_of NoMDEntries m))))"

definition read_message :: "('tm, 'dt, 't) md_env \<Rightarrow> md_config \<Rightarrow> md_message \<Rightarrow> md_event option" where
  "read_message E cfg msg = (case msg of
     MarketDataSnapshotFullRefresh m \<Rightarrow>
       (if well_framed E m then
          (case (get_string (v_symbol (body_vars m)), read_quotes (groups_of NoMDEntries m) (body_vars m)) of
             (Inr k, Some (qs, v)) \<Rightarrow> (case get_string (v_symbol v) of Inr j \<Rightarrow> Some (Snapshot k j qs) | Inl _ \<Rightarrow> None)
           | _ \<Rightarrow> None)
        else None)
   | MarketDataIncrementalRefresh m \<Rightarrow>
       (if well_framed E m
        then map_option (\<lambda>(es, v). Updates es)
          (read_entries (mdc_new_replaces cfg) (groups_of NoMDEntries m) (body_vars m))
        else None)
   | _ \<Rightarrow> None)"

lemma well_framedE:
  assumes "well_framed E m"
  obtains st xt where "fm_header m SendingTime = Some st" "send_time E st = Inr xt"
    "fm_body m NoMDEntries = Some (FInt (int (length (groups_of NoMDEntries m))))"
  using assms by (auto simp: well_framed_def split: option.splits sum.splits)

lemma read_quotes_length: "read_quotes gs v = Some (qs, v') \<Longrightarrow> length qs = length gs"
  by (induction gs arbitrary: qs v) (auto simp: Let_def split: option.splits prod.splits)

lemma full_refresh_feed:
  assumes "inj_on entry_hash I" "feed_rel I ap f" "well_framed E m"
    "get_string (v_symbol (body_vars m)) = Inr k"
    "read_quotes (groups_of NoMDEntries m) (body_vars m) = Some (qs, v')" "get_string (v_symbol v') = Inr j"
    "quote_ids qs \<subseteq> I" "event_step (md_cfg ap) (Snapshot k j qs) f = Some (f', out)"
    "\<forall>b \<in> set out. me_size E b < MAX_MSG_SIZE" "out = [] \<or> md_socket ap \<noteq> None"
  shows "\<exists>ap'. full_refresh E m ap = (None, ap') \<and> feed_rel I ap' f' \<and> md_cfg ap' = md_cfg ap \<and>
    md_bcast ap' = md_bcast ap @ out \<and> md_socket ap' = md_socket ap"
proof -
  obtain st xt where st: "fm_header m SendingTime = Some st" "send_time E st = Inr xt"
    "fm_body m NoMDEntries = Some (FInt (int (length (groups_of NoMDEntries m))))"
    using well_framedE [OF assms(3)] .
  obtain m0 mq where q: "qs \<noteq> []" "f k = Some m0" "put_quotes qs Map.empty = Some mq"
    "f' = f(k \<mapsto> mq)" "out = [bbo_of (venue_of (md_cfg ap)) j mq]"
    using assms(8) by (auto split: if_splits option.splits)
  have n: "0 < length (groups_of NoMDEntries m)" using q(1) read_quotes_length [OF assms(5)] by auto
  obtain b where b: "getBook k ap = Some b" using feed_rel_book [OF assms(2) q(2)] by blast
  let ?ap = "addBook k (book_clear b) ap"
  have ap: "feed_rel I ?ap (f(k \<mapsto> Map.empty))" by (rule feed_rel_addBook [OF assms(2) tracks_clear])
  obtain ap2 where ap2: "for_groups (refresh_entry E st (Some k)) (length (groups_of NoMDEntries m))
      (groups_of NoMDEntries m) (body_vars m, ?ap) = (None, v', ap2)"
    "feed_rel I ap2 (f(k \<mapsto> mq))" "md_cfg ap2 = md_cfg ap" "md_bcast ap2 = md_bcast ap"
    "md_socket ap2 = md_socket ap"
    using refresh_entries_feed [OF assms(1) st(2) ap fun_upd_same assms(5,7) q(3)]
    by (auto simp del: fun_upd_apply)
  have "broadcast_book E True v' (Some k) ap2 =
      (None, ap2\<lparr>md_bcast := md_bcast ap2 @ [bbo_of (venue_of (md_cfg ap2)) j mq]\<rparr>)"
    using broadcast_book_feed [OF assms(1) ap2(2) _ assms(6), of k mq True E] assms(9,10) by (simp add: q ap2)
  then show ?thesis
    using st n b ap2 assms(4)
    by (simp add: full_refresh_def refresh_start_def body_vars_def [symmetric] get_int_def q Let_def)
qed

lemma incremental_feed:
  assumes "inj_on entry_hash I" "feed_rel I ap f" "well_framed E m"
    "read_entries (mdc_new_replaces (md_cfg ap)) (groups_of NoMDEntries m) (body_vars m) = Some (es, v')"
    "feed_ids es \<subseteq> I" "event_step (md_cfg ap) (Updates es) f = Some (f', out)"
    "\<forall>b \<in> set out. me_size E b < MAX_MSG_SIZE" "out = [] \<or> md_socket ap \<noteq> None"
  shows "\<exists>ap'. incremental_update E m ap = (None, ap') \<and> feed_rel I ap' f' \<and> md_cfg ap' = md_cfg ap \<and>
    md_bcast ap' = md_bcast ap @ out \<and> md_socket ap' = md_socket ap"
proof -
  obtain st xt where st: "fm_header m SendingTime = Some st" "send_time E st = Inr xt"
    "fm_body m NoMDEntries = Some (FInt (int (length (groups_of NoMDEntries m))))"
    using well_framedE [OF assms(3)] .
  have e: "es \<noteq> []" "feed_run es f = Some f'"
    "out = (if mdc_is_publishing (md_cfg ap) then [bbo_of (venue_of (md_cfg ap)) (fst (last es)) (the (f' (fst (last es))))] else [])"
    using assms(6) by (auto simp: Let_def split: if_splits option.splits)
  obtain mq where mq: "f' (fst (last es)) = Some mq" using feed_run_last [OF e(2,1)] by blast
  obtain ap2 where ap2: "for_groups (update_entry E st) (length (groups_of NoMDEntries m))
      (groups_of NoMDEntries m) (body_vars m, None, ap) = (None, v', Some (fst (last es)), ap2)"
    "feed_rel I ap2 f'" "md_cfg ap2 = md_cfg ap" "md_bcast ap2 = md_bcast ap"
    "md_socket ap2 = md_socket ap"
    using update_entries_feed [OF assms(1) st(2) assms(2,4,5) e(2)] e(1) by (auto simp: last_key_def)
  have "broadcast_book E (mdc_is_publishing (md_cfg ap2)) v' (Some (fst (last es))) ap2 =
      (None, ap2\<lparr>md_bcast := md_bcast ap2 @ out\<rparr>)"
    using broadcast_book_feed [OF assms(1) ap2(2) mq read_entries_symbol [OF assms(4) e(1)],
        of "mdc_is_publishing (md_cfg ap2)" E] assms(7,8) ap2(3-5) by (cases "mdc_is_publishing (md_cfg ap)") (simp_all add: e(3) mq)
  then show ?thesis
    using st ap2 by (simp add: incremental_update_def body_vars_def [symmetric] get_int_def Let_def)
qed

lemma fromApp_feed:
  assumes "inj_on entry_hash I" "feed_rel I ap f" "read_message E (md_cfg ap) msg = Some ev"
    "event_ids ev \<subseteq> I" "event_step (md_cfg ap) ev f = Some (f', out)" "\<forall>b \<in> set out. me_size E b < MAX_MSG_SIZE"
    "out = [] \<or> md_socket ap \<noteq> None"
  shows "\<exists>ap'. md_fromApp E msg ap = (None, ap') \<and> feed_rel I ap' f' \<and> md_cfg ap' = md_cfg ap \<and>
    md_bcast ap' = md_bcast ap @ out \<and> md_socket ap' = md_socket ap"
proof -
  let ?ap = "ap\<lparr>md_appMsgCount := md_appMsgCount ap + 1\<rparr>"
  show ?thesis
  proof (cases msg)
    case (MarketDataSnapshotFullRefresh m)
    then obtain k j qs v where r: "well_framed E m" "get_string (v_symbol (body_vars m)) = Inr k"
      "read_quotes (groups_of NoMDEntries m) (body_vars m) = Some (qs, v)" "get_string (v_symbol v) = Inr j"
      "ev = Snapshot k j qs"
      using assms(3) by (auto simp: read_message_def split: if_splits sum.splits option.splits)
    show ?thesis
      using full_refresh_feed [OF assms(1) _ r(1-4), of ?ap f f' out] assms(2,4,5,6,7)
      by (simp add: md_fromApp_def md_onMessage_def MarketDataSnapshotFullRefresh r(5))
  next
    case (MarketDataIncrementalRefresh m)
    then obtain es v where r: "well_framed E m"
      "read_entries (mdc_new_replaces (md_cfg ap)) (groups_of NoMDEntries m) (body_vars m) = Some (es, v)" "ev = Updates es"
      using assms(3) by (auto simp: read_message_def split: if_splits)
    show ?thesis
      using incremental_feed [OF assms(1) _ r(1), of ?ap f es v f' out] r(2) assms(2,4,5,6,7)
      by (simp add: md_fromApp_def md_onMessage_def MarketDataIncrementalRefresh r(3))
  qed (use assms(3) in \<open>simp_all add: read_message_def\<close>)
qed

text \<open>A session: messages until one brings the process down; an exception is caught and the next
  message is handled.\<close>

fun md_session_run :: "('tm, 'dt, 't) md_env \<Rightarrow> md_message list \<Rightarrow> md_app \<Rightarrow> md_stop option list \<times> md_app" where
  "md_session_run E [] ap = ([], ap)"
| "md_session_run E (msg # msgs) ap = (case md_fromApp E msg ap of (r, ap') \<Rightarrow>
     if r \<in> {None, Some FieldError, Some UnsupportedMessage}
     then (case md_session_run E msgs ap' of (rs, ap'') \<Rightarrow> (r # rs, ap''))
     else ([r], ap'))"

lemma session_feed:
  assumes "inj_on entry_hash I"
  shows "feed_rel I ap f \<Longrightarrow> map (read_message E (md_cfg ap)) msgs = map Some evs \<Longrightarrow>
    \<forall>ev \<in> set evs. event_ids ev \<subseteq> I \<Longrightarrow> event_run (md_cfg ap) evs f = Some (f', out) \<Longrightarrow>
    \<forall>b \<in> set out. me_size E b < MAX_MSG_SIZE \<Longrightarrow> out = [] \<or> md_socket ap \<noteq> None \<Longrightarrow>
    \<exists>ap'. md_session_run E msgs ap = (replicate (length msgs) None, ap') \<and> feed_rel I ap' f' \<and>
      md_bcast ap' = md_bcast ap @ out \<and> md_socket ap' = md_socket ap"
proof (induction msgs arbitrary: evs ap f out)
  case (Cons msg msgs)
  obtain ev evs1 where ev: "evs = ev # evs1" "read_message E (md_cfg ap) msg = Some ev"
    "map (read_message E (md_cfg ap)) msgs = map Some evs1"
    using Cons.prems(2) by (cases evs) auto
  obtain f1 out1 out2 where f1: "event_step (md_cfg ap) ev f = Some (f1, out1)"
    "event_run (md_cfg ap) evs1 f1 = Some (f', out2)" "out = out1 @ out2"
    using Cons.prems(4) by (auto simp: ev(1) split: option.splits prod.splits)
  obtain ap1 where ap1: "md_fromApp E msg ap = (None, ap1)" "feed_rel I ap1 f1" "md_cfg ap1 = md_cfg ap"
    "md_bcast ap1 = md_bcast ap @ out1" "md_socket ap1 = md_socket ap"
    using fromApp_feed [OF assms Cons.prems(1) ev(2) _ f1(1)] Cons.prems(3,5,6) by (auto simp: ev(1) f1(3))
  show ?case
    using Cons.IH [OF ap1(2), of evs1 out2] ev(3) f1 ap1 Cons.prems(3,5,6) by (auto simp: ev(1))
qed simp

section \<open>Logon\<close>

definition subscribed :: "string list \<Rightarrow> feed" where
  "subscribed ss = (\<lambda>k. if k \<in> set (takeWhile (\<lambda>s. s \<noteq> []) ss) then Some Map.empty else None)"

lemma tracks_new: "kbook.tracks I (new_book name d) Map.empty"
  by (simp add: kbook.tracks_def book_wf_new hash_rel_def)

lemma make_books_fields [simp]:
  "md_cfg (make_books ss ap) = md_cfg ap" "md_bcast (make_books ss ap) = md_bcast ap"
  "md_symbols (make_books ss ap) = md_symbols ap" "md_socket (make_books ss ap) = md_socket ap"
  by (induction ss ap rule: make_books.induct) (auto simp: addBook_def)

lemma make_books_feed:
  "feed_rel I ap f \<Longrightarrow> feed_rel I (make_books ss ap) (f ++ subscribed ss)"
proof (induction ss ap arbitrary: f rule: make_books.induct)
  case (2 s ss ap)
  show ?case
  proof (cases "s = []")
    case False
    have "f(s \<mapsto> Map.empty) ++ subscribed ss = f ++ subscribed (s # ss)"
      using False by (auto simp: subscribed_def map_add_def fun_eq_iff)
    then show ?thesis
      using 2 False feed_rel_addBook [OF 2(2) tracks_new] by (metis make_books.simps(2))
  qed (use 2 in \<open>simp add: subscribed_def map_add_def\<close>)
qed (simp add: subscribed_def map_add_def)

lemma send_all_single_ok:
  "mdc_version (md_cfg ap) = 42 \<Longrightarrow> \<exists>ms. send_all_single ss ap = (None, ap\<lparr>md_sent := ms\<rparr>)"
proof (induction ss arbitrary: ap)
  case (Cons s ss)
  then show ?case
    using Cons.IH [of "md_send (sendSingleMarketDataRequest42 s ap) ap"]
    by (cases "s = []") (auto simp: sendSingleMarketDataRequest_def md_send_def)
next
  case (Nil ap)
  have "ap = ap\<lparr>md_sent := md_sent ap\<rparr>" by simp
  then show ?case by (metis send_all_single.simps(1))
qed

text \<open>The handler that \<^verbatim>\<open>main\<close> gives to QuickFIX: its symbols are read, and it has the socket of the
  publisher if it publishes.\<close>

definition handler_app :: "string \<Rightarrow> string list \<Rightarrow> md_config \<Rightarrow> md_app" where
  "handler_app addr ss cfg = connect_publisher addr (addSymbols ss (new_md_app cfg))"

lemma handler_app_fields [simp]:
  "md_cfg (handler_app addr ss cfg) = cfg" "md_symbols (handler_app addr ss cfg) = ss"
  "md_bcast (handler_app addr ss cfg) = []" "md_sent (handler_app addr ss cfg) = []"
  "md_loginCount (handler_app addr ss cfg) = 0" "md_books (handler_app addr ss cfg) = []"
  "md_socket (handler_app addr ss cfg) = (if mdc_is_publishing cfg then Some addr else None)"
  by (simp_all add: handler_app_def connect_publisher_def setZMQSocket_def addSymbols_def new_md_app_def)

lemma logon_feed:
  assumes "mdc_version cfg = 42"
  shows "\<exists>ap. md_onLogon sess (handler_app addr ss cfg) = (None, ap) \<and> feed_rel I ap (subscribed ss) \<and>
    md_cfg ap = cfg \<and> md_bcast ap = [] \<and> md_socket ap = (if mdc_is_publishing cfg then Some addr else None)"
proof -
  let ?ap = "(handler_app addr ss cfg)\<lparr>md_session := sess, md_loginCount := 1\<rparr>"
  have "feed_rel I ?ap Map.empty" by (simp add: feed_rel_def getBook_def)
  then have f: "feed_rel I (make_books ss ?ap) (subscribed ss)" using make_books_feed by fastforce
  have c: "md_cfg ?ap = cfg" "md_bcast ?ap = []" "md_symbols ?ap = ss"
    "md_socket ?ap = (if mdc_is_publishing cfg then Some addr else None)"
    "(handler_app addr ss cfg)\<lparr>md_session := sess, md_loginCount := md_loginCount (handler_app addr ss cfg) + 1\<rparr> = ?ap"
    by simp_all
  obtain ms where "send_all_single ss (make_books ss ?ap) = (None, (make_books ss ?ap)\<lparr>md_sent := ms\<rparr>)"
    using send_all_single_ok [of "make_books ss ?ap" ss] assms by (auto simp: c)
  then show ?thesis
    unfolding md_onLogon_def c(5) md_run_app_def
    using assms f by (auto simp: Let_def c sendMarketDataRequest_def md_send_def)
qed

section \<open>Refinement\<close>

lemma event_run_quiet:
  "\<not> mdc_is_publishing cfg \<Longrightarrow> list_all (\<lambda>ev. case ev of Snapshot k j qs \<Rightarrow> False | Updates es \<Rightarrow> True) evs \<Longrightarrow>
    event_run cfg evs f = Some (f', out) \<Longrightarrow> out = []"
  by (induction evs arbitrary: f out) (auto simp: Let_def split: md_event.splits option.splits if_splits)

text \<open>What a handler can process: one that does not publish has no socket for a snapshot, after which
  the best prices are broadcast in any case.\<close>

definition can_process :: "md_config \<Rightarrow> md_event list \<Rightarrow> bool" where
  "can_process cfg evs \<longleftrightarrow> mdc_is_publishing cfg \<or>
     list_all (\<lambda>ev. case ev of Snapshot k j qs \<Rightarrow> False | Updates es \<Rightarrow> True) evs"

lemma can_process_socket:
  "can_process cfg evs \<Longrightarrow> event_run cfg evs f = Some (f', out) \<Longrightarrow> out = [] \<or> mdc_is_publishing cfg"
  using event_run_quiet by (auto simp: can_process_def)

text \<open>A snapshot that the specification accepts reads the uninitialised socket of a handler that does
  not publish.\<close>

lemma snapshot_without_publisher:
  assumes "inj_on entry_hash I" and "feed_rel I ap f" and "md_socket ap = None"
    and "read_message E (md_cfg ap) msg = Some (Snapshot k j qs)" and "quote_ids qs \<subseteq> I"
    and "event_step (md_cfg ap) (Snapshot k j qs) f \<noteq> None"
  shows "fst (md_fromApp E msg ap) = Some Undefined"
proof -
  let ?ap = "ap\<lparr>md_appMsgCount := md_appMsgCount ap + 1\<rparr>"
  obtain m v where m: "msg = MarketDataSnapshotFullRefresh m" "well_framed E m" "get_string (v_symbol (body_vars m)) = Inr k"
    "read_quotes (groups_of NoMDEntries m) (body_vars m) = Some (qs, v)" "get_string (v_symbol v) = Inr j"
    using assms(4) by (auto simp: read_message_def split: md_message.splits if_splits sum.splits option.splits)
  obtain st xt where st: "fm_header m SendingTime = Some st" "send_time E st = Inr xt"
    "fm_body m NoMDEntries = Some (FInt (int (length (groups_of NoMDEntries m))))"
    using well_framedE [OF m(2)] .
  obtain m0 mq where q: "qs \<noteq> []" "f k = Some m0" "put_quotes qs Map.empty = Some mq"
    using assms(6) by (auto split: if_splits option.splits)
  have n: "0 < length (groups_of NoMDEntries m)" using q(1) read_quotes_length [OF m(4)] by auto
  obtain b where b: "getBook k ?ap = Some b" using feed_rel_book [OF assms(2) q(2)] by auto
  have ap: "feed_rel I (addBook k (book_clear b) ?ap) (f(k \<mapsto> Map.empty))"
    using assms(2) by (intro feed_rel_addBook tracks_clear) simp
  obtain ap2 where ap2: "for_groups (refresh_entry E st (Some k)) (length (groups_of NoMDEntries m))
      (groups_of NoMDEntries m) (body_vars m, addBook k (book_clear b) ?ap) = (None, v, ap2)"
    "feed_rel I ap2 (f(k \<mapsto> mq))" "md_socket ap2 = None"
    using refresh_entries_feed [OF assms(1) st(2) ap fun_upd_same m(4) assms(5) q(3)] assms(3)
    by (auto simp del: fun_upd_apply)
  obtain b2 where "getBook k ap2 = Some b2" using feed_rel_book [OF ap2(2), of k mq] by auto
  then have "fst (broadcast_book E True v (Some k) ap2) = Some Undefined"
    using ap2(3) m(5) by (simp add: broadcast_book_def book_in_hand_def broadcast_bbo_book_def Let_def)
  then show ?thesis
    using st n b ap2(1) m(3)
    by (simp add: m(1) md_fromApp_def md_onMessage_def full_refresh_def refresh_start_def body_vars_def [symmetric]
        get_int_def Let_def)
qed

text \<open>C17. Refinement: after a logon with any symbols, a handler that publishes processes every
  sequence of well-formed snapshots and incremental refreshes without an exception or a crash, its books
  are exactly the quotes the exchange announced (the entry ids being replaced by their hashes), and what
  it broadcasts is the best bid and offer of the specification: after a snapshot that of its symbol, after
  an incremental refresh that of the symbol of the last entry only. A handler that does not publish does
  so for incremental refreshes, and broadcasts nothing. This holds as long as no two of the ids have the
  same hash, the exchange follows the protocol (no live id is announced again, no quote deleted that is
  not live, no message without entries or for a symbol that was not subscribed) and a broadcast fits its
  buffer.\<close>

theorem feed_refinement:
  assumes "inj_on entry_hash I" and "mdc_version cfg = 42"
    and "map (read_message E cfg) msgs = map Some evs" and "\<forall>ev \<in> set evs. event_ids ev \<subseteq> I"
    and "can_process cfg evs" and "event_run cfg evs (subscribed ss) = Some (f, out)"
    and "\<forall>b \<in> set out. me_size E b < MAX_MSG_SIZE"
  shows "\<exists>ap ap'. md_onLogon sess (handler_app addr ss cfg) = (None, ap) \<and>
    md_session_run E msgs ap = (replicate (length msgs) None, ap') \<and> feed_rel I ap' f \<and> md_bcast ap' = out"
proof -
  obtain ap where ap: "md_onLogon sess (handler_app addr ss cfg) = (None, ap)"
    "feed_rel I ap (subscribed ss)" "md_cfg ap = cfg" "md_bcast ap = []"
    "md_socket ap = (if mdc_is_publishing cfg then Some addr else None)"
    using logon_feed [OF assms(2)] by blast
  then show ?thesis
    using session_feed [OF assms(1) ap(2), of E msgs evs f out] can_process_socket [OF assms(5,6)] assms(3,4,6,7) by auto
qed

text \<open>A session to instantiate the properties: a snapshot of two bids, then a rename that also
  moves the price, a new offer and a deletion.\<close>

definition demo_env :: "(int, int \<times> int, int \<times> int) md_env" where
  "demo_env = \<lparr>me_time = demo_fix_time, me_stamp = (\<lambda>_. (0, 0)), me_clk = (\<lambda>_. zero_timespec),
     me_endian = Little_endian, me_addr = (\<lambda>_. 1), me_size = (\<lambda>_. 64)\<rparr>"

definition demo_cfg :: md_config where
  "demo_cfg = \<lparr>mdc_venue_id = 7, mdc_username = ''u'', mdc_password = ''p'', mdc_sendPasswordInRawDataField = False,
     mdc_sendIndividualMarketDataRequests = True, mdc_version = 42, mdc_is_publishing = True, mdc_market_depth = 5,
     mdc_want_aggregated_book = False, mdc_update_type = 1, mdc_reset_seq_nums = True, mdc_new_replaces = False\<rparr>"

definition demo_message :: "string \<Rightarrow> (fix_tag \<times> fix_value) list \<Rightarrow> (fix_tag \<times> fix_value) list list \<Rightarrow> group_message" where
  "demo_message ty b gs = \<lparr>fm_type = ty, fm_header = [SendingTime \<mapsto> FTime ''20110822-08:00:00.123''],
     fm_body = (map_of b)(NoMDEntries \<mapsto> FInt (int (length gs))), fm_groups = map (\<lambda>g. (NoMDEntries, map_of g)) gs\<rparr>"

lemma demo_message_simps [simp]:
  "groups_of NoMDEntries (demo_message ty b gs) = map map_of gs" "well_framed demo_env (demo_message ty b gs)"
  "fm_body (demo_message ty b gs) Symbol = map_of b Symbol"
  "fm_header (demo_message ty b gs) SendingTime = Some (FTime ''20110822-08:00:00.123'')"
  "fm_body (demo_message ty b gs) NoMDEntries = Some (FInt (int (length gs)))"
  by (simp_all add: demo_message_def groups_of_def comp_def well_framed_def send_time_def get_time_def
      defined_def UTCTimeStampToTimespec_def demo_env_def demo_fix_time_def s32_def)

definition demo_snapshot :: group_message where
  "demo_snapshot = demo_message ''W'' [(Symbol, FString ''EUR/USD'')]
     [[(MDEntryType, FChar MDEntryType_BID), (MDEntryID, FString ''A''), (MDEntryPx, FDouble (5/4)), (MDEntrySize, FDouble 10)],
      [(QuoteEntryID, FString ''C''), (MDEntryID, FString []), (MDEntryPx, FDouble (6/5))]]"

definition demo_update :: group_message where
  "demo_update = demo_message ''X'' []
     [[(MDUpdateAction, FChar MDUpdateAction_CHANGE), (MDEntryType, FChar MDEntryType_BID), (MDEntryID, FString ''B''),
       (Symbol, FString ''EUR/USD''), (MDEntryRefID, FString ''A''), (MDEntryPx, FDouble (9/8)), (MDEntrySize, FDouble 20)],
      [(MDUpdateAction, FChar MDUpdateAction_DELETE), (MDEntryID, FString ''C'')]]"

lemmas demo_defs = read_quote_def read_entry_def refresh_vars_def update_vars_def if_set_def init_vars_def body_vars_def
  get_string_def get_char_def get_double_def get_size_def u32_of_dbl_def u32_in_range_def trunc_dbl_def md_chars char2side_t_def

lemma demo_events:
  "read_message demo_env demo_cfg (MarketDataSnapshotFullRefresh demo_snapshot) =
     Some (Snapshot ''EUR/USD'' ''EUR/USD'' [(''A'', BID, 10, 5/4), (''C'', BID, 10, 6/5)])"
  "read_message demo_env demo_cfg (MarketDataIncrementalRefresh demo_update) =
     Some (Updates [(''EUR/USD'', QReplace ''A'' ''B'' BID 20 (9/8)), (''EUR/USD'', QDelete ''C'')])"
  by (simp_all add: read_message_def demo_snapshot_def demo_update_def demo_defs demo_cfg_def)

lemma demo_hashes: "inj_on entry_hash {''A'', ''B'', ''C''}"
  by (simp add: entry_hash_def lookup3.simps hash_seed_0 le_word_def final_steps) (simp add: final_step_def rot_def)

lemma demo_run:
  "event_run demo_cfg [Snapshot ''EUR/USD'' ''EUR/USD'' [(''A'', BID, 10, 5/4), (''C'', BID, 10, 6/5)],
      Updates [(''EUR/USD'', QReplace ''A'' ''B'' BID 20 (9/8)), (''EUR/USD'', QDelete ''C'')]] (subscribed [''EUR/USD'']) =
   Some ([''EUR/USD'' \<mapsto> [''B'' \<mapsto> (BID, 9/8, 20)]],
     [bbo_of 7 ''EUR/USD'' [''A'' \<mapsto> (BID, 5/4, 10), ''C'' \<mapsto> (BID, 6/5, 10)], bbo_of 7 ''EUR/USD'' [''B'' \<mapsto> (BID, 9/8, 20)]])"
  by (simp add: subscribed_def put_quote_def venue_of_def demo_cfg_def fun_eq_iff Let_def)

lemma demo_can: "can_process demo_cfg evs"
  by (simp add: can_process_def demo_cfg_def)

lemma demo_cfg_version: "mdc_version demo_cfg = 42"
  by (simp add: demo_cfg_def)

lemma demo_fits: "me_size demo_env b < MAX_MSG_SIZE"
  by (simp add: demo_env_def MAX_MSG_SIZE_def)

lemma feed_refinement_witness:
  "\<exists>ap ap'. md_onLogon (''S'', ''T'') (handler_app ''a'' [''EUR/USD''] demo_cfg) = (None, ap) \<and>
     md_session_run demo_env [MarketDataSnapshotFullRefresh demo_snapshot, MarketDataIncrementalRefresh demo_update] ap
       = ([None, None], ap') \<and>
     feed_rel {''A'', ''B'', ''C''} ap' [''EUR/USD'' \<mapsto> [''B'' \<mapsto> (BID, 9/8, 20)]] \<and> length (md_bcast ap') = 2"
proof -
  let ?msgs = "[MarketDataSnapshotFullRefresh demo_snapshot, MarketDataIncrementalRefresh demo_update]"
  obtain ap ap' where "md_onLogon (''S'', ''T'') (handler_app ''a'' [''EUR/USD''] demo_cfg) = (None, ap)"
    "md_session_run demo_env ?msgs ap = (replicate (length ?msgs) None, ap')"
    "feed_rel {''A'', ''B'', ''C''} ap' [''EUR/USD'' \<mapsto> [''B'' \<mapsto> (BID, 9/8, 20)]]"
    "md_bcast ap' = [bbo_of 7 ''EUR/USD'' [''A'' \<mapsto> (BID, 5/4, 10), ''C'' \<mapsto> (BID, 6/5, 10)],
       bbo_of 7 ''EUR/USD'' [''B'' \<mapsto> (BID, 9/8, 20)]]"
    using feed_refinement [OF demo_hashes _ _ _ demo_can demo_run, of demo_env ?msgs "(''S'', ''T'')" "''a''"]
    by (auto simp: demo_events quote_ids_def feed_ids_def demo_cfg_version demo_fits)
  then show ?thesis by (simp add: numeral_2_eq_2)
qed

end
