(* ===== verification/MdSafety.thy ===== *)
theory MdSafety
  imports MdFeedCorrect
begin

text \<open>
  The FIX market data handler on arbitrary messages: the invariant of its books and broadcasts in
  every reachable state, what an exception leaves behind, and what brings the process down.
\<close>

section \<open>The books keep their names\<close>

lemma book_name:
  "book_add i s sz p t xt b = Some (r, b') \<Longrightarrow> bookName b' = bookName b"
  "book_remove i t xt b = Some (r, b') \<Longrightarrow> bookName b' = bookName b"
  "book_modify i sz t xt b = Some (r, b') \<Longrightarrow> bookName b' = bookName b"
  by (auto simp: book_add_def addBid_def addAsk_def book_remove_def book_remove_cmp_def book_modify_def Let_def
      split: if_splits option.splits Option.bind_splits prod.splits)

lemma book_clear_name [simp]: "bookName (book_clear b) = bookName b"
  by (simp add: book_clear_def)

lemma new_book_name [simp]: "bookName (new_book (Some s) d) = take 127 s"
  by (simp add: new_book_def)

lemma book_total:
  assumes "book_wf b"
  shows "u32_in_range sz \<Longrightarrow> \<exists>r b'. book_add i s sz p t xt b = Some (r, b') \<and> book_wf b' \<and> bookName b' = bookName b"
    "\<exists>r b'. book_remove i t xt b = Some (r, b') \<and> book_wf b' \<and> bookName b' = bookName b"
    "u32_in_range sz \<Longrightarrow> \<exists>r b'. book_modify i sz t xt b = Some (r, b') \<and> book_wf b' \<and> bookName b' = bookName b"
  using book_step_inv [OF assms, of "OpAdd i s sz p t xt"] book_step_inv [OF assms, of "OpRemove i t xt"]
    book_step_inv [OF assms, of "OpModify i sz t xt"] book_name
  by (metis book_step.simps(1) sizes_ok.simps(1), metis book_step.simps(2) sizes_ok.simps(3),
      metis book_step.simps(3) sizes_ok.simps(2))

definition good_update :: "kbook \<Rightarrow> md_stop + kbook \<Rightarrow> bool" where
  "good_update b r \<longleftrightarrow> (case r of Inl e \<Rightarrow> e \<noteq> Undefined | Inr b' \<Rightarrow> book_wf b' \<and> bookName b' = bookName b)"

lemma good_update_simps [simp]:
  "good_update b (Inl e) \<longleftrightarrow> e \<noteq> Undefined" "good_update b (Inr b') \<longleftrightarrow> book_wf b' \<and> bookName b' = bookName b"
  by (simp_all add: good_update_def)

lemma apply_ops_good:
  assumes "book_wf b" "u32_in_range sz"
  shows "good_update b (apply_new replaces i s sz p t xt b)" "good_update b (apply_rename r i s sz p t xt b)"
    "good_update b (apply_change i sz t xt b)" "good_update b (apply_delete i t xt b)"
proof -
  have 1: "good_update b (apply_rename r i s sz p t xt b)" for r
    using book_total(2) [OF assms(1), of r t xt] book_total(1) [OF _ assms(2), of _ i s p t xt]
    by (fastforce simp: apply_rename_def defined_def)
  then show "good_update b (apply_rename r i s sz p t xt b)" .
  show "good_update b (apply_new replaces i s sz p t xt b)"
    using 1 [of i] book_total(1) [OF assms, of i s p t xt]
    by (cases replaces) (auto simp: apply_new_rename, auto simp: apply_new_def defined_def)
  show "good_update b (apply_change i sz t xt b)"
    using book_total(3) [OF assms, of i t xt] assms(1)
    by (auto simp: apply_change_def defined_def split: option.splits)
  show "good_update b (apply_delete i t xt b)"
    using book_total(2) [OF assms(1), of i t xt] by (auto simp: apply_delete_def defined_def split: option.splits)
qed

lemma good_update_bnd:
  "(\<And>e. x = Inl e \<Longrightarrow> e \<noteq> Undefined) \<Longrightarrow> (\<And>y. x = Inr y \<Longrightarrow> good_update b (f y)) \<Longrightarrow> good_update b (bnd x f)"
  by (cases x) auto

definition size_fits :: "fix_value \<Rightarrow> bool" where
  "size_fits v \<longleftrightarrow> (case v of FDouble d \<Rightarrow> u32_in_range d | _ \<Rightarrow> True)"

lemma getters_no_undefined [simp]:
  "get_string v = Inl e \<Longrightarrow> e = FieldError" "get_char v = Inl e \<Longrightarrow> e = FieldError"
  "get_double v = Inl e \<Longrightarrow> e = FieldError" "get_int v = Inl e \<Longrightarrow> e = FieldError"
  "get_time v = Inl e \<Longrightarrow> e = FieldError"
  by (auto simp: get_string_def get_char_def get_double_def get_int_def get_time_def split: fix_value.splits)

lemma getters_defined [simp]:
  "get_string v \<noteq> Inl Undefined" "get_char v \<noteq> Inl Undefined" "get_double v \<noteq> Inl Undefined"
  "get_int v \<noteq> Inl Undefined" "get_time v \<noteq> Inl Undefined"
  by (auto dest: getters_no_undefined)

lemma get_size_stop: "get_size v = Inl e \<Longrightarrow> e = FieldError \<or> e = Undefined \<and> \<not> size_fits v"
  by (auto simp: get_size_def get_double_def size_fits_def split: fix_value.splits option.splits)

text \<open>Whatever the entry, a defined update keeps the book well formed; it is undefined only for a
  size out of range.\<close>

lemma apply_update_good:
  assumes "book_wf b"
  shows "case apply_update E replaces g v t xt b of
    Inl e \<Rightarrow> e = Undefined \<longrightarrow> \<not> size_fits (v_size v) | Inr b' \<Rightarrow> book_wf b' \<and> bookName b' = bookName b"
proof (cases "get_char (v_type v)")
  case (Inr c)
  show ?thesis
  proof (cases "get_size (v_size v)")
    case sz: (Inr sz)
    note good = apply_ops_good [OF assms get_size_range [OF sz]]
    have "good_update b (apply_update E replaces g v t xt b)"
      unfolding apply_update_def Inr sz bnd.simps
      using good by (auto simp: Let_def intro!: good_update_bnd dest: getters_no_undefined split: option.splits)
    then show ?thesis by (simp add: good_update_def split: sum.splits)
  qed (use Inr get_size_stop in \<open>auto simp: apply_update_def\<close>)
qed (auto simp: apply_update_def dest: getters_no_undefined)

section \<open>The invariant\<close>

definition broadcast_ok :: "('tm, 'dt, 't) md_env \<Rightarrow> md_config \<Rightarrow> bbo_msg \<Rightarrow> bool" where
  "broadcast_ok E cfg m \<longleftrightarrow> m_bid_venue_id m = venue_of cfg \<and> m_ask_venue_id m = venue_of cfg \<and>
     c_str (m_symbol m) = m_symbol m \<and> me_size E m < MAX_MSG_SIZE"

definition md_inv :: "('tm, 'dt, 't) md_env \<Rightarrow> md_config \<Rightarrow> md_app \<Rightarrow> bool" where
  "md_inv E cfg ap \<longleftrightarrow> md_cfg ap = cfg \<and> sm_sorted (md_books ap) \<and>
     (\<forall>k b. getBook k ap = Some b \<longrightarrow> k \<noteq> [] \<and> book_wf b \<and> bookName b = take 127 (c_str k)) \<and>
     (\<forall>m \<in> set (md_bcast ap). broadcast_ok E cfg m) \<and> (mdc_is_publishing cfg \<longrightarrow> md_socket ap \<noteq> None)"

lemma md_inv_book: "md_inv E cfg ap \<Longrightarrow> getBook k ap = Some b \<Longrightarrow> k \<noteq> [] \<and> book_wf b \<and> bookName b = take 127 (c_str k)"
  by (simp add: md_inv_def)

lemma md_inv_cfg: "md_inv E cfg ap \<Longrightarrow> md_cfg ap = cfg"
  by (simp add: md_inv_def)

lemma md_inv_addBook:
  "md_inv E cfg ap \<Longrightarrow> k \<noteq> [] \<Longrightarrow> book_wf b \<Longrightarrow> bookName b = take 127 (c_str k) \<Longrightarrow> md_inv E cfg (addBook k b ap)"
  by (auto simp: md_inv_def) (simp_all add: addBook_def)

lemma md_inv_clear: "md_inv E cfg ap \<Longrightarrow> getBook k ap = Some b \<Longrightarrow> md_inv E cfg (addBook k (book_clear b) ap)"
  using md_inv_book [of E cfg ap k b] by (simp add: md_inv_addBook book_wf_clear)

lemma md_inv_fields [simp]:
  "md_inv E cfg (ap\<lparr>md_clock := n\<rparr>) = md_inv E cfg ap" "md_inv E cfg (ap\<lparr>md_appMsgCount := c\<rparr>) = md_inv E cfg ap"
  "md_inv E cfg (ap\<lparr>md_sent := ms\<rparr>) = md_inv E cfg ap" "md_inv E cfg (ap\<lparr>md_session := s\<rparr>) = md_inv E cfg ap"
  "md_inv E cfg (ap\<lparr>md_loginCount := l\<rparr>) = md_inv E cfg ap"
  by (simp_all add: md_inv_def getBook_def)

lemma for_groups_inv:
  assumes "\<And>g s s'. g \<in> set gs \<Longrightarrow> P s \<Longrightarrow> f g s = (None, s') \<Longrightarrow> P s'"
    and "\<And>g s e s'. g \<in> set gs \<Longrightarrow> P s \<Longrightarrow> f g s = (Some e, s') \<Longrightarrow> Q e s'"
    and "\<And>s. P s \<Longrightarrow> Q FieldError s" and "P s"
  shows "case for_groups f n gs s of (None, s') \<Rightarrow> P s' | (Some e, s') \<Rightarrow> Q e s'"
  using assms
proof (induction f n gs s rule: for_groups.induct)
  case (3 f n g gs s)
  obtain r s' where fs: "f g s = (r, s')" by fastforce
  show ?case
  proof (cases r)
    case None
    have P: "P s'" using 3(2) [of g s s'] 3(5) fs None by simp
    have "case for_groups f n gs s' of (None, s') \<Rightarrow> P s' | (Some e, s') \<Rightarrow> Q e s'"
    proof (rule 3(1) [OF fs [symmetric] None])
      show "\<And>h u u'. h \<in> set gs \<Longrightarrow> P u \<Longrightarrow> f h u = (None, u') \<Longrightarrow> P u'" using 3(2) by auto
      show "\<And>h u e u'. h \<in> set gs \<Longrightarrow> P u \<Longrightarrow> f h u = (Some e, u') \<Longrightarrow> Q e u'" using 3(3) by auto
    qed (use 3(4) P in auto)
    then show ?thesis by (simp add: fs None)
  next
    case (Some e)
    then show ?thesis using 3(3) [of g s e s'] 3(5) fs by simp
  qed
qed auto

text \<open>The values a message must have for the conversions to be defined.\<close>

definition values_ok :: "('tm, 'dt, 't) md_env \<Rightarrow> group_message \<Rightarrow> bool" where
  "values_ok E m \<longleftrightarrow> (case fm_header m SendingTime of None \<Rightarrow> True | Some st \<Rightarrow> send_time E st \<noteq> Inl Undefined) \<and>
     (\<forall>g \<in> set (groups_of NoMDEntries m). case g MDEntrySize of None \<Rightarrow> True | Some v \<Rightarrow> size_fits v)"

lemma size_fits_if_set: "size_fits v \<Longrightarrow> (case g t of None \<Rightarrow> True | Some x \<Rightarrow> size_fits x) \<Longrightarrow> size_fits (if_set g t v)"
  by (simp add: if_set_def split: option.splits)

lemma size_fits_simps [simp]: "size_fits FEmpty" "size_fits (FDouble 0)"
  by (simp_all add: size_fits_def u32_in_range_def)

definition update_inv :: "('tm, 'dt, 't) md_env \<Rightarrow> md_config \<Rightarrow> bool \<Rightarrow> md_vars \<times> string option \<times> md_app \<Rightarrow> bool" where
  "update_inv E cfg ok s \<longleftrightarrow> (case s of (v, cur, ap) \<Rightarrow> md_inv E cfg ap \<and> (ok \<longrightarrow> size_fits (v_size v)))"

definition update_stop ::
  "('tm, 'dt, 't) md_env \<Rightarrow> md_config \<Rightarrow> bool \<Rightarrow> md_stop \<Rightarrow> md_vars \<times> string option \<times> md_app \<Rightarrow> bool" where
  "update_stop E cfg ok e s \<longleftrightarrow> (case s of (v, cur, ap) \<Rightarrow> md_inv E cfg ap \<and> (ok \<longrightarrow> e \<noteq> Undefined))"

lemma update_entry_inv:
  assumes "update_inv E cfg ok s" "ok \<longrightarrow> send_time E st \<noteq> Inl Undefined"
    "ok \<longrightarrow> (case g MDEntrySize of None \<Rightarrow> True | Some v \<Rightarrow> size_fits v)"
  shows "case update_entry E st g s of (None, s') \<Rightarrow> update_inv E cfg ok s' | (Some e, s') \<Rightarrow> update_stop E cfg ok e s'"
proof -
  obtain v cur ap where s: "s = (v, cur, ap)" by (cases s)
  let ?v = "update_vars g v"
  have fit: "ok \<longrightarrow> size_fits (v_size ?v)"
    using assms(3) by (auto simp: update_vars_def intro: size_fits_if_set)
  have ap: "md_inv E cfg ap" using assms(1) by (simp add: s update_inv_def)
  show ?thesis
  proof (cases "send_time E st")
    case xt: (Inr xt)
    show ?thesis
    proof (cases "get_string (v_symbol ?v)")
      case k: (Inr k)
      show ?thesis
      proof (cases "getBook k ap")
        case (Some b)
        note b = md_inv_book [OF ap Some]
        let ?r = "apply_update E (mdc_new_replaces (md_cfg ap)) g ?v (me_clk E (md_clock ap)) xt b"
        show ?thesis
          using apply_update_good [of b ?v E "mdc_new_replaces (md_cfg ap)" g "me_clk E (md_clock ap)" xt] b xt k Some fit ap
          by (cases ?r) (auto simp: s update_entry_def update_inv_def update_stop_def Let_def intro: md_inv_addBook)
      qed (use xt k ap fit in \<open>simp add: s update_entry_def update_inv_def Let_def\<close>)
    qed (use xt ap fit in \<open>auto simp: s update_entry_def update_stop_def Let_def dest: getters_no_undefined\<close>)
  qed (use assms(2) ap in \<open>auto simp: s update_entry_def update_stop_def Let_def\<close>)
qed

definition refresh_inv :: "('tm, 'dt, 't) md_env \<Rightarrow> md_config \<Rightarrow> bool \<Rightarrow> md_vars \<times> md_app \<Rightarrow> bool" where
  "refresh_inv E cfg ok s \<longleftrightarrow> (case s of (v, ap) \<Rightarrow> md_inv E cfg ap \<and> (ok \<longrightarrow> size_fits (v_size v)))"

definition refresh_stop :: "('tm, 'dt, 't) md_env \<Rightarrow> md_config \<Rightarrow> bool \<Rightarrow> md_stop \<Rightarrow> md_vars \<times> md_app \<Rightarrow> bool" where
  "refresh_stop E cfg ok e s \<longleftrightarrow> (case s of (v, ap) \<Rightarrow> md_inv E cfg ap \<and> (ok \<longrightarrow> e \<noteq> Undefined))"

lemma bnd_Inl: "bnd x f = Inl e \<longleftrightarrow> x = Inl e \<or> (\<exists>y. x = Inr y \<and> f y = Inl e)"
  by (cases x) auto

lemma bnd_Inr: "bnd x f = Inr z \<longleftrightarrow> (\<exists>y. x = Inr y \<and> f y = Inr z)"
  by (cases x) auto

lemma snapshot_quote_stop:
  "size_fits (v_size v) \<Longrightarrow> send_time E st \<noteq> Inl Undefined \<Longrightarrow> snapshot_quote E st v \<noteq> Inl Undefined"
  using get_size_stop [of "v_size v" Undefined] by (auto simp: snapshot_quote_def bnd_Inl split: if_splits)

lemma snapshot_quote_range: "snapshot_quote E st v = Inr (i, s, sz, p, xt) \<Longrightarrow> u32_in_range sz"
  using get_size_range by (auto simp: snapshot_quote_def bnd_Inr)

lemma refresh_entry_inv:
  assumes "refresh_inv E cfg ok s" "ok \<longrightarrow> send_time E st \<noteq> Inl Undefined"
    "ok \<longrightarrow> (case g MDEntrySize of None \<Rightarrow> True | Some v \<Rightarrow> size_fits v)"
  shows "case refresh_entry E st cur g s of (None, s') \<Rightarrow> refresh_inv E cfg ok s' | (Some e, s') \<Rightarrow> refresh_stop E cfg ok e s'"
proof -
  obtain v ap where s: "s = (v, ap)" by (cases s)
  let ?v = "refresh_vars g v"
  have fit: "ok \<longrightarrow> size_fits (v_size ?v)"
    using assms(1,3) by (auto simp: s refresh_inv_def refresh_vars_def intro: size_fits_if_set)
  have ap: "md_inv E cfg ap" using assms(1) by (simp add: s refresh_inv_def)
  show ?thesis
  proof (cases "snapshot_quote E st ?v")
    case (Inl e)
    then show ?thesis
      using ap fit assms(2) snapshot_quote_stop [of ?v E st] by (auto simp: s refresh_entry_def refresh_stop_def Let_def)
  next
    case (Inr q)
    obtain i s' sz p xt where q: "q = (i, s', sz, p, xt)" by (cases q)
    show ?thesis
    proof (cases "book_in_hand cur ap")
      case (Some b)
      then obtain k where k: "cur = Some k" "getBook k ap = Some b" by (auto simp: book_in_hand_def split: option.splits)
      note b = md_inv_book [OF ap k(2)]
      obtain r b' where "book_add i s' sz p (me_clk E (md_clock ap)) xt b = Some (r, b')" "book_wf b'" "bookName b' = bookName b"
        using book_total(1) [of b sz] b snapshot_quote_range Inr q by blast
      then show ?thesis
        using Inr k b ap fit by (simp add: s q refresh_entry_def book_in_hand_def refresh_inv_def Let_def md_inv_addBook)
    qed (use Inr ap in \<open>cases cur; simp add: s q refresh_entry_def refresh_stop_def Let_def\<close>)
  qed
qed

lemma c_str_idem [simp]: "c_str (c_str s) = c_str s"
  by (auto simp: c_str_def takeWhile_eq_all_conv dest: set_takeWhileD)

lemma broadcast_book_inv:
  assumes "md_inv E cfg ap" "broadcast_book E publish v cur ap = (r, ap')"
  shows "md_inv E cfg ap' \<and> ((publish \<longrightarrow> mdc_is_publishing cfg) \<longrightarrow> r \<noteq> Some Undefined)"
  using assms
  by (auto simp: broadcast_book_def broadcast_bbo_book_def Let_def venue_of_def
      split: option.splits if_splits sum.splits dest: getters_no_undefined)
    (auto simp: md_inv_def getBook_def broadcast_ok_def venue_of_def)

lemma full_refresh_inv:
  assumes "md_inv E cfg ap" "full_refresh E m ap = (r, ap')"
  shows "md_inv E cfg ap' \<and> (values_ok E m \<and> mdc_is_publishing cfg \<longrightarrow> r \<noteq> Some Undefined)"
proof (cases "fm_header m SendingTime")
  case st: (Some st)
  show ?thesis
  proof (cases "fm_body m NoMDEntries")
    case nv: (Some nv)
    let ?n = "case get_int nv of Inr i \<Rightarrow> i | Inl _ \<Rightarrow> 0"
    let ?v = "body_vars m"
    show ?thesis
    proof (cases "refresh_start ?n ?v ap")
      case (Inl e)
      then have "e = FieldError"
        by (auto simp: refresh_start_def bnd_Inl split: if_splits dest: getters_no_undefined)
      then show ?thesis
        using assms st nv Inl by (auto simp: full_refresh_def body_vars_def [symmetric] Let_def)
    next
      case (Inr p)
      obtain cur ap1 where p: "p = (cur, ap1)" by fastforce
      have ap1: "md_inv E cfg ap1"
        using Inr p assms(1)
        by (auto simp: refresh_start_def bnd_Inr intro: md_inv_clear split: if_splits option.splits)
      let ?loop = "for_groups (refresh_entry E st cur) (nat ?n) (groups_of NoMDEntries m) (?v, ap1)"
      have loop: "case ?loop of (None, s) \<Rightarrow> refresh_inv E cfg (values_ok E m) s
          | (Some e, s) \<Rightarrow> refresh_stop E cfg (values_ok E m) e s"
      proof (rule for_groups_inv)
        fix g s s' e assume g: "g \<in> set (groups_of NoMDEntries m)" and s: "refresh_inv E cfg (values_ok E m) s"
        have step: "case refresh_entry E st cur g s of (None, s') \<Rightarrow> refresh_inv E cfg (values_ok E m) s'
            | (Some e, s') \<Rightarrow> refresh_stop E cfg (values_ok E m) e s'"
          by (rule refresh_entry_inv [OF s]) (use g st in \<open>auto simp: values_ok_def\<close>)
        show "refresh_entry E st cur g s = (None, s') \<Longrightarrow> refresh_inv E cfg (values_ok E m) s'" using step by simp
        show "refresh_entry E st cur g s = (Some e, s') \<Longrightarrow> refresh_stop E cfg (values_ok E m) e s'" using step by simp
      qed (use ap1 in \<open>auto simp: refresh_inv_def refresh_stop_def body_vars_def init_vars_def\<close>)
      obtain q v' ap2 where q: "?loop = (q, v', ap2)" by (cases ?loop) auto
      show ?thesis
        using assms(2) st nv Inr p q loop broadcast_book_inv [of E cfg ap2 True v' cur r ap']
        by (cases q) (auto simp: full_refresh_def body_vars_def [symmetric] Let_def refresh_inv_def refresh_stop_def)
    qed
  qed (use assms st in \<open>auto simp: full_refresh_def\<close>)
qed (use assms in \<open>auto simp: full_refresh_def\<close>)

lemma incremental_inv:
  assumes "md_inv E cfg ap" "incremental_update E m ap = (r, ap')"
  shows "md_inv E cfg ap' \<and> (values_ok E m \<longrightarrow> r \<noteq> Some Undefined)"
proof (cases "fm_header m SendingTime")
  case st: (Some st)
  show ?thesis
  proof (cases "fm_body m NoMDEntries")
    case nv: (Some nv)
    show ?thesis
    proof (cases "get_int nv")
      case (Inr n)
      let ?v = "body_vars m"
      let ?loop = "for_groups (update_entry E st) (nat n) (groups_of NoMDEntries m) (?v, None, ap)"
      have loop: "case ?loop of (None, s) \<Rightarrow> update_inv E cfg (values_ok E m) s
          | (Some e, s) \<Rightarrow> update_stop E cfg (values_ok E m) e s"
      proof (rule for_groups_inv)
        fix g s s' e assume g: "g \<in> set (groups_of NoMDEntries m)" and s: "update_inv E cfg (values_ok E m) s"
        have step: "case update_entry E st g s of (None, s') \<Rightarrow> update_inv E cfg (values_ok E m) s'
            | (Some e, s') \<Rightarrow> update_stop E cfg (values_ok E m) e s'"
          by (rule update_entry_inv [OF s]) (use g st in \<open>auto simp: values_ok_def\<close>)
        show "update_entry E st g s = (None, s') \<Longrightarrow> update_inv E cfg (values_ok E m) s'" using step by simp
        show "update_entry E st g s = (Some e, s') \<Longrightarrow> update_stop E cfg (values_ok E m) e s'" using step by simp
      qed (use assms(1) in \<open>auto simp: update_inv_def update_stop_def body_vars_def init_vars_def\<close>)
      obtain q v' cur ap2 where q: "?loop = (q, v', cur, ap2)" by (cases ?loop) auto
      show ?thesis
        using assms(2) st nv Inr q loop broadcast_book_inv [of E cfg ap2 "mdc_is_publishing (md_cfg ap2)" v' cur r ap']
        by (cases q) (auto simp: incremental_update_def body_vars_def [symmetric] Let_def update_inv_def update_stop_def dest: md_inv_cfg)
    qed (use assms st nv in \<open>auto simp: incremental_update_def dest: getters_no_undefined\<close>)
  qed (use assms st in \<open>auto simp: incremental_update_def\<close>)
qed (use assms in \<open>auto simp: incremental_update_def\<close>)

text \<open>The states a process can be in: after logons (repeated ones included) and messages that did
  not bring it down.\<close>

inductive md_reach :: "('tm, 'dt, 't) md_env \<Rightarrow> md_config \<Rightarrow> md_app \<Rightarrow> bool" for E cfg where
  reach_new: "md_reach E cfg (handler_app addr ss cfg)"
| reach_logon: "md_reach E cfg ap \<Longrightarrow> md_onLogon sess ap = (r, ap') \<Longrightarrow> md_reach E cfg ap'"
| reach_message: "md_reach E cfg ap \<Longrightarrow> md_fromApp E msg ap = (r, ap') \<Longrightarrow>
    r \<in> {None, Some FieldError, Some UnsupportedMessage} \<Longrightarrow> md_reach E cfg ap'"

lemma make_books_inv: "md_inv E cfg ap \<Longrightarrow> md_inv E cfg (make_books ss ap)"
  by (induction ss ap rule: make_books.induct) (auto simp: book_wf_new md_inv_addBook)

lemma send_all_single_inv: "md_inv E cfg ap \<Longrightarrow> send_all_single ss ap = (r, ap') \<Longrightarrow> md_inv E cfg ap'"
proof (induction ss arbitrary: ap)
  case (Cons s ss)
  then show ?case
    using Cons.IH [of "md_send (sendSingleMarketDataRequest42 s ap) ap"]
    by (auto simp: sendSingleMarketDataRequest_def md_send_def split: if_splits)
qed simp

lemma onLogon_inv: "md_inv E cfg ap \<Longrightarrow> md_onLogon sess ap = (r, ap') \<Longrightarrow> md_inv E cfg ap'"
proof -
  let ?ap = "ap\<lparr>md_session := sess, md_loginCount := md_loginCount ap + 1\<rparr>"
  assume "md_inv E cfg ap" "md_onLogon sess ap = (r, ap')"
  moreover from this have "md_inv E cfg (make_books (md_symbols ?ap) ?ap)" by (intro make_books_inv) simp
  ultimately show ?thesis
    using send_all_single_inv [of E cfg "make_books (md_symbols ?ap) ?ap" "md_symbols ?ap" r ap']
    by (auto simp: md_onLogon_def md_run_app_def Let_def sendMarketDataRequest_def md_send_def split: if_splits)
qed

definition message_values_ok :: "('tm, 'dt, 't) md_env \<Rightarrow> md_message \<Rightarrow> bool" where
  "message_values_ok E msg \<longleftrightarrow> (case msg of
     MarketDataSnapshotFullRefresh m \<Rightarrow> values_ok E m | MarketDataIncrementalRefresh m \<Rightarrow> values_ok E m | _ \<Rightarrow> True)"

text \<open>A snapshot needs the publisher's socket.\<close>

definition socket_ok :: "md_config \<Rightarrow> md_message \<Rightarrow> bool" where
  "socket_ok cfg msg \<longleftrightarrow> (case msg of MarketDataSnapshotFullRefresh m \<Rightarrow> mdc_is_publishing cfg | _ \<Rightarrow> True)"

lemma fromApp_inv:
  assumes "md_inv E cfg ap" "md_fromApp E msg ap = (r, ap')"
  shows "md_inv E cfg ap' \<and> (message_values_ok E msg \<and> socket_ok cfg msg \<longrightarrow> r \<noteq> Some Undefined)"
  using assms full_refresh_inv [of E cfg "ap\<lparr>md_appMsgCount := md_appMsgCount ap + 1\<rparr>" _ r ap']
    incremental_inv [of E cfg "ap\<lparr>md_appMsgCount := md_appMsgCount ap + 1\<rparr>" _ r ap']
  by (cases msg) (auto simp: md_fromApp_def md_onMessage_def message_values_ok_def socket_ok_def trading_session_status_def
      split: option.splits sum.splits dest: getters_no_undefined)

lemma md_reach_inv: "md_reach E cfg ap \<Longrightarrow> md_inv E cfg ap"
proof (induction rule: md_reach.induct)
  case (reach_new ss)
  then show ?case by (simp add: md_inv_def getBook_def)
qed (auto dest: onLogon_inv fromApp_inv)

section \<open>Null books\<close>

definition announced_entries :: "group_message \<Rightarrow> int" where
  "announced_entries m = (case fm_body m NoMDEntries of None \<Rightarrow> 0 | Some v \<Rightarrow> (case get_int v of Inl e \<Rightarrow> 0 | Inr n \<Rightarrow> n))"

definition symbol_known :: "md_app \<Rightarrow> fix_value \<Rightarrow> bool" where
  "symbol_known ap v \<longleftrightarrow> (case get_string v of Inl e \<Rightarrow> True | Inr k \<Rightarrow> getBook k ap \<noteq> None)"

text \<open>A message has a book for its broadcast: it has entries, and there is a book for the symbol of a
  snapshot, or for the symbol in force at the last entry of an incremental refresh.\<close>

definition finds_book :: "md_app \<Rightarrow> md_message \<Rightarrow> bool" where
  "finds_book ap msg \<longleftrightarrow> (case msg of
     MarketDataSnapshotFullRefresh m \<Rightarrow> 0 < announced_entries m \<and> symbol_known ap (v_symbol (body_vars m))
   | MarketDataIncrementalRefresh m \<Rightarrow> 0 < announced_entries m \<and> symbol_known ap
       (v_symbol (fold update_vars (take (nat (announced_entries m)) (groups_of NoMDEntries m)) (body_vars m)))
   | _ \<Rightarrow> True)"

definition same_symbols :: "md_app \<Rightarrow> md_app \<Rightarrow> bool" where
  "same_symbols ap ap' \<longleftrightarrow> (\<forall>k. getBook k ap' = None \<longleftrightarrow> getBook k ap = None)"

lemma same_symbols_simps [simp]:
  "same_symbols ap ap" "same_symbols ap (ap'\<lparr>md_clock := n\<rparr>) = same_symbols ap ap'"
  "getBook k ap \<noteq> None \<Longrightarrow> same_symbols ap ap' \<Longrightarrow> same_symbols ap (addBook k b ap')"
  by (auto simp: same_symbols_def)

lemma bnd_stops: "bnd x f = Inl e \<Longrightarrow> x \<noteq> Inl e \<Longrightarrow> \<exists>y. x = Inr y \<and> f y = Inl e"
  by (cases x) auto

lemma getters_no_null [simp]:
  "get_string v \<noteq> Inl NullBook" "get_char v \<noteq> Inl NullBook" "get_double v \<noteq> Inl NullBook"
  "get_int v \<noteq> Inl NullBook" "get_time v \<noteq> Inl NullBook" "get_size v \<noteq> Inl NullBook"
  "defined x \<noteq> Inl NullBook" "send_time E st \<noteq> Inl NullBook"
  by (auto dest: getters_no_undefined get_size_stop simp: send_time_def bnd_Inl defined_def split: option.splits)

lemma updates_no_null [simp]:
  "apply_update E replaces g v t xt b \<noteq> Inl NullBook" "snapshot_quote E st v \<noteq> Inl NullBook"
  by (auto simp: apply_update_def apply_new_def apply_rename_def apply_change_def apply_delete_def snapshot_quote_def
      bnd_Inl Let_def split: if_splits option.splits)

lemma update_entry_book:
  assumes "update_entry E st g (v, cur, ap) = (r, v1, cur1, ap1)"
  shows "v1 = update_vars g v \<and> same_symbols ap ap1 \<and> r \<noteq> Some NullBook \<and>
    (r = None \<longrightarrow> (\<exists>k. get_string (v_symbol v1) = Inr k \<and> cur1 = (if getBook k ap = None then None else Some k)))"
  using assms by (auto simp: update_entry_def Let_def split: sum.splits option.splits)

lemma update_loop_book:
  "for_groups (update_entry E st) n gs (v, cur, ap) = (r, v1, cur1, ap1) \<Longrightarrow>
    same_symbols ap ap1 \<and> r \<noteq> Some NullBook \<and> (r = None \<longrightarrow> v1 = fold update_vars (take n gs) v \<and>
      (if n = 0 then cur1 = cur
       else \<exists>k. get_string (v_symbol v1) = Inr k \<and> cur1 = (if getBook k ap = None then None else Some k)))"
proof (induction n arbitrary: gs v cur ap)
  case (Suc n)
  show ?case
  proof (cases gs)
    case (Cons g hs)
    obtain q v2 cur2 ap2 where e: "update_entry E st g (v, cur, ap) = (q, v2, cur2, ap2)" by (metis prod_cases4)
    note b = update_entry_book [OF e]
    have trans: "same_symbols ap2 ap1 \<Longrightarrow> same_symbols ap ap1" using b by (simp add: same_symbols_def)
    show ?thesis
    proof (cases q)
      case None
      then have "for_groups (update_entry E st) n hs (v2, cur2, ap2) = (r, v1, cur1, ap1)" using Suc.prems e Cons by simp
      note ih = Suc.IH [OF this]
      show ?thesis
        using ih b trans None by (cases "n = 0") (auto simp: Cons same_symbols_def)
    qed (use Suc.prems e Cons b in auto)
  qed (use Suc.prems in auto)
qed simp

lemma incremental_book:
  assumes "incremental_update E m ap = (Some NullBook, ap')"
  shows "\<not> finds_book ap (MarketDataIncrementalRefresh m)"
proof
  assume f: "finds_book ap (MarketDataIncrementalRefresh m)"
  then obtain nv n where n: "fm_body m NoMDEntries = Some nv" "get_int nv = Inr n" "announced_entries m = n" "0 < n"
    by (auto simp: finds_book_def announced_entries_def split: option.splits sum.splits)
  then obtain st where st: "fm_header m SendingTime = Some st"
    using assms by (cases "fm_header m SendingTime") (auto simp: incremental_update_def)
  let ?loop = "for_groups (update_entry E st) (nat n) (groups_of NoMDEntries m) (body_vars m, None, ap)"
  obtain r v1 cur1 ap1 where l: "?loop = (r, v1, cur1, ap1)" by (metis prod_cases4)
  note b = update_loop_book [OF l]
  show False
  proof (cases r)
    case None
    then obtain k where k: "get_string (v_symbol v1) = Inr k" "cur1 = (if getBook k ap = None then None else Some k)"
      "v1 = fold update_vars (take (nat n) (groups_of NoMDEntries m)) (body_vars m)"
      using b n by auto
    then have "getBook k ap1 \<noteq> None" "cur1 = Some k"
      using f b by (auto simp: finds_book_def symbol_known_def n same_symbols_def)
    then show False
      using assms st n l None k(1)
      by (auto simp: incremental_update_def body_vars_def [symmetric] broadcast_book_def book_in_hand_def
          broadcast_bbo_book_def Let_def split: if_splits option.splits)
  qed (use assms st n l b in \<open>auto simp: incremental_update_def body_vars_def [symmetric]\<close>)
qed

lemma refresh_entry_book:
  assumes "refresh_entry E st (Some k) g (v, ap) = (r, v1, ap1)" "getBook k ap \<noteq> None"
  shows "r \<noteq> Some NullBook \<and> getBook k ap1 \<noteq> None"
  using assms by (auto simp: refresh_entry_def book_in_hand_def Let_def split: sum.splits option.splits)

lemma refresh_loop_book:
  "for_groups (refresh_entry E st (Some k)) n gs (v, ap) = (r, v1, ap1) \<Longrightarrow> getBook k ap \<noteq> None \<Longrightarrow>
    r \<noteq> Some NullBook \<and> getBook k ap1 \<noteq> None"
proof (induction n arbitrary: gs v ap)
  case (Suc n)
  show ?case
  proof (cases gs)
    case (Cons g hs)
    obtain q v2 ap2 where e: "refresh_entry E st (Some k) g (v, ap) = (q, v2, ap2)" by (metis prod_cases3)
    show ?thesis
      using Suc.prems Suc.IH [of hs v2 ap2] refresh_entry_book [OF e] e Cons by (cases q) auto
  qed (use Suc.prems in auto)
qed auto

lemma full_refresh_book:
  assumes "full_refresh E m ap = (Some NullBook, ap')"
  shows "\<not> finds_book ap (MarketDataSnapshotFullRefresh m)"
proof
  assume f: "finds_book ap (MarketDataSnapshotFullRefresh m)"
  then obtain nv n where n: "fm_body m NoMDEntries = Some nv" "get_int nv = Inr n" "announced_entries m = n" "0 < n"
    by (auto simp: finds_book_def announced_entries_def split: option.splits sum.splits)
  then obtain st where st: "fm_header m SendingTime = Some st"
    using assms by (cases "fm_header m SendingTime") (auto simp: full_refresh_def)
  show False
  proof (cases "get_string (v_symbol (body_vars m))")
    case (Inr k)
    then obtain b where b: "getBook k ap = Some b" using f by (auto simp: finds_book_def symbol_known_def)
    let ?loop = "for_groups (refresh_entry E st (Some k)) (nat n) (groups_of NoMDEntries m)
        (body_vars m, addBook k (book_clear b) ap)"
    obtain r v1 ap1 where l: "?loop = (r, v1, ap1)" by (metis prod_cases3)
    have "r \<noteq> Some NullBook" "getBook k ap1 \<noteq> None" using refresh_loop_book [OF l] by simp_all
    then show False
      using assms st n l Inr b
      by (cases r) (auto simp: full_refresh_def refresh_start_def body_vars_def [symmetric] broadcast_book_def
          book_in_hand_def broadcast_bbo_book_def Let_def split: if_splits option.splits sum.splits)
  qed (use assms st n in \<open>auto simp: full_refresh_def refresh_start_def body_vars_def [symmetric]\<close>)
qed

lemma fromApp_book: "finds_book ap msg \<Longrightarrow> fst (md_fromApp E msg ap) \<noteq> Some NullBook"
proof
  let ?ap = "ap\<lparr>md_appMsgCount := md_appMsgCount ap + 1\<rparr>"
  assume f: "finds_book ap msg" and e: "fst (md_fromApp E msg ap) = Some NullBook"
  have f': "finds_book ?ap msg"
    using f by (auto simp: finds_book_def symbol_known_def split: md_message.splits sum.splits)
  obtain ap' where "md_fromApp E msg ap = (Some NullBook, ap')" using e by (metis prod.collapse)
  then show False
    using f' full_refresh_book [of E _ ?ap ap'] incremental_book [of E _ ?ap ap']
    by (cases msg) (auto simp: md_fromApp_def md_onMessage_def trading_session_status_def split: option.splits sum.splits)
qed

text \<open>C18. In every state a process reaches, whatever the logons and messages (malformed ones
  included) that led there, every book is well formed and belongs to a non-empty symbol whose first 127
  characters are its name, and every message broadcast so far names this venue on both sides, carries a C
  string and, as an assertion checks in a build that has them, fitted its buffer. The next message takes
  the price of no null book and runs into no undefined behaviour of the books, of a conversion or of the
  socket, provided that its sizes fit 32 bits and its sending time does not overflow, that it has entries
  and there is a book for the symbol of a snapshot or of the last entry of an incremental refresh, and
  that a handler which gets a snapshot publishes.\<close>

theorem md_reachable_safe:
  assumes "md_reach E cfg ap" and "message_values_ok E msg" and "finds_book ap msg" and "socket_ok cfg msg"
  shows "(\<forall>k b. getBook k ap = Some b \<longrightarrow> k \<noteq> [] \<and> book_wf b \<and> bookName b = take 127 (c_str k)) \<and>
    (\<forall>m \<in> set (md_bcast ap). broadcast_ok E cfg m) \<and>
    fst (md_fromApp E msg ap) \<noteq> Some Undefined \<and> fst (md_fromApp E msg ap) \<noteq> Some NullBook"
  using md_reach_inv [OF assms(1)] fromApp_inv [OF md_reach_inv [OF assms(1)], of msg] fromApp_book [OF assms(3), of E] assms(2,4)
  by (cases "md_fromApp E msg ap") (auto simp: md_inv_def)

lemma demo_reach: "\<exists>ap. md_onLogon (''S'', ''T'') (handler_app ''a'' [''EUR/USD''] demo_cfg) = (None, ap) \<and>
    md_reach demo_env demo_cfg ap \<and> getBook ''EUR/USD'' ap \<noteq> None"
proof -
  obtain ap where ap: "md_onLogon (''S'', ''T'') (handler_app ''a'' [''EUR/USD''] demo_cfg) = (None, ap)"
    "feed_rel {} ap (subscribed [''EUR/USD''])"
    using logon_feed [OF demo_cfg_version] by blast
  then have "md_reach demo_env demo_cfg ap" by (blast intro: reach_new reach_logon)
  moreover have "getBook ''EUR/USD'' ap \<noteq> None"
    using feed_rel_no_book [OF ap(2), of "''EUR/USD''"] by (simp add: subscribed_def)
  ultimately show ?thesis using ap(1) by blast
qed

lemma md_reachable_safe_witness:
  "\<exists>ap b. md_reach demo_env demo_cfg ap \<and> getBook ''EUR/USD'' ap = Some b \<and> book_wf b \<and>
     fst (md_fromApp demo_env (MarketDataIncrementalRefresh demo_update) ap) \<noteq> Some Undefined"
proof -
  have v: "message_values_ok demo_env (MarketDataIncrementalRefresh demo_update)"
    by (simp add: message_values_ok_def values_ok_def demo_update_def size_fits_def u32_in_range_def
        send_time_def get_time_def defined_def UTCTimeStampToTimespec_def demo_env_def demo_fix_time_def s32_def)
  obtain ap where ap: "md_reach demo_env demo_cfg ap" "getBook ''EUR/USD'' ap \<noteq> None" using demo_reach by blast
  then have "finds_book ap (MarketDataIncrementalRefresh demo_update)"
    by (simp add: finds_book_def announced_entries_def symbol_known_def demo_update_def get_int_def demo_defs)
  moreover have "socket_ok demo_cfg (MarketDataIncrementalRefresh demo_update)" by (simp add: socket_ok_def)
  ultimately show ?thesis using ap md_reachable_safe [OF ap(1) v] by blast
qed

end
