(* ===== verification/MdErrors.thy ===== *)
theory MdErrors
  imports MdSafety
begin

text \<open>
  Where the FIX market data handler fails: an exception in the middle of a message leaves the part
  before it in the books and broadcasts nothing, and some messages bring the process down.
\<close>

section \<open>Exceptions in the middle of a message\<close>

lemma for_groups_append:
  "for_groups f (length xs + n) (xs @ ys) s = (case for_groups f (length xs) xs s of
     (None, s') \<Rightarrow> for_groups f n ys s' | (Some e, s') \<Rightarrow> (Some e, s'))"
  by (induction xs arbitrary: s) (auto split: option.splits prod.splits)

lemma for_groups_stop:
  assumes "for_groups f (length gs) gs s = (None, s')" "f g s' = (Some e, s'')" "length gs < n"
  shows "for_groups f n (gs @ g # gs') s = (Some e, s'')"
proof -
  obtain j where "n = length gs + Suc j" using assms(3) less_iff_Suc_add by auto
  then show ?thesis using assms(1,2) for_groups_append [of f gs "Suc j" "g # gs'" s] by simp
qed

text \<open>An entry lacks a field, or has a value that does not convert, where the code reads it.\<close>

definition unreadable :: "md_vars \<Rightarrow> bool" where
  "unreadable v \<longleftrightarrow> (case get_char (v_type v) of Inl _ \<Rightarrow> True
   | Inr _ \<Rightarrow> (case get_size (v_size v) of Inl e \<Rightarrow> e = FieldError
     | Inr _ \<Rightarrow> (case get_string (v_id v) of Inl _ \<Rightarrow> True
       | Inr _ \<Rightarrow> (case get_char (v_action v) of Inl _ \<Rightarrow> True
         | Inr a \<Rightarrow> a \<in> {MDUpdateAction_NEW, MDUpdateAction_CHANGE} \<and>
             (case get_double (v_px v) of Inl _ \<Rightarrow> True | Inr _ \<Rightarrow> False)))))"

lemma apply_update_unreadable:
  "unreadable v \<Longrightarrow> apply_update E replaces g v t xt b = Inl FieldError"
  by (auto simp: unreadable_def apply_update_def Let_def split: sum.splits dest: getters_no_undefined)

definition unreadable_quote :: "md_vars \<Rightarrow> bool" where
  "unreadable_quote v \<longleftrightarrow> (case get_char (v_type v) of Inl _ \<Rightarrow> True
   | Inr _ \<Rightarrow> (case (get_string (v_id v), get_string (v_quote_id v)) of
       (Inr _, Inr _) \<Rightarrow> (case get_double (v_px v) of Inl _ \<Rightarrow> True
         | Inr _ \<Rightarrow> (case get_size (v_size v) of Inl e \<Rightarrow> e = FieldError | Inr _ \<Rightarrow> False))
     | _ \<Rightarrow> False))"

lemma snapshot_quote_unreadable:
  assumes "send_time E st = Inr xt" "unreadable_quote v"
  shows "snapshot_quote E st v = Inl FieldError"
  using assms(2) get_time_send [OF assms(1)]
  by (auto simp: unreadable_quote_def snapshot_quote_def split: sum.splits dest: getters_no_undefined)

lemma incremental_interrupted:
  assumes "inj_on entry_hash I" "feed_rel I ap f" "fm_header m SendingTime = Some st" "send_time E st = Inr xt"
    "fm_body m NoMDEntries = Some (FInt n)" "groups_of NoMDEntries m = gs @ g # gs'" "int (length gs) < n"
    "read_entries (mdc_new_replaces (md_cfg ap)) gs (body_vars m) = Some (es, v)" "feed_ids es \<subseteq> I"
    "feed_run es f = Some f'" "unreadable (update_vars g v)"
    "get_string (v_symbol (update_vars g v)) = Inr k" "f' k \<noteq> None"
  shows "\<exists>ap'. incremental_update E m ap = (Some FieldError, ap') \<and> feed_rel I ap' f' \<and> md_bcast ap' = md_bcast ap"
proof -
  obtain ap1 where ap1: "for_groups (update_entry E st) (length gs) gs (body_vars m, None, ap) =
      (None, v, last_key None es, ap1)" "feed_rel I ap1 f'" "md_bcast ap1 = md_bcast ap"
    using update_entries_feed [OF assms(1,4,2,8-10)] by blast
  obtain b where b: "getBook k ap1 = Some b" using feed_rel_book [OF ap1(2)] assms(13) by blast
  have "update_entry E st g (v, last_key None es, ap1) =
      (Some FieldError, update_vars g v, Some k, ap1\<lparr>md_clock := md_clock ap1 + 1\<rparr>)"
    using assms(4,12) b by (simp add: update_entry_def Let_def apply_update_unreadable [OF assms(11)])
  then have "for_groups (update_entry E st) (nat n) (gs @ g # gs') (body_vars m, None, ap) =
      (Some FieldError, update_vars g v, Some k, ap1\<lparr>md_clock := md_clock ap1 + 1\<rparr>)"
    using for_groups_stop [OF ap1(1)] assms(7) by simp
  then show ?thesis
    using assms(3,5,6) ap1 by (simp add: incremental_update_def body_vars_def [symmetric] get_int_def Let_def)
qed

lemma refresh_interrupted:
  assumes "inj_on entry_hash I" "feed_rel I ap f" "fm_header m SendingTime = Some st" "send_time E st = Inr xt"
    "fm_body m NoMDEntries = Some (FInt n)" "groups_of NoMDEntries m = gs @ g # gs'" "int (length gs) < n"
    "get_string (v_symbol (body_vars m)) = Inr k" "f k \<noteq> None"
    "read_quotes gs (body_vars m) = Some (qs, v)" "quote_ids qs \<subseteq> I"
    "put_quotes qs Map.empty = Some mq" "unreadable_quote (refresh_vars g v)"
  shows "\<exists>ap'. full_refresh E m ap = (Some FieldError, ap') \<and> feed_rel I ap' (f(k \<mapsto> mq)) \<and> md_bcast ap' = md_bcast ap"
proof -
  obtain b where b: "getBook k ap = Some b" using feed_rel_book [OF assms(2)] assms(9) by blast
  let ?ap = "addBook k (book_clear b) ap"
  have ap: "feed_rel I ?ap (f(k \<mapsto> Map.empty))" by (rule feed_rel_addBook [OF assms(2) tracks_clear])
  obtain ap1 where ap1: "for_groups (refresh_entry E st (Some k)) (length gs) gs (body_vars m, ?ap) = (None, v, ap1)"
    "feed_rel I ap1 (f(k \<mapsto> mq))" "md_bcast ap1 = md_bcast ap"
    using refresh_entries_feed [OF assms(1,4) ap fun_upd_same assms(10-12)] by (auto simp del: fun_upd_apply)
  have "refresh_entry E st (Some k) g (v, ap1) = (Some FieldError, refresh_vars g v, ap1)"
    by (simp add: refresh_entry_def Let_def snapshot_quote_unreadable [OF assms(4,13)])
  then have "for_groups (refresh_entry E st (Some k)) (nat n) (gs @ g # gs') (body_vars m, ?ap) =
      (Some FieldError, refresh_vars g v, ap1)"
    using for_groups_stop [OF ap1(1)] assms(7) by simp
  then show ?thesis
    using assms(3,5-8) b ap1
    by (simp add: full_refresh_def refresh_start_def body_vars_def [symmetric] get_int_def Let_def)
qed

text \<open>When an entry cannot be read, QuickFIX catches the exception and the session goes on, but
  the message is half done: the updates before the entry stay in the books, a snapshot has already
  emptied its book and refilled it with the entries before, and nothing is broadcast, so that what
  was published last no longer is the book.\<close>

theorem interrupted_message:
  assumes "inj_on entry_hash I" and "feed_rel I ap f" and "fm_header m SendingTime = Some st"
    and "send_time E st = Inr xt" and "fm_body m NoMDEntries = Some (FInt n)"
    and "groups_of NoMDEntries m = gs @ g # gs'" and "int (length gs) < n"
  shows "(\<forall>es v f' k. read_entries (mdc_new_replaces (md_cfg ap)) gs (body_vars m) = Some (es, v) \<and>
      feed_ids es \<subseteq> I \<and> feed_run es f = Some f' \<and> unreadable (update_vars g v) \<and>
      get_string (v_symbol (update_vars g v)) = Inr k \<and> f' k \<noteq> None \<longrightarrow>
      (\<exists>ap'. md_fromApp E (MarketDataIncrementalRefresh m) ap = (Some FieldError, ap') \<and>
        feed_rel I ap' f' \<and> md_bcast ap' = md_bcast ap)) \<and>
    (\<forall>qs v mq k. get_string (v_symbol (body_vars m)) = Inr k \<and> f k \<noteq> None \<and>
      read_quotes gs (body_vars m) = Some (qs, v) \<and> quote_ids qs \<subseteq> I \<and> put_quotes qs Map.empty = Some mq \<and>
      unreadable_quote (refresh_vars g v) \<longrightarrow>
      (\<exists>ap'. md_fromApp E (MarketDataSnapshotFullRefresh m) ap = (Some FieldError, ap') \<and>
        feed_rel I ap' (f(k \<mapsto> mq)) \<and> md_bcast ap' = md_bcast ap))"
proof -
  let ?ap = "ap\<lparr>md_appMsgCount := md_appMsgCount ap + 1\<rparr>"
  have ap: "feed_rel I ?ap f" "md_cfg ?ap = md_cfg ap" "md_bcast ?ap = md_bcast ap" using assms(2) by simp_all
  show ?thesis
    using incremental_interrupted [OF assms(1) ap(1) assms(3-7)] refresh_interrupted [OF assms(1) ap(1) assms(3-7)]
    by (auto simp: md_fromApp_def md_onMessage_def simp del: fun_upd_apply)
qed

definition demo_bad_snapshot :: group_message where
  "demo_bad_snapshot = demo_message ''W'' [(Symbol, FString ''EUR/USD'')]
     [[(MDEntryType, FChar MDEntryType_BID), (MDEntryID, FString ''A''), (MDEntryPx, FDouble (5/4)), (MDEntrySize, FDouble 10)],
      [(MDEntryID, FString ''B''), (MDEntryPx, FString ''1,25'')]]"

lemma demo_logon: "\<exists>ap. md_onLogon (''S'', ''T'') (handler_app ''a'' [''EUR/USD''] demo_cfg) = (None, ap) \<and>
    feed_rel I ap (subscribed [''EUR/USD'']) \<and> md_cfg ap = demo_cfg \<and> md_bcast ap = []"
  using logon_feed [OF demo_cfg_version] by blast

lemma demo_send_time: "\<exists>xt. send_time demo_env (FTime x) = Inr xt"
  by (simp add: send_time_def get_time_def defined_def UTCTimeStampToTimespec_def demo_env_def demo_fix_time_def s32_def)

lemma interrupted_message_witness:
  "\<exists>ap ap'. md_onLogon (''S'', ''T'') (handler_app ''a'' [''EUR/USD''] demo_cfg) = (None, ap) \<and>
     md_fromApp demo_env (MarketDataSnapshotFullRefresh demo_bad_snapshot) ap = (Some FieldError, ap') \<and>
     feed_rel {''A'', ''B'', ''C''} ap' ((subscribed [''EUR/USD''])(''EUR/USD'' \<mapsto> [''A'' \<mapsto> (BID, 5/4, 10)])) \<and>
     md_bcast ap' = []"
proof -
  let ?g = "map_of [(MDEntryType, FChar MDEntryType_BID), (MDEntryID, FString ''A''), (MDEntryPx, FDouble (5/4)), (MDEntrySize, FDouble 10)]"
  let ?h = "map_of [(MDEntryID, FString ''B''), (MDEntryPx, FString ''1,25'')]"
  let ?m = demo_bad_snapshot
  obtain ap where ap: "md_onLogon (''S'', ''T'') (handler_app ''a'' [''EUR/USD''] demo_cfg) = (None, ap)"
    "feed_rel {''A'', ''B'', ''C''} ap (subscribed [''EUR/USD''])" "md_bcast ap = []"
    using demo_logon by blast
  obtain xt where xt: "send_time demo_env (FTime ''20110822-08:00:00.123'') = Inr xt" using demo_send_time by blast
  have m: "fm_header ?m SendingTime = Some (FTime ''20110822-08:00:00.123'')" "fm_body ?m NoMDEntries = Some (FInt 2)"
    "groups_of NoMDEntries ?m = [?g] @ ?h # []" "get_string (v_symbol (body_vars ?m)) = Inr ''EUR/USD''"
    by (simp_all add: demo_bad_snapshot_def demo_defs)
  obtain v where v: "read_quotes [?g] (body_vars ?m) = Some ([(''A'', BID, 10, 5/4)], v)" "unreadable_quote (refresh_vars ?h v)"
    by (simp add: demo_bad_snapshot_def demo_defs unreadable_quote_def)
  have q: "put_quotes [(''A'', BID, 10, 5/4)] Map.empty = Some [''A'' \<mapsto> (BID, 5/4, 10)]" "subscribed [''EUR/USD''] ''EUR/USD'' \<noteq> None"
    "quote_ids [(''A'', BID, 10, 5/4)] \<subseteq> {''A'', ''B'', ''C''}"
    by (simp_all add: put_quote_def subscribed_def quote_ids_def)
  show ?thesis
    using interrupted_message [OF demo_hashes ap(2) m(1) xt m(2,3)] v m(4) q ap
    by (auto simp del: fun_upd_apply)
qed

section \<open>What brings the process down\<close>

lemma update_entries_end:
  assumes "for_groups (update_entry E st) (length gs) gs (body_vars m, None, ap) = (None, v, None, ap')"
    "fm_header m SendingTime = Some st" "fm_body m NoMDEntries = Some (FInt (int (length gs)))" "groups_of NoMDEntries m = gs"
  shows "fst (incremental_update E m ap) = Some NullBook"
  using assms by (simp add: incremental_update_def body_vars_def [symmetric] get_int_def Let_def
      broadcast_book_def book_in_hand_def)

text \<open>Two ids with the same hash are one order of the book: the second deletion finds nothing.\<close>

lemma collision_run:
  assumes "book_wf b" "entry_hash i = entry_hash j" "u32_in_range sz" "u32_in_range sz'" "s \<noteq> NO_SIDE" "s' \<noteq> NO_SIDE"
  shows "\<exists>b1 b2 b3. apply_q (QNew i s sz p) t xt b = Inr b1 \<and> apply_q (QNew j s' sz' p') t1 xt b1 = Inr b2 \<and>
    apply_q (QDelete i) t2 xt b2 = Inr b3 \<and> apply_q (QDelete j) t3 xt b3 = Inl AssertFails"
proof -
  obtain b1 where b1: "book_add (entry_hash i) s sz p t xt b = Some (1, b1)" "book_wf b1"
    using book_add_wf [OF assms(1,5,3)] by blast
  obtain b2 where b2: "book_add (entry_hash i) s' sz' p' t1 xt b1 = Some (1, b2)" "book_wf b2"
    "abs_book b2 (entry_hash i) \<noteq> None"
    using book_add_wf [OF b1(2) assms(6,4), of "entry_hash i" p' t1 xt] by auto
  obtain c b3 where b3: "book_remove (entry_hash i) t2 xt b2 = Some (c, b3)" "abs_book b3 (entry_hash i) = None"
    using book_remove_wf [OF b2(2), of "entry_hash i" t2 xt] by auto
  have "getOrder (entry_hash i) b2 \<noteq> None" "getOrder (entry_hash i) b3 = None"
    using b2(3) b3(2) by (simp_all add: getOrder_None)
  then show ?thesis
    using b1 b2(1) b3(1) assms(2) by (auto simp: apply_new_def apply_delete_def defined_def)
qed

lemma read_entries_ConsE:
  assumes "read_entries replaces gs v = Some (e # es, v')"
  obtains g hs where "gs = g # hs" "read_entry replaces g (update_vars g v) = Some e"
    "read_entries replaces hs (update_vars g v) = Some (es, v')"
  using assms by (cases gs) (auto simp: Let_def split: option.splits prod.splits)

lemma read_entries_NilE: "read_entries replaces gs v = Some ([], v') \<Longrightarrow> gs = []"
  using read_entries_length [of replaces gs v "[]" v'] by simp

lemma update_entry_q:
  assumes "send_time E st = Inr xt" "read_entry (mdc_new_replaces (md_cfg ap)) g (update_vars g v) = Some (k, q)"
    "getBook k ap = Some b"
  shows "update_entry E st g (v, cur, ap) = (case apply_q q (me_clk E (md_clock ap)) xt b of
      Inl e \<Rightarrow> (Some e, update_vars g v, Some k, ap\<lparr>md_clock := md_clock ap + 1\<rparr>)
    | Inr b' \<Rightarrow> (None, update_vars g v, Some k, addBook k b' (ap\<lparr>md_clock := md_clock ap + 1\<rparr>)))"
  using assms apply_update_read(3) [OF assms(2)]
  by (cases "apply_q q (me_clk E (md_clock ap)) xt b")
    (simp_all add: update_entry_def Let_def apply_update_read(1) [OF assms(2)])

lemma incremental_stop:
  assumes "well_framed E m" "fm_header m SendingTime = Some st"
    "for_groups (update_entry E st) (length (groups_of NoMDEntries m)) (groups_of NoMDEntries m) (body_vars m, None, ap) = (Some e, s)"
  shows "fst (incremental_update E m ap) = Some e"
  using assms by (cases s) (auto simp: incremental_update_def body_vars_def [symmetric] get_int_def Let_def elim!: well_framedE)

lemma collision_message:
  assumes "feed_rel I ap f" "well_framed E m" "f k \<noteq> None" "s \<noteq> NO_SIDE" "s' \<noteq> NO_SIDE"
    "read_entries (mdc_new_replaces (md_cfg ap)) (groups_of NoMDEntries m) (body_vars m) =
      Some ([(k, QNew ''147257'' s sz p), (k, QNew ''152941'' s' sz' p'), (k, QDelete ''147257''), (k, QDelete ''152941'')], v)"
  shows "fst (incremental_update E m ap) = Some AssertFails"
proof -
  obtain st xt where st: "fm_header m SendingTime = Some st" "send_time E st = Inr xt" using well_framedE [OF assms(2)] .
  obtain b where b: "getBook k ap = Some b" "book_wf b"
    using assms(1,3) by (auto simp: kbook.tracks_def elim: feed_rel_book)
  let ?r = "mdc_new_replaces (md_cfg ap)"
  obtain g1 g2 g3 g4 v1 v2 v3 v4 where g: "groups_of NoMDEntries m = [g1, g2, g3, g4]"
    "v1 = update_vars g1 (body_vars m)" "v2 = update_vars g2 v1" "v3 = update_vars g3 v2" "v4 = update_vars g4 v3"
    "read_entry ?r g1 v1 = Some (k, QNew ''147257'' s sz p)" "read_entry ?r g2 v2 = Some (k, QNew ''152941'' s' sz' p')"
    "read_entry ?r g3 v3 = Some (k, QDelete ''147257'')" "read_entry ?r g4 v4 = Some (k, QDelete ''152941'')"
    using assms(6) by (elim read_entries_ConsE) (auto dest: read_entries_NilE)
  have sz: "u32_in_range sz" "u32_in_range sz'"
    using apply_update_read(2) [OF g(6)] apply_update_read(2) [OF g(7)] by simp_all
  obtain b1 b2 b3 where r: "apply_q (QNew ''147257'' s sz p) (me_clk E (md_clock ap)) xt b = Inr b1"
    "apply_q (QNew ''152941'' s' sz' p') (me_clk E (md_clock ap + 1)) xt b1 = Inr b2"
    "apply_q (QDelete ''147257'') (me_clk E (md_clock ap + 2)) xt b2 = Inr b3"
    "apply_q (QDelete ''152941'') (me_clk E (md_clock ap + 3)) xt b3 = Inl AssertFails"
    using collision_run [OF b(2) hash_collision sz assms(4,5)] by metis
  have "\<exists>u. for_groups (update_entry E st) (length [g1, g2, g3, g4]) [g1, g2, g3, g4] (body_vars m, None, ap) = (Some AssertFails, u)"
    using r g(6-9) b(1) unfolding g(2-5)
    by (simp add: update_entry_q [OF st(2)] eval_nat_numeral del: apply_q.simps)
  then show ?thesis
    using incremental_stop [OF assms(2) st(1)] by (auto simp: g(1) simp del: for_groups.simps)
qed

lemma refresh_no_book:
  assumes "send_time E st = Inr xt" "read_quote (refresh_vars g v) = Some q"
  shows "refresh_entry E st None g (v, ap) = (Some NullBook, refresh_vars g v, ap)"
proof -
  obtain i s sz p where "q = (i, s, sz, p)" by (cases q)
  then show ?thesis
    using snapshot_quote_read [OF assms(1), of "refresh_vars g v" i s sz p] assms(2)
    by (simp add: refresh_entry_def book_in_hand_def Let_def)
qed

lemma unsubscribed_refresh:
  assumes "feed_rel I ap f" "well_framed E m" "get_string (v_symbol (body_vars m)) = Inr k" "f k = None"
    "read_quotes (groups_of NoMDEntries m) (body_vars m) = Some (qs, v)"
  shows "fst (full_refresh E m ap) = Some NullBook"
proof -
  obtain st xt where st: "fm_header m SendingTime = Some st" "send_time E st = Inr xt"
    "fm_body m NoMDEntries = Some (FInt (int (length (groups_of NoMDEntries m))))"
    using well_framedE [OF assms(2)] .
  have "getBook k ap = None" using assms(4) by (simp add: feed_rel_no_book [OF assms(1)])
  then have start: "refresh_start n (body_vars m) ap = Inr (None, ap)" for n
    using assms(3) by (simp add: refresh_start_def)
  show ?thesis
  proof (cases "groups_of NoMDEntries m")
    case Nil
    then show ?thesis
      using st start by (simp add: full_refresh_def body_vars_def [symmetric] get_int_def Let_def
          broadcast_book_def book_in_hand_def)
  next
    case (Cons g gs)
    then obtain q where "read_quote (refresh_vars g (body_vars m)) = Some q"
      using assms(5) by (auto simp: Let_def split: option.splits)
    then show ?thesis
      using st start Cons refresh_no_book [OF st(2)]
      by (simp add: full_refresh_def body_vars_def [symmetric] get_int_def Let_def nat_add_distrib
          del: of_nat_Suc)
  qed
qed

lemma read_entries_single:
  assumes "read_entries replaces gs v = Some ([(k, q)], v')"
  obtains g where "gs = [g]" "read_entry replaces g (update_vars g v) = Some (k, q)"
  using assms by (elim read_entries_ConsE) (auto dest: read_entries_NilE)

lemma unsubscribed_update:
  assumes "feed_rel I ap f" "well_framed E m" "f k = None"
    "read_entries (mdc_new_replaces (md_cfg ap)) (groups_of NoMDEntries m) (body_vars m) = Some ([(k, q)], v)"
  shows "fst (incremental_update E m ap) = Some NullBook"
proof -
  obtain st xt where st: "fm_header m SendingTime = Some st" "send_time E st = Inr xt"
    "fm_body m NoMDEntries = Some (FInt (int (length (groups_of NoMDEntries m))))"
    using well_framedE [OF assms(2)] .
  obtain g where g: "groups_of NoMDEntries m = [g]"
    "read_entry (mdc_new_replaces (md_cfg ap)) g (update_vars g (body_vars m)) = Some (k, q)"
    using read_entries_single [OF assms(4)] .
  have "getBook k ap = None" using assms(3) by (simp add: feed_rel_no_book [OF assms(1)])
  then show ?thesis
    using st g apply_update_read(3) [OF g(2)]
    by (simp add: incremental_update_def body_vars_def [symmetric] get_int_def Let_def update_entry_def
        broadcast_book_def book_in_hand_def)
qed

lemma unknown_delete:
  assumes "feed_rel I ap f" "well_framed E m" "f k = Some mm" "i \<in> I" "mm i = None"
    "read_entries (mdc_new_replaces (md_cfg ap)) (groups_of NoMDEntries m) (body_vars m) = Some ([(k, QDelete i)], v)"
  shows "fst (incremental_update E m ap) = Some AssertFails"
proof -
  obtain st xt where st: "fm_header m SendingTime = Some st" "send_time E st = Inr xt"
    using well_framedE [OF assms(2)] .
  obtain g where g: "groups_of NoMDEntries m = [g]"
    "read_entry (mdc_new_replaces (md_cfg ap)) g (update_vars g (body_vars m)) = Some (k, QDelete i)"
    using read_entries_single [OF assms(6)] .
  obtain b where b: "getBook k ap = Some b" "kbook.tracks I b mm" using feed_rel_book [OF assms(1,3)] .
  have "getOrder (entry_hash i) b = None" using tracks_view [OF b(2) assms(4)] assms(5) by (simp add: getOrder_None)
  then show ?thesis
    using update_entry_q [OF st(2) g(2) b(1)]
    by (intro incremental_stop [OF assms(2) st(1)]) (simp add: g(1) apply_delete_def)
qed

text \<open>C19. Well-formed messages that bring the process down, in any state that is in step with the
  feed: a message of either kind without entries, or for a symbol that was not subscribed, takes the
  best price of a null book; deleting a quote that is not live fails an assertion; and so does an
  exchange that announces and deletes the two quotes 147257 and 152941, whose ids have the same hash,
  although it follows the protocol.\<close>

theorem fatal_messages:
  assumes "feed_rel I ap f" and "well_framed E m"
  shows "(groups_of NoMDEntries m = [] \<longrightarrow>
      fst (md_fromApp E (MarketDataSnapshotFullRefresh m) ap) = Some NullBook \<and>
      fst (md_fromApp E (MarketDataIncrementalRefresh m) ap) = Some NullBook) \<and>
    (\<forall>k qs v. get_string (v_symbol (body_vars m)) = Inr k \<and> f k = None \<and>
      read_quotes (groups_of NoMDEntries m) (body_vars m) = Some (qs, v) \<longrightarrow>
      fst (md_fromApp E (MarketDataSnapshotFullRefresh m) ap) = Some NullBook) \<and>
    (\<forall>k q v. f k = None \<and> read_entries (mdc_new_replaces (md_cfg ap)) (groups_of NoMDEntries m) (body_vars m)
        = Some ([(k, q)], v) \<longrightarrow>
      fst (md_fromApp E (MarketDataIncrementalRefresh m) ap) = Some NullBook) \<and>
    (\<forall>k mm i v. f k = Some mm \<and> i \<in> I \<and> mm i = None \<and>
      read_entries (mdc_new_replaces (md_cfg ap)) (groups_of NoMDEntries m) (body_vars m) = Some ([(k, QDelete i)], v) \<longrightarrow>
      fst (md_fromApp E (MarketDataIncrementalRefresh m) ap) = Some AssertFails) \<and>
    (\<forall>k s sz p s' sz' p' v. f k \<noteq> None \<and> s \<noteq> NO_SIDE \<and> s' \<noteq> NO_SIDE \<and>
      read_entries (mdc_new_replaces (md_cfg ap)) (groups_of NoMDEntries m) (body_vars m) =
        Some ([(k, QNew ''147257'' s sz p), (k, QNew ''152941'' s' sz' p'), (k, QDelete ''147257''), (k, QDelete ''152941'')], v) \<longrightarrow>
      fst (md_fromApp E (MarketDataIncrementalRefresh m) ap) = Some AssertFails)"
proof -
  let ?ap = "ap\<lparr>md_appMsgCount := md_appMsgCount ap + 1\<rparr>"
  have ap: "feed_rel I ?ap f" using assms(1) by simp
  have "groups_of NoMDEntries m = [] \<longrightarrow> fst (full_refresh E m ?ap) = Some NullBook \<and> fst (incremental_update E m ?ap) = Some NullBook"
    using assms(2) by (auto elim!: well_framedE simp: full_refresh_def incremental_update_def refresh_start_def get_int_def
        Let_def broadcast_book_def book_in_hand_def)
  then show ?thesis
    using unsubscribed_refresh [OF ap assms(2)] unsubscribed_update [OF ap assms(2)] unknown_delete [OF ap assms(2)]
      collision_message [OF ap assms(2)]
    by (simp add: md_fromApp_def md_onMessage_def) blast
qed

definition demo_collision :: group_message where
  "demo_collision = demo_message ''X'' []
     [[(MDUpdateAction, FChar MDUpdateAction_NEW), (MDEntryType, FChar MDEntryType_BID), (MDEntryID, FString ''147257''),
       (Symbol, FString ''EUR/USD''), (MDEntryPx, FDouble (9/8)), (MDEntrySize, FDouble 20)],
      [(MDEntryID, FString ''152941''), (MDEntryPx, FDouble (5/4)), (MDEntrySize, FDouble 10)],
      [(MDUpdateAction, FChar MDUpdateAction_DELETE), (MDEntryID, FString ''147257'')],
      [(MDEntryID, FString ''152941'')]]"

lemma fatal_messages_witness:
  "\<exists>ap. md_onLogon (''S'', ''T'') (handler_app ''a'' [''EUR/USD''] demo_cfg) = (None, ap) \<and>
     fst (md_fromApp demo_env (MarketDataIncrementalRefresh demo_collision) ap) = Some AssertFails \<and>
     feed_run [(''EUR/USD'', QNew ''147257'' BID 20 (9/8)), (''EUR/USD'', QNew ''152941'' BID 10 (5/4)),
       (''EUR/USD'', QDelete ''147257''), (''EUR/USD'', QDelete ''152941'')] (subscribed [''EUR/USD'']) \<noteq> None"
proof -
  obtain ap where ap: "md_onLogon (''S'', ''T'') (handler_app ''a'' [''EUR/USD''] demo_cfg) = (None, ap)"
    "feed_rel {} ap (subscribed [''EUR/USD''])" "md_cfg ap = demo_cfg"
    using demo_logon by blast
  have w: "well_framed demo_env demo_collision" by (simp add: demo_collision_def)
  have r: "\<exists>v. read_entries (mdc_new_replaces (md_cfg ap)) (groups_of NoMDEntries demo_collision) (body_vars demo_collision) =
      Some ([(''EUR/USD'', QNew ''147257'' BID 20 (9/8)), (''EUR/USD'', QNew ''152941'' BID 10 (5/4)),
        (''EUR/USD'', QDelete ''147257''), (''EUR/USD'', QDelete ''152941'')], v)"
    by (simp add: ap(3) demo_collision_def demo_defs demo_cfg_def)
  have s: "subscribed [''EUR/USD''] ''EUR/USD'' = Some Map.empty" by (simp add: subscribed_def)
  have "fst (md_fromApp demo_env (MarketDataIncrementalRefresh demo_collision) ap) = Some AssertFails"
    using fatal_messages [OF ap(2) w] r s by (metis option.distinct(1) side.distinct(3))
  then show ?thesis using ap(1) s by (simp add: put_quote_def)
qed

end
