(* ===== verification/Replay.thy ===== *)
theory Replay
  imports TimeUtils
begin

text \<open>
  The replay of a FIX log, \<^verbatim>\<open>replay_server/msg_pump.cpp\<close> and
  \<^verbatim>\<open>replay_server/msg_dispatcher.cpp\<close>: one thread, the pump, reads the lines of the log into a slot,
  another, the dispatcher, takes them out in pairs, parses them, and sends both messages of a pair with the time
  between them in between; a third one, the FIX engine's, stops them at the logout.

  The threads are steps on a shared state. A critical section of the pump's mutex is one step, which is
  possible when the condition it waits for holds; a join is possible when the thread has ended. What
  the dispatcher does between two critical sections touches nothing shared and is divided only
  where something becomes visible: the test of the stop flag, the two sendings, the sleep. A log is the
  list of its lines (\<open>None\<close> when the file did not open); reading it does not fail before its end.

  The parser and the messages of QuickFIX, the session it looks up and the time library are the parameter
  \<open>fix_lib\<close>. An uncaught exception, a failing \<^verbatim>\<open>assert\<close> and undefined behaviour end the process
  (\<open>rp_dead\<close>). A \<^verbatim>\<open>float\<close> is the rational it stands for, rounded by \<open>f32\<close>; infinities and
  subnormal numbers are outside the model.
\<close>

section \<open>Messages\<close>

datatype MSG_RET = MSG_OK | MSG_NOT_READY | MSG_EOF | MSG_ERROR

text \<open>What is read of a parsed message, with the message itself.\<close>

datatype time_field = NoTime | BadTime | SendingTime string

record 'm parsed =
  pm_empty :: bool
  pm_type :: "string option"
  pm_begin :: "string option"
  pm_time :: time_field
  pm_msg :: 'm

datatype parse_result = ParsedText string | NoText | ParseThrow

record ('m, 'p, 't) fix_lib =
  fl_addToStream :: "string \<Rightarrow> 'p \<Rightarrow> 'p"
  fl_readFixMessage :: "'p \<Rightarrow> parse_result \<times> 'p"
  fl_setString :: "string \<Rightarrow> 'm parsed option"
  fl_session_found :: bool
  fl_time_from_string :: "string \<Rightarrow> 't"
  fl_total_microseconds :: "'t option \<Rightarrow> 't option \<Rightarrow> int"

definition MsgType_MarketDataSnapshotFullRefresh :: string where "MsgType_MarketDataSnapshotFullRefresh = ''W''"
definition MsgType_MarketDataIncrementalRefresh :: string where "MsgType_MarketDataIncrementalRefresh = ''X''"
definition BeginString_FIX42 :: string where "BeginString_FIX42 = ''FIX.4.2''"

lemmas md_types = MsgType_MarketDataSnapshotFullRefresh_def MsgType_MarketDataIncrementalRefresh_def BeginString_FIX42_def

section \<open>Single precision\<close>

fun num_bits :: "nat \<Rightarrow> nat" where
  "num_bits n = (if n = 0 then 0 else Suc (num_bits (n div 2)))"

declare num_bits.simps [simp del]

text \<open>The exponent of the leading bit, and rounding to 24 bits, ties to even.\<close>

definition leading_bit :: "rat \<Rightarrow> int" where
  "leading_bit x = (case quotient_of \<bar>x\<bar> of (n, d) \<Rightarrow>
     let e = int (num_bits (nat n)) - int (num_bits (nat d)) in if \<bar>x\<bar> < 2 powi e then e - 1 else e)"

definition round_even :: "rat \<Rightarrow> int" where
  "round_even r = (let f = \<lfloor>r\<rfloor> in
     if r - of_int f < 1 / 2 then f else if r - of_int f > 1 / 2 then f + 1 else if even f then f else f + 1)"

definition f32 :: "rat \<Rightarrow> rat" where
  "f32 x = (if x = 0 then 0 else let u = 2 powi (leading_bit x - 23) in of_int (round_even (x / u)) * u)"

text \<open>\<^verbatim>\<open>delta /= _speedFactor\<close>: both operands are floats, the quotient is cut to a \<^verbatim>\<open>long\<close>.\<close>

definition scale_delta :: "rat \<Rightarrow> int \<Rightarrow> int option" where
  "scale_delta speed d = (if speed = 0 then None else s64 (trunc_dbl (f32 (f32 (of_int d) / speed))))"

section \<open>The dispatcher's work on a message\<close>

record 'p md_local =
  md_parser :: 'p
  md_mtext1 :: string
  md_mtext2 :: string
  md_delta :: int

text \<open>
  A line goes into the parser, the text that comes out is kept and parsed as a message; when none comes
  out, the text kept from the last time is parsed again, since the result is not looked at. \<open>None\<close>
  is an exception.
\<close>

definition md_parse :: "('m, 'p, 't) fix_lib \<Rightarrow> string \<Rightarrow> 'p \<Rightarrow> string \<Rightarrow> ('p \<times> string \<times> 'm parsed) option" where
  "md_parse L raw ps text = (case fl_readFixMessage L (fl_addToStream L raw ps) of
     (ParseThrow, ps) \<Rightarrow> None
   | (r, ps) \<Rightarrow> (let text = (case r of ParsedText t \<Rightarrow> t | _ \<Rightarrow> text) in
       case fl_setString L text of None \<Rightarrow> None | Some m \<Rightarrow> Some (ps, text, m)))"

definition md_take1 :: "('m, 'p, 't) fix_lib \<Rightarrow> string \<Rightarrow> 'p md_local \<Rightarrow> ('p md_local \<times> 'm parsed) option" where
  "md_take1 L raw l = (case md_parse L raw (md_parser l) (md_mtext1 l) of None \<Rightarrow> None
     | Some (ps, text, m) \<Rightarrow> Some (l\<lparr>md_parser := ps, md_mtext1 := text\<rparr>, m))"

definition md_take2 :: "('m, 'p, 't) fix_lib \<Rightarrow> string \<Rightarrow> 'p md_local \<Rightarrow> ('p md_local \<times> 'm parsed) option" where
  "md_take2 L raw l = (case md_parse L raw (md_parser l) (md_mtext2 l) of None \<Rightarrow> None
     | Some (ps, text, m) \<Rightarrow> Some (l\<lparr>md_parser := ps, md_mtext2 := text\<rparr>, m))"

text \<open>\<open>Some None\<close> is the result false.\<close>

definition getTimeDelta :: "('m, 'p, 't) fix_lib \<Rightarrow> 'm parsed \<Rightarrow> 'm parsed \<Rightarrow> int option option" where
  "getTimeDelta L m1 m2 = (if pm_empty m1 \<or> pm_empty m2 then Some None else
     case (pm_time m1, pm_time m2) of
       (NoTime, _) \<Rightarrow> Some None
     | (_, NoTime) \<Rightarrow> Some None
     | (BadTime, _) \<Rightarrow> None
     | (_, BadTime) \<Rightarrow> None
     | (SendingTime a, SendingTime b) \<Rightarrow> do {
         pt1 \<leftarrow> UTCTimeStampToPTime (fl_time_from_string L) a (Some 30);
         pt2 \<leftarrow> UTCTimeStampToPTime (fl_time_from_string L) b (Some 30);
         Some (Some (fl_total_microseconds L pt1 pt2)) })"

text \<open>Without a difference the last one, which has been divided already, is divided again.\<close>

definition md_pair_delta :: "('m, 'p, 't) fix_lib \<Rightarrow> rat \<Rightarrow> 'm parsed \<Rightarrow> 'm parsed \<Rightarrow> int \<Rightarrow> int option" where
  "md_pair_delta L speed m1 m2 delta = (case getTimeDelta L m1 m2 of None \<Rightarrow> None
     | Some None \<Rightarrow> scale_delta speed delta
     | Some (Some d) \<Rightarrow> scale_delta speed d)"

text \<open>What the world sees of the dispatcher.\<close>

datatype 'm rp_event = Sent 'm | Slept int

definition md_dispatch :: "('m, 'p, 't) fix_lib \<Rightarrow> 'm parsed \<Rightarrow> 'm rp_event list option" where
  "md_dispatch L m = (case pm_type m of None \<Rightarrow> None | Some t \<Rightarrow>
     (case pm_begin m of None \<Rightarrow> None | Some bs \<Rightarrow>
       if t = MsgType_MarketDataSnapshotFullRefresh
       then (if bs = BeginString_FIX42 then (if fl_session_found L then Some [Sent (pm_msg m)] else None) else Some [])
       else if t = MsgType_MarketDataIncrementalRefresh
       then (if fl_session_found L then Some [Sent (pm_msg m)] else None)
       else Some []))"

section \<open>The threads\<close>

datatype pump_pc = PLoop | PRead | PDone
datatype 'm disp_pc = DNone | DTop | DGet1 | DGet2 "'m parsed" | DSend1 "'m parsed" "'m parsed"
  | DSleep "'m parsed" | DSend2 "'m parsed" | DDone
datatype ctl_pc = CIdle | CPump | CDisp | CDone

record ('m, 'p) replay =
  rp_in :: "string list option"
  rp_code :: MSG_RET
  rp_read :: bool
  rp_consumed :: bool
  rp_strMsg :: string
  rp_pumpStop :: bool
  rp_pump :: pump_pc
  rp_dispStop :: bool
  rp_disp :: "'m disp_pc"
  rp_local :: "'p md_local"
  rp_speed :: rat
  rp_out :: "'m rp_event list"
  rp_ctl :: ctl_pc
  rp_dead :: bool

text \<open>
  Creating and starting both. The dispatcher's constructor leaves its two flags as the memory has them
  (\<open>started0\<close>, \<open>stop0\<close>), and no thread is made when one of them happens to be set.
\<close>

definition new_replay :: "'p \<Rightarrow> rat \<Rightarrow> bool \<Rightarrow> bool \<Rightarrow> string list option \<Rightarrow> ('m, 'p) replay" where
  "new_replay ps speed started0 stop0 file = \<lparr>rp_in = file, rp_code = MSG_NOT_READY, rp_read = False,
     rp_consumed = True, rp_strMsg = [], rp_pumpStop = False, rp_pump = PLoop, rp_dispStop = stop0,
     rp_disp = (if started0 \<or> stop0 then DNone else DTop),
     rp_local = \<lparr>md_parser = ps, md_mtext1 = [], md_mtext2 = [], md_delta = 0\<rparr>,
     rp_speed = f32 speed, rp_out = [], rp_ctl = CIdle, rp_dead = False\<rparr>"

definition pump_read :: "('m, 'p) replay \<Rightarrow> ('m, 'p) replay option" where
  "pump_read s = (if \<not> rp_consumed s then None else
     case rp_in s of None \<Rightarrow> Some (s\<lparr>rp_dead := True\<rparr>)
     | Some [] \<Rightarrow> Some (s\<lparr>rp_code := MSG_EOF, rp_read := True, rp_consumed := False, rp_pump := PLoop\<rparr>)
     | Some (l # ls) \<Rightarrow> Some (s\<lparr>rp_in := Some ls, rp_strMsg := l, rp_code := MSG_OK, rp_read := True,
         rp_consumed := False, rp_pump := PLoop\<rparr>))"

definition pump_step :: "('m, 'p) replay \<Rightarrow> ('m, 'p) replay option" where
  "pump_step s = (case rp_pump s of
     PLoop \<Rightarrow> Some (s\<lparr>rp_pump := if \<not> rp_pumpStop s \<and> rp_code s \<noteq> MSG_EOF then PRead else PDone\<rparr>)
   | PRead \<Rightarrow> pump_read s
   | PDone \<Rightarrow> None)"

text \<open>\<^verbatim>\<open>getMsg\<close>: the text and the code of the slot, which is free afterwards.\<close>

definition getMsg :: "('m, 'p) replay \<Rightarrow> (string \<times> MSG_RET \<times> ('m, 'p) replay) option" where
  "getMsg s = (if rp_read s then Some (rp_strMsg s, rp_code s, s\<lparr>rp_consumed := True, rp_read := False\<rparr>) else None)"

definition disp_get1 :: "('m, 'p, 't) fix_lib \<Rightarrow> ('m, 'p) replay \<Rightarrow> ('m, 'p) replay option" where
  "disp_get1 L s = (case getMsg s of None \<Rightarrow> None
     | Some (raw, ret, s) \<Rightarrow> Some (if ret = MSG_OK
         then (case md_take1 L raw (rp_local s) of None \<Rightarrow> s\<lparr>rp_dead := True\<rparr>
               | Some (l, m) \<Rightarrow> s\<lparr>rp_local := l, rp_disp := DGet2 m\<rparr>)
         else s\<lparr>rp_disp := DDone\<rparr>))"

definition disp_get2 :: "('m, 'p, 't) fix_lib \<Rightarrow> 'm parsed \<Rightarrow> ('m, 'p) replay \<Rightarrow> ('m, 'p) replay option" where
  "disp_get2 L m1 s = (case getMsg s of None \<Rightarrow> None
     | Some (raw, ret, s) \<Rightarrow> Some (if ret = MSG_OK
         then (case md_take2 L raw (rp_local s) of None \<Rightarrow> s\<lparr>rp_dead := True\<rparr>
               | Some (l, m2) \<Rightarrow> (case md_pair_delta L (rp_speed s) m1 m2 (md_delta l) of None \<Rightarrow> s\<lparr>rp_dead := True\<rparr>
                   | Some d \<Rightarrow> s\<lparr>rp_local := l\<lparr>md_delta := d\<rparr>, rp_disp := DSend1 m1 m2\<rparr>))
         else s\<lparr>rp_disp := DDone\<rparr>))"

definition disp_send :: "('m, 'p, 't) fix_lib \<Rightarrow> 'm parsed \<Rightarrow> 'm disp_pc \<Rightarrow> ('m, 'p) replay \<Rightarrow> ('m, 'p) replay" where
  "disp_send L m pc s = (case md_dispatch L m of None \<Rightarrow> s\<lparr>rp_dead := True\<rparr>
     | Some es \<Rightarrow> s\<lparr>rp_out := rp_out s @ es, rp_disp := pc\<rparr>)"

definition disp_step :: "('m, 'p, 't) fix_lib \<Rightarrow> ('m, 'p) replay \<Rightarrow> ('m, 'p) replay option" where
  "disp_step L s = (case rp_disp s of
     DNone \<Rightarrow> None
   | DTop \<Rightarrow> Some (s\<lparr>rp_disp := if rp_dispStop s then DDone else DGet1\<rparr>)
   | DGet1 \<Rightarrow> disp_get1 L s
   | DGet2 m1 \<Rightarrow> disp_get2 L m1 s
   | DSend1 m1 m2 \<Rightarrow> Some (disp_send L m1 (DSleep m2) s)
   | DSleep m2 \<Rightarrow> Some (s\<lparr>rp_out := rp_out s @ [Slept (md_delta (rp_local s))], rp_disp := DSend2 m2\<rparr>)
   | DSend2 m2 \<Rightarrow> Some (disp_send L m2 DTop s)
   | DDone \<Rightarrow> None)"

text \<open>The logout sets the pump's flag and waits for the pump, then sets the dispatcher's and waits for it.\<close>

definition request_stop :: "('m, 'p) replay \<Rightarrow> ('m, 'p) replay" where
  "request_stop s = s\<lparr>rp_pumpStop := True, rp_ctl := CPump\<rparr>"

definition ctl_step :: "('m, 'p) replay \<Rightarrow> ('m, 'p) replay option" where
  "ctl_step s = (case rp_ctl s of
     CIdle \<Rightarrow> None
   | CPump \<Rightarrow> if rp_pump s = PDone then Some (s\<lparr>rp_dispStop := True, rp_ctl := CDisp\<rparr>) else None
   | CDisp \<Rightarrow> (case rp_disp s of
       DNone \<Rightarrow> Some (s\<lparr>rp_dead := True\<rparr>)
     | DDone \<Rightarrow> Some (s\<lparr>rp_ctl := CDone\<rparr>)
     | _ \<Rightarrow> None)
   | CDone \<Rightarrow> None)"

inductive replay_step :: "('m, 'p, 't) fix_lib \<Rightarrow> ('m, 'p) replay \<Rightarrow> ('m, 'p) replay \<Rightarrow> bool" for L where
  pump: "\<not> rp_dead s \<Longrightarrow> pump_step s = Some s' \<Longrightarrow> replay_step L s s'"
| dispatcher: "\<not> rp_dead s \<Longrightarrow> disp_step L s = Some s' \<Longrightarrow> replay_step L s s'"
| stopping: "\<not> rp_dead s \<Longrightarrow> ctl_step s = Some s' \<Longrightarrow> replay_step L s s'"

inductive_cases replay_stepE: "replay_step L s s'"

text \<open>The logout may come at any moment.\<close>

inductive replay_event :: "('m, 'p, 't) fix_lib \<Rightarrow> ('m, 'p) replay \<Rightarrow> ('m, 'p) replay \<Rightarrow> bool" for L where
  step: "replay_step L s s' \<Longrightarrow> replay_event L s s'"
| logout: "\<not> rp_dead s \<Longrightarrow> rp_ctl s = CIdle \<Longrightarrow> replay_event L s (request_stop s)"

inductive_cases replay_eventE: "replay_event L s s'"

end
