(* ===== verification/Exchange.thy ===== *)
theory Exchange
  imports Replay FixFields
begin

text \<open>
  The replay server's FIX application, \<^verbatim>\<open>replay_server/Application.cpp\<close> with
  \<^verbatim>\<open>session_info.cpp\<close>: an exchange that fills every limit order at its price and answers a market
  data request by starting the replay of a log.

  A message is its fields (\<open>FixFields\<close>), with the repeating groups of a market data request as lists of
  fields. A handler serves a message, rejects it by an exception that QuickFIX turns into a reject, in the state it had
  reached (\<open>Rejected\<close>), or ends the process (\<open>Died\<close>): a failing \<^verbatim>\<open>assert\<close>, an exception
  \<^verbatim>\<open>fromApp\<close> does not declare, or undefined behaviour. Copying a field does not convert it, reading its
  value does. The order in which a compiler evaluates the arguments of a call is a parameter. What is sent is recorded with its session; a session that is gone is caught by the code. The engine's table of sessions and the file system are
  the parameter \<open>ex_env\<close>. Console output is not modelled.
\<close>

section \<open>Field values\<close>

definition get_field :: "fields \<Rightarrow> fix_tag \<Rightarrow> fix_value app_result" where
  "get_field m t = (case m t of None \<Rightarrow> Throw | Some v \<Rightarrow> Ret v)"

definition char_value :: "fix_value \<Rightarrow> char app_result" where
  "char_value v = (case v of FChar c \<Rightarrow> Ret c | _ \<Rightarrow> Throw)"

definition double_value :: "fix_value \<Rightarrow> dbl app_result" where
  "double_value v = (case v of FDouble d \<Rightarrow> Ret d | _ \<Rightarrow> Throw)"

definition int_value :: "fix_value \<Rightarrow> int app_result" where
  "int_value v = (case v of FInt i \<Rightarrow> Ret i | _ \<Rightarrow> Throw)"

definition string_value :: "fix_value \<Rightarrow> string app_result" where
  "string_value v = (case v of FString s \<Rightarrow> Ret s | _ \<Rightarrow> Throw)"

lemmas field_values = get_field_def char_value_def double_value_def int_value_def string_value_def

fun then_do :: "'a app_result \<Rightarrow> ('a \<Rightarrow> 'b app_result) \<Rightarrow> 'b app_result" where
  "then_do (Ret a) f = f a"
| "then_do Throw f = Throw"
| "then_do Abort f = Abort"

text \<open>The end of a handler, with the state it leaves.\<close>

datatype ('a, 's) served = Served 'a 's | Rejected 's | Died

fun and_then :: "('a, 's) served \<Rightarrow> ('a \<Rightarrow> 's \<Rightarrow> ('b, 's) served) \<Rightarrow> ('b, 's) served" where
  "and_then (Served a s) f = f a s"
| "and_then (Rejected s) f = Rejected s"
| "and_then Died f = Died"

text \<open>Reading leaves the state as it is.\<close>

fun reading :: "'a app_result \<Rightarrow> 's \<Rightarrow> ('a, 's) served" where
  "reading (Ret a) s = Served a s"
| "reading Throw s = Rejected s"
| "reading Abort s = Died"

fun lifting :: "('s \<Rightarrow> 't) \<Rightarrow> ('a, 's) served \<Rightarrow> ('a, 't) served" where
  "lifting f (Served a s) = Served a (f s)"
| "lifting f (Rejected s) = Rejected (f s)"
| "lifting f Died = Died"

section \<open>Sessions\<close>

record 'r session_info =
  si_symbols :: "(string \<times> string) list"
  si_sessionID :: string
  si_dispatcher :: "'r option"

definition new_session_info :: "string \<Rightarrow> 'r session_info" where
  "new_session_info i = \<lparr>si_symbols = [], si_sessionID = i, si_dispatcher = None\<rparr>"

definition addSymbol :: "string \<Rightarrow> 'r session_info \<Rightarrow> bool \<times> 'r session_info" where
  "addSymbol s si = (if map_of (si_symbols si) s = None then (True, si\<lparr>si_symbols := sm_put s [] (si_symbols si)\<rparr>)
     else (False, si))"

definition removeSymbol :: "string \<Rightarrow> 'r session_info \<Rightarrow> 'r session_info" where
  "removeSymbol s si = si\<lparr>si_symbols := sm_del s (si_symbols si)\<rparr>"

definition hasSymbol :: "string \<Rightarrow> 'r session_info \<Rightarrow> bool" where
  "hasSymbol s si \<longleftrightarrow> map_of (si_symbols si) s \<noteq> None"

text \<open>The end of the map is dereferenced when there is no such symbol.\<close>

definition getMDReqID :: "string \<Rightarrow> 'r session_info \<Rightarrow> string option" where
  "getMDReqID s si = map_of (si_symbols si) s"

definition si_size :: "'r session_info \<Rightarrow> nat" where
  "si_size si = length (si_symbols si)"

definition hasDispatcher :: "'r session_info \<Rightarrow> bool" where
  "hasDispatcher si \<longleftrightarrow> si_dispatcher si \<noteq> None"

definition setDispatcher :: "'r option \<Rightarrow> 'r session_info \<Rightarrow> bool \<times> 'r session_info" where
  "setDispatcher md si = (if si_dispatcher si = None \<and> md \<noteq> None then (True, si\<lparr>si_dispatcher := md\<rparr>) else (False, si))"

definition getDispatcher :: "'r session_info \<Rightarrow> 'r option" where
  "getDispatcher si = si_dispatcher si"

definition getSessionID :: "'r session_info \<Rightarrow> string" where
  "getSessionID si = si_sessionID si"

section \<open>The application\<close>

record ('m, 'p) exchange =
  ex_orderID :: int
  ex_execID :: int
  ex_replayLog :: string
  ex_isReplay :: bool
  ex_replayVolatility :: dbl
  ex_replayTimeDiv :: dbl
  ex_sessions :: "(string \<times> ('m, 'p) replay session_info) list"
  ex_sent :: "(string \<times> fix_message) list"

text \<open>Volatility and speed are uninitialised until they are set; \<open>vol\<close> and \<open>sp\<close> are what the memory holds.\<close>

definition new_exchange :: "dbl \<Rightarrow> dbl \<Rightarrow> ('m, 'p) exchange" where
  "new_exchange vol sp = \<lparr>ex_orderID = 0, ex_execID = 0, ex_replayLog = [], ex_isReplay = False,
     ex_replayVolatility = vol, ex_replayTimeDiv = sp, ex_sessions = [], ex_sent = []\<rparr>"

definition setReplayLog :: "string \<Rightarrow> ('m, 'p) exchange \<Rightarrow> ('m, 'p) exchange" where
  "setReplayLog l ex = ex\<lparr>ex_replayLog := l, ex_isReplay := True\<rparr>"

definition setReplayVolatility :: "dbl \<Rightarrow> ('m, 'p) exchange \<Rightarrow> ('m, 'p) exchange" where
  "setReplayVolatility v ex = ex\<lparr>ex_replayVolatility := v\<rparr>"

definition setReplaySpeed :: "dbl \<Rightarrow> ('m, 'p) exchange \<Rightarrow> ('m, 'p) exchange" where
  "setReplaySpeed sp ex = ex\<lparr>ex_replayTimeDiv := sp\<rparr>"

text \<open>The decimal text of a number, as a stream prints it.\<close>

fun digits_of :: "nat \<Rightarrow> string" where
  "digits_of n = (if n < 10 then [char_of (48 + n)] else digits_of (n div 10) @ [char_of (48 + n mod 10)])"

declare digits_of.simps [simp del]

text \<open>The counters are \<^verbatim>\<open>int\<close>s.\<close>

definition genOrderID :: "('m, 'p) exchange \<Rightarrow> (string, ('m, 'p) exchange) served" where
  "genOrderID ex = (case s32 (ex_orderID ex + 1) of None \<Rightarrow> Died
     | Some i \<Rightarrow> Served (digits_of (nat i)) (ex\<lparr>ex_orderID := i\<rparr>))"

definition genExecID :: "('m, 'p) exchange \<Rightarrow> (string, ('m, 'p) exchange) served" where
  "genExecID ex = (case s32 (ex_execID ex + 1) of None \<Rightarrow> Died
     | Some i \<Rightarrow> Served (digits_of (nat i)) (ex\<lparr>ex_execID := i\<rparr>))"

definition ex_send :: "string \<Rightarrow> fix_message \<Rightarrow> ('m, 'p) exchange \<Rightarrow> ('m, 'p) exchange" where
  "ex_send sess m ex = ex\<lparr>ex_sent := ex_sent ex @ [(sess, m)]\<rparr>"

section \<open>Orders\<close>

definition OrdType_LIMIT :: char where "OrdType_LIMIT = CHR ''2''"
definition OrdStatus_FILLED :: char where "OrdStatus_FILLED = CHR ''2''"
definition ExecType_FILL :: char where "ExecType_FILL = CHR ''2''"
definition ExecTransType_NEW :: char where "ExecTransType_NEW = CHR ''0''"

lemmas exchange_chars = OrdType_LIMIT_def OrdStatus_FILLED_def ExecType_FILL_def ExecTransType_NEW_def

text \<open>What every handler reads of an order, in its order: a limit order's symbol, side, quantity, price and
  id.\<close>

record order_fields =
  of_symbol :: fix_value
  of_side :: fix_value
  of_orderQty :: fix_value
  of_price :: fix_value
  of_clOrdID :: fix_value

definition read_new_order :: "fields \<Rightarrow> order_fields app_result" where
  "read_new_order m = then_do (get_field m OrdType) (\<lambda>ot. then_do (char_value ot) (\<lambda>c.
     if c \<noteq> OrdType_LIMIT then Throw
     else then_do (get_field m Symbol) (\<lambda>symbol. then_do (get_field m Side) (\<lambda>side.
          then_do (get_field m OrderQty) (\<lambda>qty. then_do (get_field m Price) (\<lambda>price.
          then_do (get_field m ClOrdID) (\<lambda>cl.
            Ret \<lparr>of_symbol = symbol, of_side = side, of_orderQty = qty, of_price = price, of_clOrdID = cl\<rparr>)))))))"

text \<open>The account is copied when the order has one.\<close>

definition copy_account :: "fields \<Rightarrow> fields \<Rightarrow> fields" where
  "copy_account m b = (case m Account of None \<Rightarrow> b | Some a \<Rightarrow> b(Account \<mapsto> a))"

text \<open>
  The arguments of a report that do something: two make an id, two convert a number. C++ leaves open in which order they
  are evaluated, but not that of statements: the FIX 5.0 handler converts the price after it has constructed the report. A
  number that is not readable throws, and the ids made until then are used up. Converting a number again does nothing.
\<close>

datatype report_arg = ArgOrderID | ArgExecID | ArgQty | ArgPrice

definition arg_order :: "(nat \<Rightarrow> report_arg list) \<Rightarrow> nat \<Rightarrow> report_arg list" where
  "arg_order ord v = (let as = remdups (ord v @ [ArgPrice, ArgQty, ArgExecID, ArgOrderID])
     in if v = 50 then filter (\<lambda>a. a \<noteq> ArgPrice) as @ [ArgPrice] else as)"

record report_values =
  rv_orderID :: string
  rv_execID :: string
  rv_qty :: dbl
  rv_price :: dbl

fun eval_arg :: "report_arg \<Rightarrow> order_fields \<Rightarrow> report_values \<Rightarrow> ('m, 'p) exchange \<Rightarrow> (report_values, ('m, 'p) exchange) served" where
  "eval_arg ArgOrderID f r ex = and_then (genOrderID ex) (\<lambda>i ex. Served (r\<lparr>rv_orderID := i\<rparr>) ex)"
| "eval_arg ArgExecID f r ex = and_then (genExecID ex) (\<lambda>i ex. Served (r\<lparr>rv_execID := i\<rparr>) ex)"
| "eval_arg ArgQty f r ex = and_then (reading (double_value (of_orderQty f)) ex) (\<lambda>q ex. Served (r\<lparr>rv_qty := q\<rparr>) ex)"
| "eval_arg ArgPrice f r ex = and_then (reading (double_value (of_price f)) ex) (\<lambda>p ex. Served (r\<lparr>rv_price := p\<rparr>) ex)"

fun eval_args :: "report_arg list \<Rightarrow> order_fields \<Rightarrow> report_values \<Rightarrow> ('m, 'p) exchange \<Rightarrow>
    (report_values, ('m, 'p) exchange) served" where
  "eval_args [] f r ex = Served r ex"
| "eval_args (a # as) f r ex = and_then (eval_arg a f r ex) (eval_args as f)"

text \<open>The field objects of an order, then the values of its report.\<close>

definition report_numbers :: "report_arg list \<Rightarrow> fields \<Rightarrow> ('m, 'p) exchange \<Rightarrow>
    (order_fields \<times> report_values, ('m, 'p) exchange) served" where
  "report_numbers as m ex = and_then (reading (read_new_order m) ex) (\<lambda>f ex.
     and_then (eval_args as f \<lparr>rv_orderID = [], rv_execID = [], rv_qty = 0, rv_price = 0\<rparr> ex) (\<lambda>r ex. Served (f, r) ex))"

definition send_report :: "string \<Rightarrow> fields \<Rightarrow> fields \<Rightarrow> ('m, 'p) exchange \<Rightarrow> ('m, 'p) exchange" where
  "send_report sess m b ex = ex_send sess \<lparr>fm_type = ''8'', fm_header = Map.empty, fm_body = copy_account m b\<rparr> ex"

definition onNewOrderSingle40 :: "(nat \<Rightarrow> report_arg list) \<Rightarrow> string \<Rightarrow> fields \<Rightarrow> ('m, 'p) exchange \<Rightarrow>
    (unit, ('m, 'p) exchange) served" where
  "onNewOrderSingle40 ord sess m ex = and_then (report_numbers (arg_order ord 40) m ex) (\<lambda>(f, r) ex.
     Served () (send_report sess m [OrderID \<mapsto> FString (rv_orderID r), ExecID \<mapsto> FString (rv_execID r), ExecTransType \<mapsto> FChar ExecTransType_NEW,
       OrdStatus \<mapsto> FChar OrdStatus_FILLED, Symbol \<mapsto> of_symbol f, Side \<mapsto> of_side f, OrderQty \<mapsto> of_orderQty f,
       LastShares \<mapsto> FDouble (rv_qty r), LastPx \<mapsto> FDouble (rv_price r), CumQty \<mapsto> FDouble (rv_qty r), AvgPx \<mapsto> FDouble (rv_price r), ClOrdID \<mapsto> of_clOrdID f] ex))"

definition onNewOrderSingle41 :: "(nat \<Rightarrow> report_arg list) \<Rightarrow> string \<Rightarrow> fields \<Rightarrow> ('m, 'p) exchange \<Rightarrow>
    (unit, ('m, 'p) exchange) served" where
  "onNewOrderSingle41 ord sess m ex = and_then (report_numbers (arg_order ord 41) m ex) (\<lambda>(f, r) ex.
     Served () (send_report sess m [OrderID \<mapsto> FString (rv_orderID r), ExecID \<mapsto> FString (rv_execID r), ExecTransType \<mapsto> FChar ExecTransType_NEW,
       ExecType \<mapsto> FChar ExecType_FILL, OrdStatus \<mapsto> FChar OrdStatus_FILLED, Symbol \<mapsto> of_symbol f, Side \<mapsto> of_side f,
       OrderQty \<mapsto> of_orderQty f, LastShares \<mapsto> FDouble (rv_qty r), LastPx \<mapsto> FDouble (rv_price r), LeavesQty \<mapsto> FDouble 0,
       CumQty \<mapsto> FDouble (rv_qty r), AvgPx \<mapsto> FDouble (rv_price r), ClOrdID \<mapsto> of_clOrdID f] ex))"

definition onNewOrderSingle42 :: "(nat \<Rightarrow> report_arg list) \<Rightarrow> string \<Rightarrow> fields \<Rightarrow> ('m, 'p) exchange \<Rightarrow>
    (unit, ('m, 'p) exchange) served" where
  "onNewOrderSingle42 ord sess m ex = and_then (report_numbers (arg_order ord 42) m ex) (\<lambda>(f, r) ex.
     Served () (send_report sess m [OrderID \<mapsto> FString (rv_orderID r), ExecID \<mapsto> FString (rv_execID r), ExecTransType \<mapsto> FChar ExecTransType_NEW,
       ExecType \<mapsto> FChar ExecType_FILL, OrdStatus \<mapsto> FChar OrdStatus_FILLED, Symbol \<mapsto> of_symbol f, Side \<mapsto> of_side f,
       LeavesQty \<mapsto> FDouble 0, CumQty \<mapsto> FDouble (rv_qty r), AvgPx \<mapsto> FDouble (rv_price r), ClOrdID \<mapsto> of_clOrdID f,
       OrderQty \<mapsto> of_orderQty f, LastShares \<mapsto> FDouble (rv_qty r), LastPx \<mapsto> FDouble (rv_price r)] ex))"

text \<open>From FIX 4.3 on there is no \<^verbatim>\<open>ExecTransType\<close>, and tag 32 is called \<^verbatim>\<open>LastQty\<close>.\<close>

definition onNewOrderSingle43 :: "(nat \<Rightarrow> report_arg list) \<Rightarrow> string \<Rightarrow> fields \<Rightarrow> ('m, 'p) exchange \<Rightarrow>
    (unit, ('m, 'p) exchange) served" where
  "onNewOrderSingle43 ord sess m ex = and_then (report_numbers (arg_order ord 43) m ex) (\<lambda>(f, r) ex.
     Served () (send_report sess m [OrderID \<mapsto> FString (rv_orderID r), ExecID \<mapsto> FString (rv_execID r), ExecType \<mapsto> FChar ExecType_FILL,
       OrdStatus \<mapsto> FChar OrdStatus_FILLED, Side \<mapsto> of_side f, LeavesQty \<mapsto> FDouble 0, CumQty \<mapsto> FDouble (rv_qty r),
       AvgPx \<mapsto> FDouble (rv_price r), ClOrdID \<mapsto> of_clOrdID f, Symbol \<mapsto> of_symbol f, OrderQty \<mapsto> of_orderQty f,
       LastShares \<mapsto> FDouble (rv_qty r), LastPx \<mapsto> FDouble (rv_price r)] ex))"

definition onNewOrderSingle44 :: "(nat \<Rightarrow> report_arg list) \<Rightarrow> string \<Rightarrow> fields \<Rightarrow> ('m, 'p) exchange \<Rightarrow>
    (unit, ('m, 'p) exchange) served" where
  "onNewOrderSingle44 ord sess m ex = and_then (report_numbers (arg_order ord 44) m ex) (\<lambda>(f, r) ex.
     Served () (send_report sess m [OrderID \<mapsto> FString (rv_orderID r), ExecID \<mapsto> FString (rv_execID r), ExecType \<mapsto> FChar ExecType_FILL,
       OrdStatus \<mapsto> FChar OrdStatus_FILLED, Side \<mapsto> of_side f, LeavesQty \<mapsto> FDouble 0, CumQty \<mapsto> FDouble (rv_qty r),
       AvgPx \<mapsto> FDouble (rv_price r), ClOrdID \<mapsto> of_clOrdID f, Symbol \<mapsto> of_symbol f, OrderQty \<mapsto> of_orderQty f,
       LastShares \<mapsto> FDouble (rv_qty r), LastPx \<mapsto> FDouble (rv_price r)] ex))"

definition onNewOrderSingle50 :: "(nat \<Rightarrow> report_arg list) \<Rightarrow> string \<Rightarrow> fields \<Rightarrow> ('m, 'p) exchange \<Rightarrow>
    (unit, ('m, 'p) exchange) served" where
  "onNewOrderSingle50 ord sess m ex = and_then (report_numbers (arg_order ord 50) m ex) (\<lambda>(f, r) ex.
     Served () (send_report sess m [OrderID \<mapsto> FString (rv_orderID r), ExecID \<mapsto> FString (rv_execID r), ExecType \<mapsto> FChar ExecType_FILL,
       OrdStatus \<mapsto> FChar OrdStatus_FILLED, Side \<mapsto> of_side f, LeavesQty \<mapsto> FDouble 0, CumQty \<mapsto> FDouble (rv_qty r),
       ClOrdID \<mapsto> of_clOrdID f, Symbol \<mapsto> of_symbol f, OrderQty \<mapsto> of_orderQty f,
       LastShares \<mapsto> FDouble (rv_qty r), LastPx \<mapsto> FDouble (rv_price r), AvgPx \<mapsto> FDouble (rv_price r)] ex))"

section \<open>Session events\<close>

record ('m, 'p, 't) ex_env =
  ee_lib :: "('m, 'p, 't) fix_lib"
  ee_parser :: 'p
  ee_started0 :: bool
  ee_stop0 :: bool
  ee_file :: "string \<Rightarrow> string list option"
  ee_lookup :: "string \<Rightarrow> bool"
  ee_args :: "nat \<Rightarrow> report_arg list"

definition with_session :: "string \<Rightarrow> ('m, 'p) replay session_info \<Rightarrow> ('m, 'p) exchange \<Rightarrow> ('m, 'p) exchange" where
  "with_session sess si ex = ex\<lparr>ex_sessions := sm_put sess si (ex_sessions ex)\<rparr>"

text \<open>A session that is known already gets a new entry, the old one is lost.\<close>

definition ex_onLogon :: "string \<Rightarrow> ('m, 'p) exchange \<Rightarrow> ('m, 'p) exchange" where
  "ex_onLogon sess ex = with_session sess (new_session_info sess) ex"

text \<open>The logout asserts that the session has a dispatcher, stops it, which blocks until both threads have ended, and
  erases the session.\<close>

definition ex_onLogout :: "string \<Rightarrow> ('m, 'p) exchange \<Rightarrow> (unit, ('m, 'p) exchange) served" where
  "ex_onLogout sess ex = (case map_of (ex_sessions ex) sess of None \<Rightarrow> Served () ex
     | Some si \<Rightarrow> (case getDispatcher si of None \<Rightarrow> Died
        | Some r \<Rightarrow> Served () (with_session sess (si\<lparr>si_dispatcher := Some (request_stop r)\<rparr>) ex)))"

definition ex_onLogout_end :: "string \<Rightarrow> ('m, 'p) exchange \<Rightarrow> ('m, 'p) exchange option" where
  "ex_onLogout_end sess ex = (case map_of (ex_sessions ex) sess of None \<Rightarrow> None
     | Some si \<Rightarrow> (case getDispatcher si of None \<Rightarrow> None
        | Some r \<Rightarrow> if rp_ctl r = CDone then Some (ex\<lparr>ex_sessions := sm_del sess (ex_sessions ex)\<rparr>) else None))"

section \<open>Market data requests\<close>

abbreviation (input) NoRelatedSym :: fix_tag where "NoRelatedSym \<equiv> 146"
abbreviation (input) SubscriptionRequestType :: fix_tag where "SubscriptionRequestType \<equiv> 263"
abbreviation (input) MDUpdateType :: fix_tag where "MDUpdateType \<equiv> 265"
abbreviation (input) NoMDEntryTypes :: fix_tag where "NoMDEntryTypes \<equiv> 267"
abbreviation (input) MDEntryType :: fix_tag where "MDEntryType \<equiv> 269"
abbreviation (input) K_ReplayFile :: fix_tag where "K_ReplayFile \<equiv> 2000"
abbreviation (input) K_ReplayTimeDiv :: fix_tag where "K_ReplayTimeDiv \<equiv> 2002"

record md_request =
  mq_body :: fields
  mq_entry_types :: "fields list"
  mq_related :: "fields list"

text \<open>Reading one field of each of \<open>n\<close> groups; a group that is missing throws.\<close>

fun read_groups :: "nat \<Rightarrow> fix_tag \<Rightarrow> fields list \<Rightarrow> fix_value list app_result" where
  "read_groups 0 t gs = Ret []"
| "read_groups (Suc n) t [] = Throw"
| "read_groups (Suc n) t (g # gs) = then_do (get_field g t) (\<lambda>v. then_do (read_groups n t gs) (\<lambda>vs. Ret (v # vs)))"

fun add_symbols :: "fix_value list \<Rightarrow> 'r session_info \<Rightarrow> (unit, 'r session_info) served" where
  "add_symbols [] si = Served () si"
| "add_symbols (v # vs) si = and_then (reading (string_value v) si) (\<lambda>s si. add_symbols vs (snd (addSymbol s si)))"

text \<open>
  The part that needs the session: it has a dispatcher and gets the symbols, or a pump and a dispatcher
  are made and started. A log that does not open is only complained about. A session the engine does not know throws a
  \<^verbatim>\<open>FIX::Exception\<close>, which the exception specification of \<^verbatim>\<open>fromApp\<close> does not
  allow: the process ends.
\<close>

definition start_replay :: "('m, 'p, 't) ex_env \<Rightarrow> string \<Rightarrow> fix_value \<Rightarrow> fix_value \<Rightarrow> ('m, 'p) replay session_info \<Rightarrow>
    ('m, 'p) exchange \<Rightarrow> (unit, ('m, 'p) exchange) served" where
  "start_replay E sess k_file k_div si ex = and_then (reading (string_value k_file) ex) (\<lambda>f ex.
     if \<not> ee_lookup E sess then Died
     else and_then (reading (double_value k_div) ex) (\<lambda>sp ex.
       let r = new_replay (ee_parser E) sp (ee_started0 E) (ee_stop0 E) (ee_file E (c_str f))
       in Served () (with_session sess (snd (setDispatcher (Some r) si)) ex)))"

text \<open>The fields a request must have; the result is its symbols.\<close>

definition read_md_request :: "md_request \<Rightarrow> fix_value list app_result" where
  "read_md_request m =
    (if mq_body m SubscriptionRequestType \<noteq> None \<and> mq_body m MDUpdateType = None then Throw
     else then_do (get_field (mq_body m) NoMDEntryTypes) (\<lambda>v. then_do (int_value v) (\<lambda>n.
       then_do (read_groups (nat n) MDEntryType (mq_entry_types m)) (\<lambda>types.
       then_do (get_field (mq_body m) NoRelatedSym) (\<lambda>v. then_do (int_value v) (\<lambda>k.
         read_groups (nat k) Symbol (mq_related m)))))))"

text \<open>The log and the speed, of the request or else of the command line.\<close>

definition replay_settings :: "md_request \<Rightarrow> ('m, 'p) exchange \<Rightarrow> fix_value \<times> fix_value" where
  "replay_settings m ex =
    (case mq_body m K_ReplayFile of Some v \<Rightarrow> v | None \<Rightarrow> FString (c_str (ex_replayLog ex)),
     case mq_body m K_ReplayTimeDiv of Some v \<Rightarrow> v | None \<Rightarrow> FDouble (ex_replayTimeDiv ex))"

definition serve_md_request :: "('m, 'p, 't) ex_env \<Rightarrow> string \<Rightarrow> fix_value list \<Rightarrow> fix_value \<Rightarrow> fix_value \<Rightarrow>
    ('m, 'p) exchange \<Rightarrow> (unit, ('m, 'p) exchange) served" where
  "serve_md_request E sess symbols k_file k_div ex = (case map_of (ex_sessions ex) sess of
     None \<Rightarrow> Served () ex
   | Some si \<Rightarrow> if hasDispatcher si
       then lifting (\<lambda>si. with_session sess si ex) (add_symbols symbols si)
       else start_replay E sess k_file k_div si ex)"

definition onMarketDataRequest42 :: "('m, 'p, 't) ex_env \<Rightarrow> string \<Rightarrow> md_request \<Rightarrow> ('m, 'p) exchange \<Rightarrow>
    (unit, ('m, 'p) exchange) served" where
  "onMarketDataRequest42 E sess m ex = and_then (reading (read_md_request m) ex) (\<lambda>symbols ex.
     case replay_settings m ex of (k_file, k_div) \<Rightarrow> serve_md_request E sess symbols k_file k_div ex)"

section \<open>The server\<close>

datatype ex_message = NewOrder nat fields | MarketDataRequest nat md_request | ExOther bool

text \<open>\<^verbatim>\<open>crack\<close> hands a message to the handler of its version and type. \<open>ExOther True\<close> is a message whose
  handler only prints, \<open>ExOther False\<close> one without a handler, which is rejected.\<close>

definition ex_fromApp :: "('m, 'p, 't) ex_env \<Rightarrow> string \<Rightarrow> ex_message \<Rightarrow> ('m, 'p) exchange \<Rightarrow> (unit, ('m, 'p) exchange) served" where
  "ex_fromApp E sess x ex = (let ord = ee_args E in case x of
     NewOrder v m \<Rightarrow> if v = 40 then onNewOrderSingle40 ord sess m ex else if v = 41 then onNewOrderSingle41 ord sess m ex
       else if v = 42 then onNewOrderSingle42 ord sess m ex else if v = 43 then onNewOrderSingle43 ord sess m ex
       else if v = 44 then onNewOrderSingle44 ord sess m ex else if v = 50 then onNewOrderSingle50 ord sess m ex
       else Rejected ex
   | MarketDataRequest v m \<Rightarrow> if v = 42 then onMarketDataRequest42 E sess m ex else if v = 43 then Served () ex else Rejected ex
   | ExOther handled \<Rightarrow> if handled then Served () ex else Rejected ex)"

end
