(* ===== verification/ReplayCorrect.thy ===== *)
theory ReplayCorrect
  imports Replay "HOL-Library.Sublist"
begin

text \<open>
  The replay of a log: every interleaving of pump and dispatcher sends what the log read in order would
  (\<open>replay_interleavings\<close>), in a bounded number of steps (\<open>replay_terminates\<close>); what that is for a
  log of complete messages (\<open>replay_of_log\<close>); when stopping it never comes to an end
  (\<open>replay_logout\<close>).
\<close>

section \<open>The log in order\<close>

definition then_send2 :: "('m, 'p, 't) fix_lib \<Rightarrow> 'm parsed \<Rightarrow> 'm rp_event list \<Rightarrow> 'm rp_event list" where
  "then_send2 L m2 r = (case md_dispatch L m2 of None \<Rightarrow> [] | Some es \<Rightarrow> es @ r)"

definition then_send1 :: "('m, 'p, 't) fix_lib \<Rightarrow> 'm parsed \<Rightarrow> int \<Rightarrow> 'm rp_event list \<Rightarrow> 'm rp_event list" where
  "then_send1 L m1 d r = (case md_dispatch L m1 of None \<Rightarrow> [] | Some es \<Rightarrow> es @ Slept d # r)"

fun replay_trace :: "('m, 'p, 't) fix_lib \<Rightarrow> rat \<Rightarrow> 'p md_local \<Rightarrow> string list \<Rightarrow> 'm rp_event list"
  and trace_second :: "('m, 'p, 't) fix_lib \<Rightarrow> rat \<Rightarrow> 'm parsed \<Rightarrow> 'p md_local \<Rightarrow> string list \<Rightarrow> 'm rp_event list" where
  "replay_trace L sp l [] = []"
| "replay_trace L sp l (x # ls) = (case md_take1 L x l of None \<Rightarrow> [] | Some (l, m1) \<Rightarrow> trace_second L sp m1 l ls)"
| "trace_second L sp m1 l [] = []"
| "trace_second L sp m1 l (y # ls) = (case md_take2 L y l of None \<Rightarrow> []
     | Some (l, m2) \<Rightarrow> (case md_pair_delta L sp m1 m2 (md_delta l) of None \<Rightarrow> []
       | Some d \<Rightarrow> then_send1 L m1 d (then_send2 L m2 (replay_trace L sp (l\<lparr>md_delta := d\<rparr>) ls))))"

definition local_start :: "'p \<Rightarrow> 'p md_local" where
  "local_start ps = \<lparr>md_parser = ps, md_mtext1 = [], md_mtext2 = [], md_delta = 0\<rparr>"

definition log_lines :: "string list option \<Rightarrow> string list" where
  "log_lines file = (case file of None \<Rightarrow> [] | Some ls \<Rightarrow> ls)"

section \<open>The invariant of the threads\<close>

text \<open>The lines the dispatcher has not taken, and what it still makes of them.\<close>

definition pending :: "('m, 'p) replay \<Rightarrow> string list" where
  "pending s = (if rp_read s \<and> rp_code s = MSG_OK then [rp_strMsg s] else []) @ log_lines (rp_in s)"

definition future :: "('m, 'p, 't) fix_lib \<Rightarrow> ('m, 'p) replay \<Rightarrow> 'm rp_event list" where
  "future L s = (case rp_disp s of
       DNone \<Rightarrow> []
     | DTop \<Rightarrow> replay_trace L (rp_speed s) (rp_local s) (pending s)
     | DGet1 \<Rightarrow> replay_trace L (rp_speed s) (rp_local s) (pending s)
     | DGet2 m1 \<Rightarrow> trace_second L (rp_speed s) m1 (rp_local s) (pending s)
     | DSend1 m1 m2 \<Rightarrow> then_send1 L m1 (md_delta (rp_local s))
         (then_send2 L m2 (replay_trace L (rp_speed s) (rp_local s) (pending s)))
     | DSleep m2 \<Rightarrow> Slept (md_delta (rp_local s)) # then_send2 L m2 (replay_trace L (rp_speed s) (rp_local s) (pending s))
     | DSend2 m2 \<Rightarrow> then_send2 L m2 (replay_trace L (rp_speed s) (rp_local s) (pending s))
     | DDone \<Rightarrow> [])"

definition trace_ok :: "('m, 'p, 't) fix_lib \<Rightarrow> 'm rp_event list \<Rightarrow> ('m, 'p) replay \<Rightarrow> bool" where
  "trace_ok L tot s \<longleftrightarrow>
     (if rp_disp s = DNone then rp_out s = []
      else if rp_disp s = DDone \<and> rp_dispStop s then prefix (rp_out s) tot
      else if rp_dead s then rp_out s = tot
      else rp_out s @ future L s = tot)"

definition slot_ok :: "('m, 'p) replay \<Rightarrow> bool" where
  "slot_ok s \<longleftrightarrow> rp_consumed s = (\<not> rp_read s) \<and>
     (rp_read s \<longrightarrow> rp_code s = MSG_OK \<or> rp_code s = MSG_EOF) \<and>
     (rp_code s = MSG_EOF \<longrightarrow> rp_in s = Some []) \<and>
     (rp_pump s = PRead \<longrightarrow> rp_code s \<noteq> MSG_EOF) \<and>
     (rp_code s = MSG_EOF \<and> \<not> rp_read s \<longrightarrow> rp_disp s = DDone)"

definition stop_ok :: "bool \<Rightarrow> bool \<Rightarrow> ('m, 'p) replay \<Rightarrow> bool" where
  "stop_ok off stop0 s \<longleftrightarrow> (rp_disp s = DNone \<longleftrightarrow> off) \<and>
     (rp_pumpStop s \<longleftrightarrow> rp_ctl s \<noteq> CIdle) \<and>
     (rp_dispStop s \<longleftrightarrow> stop0 \<or> rp_ctl s = CDisp \<or> rp_ctl s = CDone) \<and>
     (rp_pump s = PDone \<longrightarrow> rp_pumpStop s \<or> rp_code s = MSG_EOF) \<and>
     (rp_disp s = DDone \<longrightarrow> rp_dispStop s \<or> rp_code s = MSG_EOF) \<and>
     (rp_ctl s = CDisp \<or> rp_ctl s = CDone \<longrightarrow> rp_pump s = PDone) \<and>
     (rp_ctl s = CDone \<longrightarrow> rp_disp s = DDone)"

text \<open>The steps of the pump and of the dispatcher, one by one.\<close>

lemma pump_cases:
  assumes "pump_step s = Some s'"
  obtains (leave) "rp_pump s = PLoop" "rp_pumpStop s \<or> rp_code s = MSG_EOF" "s' = s\<lparr>rp_pump := PDone\<rparr>"
  | (enter) "rp_pump s = PLoop" "\<not> rp_pumpStop s" "rp_code s \<noteq> MSG_EOF" "s' = s\<lparr>rp_pump := PRead\<rparr>"
  | (broken) "rp_pump s = PRead" "rp_consumed s" "rp_in s = None" "s' = s\<lparr>rp_dead := True\<rparr>"
  | (at_end) "rp_pump s = PRead" "rp_consumed s" "rp_in s = Some []"
      "s' = s\<lparr>rp_code := MSG_EOF, rp_read := True, rp_consumed := False, rp_pump := PLoop\<rparr>"
  | (line) l ls where "rp_pump s = PRead" "rp_consumed s" "rp_in s = Some (l # ls)"
      "s' = s\<lparr>rp_in := Some ls, rp_strMsg := l, rp_code := MSG_OK, rp_read := True, rp_consumed := False, rp_pump := PLoop\<rparr>"
proof (cases "rp_pump s")
  case PLoop
  then have "s' = s\<lparr>rp_pump := if \<not> rp_pumpStop s \<and> rp_code s \<noteq> MSG_EOF then PRead else PDone\<rparr>"
    using assms by (simp add: pump_step_def)
  then show thesis using leave [OF PLoop] enter [OF PLoop] by (cases "\<not> rp_pumpStop s \<and> rp_code s \<noteq> MSG_EOF") auto
next
  case PRead
  then have r: "pump_read s = Some s'" using assms by (simp add: pump_step_def)
  then have c: "rp_consumed s" by (simp add: pump_read_def split: if_splits)
  show thesis
  proof (cases "rp_in s")
    case None
    then show thesis using r c by (intro broken [OF PRead c None]) (simp add: pump_read_def)
  next
    case (Some ls)
    then show thesis using r c at_end [OF PRead c] line [OF PRead c] by (cases ls) (simp_all add: pump_read_def)
  qed
next
  case PDone
  then have "pump_step s = None" by (simp add: pump_step_def)
  then show thesis using assms by simp
qed

definition slot_free :: "('m, 'p) replay \<Rightarrow> ('m, 'p) replay" where
  "slot_free s = s\<lparr>rp_consumed := True, rp_read := False\<rparr>"

lemma slot_free_simps [simp]:
  "rp_in (slot_free s) = rp_in s" "rp_code (slot_free s) = rp_code s" "\<not> rp_read (slot_free s)" "rp_consumed (slot_free s)"
  "rp_strMsg (slot_free s) = rp_strMsg s" "rp_pumpStop (slot_free s) = rp_pumpStop s" "rp_pump (slot_free s) = rp_pump s"
  "rp_dispStop (slot_free s) = rp_dispStop s" "rp_disp (slot_free s) = rp_disp s" "rp_local (slot_free s) = rp_local s"
  "rp_speed (slot_free s) = rp_speed s" "rp_out (slot_free s) = rp_out s" "rp_ctl (slot_free s) = rp_ctl s"
  "rp_dead (slot_free s) = rp_dead s"
  by (simp_all add: slot_free_def)

lemma getMsg_free: "getMsg s = (if rp_read s then Some (rp_strMsg s, rp_code s, slot_free s) else None)"
  by (simp add: getMsg_def slot_free_def)

lemma disp_cases:
  assumes "disp_step L s = Some s'"
  obtains (exit) "rp_disp s = DTop" "rp_dispStop s" "s' = s\<lparr>rp_disp := DDone\<rparr>"
  | (go) "rp_disp s = DTop" "\<not> rp_dispStop s" "s' = s\<lparr>rp_disp := DGet1\<rparr>"
  | (finish) "rp_disp s = DGet1 \<or> (\<exists>m. rp_disp s = DGet2 m)" "rp_read s" "rp_code s \<noteq> MSG_OK" "s' = (slot_free s)\<lparr>rp_disp := DDone\<rparr>"
  | (first) l m where "rp_disp s = DGet1" "rp_read s" "rp_code s = MSG_OK" "md_take1 L (rp_strMsg s) (rp_local s) = Some (l, m)"
      "s' = (slot_free s)\<lparr>rp_local := l, rp_disp := DGet2 m\<rparr>"
  | (first_throws) "rp_disp s = DGet1" "rp_read s" "rp_code s = MSG_OK" "md_take1 L (rp_strMsg s) (rp_local s) = None"
      "s' = (slot_free s)\<lparr>rp_dead := True\<rparr>"
  | (second) m1 l m2 d where "rp_disp s = DGet2 m1" "rp_read s" "rp_code s = MSG_OK"
      "md_take2 L (rp_strMsg s) (rp_local s) = Some (l, m2)" "md_pair_delta L (rp_speed s) m1 m2 (md_delta l) = Some d"
      "s' = (slot_free s)\<lparr>rp_local := l\<lparr>md_delta := d\<rparr>, rp_disp := DSend1 m1 m2\<rparr>"
  | (second_throws) m1 where "rp_disp s = DGet2 m1" "rp_read s" "rp_code s = MSG_OK"
      "md_take2 L (rp_strMsg s) (rp_local s) = None \<or> (\<exists>l m2. md_take2 L (rp_strMsg s) (rp_local s) = Some (l, m2) \<and>
        md_pair_delta L (rp_speed s) m1 m2 (md_delta l) = None)"
      "s' = (slot_free s)\<lparr>rp_dead := True\<rparr>"
  | (send1) m1 m2 es where "rp_disp s = DSend1 m1 m2" "md_dispatch L m1 = Some es" "s' = s\<lparr>rp_out := rp_out s @ es, rp_disp := DSleep m2\<rparr>"
  | (sleep) m2 where "rp_disp s = DSleep m2" "s' = s\<lparr>rp_out := rp_out s @ [Slept (md_delta (rp_local s))], rp_disp := DSend2 m2\<rparr>"
  | (send2) m2 es where "rp_disp s = DSend2 m2" "md_dispatch L m2 = Some es" "s' = s\<lparr>rp_out := rp_out s @ es, rp_disp := DTop\<rparr>"
  | (send_throws) m where "(\<exists>m'. rp_disp s = DSend1 m m') \<or> rp_disp s = DSend2 m" "md_dispatch L m = None" "s' = s\<lparr>rp_dead := True\<rparr>"
proof (cases "rp_disp s")
  case DGet1
  then have g: "disp_get1 L s = Some s'" using assms by (simp add: disp_step_def)
  then have r: "rp_read s" by (simp add: disp_get1_def getMsg_free split: if_splits)
  show thesis
  proof (cases "rp_code s = MSG_OK")
    case True
    then show thesis using g r first [OF DGet1 r] first_throws [OF DGet1 r]
      by (cases "md_take1 L (rp_strMsg s) (rp_local s)") (auto simp: disp_get1_def getMsg_free)
  qed (use g r DGet1 finish in \<open>simp add: disp_get1_def getMsg_free\<close>)
next
  case (DGet2 m1)
  then have g: "disp_get2 L m1 s = Some s'" using assms by (simp add: disp_step_def)
  then have r: "rp_read s" by (simp add: disp_get2_def getMsg_free split: if_splits)
  show thesis
  proof (cases "rp_code s = MSG_OK")
    case ok: True
    show thesis
    proof (cases "md_take2 L (rp_strMsg s) (rp_local s)")
      case (Some x)
      obtain l m2 where x: "x = (l, m2)" by (cases x)
      show thesis using g r ok DGet2 Some x second second_throws
        by (cases "md_pair_delta L (rp_speed s) m1 m2 (md_delta l)") (auto simp: disp_get2_def getMsg_free)
    qed (use g r ok DGet2 second_throws in \<open>simp add: disp_get2_def getMsg_free\<close>)
  qed (use g r DGet2 finish in \<open>simp add: disp_get2_def getMsg_free\<close>)
next
  case (DSend1 m1 m2)
  then have "s' = disp_send L m1 (DSleep m2) s" using assms by (simp add: disp_step_def)
  then show thesis using DSend1
    by (cases "md_dispatch L m1") (auto simp: disp_send_def intro: send1 send_throws)
next
  case (DSend2 m2)
  then have "s' = disp_send L m2 DTop s" using assms by (simp add: disp_step_def)
  then show thesis using DSend2
    by (cases "md_dispatch L m2") (auto simp: disp_send_def intro: send2 send_throws)
next
  case DTop
  then have "s' = s\<lparr>rp_disp := if rp_dispStop s then DDone else DGet1\<rparr>" using assms by (simp add: disp_step_def)
  then show thesis using exit [OF DTop] go [OF DTop] by (cases "rp_dispStop s") simp_all
next
  case (DSleep m2)
  then show thesis using assms by (intro sleep [OF DSleep]) (simp add: disp_step_def)
next
  case DNone
  then have "disp_step L s = None" by (simp add: disp_step_def)
  then show thesis using assms by simp
next
  case DDone
  then have "disp_step L s = None" by (simp add: disp_step_def)
  then show thesis using assms by simp
qed

lemma pump_ctl: "pump_step s = Some s' \<Longrightarrow> rp_ctl s' = rp_ctl s"
  by (erule pump_cases) simp_all

lemma pump_slot: "slot_ok s \<Longrightarrow> pump_step s = Some s' \<Longrightarrow> slot_ok s'"
  by (erule pump_cases) (simp_all add: slot_ok_def)

lemma pump_stop: "stop_ok off stop0 s \<Longrightarrow> slot_ok s \<Longrightarrow> pump_step s = Some s' \<Longrightarrow> stop_ok off stop0 s'"
  by (erule pump_cases) (auto simp: slot_ok_def stop_ok_def)

lemma disp_slot: "slot_ok s \<Longrightarrow> disp_step L s = Some s' \<Longrightarrow> slot_ok s'"
  by (erule disp_cases) (auto simp: slot_ok_def)

lemma disp_stop: "stop_ok off stop0 s \<Longrightarrow> slot_ok s \<Longrightarrow> disp_step L s = Some s' \<Longrightarrow> stop_ok off stop0 s'"
  by (erule disp_cases) (auto simp: slot_ok_def stop_ok_def)

section \<open>Every interleaving\<close>

text \<open>The dispatcher waits for a message.\<close>

definition waiting :: "('m, 'p) replay \<Rightarrow> bool" where
  "waiting s \<longleftrightarrow> (case rp_disp s of DGet1 \<Rightarrow> True | DGet2 _ \<Rightarrow> True | _ \<Rightarrow> False)"

lemma trace_keep:
  assumes "trace_ok L tot s" "rp_disp s' = rp_disp s" "rp_out s' = rp_out s" "rp_dispStop s' = rp_dispStop s"
    "rp_dead s' = rp_dead s" "rp_local s' = rp_local s" "rp_speed s' = rp_speed s" "pending s' = pending s"
  shows "trace_ok L tot s'"
proof -
  have "future L s' = future L s" using assms by (simp add: future_def split: disp_pc.split)
  then show ?thesis using assms by (simp add: trace_ok_def)
qed

lemma pump_trace:
  assumes "trace_ok L tot s" "slot_ok s" "\<not> rp_dead s" "rp_in s = None \<longrightarrow> tot = []"
    "pump_step s = Some s'"
  shows "trace_ok L tot s'"
  using assms(5)
proof (cases rule: pump_cases)
  case broken
  then have "rp_out s = [] \<or> rp_disp s = DDone" using assms(1,3,4) by (auto simp: trace_ok_def split: if_splits)
  then show ?thesis using assms(1,3,4) broken by (auto simp: trace_ok_def split: if_splits)
next
  case at_end
  then show ?thesis using assms(1,2) by (intro trace_keep [OF assms(1)]) (simp_all add: pending_def slot_ok_def log_lines_def)
next
  case (line l ls)
  then show ?thesis using assms(1,2) by (intro trace_keep [OF assms(1)]) (simp_all add: pending_def slot_ok_def log_lines_def)
qed (use assms(1) in \<open>auto intro!: trace_keep [OF assms(1)] simp: pending_def\<close>)

lemma pending_taken: "rp_read s \<Longrightarrow> rp_code s = MSG_OK \<Longrightarrow> pending s = rp_strMsg s # log_lines (rp_in s)"
  by (simp add: pending_def)

lemma disp_trace:
  assumes "trace_ok L tot s" "slot_ok s" "\<not> rp_dead s" "disp_step L s = Some s'"
  shows "trace_ok L tot s'"
proof -
  have alive: "rp_out s @ future L s = tot" if "rp_disp s \<noteq> DNone" "rp_disp s \<noteq> DDone"
    using assms(1,3) that by (simp add: trace_ok_def)
  have p: "pending (slot_free s) = log_lines (rp_in s)" "pending (slot_free s\<lparr>rp_local := l, rp_disp := c\<rparr>) = log_lines (rp_in s)" for l c
    by (simp_all add: pending_def)
  show ?thesis
    using assms(4)
  proof (cases rule: disp_cases)
    case exit
    then show ?thesis using alive by (auto simp: trace_ok_def)
  next
    case go
    then show ?thesis using alive assms(3) by (auto simp: trace_ok_def future_def pending_def)
  next
    case finish
    then have "pending s = []" using assms(2) by (auto simp: pending_def slot_ok_def log_lines_def)
    then have "future L s = []" using finish by (auto simp: future_def)
    then show ?thesis using finish alive assms(3) by (auto simp: trace_ok_def future_def)
  next
    case (first l m)
    then show ?thesis using alive assms(3) p by (auto simp: trace_ok_def future_def pending_taken)
  next
    case first_throws
    then show ?thesis using alive by (auto simp: trace_ok_def future_def pending_taken)
  next
    case (second m1 l m2 d)
    then show ?thesis using alive assms(3) p by (auto simp: trace_ok_def future_def pending_taken)
  next
    case (second_throws m1)
    then show ?thesis using alive by (auto simp: trace_ok_def future_def pending_taken)
  next
    case (send1 m1 m2 es)
    then show ?thesis using alive assms(3) by (auto simp: trace_ok_def future_def pending_def then_send1_def)
  next
    case (sleep m2)
    then show ?thesis using alive assms(3) by (auto simp: trace_ok_def future_def pending_def)
  next
    case (send2 m2 es)
    then show ?thesis using alive assms(3) by (auto simp: trace_ok_def future_def pending_def then_send2_def)
  next
    case (send_throws m)
    then show ?thesis using alive by (auto simp: trace_ok_def future_def pending_def then_send1_def then_send2_def)
  qed
qed

text \<open>Stopping.\<close>

lemma ctl_cases:
  assumes "ctl_step s = Some s'"
  obtains (pump_ended) "rp_ctl s = CPump" "rp_pump s = PDone" "s' = s\<lparr>rp_dispStop := True, rp_ctl := CDisp\<rparr>"
  | (no_thread) "rp_ctl s = CDisp" "rp_disp s = DNone" "s' = s\<lparr>rp_dead := True\<rparr>"
  | (ended) "rp_ctl s = CDisp" "rp_disp s = DDone" "s' = s\<lparr>rp_ctl := CDone\<rparr>"
proof (cases "rp_ctl s")
  case CPump
  then have "rp_pump s = PDone \<and> s' = s\<lparr>rp_dispStop := True, rp_ctl := CDisp\<rparr>"
    using assms by (simp add: ctl_step_def split: if_splits)
  then show thesis using CPump pump_ended by blast
next
  case CDisp
  then have "rp_disp s = DNone \<and> s' = s\<lparr>rp_dead := True\<rparr> \<or> rp_disp s = DDone \<and> s' = s\<lparr>rp_ctl := CDone\<rparr>"
    using assms by (cases "rp_disp s") (simp_all add: ctl_step_def)
  then show thesis using CDisp no_thread ended by blast
next
  case CIdle
  then have "ctl_step s = None" by (simp add: ctl_step_def)
  then show thesis using assms by simp
next
  case CDone
  then have "ctl_step s = None" by (simp add: ctl_step_def)
  then show thesis using assms by simp
qed

definition replay_inv :: "('m, 'p, 't) fix_lib \<Rightarrow> 'm rp_event list \<Rightarrow> bool \<Rightarrow> bool \<Rightarrow> string list option \<Rightarrow> ('m, 'p) replay \<Rightarrow> bool" where
  "replay_inv L tot off stop0 file s \<longleftrightarrow> slot_ok s \<and> stop_ok off stop0 s \<and> trace_ok L tot s \<and>
     (rp_in s = None \<longleftrightarrow> file = None) \<and> (file = None \<longrightarrow> tot = [])"

lemma ctl_inv:
  assumes "replay_inv L tot off stop0 file s" "ctl_step s = Some s'"
  shows "replay_inv L tot off stop0 file s'"
  using assms(2)
proof (cases rule: ctl_cases)
  case pump_ended
  have "future L s' = future L s" using pump_ended by (simp add: future_def pending_def split: disp_pc.split)
  then have "trace_ok L tot s'"
    using assms(1) pump_ended by (auto simp: replay_inv_def trace_ok_def future_def split: if_splits)
  then show ?thesis using assms(1) pump_ended by (auto simp: replay_inv_def slot_ok_def stop_ok_def)
next
  case no_thread
  then show ?thesis using assms(1) by (auto simp: replay_inv_def slot_ok_def stop_ok_def trace_ok_def)
next
  case ended
  then show ?thesis using assms(1) by (auto simp: replay_inv_def slot_ok_def stop_ok_def trace_ok_def future_def)
qed

lemma stop_inv:
  assumes "replay_inv L tot off stop0 file s" "rp_ctl s = CIdle"
  shows "replay_inv L tot off stop0 file (request_stop s)"
proof -
  have "trace_ok L tot s" using assms(1) by (simp add: replay_inv_def)
  then have "trace_ok L tot (request_stop s)"
    by (rule trace_keep) (simp_all add: request_stop_def pending_def)
  then show ?thesis using assms by (auto simp: replay_inv_def slot_ok_def stop_ok_def request_stop_def)
qed

lemma pump_in: "pump_step s = Some s' \<Longrightarrow> rp_in s' = None \<longleftrightarrow> rp_in s = None"
  by (erule pump_cases) simp_all

lemma disp_in: "disp_step L s = Some s' \<Longrightarrow> rp_in s' = rp_in s"
  by (erule disp_cases) simp_all

lemma step_inv:
  assumes "replay_inv L tot off stop0 file s" "replay_step L s s'"
  shows "replay_inv L tot off stop0 file s'"
  using assms(2)
proof cases
  case pump
  then show ?thesis
    using assms(1) pump_slot pump_stop pump_trace pump_in unfolding replay_inv_def by metis
next
  case dispatcher
  then show ?thesis
    using assms(1) disp_slot disp_stop disp_trace disp_in unfolding replay_inv_def by metis
next
  case stopping
  then show ?thesis using ctl_inv assms(1) by blast
qed

lemma event_inv: "replay_inv L tot off stop0 file s \<Longrightarrow> replay_event L s s' \<Longrightarrow> replay_inv L tot off stop0 file s'"
  by (erule replay_eventE) (simp_all add: step_inv stop_inv)

lemma new_inv:
  "replay_inv L (replay_trace L (f32 sp) (local_start ps) (log_lines file)) (started0 \<or> stop0) stop0 file
    (new_replay ps sp started0 stop0 file)"
  by (simp add: replay_inv_def new_replay_def slot_ok_def stop_ok_def trace_ok_def future_def pending_def local_start_def)
    (simp add: log_lines_def)

lemma reach_inv:
  "(replay_event L)\<^sup>*\<^sup>* (new_replay ps sp started0 stop0 file) s \<Longrightarrow>
    replay_inv L (replay_trace L (f32 sp) (local_start ps) (log_lines file)) (started0 \<or> stop0) stop0 file s"
  by (induction rule: rtranclp_induct) (auto intro: new_inv event_inv)

lemma trace_prefix: "trace_ok L tot s \<Longrightarrow> prefix (rp_out s) tot"
  by (auto simp: trace_ok_def split: if_splits)

lemma stuck_steps: "\<nexists>s'. replay_step L s s' \<Longrightarrow> \<not> rp_dead s \<Longrightarrow> pump_step s = None \<and> disp_step L s = None \<and> ctl_step s = None"
  by (metis option.exhaust replay_step.intros)

lemma pump_stuck: "pump_step s = None \<Longrightarrow> rp_pump s = PDone \<or> rp_pump s = PRead \<and> \<not> rp_consumed s"
  by (auto simp: pump_step_def pump_read_def split: pump_pc.splits option.splits list.splits if_splits)

lemma disp_stuck: "disp_step L s = None \<Longrightarrow> rp_disp s = DNone \<or> rp_disp s = DDone \<or> waiting s \<and> \<not> rp_read s"
  by (auto simp: disp_step_def disp_get1_def disp_get2_def getMsg_free waiting_def split: disp_pc.splits if_splits option.splits)

lemma replay_final:
  assumes "(replay_event L)\<^sup>*\<^sup>* (new_replay ps sp False False file) s" "rp_ctl s = CIdle" "\<nexists>s'. replay_step L s s'"
  shows "rp_out s = replay_trace L (f32 sp) (local_start ps) (log_lines file) \<and>
    (rp_dead s \<or> rp_pump s = PDone \<and> rp_disp s = DDone)"
proof -
  let ?tot = "replay_trace L (f32 sp) (local_start ps) (log_lines file)"
  have i: "slot_ok s" "stop_ok False False s" "trace_ok L ?tot s"
    using reach_inv [OF assms(1)] by (simp_all add: replay_inv_def)
  have stops: "\<not> rp_dispStop s" "\<not> rp_pumpStop s" "rp_disp s \<noteq> DNone"
    using i(2) assms(2) by (simp_all add: stop_ok_def)
  show ?thesis
  proof (cases "rp_dead s")
    case True
    then show ?thesis using i(3) stops by (simp add: trace_ok_def)
  next
    case False
    note none = stuck_steps [OF assms(3) False]
    have d: "rp_disp s = DDone \<or> waiting s \<and> \<not> rp_read s" using disp_stuck none stops(3) by blast
    have p: "rp_pump s = PDone \<or> rp_pump s = PRead \<and> rp_read s" using pump_stuck none i(1) by (auto simp: slot_ok_def)
    have "rp_code s = MSG_EOF"
      using p d i(1,2) stops by (auto simp: slot_ok_def stop_ok_def)
    then have "rp_pump s = PDone" "rp_disp s = DDone"
      using p d i(1) by (auto simp: slot_ok_def)
    then show ?thesis using i(3) False stops by (simp add: trace_ok_def future_def)
  qed
qed

section \<open>Termination\<close>

definition reads_left :: "('m, 'p) replay \<Rightarrow> nat" where
  "reads_left s = (if rp_code s = MSG_EOF then 0 else Suc (length (log_lines (rp_in s))))"

fun pump_pts :: "pump_pc \<Rightarrow> nat \<Rightarrow> nat" where
  "pump_pts PLoop k = 2 * k + 1"
| "pump_pts PRead k = 2 * k"
| "pump_pts PDone k = 0"

fun disp_pts :: "'m disp_pc \<Rightarrow> nat" where
  "disp_pts DNone = 0"
| "disp_pts DTop = 1"
| "disp_pts DGet1 = 0"
| "disp_pts (DGet2 _) = 3"
| "disp_pts (DSend1 _ _) = 6"
| "disp_pts (DSleep _) = 5"
| "disp_pts (DSend2 _) = 4"
| "disp_pts DDone = 0"

fun ctl_pts :: "ctl_pc \<Rightarrow> nat" where
  "ctl_pts CIdle = 3"
| "ctl_pts CPump = 2"
| "ctl_pts CDisp = 1"
| "ctl_pts CDone = 0"

definition replay_weight :: "('m, 'p) replay \<Rightarrow> nat" where
  "replay_weight s = pump_pts (rp_pump s) (reads_left s) + 4 * ((if rp_read s then 1 else 0) + reads_left s) +
     disp_pts (rp_disp s) + ctl_pts (rp_ctl s) + (if rp_dead s then 0 else 1)"

lemmas weight_simps = replay_weight_def reads_left_def log_lines_def

lemma pump_weight: "slot_ok s \<Longrightarrow> \<not> rp_dead s \<Longrightarrow> pump_step s = Some s' \<Longrightarrow> replay_weight s' < replay_weight s"
  by (erule pump_cases) (simp_all add: weight_simps slot_ok_def)

lemma disp_reads: "disp_step L s = Some s' \<Longrightarrow> reads_left s' = reads_left s \<and> rp_pump s' = rp_pump s \<and> rp_ctl s' = rp_ctl s"
  by (erule disp_cases) (simp_all add: reads_left_def)

lemma disp_weight:
  assumes "\<not> rp_dead s" "disp_step L s = Some s'"
  shows "replay_weight s' < replay_weight s"
proof -
  have "4 * (if rp_read s' then 1 else 0) + disp_pts (rp_disp s') + (if rp_dead s' then 0 else 1) <
      4 * (if rp_read s then 1 else (0::nat)) + disp_pts (rp_disp s) + (if rp_dead s then 0 else 1)"
    using assms(2,1) by (cases rule: disp_cases) auto
  then show ?thesis using disp_reads [OF assms(2)] by (simp add: replay_weight_def algebra_simps)
qed

lemma ctl_weight: "\<not> rp_dead s \<Longrightarrow> ctl_step s = Some s' \<Longrightarrow> replay_weight s' < replay_weight s"
  by (erule ctl_cases) (simp_all add: weight_simps)

lemma event_weight:
  assumes "slot_ok s" "replay_event L s s'"
  shows "replay_weight s' < replay_weight s"
  using assms(2)
proof cases
  case step
  then show ?thesis
    by cases (use assms(1) pump_weight disp_weight ctl_weight in blast)+
qed (simp add: weight_simps request_stop_def)

text \<open>
  C26. The replay ends. A run over a log of n lines, with every interleaving and a logout at any moment,
  has at most 6 n + 12 steps.
\<close>

theorem replay_terminates:
  fixes L :: "('m, 'p, 't) fix_lib"
  assumes "(replay_event L ^^ k) (new_replay ps sp started0 stop0 file) s"
  shows "k \<le> 6 * length (log_lines file) + 12"
proof -
  let ?s0 = "new_replay ps sp started0 stop0 file :: ('m, 'p) replay"
  have "(replay_event L ^^ k) ?s0 s \<Longrightarrow> (replay_event L)\<^sup>*\<^sup>* ?s0 s \<and> replay_weight s + k \<le> replay_weight ?s0" for k s
  proof (induction k arbitrary: s)
    case (Suc k)
    obtain t where t: "(replay_event L ^^ k) ?s0 t" "replay_event L t s" using relpowp_Suc_E [OF Suc.prems] by blast
    note r = conjunct1 [OF Suc.IH [OF t(1)]] and w = conjunct2 [OF Suc.IH [OF t(1)]]
    have "slot_ok t" using reach_inv [OF r] unfolding replay_inv_def by blast
    then have "replay_weight s < replay_weight t" using event_weight t(2) by blast
    then have "replay_weight s + Suc k \<le> replay_weight ?s0" using w by linarith
    then show ?case using rtranclp.rtrancl_into_rtrancl [OF r t(2)] by blast
  qed simp
  from this [OF assms] have "k \<le> replay_weight ?s0" by linarith
  moreover have "replay_weight ?s0 \<le> 6 * length (log_lines file) + 12"
    by (simp add: weight_simps new_replay_def)
  ultimately show ?thesis by linarith
qed

section \<open>A log of complete messages\<close>

text \<open>Whole numbers below 2^24 are floats.\<close>

lemma num_bits_bounds: "0 < n \<Longrightarrow> 2 ^ (num_bits n - 1) \<le> n \<and> n < 2 ^ num_bits n"
proof (induction n rule: num_bits.induct)
  case (1 n)
  show ?case
  proof (cases "n div 2 = 0")
    case True
    then have "n = 1" using 1(2) by auto
    then show ?thesis by (simp add: num_bits.simps)
  next
    case False
    then have "2 ^ (num_bits (n div 2) - 1) \<le> n div 2" "n div 2 < 2 ^ num_bits (n div 2)" "num_bits (n div 2) \<noteq> 0"
      using 1 by (auto simp: num_bits.simps [of "n div 2"])
    then have "2 * 2 ^ (num_bits (n div 2) - 1) \<le> n" "n < 2 * 2 ^ num_bits (n div 2)" by linarith+
    with \<open>num_bits (n div 2) \<noteq> 0\<close> show ?thesis
      using 1(2) by (cases "num_bits (n div 2)") (simp_all add: num_bits.simps [of n])
  qed
qed

lemma round_even_int: "round_even (of_int k) = k"
  by (simp add: round_even_def)

lemma f32_int:
  assumes "\<bar>d\<bar> < 2 ^ 24"
  shows "f32 (of_int d) = of_int d"
proof (cases "d = 0")
  case False
  define n where "n = nat \<bar>d\<bar>"
  define b where "b = num_bits n"
  have n: "0 < n" "n < 2 ^ 24" "int n = \<bar>d\<bar>" using assms False by (auto simp: n_def)
  have b: "2 ^ (b - 1) \<le> n" "n < 2 ^ b" using num_bits_bounds [OF n(1)] by (simp_all add: b_def)
  have "b \<noteq> 0" using b(2) n(1) by (cases b) auto
  have "b \<le> 24"
  proof (rule ccontr)
    assume "\<not> b \<le> 24"
    then have "(2::nat) ^ 24 \<le> 2 ^ (b - 1)" by (intro power_increasing) auto
    then show False using b(1) n(2) by linarith
  qed
  have q: "quotient_of \<bar>of_int d :: rat\<bar> = (\<bar>d\<bar>, 1)"
    using quotient_of_int [of "\<bar>d\<bar>"] by (simp add: Rat.of_int_def of_int_abs)
  have e: "int b - 1 = int (b - 1)" using \<open>b \<noteq> 0\<close> by simp
  have "(2::rat) ^ (b - 1) \<le> of_nat n" using b(1) by (metis of_nat_le_iff of_nat_numeral of_nat_power)
  moreover have "(of_nat n :: rat) = \<bar>of_int d\<bar>" using n(3) by (metis of_int_abs of_int_of_nat_eq)
  moreover have "(2::rat) powi (int b - 1) = 2 ^ (b - 1)" unfolding e by simp
  ultimately have "\<not> \<bar>of_int d :: rat\<bar> < 2 powi (int b - 1)" by (simp add: not_less)
  then have "leading_bit (of_int d) = int b - 1"
    by (simp add: leading_bit_def q Let_def num_bits.simps [of "Suc 0"] num_bits.simps [of 0] flip: n_def b_def)
  then have u: "leading_bit (of_int d) - 23 = - int (24 - b)" using \<open>b \<le> 24\<close> by simp
  have k: "of_int d / (2::rat) powi (- int (24 - b)) = of_int (d * 2 ^ (24 - b))"
    by (simp add: power_int_minus divide_inverse)
  have "f32 (of_int d) = of_int (round_even (of_int d / 2 powi (- int (24 - b)))) * 2 powi (- int (24 - b))"
    unfolding f32_def Let_def u using False by simp
  also have "\<dots> = of_int (d * 2 ^ (24 - b)) * 2 powi (- int (24 - b))" unfolding k round_even_int ..
  also have "\<dots> = of_int d" by (simp add: power_int_minus)
  finally show ?thesis .
qed (simp add: f32_def)

text \<open>A log that holds one complete message to the line, which the parser gives back as it is fed.\<close>

definition log_of_messages :: "('m, 'p, 't) fix_lib \<Rightarrow> 'p \<Rightarrow> (string \<Rightarrow> 'm parsed) \<Rightarrow> string list \<Rightarrow> bool" where
  "log_of_messages L ps f ls \<longleftrightarrow> fl_session_found L \<and> (\<forall>l \<in> set ls.
     (\<exists>t. fl_readFixMessage L (fl_addToStream L l ps) = (ParsedText t, ps) \<and> fl_setString L t = Some (f l)) \<and>
     pm_begin (f l) = Some BeginString_FIX42 \<and>
     (pm_type (f l) = Some MsgType_MarketDataSnapshotFullRefresh \<or> pm_type (f l) = Some MsgType_MarketDataIncrementalRefresh))"

definition timed :: "('m, 'p, 't) fix_lib \<Rightarrow> rat \<Rightarrow> (string \<Rightarrow> 'm parsed) \<Rightarrow> (string \<Rightarrow> string \<Rightarrow> int) \<Rightarrow> string list \<Rightarrow> bool" where
  "timed L sp f D ls \<longleftrightarrow> (\<forall>x \<in> set ls. \<forall>y \<in> set ls. \<exists>d. getTimeDelta L (f x) (f y) = Some (Some d) \<and> scale_delta sp d = Some (D x y))"

fun sent_of :: "'m rp_event list \<Rightarrow> 'm list" where
  "sent_of [] = []"
| "sent_of (Sent m # es) = m # sent_of es"
| "sent_of (Slept d # es) = sent_of es"

fun slept_of :: "'m rp_event list \<Rightarrow> int list" where
  "slept_of [] = []"
| "slept_of (Sent m # es) = slept_of es"
| "slept_of (Slept d # es) = d # slept_of es"

lemma trace_of_log:
  assumes "log_of_messages L ps f ls" "timed L sp f D ls" "md_parser l = ps"
  shows "sent_of (replay_trace L sp l ls) = map (pm_msg \<circ> f) (take (2 * (length ls div 2)) ls) \<and>
    slept_of (replay_trace L sp l ls) = map (\<lambda>i. D (ls ! (2 * i)) (ls ! (2 * i + 1))) [0..<length ls div 2]"
  using assms
proof (induction ls arbitrary: l rule: induct_list012)
  case (2 x)
  then show ?case by (auto simp: log_of_messages_def md_take1_def md_parse_def)
next
  case (3 x y ls)
  obtain t u where t: "fl_readFixMessage L (fl_addToStream L x ps) = (ParsedText t, ps)" "fl_setString L t = Some (f x)"
    "fl_readFixMessage L (fl_addToStream L y ps) = (ParsedText u, ps)" "fl_setString L u = Some (f y)"
    using 3(3) by (auto simp: log_of_messages_def)
  obtain d where d: "getTimeDelta L (f x) (f y) = Some (Some d)" "scale_delta sp d = Some (D x y)"
    using 3(4) by (auto simp: timed_def)
  have s: "md_dispatch L (f x) = Some [Sent (pm_msg (f x))]" "md_dispatch L (f y) = Some [Sent (pm_msg (f y))]"
    using 3(3) by (auto simp: log_of_messages_def md_dispatch_def)
  define l' where "l' = l\<lparr>md_mtext1 := t, md_parser := ps, md_mtext2 := u, md_delta := D x y\<rparr>"
  have r: "replay_trace L sp l (x # y # ls) = Sent (pm_msg (f x)) # Slept (D x y) # Sent (pm_msg (f y)) # replay_trace L sp l' ls"
    using t d s 3(5) by (simp add: md_take1_def md_take2_def md_parse_def md_pair_delta_def then_send1_def then_send2_def l'_def)
  have "log_of_messages L ps f ls" "timed L sp f D ls" "md_parser l' = ps"
    using 3(3,4) by (simp_all add: log_of_messages_def timed_def l'_def)
  note ih = 3(1) [OF this]
  show ?case unfolding r using ih by (simp add: map_upt_Suc del: upt_Suc)
qed simp

text \<open>
  What the replay of a log of complete market data messages sends. When it has come to its end it
  has sent the messages of the log in order, but the last one of an odd number; and between the two
  messages of every pair, but not from one pair to the next, it has slept the difference of their sending
  times divided by the speed.
\<close>

theorem replay_of_log:
  assumes "(replay_event L)\<^sup>*\<^sup>* (new_replay ps sp False False (Some ls)) s" "rp_ctl s = CIdle" "\<nexists>s'. replay_step L s s'"
    "log_of_messages L ps f ls" "timed L (f32 sp) f D ls"
  shows "sent_of (rp_out s) = map (pm_msg \<circ> f) (take (2 * (length ls div 2)) ls) \<and>
    slept_of (rp_out s) = map (\<lambda>i. D (ls ! (2 * i)) (ls ! (2 * i + 1))) [0..<length ls div 2]"
  using replay_final [OF assms(1-3)] trace_of_log [OF assms(4,5), of "local_start ps"]
  by (simp add: log_lines_def local_start_def)

lemma sent_of_append [simp]: "sent_of (xs @ ys) = sent_of xs @ sent_of ys"
  by (induction xs rule: sent_of.induct) auto

lemma prefix_sent: "prefix xs ys \<Longrightarrow> prefix (sent_of xs) (sent_of ys)"
  by (auto simp: prefix_def)

text \<open>
  C25. Every interleaving of the pump, the dispatcher and a logout, at any moment. What has been sent and
  slept so far is the beginning of what one thread that read the log in order and in pairs would send
  and sleep (\<open>replay_trace\<close>: it drops a last line without a partner, and where the parser yields no text it
  parses the text of the line before the last once more). When no thread can move any more and nobody has
  logged out, it is all of it, and both threads have ended (unless an exception has ended the process);
  this needs the dispatcher's two flags, which its constructor leaves uninitialised, to be false. For a log
  with one complete market data message on each line this means that the messages of the log are sent in
  their order, none twice and none left out but the last of an odd number, with the sleeps of each pair
  between its two messages.
\<close>

theorem replay_interleavings:
  assumes "(replay_event L)\<^sup>*\<^sup>* (new_replay ps sp started0 stop0 file) s"
  shows "prefix (rp_out s) (replay_trace L (f32 sp) (local_start ps) (log_lines file)) \<and>
    (\<not> started0 \<and> \<not> stop0 \<and> rp_ctl s = CIdle \<and> (\<nexists>s'. replay_step L s s') \<longrightarrow>
      rp_out s = replay_trace L (f32 sp) (local_start ps) (log_lines file) \<and>
      (rp_dead s \<or> rp_pump s = PDone \<and> rp_disp s = DDone)) \<and>
    (\<forall>ls f D. file = Some ls \<and> log_of_messages L ps f ls \<and> timed L (f32 sp) f D ls \<longrightarrow>
      prefix (sent_of (rp_out s)) (map (pm_msg \<circ> f) (take (2 * (length ls div 2)) ls)) \<and>
      (\<not> started0 \<and> \<not> stop0 \<and> rp_ctl s = CIdle \<and> (\<nexists>s'. replay_step L s s') \<longrightarrow>
        sent_of (rp_out s) = map (pm_msg \<circ> f) (take (2 * (length ls div 2)) ls) \<and>
        slept_of (rp_out s) = map (\<lambda>i. D (ls ! (2 * i)) (ls ! (2 * i + 1))) [0..<length ls div 2]))"
proof -
  let ?all = "replay_trace L (f32 sp) (local_start ps) (log_lines file)"
  have pre: "prefix (rp_out s) ?all"
    using reach_inv [OF assms] trace_prefix by (auto simp: replay_inv_def)
  have fin: "rp_out s = ?all \<and> (rp_dead s \<or> rp_pump s = PDone \<and> rp_disp s = DDone)"
    if "\<not> started0 \<and> \<not> stop0 \<and> rp_ctl s = CIdle \<and> (\<nexists>s'. replay_step L s s')"
    using replay_final [of L ps sp "file" s] assms that by auto
  have log: "sent_of ?all = map (pm_msg \<circ> f) (take (2 * (length ls div 2)) ls) \<and>
      slept_of ?all = map (\<lambda>i. D (ls ! (2 * i)) (ls ! (2 * i + 1))) [0..<length ls div 2]"
    if "file = Some ls \<and> log_of_messages L ps f ls \<and> timed L (f32 sp) f D ls" for ls f D
    using trace_of_log [of L ps f ls "f32 sp" D "local_start ps"] that by (simp add: log_lines_def local_start_def)
  show ?thesis
  proof (intro conjI allI impI)
    fix ls f D assume l: "file = Some ls \<and> log_of_messages L ps f ls \<and> timed L (f32 sp) f D ls"
    show "prefix (sent_of (rp_out s)) (map (pm_msg \<circ> f) (take (2 * (length ls div 2)) ls))"
      using prefix_sent [OF pre] log [OF l] by simp
    assume e: "\<not> started0 \<and> \<not> stop0 \<and> rp_ctl s = CIdle \<and> (\<nexists>s'. replay_step L s s')"
    show "sent_of (rp_out s) = map (pm_msg \<circ> f) (take (2 * (length ls div 2)) ls)"
      "slept_of (rp_out s) = map (\<lambda>i. D (ls ! (2 * i)) (ls ! (2 * i + 1))) [0..<length ls div 2]"
      using fin [OF e] log [OF l] by simp_all
  qed (use pre fin in auto)
qed

section \<open>Stopping\<close>

lemma stopping_stuck:
  assumes "(replay_event L)\<^sup>*\<^sup>* (new_replay ps sp False False file) s" "rp_ctl s \<noteq> CIdle" "\<not> rp_dead s"
    "\<nexists>s'. replay_step L s s'"
  shows "rp_ctl s = CDone \<or> rp_ctl s = CDisp \<and> rp_pump s = PDone \<and> waiting s \<and> \<not> rp_read s"
proof -
  have i: "slot_ok s" "stop_ok False False s" using reach_inv [OF assms(1)] by (simp_all add: replay_inv_def)
  note none = stuck_steps [OF assms(4,3)]
  have d: "rp_disp s = DDone \<or> waiting s \<and> \<not> rp_read s" using disp_stuck none i(2) by (auto simp: stop_ok_def)
  have p: "rp_pump s = PDone \<or> rp_pump s = PRead \<and> rp_read s" using pump_stuck none i(1) by (auto simp: slot_ok_def)
  have c: "rp_ctl s = CDone \<or> rp_ctl s = CPump \<and> rp_pump s \<noteq> PDone \<or> rp_ctl s = CDisp \<and> rp_disp s \<noteq> DDone"
    using none assms(2) by (cases "rp_ctl s") (auto simp: ctl_step_def split: if_splits)
  show ?thesis
  proof (cases "rp_ctl s = CPump")
    case True
    then have "rp_pump s = PRead" "rp_read s" "rp_disp s = DDone" using c p d by auto
    then show ?thesis using i True by (auto simp: slot_ok_def stop_ok_def)
  next
    case False
    then have "rp_pump s = PDone" if "rp_ctl s = CDisp" using p i that by (auto simp: slot_ok_def stop_ok_def)
    then show ?thesis using c d False assms(2) by (cases "rp_ctl s") auto
  qed
qed

lemma waiting_stuck:
  assumes "rp_pump s = PDone" "waiting s" "\<not> rp_read s" "rp_ctl s = CDisp"
  shows "\<nexists>s'. replay_event L s s'"
proof -
  have "pump_step s = None" using assms(1) by (simp add: pump_step_def)
  moreover have "disp_step L s = None"
    using assms(2,3) by (auto simp: waiting_def disp_step_def disp_get1_def disp_get2_def getMsg_free split: disp_pc.splits)
  moreover have "ctl_step s = None" using assms(2,4) by (auto simp: waiting_def ctl_step_def split: disp_pc.splits)
  ultimately show ?thesis using assms(4) by (auto elim!: replay_eventE replay_stepE)
qed

lemma steps_run: "replay_event L a b \<Longrightarrow> (replay_event L)\<^sup>*\<^sup>* b c \<Longrightarrow> (replay_event L)\<^sup>*\<^sup>* a c"
  by (rule converse_rtranclp_into_rtranclp)

lemmas step_simps = pump_step_def pump_read_def disp_step_def disp_get1_def getMsg_def ctl_step_def request_stop_def new_replay_def

lemma logout_deadlock:
  assumes "md_take1 L x (local_start ps) = Some (l', m)"
  shows "\<exists>s. (replay_event L)\<^sup>*\<^sup>* (new_replay ps sp False False (Some (x # ls))) s \<and> \<not> rp_dead s \<and>
    rp_ctl s = CDisp \<and> rp_pump s = PDone \<and> waiting s \<and> \<not> rp_read s"
proof -
  let ?s0 = "new_replay ps sp False False (Some (x # ls))"
  let ?s1 = "?s0\<lparr>rp_pump := PRead\<rparr>"
  let ?s2 = "?s0\<lparr>rp_in := Some ls, rp_strMsg := x, rp_code := MSG_OK, rp_read := True, rp_consumed := False\<rparr>"
  let ?s3 = "request_stop ?s2"
  let ?s4 = "?s3\<lparr>rp_pump := PDone\<rparr>"
  let ?s5 = "?s4\<lparr>rp_disp := DGet1\<rparr>"
  let ?s6 = "?s5\<lparr>rp_consumed := True, rp_read := False, rp_local := l', rp_disp := DGet2 m\<rparr>"
  let ?s7 = "?s6\<lparr>rp_dispStop := True, rp_ctl := CDisp\<rparr>"
  have take: "md_take1 L x \<lparr>md_parser = ps, md_mtext1 = [], md_mtext2 = [], md_delta = 0\<rparr> = Some (l', m)"
    using assms by (simp add: local_start_def)
  have 1: "replay_event L ?s0 ?s1" by (rule replay_event.step, rule replay_step.pump) (simp_all add: step_simps)
  have 2: "replay_event L ?s1 ?s2" by (rule replay_event.step, rule replay_step.pump) (simp_all add: step_simps)
  have 3: "replay_event L ?s2 ?s3" by (rule replay_event.logout) (simp_all add: new_replay_def)
  have 4: "replay_event L ?s3 ?s4" by (rule replay_event.step, rule replay_step.pump) (simp_all add: step_simps)
  have 5: "replay_event L ?s4 ?s5" by (rule replay_event.step, rule replay_step.dispatcher) (simp_all add: step_simps)
  have 6: "replay_event L ?s5 ?s6" by (rule replay_event.step, rule replay_step.dispatcher) (simp_all add: step_simps take)
  have 7: "replay_event L ?s6 ?s7" by (rule replay_event.step, rule replay_step.stopping) (simp_all add: step_simps)
  have "(replay_event L)\<^sup>*\<^sup>* ?s0 ?s7"
    by (rule steps_run [OF 1] steps_run [OF 2] steps_run [OF 3] steps_run [OF 4] steps_run [OF 5] steps_run [OF 6]
        steps_run [OF 7])+ (rule rtranclp.rtrancl_refl)
  then show ?thesis by (intro exI [of _ ?s7]) (simp add: waiting_def step_simps)
qed

text \<open>
  C27. The logout. Stopping a replay first joins the pump and then the dispatcher; when no thread can move
  any more it has come to its end, or it waits for a dispatcher that waits for a message of the
  pump, which has ended. That happens, whatever follows in the log, when the stop comes after the first
  line has been read: the dispatcher takes it and waits for its partner for ever, and so does the
  engine's thread for the dispatcher.
\<close>

theorem replay_logout:
  assumes "md_take1 L x (local_start ps) \<noteq> None"
  shows "(\<exists>s. (replay_event L)\<^sup>*\<^sup>* (new_replay ps sp False False (Some (x # ls))) s \<and> \<not> rp_dead s \<and>
      rp_ctl s = CDisp \<and> (\<nexists>s'. replay_event L s s')) \<and>
    (\<forall>lg s. (replay_event L)\<^sup>*\<^sup>* (new_replay ps sp False False lg) s \<and> rp_ctl s \<noteq> CIdle \<and> \<not> rp_dead s \<and>
       (\<nexists>s'. replay_step L s s') \<longrightarrow>
       rp_ctl s = CDone \<or> rp_ctl s = CDisp \<and> rp_pump s = PDone \<and> waiting s \<and> \<not> rp_read s)"
proof -
  obtain l' m where "md_take1 L x (local_start ps) = Some (l', m)" using assms by auto
  from logout_deadlock [OF this, of sp ls] waiting_stuck stopping_stuck [of L ps sp] show ?thesis by blast
qed

section \<open>A sample library\<close>

text \<open>A line is the sending time of an incremental refresh, the parser holds one line, and stamps differ by two
  seconds.\<close>

definition sample_fix_lib :: "(string, string, string) fix_lib" where
  "sample_fix_lib = \<lparr>fl_addToStream = (\<lambda>l _. l), fl_readFixMessage = (\<lambda>p. (ParsedText p, [])),
     fl_setString = (\<lambda>t. Some \<lparr>pm_empty = False, pm_type = Some ''X'', pm_begin = Some ''FIX.4.2'', pm_time = SendingTime t, pm_msg = t\<rparr>),
     fl_session_found = True, fl_time_from_string = (\<lambda>t. t), fl_total_microseconds = (\<lambda>_ _. 2000000)\<rparr>"

abbreviation sample_parse :: "string \<Rightarrow> string parsed" where
  "sample_parse t \<equiv> \<lparr>pm_empty = False, pm_type = Some ''X'', pm_begin = Some ''FIX.4.2'', pm_time = SendingTime t, pm_msg = t\<rparr>"

lemma replay_logout_witness:
  "\<exists>s. (replay_event sample_fix_lib)\<^sup>*\<^sup>* (new_replay [] 1 False False (Some [''a'', ''b''])) s \<and>
    rp_ctl s = CDisp \<and> (\<nexists>s'. replay_event sample_fix_lib s s')"
proof -
  have "md_take1 sample_fix_lib ''a'' (local_start []) \<noteq> None"
    by (simp add: md_take1_def md_parse_def sample_fix_lib_def Let_def)
  from replay_logout [OF this, of 1 "[''b'']"] show ?thesis by blast
qed

text \<open>From every state nobody has stopped the threads can run to the end.\<close>

lemma replay_ends:
  assumes "slot_ok s" "rp_ctl s = CIdle"
  shows "\<exists>t. (replay_event L)\<^sup>*\<^sup>* s t \<and> rp_ctl t = CIdle \<and> (\<nexists>t'. replay_step L t t')"
  using assms
proof (induction "replay_weight s" arbitrary: s rule: less_induct)
  case less
  show ?case
  proof (cases "\<exists>s'. replay_step L s s'")
    case True
    then obtain s' where s': "replay_step L s s'" by blast
    then have "slot_ok s' \<and> rp_ctl s' = CIdle"
    proof cases
      case pump
      then show ?thesis using pump_slot pump_ctl less.prems by metis
    next
      case dispatcher
      then show ?thesis using disp_slot disp_reads less.prems by metis
    qed (use less.prems in \<open>simp add: ctl_step_def\<close>)
    then obtain t where "(replay_event L)\<^sup>*\<^sup>* s' t \<and> rp_ctl t = CIdle \<and> (\<nexists>t'. replay_step L t t')"
      using less.hyps event_weight [OF less.prems(1) replay_event.step [OF s']] by blast
    then show ?thesis using steps_run [OF replay_event.step [OF s']] by blast
  qed (use less.prems in blast)
qed

lemma sample_ends:
  "\<exists>s. (replay_event L)\<^sup>*\<^sup>* (new_replay ps sp False False lg) s \<and> rp_ctl s = CIdle \<and> (\<nexists>s'. replay_step L s s')"
  by (rule replay_ends) (simp_all add: new_replay_def slot_ok_def)

abbreviation sample_log :: "string list" where
  "sample_log \<equiv> [''20110822-08:00:00.123'', ''20110822-08:00:02.123'', ''20110822-08:00:04.123'']"

lemma sample_log_ok: "log_of_messages sample_fix_lib [] sample_parse sample_log"
  by (simp add: log_of_messages_def sample_fix_lib_def md_types)

lemma sample_scale: "scale_delta (f32 2) 2000000 = Some 1000000"
  using f32_int [of 2] f32_int [of 2000000] f32_int [of 1000000]
  by (simp add: scale_delta_def trunc_dbl_def s64_def)

lemma sample_timed: "timed sample_fix_lib (f32 2) sample_parse (\<lambda>_ _. 1000000) sample_log"
  using ptime_text_layout [of "''2011''" "''08''" "''22''" "''08:00:00.123''" 30]
    ptime_text_layout [of "''2011''" "''08''" "''22''" "''08:00:02.123''" 30]
    ptime_text_layout [of "''2011''" "''08''" "''22''" "''08:00:04.123''" 30]
  by (simp add: timed_def getTimeDelta_def UTCTimeStampToPTime_def sample_fix_lib_def sample_scale NUL_def)

lemma replay_of_log_witness:
  "\<exists>s. (replay_event sample_fix_lib)\<^sup>*\<^sup>* (new_replay [] 2 False False (Some sample_log)) s \<and>
    sent_of (rp_out s) = [''20110822-08:00:00.123'', ''20110822-08:00:02.123''] \<and> slept_of (rp_out s) = [1000000]"
proof -
  obtain s where s: "(replay_event sample_fix_lib)\<^sup>*\<^sup>* (new_replay [] 2 False False (Some sample_log)) s" "rp_ctl s = CIdle"
    "\<nexists>s'. replay_step sample_fix_lib s s'" using sample_ends [of sample_fix_lib "[]" 2 "Some sample_log"] by blast
  from replay_of_log [OF s sample_log_ok sample_timed] s(1) show ?thesis by (intro exI [of _ s]) simp
qed

lemma replay_interleavings_witness:
  "\<exists>s. (replay_event sample_fix_lib)\<^sup>*\<^sup>* (new_replay [] 2 False False (Some sample_log)) s \<and>
    rp_out s = replay_trace sample_fix_lib (f32 2) (local_start []) sample_log \<and>
    sent_of (rp_out s) = [''20110822-08:00:00.123'', ''20110822-08:00:02.123''] \<and> slept_of (rp_out s) = [1000000]"
proof -
  obtain s where s: "(replay_event sample_fix_lib)\<^sup>*\<^sup>* (new_replay [] 2 False False (Some sample_log)) s" "rp_ctl s = CIdle"
    "\<nexists>s'. replay_step sample_fix_lib s s'" using sample_ends [of sample_fix_lib "[]" 2 "Some sample_log"] by blast
  from replay_interleavings [OF s(1)] s(2,3)
  have "rp_out s = replay_trace sample_fix_lib (f32 2) (local_start []) sample_log"
    "sent_of (rp_out s) = map (pm_msg \<circ> sample_parse) (take (2 * (length sample_log div 2)) sample_log)"
    "slept_of (rp_out s) = map (\<lambda>_. 1000000) [0..<length sample_log div 2]"
    using sample_log_ok sample_timed by (auto simp: log_lines_def simp del: list.size list.map take_Cons_numeral)
  then show ?thesis using s(1) by (intro exI [of _ s]) simp
qed

lemma replay_terminates_witness:
  "\<exists>s k. (replay_event sample_fix_lib ^^ k) (new_replay [] 2 False False (Some sample_log)) s \<and>
    (\<nexists>s'. replay_step sample_fix_lib s s') \<and> k \<le> 30"
proof -
  obtain s where s: "(replay_event sample_fix_lib)\<^sup>*\<^sup>* (new_replay [] 2 False False (Some sample_log)) s"
    "\<nexists>s'. replay_step sample_fix_lib s s'" using sample_ends [of sample_fix_lib "[]" 2 "Some sample_log"] by blast
  then obtain k where k: "(replay_event sample_fix_lib ^^ k) (new_replay [] 2 False False (Some sample_log)) s"
    using rtranclp_imp_relpowp by fastforce
  from replay_terminates [OF this] s(2) k show ?thesis by (intro exI [of _ s] exI [of _ k]) (simp add: log_lines_def)
qed

end
