(* ===== verification/MsgCache.thy ===== *)
theory MsgCache
  imports IdsCorrect
begin

text \<open>
  The caches of the order gateway, \<^verbatim>\<open>order_entry/order-fix/msg_cache.h\<close>: strategy routes and
  order information, with the serialisers of their files.

  \<^verbatim>\<open>google::dense_hash_map\<close> is the record \<open>dense_hash\<close> of the operations the caches call; its
  documentation is \<open>dense_ok\<close>: a map on every key but the reserved empty and deleted ones, which
  must not be inserted. A null \<^verbatim>\<open>OrderInfo_ptr\<close> is \<open>None\<close>. A file being written is its
  contents and the number of bytes it still accepts, a file being read the bytes that are left;
  \<open>Some\<close> of a result means that nothing undefined happened.
\<close>

section \<open>The hash map\<close>

record ('h, 'k, 'v) dense_hash =
  dh_new :: "nat \<Rightarrow> 'k \<Rightarrow> 'k \<Rightarrow> 'h"
  dh_inv :: "'h \<Rightarrow> bool"
  dh_find :: "'h \<Rightarrow> 'k \<Rightarrow> 'v option"
  dh_put :: "'h \<Rightarrow> 'k \<Rightarrow> 'v \<Rightarrow> 'h option"
  dh_erase :: "'h \<Rightarrow> 'k \<Rightarrow> nat \<times> 'h"
  dh_size :: "'h \<Rightarrow> nat"

definition dense_ok :: "('h, 'k, 'v) dense_hash \<Rightarrow> 'k \<Rightarrow> 'k \<Rightarrow> bool" where
  "dense_ok D e d \<longleftrightarrow>
     (\<forall>n. dh_inv D (dh_new D n e d) \<and> (\<forall>k. dh_find D (dh_new D n e d) k = None)) \<and>
     (\<forall>h k v. dh_inv D h \<longrightarrow> k \<notin> {e, d} \<longrightarrow> (\<exists>h'. dh_put D h k v = Some h' \<and> dh_inv D h' \<and>
        (\<forall>k'. k' \<notin> {e, d} \<longrightarrow> dh_find D h' k' = (if k' = k then Some v else dh_find D h k')))) \<and>
     (\<forall>h k. dh_inv D h \<longrightarrow> k \<notin> {e, d} \<longrightarrow> (case dh_erase D h k of (c, h') \<Rightarrow> dh_inv D h' \<and>
        c = (if dh_find D h k = None then 0 else 1) \<and>
        (\<forall>k'. k' \<notin> {e, d} \<longrightarrow> dh_find D h' k' = (if k' = k then None else dh_find D h k'))))"

lemma dense_put:
  assumes "dense_ok D e d" "dh_inv D h" "k \<notin> {e, d}"
  obtains h' where "dh_put D h k v = Some h'" "dh_inv D h'"
    "\<And>k'. k' \<notin> {e, d} \<Longrightarrow> dh_find D h' k' = (if k' = k then Some v else dh_find D h k')"
  using assms unfolding dense_ok_def by meson

section \<open>The caches\<close>

definition sid_empty_key :: strategy_id where "sid_empty_key = sid_set_char NUL"
definition sid_deleted_key :: strategy_id where "sid_deleted_key = sid_set_char (CHR ''2'')"
definition oid_empty_key :: order_id where "oid_empty_key = oid_set_char NUL"
definition oid_deleted_key :: order_id where "oid_deleted_key = oid_set_char (CHR ''1'')"

type_synonym 'h strategy_table = "('h, strategy_id, route) dense_hash"
type_synonym 'h order_table = "('h, order_id, order_info option) dense_hash"

definition new_strategy_cache :: "'h strategy_table \<Rightarrow> 'h" where
  "new_strategy_cache D = dh_new D 64 sid_empty_key sid_deleted_key"

definition strategy_add :: "'h strategy_table \<Rightarrow> strategy_id \<Rightarrow> route \<Rightarrow> 'h \<Rightarrow> 'h option" where
  "strategy_add D key val h = dh_put D h key val"

definition strategy_del :: "'h strategy_table \<Rightarrow> strategy_id \<Rightarrow> 'h \<Rightarrow> nat \<times> 'h" where
  "strategy_del D key h = dh_erase D h key"

definition strategy_get :: "'h strategy_table \<Rightarrow> strategy_id \<Rightarrow> 'h \<Rightarrow> route" where
  "strategy_get D key h = (case dh_find D h key of Some r \<Rightarrow> r | None \<Rightarrow> new_route)"

definition new_order_cache :: "'h order_table \<Rightarrow> 'h" where
  "new_order_cache D = dh_new D 512 oid_empty_key oid_deleted_key"

definition order_add :: "'h order_table \<Rightarrow> order_id \<Rightarrow> order_info option \<Rightarrow> 'h \<Rightarrow> 'h option" where
  "order_add D key val h = dh_put D h key val"

definition order_del :: "'h order_table \<Rightarrow> order_id \<Rightarrow> 'h \<Rightarrow> nat \<times> 'h" where
  "order_del D key h = dh_erase D h key"

definition order_get :: "'h order_table \<Rightarrow> order_id \<Rightarrow> 'h \<Rightarrow> order_info option" where
  "order_get D key h = (case dh_find D h key of Some p \<Rightarrow> p | None \<Rightarrow> None)"

text \<open>
  \<^verbatim>\<open>read\<close> and \<^verbatim>\<open>write\<close> open a file and pass it on; \<open>opened\<close> is what \<^verbatim>\<open>fopen\<close> gives
  and \<open>body\<close> the container's own (un)serialisation. The guard reads through a null name.
\<close>

definition cache_file :: "string option \<Rightarrow> 'f option \<Rightarrow> ('f \<Rightarrow> bool \<times> 'r) \<Rightarrow> (bool \<times> 'r option) option" where
  "cache_file filename opened body = (case filename of None \<Rightarrow> None
     | Some _ \<Rightarrow> (case opened of None \<Rightarrow> Some (False, None) | Some fp \<Rightarrow> (case body fp of (ok, r) \<Rightarrow> Some (ok, Some r))))"

section \<open>Files\<close>

fun le_bytes :: "nat \<Rightarrow> nat \<Rightarrow> string" where
  "le_bytes 0 x = []"
| "le_bytes (Suc n) x = char_of (x mod 256) # le_bytes n (x div 256)"

fun le_value :: "string \<Rightarrow> nat" where
  "le_value [] = 0"
| "le_value (c # cs) = of_char c + 256 * le_value cs"

record wfile =
  w_data :: string
  w_room :: nat

definition fwrite1 :: "string \<Rightarrow> wfile \<Rightarrow> bool \<times> wfile" where
  "fwrite1 b f = (if length b \<le> w_room f
     then (True, \<lparr>w_data = w_data f @ b, w_room = w_room f - length b\<rparr>)
     else (False, \<lparr>w_data = w_data f @ take (w_room f) b, w_room = 0\<rparr>))"

definition fread1 :: "nat \<Rightarrow> string \<Rightarrow> string option \<times> string" where
  "fread1 n f = (if n \<le> length f then (Some (take n f), drop n f) else (None, []))"

text \<open>Writes in a row, given up at the first that fails.\<close>

fun fwrite_all :: "string list \<Rightarrow> wfile \<Rightarrow> bool \<times> wfile" where
  "fwrite_all [] f = (True, f)"
| "fwrite_all (b # bs) f = (case fwrite1 b f of (False, f1) \<Rightarrow> (False, f1) | (True, f1) \<Rightarrow> fwrite_all bs f1)"

definition write_strategy :: "strategy_id \<times> route \<Rightarrow> wfile \<Rightarrow> bool \<times> wfile" where
  "write_strategy v f =
     fwrite_all [sid (fst v), le_bytes 8 (unat (num_nodes (snd v))), nodes (snd v)] f"

text \<open>The entry is written field by field as it is read.\<close>

definition read_strategy :: "string \<Rightarrow> strategy_id \<times> route \<Rightarrow> bool \<times> (strategy_id \<times> route) \<times> string" where
  "read_strategy f v = (case fread1 UUID_LEN f of
     (None, f1) \<Rightarrow> (False, v, f1)
   | (Some k, f1) \<Rightarrow> (case fread1 8 f1 of
       (None, f2) \<Rightarrow> (False, (StrategyId k, snd v), f2)
     | (Some n, f2) \<Rightarrow> (let r = (snd v)\<lparr>num_nodes := of_nat (le_value n)\<rparr> in
         (case fread1 (ZMQ_MAX_MSG_HOPS * ZMQ_ADDR_LEN) f2 of
            (None, f3) \<Rightarrow> (False, (StrategyId k, r), f3)
          | (Some ns, f3) \<Rightarrow> (True, (StrategyId k, r\<lparr>nodes := ns\<rparr>), f3)))))"

text \<open>\<open>junk\<close> stands for the bytes of a status that was never set.\<close>

definition write_order :: "uint32 \<Rightarrow> order_id \<times> order_info option \<Rightarrow> wfile \<Rightarrow> (bool \<times> wfile) option" where
  "write_order junk v f = (case fwrite1 (oid (fst v)) f of
     (False, f1) \<Rightarrow> Some (False, f1)
   | (True, f1) \<Rightarrow> (case snd v of
       None \<Rightarrow> None
     | Some info \<Rightarrow> Some (fwrite_all [oid (oi_oid info), sid (oi_sid info),
           le_bytes 4 (unat (case oi_status info of Some s \<Rightarrow> s | None \<Rightarrow> junk))] f1)))"

definition read_order :: "string \<Rightarrow> order_id \<times> order_info option \<Rightarrow> bool \<times> (order_id \<times> order_info option) \<times> string" where
  "read_order f v = (case fread1 UUID_LEN f of
     (None, f1) \<Rightarrow> (False, v, f1)
   | (Some k, f1) \<Rightarrow> (let i0 = \<lparr>oi_sid = new_strategy_id, oi_oid = new_order_id, oi_status = None\<rparr> in
       (case fread1 UUID_LEN f1 of
          (None, f2) \<Rightarrow> (False, (OrderId k, Some i0), f2)
        | (Some b, f2) \<Rightarrow> (let i1 = i0\<lparr>oi_oid := OrderId b\<rparr> in
            (case fread1 UUID_LEN f2 of
               (None, f3) \<Rightarrow> (False, (OrderId k, Some i1), f3)
             | (Some s, f3) \<Rightarrow> (let i2 = i1\<lparr>oi_sid := StrategyId s\<rparr> in
                 (case fread1 4 f3 of
                    (None, f4) \<Rightarrow> (False, (OrderId k, Some i2), f4)
                  | (Some w, f4) \<Rightarrow> (True, (OrderId k, Some (i2\<lparr>oi_status := Some (of_nat (le_value w))\<rparr>)), f4))))))))"

section \<open>Entries survive the files\<close>

lemma le_bytes_length [simp]: "length (le_bytes n x) = n"
  by (induction n arbitrary: x) auto

lemma le_value_bytes: "le_value (le_bytes n x) = x mod 256 ^ n"
proof (induction n arbitrary: x)
  case (Suc n)
  have "x mod (256 * 256 ^ n) = 256 * (x div 256 mod 256 ^ n) + x mod 256" by (rule mod_mult2_eq)
  then show ?case by (simp add: Suc.IH)
qed simp

lemma le_word8 [simp]: "of_nat (le_value (le_bytes 8 (unat w))) = (w :: uint64)"
proof -
  have "unat w < 2 ^ LENGTH(64)" by (rule unsigned_less)
  then have "unat w mod 256 ^ 8 = unat w" by simp
  then show ?thesis by (simp add: le_value_bytes)
qed

lemma le_word4 [simp]: "of_nat (le_value (le_bytes 4 (unat w))) = (w :: uint32)"
proof -
  have "unat w < 2 ^ LENGTH(32)" by (rule unsigned_less)
  then have "unat w mod 256 ^ 4 = unat w" by simp
  then show ?thesis by (simp add: le_value_bytes)
qed

lemma fread1_app [simp]: "length b = n \<Longrightarrow> fread1 n (b @ f) = (Some b, f)"
  by (simp add: fread1_def)

lemma fwrite_step:
  "(case fwrite1 a f of (False, f1) \<Rightarrow> (False, f1) | (True, f1) \<Rightarrow> fwrite1 b f1) = fwrite1 (a @ b) f"
proof (cases "length a \<le> w_room f")
  case True
  have "(length b \<le> w_room f - length a) = (length a + length b \<le> w_room f)" using True by arith
  then show ?thesis using True by (simp add: fwrite1_def)
next
  case False
  then show ?thesis by (simp add: fwrite1_def)
qed

lemma fwrite_all_concat: "fwrite_all bs f = fwrite1 (concat bs) f"
proof (induction bs arbitrary: f)
  case (Cons b bs)
  show ?case using fwrite_step [where a = b and f = f and b = "concat bs"] by (simp add: Cons.IH cong: prod.case_cong bool.case_cong)
qed (simp add: fwrite1_def)

lemma write_order_concat:
  "write_order junk (k, Some i) f = Some (fwrite1 (oid k @ oid (oi_oid i) @ sid (oi_sid i) @
     le_bytes 4 (unat (case oi_status i of Some s \<Rightarrow> s | None \<Rightarrow> junk))) f)"
  using fwrite_step [where a = "oid k" and f = f and b = "oid (oi_oid i) @ sid (oi_sid i) @ le_bytes 4 (unat (case oi_status i of Some s \<Rightarrow> s | None \<Rightarrow> junk))", symmetric]
  by (simp add: write_order_def fwrite_all_concat split: prod.split bool.split)

lemma fwrite1_eq:
  "length b = k \<Longrightarrow> fwrite1 b \<lparr>w_data = d, w_room = n\<rparr> = (k \<le> n, \<lparr>w_data = d @ take n b, w_room = n - k\<rparr>)"
  by (auto simp: fwrite1_def)

definition entry_ok :: "strategy_id \<times> route \<Rightarrow> bool" where
  "entry_ok v \<longleftrightarrow> length (sid (fst v)) = 16 \<and> length (nodes (snd v)) = 68"

definition order_entry_ok :: "order_id \<times> order_info option \<Rightarrow> bool" where
  "order_entry_ok v \<longleftrightarrow> length (oid (fst v)) = 16 \<and> (\<exists>i s. snd v = Some i \<and> length (oid (oi_oid i)) = 16 \<and>
     length (sid (oi_sid i)) = 16 \<and> oi_status i = Some s)"

text \<open>A file that ends within an entry is reported, wherever it ends.\<close>

lemma read_strategy_short: "length f < 92 \<Longrightarrow> fst (read_strategy f v0) = False"
  by (auto simp: read_strategy_def id_consts fread1_def Let_def)

lemma read_order_short: "length f < 52 \<Longrightarrow> fst (read_order f w0) = False"
  by (auto simp: read_order_def id_consts fread1_def Let_def)

text \<open>
  C12. Cache files. Whatever follows in the file, an entry of the strategy cache written with 92 bytes
  of room, and an entry of the order cache whose status is set with 52, is read back unchanged; an
  entry that does not fit makes the write fail, and one that is cut off, after any number of its bytes,
  makes the read fail.
\<close>

theorem cache_entry_roundtrip:
  assumes "entry_ok v" "order_entry_ok w"
  shows "(\<exists>b. write_strategy v \<lparr>w_data = d, w_room = n\<rparr> = (92 \<le> n, \<lparr>w_data = d @ take n b, w_room = n - 92\<rparr>) \<and>
            length b = 92 \<and> read_strategy (b @ rst) v0 = (True, v, rst) \<and>
            (\<forall>j < 92. fst (read_strategy (take j b) v0) = False)) \<and>
         (\<exists>b. write_order junk w \<lparr>w_data = d, w_room = n\<rparr> = Some (52 \<le> n, \<lparr>w_data = d @ take n b, w_room = n - 52\<rparr>) \<and>
            length b = 52 \<and> read_order (b @ rst) w0 = (True, w, rst) \<and>
            (\<forall>j < 52. fst (read_order (take j b) w0) = False))"
proof
  obtain s r where v: "v = (StrategyId s, r)" "length s = 16" "length (nodes r) = 68"
    using assms(1) by (cases v; cases "fst v") (auto simp: entry_ok_def)
  let ?b = "s @ le_bytes 8 (unat (num_nodes r)) @ nodes r"
  have "write_strategy v \<lparr>w_data = d, w_room = n\<rparr> = (92 \<le> n, \<lparr>w_data = d @ take n ?b, w_room = n - 92\<rparr>)"
    unfolding write_strategy_def fwrite_all_concat v by (subst fwrite1_eq [of _ 92]) (use v in simp_all)
  moreover have "read_strategy (?b @ rst) v0 = (True, v, rst)"
    using v by (simp add: read_strategy_def id_consts)
  moreover have "\<forall>j < 92. fst (read_strategy (take j ?b) v0) = False"
    by (intro allI impI read_strategy_short) simp
  ultimately show "\<exists>b. write_strategy v \<lparr>w_data = d, w_room = n\<rparr> = (92 \<le> n, \<lparr>w_data = d @ take n b, w_room = n - 92\<rparr>) \<and>
      length b = 92 \<and> read_strategy (b @ rst) v0 = (True, v, rst) \<and> (\<forall>j < 92. fst (read_strategy (take j b) v0) = False)"
    using v by (intro exI [of _ ?b]) simp
  obtain k i o' t st where w: "w = (OrderId k, Some i)" "length k = 16" "i = \<lparr>oi_sid = StrategyId t, oi_oid = OrderId o', oi_status = Some st\<rparr>"
    "length o' = 16" "length t = 16"
  proof -
    obtain i st where i: "snd w = Some i" "length (oid (oi_oid i)) = 16" "length (sid (oi_sid i)) = 16"
      "oi_status i = Some st" "length (oid (fst w)) = 16"
      using assms(2) by (auto simp: order_entry_ok_def)
    then show thesis
      by (intro that [of "oid (fst w)" i "sid (oi_sid i)" "oid (oi_oid i)" st]) (simp_all add: prod_eq_iff)
  qed
  let ?c = "k @ o' @ t @ le_bytes 4 (unat st)"
  have "write_order junk w \<lparr>w_data = d, w_room = n\<rparr> = Some (52 \<le> n, \<lparr>w_data = d @ take n ?c, w_room = n - 52\<rparr>)"
    unfolding w(1) write_order_concat by (subst fwrite1_eq [of _ 52]) (use w in simp_all)
  moreover have "read_order (?c @ rst) w0 = (True, w, rst)"
    using w by (simp add: read_order_def id_consts)
  moreover have "\<forall>j < 52. fst (read_order (take j ?c) w0) = False"
    by (intro allI impI read_order_short) simp
  ultimately show "\<exists>b. write_order junk w \<lparr>w_data = d, w_room = n\<rparr> = Some (52 \<le> n, \<lparr>w_data = d @ take n b, w_room = n - 52\<rparr>) \<and>
      length b = 52 \<and> read_order (b @ rst) w0 = (True, w, rst) \<and> (\<forall>j < 52. fst (read_order (take j b) w0) = False)"
    using w by (intro exI [of _ ?c]) simp
qed

lemma cache_entry_roundtrip_witness:
  "\<exists>b. write_strategy (StrategyId (replicate 16 CHR ''s''), new_route) \<lparr>w_data = [], w_room = 100\<rparr>
     = (True, \<lparr>w_data = take 100 b, w_room = 8\<rparr>) \<and>
   read_strategy (b @ ''rest'') (new_strategy_id, new_route) = (True, (StrategyId (replicate 16 CHR ''s''), new_route), ''rest'')"
proof -
  let ?w = "(OrderId (replicate 16 CHR ''o''), Some \<lparr>oi_sid = StrategyId (replicate 16 CHR ''s''),
    oi_oid = OrderId (replicate 16 CHR ''o''), oi_status = Some 0\<rparr>)"
  have "entry_ok (StrategyId (replicate 16 CHR ''s''), new_route)" "order_entry_ok ?w"
    by (simp_all add: entry_ok_def order_entry_ok_def new_route_def id_consts)
  from cache_entry_roundtrip [OF this, of "[]" 100 "''rest''" "(new_strategy_id, new_route)" 0 "(new_order_id, None)"]
  show ?thesis by auto
qed

end
