(* ===== verification/Gateway.thy ===== *)
theory Gateway
  imports MsgCache
begin

text \<open>
  The message processor of the order gateway, \<^verbatim>\<open>order_entry/order-fix/msg_processor.cpp\<close>: it
  learns the reply route of each strategy, hands orders to the order interface and puts the route in
  front of the messages that go back.

  A socket delivers the frames of the messages sent to it in order, each with its
  \<^verbatim>\<open>ZMQ_RCVMORE\<close> flag; a message arrives whole, but the code reads frame by frame and may read
  on into the next message. Blocking receives and sends of ZeroMQ do not fail; a receive on an empty
  socket waits (\<open>Waits\<close>). \<open>Fails\<close> is a failing \<^verbatim>\<open>assert\<close> or undefined behaviour. Frames sent to the
  inproc socket by the admin socket and by the order interface arrive there as whole messages; frames
  sent to the strategies are recorded with their \<^verbatim>\<open>ZMQ_SNDMORE\<close> flag. Each write of the
  strategy cache file is recorded with the cache it writes.
\<close>

definition ORDER_NEW :: uint32 where "ORDER_NEW = 0x01"
definition ORDER_CANCEL :: uint32 where "ORDER_CANCEL = 0x02"
definition ORDER_REPLACE :: uint32 where "ORDER_REPLACE = 0x03"
definition STRATEGY_HELO :: uint32 where "STRATEGY_HELO = 0xF0"
definition STRATEGY_HELO_ACK :: uint32 where "STRATEGY_HELO_ACK = 0xF1"
definition HEARTBEAT :: uint32 where "HEARTBEAT = 0xA0"
definition HEARTBEAT_ACK :: uint32 where "HEARTBEAT_ACK = 0xA1"
definition PING_ACK :: uint32 where "PING_ACK = 0xF3"

lemmas msg_types = ORDER_NEW_def ORDER_CANCEL_def ORDER_REPLACE_def STRATEGY_HELO_def
  STRATEGY_HELO_ACK_def HEARTBEAT_def HEARTBEAT_ACK_def

definition word_frame :: "uint32 \<Rightarrow> string" where
  "word_frame w = le_bytes 4 (unat w)"

definition frame_word :: "string \<Rightarrow> uint32" where
  "frame_word f = of_nat (le_value (take 4 f))"

type_synonym frames = "(string \<times> bool) list"

datatype 'a io = Done 'a | Waits | Fails

fun multipart :: "string list \<Rightarrow> frames" where
  "multipart [] = []"
| "multipart [f] = [(f, False)]"
| "multipart (f # g # fs) = (f, True) # multipart (g # fs)"

section \<open>State\<close>

record ('h, 'g) gateway =
  gw_in :: frames
  gw_in_more :: bool
  gw_inproc :: frames
  gw_inproc_more :: bool
  gw_out :: frames
  gw_scache :: 'h
  gw_ocache :: 'g
  gw_saved :: "'h list"
  gw_dispatched :: "(uint32 \<times> string) list"

text \<open>The libraries and the fixed data of a processor: the two hash maps and the venue id.\<close>

record ('h, 'g) gateway_env =
  ge_strategies :: "'h strategy_table"
  ge_orders :: "'g order_table"
  ge_venue :: uint32

definition new_gateway :: "('h, 'g) gateway_env \<Rightarrow> ('h, 'g) gateway" where
  "new_gateway E = \<lparr>gw_in = [], gw_in_more = False, gw_inproc = [], gw_inproc_more = False, gw_out = [],
     gw_scache = new_strategy_cache (ge_strategies E), gw_ocache = new_order_cache (ge_orders E),
     gw_saved = [], gw_dispatched = []\<rparr>"

text \<open>The constructor's checks, on the lengths of the addresses and the number of threads.\<close>

definition processor_args_ok :: "string \<Rightarrow> string \<Rightarrow> string \<Rightarrow> int \<Rightarrow> bool" where
  "processor_args_ok listen out ping threads \<longleftrightarrow>
     listen \<noteq> [] \<and> out \<noteq> [] \<and> ping \<noteq> [] \<and> 0 < threads \<and> threads < 4"

definition recv_strategy :: "('h, 'g) gateway \<Rightarrow> (string \<Rightarrow> ('h, 'g) gateway \<Rightarrow> 'b io) \<Rightarrow> 'b io" where
  "recv_strategy g k = (case gw_in g of [] \<Rightarrow> Waits
     | (f, m) # q \<Rightarrow> k f (g\<lparr>gw_in := q, gw_in_more := m\<rparr>))"

definition recv_inproc :: "('h, 'g) gateway \<Rightarrow> (string \<Rightarrow> ('h, 'g) gateway \<Rightarrow> 'b io) \<Rightarrow> 'b io" where
  "recv_inproc g k = (case gw_inproc g of [] \<Rightarrow> Waits
     | (f, m) # q \<Rightarrow> k f (g\<lparr>gw_inproc := q, gw_inproc_more := m\<rparr>))"

definition send_admin :: "string list \<Rightarrow> ('h, 'g) gateway \<Rightarrow> ('h, 'g) gateway" where
  "send_admin fs g = g\<lparr>gw_inproc := gw_inproc g @ multipart fs\<rparr>"

definition send_strategy :: "string \<Rightarrow> bool \<Rightarrow> ('h, 'g) gateway \<Rightarrow> ('h, 'g) gateway" where
  "send_strategy f m g = g\<lparr>gw_out := gw_out g @ [(f, m)]\<rparr>"

section \<open>Messages from strategies\<close>

definition snd_HEARTBEAT_ACK :: "strategy_id \<Rightarrow> ('h, 'g) gateway \<Rightarrow> ('h, 'g) gateway" where
  "snd_HEARTBEAT_ACK s = send_admin [sid s, word_frame HEARTBEAT_ACK]"

definition snd_STRATEGY_HELO_ACK :: "uint32 \<Rightarrow> strategy_id \<Rightarrow> ('h, 'g) gateway \<Rightarrow> ('h, 'g) gateway" where
  "snd_STRATEGY_HELO_ACK venue s = send_admin [sid s, word_frame STRATEGY_HELO_ACK, word_frame venue]"

text \<open>The rest of a message whose type is too short is dropped frame by frame.\<close>

fun drain :: "bool \<Rightarrow> frames \<Rightarrow> (bool \<times> frames) io" where
  "drain False q = Done (False, q)"
| "drain True [] = Waits"
| "drain True ((f, m) # q) = drain m q"

definition drain_socket :: "('h, 'g) gateway \<Rightarrow> ('h, 'g) gateway io" where
  "drain_socket g = (case drain (gw_in_more g) (gw_in g) of
     Done (m, q) \<Rightarrow> Done (g\<lparr>gw_in := q, gw_in_more := m\<rparr>) | Waits \<Rightarrow> Waits | Fails \<Rightarrow> Fails)"

definition handle_order :: "('h, 'g) gateway_env \<Rightarrow> uint32 \<Rightarrow> strategy_id \<Rightarrow> ('h, 'g) gateway \<Rightarrow> ('h, 'g) gateway io" where
  "handle_order E t s g =
     (if \<not> (t = ORDER_NEW \<or> t = ORDER_CANCEL \<or> t = ORDER_REPLACE) then Fails
      else recv_strategy g (\<lambda>oidframe g. recv_strategy g (\<lambda>data g.
        if gw_in_more g then Fails
        else let i = snd (oid_set oidframe new_order_id) in
          (case order_add (ge_orders E) i (Some (new_order_info i s)) (gw_ocache g) of
             None \<Rightarrow> Fails
           | Some oc \<Rightarrow> Done (g\<lparr>gw_ocache := oc, gw_dispatched := gw_dispatched g @ [(t, data)]\<rparr>)))))"

definition handle_helo :: "('h, 'g) gateway_env \<Rightarrow> strategy_id \<Rightarrow> route \<Rightarrow> ('h, 'g) gateway \<Rightarrow> ('h, 'g) gateway io" where
  "handle_helo E s r g = (case strategy_add (ge_strategies E) s r (gw_scache g) of
     None \<Rightarrow> Fails
   | Some sc \<Rightarrow> Done (snd_STRATEGY_HELO_ACK (ge_venue E) s (g\<lparr>gw_scache := sc, gw_saved := gw_saved g @ [sc]\<rparr>)))"

definition handleIncomingClientMessage :: "('h, 'g) gateway_env \<Rightarrow> ('h, 'g) gateway \<Rightarrow> ('h, 'g) gateway io" where
  "handleIncomingClientMessage E g = recv_strategy g (\<lambda>header g.
     case addNode_bytes (Some header) (length header) new_route of
       None \<Rightarrow> Fails
     | Some (ret, r) \<Rightarrow> if ret \<noteq> 0 then Fails
       else recv_strategy g (\<lambda>mtype g. recv_strategy g (\<lambda>sidframe g.
         if length mtype < 4 then drain_socket g
         else let t = frame_word mtype; s = snd (sid_set sidframe new_strategy_id) in
           if t = STRATEGY_HELO then handle_helo E s r g
           else if t = HEARTBEAT then Done (snd_HEARTBEAT_ACK s g)
           else handle_order E t s g)))"

section \<open>Messages to strategies\<close>

text \<open>\<^verbatim>\<open>for (i = 0; i < num_nodes; i++)\<close>; \<open>n\<close> counts the nodes left.\<close>

fun send_route :: "route \<Rightarrow> nat \<Rightarrow> uint64 \<Rightarrow> ('h, 'g) gateway \<Rightarrow> ('h, 'g) gateway io" where
  "send_route r 0 i g = Done g"
| "send_route r (Suc n) i g = (case getNode r i of
     Some (ret, Some nd) \<Rightarrow> if ret = 0
       then send_route r n (i + 1) (send_strategy (take ZMQ_ADDR_LEN (node_addr nd)) True g) else Fails
   | _ \<Rightarrow> Fails)"

text \<open>\<^verbatim>\<open>do ... while (more != 0)\<close>: the frames are relayed with their flags.\<close>

fun relay :: "frames \<Rightarrow> (frames \<times> frames) io" where
  "relay [] = Waits"
| "relay ((f, m) # q) = (if m
     then (case relay q of Done (out, rest) \<Rightarrow> Done ((f, True) # out, rest) | Waits \<Rightarrow> Waits | Fails \<Rightarrow> Fails)
     else Done ([(f, False)], q))"

definition rcv_internal :: "('h, 'g) gateway_env \<Rightarrow> ('h, 'g) gateway \<Rightarrow> ('h, 'g) gateway io" where
  "rcv_internal E g = recv_inproc g (\<lambda>sidframe g.
     let s = snd (sid_set sidframe new_strategy_id);
         r = strategy_get (ge_strategies E) s (gw_scache g);
         n = route_size r
     in if \<not> n > 0 then Fails
        else (case send_route r n 0 g of
          Done g \<Rightarrow> (case relay (gw_inproc g) of
            Done (out, rest) \<Rightarrow> Done (g\<lparr>gw_out := gw_out g @ out, gw_inproc := rest, gw_inproc_more := False\<rparr>)
          | Waits \<Rightarrow> Waits | Fails \<Rightarrow> Fails)
        | Waits \<Rightarrow> Waits | Fails \<Rightarrow> Fails))"

section \<open>The poll loop\<close>

text \<open>
  What can happen: a strategy or the order interface sends a message, or the processor polls. The
  flags of a poll say which sockets it reports; a socket is reported only when it has a message.
\<close>

datatype gw_event = FromClient "string list" | FromInterface "string list" | Poll bool bool | PollInterrupted

definition poll_once :: "('h, 'g) gateway_env \<Rightarrow> bool \<Rightarrow> bool \<Rightarrow> ('h, 'g) gateway \<Rightarrow> ('h, 'g) gateway io" where
  "poll_once E a b g = (let ra = a \<and> gw_in g \<noteq> []; rb = b \<and> gw_inproc g \<noteq> [] in
     case (if ra then handleIncomingClientMessage E g else Done g) of
       Done g \<Rightarrow> if rb then rcv_internal E g else Done g
     | Waits \<Rightarrow> Waits | Fails \<Rightarrow> Fails)"

fun gw_step :: "('h, 'g) gateway_env \<Rightarrow> gw_event \<Rightarrow> ('h, 'g) gateway \<Rightarrow> ('h, 'g) gateway io" where
  "gw_step E (FromClient fs) g = Done (g\<lparr>gw_in := gw_in g @ multipart fs\<rparr>)"
| "gw_step E (FromInterface fs) g = Done (g\<lparr>gw_inproc := gw_inproc g @ multipart fs\<rparr>)"
| "gw_step E (Poll a b) g = poll_once E a b g"
| "gw_step E PollInterrupted g = Done g"

fun gw_run :: "('h, 'g) gateway_env \<Rightarrow> gw_event list \<Rightarrow> ('h, 'g) gateway \<Rightarrow> ('h, 'g) gateway io" where
  "gw_run E [] g = Done g"
| "gw_run E (e # es) g = (case gw_step E e g of Done g' \<Rightarrow> gw_run E es g' | Waits \<Rightarrow> Waits | Fails \<Rightarrow> Fails)"

text \<open>The ping thread answers every ping with the acknowledgement, whatever the ping says.\<close>

definition ping_reply :: "string \<Rightarrow> string" where
  "ping_reply ping = word_frame PING_ACK"

end
