(* ===== verification/FixApp.thy ===== *)
theory FixApp
  imports Gateway FixFields
begin

text \<open>
  The FIX side of the order gateway, \<^verbatim>\<open>order_entry/order-fix/application.cpp\<close>: orders that
  strategies send as protobuf messages become FIX 4.2 requests (\<^verbatim>\<open>dispatch\<close>,
  \<^verbatim>\<open>newOrderSingle42\<close>, ...), and FIX reports become protobuf messages that are routed back to
  the strategy that owns the order (\<^verbatim>\<open>onMessage\<close>).

  A QuickFIX message is its type with the fields of its header and of its body, two maps from tags
  to typed values; reading a field as another type throws (\<open>Throw\<close>), a failing \<^verbatim>\<open>assert\<close> is
  \<open>Abort\<close>. A protobuf message is a record of optional fields; parsing and serialising it belong to
  the generated code and are the parameter \<open>codec\<close>. What \<^verbatim>\<open>sendToTarget\<close> returns is only
  logged, so that the state records the messages handed to it; the frames for the strategies and for
  the trade serializer are recorded message by message. Logging is not modelled.
\<close>

section \<open>Protobuf messages\<close>

datatype pb_side = PB_BID | PB_ASK

definition pb_MKT :: int where "pb_MKT = 1"
definition pb_LIM :: int where "pb_LIM = 2"
definition pb_GFD :: int where "pb_GFD = 0"
definition pb_IOC :: int where "pb_IOC = 3"
definition pb_FOK :: int where "pb_FOK = 4"

lemmas pb_codes = pb_MKT_def pb_LIM_def pb_GFD_def pb_IOC_def pb_FOK_def

record new_order_single =
  nos_cl_order_id :: "string option"
  nos_strategy_id :: "string option"
  nos_symbol :: "string option"
  nos_side :: "pb_side option"
  nos_order_qty :: "dbl option"
  nos_ord_type :: "int option"
  nos_price :: "dbl option"
  nos_time_in_force :: "int option"
  nos_account :: "string option"
  nos_venue_id :: "int option"

record order_cancel =
  oc_orig_cl_order_id :: "string option"
  oc_cl_order_id :: "string option"
  oc_strategy_id :: "string option"
  oc_symbol :: "string option"
  oc_side :: "pb_side option"
  oc_order_qty :: "dbl option"
  oc_fut_sett_date :: "string option"

record order_cancel_replace =
  ocr_orig_cl_order_id :: "string option"
  ocr_cl_order_id :: "string option"
  ocr_strategy_id :: "string option"
  ocr_handl_inst :: "int option"
  ocr_symbol :: "string option"
  ocr_side :: "pb_side option"
  ocr_order_qty :: "dbl option"
  ocr_price :: "dbl option"
  ocr_transact_time :: "string option"
  ocr_ord_type :: "int option"
  ocr_time_in_force :: "int option"

record order_status =
  os_order_id :: "string option"
  os_cl_order_id :: "string option"
  os_strategy_id :: "string option"
  os_symbol :: "string option"
  os_side :: "pb_side option"
  os_security_type :: "string option"

record order_cancel_reject =
  cr_orig_cl_order_id :: "string option"
  cr_cl_order_id :: "string option"
  cr_strategy_id :: "string option"
  cr_order_status :: "int option"
  cr_reject_reason :: "int option"
  cr_response_to :: "int option"
  cr_text :: "string option"

record execution_report =
  er_cl_order_id :: "string option"
  er_orig_cl_order_id :: "string option"
  er_exec_id :: "string option"
  er_exec_trans_type :: "int option"
  er_order_status :: "int option"
  er_exec_type :: "int option"
  er_symbol :: "string option"
  er_security_type :: "string option"
  er_side :: "pb_side option"
  er_order_qty :: "dbl option"
  er_ord_type :: "int option"
  er_price :: "dbl option"
  er_last_shares :: "dbl option"
  er_last_price :: "dbl option"
  er_leaves_qty :: "dbl option"
  er_cum_qty :: "dbl option"
  er_avg_price :: "dbl option"
  er_time_in_force :: "int option"
  er_transact_time :: "string option"
  er_exec_inst :: "string option"
  er_handl_inst :: "int option"
  er_order_reject_reason :: "int option"
  er_min_qty :: "dbl option"
  er_venue_id :: "int option"
  er_account :: "string option"
  er_exec_ref_id :: "string option"
  er_exec_restatement_reason :: "int option"

text \<open>What the accessor of an unset field returns: the empty string, zero, or the first value of
  the enumeration.\<close>

definition pb_string :: "string option \<Rightarrow> string" where
  "pb_string x = (case x of Some s \<Rightarrow> s | None \<Rightarrow> [])"

definition pb_int :: "int option \<Rightarrow> int" where
  "pb_int x = (case x of Some i \<Rightarrow> i | None \<Rightarrow> 0)"

definition pb_double :: "dbl option \<Rightarrow> dbl" where
  "pb_double x = (case x of Some d \<Rightarrow> d | None \<Rightarrow> 0)"

definition pb_side_of :: "pb_side option \<Rightarrow> pb_side" where
  "pb_side_of x = (case x of Some s \<Rightarrow> s | None \<Rightarrow> PB_BID)"

lemmas pb_defaults = pb_string_def pb_int_def pb_double_def pb_side_of_def

record codec =
  parse_new_order_single :: "string \<Rightarrow> new_order_single option"
  parse_order_cancel :: "string \<Rightarrow> order_cancel option"
  parse_order_cancel_replace :: "string \<Rightarrow> order_cancel_replace option"
  parse_order_status :: "string \<Rightarrow> order_status option"
  serialize_new_order_single :: "new_order_single \<Rightarrow> string"
  serialize_execution_report :: "execution_report \<Rightarrow> string"
  serialize_order_cancel_reject :: "order_cancel_reject \<Rightarrow> string"

section \<open>The application\<close>

record app_config =
  cfg_username :: string
  cfg_password :: string
  cfg_senderCompID :: string
  cfg_targetCompID :: string
  cfg_sendPasswordInRawDataField :: bool
  cfg_version :: int
  cfg_venue_id :: uint32

record application =
  ap_config :: app_config
  ap_resetSequence :: bool
  ap_loggedIn :: bool
  ap_loggedOut :: bool
  ap_loginCount :: uint32
  ap_appMsgCount :: uint32
  ap_account1 :: string
  ap_handlInst21 :: int
  ap_useCurrency15 :: bool
  ap_limitOrderChar40 :: char
  ap_has_processor :: bool
  ap_sent :: "fix_message list"
  ap_replies :: "string list list"
  ap_serialized :: "string list list"

text \<open>The libraries: libuuid, the generated protobuf code, the value of a default
  \<^verbatim>\<open>TransactTime\<close> and the text of a time stamp.\<close>

record fix_env =
  fe_uuid :: libuuid
  fe_codec :: codec
  fe_now :: fix_value
  fe_time_text :: "string \<Rightarrow> string"

text \<open>The constructor leaves two fields uninitialised; \<open>cur\<close> and \<open>lim0\<close> are what they hold.\<close>

definition new_application :: "bool \<Rightarrow> app_config \<Rightarrow> bool \<Rightarrow> char \<Rightarrow> application" where
  "new_application bReset config cur lim0 = \<lparr>ap_config = config, ap_resetSequence = bReset,
     ap_loggedIn = False, ap_loggedOut = False, ap_loginCount = 0, ap_appMsgCount = 0, ap_account1 = [],
     ap_handlInst21 = - 1, ap_useCurrency15 = cur, ap_limitOrderChar40 = lim0, ap_has_processor = False,
     ap_sent = [], ap_replies = [], ap_serialized = []\<rparr>"

definition setAccount1 :: "string \<Rightarrow> application \<Rightarrow> application" where
  "setAccount1 a ap = ap\<lparr>ap_account1 := a\<rparr>"

definition setHandlInst21 :: "char \<Rightarrow> application \<Rightarrow> application" where
  "setHandlInst21 c ap = ap\<lparr>ap_handlInst21 := int_of_char c\<rparr>"

definition setUseCurrency15 :: "bool \<Rightarrow> application \<Rightarrow> application" where
  "setUseCurrency15 b ap = ap\<lparr>ap_useCurrency15 := b\<rparr>"

definition setLimitOrderChar40 :: "char \<Rightarrow> application \<Rightarrow> application" where
  "setLimitOrderChar40 c ap = ap\<lparr>ap_limitOrderChar40 := c\<rparr>"

definition onLogon :: "application \<Rightarrow> application" where
  "onLogon ap = ap\<lparr>ap_loggedIn := True, ap_loggedOut := False, ap_loginCount := ap_loginCount ap + 1\<rparr>"

definition onLogout :: "application \<Rightarrow> application" where
  "onLogout ap = ap\<lparr>ap_loggedIn := False, ap_loggedOut := True\<rparr>"

text \<open>\<^verbatim>\<open>run\<close> creates the message processor and connects the sockets.\<close>

definition run_application :: "application \<Rightarrow> application" where
  "run_application ap = ap\<lparr>ap_has_processor := True\<rparr>"

section \<open>Session messages\<close>

definition toAdmin :: "application \<Rightarrow> fix_message \<Rightarrow> fix_message" where
  "toAdmin ap m = (if fm_type m = ''A'' then
     let cfg = ap_config ap; h = fm_header m;
         h = (if 0 < length (cfg_username cfg) then h(Username \<mapsto> FString (cfg_username cfg)) else h);
         h = (if cfg_sendPasswordInRawDataField cfg
              then h(RawData \<mapsto> FString (c_str (cfg_password cfg)),
                     RawDataLength \<mapsto> FInt (int (length (cfg_password cfg))))
              else if cfg_password cfg \<noteq> [] then h(Password \<mapsto> FString (cfg_password cfg)) else h);
         b = (if ap_resetSequence ap then (fm_body m)(ResetSeqNumFlag \<mapsto> FString ''Y'') else fm_body m)
     in m\<lparr>fm_header := h, fm_body := b\<rparr>
   else m)"

text \<open>The result says whether the message is sent.\<close>

definition toApp :: "bool \<Rightarrow> fix_message \<Rightarrow> bool" where
  "toApp derived m = (check_possdup m = Some ThrowsDoNotSend \<longrightarrow> derived)"

section \<open>Orders to the exchange\<close>

definition empty_fields :: fields where
  "empty_fields = (\<lambda>_. None)"

definition comp_ids :: "application \<Rightarrow> fields" where
  "comp_ids ap = [SenderCompID \<mapsto> FString (cfg_senderCompID (ap_config ap)),
     TargetCompID \<mapsto> FString (cfg_targetCompID (ap_config ap))]"

definition fix_side :: "pb_side \<Rightarrow> fix_value" where
  "fix_side s = (if s = PB_BID then FChar Side_BUY else if s = PB_ASK then FChar Side_SELL else FEmpty)"

definition fix_ord_type :: "application \<Rightarrow> int \<Rightarrow> fix_value" where
  "fix_ord_type ap t = (if t = pb_LIM then FChar (ap_limitOrderChar40 ap) else FChar (char_of_int t))"

definition sendToTarget :: "fix_message \<Rightarrow> application \<Rightarrow> application" where
  "sendToTarget m ap = ap\<lparr>ap_sent := ap_sent ap @ [m]\<rparr>"

text \<open>The text of an id, read back from its buffer as a C string.\<close>

definition id_text :: "libuuid \<Rightarrow> order_id \<Rightarrow> string" where
  "id_text L i = (case oid_c_str L True i of Some b \<Rightarrow> c_str b | None \<Rightarrow> [])"

definition send_order_to_serializer :: "codec \<Rightarrow> strategy_id \<Rightarrow> new_order_single \<Rightarrow> application \<Rightarrow> application" where
  "send_order_to_serializer C s nos ap = ap\<lparr>ap_serialized := ap_serialized ap @
     [[sid s, word_frame ORDER_NEW, serialize_new_order_single C nos]]\<rparr>"

definition EXEC_RPT :: uint32 where "EXEC_RPT = 0xB0"
definition ORDER_CANCEL_REJ :: uint32 where "ORDER_CANCEL_REJ = 0x06"
definition ORDER_STATUS :: uint32 where "ORDER_STATUS = 0x04"

definition send_report_to_serializer :: "codec \<Rightarrow> strategy_id \<Rightarrow> execution_report \<Rightarrow> application \<Rightarrow> application" where
  "send_report_to_serializer C s er ap = ap\<lparr>ap_serialized := ap_serialized ap @
     [[sid s, word_frame EXEC_RPT, serialize_execution_report C er]]\<rparr>"

definition new_order_body :: "fix_env \<Rightarrow> new_order_single \<Rightarrow> order_id \<Rightarrow> application \<Rightarrow> fields" where
  "new_order_body F nos i ap =
    (let symbol = c_str (pb_string (nos_symbol nos));
         tif = (if pb_int (nos_time_in_force nos) = pb_GFD then TimeInForce_DAY
                else if pb_int (nos_time_in_force nos) = pb_IOC then TimeInForce_IMMEDIATE_OR_CANCEL
                else if pb_int (nos_time_in_force nos) = pb_FOK then TimeInForce_FILL_OR_KILL
                else TimeInForce_DAY);
         b = empty_fields(ClOrdID \<mapsto> FString (id_text (fe_uuid F) i),
               HandlInst \<mapsto> FChar (char_of_int (ap_handlInst21 ap)), Symbol \<mapsto> FString symbol,
               Side \<mapsto> fix_side (pb_side_of (nos_side nos)), TransactTime \<mapsto> fe_now F,
               OrdType \<mapsto> fix_ord_type ap (pb_int (nos_ord_type nos)),
               OrderQty \<mapsto> FDouble (pb_double (nos_order_qty nos)), TimeInForce \<mapsto> FChar tif,
               Price \<mapsto> FDouble (pb_double (nos_price nos)));
         b = (if ap_account1 ap \<noteq> [] then b(Account \<mapsto> FString (ap_account1 ap)) else b)
     in (if ap_useCurrency15 ap then b(Currency \<mapsto> FString (c_str (take 3 symbol))) else b))"

definition newOrderSingle42 :: "fix_env \<Rightarrow> new_order_single \<Rightarrow> application \<Rightarrow> application app_result" where
  "newOrderSingle42 F nos ap =
    (let (sid_ok, s) = sid_set (pb_string (nos_strategy_id nos)) new_strategy_id;
         (order_id_ok, i) = oid_set (pb_string (nos_cl_order_id nos)) new_order_id
     in if \<not> sid_ok then Abort
        else if \<not> order_id_ok then Abort
        else Ret (send_order_to_serializer (fe_codec F) s nos
               (sendToTarget \<lparr>fm_type = ''D'', fm_header = comp_ids ap, fm_body = new_order_body F nos i ap\<rparr> ap)))"

text \<open>Fill or kill is not translated: the field is then set without a value.\<close>

definition orderCancelReplace42 :: "fix_env \<Rightarrow> order_cancel_replace \<Rightarrow> application \<Rightarrow> application app_result" where
  "orderCancelReplace42 F ocr ap =
    (let (orig_ok, oi) = oid_set (pb_string (ocr_orig_cl_order_id ocr)) new_order_id;
         (cl_ok, ci) = oid_set (pb_string (ocr_cl_order_id ocr)) new_order_id
     in if \<not> orig_ok then Abort
        else if \<not> cl_ok then Abort
        else
          let tif = (if pb_int (ocr_time_in_force ocr) = pb_GFD then FChar TimeInForce_DAY
                     else if pb_int (ocr_time_in_force ocr) = pb_IOC then FChar TimeInForce_IMMEDIATE_OR_CANCEL
                     else FEmpty);
              b = empty_fields(OrigClOrdID \<mapsto> FString (id_text (fe_uuid F) oi),
                    ClOrdID \<mapsto> FString (id_text (fe_uuid F) ci),
                    HandlInst \<mapsto> FChar (char_of_int (ap_handlInst21 ap)),
                    Symbol \<mapsto> FString (c_str (pb_string (ocr_symbol ocr))),
                    Side \<mapsto> fix_side (pb_side_of (ocr_side ocr)), TransactTime \<mapsto> fe_now F,
                    OrdType \<mapsto> fix_ord_type ap (pb_int (ocr_ord_type ocr)), TimeInForce \<mapsto> tif,
                    OrderQty \<mapsto> FDouble (pb_double (ocr_order_qty ocr)),
                    Price \<mapsto> FDouble (pb_double (ocr_price ocr)))
          in Ret (sendToTarget \<lparr>fm_type = ''G'', fm_header = comp_ids ap, fm_body = b\<rparr> ap))"

text \<open>Here the results of \<^verbatim>\<open>set\<close> are ignored: an id of a wrong length stays zero.\<close>

definition orderCancel42 :: "fix_env \<Rightarrow> order_cancel \<Rightarrow> application \<Rightarrow> application app_result" where
  "orderCancel42 F oc ap =
    (let oi = snd (oid_set (pb_string (oc_orig_cl_order_id oc)) new_order_id);
         ci = snd (oid_set (pb_string (oc_cl_order_id oc)) new_order_id);
         b = empty_fields(OrigClOrdID \<mapsto> FString (id_text (fe_uuid F) oi),
               ClOrdID \<mapsto> FString (id_text (fe_uuid F) ci),
               Symbol \<mapsto> FString (c_str (pb_string (oc_symbol oc))),
               Side \<mapsto> fix_side (pb_side_of (oc_side oc)), TransactTime \<mapsto> fe_now F,
               OrderQty \<mapsto> FDouble (pb_double (oc_order_qty oc)))
     in Ret (sendToTarget \<lparr>fm_type = ''F'', fm_header = comp_ids ap, fm_body = b\<rparr> ap))"

definition orderStatus42 :: "fix_env \<Rightarrow> order_status \<Rightarrow> application \<Rightarrow> application app_result" where
  "orderStatus42 F os ap =
    (let oi = snd (oid_set (pb_string (os_order_id os)) new_order_id);
         ci = snd (oid_set (pb_string (os_cl_order_id os)) new_order_id);
         b = empty_fields(ClOrdID \<mapsto> FString (id_text (fe_uuid F) ci),
               Symbol \<mapsto> FString (c_str (pb_string (os_symbol os))),
               Side \<mapsto> fix_side (pb_side_of (os_side os)),
               OrderID \<mapsto> FString (id_text (fe_uuid F) oi))
     in Ret (sendToTarget \<lparr>fm_type = ''H'', fm_header = comp_ids ap, fm_body = b\<rparr> ap))"

text \<open>The cases of \<^verbatim>\<open>dispatch\<close>, from the last: a message that does not parse as a status
  request ends the switch, one that does not parse as a cancel or a replace falls through to the next
  case, because \<^verbatim>\<open>break\<close> stands in the branch of the success.\<close>

definition dispatch_status :: "fix_env \<Rightarrow> string \<Rightarrow> application \<Rightarrow> application app_result" where
  "dispatch_status F data ap = (case parse_order_status (fe_codec F) data of
     None \<Rightarrow> Ret ap
   | Some os \<Rightarrow> if cfg_version (ap_config ap) = 42 then orderStatus42 F os ap else Ret ap)"

definition dispatch_replace :: "fix_env \<Rightarrow> string \<Rightarrow> application \<Rightarrow> application app_result" where
  "dispatch_replace F data ap = (case parse_order_cancel_replace (fe_codec F) data of
     None \<Rightarrow> dispatch_status F data ap
   | Some ocr \<Rightarrow> if cfg_version (ap_config ap) = 42 then orderCancelReplace42 F ocr ap else Ret ap)"

definition dispatch_cancel :: "fix_env \<Rightarrow> string \<Rightarrow> application \<Rightarrow> application app_result" where
  "dispatch_cancel F data ap = (case parse_order_cancel (fe_codec F) data of
     None \<Rightarrow> dispatch_replace F data ap
   | Some oc \<Rightarrow> if cfg_version (ap_config ap) = 42 then orderCancel42 F oc ap else Ret ap)"

definition dispatch_new :: "fix_env \<Rightarrow> string \<Rightarrow> application \<Rightarrow> application app_result" where
  "dispatch_new F data ap = (case parse_new_order_single (fe_codec F) data of
     None \<Rightarrow> Ret ap
   | Some nos \<Rightarrow> if cfg_version (ap_config ap) = 42 then newOrderSingle42 F nos ap else Ret ap)"

definition dispatch :: "fix_env \<Rightarrow> uint32 \<Rightarrow> string \<Rightarrow> application \<Rightarrow> application app_result" where
  "dispatch F msgType data ap =
     (if msgType = ORDER_NEW then dispatch_new F data ap
      else if msgType = ORDER_CANCEL then dispatch_cancel F data ap
      else if msgType = ORDER_REPLACE then dispatch_replace F data ap
      else if msgType = ORDER_STATUS then dispatch_status F data ap
      else Ret ap)"

section \<open>Reports from the exchange\<close>

text \<open>The handlers are sequences of guarded copies: a step that finds its field set reads it as the
  type of its FIX field and stores it; a value of another type throws.\<close>

fun run_steps :: "('a \<Rightarrow> 'a app_result) list \<Rightarrow> 'a \<Rightarrow> 'a app_result" where
  "run_steps [] a = Ret a"
| "run_steps (f # fs) a = (case f a of Ret b \<Rightarrow> run_steps fs b | Throw \<Rightarrow> Throw | Abort \<Rightarrow> Abort)"

definition on_string :: "fields \<Rightarrow> fix_tag \<Rightarrow> (string \<Rightarrow> 'a \<Rightarrow> 'a) \<Rightarrow> 'a \<Rightarrow> 'a app_result" where
  "on_string m t k a = (case m t of None \<Rightarrow> Ret a | Some (FString x) \<Rightarrow> Ret (k x a) | Some _ \<Rightarrow> Throw)"

definition on_char :: "fields \<Rightarrow> fix_tag \<Rightarrow> (char \<Rightarrow> 'a \<Rightarrow> 'a) \<Rightarrow> 'a \<Rightarrow> 'a app_result" where
  "on_char m t k a = (case m t of None \<Rightarrow> Ret a | Some (FChar x) \<Rightarrow> Ret (k x a) | Some _ \<Rightarrow> Throw)"

definition on_int :: "fields \<Rightarrow> fix_tag \<Rightarrow> (int \<Rightarrow> 'a \<Rightarrow> 'a) \<Rightarrow> 'a \<Rightarrow> 'a app_result" where
  "on_int m t k a = (case m t of None \<Rightarrow> Ret a | Some (FInt x) \<Rightarrow> Ret (k x a) | Some _ \<Rightarrow> Throw)"

definition on_double :: "fields \<Rightarrow> fix_tag \<Rightarrow> (dbl \<Rightarrow> 'a \<Rightarrow> 'a) \<Rightarrow> 'a \<Rightarrow> 'a app_result" where
  "on_double m t k a = (case m t of None \<Rightarrow> Ret a | Some (FDouble x) \<Rightarrow> Ret (k x a) | Some _ \<Rightarrow> Throw)"

definition on_time :: "fields \<Rightarrow> fix_tag \<Rightarrow> (string \<Rightarrow> 'a \<Rightarrow> 'a) \<Rightarrow> 'a \<Rightarrow> 'a app_result" where
  "on_time m t k a = (case m t of None \<Rightarrow> Ret a | Some (FTime x) \<Rightarrow> Ret (k x a) | Some _ \<Rightarrow> Throw)"

definition empty_report :: execution_report where
  "empty_report = \<lparr>er_cl_order_id = None, er_orig_cl_order_id = None, er_exec_id = None,
     er_exec_trans_type = None, er_order_status = None, er_exec_type = None, er_symbol = None,
     er_security_type = None, er_side = None, er_order_qty = None, er_ord_type = None,
     er_price = None, er_last_shares = None, er_last_price = None, er_leaves_qty = None,
     er_cum_qty = None, er_avg_price = None, er_time_in_force = None, er_transact_time = None,
     er_exec_inst = None, er_handl_inst = None, er_order_reject_reason = None, er_min_qty = None,
     er_venue_id = None, er_account = None, er_exec_ref_id = None, er_exec_restatement_reason = None\<rparr>"

text \<open>The side and the time in force are translated where a translation exists, and left alone
  otherwise.\<close>

definition report_side :: "char \<Rightarrow> execution_report \<Rightarrow> execution_report" where
  "report_side c er =
    (let er = (if c = Side_BUY then er\<lparr>er_side := Some PB_BID\<rparr> else er)
     in if c = Side_SELL then er\<lparr>er_side := Some PB_ASK\<rparr> else er)"

definition report_time_in_force :: "char \<Rightarrow> execution_report \<Rightarrow> execution_report" where
  "report_time_in_force c er =
    (let er = (if c = TimeInForce_DAY then er\<lparr>er_time_in_force := Some pb_GFD\<rparr> else er);
         er = (if c = TimeInForce_FILL_OR_KILL then er\<lparr>er_time_in_force := Some pb_FOK\<rparr> else er)
     in if c = TimeInForce_IMMEDIATE_OR_CANCEL then er\<lparr>er_time_in_force := Some pb_IOC\<rparr> else er)"

text \<open>The order id must parse; the result of reading the original id is ignored, and the zero id
  is then forwarded.  The id read is also kept for the lookup of the strategy.\<close>

definition report_order_id :: "libuuid \<Rightarrow> fields \<Rightarrow> order_id \<times> execution_report
    \<Rightarrow> (order_id \<times> execution_report) app_result" where
  "report_order_id L m = (\<lambda>(cloid, er). case m ClOrdID of
     None \<Rightarrow> Ret (cloid, er)
   | Some (FString x) \<Rightarrow> (case oid_parse L x cloid of (ret, i) \<Rightarrow>
       if ret = 0 then Ret (i, er\<lparr>er_cl_order_id := Some (oid i)\<rparr>) else Abort)
   | Some _ \<Rightarrow> Throw)"

definition report_steps :: "fix_env \<Rightarrow> fields \<Rightarrow> (execution_report \<Rightarrow> execution_report app_result) list" where
  "report_steps F m = [
     on_string m OrigClOrdID (\<lambda>x er. er\<lparr>er_orig_cl_order_id := Some (oid (snd (oid_parse (fe_uuid F) x new_order_id)))\<rparr>),
     on_string m ExecID (\<lambda>x er. er\<lparr>er_exec_id := Some x\<rparr>),
     on_char m ExecTransType (\<lambda>x er. er\<lparr>er_exec_trans_type := Some (int_of_char x)\<rparr>),
     on_char m OrdStatus (\<lambda>x er. er\<lparr>er_order_status := Some (int_of_char x)\<rparr>),
     on_char m ExecType (\<lambda>x er. er\<lparr>er_exec_type := Some (int_of_char x)\<rparr>),
     on_string m Symbol (\<lambda>x er. er\<lparr>er_symbol := Some x\<rparr>),
     on_string m SecurityType (\<lambda>x er. er\<lparr>er_security_type := Some x\<rparr>),
     on_char m Side report_side,
     on_double m OrderQty (\<lambda>x er. er\<lparr>er_order_qty := Some x\<rparr>),
     on_char m OrdType (\<lambda>x er. er\<lparr>er_ord_type := Some (int_of_char x)\<rparr>),
     on_double m Price (\<lambda>x er. er\<lparr>er_price := Some x\<rparr>),
     on_double m LastShares (\<lambda>x er. er\<lparr>er_last_shares := Some x\<rparr>),
     on_double m LastPx (\<lambda>x er. er\<lparr>er_last_price := Some x\<rparr>),
     on_double m LeavesQty (\<lambda>x er. er\<lparr>er_leaves_qty := Some x\<rparr>),
     on_double m CumQty (\<lambda>x er. er\<lparr>er_cum_qty := Some x\<rparr>),
     on_double m AvgPx (\<lambda>x er. er\<lparr>er_avg_price := Some x\<rparr>),
     on_char m TimeInForce report_time_in_force,
     on_time m TransactTime (\<lambda>x er. er\<lparr>er_transact_time := Some (fe_time_text F x)\<rparr>),
     on_string m ExecInst (\<lambda>x er. er\<lparr>er_exec_inst := Some x\<rparr>),
     on_char m HandlInst (\<lambda>x er. er\<lparr>er_handl_inst := Some (int_of_char x)\<rparr>),
     on_int m OrdRejReason (\<lambda>x er. er\<lparr>er_order_reject_reason := Some x\<rparr>),
     on_double m MinQty (\<lambda>x er. er\<lparr>er_min_qty := Some x\<rparr>),
     on_string m Account (\<lambda>x er. er\<lparr>er_account := Some x\<rparr>),
     on_string m ExecRefID (\<lambda>x er. er\<lparr>er_exec_ref_id := Some x\<rparr>),
     on_int m ExecRestatementReason (\<lambda>x er. er\<lparr>er_exec_restatement_reason := Some x\<rparr>)]"

text \<open>The report of a message, with the order id it is for (zero when it has none).\<close>

definition report_of :: "fix_env \<Rightarrow> application \<Rightarrow> fields \<Rightarrow> (order_id \<times> execution_report) app_result" where
  "report_of F ap m = (case report_order_id (fe_uuid F) m (new_order_id, empty_report) of
     Ret (cloid, er) \<Rightarrow> (case run_steps (report_steps F m) er of
       Ret er \<Rightarrow> Ret (cloid, er\<lparr>er_venue_id := Some (sint (cfg_venue_id (ap_config ap)))\<rparr>)
     | Throw \<Rightarrow> Throw | Abort \<Rightarrow> Abort)
   | Throw \<Rightarrow> Throw | Abort \<Rightarrow> Abort)"

text \<open>The strategy an order belongs to, by the order cache of the message processor: the zero id
  when the cache does not know the order, which is only logged.\<close>

definition strategy_of_order :: "'g order_table \<Rightarrow> order_id \<Rightarrow> 'g \<Rightarrow> strategy_id" where
  "strategy_of_order D i oc = (case order_get D i oc of Some info \<Rightarrow> oi_sid info | None \<Rightarrow> new_strategy_id)"

definition reply_to_strategy :: "strategy_id \<Rightarrow> uint32 \<Rightarrow> string \<Rightarrow> application \<Rightarrow> application" where
  "reply_to_strategy s t data ap = ap\<lparr>ap_replies := ap_replies ap @ [[sid s, word_frame t, data]]\<rparr>"

definition onMessage_ExecutionReport42 ::
  "fix_env \<Rightarrow> 'g order_table \<Rightarrow> 'g \<Rightarrow> fields \<Rightarrow> application \<Rightarrow> application app_result" where
  "onMessage_ExecutionReport42 F D oc m ap = (case report_of F ap m of
     Ret (cloid, er) \<Rightarrow>
       (if ap_has_processor ap
        then let s = strategy_of_order D cloid oc;
                 ap = reply_to_strategy s EXEC_RPT (serialize_execution_report (fe_codec F) er) ap
             in Ret (send_report_to_serializer (fe_codec F) s er ap)
        else Ret ap)
   | Throw \<Rightarrow> Throw | Abort \<Rightarrow> Abort)"

definition empty_cancel_reject :: order_cancel_reject where
  "empty_cancel_reject = \<lparr>cr_orig_cl_order_id = None, cr_cl_order_id = None, cr_strategy_id = None,
     cr_order_status = None, cr_reject_reason = None, cr_response_to = None, cr_text = None\<rparr>"

text \<open>A text id of a rejected cancel, which must parse.\<close>

definition reject_id :: "libuuid \<Rightarrow> fields \<Rightarrow> fix_tag \<Rightarrow> order_id option app_result" where
  "reject_id L m t = (case m t of None \<Rightarrow> Ret None
   | Some (FString x) \<Rightarrow> (case oid_parse L x new_order_id of (ret, i) \<Rightarrow> if ret = 0 then Ret (Some i) else Abort)
   | Some _ \<Rightarrow> Throw)"

definition reject_steps :: "fields \<Rightarrow> (order_cancel_reject \<Rightarrow> order_cancel_reject app_result) list" where
  "reject_steps m = [
     on_char m OrdStatus (\<lambda>x cr. cr\<lparr>cr_order_status := Some (int_of_char x)\<rparr>),
     on_int m CxlRejReason (\<lambda>x cr. cr\<lparr>cr_reject_reason := Some x\<rparr>),
     on_char m CxlRejResponseTo (\<lambda>x cr. cr\<lparr>cr_response_to := Some (int_of_char x)\<rparr>),
     on_string m Text (\<lambda>x cr. cr\<lparr>cr_text := Some x\<rparr>)]"

definition onMessage_OrderCancelReject42 ::
  "fix_env \<Rightarrow> 'g order_table \<Rightarrow> 'g \<Rightarrow> fields \<Rightarrow> application \<Rightarrow> application app_result" where
  "onMessage_OrderCancelReject42 F D oc m ap = (case reject_id (fe_uuid F) m OrigClOrdID of
     Ret orig \<Rightarrow> (case reject_id (fe_uuid F) m ClOrdID of
       Ret cl \<Rightarrow> (case run_steps (reject_steps m) (empty_cancel_reject\<lparr>
             cr_orig_cl_order_id := map_option oid orig, cr_cl_order_id := map_option oid cl\<rparr>) of
         Ret cr \<Rightarrow>
           (if ap_has_processor ap
            then let cloid = (case cl of Some i \<Rightarrow> i | None \<Rightarrow> new_order_id);
                     s = strategy_of_order D cloid oc
                 in Ret (reply_to_strategy s ORDER_CANCEL_REJ (serialize_order_cancel_reject (fe_codec F) cr) ap)
            else Ret ap)
       | Throw \<Rightarrow> Throw | Abort \<Rightarrow> Abort)
     | Throw \<Rightarrow> Throw | Abort \<Rightarrow> Abort)
   | Throw \<Rightarrow> Throw | Abort \<Rightarrow> Abort)"

definition handle_business_message_reject :: "fields \<Rightarrow> application \<Rightarrow> application app_result" where
  "handle_business_message_reject m ap =
     (if m RefMsgType = None \<or> m BusinessRejectReason = None then Throw else Ret ap)"

text \<open>The status of a trading session is logged; it is read even when it is not set, which throws.\<close>

definition handle_session_status :: "fields \<Rightarrow> application \<Rightarrow> application app_result" where
  "handle_session_status m ap = (case m 340 of Some (FInt st) \<Rightarrow> Ret ap | _ \<Rightarrow> Throw)"

text \<open>What \<^verbatim>\<open>crack\<close> calls for a message, by its version and type: only the FIX 4.2 reports do
  something, the handlers of the other versions are empty. A message without a handler is refused by
  QuickFIX's cracker, with an exception.\<close>

datatype app_message =
    ExecutionReport nat fields
  | OrderCancelReject nat fields
  | BusinessMessageReject nat fields
  | SessionStatus nat fields
  | ListStatus nat
  | OtherMessage

fun message_version :: "app_message \<Rightarrow> nat" where
  "message_version (ExecutionReport v m) = v"
| "message_version (OrderCancelReject v m) = v"
| "message_version (BusinessMessageReject v m) = v"
| "message_version (SessionStatus v m) = v"
| "message_version (ListStatus v) = v"
| "message_version OtherMessage = 0"

fun app_handles :: "app_message \<Rightarrow> bool" where
  "app_handles (ListStatus v) = (v = 42)"
| "app_handles msg = (message_version msg \<in> {42, 43, 44, 50})"

definition fromApp ::
  "fix_env \<Rightarrow> 'g order_table \<Rightarrow> 'g \<Rightarrow> app_message \<Rightarrow> application \<Rightarrow> application app_result" where
  "fromApp F D oc msg ap =
    (let ap = ap\<lparr>ap_appMsgCount := ap_appMsgCount ap + 1\<rparr> in
     if \<not> app_handles msg then Throw
     else case msg of
       ExecutionReport v m \<Rightarrow> if v = 42 then onMessage_ExecutionReport42 F D oc m ap else Ret ap
     | OrderCancelReject v m \<Rightarrow> if v = 42 then onMessage_OrderCancelReject42 F D oc m ap else Ret ap
     | BusinessMessageReject v m \<Rightarrow> handle_business_message_reject m ap
     | SessionStatus v m \<Rightarrow> handle_session_status m ap
     | ListStatus v \<Rightarrow> Ret ap
     | OtherMessage \<Rightarrow> Ret ap)"

text \<open>Heartbeats, logons and logouts are only logged; so are the other administrative messages,
  for which QuickFIX's own handlers do nothing.\<close>

definition fromAdmin :: "fix_message \<Rightarrow> application \<Rightarrow> application" where
  "fromAdmin m ap = ap"

end
