(* ===== verification/TradeSerializer.thy ===== *)
theory TradeSerializer
  imports FixApp TimeUtils
begin

text \<open>
  The trade serializer, \<^verbatim>\<open>trade_serializer/trade_serializer.cpp\<close>: it receives the orders and reports
  the order gateway sends it (\<open>ap_serialized\<close> of \<open>FixApp\<close>) and records them in the tables
  \<^verbatim>\<open>order_state\<close> and \<^verbatim>\<open>trades\<close> of \<^verbatim>\<open>schema.sql\<close>.

  The database is a parameter: each statement may fail when it is prepared or when it is executed and
  committed, both by an exception the code catches, or it yields the new database and a row count,
  which is only logged. The protobuf parsers and libuuid are parameters too. \<open>None\<close> is a failing
  assertion or undefined behaviour. The recovery listener is compiled out (\<^verbatim>\<open>#if 0\<close>); connecting to the
  database and logging are not modelled.
\<close>

section \<open>Status codes\<close>

definition ORD_STATUS_NEW :: int where "ORD_STATUS_NEW = 0x30"
definition ORD_STATUS_PARTIAL_FILL :: int where "ORD_STATUS_PARTIAL_FILL = 0x31"
definition ORD_STATUS_FILL :: int where "ORD_STATUS_FILL = 0x32"
definition ORD_STATUS_CANCELLED :: int where "ORD_STATUS_CANCELLED = 0x34"
definition ORD_STATUS_REPLACE :: int where "ORD_STATUS_REPLACE = 0x35"
definition ORD_STATUS_PENDING_CANCEL :: int where "ORD_STATUS_PENDING_CANCEL = 0x36"
definition ORD_STATUS_REJECTED :: int where "ORD_STATUS_REJECTED = 0x38"
definition ORD_STATUS_PENDING_NEW :: int where "ORD_STATUS_PENDING_NEW = 0x41"
definition ORD_STATUS_PENDING_REPLACE :: int where "ORD_STATUS_PENDING_REPLACE = 0x45"

lemmas ord_status_codes = ORD_STATUS_NEW_def ORD_STATUS_PARTIAL_FILL_def ORD_STATUS_FILL_def
  ORD_STATUS_CANCELLED_def ORD_STATUS_REPLACE_def ORD_STATUS_PENDING_CANCEL_def ORD_STATUS_REJECTED_def
  ORD_STATUS_PENDING_NEW_def ORD_STATUS_PENDING_REPLACE_def

section \<open>Tables\<close>

record order_row =
  or_strategy_id :: string
  or_cl_order_id :: string
  or_orig_cl_order_id :: "string option"
  or_order_status :: int
  or_symbol :: string
  or_side :: int
  or_order_qty :: dbl
  or_ord_type :: int
  or_price :: dbl
  or_time_in_force :: int
  or_venue_id :: int
  or_account :: string
  or_current_time_timespec :: int

record trade_row =
  tr_strategy_id :: string
  tr_cl_order_id :: string
  tr_orig_cl_order_id :: string
  tr_exec_id :: string
  tr_exec_trans_type :: int
  tr_order_status :: int
  tr_exec_type :: int
  tr_symbol :: string
  tr_security_type :: string
  tr_side :: int
  tr_order_qty :: dbl
  tr_ord_type :: int
  tr_price :: dbl
  tr_last_shares :: dbl
  tr_last_price :: dbl
  tr_leaves_qty :: dbl
  tr_cum_qty :: dbl
  tr_avg_price :: dbl
  tr_time_in_force :: int
  tr_transact_time :: string
  tr_exec_inst :: string
  tr_handl_inst :: int
  tr_order_reject_reason :: int
  tr_min_qty :: dbl
  tr_current_time_timespec :: int
  tr_venue_id :: int
  tr_account :: string

text \<open>An exception may leave work that is not committed in the connection.\<close>

datatype 'd sql_result = Throws 'd | Updates 'd int

datatype sql_statement = InsertTrade | InsertOrder_er | InsertOrder_nos | UpdateOrderStatus

record 'd sql =
  sql_prepares :: "sql_statement \<Rightarrow> 'd \<Rightarrow> bool"
  sql_insert_order :: "order_row \<Rightarrow> 'd \<Rightarrow> 'd sql_result"
  sql_insert_trade :: "trade_row \<Rightarrow> 'd \<Rightarrow> 'd sql_result"
  sql_set_status :: "int \<Rightarrow> string \<Rightarrow> string \<Rightarrow> 'd \<Rightarrow> 'd sql_result"

record 'd ts_env =
  te_uuid :: libuuid
  te_parse_order :: "string \<Rightarrow> new_order_single option"
  te_parse_report :: "string \<Rightarrow> execution_report option"
  te_sql :: "'d sql"
  te_clock :: "nat \<Rightarrow> timespec"

text \<open>The strategy id is declared outside the loop and outlives a message.\<close>

record 'd serializer =
  ts_sid :: strategy_id
  ts_db :: 'd
  ts_clock :: nat

section \<open>Statements\<close>

definition sid_text :: "libuuid \<Rightarrow> strategy_id \<Rightarrow> string" where
  "sid_text L s = (case sid_c_str L True s of Some b \<Rightarrow> c_str b | None \<Rightarrow> [])"

text \<open>An order id read from a message; one of another length stays zero.\<close>

definition read_order_id :: "string option \<Rightarrow> order_id" where
  "read_order_id x = snd (oid_set (pb_string x) new_order_id)"

definition side_int :: "pb_side option \<Rightarrow> int" where
  "side_int s = (case pb_side_of s of PB_BID \<Rightarrow> 1 | PB_ASK \<Rightarrow> 2)"

text \<open>A cast to \<^verbatim>\<open>char\<close>, passed on as \<^verbatim>\<open>int\<close>.\<close>

definition via_char :: "int \<Rightarrow> int" where
  "via_char i = int_of_char (char_of_int i)"

text \<open>The time of a row in nanoseconds; \<open>None\<close> is the overflow of the conversion.\<close>

definition row_time :: "'d ts_env \<Rightarrow> nat \<Rightarrow> int option" where
  "row_time E n = (case timespec2int64_t (Some (te_clock E n)) True of
     Some (_, Some v) \<Rightarrow> Some v | _ \<Rightarrow> None)"

definition order_of_nos :: "libuuid \<Rightarrow> strategy_id \<Rightarrow> new_order_single \<Rightarrow> int \<Rightarrow> order_row" where
  "order_of_nos L s nos t = \<lparr>or_strategy_id = sid_text L s,
     or_cl_order_id = id_text L (read_order_id (nos_cl_order_id nos)), or_orig_cl_order_id = None,
     or_order_status = ORD_STATUS_NEW, or_symbol = c_str (pb_string (nos_symbol nos)), or_side = side_int (nos_side nos),
     or_order_qty = pb_double (nos_order_qty nos), or_ord_type = pb_int (nos_ord_type nos),
     or_price = pb_double (nos_price nos), or_time_in_force = pb_int (nos_time_in_force nos),
     or_venue_id = pb_int (nos_venue_id nos), or_account = c_str (pb_string (nos_account nos)),
     or_current_time_timespec = t\<rparr>"

definition order_of_er :: "libuuid \<Rightarrow> strategy_id \<Rightarrow> execution_report \<Rightarrow> int \<Rightarrow> order_row" where
  "order_of_er L s er t = \<lparr>or_strategy_id = sid_text L s,
     or_cl_order_id = id_text L (read_order_id (er_cl_order_id er)),
     or_orig_cl_order_id = Some (id_text L (read_order_id (er_orig_cl_order_id er))),
     or_order_status = ORD_STATUS_NEW, or_symbol = c_str (pb_string (er_symbol er)), or_side = side_int (er_side er),
     or_order_qty = pb_double (er_order_qty er), or_ord_type = pb_int (er_ord_type er),
     or_price = pb_double (er_price er), or_time_in_force = pb_int (er_time_in_force er),
     or_venue_id = pb_int (er_venue_id er), or_account = c_str (pb_string (er_account er)),
     or_current_time_timespec = t\<rparr>"

definition trade_of_er :: "libuuid \<Rightarrow> strategy_id \<Rightarrow> execution_report \<Rightarrow> int \<Rightarrow> trade_row" where
  "trade_of_er L s er t = \<lparr>tr_strategy_id = sid_text L s,
     tr_cl_order_id = id_text L (read_order_id (er_cl_order_id er)),
     tr_orig_cl_order_id = id_text L (read_order_id (er_orig_cl_order_id er)),
     tr_exec_id = c_str (pb_string (er_exec_id er)), tr_exec_trans_type = via_char (pb_int (er_exec_trans_type er)),
     tr_order_status = via_char (pb_int (er_order_status er)), tr_exec_type = via_char (pb_int (er_exec_type er)),
     tr_symbol = c_str (pb_string (er_symbol er)), tr_security_type = c_str (pb_string (er_security_type er)),
     tr_side = side_int (er_side er), tr_order_qty = pb_double (er_order_qty er), tr_ord_type = pb_int (er_ord_type er),
     tr_price = pb_double (er_price er), tr_last_shares = pb_double (er_last_shares er),
     tr_last_price = pb_double (er_last_price er), tr_leaves_qty = pb_double (er_leaves_qty er),
     tr_cum_qty = pb_double (er_cum_qty er), tr_avg_price = pb_double (er_avg_price er),
     tr_time_in_force = pb_int (er_time_in_force er), tr_transact_time = c_str (pb_string (er_transact_time er)),
     tr_exec_inst = c_str (pb_string (er_exec_inst er)), tr_handl_inst = pb_int (er_handl_inst er),
     tr_order_reject_reason = pb_int (er_order_reject_reason er), tr_min_qty = pb_double (er_min_qty er),
     tr_current_time_timespec = t, tr_venue_id = pb_int (er_venue_id er), tr_account = c_str (pb_string (er_account er))\<rparr>"

definition after_sql :: "'d sql_result \<Rightarrow> 'd" where
  "after_sql r = (case r of Throws d \<Rightarrow> d | Updates d _ \<Rightarrow> d)"

text \<open>The three inserts: an exception is caught, the clock is read once the statement is prepared.\<close>

definition run_insert :: "'d ts_env \<Rightarrow> sql_statement \<Rightarrow> (int \<Rightarrow> 'd \<Rightarrow> 'd sql_result) \<Rightarrow> 'd serializer \<Rightarrow> 'd serializer option" where
  "run_insert E q exec st = (if \<not> sql_prepares (te_sql E) q (ts_db st) then Some st
     else do {
       t \<leftarrow> row_time E (ts_clock st);
       Some (st\<lparr>ts_clock := ts_clock st + 1, ts_db := after_sql (exec t (ts_db st))\<rparr>) })"

definition insertTrade :: "'d ts_env \<Rightarrow> execution_report \<Rightarrow> 'd serializer \<Rightarrow> 'd serializer option" where
  "insertTrade E er st = run_insert E InsertTrade
     (\<lambda>t. sql_insert_trade (te_sql E) (trade_of_er (te_uuid E) (ts_sid st) er t)) st"

definition insertOrder_er :: "'d ts_env \<Rightarrow> execution_report \<Rightarrow> 'd serializer \<Rightarrow> 'd serializer option" where
  "insertOrder_er E er st = run_insert E InsertOrder_er
     (\<lambda>t. sql_insert_order (te_sql E) (order_of_er (te_uuid E) (ts_sid st) er t)) st"

definition insertOrder_nos :: "'d ts_env \<Rightarrow> new_order_single \<Rightarrow> 'd serializer \<Rightarrow> 'd serializer option" where
  "insertOrder_nos E nos st = run_insert E InsertOrder_nos
     (\<lambda>t. sql_insert_order (te_sql E) (order_of_nos (te_uuid E) (ts_sid st) nos t)) st"

text \<open>Here the statement pointer is not initialised: when preparing throws, a wild pointer is
  deleted.\<close>

definition setOrderStatus :: "'d ts_env \<Rightarrow> order_id \<Rightarrow> int \<Rightarrow> 'd serializer \<Rightarrow> 'd serializer option" where
  "setOrderStatus E i s st = (if \<not> sql_prepares (te_sql E) UpdateOrderStatus (ts_db st) then None
     else Some (st\<lparr>ts_db := after_sql (sql_set_status (te_sql E) s (sid_text (te_uuid E) (ts_sid st))
            (id_text (te_uuid E) i) (ts_db st))\<rparr>))"

definition updateOrder :: "'d ts_env \<Rightarrow> execution_report \<Rightarrow> 'd serializer \<Rightarrow> 'd serializer option" where
  "updateOrder E er st =
    (let cl = read_order_id (er_cl_order_id er);
         orig = (case er_orig_cl_order_id er of Some _ \<Rightarrow> read_order_id (er_orig_cl_order_id er) | None \<Rightarrow> new_order_id);
         s = pb_int (er_order_status er)
     in if s = ORD_STATUS_NEW \<or> s = ORD_STATUS_PENDING_CANCEL \<or> s = ORD_STATUS_PENDING_REPLACE \<or> s = ORD_STATUS_PENDING_NEW
        then Some st
        else if s = ORD_STATUS_REPLACE then do {
          st \<leftarrow> insertOrder_er E er st;
          setOrderStatus E orig ORD_STATUS_CANCELLED st }
        else if s = ORD_STATUS_CANCELLED \<or> s = ORD_STATUS_REJECTED then setOrderStatus E orig s st
        else if s = ORD_STATUS_FILL \<or> s = ORD_STATUS_PARTIAL_FILL then do {
          st \<leftarrow> (if s = ORD_STATUS_FILL then setOrderStatus E cl s st else Some st);
          insertTrade E er st }
        else Some st)"

section \<open>The loop\<close>

text \<open>One round reads a strategy id, a message type and a body. A strategy id of another length than
  16 leaves the id of the message before; the type is read through a cast pointer.\<close>

definition handle_order_message :: "'d ts_env \<Rightarrow> string \<Rightarrow> string \<Rightarrow> string \<Rightarrow> 'd serializer \<Rightarrow> 'd serializer option" where
  "handle_order_message E f_sid f_type f_body st0 =
    (let st = st0\<lparr>ts_sid := snd (sid_set f_sid (ts_sid st0))\<rparr>
     in if length f_type < 4 then None
        else let t = frame_word f_type in
          if t = ORDER_NEW then
            (case te_parse_order E f_body of None \<Rightarrow> None | Some nos \<Rightarrow> insertOrder_nos E nos st)
          else if t = EXEC_RPT then
            (case te_parse_report E f_body of None \<Rightarrow> None | Some er \<Rightarrow> updateOrder E er st)
          else Some st)"

text \<open>The more flag only chooses between two loops with the same body, so that frames are taken three
  at a time, wherever messages end; fewer than three wait.\<close>

fun handleOrders :: "'d ts_env \<Rightarrow> string list \<Rightarrow> 'd serializer \<Rightarrow> 'd serializer option" where
  "handleOrders E (a # b # c # fs) st =
     (case handle_order_message E a b c st of None \<Rightarrow> None | Some st' \<Rightarrow> handleOrders E fs st')"
| "handleOrders E fs st = Some st"

definition new_serializer :: "'d \<Rightarrow> 'd serializer" where
  "new_serializer d = \<lparr>ts_sid = new_strategy_id, ts_db = d, ts_clock = 0\<rparr>"

end
