(* ===== verification/GatewayCorrect.thy ===== *)
theory GatewayCorrect
  imports Gateway
begin

text \<open>
  The gateway against its contract: a queue of requests, a queue of messages for strategies, and the
  reply address of each strategy that said hello. Every admissible sequence of events is carried out
  without a failing assertion, and each message is sent behind the address its strategy gave last
  (\<open>gateway_run_refines\<close>); what the admissibility conditions exclude is shown by two failures.
\<close>

section \<open>The contract\<close>

datatype client_msg =
    Helo string string
  | Beat string string
  | Order string uint32 string string string

fun client_frames :: "client_msg \<Rightarrow> string list" where
  "client_frames (Helo a s) = [a, word_frame STRATEGY_HELO, s]"
| "client_frames (Beat a s) = [a, word_frame HEARTBEAT, s]"
| "client_frames (Order a t s o' d) = [a, word_frame t, s, o', d]"

definition sid_key :: "string \<Rightarrow> bool" where
  "sid_key s \<longleftrightarrow> length s = 16 \<and> StrategyId s \<notin> {sid_empty_key, sid_deleted_key}"

definition oid_key :: "string \<Rightarrow> bool" where
  "oid_key s \<longleftrightarrow> length s = 16 \<and> OrderId s \<notin> {oid_empty_key, oid_deleted_key}"

fun client_ok :: "client_msg \<Rightarrow> bool" where
  "client_ok (Helo a s) \<longleftrightarrow> length a = 17 \<and> sid_key s"
| "client_ok (Beat a s) \<longleftrightarrow> length a = 17 \<and> sid_key s"
| "client_ok (Order a t s o' d) \<longleftrightarrow> length a = 17 \<and> sid_key s \<and> oid_key o' \<and> t \<in> {ORDER_NEW, ORDER_CANCEL, ORDER_REPLACE}"

record gw_spec =
  sp_client :: "client_msg list"
  sp_int :: "(string \<times> string list) list"
  sp_routes :: "string \<Rightarrow> string option"
  sp_orders :: "string \<Rightarrow> string option"
  sp_out :: "string list list"
  sp_disp :: "(uint32 \<times> string) list"

definition spec_init :: gw_spec where
  "spec_init = \<lparr>sp_client = [], sp_int = [], sp_routes = (\<lambda>_. None), sp_orders = (\<lambda>_. None), sp_out = [], sp_disp = []\<rparr>"

fun spec_handle :: "uint32 \<Rightarrow> client_msg \<Rightarrow> gw_spec \<Rightarrow> gw_spec option" where
  "spec_handle v (Helo a s) p = Some (p\<lparr>sp_routes := (sp_routes p)(s \<mapsto> a),
     sp_int := sp_int p @ [(s, [word_frame STRATEGY_HELO_ACK, word_frame v])]\<rparr>)"
| "spec_handle v (Beat a s) p = (if sp_routes p s = None then None
     else Some (p\<lparr>sp_int := sp_int p @ [(s, [word_frame HEARTBEAT_ACK])]\<rparr>))"
| "spec_handle v (Order a t s o' d) p = Some (p\<lparr>sp_orders := (sp_orders p)(o' \<mapsto> s), sp_disp := sp_disp p @ [(t, d)]\<rparr>)"

definition spec_take_client :: "uint32 \<Rightarrow> gw_spec \<Rightarrow> gw_spec option" where
  "spec_take_client v p = (case sp_client p of [] \<Rightarrow> Some p | m # ms \<Rightarrow> spec_handle v m (p\<lparr>sp_client := ms\<rparr>))"

definition spec_take_int :: "gw_spec \<Rightarrow> gw_spec option" where
  "spec_take_int p = (case sp_int p of [] \<Rightarrow> Some p
     | (s, fs) # q \<Rightarrow> (case sp_routes p s of None \<Rightarrow> None
        | Some a \<Rightarrow> Some (p\<lparr>sp_int := q, sp_out := sp_out p @ [a # fs]\<rparr>)))"

datatype spec_event = SClient client_msg | SInterface string "string list" | SPoll bool bool | SInterrupted

fun event_of :: "spec_event \<Rightarrow> gw_event" where
  "event_of (SClient m) = FromClient (client_frames m)"
| "event_of (SInterface s fs) = FromInterface (s # fs)"
| "event_of (SPoll a b) = Poll a b"
| "event_of SInterrupted = PollInterrupted"

fun spec_step :: "uint32 \<Rightarrow> spec_event \<Rightarrow> gw_spec \<Rightarrow> gw_spec option" where
  "spec_step v (SClient m) p = (if client_ok m then Some (p\<lparr>sp_client := sp_client p @ [m]\<rparr>) else None)"
| "spec_step v (SInterface s fs) p =
     (if sp_routes p s \<noteq> None \<and> fs \<noteq> [] then Some (p\<lparr>sp_int := sp_int p @ [(s, fs)]\<rparr>) else None)"
| "spec_step v (SPoll a b) p = (let rb = b \<and> sp_int p \<noteq> [] in
     case (if a then spec_take_client v p else Some p) of None \<Rightarrow> None
     | Some p' \<Rightarrow> if rb then spec_take_int p' else Some p')"
| "spec_step v SInterrupted p = Some p"

fun spec_run :: "uint32 \<Rightarrow> spec_event list \<Rightarrow> gw_spec \<Rightarrow> gw_spec option" where
  "spec_run v [] p = Some p"
| "spec_run v (e # es) p = (case spec_step v e p of None \<Rightarrow> None | Some p' \<Rightarrow> spec_run v es p')"

section \<open>Simulation\<close>

lemma multipart_Cons: "fs \<noteq> [] \<Longrightarrow> multipart (f # fs) = (f, True) # multipart fs"
  by (cases fs) auto

lemma multipart_nonempty: "fs \<noteq> [] \<Longrightarrow> multipart fs \<noteq> []"
  by (cases fs rule: multipart.cases) auto

lemma relay_multipart: "fs \<noteq> [] \<Longrightarrow> relay (multipart fs @ q) = Done (multipart fs, q)"
  by (induction fs rule: multipart.induct) auto

lemma frame_word_frame [simp]: "frame_word (word_frame w) = w" "length (word_frame w) = 4"
  by (simp_all add: frame_word_def word_frame_def)

definition tables_ok :: "('h, 'g) gateway_env \<Rightarrow> bool" where
  "tables_ok E \<longleftrightarrow> dense_ok (ge_strategies E) sid_empty_key sid_deleted_key \<and>
     dense_ok (ge_orders E) oid_empty_key oid_deleted_key"

definition route_rel :: "route option \<Rightarrow> string option \<Rightarrow> bool" where
  "route_rel r a \<longleftrightarrow> (case a of None \<Rightarrow> r = None
     | Some b \<Rightarrow> length b = 17 \<and> (\<exists>r'. r = Some r' \<and> route_inv r' \<and> route_abs r' = [b]))"

definition grel :: "('h, 'g) gateway_env \<Rightarrow> ('h, 'g) gateway \<Rightarrow> gw_spec \<Rightarrow> bool" where
  "grel E g p \<longleftrightarrow>
     gw_in g = concat (map (multipart \<circ> client_frames) (sp_client p)) \<and> list_all client_ok (sp_client p) \<and>
     gw_inproc g = concat (map (\<lambda>(s, fs). multipart (s # fs)) (sp_int p)) \<and>
     list_all (\<lambda>(s, fs). sp_routes p s \<noteq> None \<and> fs \<noteq> []) (sp_int p) \<and>
     gw_out g = concat (map multipart (sp_out p)) \<and> gw_dispatched g = sp_disp p \<and>
     dh_inv (ge_strategies E) (gw_scache g) \<and> dh_inv (ge_orders E) (gw_ocache g) \<and>
     (\<forall>s. sp_routes p s \<noteq> None \<longrightarrow> sid_key s) \<and>
     (\<forall>s. sid_key s \<longrightarrow> route_rel (dh_find (ge_strategies E) (gw_scache g) (StrategyId s)) (sp_routes p s)) \<and>
     (\<forall>o'. oid_key o' \<longrightarrow> dh_find (ge_orders E) (gw_ocache g) (OrderId o') =
        map_option (\<lambda>s. Some (new_order_info (OrderId o') (StrategyId s))) (sp_orders p o'))"

lemma grel_init: "tables_ok E \<Longrightarrow> grel E (new_gateway E) spec_init"
  by (simp add: grel_def new_gateway_def spec_init_def tables_ok_def dense_ok_def new_strategy_cache_def
      new_order_cache_def route_rel_def)

lemma addNode_17:
  assumes "length a = 17"
  obtains r where "addNode_bytes (Some a) (length a) new_route = Some (0, r)" "route_inv r" "route_abs r = [a]"
  using route_add [OF new_route_facts(1) assms] assms by (auto simp: new_route_facts)

lemma recv_strategy_Cons: "gw_in g = (f, m) # q \<Longrightarrow> recv_strategy g k = k f (g\<lparr>gw_in := q, gw_in_more := m\<rparr>)"
  by (simp add: recv_strategy_def)

lemma sid_set_16: "length s = 16 \<Longrightarrow> snd (sid_set s i) = StrategyId s"
  by (simp add: sid_set_def id_consts)

lemma oid_set_16: "length s = 16 \<Longrightarrow> snd (oid_set s i) = OrderId s"
  by (simp add: oid_set_def id_consts)

lemma multipart3: "multipart [a, b, c] = [(a, True), (b, True), (c, False)]"
  and multipart5: "multipart [a, b, c, d, e] = [(a, True), (b, True), (c, True), (d, True), (e, False)]"
  by simp_all

lemma msg_types_distinct [simp]:
  "HEARTBEAT \<noteq> STRATEGY_HELO" "ORDER_NEW \<noteq> STRATEGY_HELO" "ORDER_CANCEL \<noteq> STRATEGY_HELO" "ORDER_REPLACE \<noteq> STRATEGY_HELO"
  "ORDER_NEW \<noteq> HEARTBEAT" "ORDER_CANCEL \<noteq> HEARTBEAT" "ORDER_REPLACE \<noteq> HEARTBEAT"
  by (simp_all add: msg_types)

text \<open>The head of a request: the route, the type and the id have been read.\<close>

lemma handle_head:
  assumes "gw_in g = (a, True) # (word_frame t, True) # (s, m) # q" "length a = 17" "length s = 16"
  obtains r where "route_inv r" "route_abs r = [a]"
    "handleIncomingClientMessage E g = (let g' = g\<lparr>gw_in := q, gw_in_more := m\<rparr> in
       if t = STRATEGY_HELO then handle_helo E (StrategyId s) r g'
       else if t = HEARTBEAT then Done (snd_HEARTBEAT_ACK (StrategyId s) g') else handle_order E t (StrategyId s) g')"
proof -
  obtain r where r: "addNode_bytes (Some a) (length a) new_route = Some (0, r)" "route_inv r" "route_abs r = [a]"
    by (rule addNode_17 [OF assms(2)])
  show thesis
    using that [OF r(2,3)] r(1) assms
    by (simp add: handleIncomingClientMessage_def recv_strategy_def sid_set_16 Let_def)
qed

lemma handle_ok:
  assumes "tables_ok E" "grel E g p" "sp_client p = c # cs" "spec_handle (ge_venue E) c (p\<lparr>sp_client := cs\<rparr>) = Some p'"
  shows "\<exists>g'. handleIncomingClientMessage E g = Done g' \<and> grel E g' p'"
proof (cases c)
  case (Helo a s)
  have ok: "length a = 17" "sid_key s" "length s = 16" using assms(2,3) Helo by (auto simp: grel_def sid_key_def)
  define q where "q = concat (map (multipart \<circ> client_frames) cs)"
  have "gw_in g = (a, True) # (word_frame STRATEGY_HELO, True) # (s, False) # q"
    using assms(2,3) Helo by (simp add: grel_def multipart3 q_def)
  then obtain r where r: "route_inv r" "route_abs r = [a]"
    "handleIncomingClientMessage E g = handle_helo E (StrategyId s) r (g\<lparr>gw_in := q, gw_in_more := False\<rparr>)"
    using handle_head [of g a STRATEGY_HELO s False q E] ok by (auto simp: Let_def)
  have k: "StrategyId s \<notin> {sid_empty_key, sid_deleted_key}" using ok(2) by (simp add: sid_key_def)
  obtain h' where h': "dh_put (ge_strategies E) (gw_scache g) (StrategyId s) r = Some h'" "dh_inv (ge_strategies E) h'"
    "\<And>k'. k' \<notin> {sid_empty_key, sid_deleted_key} \<Longrightarrow> dh_find (ge_strategies E) h' k'
       = (if k' = StrategyId s then Some r else dh_find (ge_strategies E) (gw_scache g) k')"
    by (rule dense_put [of "ge_strategies E" sid_empty_key sid_deleted_key "gw_scache g" "StrategyId s" r])
      (use assms(1,2) k in \<open>auto simp: tables_ok_def grel_def\<close>)
  define g' where "g' = snd_STRATEGY_HELO_ACK (ge_venue E) (StrategyId s)
    (g\<lparr>gw_in := q, gw_in_more := False, gw_scache := h', gw_saved := gw_saved g @ [h']\<rparr>)"
  have d: "handleIncomingClientMessage E g = Done g'"
    by (simp add: r(3) handle_helo_def strategy_add_def h'(1) g'_def)
  have p': "p' = p\<lparr>sp_client := cs, sp_routes := (sp_routes p)(s \<mapsto> a),
      sp_int := sp_int p @ [(s, [word_frame STRATEGY_HELO_ACK, word_frame (ge_venue E)])]\<rparr>"
    using assms(4) Helo by simp
  have rr: "route_rel (dh_find (ge_strategies E) h' (StrategyId u)) (((sp_routes p)(s \<mapsto> a)) u)" if "sid_key u" for u
    using h'(3) [of "StrategyId u"] that assms(2) r(1,2) ok(1)
    by (cases "u = s") (auto simp: sid_key_def grel_def route_rel_def)
  have "grel E g' p'"
    unfolding grel_def
  proof (intro conjI)
    show "\<forall>s. sid_key s \<longrightarrow> route_rel (dh_find (ge_strategies E) (gw_scache g') (StrategyId s)) (sp_routes p' s)"
      using rr by (simp add: g'_def snd_STRATEGY_HELO_ACK_def send_admin_def p')
  qed (use assms(2,3) h'(2) ok(2) in \<open>auto simp: g'_def p' grel_def q_def snd_STRATEGY_HELO_ACK_def send_admin_def list_all_iff\<close>)
  then show ?thesis using d by blast
next
  case (Beat a s)
  have ok: "length a = 17" "length s = 16" using assms(2,3) Beat by (auto simp: grel_def sid_key_def)
  define q where "q = concat (map (multipart \<circ> client_frames) cs)"
  have "gw_in g = (a, True) # (word_frame HEARTBEAT, True) # (s, False) # q"
    using assms(2,3) Beat by (simp add: grel_def multipart3 q_def)
  then have d: "handleIncomingClientMessage E g = Done (snd_HEARTBEAT_ACK (StrategyId s) (g\<lparr>gw_in := q, gw_in_more := False\<rparr>))"
    using handle_head [of g a HEARTBEAT s False q E] ok by (auto simp: Let_def)
  have p': "p' = p\<lparr>sp_client := cs, sp_int := sp_int p @ [(s, [word_frame HEARTBEAT_ACK])]\<rparr>" "sp_routes p s \<noteq> None"
    using assms(4) Beat by (simp_all split: if_splits)
  have "grel E (snd_HEARTBEAT_ACK (StrategyId s) (g\<lparr>gw_in := q, gw_in_more := False\<rparr>)) p'"
    using assms(2,3) p'(2) by (simp add: p'(1) grel_def q_def snd_HEARTBEAT_ACK_def send_admin_def)
  then show ?thesis using d by blast
next
  case (Order a t s o' d)
  have ok: "length a = 17" "length s = 16" "oid_key o'" "length o' = 16" "t \<in> {ORDER_NEW, ORDER_CANCEL, ORDER_REPLACE}"
    using assms(2,3) Order by (auto simp: grel_def sid_key_def oid_key_def)
  define q where "q = concat (map (multipart \<circ> client_frames) cs)"
  have i: "gw_in g = (a, True) # (word_frame t, True) # (s, True) # (o', True) # (d, False) # q"
    using assms(2,3) Order by (simp add: grel_def multipart5 q_def)
  have t: "t \<noteq> STRATEGY_HELO" "t \<noteq> HEARTBEAT" using ok(5) by (auto simp: msg_types)
  have h: "handleIncomingClientMessage E g = handle_order E t (StrategyId s) (g\<lparr>gw_in := (o', True) # (d, False) # q, gw_in_more := True\<rparr>)"
    using handle_head [OF i ok(1,2), of E] t by (auto simp: Let_def)
  let ?v = "Some (new_order_info (OrderId o') (StrategyId s))"
  have k: "OrderId o' \<notin> {oid_empty_key, oid_deleted_key}" using ok(3) by (simp add: oid_key_def)
  obtain h' where h': "dh_put (ge_orders E) (gw_ocache g) (OrderId o') ?v = Some h'" "dh_inv (ge_orders E) h'"
    "\<And>k'. k' \<notin> {oid_empty_key, oid_deleted_key} \<Longrightarrow> dh_find (ge_orders E) h' k'
       = (if k' = OrderId o' then Some ?v else dh_find (ge_orders E) (gw_ocache g) k')"
    by (rule dense_put [of "ge_orders E" oid_empty_key oid_deleted_key "gw_ocache g" "OrderId o'" ?v])
      (use assms(1,2) k in \<open>auto simp: tables_ok_def grel_def\<close>)
  define g' where "g' = g\<lparr>gw_in := q, gw_in_more := False, gw_ocache := h', gw_dispatched := gw_dispatched g @ [(t, d)]\<rparr>"
  have d': "handleIncomingClientMessage E g = Done g'"
    using ok(5) by (simp add: h handle_order_def recv_strategy_def oid_set_16 [OF ok(4)] order_add_def h'(1) g'_def Let_def)
  have p': "p' = p\<lparr>sp_client := cs, sp_orders := (sp_orders p)(o' \<mapsto> s), sp_disp := sp_disp p @ [(t, d)]\<rparr>"
    using assms(4) Order by simp
  have oo: "dh_find (ge_orders E) h' (OrderId u) =
      map_option (\<lambda>s. Some (new_order_info (OrderId u) (StrategyId s))) (((sp_orders p)(o' \<mapsto> s)) u)" if "oid_key u" for u
    using h'(3) [of "OrderId u"] that assms(2) by (cases "u = o'") (auto simp: oid_key_def grel_def)
  have "grel E g' p'"
    unfolding grel_def
  proof (intro conjI)
    show "\<forall>o'. oid_key o' \<longrightarrow> dh_find (ge_orders E) (gw_ocache g') (OrderId o') =
        map_option (\<lambda>s. Some (new_order_info (OrderId o') (StrategyId s))) (sp_orders p' o')"
      using oo by (simp add: g'_def p')
  qed (use assms(2,3) h'(2) in \<open>auto simp: g'_def p' grel_def q_def list_all_iff\<close>)
  then show ?thesis using d' by blast
qed

lemma send_route_one:
  assumes "route_inv r" "route_abs r = [a]" "length a = 17"
  shows "send_route r (route_size r) 0 g = Done (send_strategy a True g)" "route_size r > 0"
proof -
  have n: "unat (num_nodes r) = 1" using assms(2) route_abs_length [of r] by simp
  have "getNode r 0 = Some (0, Some (node_at r 0))" using route_get [OF assms(1), of 0] assms(2) by simp
  moreover have "node_addr (node_at r 0) = a" using assms(2) n by (simp add: route_abs_def)
  ultimately show "send_route r (route_size r) 0 g = Done (send_strategy a True g)" "route_size r > 0"
    using n assms(3) by (simp_all add: route_size_def id_consts)
qed

lemma rcv_internal_ok:
  assumes "grel E g p" "sp_int p = (s, fs) # q"
  shows "\<exists>g' p'. spec_take_int p = Some p' \<and> rcv_internal E g = Done g' \<and> grel E g' p'"
proof -
  have fs: "fs \<noteq> []" and rt: "sp_routes p s \<noteq> None" using assms by (auto simp: grel_def)
  obtain a where a: "sp_routes p s = Some a" using rt by blast
  have key: "sid_key s" using assms(1) rt by (auto simp: grel_def)
  obtain r where r: "dh_find (ge_strategies E) (gw_scache g) (StrategyId s) = Some r" "route_inv r" "route_abs r = [a]" "length a = 17"
    using assms(1) key a unfolding grel_def route_rel_def by force
  define qf where "qf = concat (map (\<lambda>(s, fs). multipart (s # fs)) q)"
  have i: "gw_inproc g = (s, True) # multipart fs @ qf"
    using assms fs by (simp add: grel_def qf_def multipart_Cons)
  define g' where "g' = g\<lparr>gw_inproc := qf, gw_inproc_more := False, gw_out := gw_out g @ multipart (a # fs)\<rparr>"
  have "rcv_internal E g = Done g'"
    using key
    by (simp add: send_route_one [OF r(2-4)] rcv_internal_def recv_inproc_def i sid_set_16 sid_key_def strategy_get_def r(1) Let_def
        send_strategy_def relay_multipart [OF fs] g'_def multipart_Cons [OF fs])
  moreover have "spec_take_int p = Some (p\<lparr>sp_int := q, sp_out := sp_out p @ [a # fs]\<rparr>)"
    using assms(2) a by (simp add: spec_take_int_def)
  moreover have "grel E g' (p\<lparr>sp_int := q, sp_out := sp_out p @ [a # fs]\<rparr>)"
    using assms by (simp add: grel_def g'_def qf_def)
  ultimately show ?thesis by blast
qed

lemma grel_queues:
  assumes "grel E g p"
  shows "gw_in g = [] \<longleftrightarrow> sp_client p = []" "gw_inproc g = [] \<longleftrightarrow> sp_int p = []"
proof -
  have "client_frames c \<noteq> []" for c by (cases c) auto
  then have "multipart (client_frames c) \<noteq> []" for c by (rule multipart_nonempty)
  then show "gw_in g = [] \<longleftrightarrow> sp_client p = []" using assms by (cases "sp_client p") (auto simp: grel_def)
  have "multipart (s # fs) \<noteq> []" for s fs by (rule multipart_nonempty) simp
  then show "gw_inproc g = [] \<longleftrightarrow> sp_int p = []" using assms by (cases "sp_int p") (auto simp: grel_def split: prod.splits)
qed

lemma take_client_ok:
  assumes "tables_ok E" "grel E g p" "spec_take_client (ge_venue E) p = Some p'"
  shows "\<exists>g'. (if gw_in g \<noteq> [] then handleIncomingClientMessage E g else Done g) = Done g' \<and> grel E g' p'"
proof (cases "sp_client p")
  case Nil
  then show ?thesis using assms grel_queues [OF assms(2)] by (simp add: spec_take_client_def)
next
  case (Cons c cs)
  then have "gw_in g \<noteq> []" using grel_queues [OF assms(2)] by simp
  then show ?thesis using handle_ok [OF assms(1,2) Cons, of p'] assms(3) Cons by (simp add: spec_take_client_def)
qed

lemma handle_keeps_int:
  assumes "spec_take_client v p = Some p'" "sp_int p \<noteq> []"
  shows "sp_int p' \<noteq> []"
proof (cases "sp_client p")
  case (Cons c cs)
  then show ?thesis using assms by (cases c) (auto simp: spec_take_client_def split: if_splits)
qed (use assms in \<open>simp add: spec_take_client_def\<close>)

lemma poll_ok:
  assumes "tables_ok E" "grel E g p" "spec_step (ge_venue E) (SPoll a b) p = Some p'"
  shows "\<exists>g'. poll_once E a b g = Done g' \<and> grel E g' p'"
proof -
  obtain p1 where p1: "(if a then spec_take_client (ge_venue E) p else Some p) = Some p1"
    "(if b \<and> sp_int p \<noteq> [] then spec_take_int p1 else Some p1) = Some p'"
    using assms(3) by (auto simp: Let_def split: option.splits)
  obtain g1 where g1: "(if a \<and> gw_in g \<noteq> [] then handleIncomingClientMessage E g else Done g) = Done g1" "grel E g1 p1"
    using take_client_ok [OF assms(1,2), of p1] p1(1) assms(2) by (cases a) auto
  show ?thesis
  proof (cases "b \<and> gw_inproc g \<noteq> []")
    case True
    then have n: "sp_int p \<noteq> []" using grel_queues [OF assms(2)] by simp
    have "sp_int p1 \<noteq> []"
      using p1(1) n handle_keeps_int [of "ge_venue E" p p1] by (cases a) auto
    then obtain s fs q where q: "sp_int p1 = (s, fs) # q" by (cases "sp_int p1") auto
    obtain g' p2 where "spec_take_int p1 = Some p2" "rcv_internal E g1 = Done g'" "grel E g' p2"
      using rcv_internal_ok [OF g1(2) q] by blast
    then show ?thesis using True n p1(2) g1(1) by (auto simp: poll_once_def Let_def)
  next
    case False
    then have "p1 = p'" using p1(2) grel_queues [OF assms(2)] by auto
    then show ?thesis using g1 False by (auto simp: poll_once_def Let_def)
  qed
qed

lemma gw_step_ok:
  assumes "tables_ok E" "grel E g p" "spec_step (ge_venue E) e p = Some p'"
  shows "\<exists>g'. gw_step E (event_of e) g = Done g' \<and> grel E g' p'"
proof (cases e)
  case (SPoll a b)
  then show ?thesis using poll_ok [OF assms(1,2)] assms(3) by simp
next
  case (SClient m)
  then show ?thesis using assms(2,3) by (auto simp: grel_def split: if_splits)
next
  case (SInterface s fs)
  then show ?thesis using assms(2,3) by (auto simp: grel_def split: if_splits)
qed (use assms in auto)

lemma gw_run_sim:
  assumes "tables_ok E"
  shows "grel E g p \<Longrightarrow> spec_run (ge_venue E) es p = Some p' \<Longrightarrow>
    \<exists>g'. gw_run E (map event_of es) g = Done g' \<and> grel E g' p'"
proof (induction es arbitrary: g p)
  case (Cons e es)
  obtain p1 where p1: "spec_step (ge_venue E) e p = Some p1" "spec_run (ge_venue E) es p1 = Some p'"
    using Cons.prems(2) by (auto split: option.splits)
  obtain g1 where "gw_step E (event_of e) g = Done g1" "grel E g1 p1"
    using gw_step_ok [OF assms Cons.prems(1) p1(1)] by blast
  then show ?case using Cons.IH [OF _ p1(2)] by auto
qed simp

text \<open>
  C13. The gateway. As long as clients send well-formed requests from 17 byte addresses, a strategy
  says hello before its heartbeats are handled, and the order interface writes only to strategies that
  said hello, no sequence of arrivals and polls makes the processor wait or fail: every order is passed
  to the interface once and in order, the order cache holds the strategy of each order, every hello and
  heartbeat is acknowledged, and every message for a strategy is sent behind the address of the hello
  handled last before it.
\<close>

theorem gateway_run_refines:
  assumes "tables_ok E" "spec_run (ge_venue E) es spec_init = Some p"
  shows "\<exists>g. gw_run E (map event_of es) (new_gateway E) = Done g \<and>
    gw_out g = concat (map multipart (sp_out p)) \<and> gw_dispatched g = sp_disp p \<and>
    (\<forall>o'. oid_key o' \<longrightarrow> order_get (ge_orders E) (OrderId o') (gw_ocache g)
       = map_option (\<lambda>s. new_order_info (OrderId o') (StrategyId s)) (sp_orders p o'))"
proof -
  obtain g where g: "gw_run E (map event_of es) (new_gateway E) = Done g" "grel E g p"
    using gw_run_sim [OF assms(1) grel_init [OF assms(1)] assms(2)] by blast
  have "order_get (ge_orders E) (OrderId o') (gw_ocache g)
       = map_option (\<lambda>s. new_order_info (OrderId o') (StrategyId s)) (sp_orders p o')" if "oid_key o'" for o'
    using g(2) that by (cases "sp_orders p o'") (auto simp: grel_def order_get_def)
  then show ?thesis using g by (auto simp: grel_def)
qed

text \<open>
  A heartbeat from a strategy that has not said hello brings the gateway down: after any
  admissible run that leaves its queues empty, the heartbeat is acknowledged on the inproc socket, and
  routing the acknowledgement fails the assertion that the route has a node.
\<close>

theorem gateway_unknown_heartbeat_aborts:
  assumes "tables_ok E" "spec_run (ge_venue E) es spec_init = Some p" "sp_client p = []" "sp_int p = []"
    "sp_routes p s = None" "sid_key s" "length a = 17"
  shows "gw_run E (map event_of es @ [FromClient [a, word_frame HEARTBEAT, s], Poll True False]) (new_gateway E) \<noteq> Fails \<and>
    gw_run E (map event_of es @ [FromClient [a, word_frame HEARTBEAT, s], Poll True False, Poll False True]) (new_gateway E) = Fails"
proof -
  obtain g where g: "gw_run E (map event_of es) (new_gateway E) = Done g" "grel E g p"
    using gw_run_sim [OF assms(1) grel_init [OF assms(1)] assms(2)] by blast
  have app: "gw_run E (xs @ ys) g0 = (case gw_run E xs g0 of Done g' \<Rightarrow> gw_run E ys g' | Waits \<Rightarrow> Waits | Fails \<Rightarrow> Fails)" for xs ys g0
    by (induction xs arbitrary: g0) (auto split: io.splits)
  have q: "gw_in g = []" "gw_inproc g = []" using grel_queues [OF g(2)] assms(3,4) by simp_all
  define g1 where "g1 = g\<lparr>gw_in := [(a, True), (word_frame HEARTBEAT, True), (s, False)]\<rparr>"
  have l: "length s = 16" using assms(6) by (simp add: sid_key_def)
  have "gw_in g1 = (a, True) # (word_frame HEARTBEAT, True) # (s, False) # []" by (simp add: g1_def)
  then have h: "handleIncomingClientMessage E g1 = Done (snd_HEARTBEAT_ACK (StrategyId s) (g1\<lparr>gw_in := [], gw_in_more := False\<rparr>))"
    using handle_head [of g1 a HEARTBEAT s False "[]" E] assms(7) l by (auto simp: Let_def)
  define g2 where "g2 = snd_HEARTBEAT_ACK (StrategyId s) (g1\<lparr>gw_in := [], gw_in_more := False\<rparr>)"
  have g2: "gw_inproc g2 = [(s, True), (word_frame HEARTBEAT_ACK, False)]" "gw_scache g2 = gw_scache g" "gw_in g2 = []"
    using q by (simp_all add: g2_def g1_def snd_HEARTBEAT_ACK_def send_admin_def)
  have "dh_find (ge_strategies E) (gw_scache g) (StrategyId s) = None"
    using g(2) assms(5,6) unfolding grel_def route_rel_def by force
  then have f: "rcv_internal E g2 = Fails"
    by (simp add: rcv_internal_def recv_inproc_def g2 sid_set_16 [OF l] strategy_get_def route_size_def new_route_def Let_def)
  have r2: "gw_run E [FromClient [a, word_frame HEARTBEAT, s], Poll True False] g = Done g2"
    using h q by (simp add: poll_once_def g1_def [symmetric] g2_def) (simp add: g1_def)
  have "gw_run E [Poll False True] g2 = Fails" using f g2(1) by (simp add: poll_once_def)
  then have "gw_run E ([FromClient [a, word_frame HEARTBEAT, s], Poll True False] @ [Poll False True]) g = Fails"
    unfolding app r2 by simp
  then have r3: "gw_run E [FromClient [a, word_frame HEARTBEAT, s], Poll True False, Poll False True] g = Fails"
    by (simp only: append.simps)
  show ?thesis unfolding app g(1) io.case r2 r3 by simp
qed

section \<open>Witnesses and the address length\<close>

text \<open>A hash map kept as an association list, to instantiate the properties.\<close>

definition list_table :: "'k \<Rightarrow> 'k \<Rightarrow> (('k \<times> 'v) list, 'k, 'v) dense_hash" where
  "list_table e d = \<lparr>dh_new = (\<lambda>_ _ _. []), dh_inv = (\<lambda>_. True), dh_find = map_of,
     dh_put = (\<lambda>h k v. if k = e \<or> k = d then None else Some ((k, v) # h)),
     dh_erase = (\<lambda>h k. (if map_of h k = None then 0 else 1, filter (\<lambda>(a, _). a \<noteq> k) h)), dh_size = length\<rparr>"

lemma map_of_filter_neq: "map_of (filter (\<lambda>(a, _). a \<noteq> k) h) x = (if x = k then None else map_of h x)"
  by (induction h) auto

lemma list_table_ok: "dense_ok (list_table e d) e d"
  by (auto simp: dense_ok_def list_table_def map_of_filter_neq)

definition demo_env :: "((strategy_id \<times> route) list, (order_id \<times> order_info option) list) gateway_env" where
  "demo_env = \<lparr>ge_strategies = list_table sid_empty_key sid_deleted_key,
     ge_orders = list_table oid_empty_key oid_deleted_key, ge_venue = 890778\<rparr>"

lemma demo_env_ok: "tables_ok demo_env"
  by (simp add: tables_ok_def demo_env_def list_table_ok)

abbreviation demo_addr :: string where "demo_addr \<equiv> ''client-address-01''"
abbreviation demo_sid :: string where "demo_sid \<equiv> ''strategy-id-0001''"
abbreviation demo_oid :: string where "demo_oid \<equiv> ''order-id-0000001''"

lemma demo_keys: "sid_key demo_sid" "oid_key demo_oid"
  by (simp_all add: sid_key_def oid_key_def sid_empty_key_def sid_deleted_key_def oid_empty_key_def oid_deleted_key_def
      sid_set_char_def oid_set_char_def id_consts numeral_eq_Suc NUL_def)

lemma gateway_run_refines_witness:
  "\<exists>g. gw_run demo_env (map event_of [SClient (Helo demo_addr demo_sid), SClient (Order demo_addr ORDER_NEW demo_sid demo_oid ''buy''),
         SPoll True True, SPoll True True]) (new_gateway demo_env) = Done g \<and>
     gw_out g = multipart [demo_addr, word_frame STRATEGY_HELO_ACK, word_frame 890778] \<and>
     gw_dispatched g = [(ORDER_NEW, ''buy'')]"
proof -
  have "\<exists>p. spec_run (ge_venue demo_env) [SClient (Helo demo_addr demo_sid), SClient (Order demo_addr ORDER_NEW demo_sid demo_oid ''buy''),
         SPoll True True, SPoll True True] spec_init = Some p \<and>
      sp_out p = [[demo_addr, word_frame STRATEGY_HELO_ACK, word_frame 890778]] \<and> sp_disp p = [(ORDER_NEW, ''buy'')]"
    using demo_keys by (simp add: spec_init_def spec_take_client_def spec_take_int_def Let_def) (simp add: demo_env_def)
  then obtain p where p: "spec_run (ge_venue demo_env) [SClient (Helo demo_addr demo_sid), SClient (Order demo_addr ORDER_NEW demo_sid demo_oid ''buy''),
         SPoll True True, SPoll True True] spec_init = Some p"
      "sp_out p = [[demo_addr, word_frame STRATEGY_HELO_ACK, word_frame 890778]]" "sp_disp p = [(ORDER_NEW, ''buy'')]"
    by blast
  show ?thesis using gateway_run_refines [OF demo_env_ok p(1)] p(2,3) by auto
qed

lemma gateway_unknown_heartbeat_aborts_witness:
  "gw_run demo_env [FromClient [demo_addr, word_frame HEARTBEAT, demo_sid], Poll True False, Poll False True] (new_gateway demo_env) = Fails"
  using gateway_unknown_heartbeat_aborts [OF demo_env_ok, of "[]" spec_init demo_sid demo_addr] demo_keys(1)
  by (simp add: spec_init_def del: gw_run.simps)

text \<open>
  Only 17 byte addresses work. A hello from an address of at most 17 bytes is acknowledged to
  that address padded with NULs to 17 bytes, so a peer whose identity is shorter is not reached; an
  empty address or one of more than 68 bytes brings the gateway down.
\<close>

theorem gateway_address_length:
  assumes "tables_ok E" "sid_key s" "a \<noteq> []" "length a \<le> 17" "68 < length b"
  shows "(\<exists>g. gw_run E [FromClient [a, word_frame STRATEGY_HELO, s], Poll True False, Poll False True] (new_gateway E) = Done g \<and>
      gw_out g = multipart [a @ replicate (17 - length a) NUL, word_frame STRATEGY_HELO_ACK, word_frame (ge_venue E)]) \<and>
    gw_run E [FromClient [[], word_frame STRATEGY_HELO, s], Poll True False] (new_gateway E) = Fails \<and>
    gw_run E [FromClient [b, word_frame STRATEGY_HELO, s], Poll True False] (new_gateway E) = Fails"
proof -
  let ?p = "a @ replicate (17 - length a) NUL"
  have l: "length s = 16" and k: "StrategyId s \<notin> {sid_empty_key, sid_deleted_key}" using assms(2) by (auto simp: sid_key_def)
  have e: "gw_in (new_gateway E) = []" "gw_inproc (new_gateway E) = []" "gw_out (new_gateway E) = []"
    by (simp_all add: new_gateway_def)
  obtain r where r: "addNode_bytes (Some a) (length a) new_route = Some (0, r)" "route_size r = 1"
    "getNode r 0 = Some (0, Some (Node ?p))"
    using route_other_lengths_aux [OF assms(3,4)] by blast
  define h where "h = gw_scache (new_gateway E)"
  have hi: "dh_inv (ge_strategies E) h" "dense_ok (ge_strategies E) sid_empty_key sid_deleted_key"
    using grel_init [OF assms(1)] assms(1) by (auto simp: grel_def h_def tables_ok_def)
  obtain h' where h': "dh_put (ge_strategies E) h (StrategyId s) r = Some h'" "dh_find (ge_strategies E) h' (StrategyId s) = Some r"
    by (rule dense_put [OF hi(2,1) k, of r]) (use k in auto)
  define g1 where "g1 = (new_gateway E)\<lparr>gw_in := [(a, True), (word_frame STRATEGY_HELO, True), (s, False)]\<rparr>"
  define g2 where "g2 = snd_STRATEGY_HELO_ACK (ge_venue E) (StrategyId s)
    (g1\<lparr>gw_in := [], gw_in_more := False, gw_scache := h', gw_saved := gw_saved g1 @ [h']\<rparr>)"
  have 1: "handleIncomingClientMessage E g1 = Done g2"
    using h'(1) by (simp add: handleIncomingClientMessage_def recv_strategy_def g1_def g2_def r(1) sid_set_16 [OF l] handle_helo_def
        strategy_add_def h_def)
  have g2: "gw_inproc g2 = [(s, True), (word_frame STRATEGY_HELO_ACK, True), (word_frame (ge_venue E), False)]"
    "gw_scache g2 = h'" "gw_out g2 = []" "gw_in g2 = []"
    by (simp_all add: g2_def g1_def snd_STRATEGY_HELO_ACK_def send_admin_def e)
  have t: "take 17 ?p = ?p" using assms(4) by simp
  have "\<exists>g3. rcv_internal E g2 = Done g3 \<and> gw_out g3 = multipart [?p, word_frame STRATEGY_HELO_ACK, word_frame (ge_venue E)]"
    using t by (simp add: rcv_internal_def recv_inproc_def g2 sid_set_16 [OF l] strategy_get_def h'(2) Let_def r(2,3)
        send_strategy_def id_consts del: take_append)
  then obtain g3 where g3: "rcv_internal E g2 = Done g3"
    "gw_out g3 = multipart [?p, word_frame STRATEGY_HELO_ACK, word_frame (ge_venue E)]" by blast
  have A: "gw_run E [FromClient [a, word_frame STRATEGY_HELO, s], Poll True False, Poll False True] (new_gateway E) = Done g3"
    using 1 g3(1) g2 by (simp add: poll_once_def e g1_def [symmetric]) (simp add: g1_def)
  have f0: "addNode_bytes (Some []) 0 new_route = Some (- 1, new_route)" by (simp add: addNode_bytes_def)
  have fb: "addNode_bytes (Some b) (length b) new_route = None"
    using assms(5) by (auto simp: addNode_bytes_def new_route_def memcpy_def id_consts)
  show ?thesis
    using A g3(2) by (auto simp: poll_once_def e handleIncomingClientMessage_def recv_strategy_def f0 fb)
qed

lemma gateway_address_length_witness:
  "\<exists>g. gw_run demo_env [FromClient [''abcde'', word_frame STRATEGY_HELO, demo_sid], Poll True False, Poll False True] (new_gateway demo_env) = Done g \<and>
     gw_out g = multipart [''abcde'' @ replicate 12 NUL, word_frame STRATEGY_HELO_ACK, word_frame 890778]"
  using gateway_address_length [OF demo_env_ok demo_keys(1), of "''abcde''" "replicate 69 NUL"]
  by (simp add: demo_env_def del: gw_run.simps)

end
