(* ===== verification/FixAppCorrect.thy ===== *)
theory FixAppCorrect
  imports FixApp GatewayCorrect
begin

text \<open>
  The FIX application of \<^verbatim>\<open>FixApp\<close>: what an exchange that echoes an order reports of it reaches
  the strategy as its own data (\<open>order_echo\<close>), the whole cycle from a strategy through the gateway
  to the exchange and back (\<open>order_cycle\<close>), and where orders are lost or altered on the way.
\<close>

section \<open>Ids and characters\<close>

lemma id_text_parse:
  assumes "uuid_ok L" "length a = 16"
  shows "id_text L (OrderId a) = uuid_unparse L a"
    and "oid_parse L (uuid_unparse L a) i = (0, OrderId a)"
proof -
  have u: "length (uuid_unparse L a) = 36" "NUL \<notin> set (uuid_unparse L a)"
    "uuid_parse L (uuid_unparse L a) = Some a"
    using assms by (simp_all add: uuid_ok_def)
  have w: "takeWhile (\<lambda>c. c \<noteq> NUL) (uuid_unparse L a) = uuid_unparse L a"
    using u(2) by (simp add: takeWhile_eq_all_conv) (metis u(2))
  have w': "takeWhile (\<lambda>c. c \<noteq> NUL) (uuid_unparse L a @ [NUL]) = uuid_unparse L a"
    using u(2) by (subst takeWhile_append2) auto
  show "id_text L (OrderId a) = uuid_unparse L a"
    by (simp add: id_text_def oid_c_str_def id_consts c_str_def u(1) w')
  show "oid_parse L (uuid_unparse L a) i = (0, OrderId a)"
    by (simp add: oid_parse_def c_str_def w u(3))
qed

lemma int_of_char_of_int:
  assumes "- 128 \<le> i" "i < 128"
  shows "int_of_char (char_of_int i) = i"
proof -
  have "(of_char (char_of (nat (i mod 256)) :: char) :: int) = of_nat (nat (i mod 256) mod 256)"
    by (subst of_nat_of_char [symmetric]) simp
  then have o: "(of_char (char_of (nat (i mod 256)) :: char) :: int) = i mod 256"
    by simp
  show ?thesis
  proof (cases "i < 0")
    case True
    have "(i + 256) mod 256 = i + 256" using assms True by (intro mod_pos_pos_trivial) auto
    then have "i mod 256 = i + 256" by simp
    then have "(of_char (char_of (nat (i mod 256)) :: char) :: int) = i + 256"
      using o by simp
    then show ?thesis
      unfolding int_of_char_def char_of_int_def using assms True by (simp only: Let_def) simp
  next
    case False
    then have "(of_char (char_of (nat (i mod 256)) :: char) :: int) = i"
      using o assms by simp
    then show ?thesis
      unfolding int_of_char_def char_of_int_def using assms False by (simp only: Let_def) simp
  qed
qed

section \<open>Reports that read well\<close>

text \<open>The type of the field each step reads.\<close>

datatype value_kind = K_string | K_char | K_double | K_int | K_time | K_bool | K_empty

fun kind_of :: "fix_value \<Rightarrow> value_kind" where
  "kind_of (FString _) = K_string"
| "kind_of (FChar _) = K_char"
| "kind_of (FDouble _) = K_double"
| "kind_of (FInt _) = K_int"
| "kind_of (FTime _) = K_time"
| "kind_of (FBool _) = K_bool"
| "kind_of FEmpty = K_empty"

definition report_types :: "(fix_tag \<times> value_kind) list" where
  "report_types = [
     (OrigClOrdID, K_string), (ExecID, K_string), (ExecTransType, K_char),
     (OrdStatus, K_char), (ExecType, K_char), (Symbol, K_string), (SecurityType, K_string),
     (Side, K_char), (OrderQty, K_double), (OrdType, K_char), (Price, K_double),
     (LastShares, K_double), (LastPx, K_double), (LeavesQty, K_double), (CumQty, K_double),
     (AvgPx, K_double), (TimeInForce, K_char), (TransactTime, K_time), (ExecInst, K_string),
     (HandlInst, K_char), (OrdRejReason, K_int), (MinQty, K_double), (Account, K_string),
     (ExecRefID, K_string), (ExecRestatementReason, K_int)]"

definition typed_at :: "fields \<Rightarrow> fix_tag \<Rightarrow> value_kind \<Rightarrow> bool" where
  "typed_at m t k = (case m t of None \<Rightarrow> True | Some v \<Rightarrow> kind_of v = k)"

definition fields_typed :: "fields \<Rightarrow> bool" where
  "fields_typed m = list_all (\<lambda>(t, k). typed_at m t k) report_types"

lemmas on_defs = on_string_def on_char_def on_double_def on_int_def on_time_def

text \<open>A step that returns, and one that does not touch what \<open>sel\<close> reads.\<close>

definition returns :: "('a \<Rightarrow> 'a app_result) \<Rightarrow> bool" where
  "returns f \<longleftrightarrow> (\<forall>a. \<exists>b. f a = Ret b)"

definition keeps :: "('a \<Rightarrow> 'c) \<Rightarrow> ('a \<Rightarrow> 'a app_result) \<Rightarrow> bool" where
  "keeps sel f \<longleftrightarrow> (\<forall>a b. f a = Ret b \<longrightarrow> sel b = sel a)"

lemma run_steps_returns: "list_all returns fs \<Longrightarrow> \<exists>b. run_steps fs a = Ret b"
proof (induction fs arbitrary: a)
  case (Cons f fs)
  then obtain b where "f a = Ret b" by (auto simp: returns_def)
  then show ?case using Cons by simp
qed simp

lemma run_steps_keeps: "list_all (keeps sel) fs \<Longrightarrow> run_steps fs a = Ret b \<Longrightarrow> sel b = sel a"
  by (induction fs arbitrary: a) (auto simp: keeps_def split: app_result.splits)

lemma run_steps_append:
  "run_steps (fs @ gs) a = (case run_steps fs a of Ret b \<Rightarrow> run_steps gs b | Throw \<Rightarrow> Throw | Abort \<Rightarrow> Abort)"
  by (induction fs arbitrary: a) (auto split: app_result.splits)

text \<open>The one step that touches what \<open>sel\<close> reads decides it.\<close>

lemma run_steps_at:
  assumes "run_steps fs a = Ret b" "i < length fs" "fs ! i = f"
    "list_all (keeps sel) (take i fs)" "list_all (keeps sel) (drop (Suc i) fs)"
  shows "\<exists>c d. f c = Ret d \<and> sel c = sel a \<and> sel b = sel d"
proof -
  have "fs = take i fs @ f # drop (Suc i) fs"
    using assms(2,3) by (metis id_take_nth_drop)
  then have "run_steps (take i fs @ f # drop (Suc i) fs) a = Ret b"
    using assms(1) by simp
  then obtain c where c: "run_steps (take i fs) a = Ret c" "run_steps (f # drop (Suc i) fs) c = Ret b"
    unfolding run_steps_append by (auto split: app_result.splits)
  then obtain d where "f c = Ret d" "run_steps (drop (Suc i) fs) d = Ret b"
    by (auto split: app_result.splits)
  then show ?thesis
    using run_steps_keeps [OF assms(4) c(1)] run_steps_keeps [OF assms(5)] by blast
qed

lemma returns_on:
  "typed_at m t K_string \<Longrightarrow> returns (on_string m t f)"
  "typed_at m t K_char \<Longrightarrow> returns (on_char m t g)"
  "typed_at m t K_double \<Longrightarrow> returns (on_double m t h)"
  "typed_at m t K_int \<Longrightarrow> returns (on_int m t i)"
  "typed_at m t K_time \<Longrightarrow> returns (on_time m t f)"
  by (auto simp: returns_def on_defs typed_at_def split: option.splits fix_value.splits)

lemma keeps_on:
  "(\<And>x a. sel (f x a) = sel a) \<Longrightarrow> keeps sel (on_string m t f)"
  "(\<And>x a. sel (g x a) = sel a) \<Longrightarrow> keeps sel (on_char m t g)"
  "(\<And>x a. sel (h x a) = sel a) \<Longrightarrow> keeps sel (on_double m t h)"
  "(\<And>x a. sel (i x a) = sel a) \<Longrightarrow> keeps sel (on_int m t i)"
  "(\<And>x a. sel (f x a) = sel a) \<Longrightarrow> keeps sel (on_time m t f)"
  by (auto simp: keeps_def on_defs split: option.splits fix_value.splits)

lemma report_steps_return: "fields_typed m \<Longrightarrow> list_all returns (report_steps F m)"
  by (simp add: report_steps_def fields_typed_def report_types_def returns_on)

text \<open>What a report says of the symbol, side, quantity, type, price and time in force.\<close>

lemma side_keeps: "er_time_in_force (report_side c er) = er_time_in_force er"
  "er_symbol (report_side c er) = er_symbol er" "er_order_qty (report_side c er) = er_order_qty er"
  "er_ord_type (report_side c er) = er_ord_type er" "er_price (report_side c er) = er_price er"
  "er_cl_order_id (report_side c er) = er_cl_order_id er"
  "er_symbol (report_time_in_force c er) = er_symbol er"
  "er_order_qty (report_time_in_force c er) = er_order_qty er"
  "er_ord_type (report_time_in_force c er) = er_ord_type er"
  "er_price (report_time_in_force c er) = er_price er" "er_side (report_time_in_force c er) = er_side er"
  "er_cl_order_id (report_time_in_force c er) = er_cl_order_id er"
  by (simp_all add: report_side_def report_time_in_force_def Let_def)

lemma report_steps_fields:
  assumes "run_steps (report_steps F m) er = Ret er'"
  shows "er_cl_order_id er' = er_cl_order_id er"
    and "m Symbol = Some (FString x) \<Longrightarrow> er_symbol er' = Some x"
    and "m Side = Some (FChar s) \<Longrightarrow> \<exists>er0. er_side er0 = er_side er \<and> er_side er' = er_side (report_side s er0)"
    and "m OrderQty = Some (FDouble q) \<Longrightarrow> er_order_qty er' = Some q"
    and "m OrdType = Some (FChar t) \<Longrightarrow> er_ord_type er' = Some (int_of_char t)"
    and "m Price = Some (FDouble p) \<Longrightarrow> er_price er' = Some p"
    and "m TimeInForce = Some (FChar f) \<Longrightarrow> \<exists>er0. er_time_in_force er0 = er_time_in_force er \<and>
           er_time_in_force er' = er_time_in_force (report_time_in_force f er0)"
proof -
  note k = report_steps_def keeps_on side_keeps
  show "er_cl_order_id er' = er_cl_order_id er"
    by (rule run_steps_keeps [OF _ assms]) (simp add: k)
  have "\<exists>(c :: execution_report) d. on_string m Symbol (\<lambda>x er. er\<lparr>er_symbol := Some x\<rparr>) c = Ret d \<and>
      er_symbol c = er_symbol er \<and> er_symbol er' = er_symbol d"
    by (rule run_steps_at [OF assms, of 5]) (simp_all add: k)
  then show "m Symbol = Some (FString x) \<Longrightarrow> er_symbol er' = Some x"
    by (auto simp: on_defs)
  have "\<exists>(c :: execution_report) d. on_char m Side report_side c = Ret d \<and> er_side c = er_side er \<and> er_side er' = er_side d"
    by (rule run_steps_at [OF assms, of 7]) (simp_all add: k)
  then show "m Side = Some (FChar s) \<Longrightarrow> \<exists>er0. er_side er0 = er_side er \<and> er_side er' = er_side (report_side s er0)"
    by (auto simp: on_defs)
  have "\<exists>(c :: execution_report) d. on_double m OrderQty (\<lambda>x er. er\<lparr>er_order_qty := Some x\<rparr>) c = Ret d \<and>
      er_order_qty c = er_order_qty er \<and> er_order_qty er' = er_order_qty d"
    by (rule run_steps_at [OF assms, of 8]) (simp_all add: k)
  then show "m OrderQty = Some (FDouble q) \<Longrightarrow> er_order_qty er' = Some q"
    by (auto simp: on_defs)
  have "\<exists>(c :: execution_report) d. on_char m OrdType (\<lambda>x er. er\<lparr>er_ord_type := Some (int_of_char x)\<rparr>) c = Ret d \<and>
      er_ord_type c = er_ord_type er \<and> er_ord_type er' = er_ord_type d"
    by (rule run_steps_at [OF assms, of 9]) (simp_all add: k)
  then show "m OrdType = Some (FChar t) \<Longrightarrow> er_ord_type er' = Some (int_of_char t)"
    by (auto simp: on_defs)
  have "\<exists>(c :: execution_report) d. on_double m Price (\<lambda>x er. er\<lparr>er_price := Some x\<rparr>) c = Ret d \<and>
      er_price c = er_price er \<and> er_price er' = er_price d"
    by (rule run_steps_at [OF assms, of 10]) (simp_all add: k)
  then show "m Price = Some (FDouble p) \<Longrightarrow> er_price er' = Some p"
    by (auto simp: on_defs)
  have "\<exists>(c :: execution_report) d. on_char m TimeInForce report_time_in_force c = Ret d \<and>
      er_time_in_force c = er_time_in_force er \<and> er_time_in_force er' = er_time_in_force d"
    by (rule run_steps_at [OF assms, of 16]) (simp_all add: k)
  then show "m TimeInForce = Some (FChar f) \<Longrightarrow> \<exists>er0. er_time_in_force er0 = er_time_in_force er \<and>
      er_time_in_force er' = er_time_in_force (report_time_in_force f er0)"
    by (auto simp: on_defs)
qed

section \<open>An order and its echo\<close>

definition order_tif :: "int \<Rightarrow> char" where
  "order_tif t = (if t = pb_GFD then TimeInForce_DAY else if t = pb_IOC then TimeInForce_IMMEDIATE_OR_CANCEL
     else if t = pb_FOK then TimeInForce_FILL_OR_KILL else TimeInForce_DAY)"

definition order_type_char :: "application \<Rightarrow> int \<Rightarrow> char" where
  "order_type_char ap t = (if t = pb_LIM then ap_limitOrderChar40 ap else char_of_int t)"

lemma new_order_body_fields:
  "new_order_body F nos i ap ClOrdID = Some (FString (id_text (fe_uuid F) i))"
  "new_order_body F nos i ap Symbol = Some (FString (c_str (pb_string (nos_symbol nos))))"
  "new_order_body F nos i ap Side = Some (fix_side (pb_side_of (nos_side nos)))"
  "new_order_body F nos i ap OrderQty = Some (FDouble (pb_double (nos_order_qty nos)))"
  "new_order_body F nos i ap OrdType = Some (FChar (order_type_char ap (pb_int (nos_ord_type nos))))"
  "new_order_body F nos i ap Price = Some (FDouble (pb_double (nos_price nos)))"
  "new_order_body F nos i ap TimeInForce = Some (FChar (order_tif (pb_int (nos_time_in_force nos))))"
  by (simp_all add: new_order_body_def order_tif_def order_type_char_def fix_ord_type_def Let_def)

lemma new_order_sent:
  assumes "nos_strategy_id nos = Some s" "length s = 16" "nos_cl_order_id nos = Some o'" "length o' = 16"
  shows "newOrderSingle42 F nos ap = Ret (send_order_to_serializer (fe_codec F) (StrategyId s) nos
    (sendToTarget \<lparr>fm_type = ''D'', fm_header = comp_ids ap,
       fm_body = new_order_body F nos (OrderId o') ap\<rparr> ap))"
  using assms by (simp add: newOrderSingle42_def sid_set_def oid_set_def pb_string_def id_consts)

lemmas sent_simps = send_order_to_serializer_def sendToTarget_def send_report_to_serializer_def
  reply_to_strategy_def

lemma report_side_fix: "fix_side s = FChar c \<Longrightarrow> er_side (report_side c er) = Some s"
  by (cases s) (auto simp: fix_side_def report_side_def fix_chars Let_def)

lemma fix_side_char: "\<exists>c. fix_side s = FChar c"
  by (cases s) (auto simp: fix_side_def)

lemma report_tif_order:
  "er_time_in_force (report_time_in_force (order_tif t) er) = Some (if t \<in> {pb_IOC, pb_FOK} then t else pb_GFD)"
  by (auto simp: report_time_in_force_def order_tif_def fix_chars pb_codes Let_def)

text \<open>A report whose fields have their types and whose order id parses is translated.\<close>

lemma report_of_typed_from:
  assumes "uuid_ok (fe_uuid F)" "length o' = 16" "fields_typed m"
    "m ClOrdID = Some (FString (id_text (fe_uuid F) (OrderId o')))"
  shows "\<exists>er1. run_steps (report_steps F m) (empty_report\<lparr>er_cl_order_id := Some o'\<rparr>) = Ret er1 \<and>
    er_cl_order_id er1 = Some o' \<and>
    report_of F ap m = Ret (OrderId o', er1\<lparr>er_venue_id := Some (sint (cfg_venue_id (ap_config ap)))\<rparr>)"
proof -
  have "oid_parse (fe_uuid F) (id_text (fe_uuid F) (OrderId o')) new_order_id = (0, OrderId o')"
    using id_text_parse [OF assms(1,2)] by simp
  then have i: "report_order_id (fe_uuid F) m (new_order_id, empty_report) =
      Ret (OrderId o', empty_report\<lparr>er_cl_order_id := Some o'\<rparr>)"
    using assms(4) by (simp add: report_order_id_def)
  obtain er1 where er1: "run_steps (report_steps F m) (empty_report\<lparr>er_cl_order_id := Some o'\<rparr>) = Ret er1"
    using run_steps_returns [OF report_steps_return [OF assms(3)]] by blast
  then show ?thesis
    using i report_steps_fields(1) [OF er1] by (auto simp: report_of_def)
qed

lemma report_of_typed:
  assumes "uuid_ok (fe_uuid F)" "length o' = 16" "fields_typed m"
    "m ClOrdID = Some (FString (id_text (fe_uuid F) (OrderId o')))"
  shows "\<exists>er0 er1. run_steps (report_steps F m) er0 = Ret er1 \<and> er_cl_order_id er1 = Some o' \<and>
    report_of F ap m = Ret (OrderId o', er1\<lparr>er_venue_id := Some (sint (cfg_venue_id (ap_config ap)))\<rparr>)"
  using report_of_typed_from [OF assms, of ap] by blast

text \<open>The fields an exchange repeats in its report of an order.\<close>

definition echoes :: "fields \<Rightarrow> fields \<Rightarrow> bool" where
  "echoes body m = list_all (\<lambda>t. m t = body t) [ClOrdID, Symbol, Side, OrderQty, OrdType, Price, TimeInForce]"

text \<open>
  C15. An order survives the exchange. A new order with ids of 16 bytes is handed to FIX once; every
  report that repeats its fields, whatever else it holds in fields of the right types, is translated
  back to the order id, symbol (up to a NUL), side, quantity and price the strategy sent, with the
  time in force as far as the code knows it and day otherwise.  The order type does not survive: it
  comes back as the character code of the FIX field.
\<close>

theorem order_echo:
  assumes "uuid_ok (fe_uuid F)" "nos_strategy_id nos = Some s" "length s = 16"
    "nos_cl_order_id nos = Some o'" "length o' = 16"
  shows "\<exists>ap' m. newOrderSingle42 F nos ap = Ret ap' \<and> ap_sent ap' = ap_sent ap @ [m] \<and>
    (\<forall>r. fields_typed r \<and> echoes (fm_body m) r \<longrightarrow> (\<exists>er. report_of F ap' r = Ret (OrderId o', er) \<and>
       er_cl_order_id er = nos_cl_order_id nos \<and>
       er_symbol er = Some (c_str (pb_string (nos_symbol nos))) \<and>
       er_side er = Some (pb_side_of (nos_side nos)) \<and>
       er_order_qty er = Some (pb_double (nos_order_qty nos)) \<and>
       er_price er = Some (pb_double (nos_price nos)) \<and>
       er_time_in_force er = Some (let t = pb_int (nos_time_in_force nos) in if t \<in> {pb_IOC, pb_FOK} then t else pb_GFD) \<and>
       er_ord_type er = Some (int_of_char (let t = pb_int (nos_ord_type nos) in
         if t = pb_LIM then ap_limitOrderChar40 ap else char_of_int t))))"
proof -
  define m where "m = \<lparr>fm_type = ''D'', fm_header = comp_ids ap, fm_body = new_order_body F nos (OrderId o') ap\<rparr>"
  define ap' where "ap' = send_order_to_serializer (fe_codec F) (StrategyId s) nos (sendToTarget m ap)"
  have sent: "newOrderSingle42 F nos ap = Ret ap'"
    using new_order_sent [OF assms(2-5)] by (simp add: ap'_def m_def)
  have "\<exists>er. report_of F ap' r = Ret (OrderId o', er) \<and>
       er_cl_order_id er = nos_cl_order_id nos \<and>
       er_symbol er = Some (c_str (pb_string (nos_symbol nos))) \<and>
       er_side er = Some (pb_side_of (nos_side nos)) \<and>
       er_order_qty er = Some (pb_double (nos_order_qty nos)) \<and>
       er_price er = Some (pb_double (nos_price nos)) \<and>
       er_time_in_force er = Some (let t = pb_int (nos_time_in_force nos) in if t \<in> {pb_IOC, pb_FOK} then t else pb_GFD) \<and>
       er_ord_type er = Some (int_of_char (let t = pb_int (nos_ord_type nos) in
         if t = pb_LIM then ap_limitOrderChar40 ap else char_of_int t))"
    if r: "fields_typed r" "echoes (fm_body m) r" for r
  proof -
    obtain c where c: "fix_side (pb_side_of (nos_side nos)) = FChar c"
      using fix_side_char by blast
    have e: "r ClOrdID = Some (FString (id_text (fe_uuid F) (OrderId o')))"
      "r Symbol = Some (FString (c_str (pb_string (nos_symbol nos))))" "r Side = Some (FChar c)"
      "r OrderQty = Some (FDouble (pb_double (nos_order_qty nos)))"
      "r OrdType = Some (FChar (order_type_char ap (pb_int (nos_ord_type nos))))"
      "r Price = Some (FDouble (pb_double (nos_price nos)))"
      "r TimeInForce = Some (FChar (order_tif (pb_int (nos_time_in_force nos))))"
      using r(2) by (simp_all add: echoes_def m_def new_order_body_fields c)
    obtain er0 er1 where er: "run_steps (report_steps F r) er0 = Ret er1" "er_cl_order_id er1 = Some o'"
      "report_of F ap' r = Ret (OrderId o', er1\<lparr>er_venue_id := Some (sint (cfg_venue_id (ap_config ap')))\<rparr>)"
      using report_of_typed [OF assms(1,5) r(1) e(1)] by blast
    note f = report_steps_fields [OF er(1)]
    show ?thesis
      using er(2,3) assms(4) f(2) [OF e(2)] f(3) [OF e(3)] f(4) [OF e(4)] f(5) [OF e(5)] f(6) [OF e(6)]
        f(7) [OF e(7)] report_side_fix [OF c]
      by (auto simp: report_tif_order order_type_char_def Let_def)
  qed
  moreover have "ap_sent ap' = ap_sent ap @ [m]"
    by (simp add: ap'_def sent_simps)
  ultimately show ?thesis
    using sent by blast
qed

section \<open>The cycle through the gateway\<close>

lemma spec_run_append:
  "spec_run v (es @ fs) p = (case spec_run v es p of None \<Rightarrow> None | Some p' \<Rightarrow> spec_run v fs p')"
  by (induction es arbitrary: p) (auto split: option.splits)

lemma grel_route:
  assumes "grel E g p" "sp_routes p s = Some a"
  shows "sid_key s" "length a = 17"
proof -
  show k: "sid_key s" using assms by (auto simp: grel_def)
  then show "length a = 17" using assms unfolding grel_def route_rel_def by force
qed

lemma grel_order:
  assumes "grel E g p" "oid_key o'"
  shows "order_get (ge_orders E) (OrderId o') (gw_ocache g)
    = map_option (\<lambda>s. new_order_info (OrderId o') (StrategyId s)) (sp_orders p o')"
  using assms by (cases "sp_orders p o'") (auto simp: grel_def order_get_def)

text \<open>A report of an order the cache knows goes to the address of its strategy's last hello.\<close>

lemma report_routed_as:
  assumes "tables_ok E" "uuid_ok (fe_uuid F)" "grel E g p" "sp_client p = []" "sp_int p = []"
    "oid_key o'" "sp_orders p o' = Some s" "sp_routes p s = Some a" "ap_has_processor ap"
    "fields_typed r" "r ClOrdID = Some (FString (id_text (fe_uuid F) (OrderId o')))"
  shows "\<exists>ap' er g'. report_of F ap r = Ret (OrderId o', er) \<and> fromApp F (ge_orders E) (gw_ocache g) (ExecutionReport 42 r) ap = Ret ap' \<and>
    er_cl_order_id er = Some o' \<and>
    gw_run E [FromInterface (last (ap_replies ap')), Poll False True] g = Done g' \<and>
    gw_out g' = gw_out g @ multipart [a, word_frame EXEC_RPT, serialize_execution_report (fe_codec F) er]"
proof -
  let ?ap = "ap\<lparr>ap_appMsgCount := ap_appMsgCount ap + 1\<rparr>"
  have l: "length o' = 16" using assms(6) by (simp add: oid_key_def)
  obtain er where er: "er_cl_order_id er = Some o'" "report_of F ?ap r = Ret (OrderId o', er)"
    using report_of_typed [OF assms(2) l assms(10,11), of ?ap] by force
  have "strategy_of_order (ge_orders E) (OrderId o') (gw_ocache g) = StrategyId s"
    using grel_order [OF assms(3,6)] assms(7) by (simp add: strategy_of_order_def new_order_info_def)
  then obtain ap' where ap': "fromApp F (ge_orders E) (gw_ocache g) (ExecutionReport 42 r) ap = Ret ap'"
    "last (ap_replies ap') = [s, word_frame EXEC_RPT, serialize_execution_report (fe_codec F) er]"
    using er(2) assms(9) by (simp add: fromApp_def onMessage_ExecutionReport42_def sent_simps Let_def)
  let ?fs = "[word_frame EXEC_RPT, serialize_execution_report (fe_codec F) er]"
  have "spec_run (ge_venue E) [SInterface s ?fs, SPoll False True] p
      = Some (p\<lparr>sp_int := [], sp_out := sp_out p @ [a # ?fs]\<rparr>)"
    using assms(4,5,8) by (simp add: spec_take_int_def Let_def)
  from gw_run_sim [OF assms(1,3) this] obtain g' where
    g': "gw_run E (map event_of [SInterface s ?fs, SPoll False True]) g = Done g'"
    "grel E g' (p\<lparr>sp_int := [], sp_out := sp_out p @ [a # ?fs]\<rparr>)" by blast
  have "gw_out g' = gw_out g @ multipart (a # ?fs)"
    using g'(2) assms(3) by (simp add: grel_def)
  moreover have "gw_run E [FromInterface (last (ap_replies ap')), Poll False True] g = Done g'"
    using g'(1) by (simp only: list.map event_of.simps ap'(2))
  moreover have "report_of F ?ap r = report_of F ap r" by (simp add: report_of_def split: app_result.split)
  then have "report_of F ap r = Ret (OrderId o', er)" using er(2) by simp
  ultimately show ?thesis
    using ap'(1) er(1) by blast
qed

lemma report_routed:
  assumes "tables_ok E" "uuid_ok (fe_uuid F)" "grel E g p" "sp_client p = []" "sp_int p = []"
    "oid_key o'" "sp_orders p o' = Some s" "sp_routes p s = Some a" "ap_has_processor ap"
    "fields_typed r" "r ClOrdID = Some (FString (id_text (fe_uuid F) (OrderId o')))"
  shows "\<exists>ap' er g'. fromApp F (ge_orders E) (gw_ocache g) (ExecutionReport 42 r) ap = Ret ap' \<and>
    er_cl_order_id er = Some o' \<and>
    gw_run E [FromInterface (last (ap_replies ap')), Poll False True] g = Done g' \<and>
    gw_out g' = gw_out g @ multipart [a, word_frame EXEC_RPT, serialize_execution_report (fe_codec F) er]"
  using report_routed_as [OF assms] by blast

text \<open>
  C16. The life of an order. In any state the gateway can reach with its queues empty, a new order from
  a strategy that said hello is passed to the FIX application and sent to the exchange once; any
  report of the exchange that names the order, with fields of the right types, is passed on as one
  message, behind the address of the strategy, and tells the id the strategy chose.
\<close>

theorem order_cycle:
  assumes "tables_ok E" "uuid_ok (fe_uuid F)"
    and "spec_run (ge_venue E) es spec_init = Some p" "sp_client p = []" "sp_int p = []"
    and "sp_routes p s = Some a" "oid_key o'"
    and "parse_new_order_single (fe_codec F) d = Some nos"
    and "nos_strategy_id nos = Some s" "nos_cl_order_id nos = Some o'"
    and "cfg_version (ap_config ap) = 42" "ap_has_processor ap"
  shows "\<exists>g ap' m.
    gw_run E (map event_of es @ [FromClient [a, word_frame ORDER_NEW, s, o', d], Poll True False])
      (new_gateway E) = Done g \<and>
    last (gw_dispatched g) = (ORDER_NEW, d) \<and>
    dispatch F ORDER_NEW d ap = Ret ap' \<and> ap_sent ap' = ap_sent ap @ [m] \<and>
    (\<forall>r. fields_typed r \<and> r ClOrdID = fm_body m ClOrdID \<longrightarrow>
      (\<exists>ap'' er g'. fromApp F (ge_orders E) (gw_ocache g) (ExecutionReport 42 r) ap' = Ret ap'' \<and>
        er_cl_order_id er = Some o' \<and>
        gw_run E [FromInterface (last (ap_replies ap'')), Poll False True] g = Done g' \<and>
        gw_out g' = gw_out g @ multipart [a, word_frame EXEC_RPT, serialize_execution_report (fe_codec F) er]))"
proof -
  obtain g0 where "grel E g0 p"
    using gw_run_sim [OF assms(1) grel_init [OF assms(1)] assms(3)] by blast
  note rt = grel_route [OF this assms(6)]
  have l: "length s = 16" "length o' = 16"
    using rt(1) assms(7) by (simp_all add: sid_key_def oid_key_def)
  let ?order = "Order a ORDER_NEW s o' d"
  let ?p = "p\<lparr>sp_orders := (sp_orders p)(o' \<mapsto> s), sp_disp := sp_disp p @ [(ORDER_NEW, d)]\<rparr>"
  have "spec_run (ge_venue E) (es @ [SClient ?order, SPoll True False]) spec_init = Some ?p"
    using assms(3-5,7) rt by (simp add: spec_run_append spec_take_client_def Let_def)
  from gw_run_sim [OF assms(1) grel_init [OF assms(1)] this] obtain g where
    g: "gw_run E (map event_of (es @ [SClient ?order, SPoll True False])) (new_gateway E) = Done g"
    "grel E g ?p" by blast
  define m where "m = \<lparr>fm_type = ''D'', fm_header = comp_ids ap, fm_body = new_order_body F nos (OrderId o') ap\<rparr>"
  define ap' where "ap' = send_order_to_serializer (fe_codec F) (StrategyId s) nos (sendToTarget m ap)"
  have sent: "dispatch F ORDER_NEW d ap = Ret ap'"
    using new_order_sent [OF assms(9) l(1) assms(10) l(2)] assms(8,11)
    by (simp add: dispatch_def dispatch_new_def ap'_def m_def)
  have "\<exists>ap'' er g'. fromApp F (ge_orders E) (gw_ocache g) (ExecutionReport 42 r) ap' = Ret ap'' \<and>
        er_cl_order_id er = Some o' \<and>
        gw_run E [FromInterface (last (ap_replies ap'')), Poll False True] g = Done g' \<and>
        gw_out g' = gw_out g @ multipart [a, word_frame EXEC_RPT, serialize_execution_report (fe_codec F) er]"
    if "fields_typed r \<and> r ClOrdID = fm_body m ClOrdID" for r
    by (rule report_routed [OF assms(1,2) g(2)])
      (use that assms(4-7,12) in \<open>simp_all add: m_def ap'_def new_order_body_fields sent_simps\<close>)
  moreover have "ap_sent ap' = ap_sent ap @ [m]" by (simp add: ap'_def sent_simps)
  moreover have "last (gw_dispatched g) = (ORDER_NEW, d)" using g(2) by (simp add: grel_def)
  moreover have "gw_run E (map event_of es @ [FromClient [a, word_frame ORDER_NEW, s, o', d], Poll True False])
      (new_gateway E) = Done g"
    using g(1) by simp
  ultimately show ?thesis
    using sent by blast
qed

section \<open>Where orders and reports are lost or altered\<close>

text \<open>
  A report of an order the gateway does not know brings it down. The order cache is only filled by
  the requests of this run; a report, well-formed as it may be, of any other order (one placed before
  a restart, or by another client of the session) is sent to the all-zero strategy id, and the message
  processor fails its assertion that the route has a node.
\<close>

theorem unknown_order_report_aborts:
  assumes "tables_ok E" "uuid_ok (fe_uuid F)"
    and "spec_run (ge_venue E) es spec_init = Some p" "sp_int p = []"
    and "gw_run E (map event_of es) (new_gateway E) = Done g"
    and "oid_key o'" "sp_orders p o' = None" "ap_has_processor ap"
    and "fields_typed r" "r ClOrdID = Some (FString (id_text (fe_uuid F) (OrderId o')))"
    and "dh_find (ge_strategies E) (gw_scache g) new_strategy_id = None"
  shows "\<exists>ap'. fromApp F (ge_orders E) (gw_ocache g) (ExecutionReport 42 r) ap = Ret ap' \<and>
    hd (last (ap_replies ap')) = replicate 16 NUL \<and>
    gw_run E [FromInterface (last (ap_replies ap')), Poll False True] g = Fails"
proof -
  let ?ap = "ap\<lparr>ap_appMsgCount := ap_appMsgCount ap + 1\<rparr>"
  have g: "grel E g p"
    using gw_run_sim [OF assms(1) grel_init [OF assms(1)] assms(3)] assms(5) by auto
  have l: "length o' = 16" using assms(6) by (simp add: oid_key_def)
  obtain er where er: "report_of F ?ap r = Ret (OrderId o', er)"
    using report_of_typed [OF assms(2) l assms(9,10), of ?ap] by force
  have "strategy_of_order (ge_orders E) (OrderId o') (gw_ocache g) = new_strategy_id"
    using grel_order [OF g assms(6)] assms(7) by (simp add: strategy_of_order_def)
  then obtain ap' data where ap': "fromApp F (ge_orders E) (gw_ocache g) (ExecutionReport 42 r) ap = Ret ap'"
    "last (ap_replies ap') = [replicate 16 NUL, word_frame EXEC_RPT, data]"
    using er assms(8)
    by (simp add: fromApp_def onMessage_ExecutionReport42_def sent_simps new_strategy_id_def id_consts Let_def)
  have q: "gw_inproc g = []" using grel_queues(2) [OF g] assms(4) by simp
  have z: "snd (sid_set (replicate 16 NUL) new_strategy_id) = new_strategy_id"
    by (simp add: sid_set_def new_strategy_id_def id_consts)
  have "gw_run E [FromInterface (last (ap_replies ap')), Poll False True] g = Fails"
    using q by (simp add: ap'(2) poll_once_def rcv_internal_def recv_inproc_def z assms(11)
        strategy_get_def route_size_def new_route_def Let_def)
  then show ?thesis using ap' by auto
qed

lemma char_of_int_1: "char_of_int 1 = CHR 0x01"
  by (simp add: char_of_int_def char_of_def bit_0)

text \<open>
  What the translation of orders loses. A new order or a replace with an id that is not 16 bytes
  long aborts the process; a market order is sent with the control character 1, the FIX field
  separator, as its order type; a fill-or-kill replace is sent with an empty time in force; a cancel
  whose original id has a wrong length is sent for the all-zero order; a cancel that does not parse is
  handled as a replace; and a possible duplicate, which FIX marks in the header, is not held back; nor is any other
  message, the handler catching its own \<^verbatim>\<open>DoNotSend\<close>.
\<close>

theorem order_translation_losses:
  assumes "uuid_ok (fe_uuid F)" "length s = 16" "length o' = 16" "length b \<noteq> 16"
    and "parse_order_cancel (fe_codec F) d = None"
    and "fm_header m PossDupFlag = Some (FBool True)" "fm_body m PossDupFlag = None"
  shows "(newOrderSingle42 F (nos\<lparr>nos_strategy_id := Some b\<rparr>) ap = Abort) \<and>
    (newOrderSingle42 F (nos\<lparr>nos_cl_order_id := Some b\<rparr>) ap = Abort) \<and>
    (\<exists>ap' f. newOrderSingle42 F (nos\<lparr>nos_strategy_id := Some s, nos_cl_order_id := Some o', nos_ord_type := Some pb_MKT\<rparr>) ap
           = Ret ap' \<and> ap_sent ap' = ap_sent ap @ [f] \<and> fm_body f OrdType = Some (FChar (CHR 0x01))) \<and>
    (\<exists>ap' f. orderCancelReplace42 F (ocr\<lparr>ocr_orig_cl_order_id := Some o', ocr_cl_order_id := Some o', ocr_time_in_force := Some pb_FOK\<rparr>) ap
           = Ret ap' \<and> ap_sent ap' = ap_sent ap @ [f] \<and> fm_body f TimeInForce = Some FEmpty) \<and>
    (\<exists>ap' f. orderCancel42 F (oc\<lparr>oc_orig_cl_order_id := Some b\<rparr>) ap = Ret ap' \<and> ap_sent ap' = ap_sent ap @ [f] \<and>
           fm_body f OrigClOrdID = Some (FString (uuid_unparse (fe_uuid F) (replicate 16 NUL)))) \<and>
    (dispatch F ORDER_CANCEL d ap = dispatch F ORDER_REPLACE d ap) \<and>
    (toApp derived m) \<and> (toApp True m')"
proof (intro conjI)
  show "newOrderSingle42 F (nos\<lparr>nos_strategy_id := Some b\<rparr>) ap = Abort"
    "newOrderSingle42 F (nos\<lparr>nos_cl_order_id := Some b\<rparr>) ap = Abort"
    using assms(4) by (auto simp: newOrderSingle42_def sid_set_def oid_set_def pb_string_def id_consts Let_def)
  let ?n = "nos\<lparr>nos_strategy_id := Some s, nos_cl_order_id := Some o', nos_ord_type := Some pb_MKT\<rparr>"
  have "newOrderSingle42 F ?n ap = Ret (send_order_to_serializer (fe_codec F) (StrategyId s) ?n
      (sendToTarget \<lparr>fm_type = ''D'', fm_header = comp_ids ap, fm_body = new_order_body F ?n (OrderId o') ap\<rparr> ap))"
    by (rule new_order_sent) (use assms in simp_all)
  then show "\<exists>ap' f. newOrderSingle42 F ?n ap = Ret ap' \<and> ap_sent ap' = ap_sent ap @ [f] \<and>
      fm_body f OrdType = Some (FChar (CHR 0x01))"
    by (simp add: sent_simps new_order_body_fields order_type_char_def pb_int_def pb_codes char_of_int_1)
  show "\<exists>ap' f. orderCancelReplace42 F (ocr\<lparr>ocr_orig_cl_order_id := Some o', ocr_cl_order_id := Some o', ocr_time_in_force := Some pb_FOK\<rparr>) ap
           = Ret ap' \<and> ap_sent ap' = ap_sent ap @ [f] \<and> fm_body f TimeInForce = Some FEmpty"
    using assms(3) by (simp add: orderCancelReplace42_def oid_set_def pb_string_def pb_int_def pb_codes id_consts sent_simps Let_def)
  have "oid_set (pb_string (Some b)) new_order_id = (False, OrderId (replicate 16 NUL))"
    using assms(4) by (simp add: oid_set_def pb_string_def id_consts new_order_id_def)
  then show "\<exists>ap' f. orderCancel42 F (oc\<lparr>oc_orig_cl_order_id := Some b\<rparr>) ap = Ret ap' \<and> ap_sent ap' = ap_sent ap @ [f] \<and>
           fm_body f OrigClOrdID = Some (FString (uuid_unparse (fe_uuid F) (replicate 16 NUL)))"
    using id_text_parse(1) [OF assms(1), of "replicate 16 NUL"]
    by (simp add: orderCancel42_def sent_simps Let_def)
  show "dispatch F ORDER_CANCEL d ap = dispatch F ORDER_REPLACE d ap"
    using assms(5) by (simp add: dispatch_def dispatch_cancel_def ORDER_NEW_def ORDER_CANCEL_def ORDER_REPLACE_def)
  show "toApp derived m" "toApp True m'"
    using assms(7) by (simp_all add: toApp_def check_possdup_def)
qed

section \<open>Witnesses\<close>

definition demo_nos :: new_order_single where
  "demo_nos = \<lparr>nos_cl_order_id = Some demo_oid, nos_strategy_id = Some demo_sid, nos_symbol = Some ''EURUSD'',
     nos_side = Some PB_ASK, nos_order_qty = Some 1000000, nos_ord_type = Some 2, nos_price = Some (13 / 10),
     nos_time_in_force = Some 3, nos_account = None, nos_venue_id = Some 890778\<rparr>"

definition demo_codec :: codec where
  "demo_codec = \<lparr>parse_new_order_single = (\<lambda>d. if d = ''sell'' then Some demo_nos else None),
     parse_order_cancel = (\<lambda>_. None), parse_order_cancel_replace = (\<lambda>_. None),
     parse_order_status = (\<lambda>_. None), serialize_new_order_single = (\<lambda>_. ''sell''),
     serialize_execution_report = (\<lambda>_. ''report''), serialize_order_cancel_reject = (\<lambda>_. ''reject'')\<rparr>"

definition demo_fix :: fix_env where
  "demo_fix = \<lparr>fe_uuid = demo_uuid, fe_codec = demo_codec, fe_now = FTime ''now'', fe_time_text = (\<lambda>t. t)\<rparr>"

definition demo_app :: application where
  "demo_app = run_application (new_application False
     \<lparr>cfg_username = [], cfg_password = [], cfg_senderCompID = ''us'', cfg_targetCompID = ''them'',
      cfg_sendPasswordInRawDataField = False, cfg_version = 42, cfg_venue_id = 890778\<rparr> False CHR ''2'')"

lemma demo_fix_uuid: "uuid_ok (fe_uuid demo_fix)"
  by (simp add: demo_fix_def demo_uuid_ok)

lemma demo_nos_ids: "nos_strategy_id demo_nos = Some demo_sid" "nos_cl_order_id demo_nos = Some demo_oid"
  "length demo_sid = 16" "length demo_oid = 16"
  by (simp_all add: demo_nos_def)

definition demo_body :: fields where
  "demo_body = new_order_body demo_fix demo_nos (OrderId demo_oid) demo_app"

lemma demo_body_typed: "fields_typed demo_body"
  by (simp add: demo_body_def fields_typed_def report_types_def typed_at_def new_order_body_def Let_def
      empty_fields_def demo_fix_def fix_side_def fix_ord_type_def demo_nos_def pb_defaults)

lemma order_echo_witness:
  "\<exists>ap' er. newOrderSingle42 demo_fix demo_nos demo_app = Ret ap' \<and>
     report_of demo_fix ap' demo_body = Ret (OrderId demo_oid, er) \<and> er_symbol er = Some ''EURUSD'' \<and>
     er_side er = Some PB_ASK \<and> er_time_in_force er = Some 3 \<and> er_ord_type er = Some 50"
proof -
  from order_echo [OF demo_fix_uuid demo_nos_ids(1,3,2,4), of demo_app] obtain ap' m where
    m: "newOrderSingle42 demo_fix demo_nos demo_app = Ret ap'" "ap_sent ap' = ap_sent demo_app @ [m]"
    "\<And>r. fields_typed r \<Longrightarrow> echoes (fm_body m) r \<Longrightarrow> \<exists>er. report_of demo_fix ap' r = Ret (OrderId demo_oid, er) \<and>
       er_symbol er = Some (c_str (pb_string (nos_symbol demo_nos))) \<and>
       er_side er = Some (pb_side_of (nos_side demo_nos)) \<and>
       er_time_in_force er = Some (let t = pb_int (nos_time_in_force demo_nos) in if t \<in> {pb_IOC, pb_FOK} then t else pb_GFD) \<and>
       er_ord_type er = Some (int_of_char (let t = pb_int (nos_ord_type demo_nos) in
         if t = pb_LIM then ap_limitOrderChar40 demo_app else char_of_int t))"
    by blast
  have b: "fm_body m = demo_body"
    using m(1,2) new_order_sent [OF demo_nos_ids(1,3,2,4), of demo_fix demo_app]
    by (auto simp: sent_simps demo_body_def)
  have "echoes (fm_body m) demo_body" by (simp add: b echoes_def)
  from m(3) [OF demo_body_typed this] m(1) show ?thesis
    by (auto simp: demo_nos_def demo_app_def run_application_def new_application_def pb_defaults pb_codes
        c_str_def NUL_def int_of_char_def Let_def)
qed

abbreviation demo_hello :: "spec_event list" where
  "demo_hello \<equiv> [SClient (Helo demo_addr demo_sid), SPoll True False, SPoll False True]"

lemma demo_hello_run:
  "\<exists>p. spec_run (ge_venue demo_env) demo_hello spec_init = Some p \<and> sp_client p = [] \<and> sp_int p = [] \<and>
     sp_routes p demo_sid = Some demo_addr"
  using demo_keys by (simp add: spec_init_def spec_take_client_def spec_take_int_def Let_def)

lemma order_cycle_witness:
  "\<exists>g ap'. gw_run demo_env (map event_of demo_hello @
       [FromClient [demo_addr, word_frame ORDER_NEW, demo_sid, demo_oid, ''sell''], Poll True False])
       (new_gateway demo_env) = Done g \<and>
     dispatch demo_fix ORDER_NEW ''sell'' demo_app = Ret ap' \<and>
     (\<exists>ap'' g'. fromApp demo_fix (ge_orders demo_env) (gw_ocache g) (ExecutionReport 42 demo_body) ap' = Ret ap'' \<and>
        gw_run demo_env [FromInterface (last (ap_replies ap'')), Poll False True] g = Done g' \<and>
        gw_out g' = gw_out g @ multipart [demo_addr, word_frame EXEC_RPT, ''report''])"
proof -
  obtain p where p: "spec_run (ge_venue demo_env) demo_hello spec_init = Some p" "sp_client p = []" "sp_int p = []"
    "sp_routes p demo_sid = Some demo_addr"
    using demo_hello_run by blast
  have d: "parse_new_order_single (fe_codec demo_fix) ''sell'' = Some demo_nos"
    "cfg_version (ap_config demo_app) = 42" "ap_has_processor demo_app"
    by (simp_all add: demo_fix_def demo_codec_def demo_app_def run_application_def new_application_def)
  note c = order_cycle [OF demo_env_ok demo_fix_uuid p demo_keys(2) d(1) demo_nos_ids(1,2) d(2,3)]
  obtain g ap' m where g: "gw_run demo_env (map event_of demo_hello @
       [FromClient [demo_addr, word_frame ORDER_NEW, demo_sid, demo_oid, ''sell''], Poll True False])
       (new_gateway demo_env) = Done g" "dispatch demo_fix ORDER_NEW ''sell'' demo_app = Ret ap'"
    "ap_sent ap' = ap_sent demo_app @ [m]"
    "\<And>r. fields_typed r \<Longrightarrow> r ClOrdID = fm_body m ClOrdID \<Longrightarrow>
      \<exists>ap'' er g'. fromApp demo_fix (ge_orders demo_env) (gw_ocache g) (ExecutionReport 42 r) ap' = Ret ap'' \<and>
        gw_run demo_env [FromInterface (last (ap_replies ap'')), Poll False True] g = Done g' \<and>
        gw_out g' = gw_out g @ multipart [demo_addr, word_frame EXEC_RPT, serialize_execution_report (fe_codec demo_fix) er]"
    using c by blast
  have "fm_body m = demo_body"
    using g(2,3) new_order_sent [OF demo_nos_ids(1,3,2,4), of demo_fix demo_app] d
    by (auto simp: sent_simps demo_body_def dispatch_def dispatch_new_def)
  with g(4) [OF demo_body_typed] g(1,2) show ?thesis
    by (auto simp: demo_fix_def demo_codec_def)
qed

lemma unknown_order_report_aborts_witness:
  "\<exists>ap'. fromApp demo_fix (ge_orders demo_env) (gw_ocache (new_gateway demo_env)) (ExecutionReport 42 demo_body) demo_app = Ret ap' \<and>
     gw_run demo_env [FromInterface (last (ap_replies ap')), Poll False True] (new_gateway demo_env) = Fails"
proof -
  have p: "spec_run (ge_venue demo_env) [] spec_init = Some spec_init" "sp_int spec_init = []"
    "sp_orders spec_init demo_oid = None" "gw_run demo_env (map event_of []) (new_gateway demo_env) = Done (new_gateway demo_env)"
    by (simp_all add: spec_init_def)
  have a: "ap_has_processor demo_app"
    "demo_body ClOrdID = Some (FString (id_text (fe_uuid demo_fix) (OrderId demo_oid)))"
    "dh_find (ge_strategies demo_env) (gw_scache (new_gateway demo_env)) new_strategy_id = None"
    by (simp_all add: demo_app_def run_application_def demo_body_def new_order_body_fields demo_env_def
        new_gateway_def new_strategy_cache_def list_table_def)
  from unknown_order_report_aborts [OF demo_env_ok demo_fix_uuid p(1,2,4) demo_keys(2) p(3) a(1) demo_body_typed a(2,3)]
  show ?thesis by blast
qed

lemma order_translation_losses_witness:
  "newOrderSingle42 demo_fix (demo_nos\<lparr>nos_strategy_id := Some ''short''\<rparr>) demo_app = Abort \<and>
   dispatch demo_fix ORDER_CANCEL ''junk'' demo_app = dispatch demo_fix ORDER_REPLACE ''junk'' demo_app \<and>
   toApp False \<lparr>fm_type = ''D'', fm_header = [PossDupFlag \<mapsto> FBool True], fm_body = empty_fields\<rparr>"
proof -
  have h: "length ''short'' \<noteq> 16" "parse_order_cancel (fe_codec demo_fix) ''junk'' = None"
    "fm_header \<lparr>fm_type = ''D'', fm_header = [PossDupFlag \<mapsto> FBool True], fm_body = empty_fields\<rparr> PossDupFlag = Some (FBool True)"
    "fm_body \<lparr>fm_type = ''D'', fm_header = [PossDupFlag \<mapsto> FBool True], fm_body = empty_fields\<rparr> PossDupFlag = None"
    by (simp_all add: demo_fix_def demo_codec_def empty_fields_def)
  from order_translation_losses [OF demo_fix_uuid demo_nos_ids(3,4) h, of demo_nos demo_app
    "\<lparr>ocr_orig_cl_order_id = None, ocr_cl_order_id = None, ocr_strategy_id = None, ocr_handl_inst = None,
      ocr_symbol = None, ocr_side = None, ocr_order_qty = None, ocr_price = None, ocr_transact_time = None,
      ocr_ord_type = None, ocr_time_in_force = None\<rparr>"
    "\<lparr>oc_orig_cl_order_id = None, oc_cl_order_id = None, oc_strategy_id = None, oc_symbol = None, oc_side = None,
      oc_order_qty = None, oc_fut_sett_date = None\<rparr>"]
  show ?thesis by blast
qed

end
