(* ===== verification/TradeSerializerCorrect.thy ===== *)
theory TradeSerializerCorrect
  imports TradeSerializer FixAppCorrect
begin

text \<open>
  The trade serializer: what its tables hold after any history of orders and reports is read off the
  history itself (\<open>tables_of_history\<close>), an order sent through the gateway is recorded with its fills
  (\<open>order_recorded\<close>), and where records are lost or go to the wrong order (\<open>recording_errors\<close>).

  The database keeps the promises of \<open>db_ok\<close>: a statement prepares, a row that fits its columns is
  inserted unless its primary key is taken, and an update changes the row of its key and nothing else.
\<close>

section \<open>The tables\<close>

type_synonym order_key = "string \<times> string"

record ledger =
  lg_orders :: "order_key \<rightharpoonup> order_row"
  lg_trades :: "trade_row list"

definition column :: "nat \<Rightarrow> string \<Rightarrow> bool" where
  "column n s \<longleftrightarrow> length s \<le> n \<and> list_all (\<lambda>c. (of_char c :: int) < 128) s"

definition tinyint :: "int \<Rightarrow> bool" where
  "tinyint i \<longleftrightarrow> - 128 \<le> i \<and> i \<le> 127"

text \<open>Rows that fit the columns of \<^verbatim>\<open>schema.sql\<close>.\<close>

definition order_fits :: "order_row \<Rightarrow> bool" where
  "order_fits r \<longleftrightarrow> column 40 (or_strategy_id r) \<and> column 40 (or_cl_order_id r) \<and>
     (case or_orig_cl_order_id r of None \<Rightarrow> True | Some s \<Rightarrow> column 40 s) \<and>
     column 8 (or_symbol r) \<and> tinyint (or_side r) \<and> tinyint (or_ord_type r) \<and>
     tinyint (or_time_in_force r) \<and> column 16 (or_account r)"

definition trade_fits :: "trade_row \<Rightarrow> bool" where
  "trade_fits r \<longleftrightarrow> column 40 (tr_strategy_id r) \<and> column 40 (tr_cl_order_id r) \<and>
     column 40 (tr_orig_cl_order_id r) \<and> column 128 (tr_exec_id r) \<and> column 8 (tr_symbol r) \<and>
     column 6 (tr_security_type r) \<and> tinyint (tr_side r) \<and> tinyint (tr_ord_type r) \<and>
     tinyint (tr_time_in_force r) \<and> column 64 (tr_transact_time r) \<and> column 16 (tr_exec_inst r) \<and>
     tinyint (tr_handl_inst r) \<and> tinyint (tr_order_reject_reason r) \<and> column 16 (tr_account r)"

definition order_key_of :: "order_row \<Rightarrow> order_key" where
  "order_key_of r = (or_strategy_id r, or_cl_order_id r)"

definition ledger_insert :: "order_row \<Rightarrow> ledger \<Rightarrow> ledger" where
  "ledger_insert r l = (if lg_orders l (order_key_of r) = None
     then l\<lparr>lg_orders := (lg_orders l)(order_key_of r \<mapsto> r)\<rparr> else l)"

definition ledger_set_status :: "int \<Rightarrow> order_key \<Rightarrow> ledger \<Rightarrow> ledger" where
  "ledger_set_status s k l = l\<lparr>lg_orders := (lg_orders l)(k := map_option (\<lambda>r. r\<lparr>or_order_status := s\<rparr>) (lg_orders l k))\<rparr>"

text \<open>Keys are texts of ids: libuuid prints them in lower case, so that the collation of the tables
  does not identify two of them.\<close>

definition id_texts :: "libuuid \<Rightarrow> string set" where
  "id_texts L = uuid_unparse L ` {a. length a = 16}"

definition db_ok :: "libuuid \<Rightarrow> 'd sql \<Rightarrow> ('d \<Rightarrow> ledger) \<Rightarrow> bool" where
  "db_ok L S v \<longleftrightarrow>
     (\<forall>q d. sql_prepares S q d) \<and>
     (\<forall>r d. order_fits r \<and> order_key_of r \<in> id_texts L \<times> id_texts L \<longrightarrow>
        v (after_sql (sql_insert_order S r d)) = ledger_insert r (v d)) \<and>
     (\<forall>r d. trade_fits r \<longrightarrow> v (after_sql (sql_insert_trade S r d)) = (v d)\<lparr>lg_trades := lg_trades (v d) @ [r]\<rparr>) \<and>
     (\<forall>s a b d. a \<in> id_texts L \<and> b \<in> id_texts L \<longrightarrow>
        v (after_sql (sql_set_status S s a b d)) = ledger_set_status s (a, b) (v d))"

text \<open>The clock reads times whose nanoseconds fit 64 bits.\<close>

definition clock_ok :: "'d ts_env \<Rightarrow> (nat \<Rightarrow> int) \<Rightarrow> bool" where
  "clock_ok E T \<longleftrightarrow> (\<forall>n. row_time E n = Some (T n))"

section \<open>Histories\<close>

text \<open>An event is a message of the gateway with the strategy it is attributed to.\<close>

datatype ts_event = Placed strategy_id new_order_single | Reported strategy_id execution_report

fun event_sid :: "ts_event \<Rightarrow> strategy_id" where
  "event_sid (Placed s _) = s"
| "event_sid (Reported s _) = s"

fun event_frames :: "codec \<Rightarrow> ts_event \<Rightarrow> string list" where
  "event_frames C (Placed s nos) = [sid s, word_frame ORDER_NEW, serialize_new_order_single C nos]"
| "event_frames C (Reported s er) = [sid s, word_frame EXEC_RPT, serialize_execution_report C er]"

fun codec_reads :: "'d ts_env \<Rightarrow> codec \<Rightarrow> ts_event \<Rightarrow> bool" where
  "codec_reads E C (Placed s nos) \<longleftrightarrow> te_parse_order E (serialize_new_order_single C nos) = Some nos"
| "codec_reads E C (Reported s er) \<longleftrightarrow> te_parse_report E (serialize_execution_report C er) = Some er"

abbreviation report_status :: "execution_report \<Rightarrow> int" where
  "report_status er \<equiv> pb_int (er_order_status er)"

text \<open>The order an event puts on record, the order whose status it sets, and the trade it is, each
  with the time of the row where it has one.\<close>

fun opens :: "libuuid \<Rightarrow> ts_event \<Rightarrow> int \<Rightarrow> order_row option" where
  "opens L (Placed s nos) t = Some (order_of_nos L s nos t)"
| "opens L (Reported s er) t = (if report_status er = ORD_STATUS_REPLACE then Some (order_of_er L s er t) else None)"

fun opened_id :: "ts_event \<Rightarrow> (strategy_id \<times> order_id) option" where
  "opened_id (Placed s nos) = Some (s, read_order_id (nos_cl_order_id nos))"
| "opened_id (Reported s er) = (if report_status er = ORD_STATUS_REPLACE
     then Some (s, read_order_id (er_cl_order_id er)) else None)"

fun settles :: "ts_event \<Rightarrow> ((strategy_id \<times> order_id) \<times> int) option" where
  "settles (Placed s nos) = None"
| "settles (Reported s er) = (let k = report_status er in
     if k = ORD_STATUS_REPLACE then Some ((s, read_order_id (er_orig_cl_order_id er)), ORD_STATUS_CANCELLED)
     else if k = ORD_STATUS_CANCELLED \<or> k = ORD_STATUS_REJECTED then Some ((s, read_order_id (er_orig_cl_order_id er)), k)
     else if k = ORD_STATUS_FILL then Some ((s, read_order_id (er_cl_order_id er)), k)
     else None)"

fun trades_in :: "libuuid \<Rightarrow> ts_event \<Rightarrow> int \<Rightarrow> trade_row list" where
  "trades_in L (Placed s nos) t = []"
| "trades_in L (Reported s er) t = (if report_status er \<in> {ORD_STATUS_FILL, ORD_STATUS_PARTIAL_FILL}
     then [trade_of_er L s er t] else [])"

text \<open>Each row takes one reading of the clock.\<close>

definition rows_in :: "ts_event \<Rightarrow> nat" where
  "rows_in e = (if opened_id e \<noteq> None then 1 else 0) +
     (case e of Placed _ _ \<Rightarrow> 0 | Reported _ er \<Rightarrow> if report_status er \<in> {ORD_STATUS_FILL, ORD_STATUS_PARTIAL_FILL} then 1 else 0)"

definition rows_before :: "ts_event list \<Rightarrow> nat" where
  "rows_before es = sum_list (map rows_in es)"

definition status_changes :: "strategy_id \<times> order_id \<Rightarrow> ts_event list \<Rightarrow> int list" where
  "status_changes k es = List.map_filter (\<lambda>e. case settles e of Some (k', s) \<Rightarrow> if k' = k then Some s else None | None \<Rightarrow> None) es"

text \<open>The row of an order after a history: the one its first event opened, with the last status set
  since, new at first.\<close>

definition recorded :: "libuuid \<Rightarrow> (nat \<Rightarrow> int) \<Rightarrow> ts_event list \<Rightarrow> strategy_id \<times> order_id \<Rightarrow> order_row option" where
  "recorded L T es k = (case dropWhile (\<lambda>e. opened_id e \<noteq> Some k) es of
     [] \<Rightarrow> None
   | e # later \<Rightarrow> map_option (\<lambda>r. r\<lparr>or_order_status := last (ORD_STATUS_NEW # status_changes k (e # later))\<rparr>)
       (opens L e (T (rows_before (takeWhile (\<lambda>e. opened_id e \<noteq> Some k) es)))))"

fun recorded_trades :: "libuuid \<Rightarrow> (nat \<Rightarrow> int) \<Rightarrow> nat \<Rightarrow> ts_event list \<Rightarrow> trade_row list" where
  "recorded_trades L T n [] = []"
| "recorded_trades L T n (e # es) = trades_in L e (T n) @ recorded_trades L T (n + rows_in e) es"

section \<open>One message\<close>

lemma length_read_order_id: "length (oid (read_order_id x)) = 16"
  by (simp add: read_order_id_def oid_set_def new_order_id_def id_consts)

lemma read_order_id_None: "read_order_id None = new_order_id"
  by (simp add: read_order_id_def oid_set_def pb_string_def id_consts)

lemma id_text_unparse: "uuid_ok L \<Longrightarrow> length (oid i) = 16 \<Longrightarrow> id_text L i = uuid_unparse L (oid i)"
  using id_text_parse(1) [of L "oid i"] by simp

lemma sid_text_unparse: "uuid_ok L \<Longrightarrow> length (sid s) = 16 \<Longrightarrow> sid_text L s = uuid_unparse L (sid s)"
  using id_text_unparse [of L "OrderId (sid s)"]
  by (simp add: sid_text_def sid_c_str_def id_text_def oid_c_str_def)

lemma unparse_inj:
  assumes "uuid_ok L" "length a = 16" "length b = 16"
  shows "uuid_unparse L a = uuid_unparse L b \<longleftrightarrow> a = b"
  using assms by (metis option.inject uuid_ok_def)

definition key_text :: "libuuid \<Rightarrow> strategy_id \<times> order_id \<Rightarrow> order_key" where
  "key_text L k = (sid_text L (fst k), id_text L (snd k))"

definition key_ok :: "strategy_id \<times> order_id \<Rightarrow> bool" where
  "key_ok k \<longleftrightarrow> length (sid (fst k)) = 16 \<and> length (oid (snd k)) = 16"

lemma key_text_inj:
  assumes "uuid_ok L" "key_ok k" "key_ok k'"
  shows "key_text L k = key_text L k' \<longleftrightarrow> k = k'"
  using assms by (cases k; cases k') (auto simp: key_text_def key_ok_def id_text_unparse sid_text_unparse unparse_inj
      intro: strategy_id.expand order_id.expand)

lemma key_text_in: "uuid_ok L \<Longrightarrow> key_ok k \<Longrightarrow> key_text L k \<in> id_texts L \<times> id_texts L"
  by (simp add: key_text_def key_ok_def id_text_unparse sid_text_unparse id_texts_def)

definition event_ledger :: "libuuid \<Rightarrow> int \<Rightarrow> ts_event \<Rightarrow> ledger \<Rightarrow> ledger" where
  "event_ledger L t e l =
    (let l = (case opens L e t of Some r \<Rightarrow> ledger_insert r l | None \<Rightarrow> l);
         l = (case settles e of Some (k, s) \<Rightarrow> ledger_set_status s (key_text L k) l | None \<Rightarrow> l)
     in l\<lparr>lg_trades := lg_trades l @ trades_in L e t\<rparr>)"

definition event_ok :: "libuuid \<Rightarrow> (nat \<Rightarrow> int) \<Rightarrow> ts_event \<Rightarrow> bool" where
  "event_ok L T e \<longleftrightarrow> length (sid (event_sid e)) = 16 \<and>
     (\<forall>n r. opens L e (T n) = Some r \<longrightarrow> order_fits r) \<and> (\<forall>n. \<forall>r \<in> set (trades_in L e (T n)). trade_fits r)"

lemma opens_key:
  "opens L e t = Some r \<Longrightarrow> \<exists>k. opened_id e = Some k \<and> order_key_of r = key_text L k"
  "opens L e t = None \<longleftrightarrow> opened_id e = None"
  by (cases e; auto simp: order_of_nos_def order_of_er_def order_key_of_def key_text_def split: if_splits)+

lemma opened_key_ok: "opened_id e = Some k \<Longrightarrow> length (sid (event_sid e)) = 16 \<Longrightarrow> key_ok k"
  by (cases e) (auto simp: key_ok_def length_read_order_id split: if_splits)

lemma settled_key_ok: "settles e = Some (k, s) \<Longrightarrow> length (sid (event_sid e)) = 16 \<Longrightarrow> key_ok k"
  by (cases e) (auto simp: key_ok_def length_read_order_id Let_def split: if_splits)

lemma run_insert_ok:
  assumes "db_ok L (te_sql E) v" "clock_ok E T"
  shows "run_insert E q f st = Some (st\<lparr>ts_clock := ts_clock st + 1,
    ts_db := after_sql (f (T (ts_clock st)) (ts_db st))\<rparr>)"
  using assms by (simp add: run_insert_def db_ok_def clock_ok_def)

lemma setOrderStatus_ok:
  assumes "uuid_ok L" "te_uuid E = L" "db_ok L (te_sql E) v" "key_ok (ts_sid st, i)"
  shows "\<exists>d. setOrderStatus E i x st = Some (st\<lparr>ts_db := d\<rparr>) \<and>
    v d = ledger_set_status x (key_text L (ts_sid st, i)) (v (ts_db st))"
  using assms key_text_in [OF assms(1,4)]
  by (auto simp: setOrderStatus_def db_ok_def key_text_def
      intro!: exI [of _ "after_sql (sql_set_status (te_sql E) x (sid_text L (ts_sid st)) (id_text L i) (ts_db st))"])

lemma insert_order_ok:
  assumes "db_ok L (te_sql E) v" "clock_ok E T" "order_fits (f (T (ts_clock st)))"
    "order_key_of (f (T (ts_clock st))) \<in> id_texts L \<times> id_texts L"
  shows "\<exists>d. run_insert E q (\<lambda>t. sql_insert_order (te_sql E) (f t)) st =
      Some (st\<lparr>ts_clock := ts_clock st + 1, ts_db := d\<rparr>) \<and> v d = ledger_insert (f (T (ts_clock st))) (v (ts_db st))"
  using run_insert_ok [OF assms(1,2)] assms(1,3,4)
  by (auto simp: db_ok_def intro!: exI [of _ "after_sql (sql_insert_order (te_sql E) (f (T (ts_clock st))) (ts_db st))"])

lemma insert_trade_ok:
  assumes "db_ok L (te_sql E) v" "clock_ok E T" "trade_fits (f (T (ts_clock st)))"
  shows "\<exists>d. run_insert E q (\<lambda>t. sql_insert_trade (te_sql E) (f t)) st =
      Some (st\<lparr>ts_clock := ts_clock st + 1, ts_db := d\<rparr>) \<and>
      v d = (v (ts_db st))\<lparr>lg_trades := lg_trades (v (ts_db st)) @ [f (T (ts_clock st))]\<rparr>"
  using run_insert_ok [OF assms(1,2)] assms(1,3)
  by (auto simp: db_ok_def intro!: exI [of _ "after_sql (sql_insert_trade (te_sql E) (f (T (ts_clock st))) (ts_db st))"])

definition recorder_ok :: "libuuid \<Rightarrow> 'd ts_env \<Rightarrow> ('d \<Rightarrow> ledger) \<Rightarrow> (nat \<Rightarrow> int) \<Rightarrow> bool" where
  "recorder_ok L E v T \<longleftrightarrow> uuid_ok L \<and> te_uuid E = L \<and> db_ok L (te_sql E) v \<and> clock_ok E T"

lemma updateOrder_ok:
  assumes "recorder_ok L E v T" "event_ok L T (Reported (ts_sid st) er)"
  shows "\<exists>d. updateOrder E er st = Some (st\<lparr>ts_clock := ts_clock st + rows_in (Reported (ts_sid st) er), ts_db := d\<rparr>) \<and>
    v d = event_ledger L (T (ts_clock st)) (Reported (ts_sid st) er) (v (ts_db st))"
proof -
  let ?s = "report_status er" and ?e = "Reported (ts_sid st) er"
  let ?cl = "read_order_id (er_cl_order_id er)" and ?orig = "read_order_id (er_orig_cl_order_id er)"
  note r = assms(1) [unfolded recorder_ok_def]
  have k: "key_ok (ts_sid st, read_order_id x)" for x
    using assms(2) by (simp add: key_ok_def event_ok_def length_read_order_id)
  have orig: "(case er_orig_cl_order_id er of Some _ \<Rightarrow> ?orig | None \<Rightarrow> new_order_id) = ?orig"
    by (simp add: read_order_id_None split: option.split)
  consider "?s = ORD_STATUS_REPLACE" | "?s = ORD_STATUS_CANCELLED \<or> ?s = ORD_STATUS_REJECTED"
    | "?s = ORD_STATUS_FILL" | "?s = ORD_STATUS_PARTIAL_FILL"
    | "?s \<notin> {ORD_STATUS_REPLACE, ORD_STATUS_CANCELLED, ORD_STATUS_REJECTED, ORD_STATUS_FILL, ORD_STATUS_PARTIAL_FILL}"
    by blast
  then show ?thesis
  proof cases
    case 1
    have f: "order_fits (order_of_er L (ts_sid st) er (T n))" for n
      using assms(2) 1 by (simp add: event_ok_def)
    have "order_key_of (order_of_er L (ts_sid st) er (T n)) \<in> id_texts L \<times> id_texts L" for n
      using key_text_in [OF _ k, of L] r
      by (simp add: order_key_of_def order_of_er_def key_text_def)
    from insert_order_ok [of L E v T "order_of_er L (ts_sid st) er" st InsertOrder_er, OF _ _ f this] r obtain d where
      d: "insertOrder_er E er st = Some (st\<lparr>ts_clock := ts_clock st + 1, ts_db := d\<rparr>)"
        "v d = ledger_insert (order_of_er L (ts_sid st) er (T (ts_clock st))) (v (ts_db st))"
      by (auto simp: insertOrder_er_def)
    from setOrderStatus_ok [of L E v "st\<lparr>ts_clock := ts_clock st + 1, ts_db := d\<rparr>" ?orig ORD_STATUS_CANCELLED] r k
    show ?thesis
      using 1 d by (auto simp: updateOrder_def Let_def orig ord_status_codes event_ledger_def rows_in_def)
  next
    case 2
    then show ?thesis
      using setOrderStatus_ok [of L E v st ?orig ?s] r k
      by (auto simp: updateOrder_def Let_def orig ord_status_codes event_ledger_def rows_in_def)
  next
    case 3
    from setOrderStatus_ok [of L E v st ?cl ?s] r k obtain d where
      d: "setOrderStatus E ?cl ?s st = Some (st\<lparr>ts_db := d\<rparr>)"
        "v d = ledger_set_status ?s (key_text L (ts_sid st, ?cl)) (v (ts_db st))"
      by blast
    have "trade_fits (trade_of_er L (ts_sid st) er (T n))" for n
      using assms(2) 3 by (simp add: event_ok_def)
    from insert_trade_ok [of L E v T "trade_of_er L (ts_sid st) er" "st\<lparr>ts_db := d\<rparr>" InsertTrade, OF _ _ this] r 3 d show ?thesis
      by (auto simp: updateOrder_def Let_def insertTrade_def ord_status_codes event_ledger_def rows_in_def)
  next
    case 4
    have "trade_fits (trade_of_er L (ts_sid st) er (T n))" for n
      using assms(2) 4 by (simp add: event_ok_def)
    from insert_trade_ok [of L E v T "trade_of_er L (ts_sid st) er" st InsertTrade, OF _ _ this] r 4 show ?thesis
      by (auto simp: updateOrder_def Let_def insertTrade_def ord_status_codes event_ledger_def rows_in_def)
  next
    case 5
    then show ?thesis
      by (auto simp: updateOrder_def Let_def event_ledger_def rows_in_def intro!: exI [of _ "ts_db st"])
  qed
qed

lemma handle_event:
  assumes "recorder_ok L E v T" "event_ok L T e" "event_frames C e = [a, b, c]" "codec_reads E C e"
  shows "\<exists>st'. handle_order_message E a b c st = Some st' \<and> ts_clock st' = ts_clock st + rows_in e \<and>
    v (ts_db st') = event_ledger L (T (ts_clock st)) e (v (ts_db st))"
proof -
  note r = assms(1) [unfolded recorder_ok_def]
  let ?st = "st\<lparr>ts_sid := event_sid e\<rparr>"
  have s: "snd (sid_set (sid (event_sid e)) x) = event_sid e" for x
    using assms(2) by (simp add: sid_set_def event_ok_def id_consts)
  show ?thesis
  proof (cases e)
    case (Placed s nos)
    have f: "order_fits (order_of_nos L s nos (T n))" for n
      using assms(2) Placed by (simp add: event_ok_def)
    have "key_ok (s, read_order_id (nos_cl_order_id nos))"
      using assms(2) Placed by (simp add: key_ok_def event_ok_def length_read_order_id)
    then have "order_key_of (order_of_nos L s nos (T n)) \<in> id_texts L \<times> id_texts L" for n
      using key_text_in [of L "(s, read_order_id (nos_cl_order_id nos))"] r
      by (simp add: order_key_of_def order_of_nos_def key_text_def)
    from insert_order_ok [of L E v T "order_of_nos L s nos" ?st InsertOrder_nos, OF _ _ f this] r s Placed show ?thesis
      using assms(3,4) by (auto simp: handle_order_message_def insertOrder_nos_def Let_def
          event_ledger_def rows_in_def)
  next
    case (Reported s er)
    have "EXEC_RPT \<noteq> ORDER_NEW" by (simp add: EXEC_RPT_def ORDER_NEW_def)
    with updateOrder_ok [of L E v T ?st er] assms r s Reported show ?thesis
      by (auto simp: handle_order_message_def Let_def)
  qed
qed

section \<open>Histories of messages\<close>

definition history_frames :: "codec \<Rightarrow> ts_event list \<Rightarrow> string list" where
  "history_frames C es = concat (map (event_frames C) es)"

fun history_ledger :: "libuuid \<Rightarrow> (nat \<Rightarrow> int) \<Rightarrow> nat \<Rightarrow> ts_event list \<Rightarrow> ledger \<Rightarrow> ledger" where
  "history_ledger L T n [] l = l"
| "history_ledger L T n (e # es) l = history_ledger L T (n + rows_in e) es (event_ledger L (T n) e l)"

lemma event_frames_three: "\<exists>a b c. event_frames C e = [a, b, c]"
  by (cases e) auto

lemma handleOrders_history:
  assumes "recorder_ok L E v T" "list_all (\<lambda>e. event_ok L T e \<and> codec_reads E C e) es"
  shows "\<exists>st'. handleOrders E (history_frames C es) st = Some st' \<and> ts_clock st' = ts_clock st + rows_before es \<and>
    v (ts_db st') = history_ledger L T (ts_clock st) es (v (ts_db st))"
  using assms(2)
proof (induction es arbitrary: st)
  case (Cons e es)
  obtain a b c where f: "event_frames C e = [a, b, c]"
    using event_frames_three by blast
  from handle_event [OF assms(1) _ f _, of st] Cons.prems obtain st1 where
    st1: "handle_order_message E a b c st = Some st1" "ts_clock st1 = ts_clock st + rows_in e"
      "v (ts_db st1) = event_ledger L (T (ts_clock st)) e (v (ts_db st))" by auto
  from Cons.IH [of st1] Cons.prems obtain st2 where
    "handleOrders E (history_frames C es) st1 = Some st2" "ts_clock st2 = ts_clock st1 + rows_before es"
      "v (ts_db st2) = history_ledger L T (ts_clock st1) es (v (ts_db st1))" by auto
  with st1 f show ?case by (auto simp: history_frames_def rows_before_def)
qed (simp add: history_frames_def rows_before_def)

lemma history_ledger_snoc:
  "history_ledger L T n (es @ [e]) l = event_ledger L (T (n + rows_before es)) e (history_ledger L T n es l)"
  by (induction es arbitrary: n l) (simp_all add: rows_before_def add.assoc)

lemma event_trades: "lg_trades (event_ledger L t e l) = lg_trades l @ trades_in L e t"
  by (simp add: event_ledger_def Let_def ledger_insert_def ledger_set_status_def split: option.split)

lemma history_trades: "lg_trades (history_ledger L T n es l) = lg_trades l @ recorded_trades L T n es"
  by (induction es arbitrary: n l) (simp_all add: event_trades)

lemma event_row:
  assumes "uuid_ok L" "length (sid (event_sid e)) = 16" "key_ok k"
  shows "lg_orders (event_ledger L t e l) (key_text L k) =
    (let r = (if lg_orders l (key_text L k) = None \<and> opened_id e = Some k then opens L e t else lg_orders l (key_text L k))
     in case status_changes k [e] of [] \<Rightarrow> r | s # _ \<Rightarrow> map_option (\<lambda>r. r\<lparr>or_order_status := s\<rparr>) r)"
proof -
  let ?t = "key_text L k"
  let ?l = "case opens L e t of Some r \<Rightarrow> ledger_insert r l | None \<Rightarrow> l"
  have o: "lg_orders ?l ?t = (if lg_orders l ?t = None \<and> opened_id e = Some k then opens L e t else lg_orders l ?t)"
  proof (cases "opens L e t")
    case None
    then show ?thesis using opens_key(2) [of L e t] by auto
  next
    case (Some r)
    from opens_key(1) [OF Some] obtain k' where k': "opened_id e = Some k'" "order_key_of r = key_text L k'" by blast
    have "key_text L k = key_text L k' \<longleftrightarrow> k = k'"
      using key_text_inj [OF assms(1,3) opened_key_ok [OF k'(1) assms(2)]] .
    then show ?thesis using Some k' by (auto simp: ledger_insert_def)
  qed
  show ?thesis
  proof (cases "settles e")
    case None
    then show ?thesis using o by (simp add: event_ledger_def Let_def status_changes_def List.map_filter_simps)
  next
    case (Some p)
    obtain k' s where p: "p = (k', s)" by (cases p)
    have "key_text L k = key_text L k' \<longleftrightarrow> k = k'"
      using key_text_inj [OF assms(1,3)] settled_key_ok [of e k' s] assms(2) Some p by blast
    then show ?thesis using Some p o
      by (auto simp: event_ledger_def Let_def status_changes_def List.map_filter_simps ledger_set_status_def)
  qed
qed

lemma status_changes_append: "status_changes k (es @ es') = status_changes k es @ status_changes k es'"
  by (simp add: status_changes_def List.map_filter_def)

lemma opens_new: "opens L e t = Some r \<Longrightarrow> or_order_status r = ORD_STATUS_NEW"
  by (cases e) (auto simp: order_of_nos_def order_of_er_def split: if_splits)

lemma recorded_snoc:
  "recorded L T (es @ [e]) k =
    (let r = (if recorded L T es k = None \<and> opened_id e = Some k then opens L e (T (rows_before es)) else recorded L T es k)
     in case status_changes k [e] of [] \<Rightarrow> r | s # _ \<Rightarrow> map_option (\<lambda>r. r\<lparr>or_order_status := s\<rparr>) r)"
proof (cases "\<exists>f \<in> set es. opened_id f = Some k")
  case True
  then obtain xs f ys where es: "es = xs @ f # ys" "opened_id f = Some k" "\<forall>x \<in> set xs. opened_id x \<noteq> Some k"
    using split_list_first_prop [of es "\<lambda>f. opened_id f = Some k"] by blast
  have tw: "takeWhile (\<lambda>e. opened_id e \<noteq> Some k) (xs @ f # zs) = xs"
    and dw: "dropWhile (\<lambda>e. opened_id e \<noteq> Some k) (xs @ f # zs) = f # zs" for zs
    using es(2,3) by (simp_all add: takeWhile_append2 dropWhile_append2)
  obtain r where r: "opens L f (T (rows_before xs)) = Some r"
    using opens_key(2) [of L f "T (rows_before xs)"] es(2) by fastforce
  have one: "status_changes k (f # ys @ [e]) = status_changes k (f # ys) @ status_changes k [e]"
    using status_changes_append [of k "f # ys" "[e]"] by simp
  have "status_changes k [e] = [] \<or> (\<exists>s. status_changes k [e] = [s])"
    by (simp add: status_changes_def List.map_filter_def)
  then show ?thesis
    using tw [of ys] tw [of "ys @ [e]"] dw [of ys] dw [of "ys @ [e]"]
    by (auto simp: recorded_def es(1) r one)
next
  case False
  then have "takeWhile (\<lambda>e. opened_id e \<noteq> Some k) (es @ zs) = es @ takeWhile (\<lambda>e. opened_id e \<noteq> Some k) zs"
    "dropWhile (\<lambda>e. opened_id e \<noteq> Some k) (es @ zs) = dropWhile (\<lambda>e. opened_id e \<noteq> Some k) zs" for zs
    by (simp_all add: takeWhile_append2 dropWhile_append2)
  moreover from False have "dropWhile (\<lambda>e. opened_id e \<noteq> Some k) es = []"
    by (simp add: dropWhile_eq_Nil_conv)
  then have "recorded L T es k = None" unfolding recorded_def by (simp only: list.case)
  moreover have "opens L e t = Some r \<Longrightarrow> r\<lparr>or_order_status := ORD_STATUS_NEW\<rparr> = r" for t r
    using opens_new by fastforce
  moreover have "status_changes k [e] = [] \<or> (\<exists>s. status_changes k [e] = [s])"
    by (simp add: status_changes_def List.map_filter_def)
  ultimately show ?thesis
    by (cases "opens L e (T (rows_before es))") (auto simp: recorded_def)
qed

lemma history_row:
  assumes "uuid_ok L" "list_all (\<lambda>e. length (sid (event_sid e)) = 16) es" "key_ok k" "lg_orders l (key_text L k) = None"
  shows "lg_orders (history_ledger L T 0 es l) (key_text L k) = recorded L T es k"
  using assms(2)
proof (induction es rule: rev_induct)
  case Nil
  then show ?case using assms(4) by (simp add: recorded_def)
next
  case (snoc e es)
  then show ?case
    using event_row [OF assms(1) _ assms(3), of e] by (simp add: history_ledger_snoc recorded_snoc)
qed

section \<open>What the tables hold\<close>

lemma history_keys:
  assumes "list_all (\<lambda>e. length (sid (event_sid e)) = 16) es" "dom (lg_orders l) \<subseteq> key_text L ` Collect key_ok"
  shows "dom (lg_orders (history_ledger L T n es l)) \<subseteq> key_text L ` Collect key_ok"
  using assms
proof (induction es arbitrary: n l)
  case (Cons e es)
  have "dom (lg_orders (event_ledger L (T n) e l)) \<subseteq> key_text L ` Collect key_ok"
  proof -
    have "order_key_of r \<in> key_text L ` Collect key_ok" if "opens L e (T n) = Some r" for r
      using opens_key(1) [OF that] opened_key_ok Cons.prems(1) by auto
    then show ?thesis
      using Cons.prems(2) by (auto simp: event_ledger_def Let_def ledger_insert_def ledger_set_status_def
          split: option.splits if_splits prod.splits)
  qed
  then show ?case using Cons by simp
qed simp

lemma history_tables:
  assumes "recorder_ok L E v T" "list_all (\<lambda>e. event_ok L T e \<and> codec_reads E C e) es" "lg_orders (v d) = Map.empty"
  shows "\<exists>st. handleOrders E (history_frames C es) (new_serializer d) = Some st \<and>
    (\<forall>k. key_ok k \<longrightarrow> lg_orders (v (ts_db st)) (key_text L k) = recorded L T es k) \<and>
    dom (lg_orders (v (ts_db st))) \<subseteq> key_text L ` Collect key_ok \<and>
    lg_trades (v (ts_db st)) = lg_trades (v d) @ recorded_trades L T 0 es"
proof -
  have u: "uuid_ok L" and s: "list_all (\<lambda>e. length (sid (event_sid e)) = 16) es"
    using assms(1,2) by (auto simp: recorder_ok_def event_ok_def list_all_iff)
  from handleOrders_history [OF assms(1,2), of "new_serializer d"] obtain st where
    st: "handleOrders E (history_frames C es) (new_serializer d) = Some st"
      "v (ts_db st) = history_ledger L T 0 es (v d)"
    by (auto simp: new_serializer_def)
  show ?thesis
    using st history_row [OF u s, of _ "v d" T] history_keys [OF s, of "v d" L T 0] assms(3)
    by (auto simp: history_trades)
qed

text \<open>
  C20. The tables are a function of the history. If the statements succeed on rows that fit their
  columns, the clock is in range and the messages parse back, any history of orders and reports of
  strategies with ids of 16 bytes is recorded: an order has a row exactly when some message opened it
  (a new order or a replacement), with the data of the first that did and the last status that was set
  since, new at first; there are no other rows; and the trades are the fills and partial fills in order.
\<close>

theorem tables_of_history:
  assumes "recorder_ok L E v T" "list_all (\<lambda>e. event_ok L T e \<and> codec_reads E C e) es" "lg_orders (v d) = Map.empty"
  shows "\<exists>st. handleOrders E (history_frames C es) (new_serializer d) = Some st \<and>
    (\<forall>k. key_ok k \<longrightarrow> lg_orders (v (ts_db st)) (key_text L k) = recorded L T es k) \<and>
    dom (lg_orders (v (ts_db st))) \<subseteq> key_text L ` Collect key_ok \<and>
    lg_trades (v (ts_db st)) = lg_trades (v d) @ recorded_trades L T 0 es"
  using assms by (rule history_tables)

section \<open>From the exchange to the tables\<close>

fun reports_run :: "fix_env \<Rightarrow> 'g order_table \<Rightarrow> 'g \<Rightarrow> fields list \<Rightarrow> application \<Rightarrow> application app_result" where
  "reports_run F D oc [] ap = Ret ap"
| "reports_run F D oc (m # ms) ap = (case fromApp F D oc (ExecutionReport 42 m) ap of
     Ret ap' \<Rightarrow> reports_run F D oc ms ap' | Throw \<Rightarrow> Throw | Abort \<Rightarrow> Abort)"

text \<open>A report of an order that replaces nothing: typed, naming the order, with a status and without
  an original order id.\<close>

definition plain_report :: "libuuid \<Rightarrow> string \<Rightarrow> fields \<Rightarrow> bool" where
  "plain_report L o' m \<longleftrightarrow> fields_typed m \<and> m ClOrdID = Some (FString (id_text L (OrderId o'))) \<and>
     m OrigClOrdID = None \<and> m OrdStatus \<noteq> None"

definition status_of :: "fields \<Rightarrow> int" where
  "status_of m = (case m OrdStatus of Some (FChar c) \<Rightarrow> int_of_char c | _ \<Rightarrow> 0)"

definition double_of :: "fields \<Rightarrow> fix_tag \<Rightarrow> dbl" where
  "double_of m t = (case m t of Some (FDouble x) \<Rightarrow> x | _ \<Rightarrow> 0)"

lemma more_side_keeps:
  "er_order_status (report_side c er) = er_order_status er" "er_last_shares (report_side c er) = er_last_shares er"
  "er_last_price (report_side c er) = er_last_price er" "er_orig_cl_order_id (report_side c er) = er_orig_cl_order_id er"
  "er_order_status (report_time_in_force c er) = er_order_status er"
  "er_last_shares (report_time_in_force c er) = er_last_shares er"
  "er_last_price (report_time_in_force c er) = er_last_price er"
  "er_orig_cl_order_id (report_time_in_force c er) = er_orig_cl_order_id er"
  by (simp_all add: report_side_def report_time_in_force_def Let_def)

lemma kind_of_char: "kind_of y = K_char \<longleftrightarrow> (\<exists>c. y = FChar c)"
  by (cases y) auto

lemma on_double_cases: "on_double m t f c = Ret d \<Longrightarrow>
    m t = None \<and> d = c \<or> (\<exists>x. m t = Some (FDouble x) \<and> d = f x c)"
  by (auto simp: on_double_def split: option.splits fix_value.splits)

lemma fill_fields:
  assumes "run_steps (report_steps F m) er = Ret er'" "fields_typed m"
  shows "m OrdStatus = Some (FChar c) \<Longrightarrow> er_order_status er' = Some (int_of_char c)"
    and "m OrigClOrdID = None \<Longrightarrow> er_orig_cl_order_id er' = er_orig_cl_order_id er"
    and "er_last_shares er = None \<Longrightarrow> pb_double (er_last_shares er') = double_of m LastShares"
    and "er_last_price er = None \<Longrightarrow> pb_double (er_last_price er') = double_of m LastPx"
proof -
  note k = report_steps_def keeps_on more_side_keeps
  have "\<exists>(c :: execution_report) d. on_char m OrdStatus (\<lambda>x er. er\<lparr>er_order_status := Some (int_of_char x)\<rparr>) c = Ret d \<and>
      er_order_status c = er_order_status er \<and> er_order_status er' = er_order_status d"
    by (rule run_steps_at [OF assms(1), of 3]) (simp_all add: k)
  then show "m OrdStatus = Some (FChar c) \<Longrightarrow> er_order_status er' = Some (int_of_char c)"
    by (auto simp: on_defs)
  have "\<exists>(c :: execution_report) d. on_string m OrigClOrdID
        (\<lambda>x er. er\<lparr>er_orig_cl_order_id := Some (oid (snd (oid_parse (fe_uuid F) x new_order_id)))\<rparr>) c = Ret d \<and>
      er_orig_cl_order_id c = er_orig_cl_order_id er \<and> er_orig_cl_order_id er' = er_orig_cl_order_id d"
    by (rule run_steps_at [OF assms(1), of 0]) (simp_all add: k)
  then show "m OrigClOrdID = None \<Longrightarrow> er_orig_cl_order_id er' = er_orig_cl_order_id er"
    by (auto simp: on_defs)
  have "\<exists>(c :: execution_report) d. on_double m LastShares (\<lambda>x er. er\<lparr>er_last_shares := Some x\<rparr>) c = Ret d \<and>
      er_last_shares c = er_last_shares er \<and> er_last_shares er' = er_last_shares d"
    by (rule run_steps_at [OF assms(1), of 11]) (simp_all add: k)
  then show "er_last_shares er = None \<Longrightarrow> pb_double (er_last_shares er') = double_of m LastShares"
    by (auto simp: double_of_def pb_double_def dest!: on_double_cases)
  have "\<exists>(c :: execution_report) d. on_double m LastPx (\<lambda>x er. er\<lparr>er_last_price := Some x\<rparr>) c = Ret d \<and>
      er_last_price c = er_last_price er \<and> er_last_price er' = er_last_price d"
    by (rule run_steps_at [OF assms(1), of 12]) (simp_all add: k)
  then show "er_last_price er = None \<Longrightarrow> pb_double (er_last_price er') = double_of m LastPx"
    by (auto simp: double_of_def pb_double_def dest!: on_double_cases)
qed

lemma plain_report_of:
  assumes "uuid_ok (fe_uuid F)" "length o' = 16" "plain_report (fe_uuid F) o' m"
  shows "\<exists>er. report_of F ap m = Ret (OrderId o', er) \<and> er_cl_order_id er = Some o' \<and> er_orig_cl_order_id er = None \<and>
    report_status er = status_of m \<and> pb_double (er_last_shares er) = double_of m LastShares \<and>
    pb_double (er_last_price er) = double_of m LastPx"
proof -
  note p = assms(3) [unfolded plain_report_def]
  obtain er where er: "run_steps (report_steps F m) (empty_report\<lparr>er_cl_order_id := Some o'\<rparr>) = Ret er"
    "er_cl_order_id er = Some o'"
    "report_of F ap m = Ret (OrderId o', er\<lparr>er_venue_id := Some (sint (cfg_venue_id (ap_config ap)))\<rparr>)"
    using report_of_typed_from [OF assms(1,2)] p by blast
  obtain c where c: "m OrdStatus = Some (FChar c)"
  proof -
    have "typed_at m OrdStatus K_char" using p by (simp add: fields_typed_def report_types_def)
    then show ?thesis using p that by (auto simp: typed_at_def kind_of_char)
  qed
  show ?thesis
    using fill_fields [OF er(1)] p c er(2,3) by (auto simp: status_of_def pb_int_def empty_report_def)
qed

abbreviation fill_statuses :: "int set" where
  "fill_statuses \<equiv> {ORD_STATUS_FILL, ORD_STATUS_PARTIAL_FILL}"

text \<open>A report of the order \<open>o'\<close> of strategy \<open>s\<close> as the serializer sees it.\<close>

definition report_event :: "libuuid \<Rightarrow> string \<Rightarrow> strategy_id \<Rightarrow> fields \<Rightarrow> ts_event \<Rightarrow> bool" where
  "report_event L o' s m e \<longleftrightarrow> (\<exists>er. e = Reported s er \<and> er_cl_order_id er = Some o' \<and> er_orig_cl_order_id er = None \<and>
     report_status er = status_of m \<and> pb_double (er_last_shares er) = double_of m LastShares \<and>
     pb_double (er_last_price er) = double_of m LastPx)"

text \<open>A message whose report parses back and fits the columns.\<close>

definition recordable :: "fix_env \<Rightarrow> 'd ts_env \<Rightarrow> application \<Rightarrow> strategy_id \<Rightarrow> fields \<Rightarrow> bool" where
  "recordable F E ap s m \<longleftrightarrow> (\<forall>i er. report_of F ap m = Ret (i, er) \<longrightarrow>
     te_parse_report E (serialize_execution_report (fe_codec F) er) = Some er \<and>
     (\<forall>t. trade_fits (trade_of_er (fe_uuid F) s er t)))"

lemma recordable_config: "ap_config ap' = ap_config ap \<Longrightarrow> recordable F E ap' s m = recordable F E ap s m"
  by (simp add: recordable_def report_of_def split: app_result.split)

lemma order_fits_time: "order_fits (order_of_nos L s nos t) \<longleftrightarrow> order_fits (order_of_nos L s nos 0)"
  by (simp add: order_fits_def order_of_nos_def)

lemma one_report:
  assumes "uuid_ok (fe_uuid F)" "length o' = 16" "plain_report (fe_uuid F) o' m" "recordable F E ap (StrategyId s) m"
    "length s = 16" "ap_has_processor ap" "strategy_of_order D (OrderId o') oc = StrategyId s"
    "status_of m \<noteq> ORD_STATUS_REPLACE"
  shows "\<exists>ap' e. fromApp F D oc (ExecutionReport 42 m) ap = Ret ap' \<and> ap_has_processor ap' \<and>
    ap_config ap' = ap_config ap \<and> ap_serialized ap' = ap_serialized ap @ [event_frames (fe_codec F) e] \<and>
    report_event (fe_uuid F) o' (StrategyId s) m e \<and> event_ok (fe_uuid F) T e \<and> codec_reads E (fe_codec F) e"
proof -
  let ?ap = "ap\<lparr>ap_appMsgCount := ap_appMsgCount ap + 1\<rparr>"
  obtain er where er: "report_of F ?ap m = Ret (OrderId o', er)" "er_cl_order_id er = Some o'"
    "er_orig_cl_order_id er = None" "report_status er = status_of m"
    "pb_double (er_last_shares er) = double_of m LastShares" "pb_double (er_last_price er) = double_of m LastPx"
    using plain_report_of [OF assms(1-3), of ?ap] by blast
  have "recordable F E ?ap (StrategyId s) m"
    using assms(4) by (subst recordable_config [of _ ap]) simp_all
  with er(1) have "trade_fits (trade_of_er (fe_uuid F) (StrategyId s) er t)"
    "codec_reads E (fe_codec F) (Reported (StrategyId s) er)" for t
    by (simp_all add: recordable_def)
  with er(4) assms(5,8) have "event_ok (fe_uuid F) T (Reported (StrategyId s) er) \<and>
      codec_reads E (fe_codec F) (Reported (StrategyId s) er)"
    by (simp add: event_ok_def)
  moreover have "report_event (fe_uuid F) o' (StrategyId s) m (Reported (StrategyId s) er)"
    using er(2-6) by (simp add: report_event_def)
  moreover have "\<exists>ap'. fromApp F D oc (ExecutionReport 42 m) ap = Ret ap' \<and> ap_has_processor ap' \<and>
    ap_config ap' = ap_config ap \<and>
    ap_serialized ap' = ap_serialized ap @ [event_frames (fe_codec F) (Reported (StrategyId s) er)]"
    using er(1) assms(6,7) by (simp add: fromApp_def onMessage_ExecutionReport42_def sent_simps)
  ultimately show ?thesis by blast
qed

lemma reports_recorded:
  assumes "uuid_ok (fe_uuid F)" "length o' = 16" "length s = 16" "strategy_of_order D (OrderId o') oc = StrategyId s"
  shows "list_all (\<lambda>m. plain_report (fe_uuid F) o' m \<and> recordable F E ap (StrategyId s) m \<and>
      status_of m \<noteq> ORD_STATUS_REPLACE) rs \<Longrightarrow> ap_has_processor ap \<Longrightarrow>
    \<exists>ap' es. reports_run F D oc rs ap = Ret ap' \<and>
      ap_serialized ap' = ap_serialized ap @ map (event_frames (fe_codec F)) es \<and>
      list_all2 (report_event (fe_uuid F) o' (StrategyId s)) rs es \<and>
      list_all (\<lambda>e. event_ok (fe_uuid F) T e \<and> codec_reads E (fe_codec F) e) es"
proof (induction rs arbitrary: ap)
  case (Cons m rs)
  obtain ap1 e where e: "fromApp F D oc (ExecutionReport 42 m) ap = Ret ap1" "ap_has_processor ap1"
    "ap_config ap1 = ap_config ap" "ap_serialized ap1 = ap_serialized ap @ [event_frames (fe_codec F) e]"
    "report_event (fe_uuid F) o' (StrategyId s) m e" "event_ok (fe_uuid F) T e" "codec_reads E (fe_codec F) e"
    using one_report [OF assms(1,2) _ _ assms(3) Cons.prems(2) assms(4), of m E T] Cons.prems(1) by auto
  have "list_all (\<lambda>m. plain_report (fe_uuid F) o' m \<and> recordable F E ap1 (StrategyId s) m \<and>
      status_of m \<noteq> ORD_STATUS_REPLACE) rs"
    using Cons.prems(1) by (simp add: recordable_config [OF e(3)])
  from Cons.IH [OF this e(2)] obtain ap' es where "reports_run F D oc rs ap1 = Ret ap'"
    "ap_serialized ap' = ap_serialized ap1 @ map (event_frames (fe_codec F)) es"
    "list_all2 (report_event (fe_uuid F) o' (StrategyId s)) rs es"
    "list_all (\<lambda>e. event_ok (fe_uuid F) T e \<and> codec_reads E (fe_codec F) e) es" by blast
  with e show ?case
    by (intro exI [of _ ap'] exI [of _ "e # es"]) simp
qed (auto intro: exI [of _ "[]"])

text \<open>What such reports do to the row of their order, and the trades they are.\<close>

lemma report_event_changes:
  assumes "list_all2 (report_event L o' s) rs es" "length o' = 16" "o' \<noteq> replicate 16 NUL"
    "list_all (\<lambda>m. status_of m \<noteq> ORD_STATUS_REPLACE) rs"
  shows "status_changes (s, OrderId o') es = map status_of (filter (\<lambda>m. status_of m = ORD_STATUS_FILL) rs)"
proof -
  have i: "read_order_id (Some o') = OrderId o'" "read_order_id None \<noteq> OrderId o'"
    using assms(2,3) by (simp_all add: read_order_id_def oid_set_def pb_string_def id_consts read_order_id_None new_order_id_def)
  have one: "status_of m \<noteq> ORD_STATUS_REPLACE \<Longrightarrow> report_event L o' s m e \<Longrightarrow> status_changes (s, OrderId o') [e] =
      (if status_of m = ORD_STATUS_FILL then [status_of m] else [])" for m e
    using i by (auto simp: report_event_def status_changes_def List.map_filter_def Let_def ord_status_codes
        split: if_splits)
  show ?thesis
    using assms(1,4)
  proof (induction rule: list_all2_induct)
    case (Cons m ms e es)
    then show ?case using status_changes_append [of "(s, OrderId o')" "[e]" es] one [of m e] by simp
  qed (simp add: status_changes_def List.map_filter_simps)
qed

lemma report_event_trades:
  assumes "list_all2 (report_event L o' s) rs es" "length o' = 16"
  shows "map (\<lambda>t. (tr_cl_order_id t, tr_last_shares t, tr_last_price t)) (recorded_trades L T n es) =
    map (\<lambda>m. (id_text L (OrderId o'), double_of m LastShares, double_of m LastPx))
      (filter (\<lambda>m. status_of m \<in> fill_statuses) rs)"
  using assms(1)
proof (induction arbitrary: n rule: list_all2_induct)
  case (Cons m ms e es)
  have "read_order_id (Some o') = OrderId o'"
    using assms(2) by (simp add: read_order_id_def oid_set_def pb_string_def id_consts)
  then show ?case using Cons by (auto simp: report_event_def trade_of_er_def)
qed simp

text \<open>
  C21. From the exchange to the tables. A new order that the gateway sends and any reports of it that
  name no original order (and are not replacements) reach the serializer so that the order has the row
  of the strategy's data, and its fills and partial fills are the trades, in order and with the shares
  and prices of the FIX messages.  The status of the row is filled after a fill and new otherwise: a
  rejection, an unsolicited cancel, a done-for-day or an expiry leaves the order recorded as new.
\<close>

theorem order_recorded:
  assumes "recorder_ok L E v T" "fe_uuid F = L" "v d = \<lparr>lg_orders = Map.empty, lg_trades = []\<rparr>"
    "cfg_version (ap_config ap) = 42" "parse_new_order_single (fe_codec F) data = Some nos"
    "te_parse_order E (serialize_new_order_single (fe_codec F) nos) = Some nos" "nos_strategy_id nos = Some s" "length s = 16"
    "nos_cl_order_id nos = Some o'" "length o' = 16" "o' \<noteq> replicate 16 NUL"
    "order_fits (order_of_nos L (StrategyId s) nos 0)"
    "ap_has_processor ap" "strategy_of_order D (OrderId o') oc = StrategyId s"
    "list_all (\<lambda>m. plain_report L o' m \<and> recordable F E ap (StrategyId s) m \<and> status_of m \<noteq> ORD_STATUS_REPLACE) rs"
  shows "\<exists>ap1 ap2 st. dispatch F ORDER_NEW data ap = Ret ap1 \<and> reports_run F D oc rs ap1 = Ret ap2 \<and>
    handleOrders E (concat (drop (length (ap_serialized ap)) (ap_serialized ap2))) (new_serializer d) = Some st \<and>
    lg_orders (v (ts_db st)) (key_text L (StrategyId s, OrderId o')) =
      Some ((order_of_nos L (StrategyId s) nos (T 0))\<lparr>or_order_status :=
        if \<exists>m \<in> set rs. status_of m = ORD_STATUS_FILL then ORD_STATUS_FILL else ORD_STATUS_NEW\<rparr>) \<and>
    map (\<lambda>t. (tr_cl_order_id t, tr_last_shares t, tr_last_price t)) (lg_trades (v (ts_db st))) =
      map (\<lambda>m. (id_text L (OrderId o'), double_of m LastShares, double_of m LastPx))
        (filter (\<lambda>m. status_of m \<in> fill_statuses) rs)"
proof -
  let ?k = "(StrategyId s, OrderId o')" and ?p = "Placed (StrategyId s) nos"
  have u: "uuid_ok L" using assms(1) by (simp add: recorder_ok_def)
  have i: "read_order_id (Some o') = OrderId o'"
    using assms(10) by (simp add: read_order_id_def oid_set_def pb_string_def id_consts)
  obtain ap1 where ap1: "dispatch F ORDER_NEW data ap = Ret ap1" "ap_has_processor ap1"
    "ap_config ap1 = ap_config ap" "ap_serialized ap1 = ap_serialized ap @ [event_frames (fe_codec F) ?p]"
    using new_order_sent [OF assms(7-10), of F ap] assms(4,5,13)
    by (auto simp: dispatch_def dispatch_new_def sent_simps)
  from reports_recorded [OF _ assms(10,8,14), of F E ap1 rs T] u assms(2,15) ap1(2) obtain ap2 es where
    ap2: "reports_run F D oc rs ap1 = Ret ap2"
    "ap_serialized ap2 = ap_serialized ap1 @ map (event_frames (fe_codec F)) es"
    "list_all2 (report_event L o' (StrategyId s)) rs es" "list_all (\<lambda>e. event_ok L T e \<and> codec_reads E (fe_codec F) e) es"
    by (auto simp: recordable_config [OF ap1(3)])
  have frames: "concat (drop (length (ap_serialized ap)) (ap_serialized ap2)) = history_frames (fe_codec F) (?p # es)"
    using ap1(4) ap2(2) by (simp add: history_frames_def)
  have ok: "list_all (\<lambda>e. event_ok L T e \<and> codec_reads E (fe_codec F) e) (?p # es)"
    using ap2(4) assms(6,8,12) order_fits_time [of L "StrategyId s" nos] by (simp add: event_ok_def)
  obtain st where st: "handleOrders E (history_frames (fe_codec F) (?p # es)) (new_serializer d) = Some st"
    "lg_orders (v (ts_db st)) (key_text L ?k) = recorded L T (?p # es) ?k"
    "lg_trades (v (ts_db st)) = recorded_trades L T 0 (?p # es)"
    using history_tables [OF assms(1) ok, of d] assms(3,8,10) by (auto simp: key_ok_def)
  have no_replace: "list_all (\<lambda>m. status_of m \<noteq> ORD_STATUS_REPLACE) rs"
    using assms(15) by (simp add: list_all_iff)
  have "status_changes ?k (?p # es) = map status_of (filter (\<lambda>m. status_of m = ORD_STATUS_FILL) rs)"
    using report_event_changes [OF ap2(3) assms(10,11) no_replace] status_changes_append [of ?k "[?p]" es]
    by (simp add: status_changes_def List.map_filter_simps)
  then have "last (ORD_STATUS_NEW # status_changes ?k (?p # es)) =
      (if \<exists>m \<in> set rs. status_of m = ORD_STATUS_FILL then ORD_STATUS_FILL else ORD_STATUS_NEW)"
    using last_in_set [of "map status_of (filter (\<lambda>m. status_of m = ORD_STATUS_FILL) rs)"]
    by (auto simp: filter_empty_conv)
  then have "recorded L T (?p # es) ?k = Some ((order_of_nos L (StrategyId s) nos (T 0))\<lparr>or_order_status :=
        if \<exists>m \<in> set rs. status_of m = ORD_STATUS_FILL then ORD_STATUS_FILL else ORD_STATUS_NEW\<rparr>)"
    using assms(9) i by (simp add: recorded_def rows_before_def)
  then show ?thesis
    using ap1(1) ap2(1) st frames report_event_trades [OF ap2(3) assms(10), of T "0 + rows_in ?p"] by auto
qed

section \<open>Lost and misplaced records\<close>

text \<open>An id frame that cannot be taken for a message type.\<close>

definition untyped_id :: "ts_event \<Rightarrow> bool" where
  "untyped_id e \<longleftrightarrow> length (sid (event_sid e)) = 16 \<and> frame_word (sid (event_sid e)) \<notin> {ORDER_NEW, EXEC_RPT}"

lemma shifted_frames:
  assumes "list_all untyped_id es"
  shows "\<exists>st'. handleOrders E (x # history_frames C es) st = Some st' \<and> ts_db st' = ts_db st \<and> ts_clock st' = ts_clock st"
  using assms
proof (induction es arbitrary: x st)
  case (Cons e es)
  obtain t b where f: "event_frames C e = [sid (event_sid e), t, b]" by (cases e) auto
  let ?st = "st\<lparr>ts_sid := snd (sid_set x (ts_sid st))\<rparr>"
  have "handle_order_message E x (sid (event_sid e)) t st = Some ?st"
    using Cons.prems by (simp add: handle_order_message_def Let_def untyped_id_def)
  with Cons.IH [of b ?st] Cons.prems f show ?case
    by (simp add: history_frames_def)
qed (simp add: history_frames_def)

text \<open>
  Where records go wrong. One stray frame before a history shifts every message, so that nothing
  is recorded any more and nothing is reported (unless an id begins with the bytes of a message type).
  A message whose strategy id has not 16 bytes is recorded for the strategy of the message before. A
  rejection or cancel without an original id sets the status of the zero order id. When a statement
  cannot be prepared, a new order is dropped silently, but a fill, cancel or rejection deletes a wild
  pointer.
\<close>

theorem recording_errors:
  assumes "list_all untyped_id es" "length f_sid \<noteq> 16" "length (sid (ts_sid st)) = 16"
    "er_orig_cl_order_id rej = None" "report_status rej \<in> {ORD_STATUS_CANCELLED, ORD_STATUS_REJECTED}"
    "\<not> sql_prepares (te_sql E') InsertOrder_nos (ts_db st)" "\<not> sql_prepares (te_sql E') UpdateOrderStatus (ts_db st)"
    "report_status er \<in> {ORD_STATUS_FILL, ORD_STATUS_CANCELLED, ORD_STATUS_REJECTED}"
  shows "(\<exists>st'. handleOrders E (x # history_frames C es) st = Some st' \<and> ts_db st' = ts_db st) \<and>
    handle_order_message E f_sid f_type f_body st = handle_order_message E (sid (ts_sid st)) f_type f_body st \<and>
    updateOrder E rej st = setOrderStatus E new_order_id (report_status rej) st \<and>
    insertOrder_nos E' nos st = Some st \<and> updateOrder E' er st = None"
proof (intro conjI)
  show "\<exists>st'. handleOrders E (x # history_frames C es) st = Some st' \<and> ts_db st' = ts_db st"
    using shifted_frames [OF assms(1), of E x C st] by blast
  show "handle_order_message E f_sid f_type f_body st = handle_order_message E (sid (ts_sid st)) f_type f_body st"
    using assms(2,3) by (simp add: handle_order_message_def sid_set_def id_consts)
  show "updateOrder E rej st = setOrderStatus E new_order_id (report_status rej) st"
    using assms(4,5) by (auto simp: updateOrder_def Let_def ord_status_codes)
  show "insertOrder_nos E' nos st = Some st"
    using assms(6) by (simp add: insertOrder_nos_def run_insert_def)
  show "updateOrder E' er st = None"
    using assms(7,8) by (auto simp: updateOrder_def setOrderStatus_def Let_def ord_status_codes)
qed

section \<open>Witnesses\<close>

text \<open>A database that is its own ledger.\<close>

definition ledger_sql :: "ledger sql" where
  "ledger_sql = \<lparr>sql_prepares = (\<lambda>_ _. True),
     sql_insert_order = (\<lambda>r l. if lg_orders l (order_key_of r) = None then Updates (ledger_insert r l) 1 else Throws l),
     sql_insert_trade = (\<lambda>r l. Updates (l\<lparr>lg_trades := lg_trades l @ [r]\<rparr>) 1),
     sql_set_status = (\<lambda>s a b l. Updates (ledger_set_status s (a, b) l) 1)\<rparr>"

lemma ledger_sql_ok: "db_ok L ledger_sql (\<lambda>l. l)"
  by (simp add: db_ok_def ledger_sql_def after_sql_def ledger_insert_def)

definition demo_report :: "char \<Rightarrow> fields" where
  "demo_report c = [ClOrdID \<mapsto> FString (id_text demo_uuid (OrderId demo_oid)), OrdStatus \<mapsto> FChar c,
     LastShares \<mapsto> FDouble 5, LastPx \<mapsto> FDouble 2]"

definition demo_er :: "char \<Rightarrow> execution_report" where
  "demo_er c = empty_report\<lparr>er_cl_order_id := Some demo_oid, er_order_status := Some (int_of_char c),
     er_last_shares := Some 5, er_last_price := Some 2, er_venue_id := Some (sint (890778 :: uint32))\<rparr>"

definition demo_record_fix :: fix_env where
  "demo_record_fix = demo_fix\<lparr>fe_codec := demo_codec\<lparr>serialize_execution_report :=
     (\<lambda>er. if er_order_status er = Some 49 then ''partial'' else ''fill'')\<rparr>\<rparr>"

definition demo_ts :: "ledger ts_env" where
  "demo_ts = \<lparr>te_uuid = demo_uuid, te_parse_order = (\<lambda>d. if d = ''sell'' then Some demo_nos else None),
     te_parse_report = (\<lambda>d. if d = ''partial'' then Some (demo_er CHR ''1'') else Some (demo_er CHR ''2'')),
     te_sql = ledger_sql, te_clock = (\<lambda>_. \<lparr>tv_sec = 1000, tv_nsec = 7\<rparr>)\<rparr>"

definition empty_ledger :: ledger where
  "empty_ledger = \<lparr>lg_orders = Map.empty, lg_trades = []\<rparr>"

lemma demo_recorder: "recorder_ok demo_uuid demo_ts (\<lambda>l. l) (\<lambda>_. 1000000000007)"
  by (simp add: recorder_ok_def demo_uuid_ok demo_ts_def ledger_sql_ok clock_ok_def row_time_def timespec2int64_t_def
      s64_def NANOS_PER_SECOND_def)

lemma demo_order_fits: "order_fits (order_of_nos demo_uuid (StrategyId demo_sid) demo_nos t)"
  by (subst order_fits_time) code_simp

lemma demo_trade_fits: "trade_fits (trade_of_er demo_uuid (StrategyId demo_sid) (demo_er CHR ''1'') t)"
  "trade_fits (trade_of_er demo_uuid (StrategyId demo_sid) (demo_er CHR ''2'') t)"
  by code_simp+

lemma tables_of_history_witness:
  "\<exists>st. handleOrders demo_ts (history_frames (fe_codec demo_record_fix)
       [Placed (StrategyId demo_sid) demo_nos, Reported (StrategyId demo_sid) (demo_er CHR ''1''),
        Reported (StrategyId demo_sid) (demo_er CHR ''2'')]) (new_serializer empty_ledger) = Some st \<and>
     map_option or_order_status (lg_orders (ts_db st) (key_text demo_uuid (StrategyId demo_sid, OrderId demo_oid))) =
       Some ORD_STATUS_FILL \<and>
     length (lg_trades (ts_db st)) = 2"
proof -
  let ?es = "[Placed (StrategyId demo_sid) demo_nos, Reported (StrategyId demo_sid) (demo_er CHR ''1''),
        Reported (StrategyId demo_sid) (demo_er CHR ''2'')]"
  have "list_all (\<lambda>e. event_ok demo_uuid (\<lambda>_. 1000000000007) e \<and> codec_reads demo_ts (fe_codec demo_record_fix) e) ?es"
    using demo_order_fits demo_trade_fits
    by (simp add: event_ok_def demo_ts_def demo_record_fix_def demo_codec_def demo_er_def empty_report_def
        pb_int_def int_of_char_def ord_status_codes)
  from tables_of_history [OF demo_recorder this, of empty_ledger]
  obtain st where "handleOrders demo_ts (history_frames (fe_codec demo_record_fix) ?es) (new_serializer empty_ledger) = Some st"
    "\<And>k. key_ok k \<Longrightarrow> lg_orders (ts_db st) (key_text demo_uuid k) = recorded demo_uuid (\<lambda>_. 1000000000007) ?es k"
    "lg_trades (ts_db st) = recorded_trades demo_uuid (\<lambda>_. 1000000000007) 0 ?es"
    by (auto simp: empty_ledger_def)
  then show ?thesis
    by (auto simp: key_ok_def recorded_def status_changes_def List.map_filter_simps demo_nos_def read_order_id_def
        oid_set_def pb_string_def id_consts demo_er_def empty_report_def pb_int_def int_of_char_def ord_status_codes)
qed

definition demo_ocache :: "(order_id \<times> order_info option) list" where
  "demo_ocache = [(OrderId demo_oid, Some (new_order_info (OrderId demo_oid) (StrategyId demo_sid)))]"

lemma demo_report_plain: "plain_report demo_uuid demo_oid (demo_report c)"
  by (simp add: plain_report_def demo_report_def fields_typed_def report_types_def typed_at_def)

lemma demo_report_of: "report_of demo_record_fix demo_app (demo_report c) = Ret (OrderId demo_oid, demo_er c)"
proof -
  have "oid_parse demo_uuid (id_text demo_uuid (OrderId demo_oid)) new_order_id = (0, OrderId demo_oid)"
    using id_text_parse [OF demo_uuid_ok, of demo_oid] by simp
  moreover have u: "fe_uuid demo_record_fix = demo_uuid" "cfg_venue_id (ap_config demo_app) = 890778"
    by (simp_all add: demo_record_fix_def demo_fix_def demo_app_def run_application_def new_application_def)
  moreover have "demo_report c ClOrdID = Some (FString (id_text demo_uuid (OrderId demo_oid)))"
    by (simp add: demo_report_def)
  ultimately have i: "report_order_id (fe_uuid demo_record_fix) (demo_report c) (new_order_id, empty_report) =
      Ret (OrderId demo_oid, empty_report\<lparr>er_cl_order_id := Some demo_oid\<rparr>)"
    by (simp add: report_order_id_def)
  have "run_steps (report_steps demo_record_fix (demo_report c)) er =
      Ret (er\<lparr>er_order_status := Some (int_of_char c), er_last_shares := Some 5, er_last_price := Some 2\<rparr>)" for er
    unfolding report_steps_def by (simp add: on_defs demo_report_def)
  then show ?thesis
    using i u by (simp add: report_of_def demo_er_def)
qed

lemma order_recorded_witness:
  "\<exists>ap1 ap2 st. dispatch demo_record_fix ORDER_NEW ''sell'' demo_app = Ret ap1 \<and>
     reports_run demo_record_fix (ge_orders demo_env) demo_ocache [demo_report CHR ''1'', demo_report CHR ''2''] ap1 = Ret ap2 \<and>
     handleOrders demo_ts (concat (drop (length (ap_serialized demo_app)) (ap_serialized ap2))) (new_serializer empty_ledger) = Some st \<and>
     map (\<lambda>t. (tr_last_shares t, tr_last_price t)) (lg_trades (ts_db st)) = [(5, 2), (5, 2)]"
proof -
  let ?rs = "[demo_report CHR ''1'', demo_report CHR ''2'']"
  have s: "status_of (demo_report CHR ''1'') = 49" "status_of (demo_report CHR ''2'') = 50"
    "double_of (demo_report c) LastShares = 5" "double_of (demo_report c) LastPx = 2" for c
    by (simp_all add: status_of_def double_of_def demo_report_def int_of_char_def)
  have f: "fe_uuid demo_record_fix = demo_uuid" "cfg_version (ap_config demo_app) = 42"
    "parse_new_order_single (fe_codec demo_record_fix) ''sell'' = Some demo_nos"
    "te_parse_order demo_ts (serialize_new_order_single (fe_codec demo_record_fix) demo_nos) = Some demo_nos"
    "ap_has_processor demo_app"
    by (simp_all add: demo_record_fix_def demo_fix_def demo_codec_def demo_app_def run_application_def
        new_application_def demo_ts_def)
  have "strategy_of_order (ge_orders demo_env) (OrderId demo_oid) demo_ocache = StrategyId demo_sid"
    by (simp add: strategy_of_order_def order_get_def demo_env_def list_table_def demo_ocache_def new_order_info_def)
  moreover have "list_all (\<lambda>m. plain_report demo_uuid demo_oid m \<and>
      recordable demo_record_fix demo_ts demo_app (StrategyId demo_sid) m \<and> status_of m \<noteq> ORD_STATUS_REPLACE) ?rs"
    using demo_trade_fits by (simp add: demo_report_plain recordable_def demo_report_of f s ord_status_codes)
      (simp add: demo_record_fix_def demo_fix_def demo_er_def empty_report_def demo_ts_def int_of_char_def)
  moreover have "demo_oid \<noteq> replicate 16 NUL" by (simp add: numeral_eq_Suc NUL_def)
  ultimately show ?thesis
    using order_recorded [OF demo_recorder f(1) _ f(2-4) demo_nos_ids(1,3,2,4) _ demo_order_fits f(5), of empty_ledger
        "ge_orders demo_env" demo_ocache ?rs]
    by (auto simp: empty_ledger_def s ord_status_codes dest: arg_cong [of _ _ "map snd"])
qed

lemma recording_errors_witness:
  "(\<exists>st'. handleOrders demo_ts (''stray'' # history_frames (fe_codec demo_record_fix) [Placed (StrategyId demo_sid) demo_nos])
      (new_serializer empty_ledger) = Some st' \<and> ts_db st' = empty_ledger) \<and>
   updateOrder (demo_ts\<lparr>te_sql := ledger_sql\<lparr>sql_prepares := \<lambda>_ _. False\<rparr>\<rparr>) (demo_er CHR ''2'') (new_serializer empty_ledger) = None"
proof -
  have h: "list_all untyped_id [Placed (StrategyId demo_sid) demo_nos]"
    by (simp add: untyped_id_def frame_word_def ORDER_NEW_def EXEC_RPT_def)
  have "length ''x'' \<noteq> 16" "length (sid (ts_sid (new_serializer empty_ledger))) = 16"
    "er_orig_cl_order_id (demo_er CHR ''8'') = None" "report_status (demo_er CHR ''8'') \<in> {ORD_STATUS_CANCELLED, ORD_STATUS_REJECTED}"
    "\<not> sql_prepares (te_sql (demo_ts\<lparr>te_sql := ledger_sql\<lparr>sql_prepares := \<lambda>_ _. False\<rparr>\<rparr>)) InsertOrder_nos (ts_db (new_serializer empty_ledger))"
    "\<not> sql_prepares (te_sql (demo_ts\<lparr>te_sql := ledger_sql\<lparr>sql_prepares := \<lambda>_ _. False\<rparr>\<rparr>)) UpdateOrderStatus (ts_db (new_serializer empty_ledger))"
    "report_status (demo_er CHR ''2'') \<in> {ORD_STATUS_FILL, ORD_STATUS_CANCELLED, ORD_STATUS_REJECTED}"
    by (simp_all add: new_serializer_def new_strategy_id_def id_consts demo_er_def empty_report_def pb_int_def
        int_of_char_def ord_status_codes)
  note e = recording_errors [OF h this]
  show ?thesis
    using e [of demo_ts "''stray''" "fe_codec demo_record_fix"] by (simp add: new_serializer_def)
qed

end
