(* ===== verification/ExchangeCorrect.thy ===== *)
theory ExchangeCorrect
  imports Exchange ReplayCorrect TradeSerializerCorrect
begin

text \<open>
  The exchange: every limit order is filled once, in full, under ids of its own (\<open>exchange_fills\<close>); an
  order of a strategy comes back to it as its fill, through the gateway both ways (\<open>order_filled_cycle\<close>); where the
  sessions of the replay go wrong (\<open>exchange_session_faults\<close>).
\<close>

section \<open>Numbers as text\<close>

definition number_of_text :: "string \<Rightarrow> nat" where
  "number_of_text s = foldl (\<lambda>n c. 10 * n + (of_char c - 48)) 0 s"

lemma number_of_digits: "number_of_text (digits_of n) = n"
proof (induction n rule: digits_of.induct)
  case (1 n)
  have d: "(of_char (char_of (48 + k) :: char) :: nat) - 48 = k" if "k < 10" for k :: nat
    using that by simp
  show ?case
  proof (cases "n < 10")
    case True
    then show ?thesis using d by (simp add: number_of_text_def digits_of.simps)
  next
    case False
    then show ?thesis using 1 d [of "n mod 10"] by (simp add: number_of_text_def digits_of.simps [of n])
  qed
qed

lemma digits_inj: "digits_of a = digits_of b \<Longrightarrow> a = b"
  by (metis number_of_digits)

section \<open>Fills\<close>

text \<open>An order with the fields the handlers ask for; one whose numbers are readable too is a limit order they
  fill.\<close>

definition complete_order :: "nat \<Rightarrow> fields \<Rightarrow> bool" where
  "complete_order v m \<longleftrightarrow> v \<in> {40, 41, 42, 43, 44, 50} \<and> m OrdType = Some (FChar OrdType_LIMIT) \<and> m Symbol \<noteq> None \<and> m Side \<noteq> None \<and>
     m ClOrdID \<noteq> None \<and> m OrderQty \<noteq> None \<and> m Price \<noteq> None"

definition limit_order :: "nat \<Rightarrow> fields \<Rightarrow> bool" where
  "limit_order v m \<longleftrightarrow> v \<in> {40, 41, 42, 43, 44, 50} \<and> m OrdType = Some (FChar OrdType_LIMIT) \<and> m Symbol \<noteq> None \<and> m Side \<noteq> None \<and>
     m ClOrdID \<noteq> None \<and> (\<exists>q. m OrderQty = Some (FDouble q)) \<and> (\<exists>p. m Price = Some (FDouble p))"

fun arg_ok :: "fields \<Rightarrow> report_arg \<Rightarrow> bool" where
  "arg_ok m ArgQty = (\<exists>q. m OrderQty = Some (FDouble q))"
| "arg_ok m ArgPrice = (\<exists>p. m Price = Some (FDouble p))"
| "arg_ok m _ = True"

text \<open>An order uses up an id that is made before the first number that cannot be read.\<close>

definition takes :: "(nat \<Rightarrow> report_arg list) \<Rightarrow> report_arg \<Rightarrow> nat \<Rightarrow> fields \<Rightarrow> bool" where
  "takes ord g v m \<longleftrightarrow> complete_order v m \<and> g \<in> set (takeWhile (arg_ok m) (arg_order ord v))"

definition fills :: "fields \<Rightarrow> fields \<Rightarrow> bool" where
  "fills m r \<longleftrightarrow> r OrdStatus = Some (FChar OrdStatus_FILLED) \<and> r ClOrdID = m ClOrdID \<and> r Symbol = m Symbol \<and> r Side = m Side \<and>
     r Account = m Account \<and> r OrderQty = m OrderQty \<and> r LastShares = m OrderQty \<and> r CumQty = m OrderQty \<and>
     r LastPx = m Price \<and> r AvgPx = m Price"

definition report_with :: "nat \<Rightarrow> string \<Rightarrow> string \<Rightarrow> fields \<Rightarrow> fields \<Rightarrow> bool" where
  "report_with v oi ei m r \<longleftrightarrow> fills m r \<and> r OrderID = Some (FString oi) \<and> r ExecID = Some (FString ei) \<and>
     (r ExecTransType \<noteq> None \<longleftrightarrow> v \<le> 42) \<and> (r LeavesQty = (if 41 \<le> v then Some (FDouble 0) else None))"

lemma limit_order_complete: "limit_order v m \<longleftrightarrow> complete_order v m \<and> arg_ok m ArgQty \<and> arg_ok m ArgPrice"
  by (auto simp: limit_order_def complete_order_def)

lemma arg_order: "distinct (arg_order ord v)" "a \<in> set (arg_order ord v)"
  unfolding arg_order_def Let_def by (cases a; simp)+

lemma all_args: "list_all (arg_ok m) (arg_order ord v) \<longleftrightarrow> arg_ok m ArgQty \<and> arg_ok m ArgPrice"
proof -
  have "arg_ok m a" if "arg_ok m ArgQty" "arg_ok m ArgPrice" for a using that by (cases a) simp_all
  then show ?thesis using arg_order(2) [of _ ord v] unfolding list_all_iff by metis
qed

text \<open>A limit order takes both ids, and so does an order of FIX 5.0 whose price alone cannot be read.\<close>

lemma takes_both:
  assumes "complete_order v m" "arg_ok m ArgQty" "arg_ok m ArgPrice \<or> v = 50" "g \<noteq> ArgQty" "g \<noteq> ArgPrice"
  shows "takes ord g v m"
proof (cases "arg_ok m ArgPrice")
  case True
  then have "takeWhile (arg_ok m) (arg_order ord v) = arg_order ord v"
    using all_args [of m ord v] assms(2) by (auto simp: list_all_iff)
  with assms(1) arg_order(2) [of g ord v] show ?thesis unfolding takes_def by metis
next
  case False
  define bs where "bs = filter (\<lambda>a. a \<noteq> ArgPrice) (remdups (ord v @ [ArgPrice, ArgQty, ArgExecID, ArgOrderID]))"
  have o': "arg_order ord v = bs @ [ArgPrice]" using False assms(3) by (simp add: arg_order_def bs_def)
  have "ArgPrice \<notin> set bs" by (simp add: bs_def)
  then have "arg_ok m a" if "a \<in> set bs" for a using that assms(2) by (cases a) auto
  moreover have "g \<in> set bs" using arg_order(2) [of g ord v] assms(5) unfolding o' by simp
  ultimately show ?thesis using assms(1) unfolding takes_def o' by (simp add: takeWhile_append)
qed

definition numbered :: "nat \<Rightarrow> nat \<Rightarrow> ('m, 'p) exchange \<Rightarrow> bool" where
  "numbered a b ex \<longleftrightarrow> ex_orderID ex = int a \<and> ex_execID ex = int b"

definition same_but_ids :: "('m, 'p) exchange \<Rightarrow> ('m, 'p) exchange \<Rightarrow> bool" where
  "same_but_ids ex ex' \<longleftrightarrow> ex_sent ex' = ex_sent ex \<and> ex_sessions ex' = ex_sessions ex"

lemma next_ids:
  assumes "numbered a b ex"
  shows "a + 1 < 2 ^ 31 \<Longrightarrow> genOrderID ex = Served (digits_of (a + 1)) (ex\<lparr>ex_orderID := int a + 1\<rparr>)"
    and "b + 1 < 2 ^ 31 \<Longrightarrow> genExecID ex = Served (digits_of (b + 1)) (ex\<lparr>ex_execID := int b + 1\<rparr>)"
  using assms by (simp_all add: numbered_def genOrderID_def genExecID_def s32_def nat_add_distrib)

text \<open>The values of a report whose arguments have been evaluated.\<close>

definition has_values :: "report_arg list \<Rightarrow> nat \<Rightarrow> nat \<Rightarrow> order_fields \<Rightarrow> report_values \<Rightarrow> report_values \<Rightarrow> bool" where
  "has_values as a b f r r' \<longleftrightarrow>
     rv_orderID r' = (if ArgOrderID \<in> set as then digits_of (a + 1) else rv_orderID r) \<and>
     rv_execID r' = (if ArgExecID \<in> set as then digits_of (b + 1) else rv_execID r) \<and>
     FDouble (rv_qty r') = (if ArgQty \<in> set as then of_orderQty f else FDouble (rv_qty r)) \<and>
     FDouble (rv_price r') = (if ArgPrice \<in> set as then of_price f else FDouble (rv_price r))"

definition args_done :: "report_arg list \<Rightarrow> nat \<Rightarrow> nat \<Rightarrow> ('m, 'p) exchange \<Rightarrow> ('m, 'p) exchange \<Rightarrow> bool" where
  "args_done ts a b ex ex' \<longleftrightarrow> same_but_ids ex ex' \<and>
     numbered (a + of_bool (ArgOrderID \<in> set ts)) (b + of_bool (ArgExecID \<in> set ts)) ex'"

lemma eval_args_run:
  assumes "distinct as" "numbered a b ex" "ArgOrderID \<in> set as \<Longrightarrow> a + 1 < 2 ^ 31" "ArgExecID \<in> set as \<Longrightarrow> b + 1 < 2 ^ 31"
    and "m OrderQty = Some (of_orderQty f)" "m Price = Some (of_price f)"
  shows "\<exists>ex' r'. eval_args as f r ex = (if list_all (arg_ok m) as then Served r' ex' else Rejected ex') \<and>
    args_done (takeWhile (arg_ok m) as) a b ex ex' \<and> (list_all (arg_ok m) as \<longrightarrow> has_values as a b f r r')"
  using assms(1-4)
proof (induction as arbitrary: a b r ex)
  case Nil
  then show ?case by (simp add: has_values_def args_done_def same_but_ids_def)
next
  case (Cons g as)
  note ids = next_ids [OF Cons.prems(2)]
  show ?case
  proof (cases g)
    case ArgOrderID
    define ex1 where "ex1 = ex\<lparr>ex_orderID := int a + 1\<rparr>"
    have 1: "numbered (a + 1) b ex1" "ArgOrderID \<notin> set as" "same_but_ids ex ex1"
      using Cons.prems ArgOrderID by (simp_all add: ex1_def numbered_def same_but_ids_def)
    have "eval_args (g # as) f r ex = eval_args as f (r\<lparr>rv_orderID := digits_of (a + 1)\<rparr>) ex1" using ids(1) Cons.prems(3,4) ArgOrderID by (simp add: ex1_def)
    moreover from Cons.IH [OF _ 1(1), of "r\<lparr>rv_orderID := digits_of (a + 1)\<rparr>"] Cons.prems(1,3,4) 1(2) obtain ex' r' where
      "eval_args as f (r\<lparr>rv_orderID := digits_of (a + 1)\<rparr>) ex1 = (if list_all (arg_ok m) as then Served r' ex' else Rejected ex')"
      "args_done (takeWhile (arg_ok m) as) (a + 1) (b) ex1 ex'"
      "list_all (arg_ok m) as \<longrightarrow> has_values as (a + 1) (b) f (r\<lparr>rv_orderID := digits_of (a + 1)\<rparr>) r'" by auto
    moreover have "ArgOrderID \<notin> set (takeWhile (arg_ok m) as)" using 1(2) set_takeWhileD by fastforce
    ultimately show ?thesis
      using 1(2,3) ArgOrderID by (intro exI [of _ ex'] exI [of _ r'])
        (auto simp: has_values_def args_done_def same_but_ids_def)
  next
    case ArgExecID
    define ex1 where "ex1 = ex\<lparr>ex_execID := int b + 1\<rparr>"
    have 1: "numbered a (b + 1) ex1" "ArgExecID \<notin> set as" "same_but_ids ex ex1"
      using Cons.prems ArgExecID by (simp_all add: ex1_def numbered_def same_but_ids_def)
    have "eval_args (g # as) f r ex = eval_args as f (r\<lparr>rv_execID := digits_of (b + 1)\<rparr>) ex1" using ids(2) Cons.prems(3,4) ArgExecID by (simp add: ex1_def)
    moreover from Cons.IH [OF _ 1(1), of "r\<lparr>rv_execID := digits_of (b + 1)\<rparr>"] Cons.prems(1,3,4) 1(2) obtain ex' r' where
      "eval_args as f (r\<lparr>rv_execID := digits_of (b + 1)\<rparr>) ex1 = (if list_all (arg_ok m) as then Served r' ex' else Rejected ex')"
      "args_done (takeWhile (arg_ok m) as) (a) (b + 1) ex1 ex'"
      "list_all (arg_ok m) as \<longrightarrow> has_values as (a) (b + 1) f (r\<lparr>rv_execID := digits_of (b + 1)\<rparr>) r'" by auto
    moreover have "ArgExecID \<notin> set (takeWhile (arg_ok m) as)" using 1(2) set_takeWhileD by fastforce
    ultimately show ?thesis
      using 1(2,3) ArgExecID by (intro exI [of _ ex'] exI [of _ r'])
        (auto simp: has_values_def args_done_def same_but_ids_def)
  next
    case ArgQty
    show ?thesis
    proof (cases "of_orderQty f")
      case (FDouble q)
      from Cons.IH [of a b ex "r\<lparr>rv_qty := q\<rparr>"] Cons.prems ArgQty FDouble assms(5) show ?thesis
        by (fastforce simp: has_values_def args_done_def double_value_def)
    qed (use Cons.prems ArgQty assms(5) in \<open>simp_all add: double_value_def args_done_def same_but_ids_def\<close>)
  next
    case ArgPrice
    show ?thesis
    proof (cases "of_price f")
      case (FDouble p)
      from Cons.IH [of a b ex "r\<lparr>rv_price := p\<rparr>"] Cons.prems ArgPrice FDouble assms(6) show ?thesis
        by (fastforce simp: has_values_def args_done_def double_value_def)
    qed (use Cons.prems ArgPrice assms(6) in \<open>simp_all add: double_value_def args_done_def same_but_ids_def\<close>)
  qed
qed

lemma read_complete_order:
  "read_new_order m = (if \<exists>v. complete_order v m then Ret \<lparr>of_symbol = the (m Symbol), of_side = the (m Side),
    of_orderQty = the (m OrderQty), of_price = the (m Price), of_clOrdID = the (m ClOrdID)\<rparr> else Throw)"
  by (auto simp: complete_order_def read_new_order_def field_values split: option.splits fix_value.splits)

text \<open>What the handlers of all versions have in common.\<close>

lemma report_numbers_run:
  assumes "complete_order v m" "numbered a b ex" "a + 1 < 2 ^ 31" "b + 1 < 2 ^ 31"
  shows "\<exists>ex' r. numbered (a + of_bool (takes ord ArgOrderID v m)) (b + of_bool (takes ord ArgExecID v m)) ex' \<and> same_but_ids ex ex' \<and>
    (if limit_order v m
     then report_numbers (arg_order ord v) m ex = Served (\<lparr>of_symbol = the (m Symbol), of_side = the (m Side),
         of_orderQty = FDouble (rv_qty r), of_price = FDouble (rv_price r), of_clOrdID = the (m ClOrdID)\<rparr>, r) ex' \<and>
       m OrderQty = Some (FDouble (rv_qty r)) \<and> m Price = Some (FDouble (rv_price r)) \<and>
       rv_orderID r = digits_of (a + 1) \<and> rv_execID r = digits_of (b + 1)
     else report_numbers (arg_order ord v) m ex = Rejected ex')"
proof -
  define f where "f = \<lparr>of_symbol = the (m Symbol), of_side = the (m Side), of_orderQty = the (m OrderQty),
    of_price = the (m Price), of_clOrdID = the (m ClOrdID)\<rparr>"
  have rd: "read_new_order m = Ret f" using assms(1) by (auto simp: read_complete_order f_def)
  have m: "m OrderQty = Some (of_orderQty f)" "m Price = Some (of_price f)"
    using assms(1) by (auto simp: complete_order_def f_def)
  have lo: "limit_order v m \<longleftrightarrow> list_all (arg_ok m) (arg_order ord v)"
    using assms(1) by (simp add: limit_order_complete all_args)
  have tk: "takes ord g v m \<longleftrightarrow> g \<in> set (takeWhile (arg_ok m) (arg_order ord v))" for g using assms(1) by (simp add: takes_def)
  from eval_args_run [OF arg_order(1) assms(2-4) m] obtain ex' r where
    e: "eval_args (arg_order ord v) f \<lparr>rv_orderID = [], rv_execID = [], rv_qty = 0, rv_price = 0\<rparr> ex =
        (if limit_order v m then Served r ex' else Rejected ex')"
      "args_done (takeWhile (arg_ok m) (arg_order ord v)) a b ex ex'"
      "limit_order v m \<longrightarrow> has_values (arg_order ord v) a b f \<lparr>rv_orderID = [], rv_execID = [], rv_qty = 0, rv_price = 0\<rparr> r"
    unfolding lo by blast
  have n: "report_numbers (arg_order ord v) m ex = (if limit_order v m then Served (f, r) ex' else Rejected ex')"
    by (simp add: report_numbers_def rd e(1))
  have "f = \<lparr>of_symbol = the (m Symbol), of_side = the (m Side), of_orderQty = FDouble (rv_qty r), of_price = FDouble (rv_price r),
      of_clOrdID = the (m ClOrdID)\<rparr>" if "limit_order v m"
    using e(3) that arg_order(2) by (simp add: has_values_def f_def)
  then show ?thesis
    using e(2,3) n m arg_order(2) [of _ ord v] by (intro exI [of _ ex'] exI [of _ r]) (auto simp: args_done_def has_values_def tk)
qed

lemmas new_order_handlers = onNewOrderSingle40_def onNewOrderSingle41_def onNewOrderSingle42_def onNewOrderSingle43_def
  onNewOrderSingle44_def onNewOrderSingle50_def

lemma incomplete_order_rejected:
  assumes "\<not> complete_order v m"
  shows "ex_fromApp E se (NewOrder v m) ex = Rejected ex"
proof (cases "v \<in> {40, 41, 42, 43, 44, 50}")
  case True
  then have "\<not> (\<exists>w. complete_order w m)" using assms by (auto simp: complete_order_def)
  then have "read_new_order m = Throw" by (simp add: read_complete_order)
  then have "report_numbers as m ex = Rejected ex" for as by (simp add: report_numbers_def)
  then show ?thesis using True by (auto simp: ex_fromApp_def new_order_handlers)
next
  case False
  then show ?thesis by (simp add: ex_fromApp_def)
qed

text \<open>One order.\<close>

lemma order_handled:
  assumes "numbered a b ex" "a + 1 < 2 ^ 31" "b + 1 < 2 ^ 31"
  shows "\<exists>ex' r. numbered (a + of_bool (takes (ee_args E) ArgOrderID v m)) (b + of_bool (takes (ee_args E) ArgExecID v m)) ex' \<and>
    ex_sessions ex' = ex_sessions ex \<and>
    (if limit_order v m
     then ex_fromApp E se (NewOrder v m) ex = Served () ex' \<and> ex_sent ex' = ex_sent ex @ [(se, r)] \<and>
       report_with v (digits_of (a + 1)) (digits_of (b + 1)) m (fm_body r)
     else ex_fromApp E se (NewOrder v m) ex = Rejected ex' \<and> ex_sent ex' = ex_sent ex)"
proof (cases "complete_order v m")
  case False
  then show ?thesis
    using assms(1) incomplete_order_rejected [OF False, of E se ex] by (simp add: limit_order_complete takes_def)
next
  case True
  then have v: "v \<in> {40, 41, 42, 43, 44, 50}" by (simp add: complete_order_def)
  from report_numbers_run [OF True assms, of "ee_args E"] obtain ex1 r where
    1: "numbered (a + of_bool (takes (ee_args E) ArgOrderID v m)) (b + of_bool (takes (ee_args E) ArgExecID v m)) ex1" "same_but_ids ex ex1"
    and n: "if limit_order v m
     then report_numbers (arg_order (ee_args E) v) m ex = Served (\<lparr>of_symbol = the (m Symbol), of_side = the (m Side),
         of_orderQty = FDouble (rv_qty r), of_price = FDouble (rv_price r), of_clOrdID = the (m ClOrdID)\<rparr>, r) ex1 \<and>
       m OrderQty = Some (FDouble (rv_qty r)) \<and> m Price = Some (FDouble (rv_price r)) \<and>
       rv_orderID r = digits_of (a + 1) \<and> rv_execID r = digits_of (b + 1)
     else report_numbers (arg_order (ee_args E) v) m ex = Rejected ex1" by blast
  show ?thesis
  proof (cases "limit_order v m")
    case True
    obtain sy sd cl where f: "m Symbol = Some sy" "m Side = Some sd" "m ClOrdID = Some cl" using True by (auto simp: limit_order_def)
    show ?thesis using v 1 n True f
      by (auto simp: ex_fromApp_def new_order_handlers send_report_def ex_send_def numbered_def same_but_ids_def report_with_def
          fills_def copy_account_def split: option.split)
  next
    case False
    then show ?thesis using v 1 n by (auto simp: ex_fromApp_def new_order_handlers same_but_ids_def)
  qed
qed

text \<open>Messages in order; a rejected one leaves the server in the state it had reached.\<close>

fun ex_run :: "('m, 'p, 't) ex_env \<Rightarrow> (string \<times> ex_message) list \<Rightarrow> ('m, 'p) exchange \<Rightarrow> ('m, 'p) exchange option" where
  "ex_run E [] ex = Some ex"
| "ex_run E ((se, x) # xs) ex = (case ex_fromApp E se x ex of Served u ex \<Rightarrow> ex_run E xs ex | Rejected ex \<Rightarrow> ex_run E xs ex | Died \<Rightarrow> None)"

definition as_orders :: "(string \<times> nat \<times> fields) list \<Rightarrow> (string \<times> ex_message) list" where
  "as_orders os = map (\<lambda>(se, v, m). (se, NewOrder v m)) os"

definition limit_orders :: "(string \<times> nat \<times> fields) list \<Rightarrow> (string \<times> nat \<times> fields) list" where
  "limit_orders os = filter (\<lambda>(se, v, m). limit_order v m) os"

definition ids_taken :: "(nat \<Rightarrow> report_arg list) \<Rightarrow> report_arg \<Rightarrow> (string \<times> nat \<times> fields) list \<Rightarrow> nat" where
  "ids_taken ord g os = length (filter (\<lambda>(se, v, m). takes ord g v m) os)"

text \<open>The reports of a list of orders, the ids counted on from \<open>a\<close> and \<open>b\<close>.\<close>

fun reports :: "(nat \<Rightarrow> report_arg list) \<Rightarrow> nat \<Rightarrow> nat \<Rightarrow> (string \<times> nat \<times> fields) list \<Rightarrow> (string \<times> fix_message) list \<Rightarrow> bool" where
  "reports ord a b [] rs = (rs = [])"
| "reports ord a b ((se, v, m) # os) rs = (let a' = a + of_bool (takes ord ArgOrderID v m); b' = b + of_bool (takes ord ArgExecID v m) in
     if limit_order v m
     then \<exists>r rs'. rs = (se, r) # rs' \<and> report_with v (digits_of a') (digits_of b') m (fm_body r) \<and> reports ord a' b' os rs'
     else reports ord a' b' os rs)"

lemma limit_order_takes: "limit_order v m \<Longrightarrow> g \<noteq> ArgQty \<Longrightarrow> g \<noteq> ArgPrice \<Longrightarrow> takes ord g v m"
  using takes_both by (simp add: limit_order_complete)

lemma orders_run:
  assumes "numbered a b ex" "a + length os < 2 ^ 31" "b + length os < 2 ^ 31"
  shows "\<exists>ex' rs. ex_run E (as_orders os) ex = Some ex' \<and> ex_sent ex' = ex_sent ex @ rs \<and> reports (ee_args E) a b os rs \<and>
    numbered (a + ids_taken (ee_args E) ArgOrderID os) (b + ids_taken (ee_args E) ArgExecID os) ex' \<and> ex_sessions ex' = ex_sessions ex"
  using assms
proof (induction os arbitrary: a b ex)
  case Nil
  then show ?case by (simp add: as_orders_def ids_taken_def)
next
  case (Cons o' os)
  obtain se v m where o': "o' = (se, v, m)" by (cases o')
  let ?a = "a + of_bool (takes (ee_args E) ArgOrderID v m)" and ?b = "b + of_bool (takes (ee_args E) ArgExecID v m)"
  from order_handled [OF Cons.prems(1), of E v m se] Cons.prems(2,3) obtain ex1 r where
    1: "numbered ?a ?b ex1" "ex_sessions ex1 = ex_sessions ex"
    and x: "if limit_order v m
     then ex_fromApp E se (NewOrder v m) ex = Served () ex1 \<and> ex_sent ex1 = ex_sent ex @ [(se, r)] \<and>
       report_with v (digits_of (a + 1)) (digits_of (b + 1)) m (fm_body r)
     else ex_fromApp E se (NewOrder v m) ex = Rejected ex1 \<and> ex_sent ex1 = ex_sent ex" by auto
  have "?a + length os < 2 ^ 31" "?b + length os < 2 ^ 31" using Cons.prems(2,3) by auto
  from Cons.IH [OF 1(1) this] obtain ex' rs where
    2: "ex_run E (as_orders os) ex1 = Some ex'" "ex_sent ex' = ex_sent ex1 @ rs" "reports (ee_args E) ?a ?b os rs"
      "numbered (?a + ids_taken (ee_args E) ArgOrderID os) (?b + ids_taken (ee_args E) ArgExecID os) ex'"
      "ex_sessions ex' = ex_sessions ex1" by auto
  have n: "numbered (a + ids_taken (ee_args E) ArgOrderID (o' # os)) (b + ids_taken (ee_args E) ArgExecID (o' # os)) ex'"
    using 2(4) by (cases "takes (ee_args E) ArgOrderID v m"; cases "takes (ee_args E) ArgExecID v m") (simp_all add: ids_taken_def o')
  show ?case
  proof (cases "limit_order v m")
    case True
    then have "reports (ee_args E) a b (o' # os) ((se, r) # rs)"
      using x 2(3) limit_order_takes [OF True, of _ "ee_args E"] by (simp add: o' Let_def)
    then show ?thesis
      using True x 1 2 n by (intro exI [of _ ex'] exI [of _ "(se, r) # rs"]) (simp add: o' as_orders_def)
  next
    case False
    then have "reports (ee_args E) a b (o' # os) rs" using 2(3) by (simp add: o' Let_def)
    then show ?thesis using False x 1 2 n by (intro exI [of _ ex'] exI [of _ rs]) (simp add: o' as_orders_def)
  qed
qed

text \<open>The ids of the reports are larger than any id given before, and grow.\<close>

lemma report_ids:
  assumes "reports ord a b os rs"
  shows "length rs = length (limit_orders os) \<and> (\<exists>is es. map (\<lambda>(se, r). fm_body r OrderID) rs = map (\<lambda>i. Some (FString (digits_of i))) is \<and>
    map (\<lambda>(se, r). fm_body r ExecID) rs = map (\<lambda>i. Some (FString (digits_of i))) es \<and>
    sorted_wrt (<) (a # is) \<and> sorted_wrt (<) (b # es))"
  using assms
proof (induction os arbitrary: a b rs)
  case Nil
  then show ?case by (simp add: limit_orders_def)
next
  case (Cons o' os)
  obtain se v m where o': "o' = (se, v, m)" by (cases o')
  let ?a = "a + of_bool (takes ord ArgOrderID v m)" and ?b = "b + of_bool (takes ord ArgExecID v m)"
  show ?case
  proof (cases "limit_order v m")
    case True
    have t: "takes ord ArgOrderID v m" "takes ord ArgExecID v m" using limit_order_takes [OF True] by simp_all
    from Cons.prems True t obtain r rs' where
      1: "rs = (se, r) # rs'" "report_with v (digits_of (a + 1)) (digits_of (b + 1)) m (fm_body r)" "reports ord (a + 1) (b + 1) os rs'"
      by (auto simp: o' Let_def)
    from Cons.IH [OF 1(3)] obtain is' es where
      2: "length rs' = length (limit_orders os)" "map (\<lambda>(se, r). fm_body r OrderID) rs' = map (\<lambda>i. Some (FString (digits_of i))) is'"
        "map (\<lambda>(se, r). fm_body r ExecID) rs' = map (\<lambda>i. Some (FString (digits_of i))) es"
        "sorted_wrt (<) ((a + 1) # is')" "sorted_wrt (<) ((b + 1) # es)" by blast
    show ?thesis
      using 1(1,2) 2 True
      by (intro conjI exI [of _ "(a + 1) # is'"] exI [of _ "(b + 1) # es"]) (auto simp: o' limit_orders_def report_with_def)
  next
    case False
    then have "reports ord ?a ?b os rs" using Cons.prems by (simp add: o' Let_def)
    from Cons.IH [OF this] obtain is' es where
      2: "length rs = length (limit_orders os)" "map (\<lambda>(se, r). fm_body r OrderID) rs = map (\<lambda>i. Some (FString (digits_of i))) is'"
        "map (\<lambda>(se, r). fm_body r ExecID) rs = map (\<lambda>i. Some (FString (digits_of i))) es"
        "sorted_wrt (<) (?a # is')" "sorted_wrt (<) (?b # es)" by blast
    have "sorted_wrt (<) (a # is')" "sorted_wrt (<) (b # es)" using 2(4,5) by (auto split: if_splits)
    then show ?thesis using 2(1-3) False by (auto simp: o' limit_orders_def)
  qed
qed

lemma report_ids_distinct:
  assumes "map f rs = map (\<lambda>i. Some (FString (digits_of i))) ns" "sorted_wrt (<) (a # ns)"
  shows "distinct (map f rs)"
proof -
  have "distinct ns" using assms(2) strict_sorted_iff [of ns] by simp
  moreover have "inj_on (\<lambda>i. Some (FString (digits_of i))) (set ns)" using digits_inj by (auto simp: inj_on_def)
  ultimately show ?thesis unfolding assms(1) by (simp add: distinct_map)
qed

text \<open>
  C28. The exchange fills limit orders. Of any sequence of orders, of any FIX version and from any sessions, and whatever the
  order in which the compiler evaluates the arguments of a report, every limit
  order with readable fields gets one report, in order and on its session: filled, with its id, symbol, side and account,
  its quantity as last and cumulative quantity and its price as last and average price, under an order id and an execution
  id no other report has, counted on from the counters; no other order gets a report. The counters advance by the number of orders that
  took an id: every limit order takes both, an order without one of its fields or that is no limit order takes none, and
  one whose quantity or price cannot be read those that are made before it is tried: in FIX 5.0 an unreadable price uses up both.
\<close>

theorem exchange_fills:
  assumes "ex_orderID ex = int a" "ex_execID ex = int b" "a + length os < 2 ^ 31" "b + length os < 2 ^ 31"
  shows "\<exists>ex' rs. ex_run E (as_orders os) ex = Some ex' \<and> ex_sent ex' = ex_sent ex @ rs \<and>
    reports (ee_args E) a b os rs \<and> length rs = length (limit_orders os) \<and>
    distinct (map (\<lambda>(se, r). fm_body r OrderID) rs) \<and> distinct (map (\<lambda>(se, r). fm_body r ExecID) rs) \<and>
    ex_orderID ex' = int (a + ids_taken (ee_args E) ArgOrderID os) \<and>
    ex_execID ex' = int (b + ids_taken (ee_args E) ArgExecID os) \<and>
    (\<forall>(se, v, m) \<in> set os. \<forall>g \<in> {ArgOrderID, ArgExecID}.
      (\<not> complete_order v m \<longrightarrow> \<not> takes (ee_args E) g v m) \<and> (limit_order v m \<longrightarrow> takes (ee_args E) g v m) \<and>
      (complete_order v m \<and> v = 50 \<and> arg_ok m ArgQty \<and> \<not> arg_ok m ArgPrice \<longrightarrow> takes (ee_args E) g v m))"
proof -
  have "numbered a b ex" using assms(1,2) by (simp add: numbered_def)
  from orders_run [OF this assms(3,4), of E] obtain ex' rs where
    1: "ex_run E (as_orders os) ex = Some ex'" "ex_sent ex' = ex_sent ex @ rs" "reports (ee_args E) a b os rs"
      "numbered (a + ids_taken (ee_args E) ArgOrderID os) (b + ids_taken (ee_args E) ArgExecID os) ex'" by blast
  from report_ids [OF 1(3)] have 2: "length rs = length (limit_orders os)"
    "distinct (map (\<lambda>(se, r). fm_body r OrderID) rs)" "distinct (map (\<lambda>(se, r). fm_body r ExecID) rs)"
    using report_ids_distinct by blast+
  have "(\<not> complete_order v m \<longrightarrow> \<not> takes (ee_args E) g v m) \<and> (limit_order v m \<longrightarrow> takes (ee_args E) g v m) \<and>
      (complete_order v m \<and> v = 50 \<and> arg_ok m ArgQty \<and> \<not> arg_ok m ArgPrice \<longrightarrow> takes (ee_args E) g v m)"
    if "g \<in> {ArgOrderID, ArgExecID}" for g v m
    using that takes_both [of v m g "ee_args E"] by (auto simp: limit_order_complete takes_def)
  then show ?thesis using 1 2 by (intro exI [of _ ex'] exI [of _ rs]) (auto simp: numbered_def)
qed

definition sample_order :: "char \<Rightarrow> string \<Rightarrow> dbl \<Rightarrow> dbl \<Rightarrow> fields" where
  "sample_order t cl q p = [OrdType \<mapsto> FChar t, Symbol \<mapsto> FString ''EURUSD'', Side \<mapsto> FChar Side_BUY, OrderQty \<mapsto> FDouble q,
     Price \<mapsto> FDouble p, ClOrdID \<mapsto> FString cl]"

definition sample_ex_env :: "(string, string, string) ex_env" where
  "sample_ex_env = \<lparr>ee_lib = sample_fix_lib, ee_parser = [], ee_started0 = False, ee_stop0 = False,
     ee_file = (\<lambda>f. if f = ''day.log'' then Some sample_log else None), ee_lookup = (\<lambda>_. True), ee_args = (\<lambda>_. [ArgExecID])\<rparr>"

lemma sample_orders_taken:
  "limit_orders [(''A'', 42, sample_order CHR ''2'' ''x'' 5 2), (''A'', 42, sample_order CHR ''1'' ''y'' 5 2),
     (''B'', 50, (sample_order CHR ''2'' ''u'' 5 2)(Price \<mapsto> FString ''?'')), (''B'', 44, sample_order CHR ''2'' ''z'' 7 3)] =
     [(''A'', 42, sample_order CHR ''2'' ''x'' 5 2), (''B'', 44, sample_order CHR ''2'' ''z'' 7 3)]"
  "limit_order 42 (sample_order CHR ''2'' ''x'' 5 2)" "limit_order 44 (sample_order CHR ''2'' ''z'' 7 3)"
  "\<not> complete_order 42 (sample_order CHR ''1'' ''y'' 5 2)"
  "complete_order 50 ((sample_order CHR ''2'' ''u'' 5 2)(Price \<mapsto> FString ''?''))"
  "arg_ok ((sample_order CHR ''2'' ''u'' 5 2)(Price \<mapsto> FString ''?'')) ArgQty"
  "\<not> arg_ok ((sample_order CHR ''2'' ''u'' 5 2)(Price \<mapsto> FString ''?'')) ArgPrice"
  "\<not> limit_order 42 (sample_order CHR ''1'' ''y'' 5 2)"
  "\<not> limit_order 50 ((sample_order CHR ''2'' ''u'' 5 2)(Price \<mapsto> FString ''?''))"
  by (simp_all add: limit_orders_def limit_order_def complete_order_def sample_order_def OrdType_LIMIT_def)

text \<open>Four orders: the second is no limit order, the third has a price that cannot be read and uses up its ids.\<close>

lemma exchange_fills_witness:
  "\<exists>ex' rs. ex_run sample_ex_env [(''A'', NewOrder 42 (sample_order CHR ''2'' ''x'' 5 2)),
       (''A'', NewOrder 42 (sample_order CHR ''1'' ''y'' 5 2)),
       (''B'', NewOrder 50 ((sample_order CHR ''2'' ''u'' 5 2)(Price \<mapsto> FString ''?''))),
       (''B'', NewOrder 44 (sample_order CHR ''2'' ''z'' 7 3))] (new_exchange 0 1) = Some ex' \<and>
     ex_sent ex' = rs \<and> length rs = 2 \<and> fst (rs ! 1) = ''B'' \<and> fm_body (snd (rs ! 1)) LastShares = Some (FDouble 7) \<and>
     fm_body (snd (rs ! 1)) LastPx = Some (FDouble 3) \<and> fm_body (snd (rs ! 1)) OrderID = Some (FString ''3'') \<and> ex_orderID ex' = 3"
proof -
  let ?u = "(sample_order CHR ''2'' ''u'' 5 2)(Price \<mapsto> FString ''?'')"
  define os :: "(string \<times> nat \<times> fields) list" where "os = [(''A'', 42, sample_order CHR ''2'' ''x'' 5 2), (''A'', 42, sample_order CHR ''1'' ''y'' 5 2), (''B'', 50, ?u),
    (''B'', 44, sample_order CHR ''2'' ''z'' 7 3)]"
  note s = sample_orders_taken
  have n: "ex_orderID (new_exchange 0 1 :: (string, string) exchange) = int 0" "ex_execID (new_exchange 0 1 :: (string, string) exchange) = int 0"
    "ex_sent (new_exchange 0 1 :: (string, string) exchange) = []" "0 + length os < 2 ^ 31"
    by (simp_all add: new_exchange_def os_def)
  from exchange_fills [OF n(1,2,4,4), of sample_ex_env] obtain ex' rs where
    r: "ex_run sample_ex_env (as_orders os) (new_exchange 0 1) = Some ex'" "ex_sent ex' = rs" "reports (ee_args sample_ex_env) 0 0 os rs"
    "ex_orderID ex' = int (0 + ids_taken (ee_args sample_ex_env) ArgOrderID os)"
    and t: "\<forall>(se, v, m) \<in> set os. \<forall>g \<in> {ArgOrderID, ArgExecID}.
      (\<not> complete_order v m \<longrightarrow> \<not> takes (ee_args sample_ex_env) g v m) \<and> (limit_order v m \<longrightarrow> takes (ee_args sample_ex_env) g v m) \<and>
      (complete_order v m \<and> v = 50 \<and> arg_ok m ArgQty \<and> \<not> arg_ok m ArgPrice \<longrightarrow> takes (ee_args sample_ex_env) g v m)"
    unfolding n(3) append_Nil by blast
  have g: "takes (ee_args sample_ex_env) g 42 (sample_order CHR ''2'' ''x'' 5 2) \<and> takes (ee_args sample_ex_env) g 44 (sample_order CHR ''2'' ''z'' 7 3) \<and>
    \<not> takes (ee_args sample_ex_env) g 42 (sample_order CHR ''1'' ''y'' 5 2) \<and> takes (ee_args sample_ex_env) g 50 ?u"
    if "g \<in> {ArgOrderID, ArgExecID}" for g
    using t that s(2-7) unfolding os_def by (auto simp del: arg_ok.simps)
  note g = g [of ArgOrderID, simplified] g [of ArgExecID, simplified]
  have d: "digits_of 3 = ''3''" by code_simp
  obtain ra rb where rs: "rs = [(''A'', ra), (''B'', rb)]"
    "report_with 44 (digits_of 3) (digits_of 3) (sample_order CHR ''2'' ''z'' 7 3) (fm_body rb)"
    using r(3) g s(2,3,8,9) unfolding os_def by (auto simp: Let_def numeral_3_eq_3)
  have "ids_taken (ee_args sample_ex_env) ArgOrderID os = 3" using g by (simp add: ids_taken_def os_def)
  moreover have "fm_body rb LastShares = Some (FDouble 7) \<and> fm_body rb LastPx = Some (FDouble 3) \<and>
      fm_body rb OrderID = Some (FString ''3'')"
    using rs(2) by (simp add: report_with_def fills_def sample_order_def d)
  ultimately show ?thesis
    using r(1,2,4) rs(1) by (intro exI [of _ ex'] exI [of _ rs]) (simp add: as_orders_def os_def)
qed

section \<open>Through the gateway and back\<close>

text \<open>The body of a FIX 4.2 fill.\<close>

definition fill_body :: "string \<Rightarrow> fix_value \<Rightarrow> fix_value \<Rightarrow> dbl \<Rightarrow> dbl \<Rightarrow> fix_value \<Rightarrow> fields" where
  "fill_body n sy sd q p cl = [OrderID \<mapsto> FString n, ExecID \<mapsto> FString n, ExecTransType \<mapsto> FChar ExecTransType_NEW,
     ExecType \<mapsto> FChar ExecType_FILL, OrdStatus \<mapsto> FChar OrdStatus_FILLED, Symbol \<mapsto> sy, Side \<mapsto> sd, LeavesQty \<mapsto> FDouble 0,
     CumQty \<mapsto> FDouble q, AvgPx \<mapsto> FDouble p, ClOrdID \<mapsto> cl, OrderQty \<mapsto> FDouble q, LastShares \<mapsto> FDouble q, LastPx \<mapsto> FDouble p]"

lemma fill42:
  assumes "m OrdType = Some (FChar OrdType_LIMIT)" "m Symbol = Some sy" "m Side = Some sd" "m ClOrdID = Some cl"
    "m OrderQty = Some (FDouble q)" "m Price = Some (FDouble p)" "numbered i i ex" "i + 1 < 2 ^ 31"
  shows "\<exists>ex' r. ex_fromApp X se (NewOrder 42 m) ex = Served () ex' \<and> ex_sent ex' = ex_sent ex @ [(se, r)] \<and>
    fm_body r = copy_account m (fill_body (digits_of (i + 1)) sy sd q p cl)"
proof -
  have l: "limit_order 42 m" using assms(1-6) by (simp add: limit_order_def)
  then have "complete_order 42 m" by (simp add: limit_order_complete)
  from report_numbers_run [OF this assms(7,8,8), of "ee_args X"] obtain ex1 r where
    "same_but_ids ex ex1" "report_numbers (arg_order (ee_args X) 42) m ex = Served (\<lparr>of_symbol = sy, of_side = sd,
       of_orderQty = FDouble (rv_qty r), of_price = FDouble (rv_price r), of_clOrdID = cl\<rparr>, r) ex1"
    "q = rv_qty r" "p = rv_price r" "rv_orderID r = digits_of (i + 1)" "rv_execID r = digits_of (i + 1)"
    using l assms(2-6) by auto
  then show ?thesis
    by (simp add: ex_fromApp_def onNewOrderSingle42_def send_report_def ex_send_def fill_body_def same_but_ids_def)
qed

definition fill_report :: "string \<Rightarrow> string \<Rightarrow> string \<Rightarrow> pb_side \<Rightarrow> dbl \<Rightarrow> dbl \<Rightarrow> string option \<Rightarrow> int \<Rightarrow> execution_report" where
  "fill_report o' n sy sd q p acct venue = empty_report\<lparr>er_cl_order_id := Some o', er_exec_id := Some n,
     er_exec_trans_type := Some (int_of_char ExecTransType_NEW), er_order_status := Some (int_of_char OrdStatus_FILLED),
     er_exec_type := Some (int_of_char ExecType_FILL), er_symbol := Some sy, er_side := Some sd, er_order_qty := Some q,
     er_last_shares := Some q, er_last_price := Some p, er_leaves_qty := Some 0, er_cum_qty := Some q, er_avg_price := Some p,
     er_account := acct, er_venue_id := Some venue\<rparr>"

lemma fill_steps:
  assumes "r = copy_account m (fill_body n (FString sy) (fix_side sd) q p cl)"
    "m Account = map_option FString acct"
  shows "fields_typed r"
    and "run_steps (report_steps F r) (empty_report\<lparr>er_cl_order_id := Some o'\<rparr>) =
      Ret (empty_report\<lparr>er_cl_order_id := Some o', er_exec_id := Some n,
        er_exec_trans_type := Some (int_of_char ExecTransType_NEW), er_order_status := Some (int_of_char OrdStatus_FILLED),
        er_exec_type := Some (int_of_char ExecType_FILL), er_symbol := Some sy, er_side := Some sd, er_order_qty := Some q,
        er_last_shares := Some q, er_last_price := Some p, er_leaves_qty := Some 0, er_cum_qty := Some q, er_avg_price := Some p,
        er_account := acct\<rparr>)"
proof -
  have r: "r Account = map_option FString acct" "\<And>t. t \<noteq> Account \<Longrightarrow> r t = fill_body n (FString sy) (fix_side sd) q p cl t"
    using assms by (auto simp: copy_account_def fill_body_def split: option.split)
  obtain c where c: "fix_side sd = FChar c" "\<And>er. er_side (report_side c er) = Some sd" "\<And>er. report_side c er = er\<lparr>er_side := Some sd\<rparr>"
    by (cases sd) (auto simp: fix_side_def report_side_def fix_chars Let_def)
  show "fields_typed r"
    unfolding fields_typed_def report_types_def
    by (cases acct) (simp_all add: typed_at_def r r(1) [unfolded One_nat_def] c(1) fill_body_def)
  show "run_steps (report_steps F r) (empty_report\<lparr>er_cl_order_id := Some o'\<rparr>) =
      Ret (empty_report\<lparr>er_cl_order_id := Some o', er_exec_id := Some n,
        er_exec_trans_type := Some (int_of_char ExecTransType_NEW), er_order_status := Some (int_of_char OrdStatus_FILLED),
        er_exec_type := Some (int_of_char ExecType_FILL), er_symbol := Some sy, er_side := Some sd, er_order_qty := Some q,
        er_last_shares := Some q, er_last_price := Some p, er_leaves_qty := Some 0, er_cum_qty := Some q, er_avg_price := Some p,
        er_account := acct\<rparr>)"
    unfolding report_steps_def
    by (cases acct) (simp_all add: on_defs r r(1) [unfolded One_nat_def] c(1,3) fill_body_def empty_report_def)
qed

text \<open>
  C29. The life of an order on the exchange. In any state the gateway can reach with its queues empty, a limit order of a
  strategy that said hello goes through the gateway to the FIX application and to the exchange, which fills it; the fill
  comes back through the application and the gateway to the address of the strategy as one message, with the
  id, side and symbol the strategy chose, status filled, its quantity as last and cumulative quantity, nothing left, and its
  price as last and average price.
\<close>

theorem order_filled_cycle:
  assumes "tables_ok E" "uuid_ok (fe_uuid F)"
    and "spec_run (ge_venue E) es spec_init = Some p" "sp_client p = []" "sp_int p = []"
    and "sp_routes p s = Some a" "oid_key o'"
    and "parse_new_order_single (fe_codec F) d = Some nos"
    and "nos_strategy_id nos = Some s" "nos_cl_order_id nos = Some o'"
    and "cfg_version (ap_config ap) = 42" "ap_has_processor ap"
    and "pb_int (nos_ord_type nos) = pb_LIM" "ap_limitOrderChar40 ap = OrdType_LIMIT"
    and "ex_orderID ex = int i" "ex_execID ex = int i" "i + 1 < 2 ^ 31"
  shows "\<exists>g ap' m ex' r ap'' er g'.
    gw_run E (map event_of es @ [FromClient [a, word_frame ORDER_NEW, s, o', d], Poll True False])
      (new_gateway E) = Done g \<and>
    dispatch F ORDER_NEW d ap = Ret ap' \<and> ap_sent ap' = ap_sent ap @ [m] \<and>
    ex_fromApp X se (NewOrder 42 (fm_body m)) ex = Served () ex' \<and> ex_sent ex' = ex_sent ex @ [(se, r)] \<and>
    fromApp F (ge_orders E) (gw_ocache g) (ExecutionReport 42 (fm_body r)) ap' = Ret ap'' \<and>
    gw_run E [FromInterface (last (ap_replies ap'')), Poll False True] g = Done g' \<and>
    gw_out g' = gw_out g @ multipart [a, word_frame EXEC_RPT, serialize_execution_report (fe_codec F) er] \<and>
    er = fill_report o' (digits_of (i + 1)) (c_str (pb_string (nos_symbol nos))) (pb_side_of (nos_side nos))
      (pb_double (nos_order_qty nos)) (pb_double (nos_price nos))
      (if ap_account1 ap = [] then None else Some (ap_account1 ap)) (sint (cfg_venue_id (ap_config ap)))"
proof -
  obtain g0 where "grel E g0 p"
    using gw_run_sim [OF assms(1) grel_init [OF assms(1)] assms(3)] by blast
  note rt = grel_route [OF this assms(6)]
  have l: "length s = 16" "length o' = 16"
    using rt(1) assms(7) by (simp_all add: sid_key_def oid_key_def)
  let ?order = "Order a ORDER_NEW s o' d"
  let ?p = "p\<lparr>sp_orders := (sp_orders p)(o' \<mapsto> s), sp_disp := sp_disp p @ [(ORDER_NEW, d)]\<rparr>"
  have "spec_run (ge_venue E) (es @ [SClient ?order, SPoll True False]) spec_init = Some ?p"
    using assms(3-5,7) rt by (simp add: spec_run_append spec_take_client_def Let_def)
  from gw_run_sim [OF assms(1) grel_init [OF assms(1)] this] obtain g where
    g: "gw_run E (map event_of (es @ [SClient ?order, SPoll True False])) (new_gateway E) = Done g"
    "grel E g ?p" by blast
  define m where "m = \<lparr>fm_type = ''D'', fm_header = comp_ids ap, fm_body = new_order_body F nos (OrderId o') ap\<rparr>"
  define ap' where "ap' = send_order_to_serializer (fe_codec F) (StrategyId s) nos (sendToTarget m ap)"
  have sent: "dispatch F ORDER_NEW d ap = Ret ap'"
    using new_order_sent [OF assms(9) l(1) assms(10) l(2)] assms(8,11)
    by (simp add: dispatch_def dispatch_new_def ap'_def m_def)
  let ?sy = "c_str (pb_string (nos_symbol nos))" and ?sd = "pb_side_of (nos_side nos)" and ?q = "pb_double (nos_order_qty nos)"
    and ?px = "pb_double (nos_price nos)" and ?cl = "FString (id_text (fe_uuid F) (OrderId o'))"
    and ?acct = "if ap_account1 ap = [] then None else Some (ap_account1 ap)"
  have body: "fm_body m OrdType = Some (FChar OrdType_LIMIT)" "fm_body m Symbol = Some (FString ?sy)" "fm_body m Side = Some (fix_side ?sd)"
    "fm_body m ClOrdID = Some ?cl" "fm_body m OrderQty = Some (FDouble ?q)" "fm_body m Price = Some (FDouble ?px)"
    using assms(13,14) by (simp_all add: m_def new_order_body_fields order_type_char_def)
  have acct: "fm_body m Account = map_option FString ?acct"
    by (simp add: m_def new_order_body_def empty_fields_def Let_def)
  have n: "numbered i i ex" using assms(15,16) by (simp add: numbered_def)
  obtain ex' r where ex': "ex_fromApp X se (NewOrder 42 (fm_body m)) ex = Served () ex'" "ex_sent ex' = ex_sent ex @ [(se, r)]"
    "fm_body r = copy_account (fm_body m) (fill_body (digits_of (i + 1)) (FString ?sy) (fix_side ?sd) ?q ?px ?cl)"
    using fill42 [OF body(1,2,3,4,5,6) n assms(17)] by blast
  note fs = fill_steps [OF ex'(3) acct]
  have cl: "fm_body r ClOrdID = Some ?cl" using ex'(3) by (auto simp: copy_account_def fill_body_def split: option.split)
  have proc: "ap_has_processor ap'" and cfg: "ap_config ap' = ap_config ap" using assms(12) by (simp_all add: ap'_def sent_simps)
  have c: "sp_client ?p = []" "sp_int ?p = []" "sp_orders ?p o' = Some s" "sp_routes ?p s = Some a" using assms(4-6) by simp_all
  from report_routed_as [OF assms(1,2) g(2) c(1,2) assms(7) c(3,4) proc fs(1) cl] obtain ap'' er g' where
    rep: "report_of F ap' (fm_body r) = Ret (OrderId o', er)"
      "fromApp F (ge_orders E) (gw_ocache g) (ExecutionReport 42 (fm_body r)) ap' = Ret ap''"
      "gw_run E [FromInterface (last (ap_replies ap'')), Poll False True] g = Done g'"
      "gw_out g' = gw_out g @ multipart [a, word_frame EXEC_RPT, serialize_execution_report (fe_codec F) er]" by blast
  have "er = fill_report o' (digits_of (i + 1)) ?sy ?sd ?q ?px ?acct (sint (cfg_venue_id (ap_config ap)))"
    using report_of_typed_from [OF assms(2) l(2) fs(1) cl, of ap'] fs(2) rep(1) cfg
    by (simp add: fill_report_def)
  moreover have "ap_sent ap' = ap_sent ap @ [m]" by (simp add: ap'_def sent_simps)
  moreover have "gw_run E (map event_of es @ [FromClient [a, word_frame ORDER_NEW, s, o', d], Poll True False])
      (new_gateway E) = Done g" using g(1) by simp
  ultimately show ?thesis using sent ex'(1,2) rep(2-4) by blast
qed

lemma order_filled_cycle_witness:
  "\<exists>g ap' m ex' r ap'' g'. gw_run demo_env (map event_of demo_hello @
       [FromClient [demo_addr, word_frame ORDER_NEW, demo_sid, demo_oid, ''sell''], Poll True False])
       (new_gateway demo_env) = Done g \<and>
     dispatch demo_fix ORDER_NEW ''sell'' demo_app = Ret ap' \<and> ap_sent ap' = ap_sent demo_app @ [m] \<and>
     ex_fromApp sample_ex_env ''A'' (NewOrder 42 (fm_body m)) (new_exchange 0 1) = Served () ex' \<and> ex_sent ex' = [(''A'', r)] \<and>
     fromApp demo_fix (ge_orders demo_env) (gw_ocache g) (ExecutionReport 42 (fm_body r)) ap' = Ret ap'' \<and>
     gw_run demo_env [FromInterface (last (ap_replies ap'')), Poll False True] g = Done g' \<and>
     gw_out g' = gw_out g @ multipart [demo_addr, word_frame EXEC_RPT, ''report'']"
proof -
  obtain p where p: "spec_run (ge_venue demo_env) demo_hello spec_init = Some p" "sp_client p = []" "sp_int p = []"
    "sp_routes p demo_sid = Some demo_addr"
    using demo_hello_run by blast
  have d: "parse_new_order_single (fe_codec demo_fix) ''sell'' = Some demo_nos"
    "cfg_version (ap_config demo_app) = 42" "ap_has_processor demo_app"
    "pb_int (nos_ord_type demo_nos) = pb_LIM" "ap_limitOrderChar40 demo_app = OrdType_LIMIT"
    "serialize_execution_report (fe_codec demo_fix) er = ''report''" for er
    by (simp_all add: demo_fix_def demo_codec_def demo_app_def run_application_def new_application_def demo_nos_def pb_defaults
        pb_codes OrdType_LIMIT_def)
  have x: "ex_orderID (new_exchange 0 1 :: (string, string) exchange) = int 0" "ex_execID (new_exchange 0 1 :: (string, string) exchange) = int 0"
    "ex_sent (new_exchange 0 1 :: (string, string) exchange) = []" "(0::nat) + 1 < 2 ^ 31"
    by (simp_all add: new_exchange_def)
  from order_filled_cycle [OF demo_env_ok demo_fix_uuid p demo_keys(2) d(1) demo_nos_ids(1,2) d(2-5) x(1,2,4), of sample_ex_env "''A''"]
  show ?thesis unfolding x(3) d(6) append_Nil by blast
qed

section \<open>Sessions\<close>

text \<open>A complete request for the log \<open>f\<close> at the speed \<open>sp\<close>.\<close>

definition asks :: "md_request \<Rightarrow> string \<Rightarrow> dbl \<Rightarrow> string list \<Rightarrow> bool" where
  "asks m f sp syms \<longleftrightarrow> mq_body m MDUpdateType \<noteq> None \<and>
     mq_body m NoMDEntryTypes = Some (FInt (int (length (mq_entry_types m)))) \<and> list_all (\<lambda>g. g MDEntryType \<noteq> None) (mq_entry_types m) \<and>
     mq_body m NoRelatedSym = Some (FInt (int (length (mq_related m)))) \<and>
     map (\<lambda>g. g Symbol) (mq_related m) = map (\<lambda>x. Some (FString x)) syms \<and>
     mq_body m K_ReplayFile = Some (FString f) \<and> mq_body m K_ReplayTimeDiv = Some (FDouble sp)"

lemma read_all_groups: "list_all (\<lambda>g. g t \<noteq> None) gs \<Longrightarrow> read_groups (length gs) t gs = Ret (map (\<lambda>g. the (g t)) gs)"
  by (induction gs) (auto simp: get_field_def)

lemma read_symbols: "map (\<lambda>g. g t) gs = map (\<lambda>x. Some (FString x)) syms \<Longrightarrow> read_groups (length gs) t gs = Ret (map FString syms)"
proof (induction gs arbitrary: syms)
  case (Cons g gs)
  then show ?case by (cases syms) (auto simp: get_field_def)
qed simp

lemma add_all_symbols:
  "\<exists>si'. add_symbols (map FString syms) si = Served () si' \<and> si_dispatcher si' = si_dispatcher si \<and>
    (\<forall>x. hasSymbol x si' \<longleftrightarrow> hasSymbol x si \<or> x \<in> set syms)"
proof (induction syms arbitrary: si)
  case (Cons y syms)
  let ?si = "snd (addSymbol y si)"
  have 1: "si_dispatcher ?si = si_dispatcher si" "hasSymbol x ?si \<longleftrightarrow> hasSymbol x si \<or> x = y" for x
    by (auto simp: addSymbol_def hasSymbol_def)
  from Cons.IH [of ?si] 1 show ?case by (auto simp: string_value_def)
qed simp

lemmas md_request_defs = read_md_request_def replay_settings_def serve_md_request_def

lemma first_request:
  assumes "asks m f sp syms" "map_of (ex_sessions ex) se = Some si" "\<not> hasDispatcher si" "ee_lookup E se"
  shows "ex_fromApp E se (MarketDataRequest 42 m) ex = Served () (with_session se (si\<lparr>si_dispatcher :=
    Some (new_replay (ee_parser E) sp (ee_started0 E) (ee_stop0 E) (ee_file E (c_str f)))\<rparr>) ex)"
  using assms read_all_groups [of MDEntryType "mq_entry_types m"] read_symbols [of Symbol "mq_related m" syms]
  by (simp add: asks_def ex_fromApp_def onMarketDataRequest42_def md_request_defs get_field_def int_value_def string_value_def double_value_def
      start_replay_def setDispatcher_def hasDispatcher_def)

lemma later_request:
  assumes "asks m f sp syms" "map_of (ex_sessions ex) se = Some si" "hasDispatcher si"
  shows "\<exists>si'. ex_fromApp E se (MarketDataRequest 42 m) ex = Served () (with_session se si' ex) \<and>
    (\<forall>x. hasSymbol x si' \<longleftrightarrow> hasSymbol x si \<or> x \<in> set syms)"
  using assms read_all_groups [of MDEntryType "mq_entry_types m"] read_symbols [of Symbol "mq_related m" syms]
    add_all_symbols [of syms si]
  by (auto simp: asks_def ex_fromApp_def onMarketDataRequest42_def md_request_defs get_field_def int_value_def)

text \<open>A replay of a log that did not open ends the process.\<close>

lemma unopened_dies:
  assumes "(replay_event L)\<^sup>*\<^sup>* (new_replay ps sp False False None) s" "rp_ctl s = CIdle" "\<nexists>s'. replay_step L s s'"
  shows "rp_dead s"
proof (rule ccontr)
  assume "\<not> rp_dead s"
  then have "rp_pump s = PDone" using replay_final [OF assms] by blast
  then show False
    using reach_inv [OF assms(1)] assms(2) by (auto simp: replay_inv_def stop_ok_def slot_ok_def)
qed

text \<open>
  Sessions of the replay server. A session that logs on and out without a market data request ends the
  process by an assertion, and so does, at the logout, one that logs on again while its replay runs. A request for a log that cannot be
  opened is accepted and starts the threads, and the pump's assertion ends the process. The symbols of the first request are not recorded, those of every later one are.
\<close>

theorem exchange_session_faults:
  fixes E :: "('m, 'p, 't) ex_env"
  assumes "asks m f sp syms" "ee_lookup E se" "\<not> ee_started0 E" "\<not> ee_stop0 E"
  shows "ex_onLogout se (ex_onLogon se ex) = Died \<and>
    (\<exists>ex1 si1 r. ex_fromApp E se (MarketDataRequest 42 m) (ex_onLogon se ex) = Served () ex1 \<and>
      map_of (ex_sessions ex1) se = Some si1 \<and> getDispatcher si1 = Some r \<and>
      ex_onLogout se (ex_onLogon se ex1) = Died \<and>
      (ee_file E (c_str f) = None \<longrightarrow> (\<forall>s. (replay_event (ee_lib E))\<^sup>*\<^sup>* r s \<and> rp_ctl s = CIdle \<and>
        (\<nexists>s'. replay_step (ee_lib E) s s') \<longrightarrow> rp_dead s)) \<and>
      (\<forall>x. \<not> hasSymbol x si1) \<and>
      (\<exists>ex2 si2. ex_fromApp E se (MarketDataRequest 42 m) ex1 = Served () ex2 \<and> map_of (ex_sessions ex2) se = Some si2 \<and>
        (\<forall>x. hasSymbol x si2 \<longleftrightarrow> x \<in> set syms)))"
proof -
  define r :: "('m, 'p) replay" where "r = new_replay (ee_parser E) sp False False (ee_file E (c_str f))"
  define si1 where "si1 = (new_session_info se)\<lparr>si_dispatcher := Some r\<rparr>"
  define ex1 where "ex1 = with_session se si1 (ex_onLogon se ex)"
  have s0: "map_of (ex_sessions (ex_onLogon se ex)) se = Some (new_session_info se)" for ex :: "('m, 'p) exchange"
    by (simp add: ex_onLogon_def with_session_def)
  have out: "ex_onLogout se (ex_onLogon se ex) = Died" for ex :: "('m, 'p) exchange"
    using s0 [of ex] by (simp add: ex_onLogout_def getDispatcher_def new_session_info_def)
  have 1: "ex_fromApp E se (MarketDataRequest 42 m) (ex_onLogon se ex) = Served () ex1"
    using first_request [OF assms(1) s0 _ assms(2)] assms(3,4)
    by (simp add: ex1_def si1_def r_def hasDispatcher_def new_session_info_def)
  have s1: "map_of (ex_sessions ex1) se = Some si1" "getDispatcher si1 = Some r" "hasDispatcher si1" "\<not> hasSymbol x si1" for x
    by (simp_all add: ex1_def si1_def with_session_def getDispatcher_def hasDispatcher_def hasSymbol_def new_session_info_def)
  from later_request [OF assms(1) s1(1,3), of E] s1(4) obtain si2 where
    2: "ex_fromApp E se (MarketDataRequest 42 m) ex1 = Served () (with_session se si2 ex1)" "\<forall>x. hasSymbol x si2 \<longleftrightarrow> x \<in> set syms"
    by auto
  have "map_of (ex_sessions (with_session se si2 ex1)) se = Some si2" by (simp add: with_session_def)
  moreover have "rp_dead s" if "ee_file E (c_str f) = None" "(replay_event (ee_lib E))\<^sup>*\<^sup>* r s" "rp_ctl s = CIdle"
    "\<nexists>s'. replay_step (ee_lib E) s s'" for s
    using unopened_dies that unfolding r_def by metis
  ultimately show ?thesis using out 1 s1 2 by blast
qed

definition sample_request :: "string \<Rightarrow> md_request" where
  "sample_request f = \<lparr>mq_body = [SubscriptionRequestType \<mapsto> FChar CHR ''1'', MDUpdateType \<mapsto> FInt 1, NoMDEntryTypes \<mapsto> FInt 1,
     NoRelatedSym \<mapsto> FInt 1, K_ReplayFile \<mapsto> FString f, K_ReplayTimeDiv \<mapsto> FDouble 2],
     mq_entry_types = [[MDEntryType \<mapsto> FChar CHR ''0'']], mq_related = [[Symbol \<mapsto> FString ''EURUSD'']]\<rparr>"

lemma exchange_session_faults_witness:
  "ex_onLogout ''A'' (ex_onLogon ''A'' (new_exchange 0 1 :: (string, string) exchange)) = Died \<and>
    (\<exists>ex1 si1 r. ex_fromApp sample_ex_env ''A'' (MarketDataRequest 42 (sample_request ''no.log'')) (ex_onLogon ''A'' (new_exchange 0 1)) = Served () ex1 \<and>
      map_of (ex_sessions ex1) ''A'' = Some si1 \<and> getDispatcher si1 = Some r \<and> \<not> hasSymbol ''EURUSD'' si1 \<and>
      (\<forall>s. (replay_event sample_fix_lib)\<^sup>*\<^sup>* r s \<and> rp_ctl s = CIdle \<and> (\<nexists>s'. replay_step sample_fix_lib s s') \<longrightarrow> rp_dead s))"
proof -
  have a: "asks (sample_request ''no.log'') ''no.log'' 2 [''EURUSD'']" by (simp add: asks_def sample_request_def)
  have e: "ee_lookup sample_ex_env ''A''" "\<not> ee_started0 sample_ex_env" "\<not> ee_stop0 sample_ex_env"
    "ee_file sample_ex_env (c_str ''no.log'') = None" "ee_lib sample_ex_env = sample_fix_lib"
    by (simp_all add: sample_ex_env_def c_str_def NUL_def)
  from exchange_session_faults [OF a e(1-3), of "new_exchange 0 1"] e(4) show ?thesis unfolding e(5) by blast
qed

end
