(* ===== verification/BookV1.thy ===== *)
theory BookV1
  imports Types "HOL-Library.While_Combinator"
begin

text \<open>
  The price-depth book of \<^verbatim>\<open>order_book/order_book.v1\<close>: two maps per side, from entry ids and from
  prices to entries, cut to a depth.

  The entries are objects on the heap, which the book deletes; a pointer is an address, a read through
  a pointer to a deleted entry is undefined (\<open>None\<close>). The price maps are ordered best first: bids by
  \<^verbatim>\<open>std::greater\<close>, which is the order of the negated prices. Time stamps are compared only and are
  integers here; the time a new book starts with is a parameter (today at midnight). Diagnostics on
  \<^verbatim>\<open>std::cerr\<close> are not modelled, of printing the fields of each line.
\<close>

section \<open>Entries\<close>

type_synonym addr = nat
type_synonym stamp = int

record pd_entry =
  pe_created :: stamp
  pe_modified :: stamp
  pe_type :: char
  pe_id :: string
  pe_price :: dbl
  pe_size :: uint32

type_synonym pd_heap = "addr \<rightharpoonup> pd_entry"

definition MDEntryType_BID :: char where "MDEntryType_BID = CHR ''0''"
definition MDEntryType_OFFER :: char where "MDEntryType_OFFER = CHR ''1''"

lemmas md_sides = MDEntryType_BID_def MDEntryType_OFFER_def

definition entry_less :: "pd_entry \<Rightarrow> pd_entry \<Rightarrow> bool" where
  "entry_less a b \<longleftrightarrow> pe_price a < pe_price b"

definition entry_greater :: "pd_entry \<Rightarrow> pd_entry \<Rightarrow> bool" where
  "entry_greater a b \<longleftrightarrow> pe_price a > pe_price b"

section \<open>The book\<close>

type_synonym id_map = "(string \<times> addr) list"
type_synonym price_map = "(dbl \<times> addr) list"

record pd_book =
  pd_symbol :: string
  pd_depth :: uint32
  pd_bidIds :: id_map
  pd_bidPrices :: price_map
  pd_offerIds :: id_map
  pd_offerPrices :: price_map
  pd_lastUpdateTime :: stamp

definition new_pd_book :: "string \<Rightarrow> uint32 \<Rightarrow> stamp \<Rightarrow> pd_book" where
  "new_pd_book s d t0 = \<lparr>pd_symbol = s, pd_depth = d, pd_bidIds = [], pd_bidPrices = [],
     pd_offerIds = [], pd_offerPrices = [], pd_lastUpdateTime = t0\<rparr>"

text \<open>The key of a price in the map of a side.\<close>

definition price_key :: "char \<Rightarrow> dbl \<Rightarrow> dbl" where
  "price_key t p = (if t = MDEntryType_BID then - p else p)"

definition bump_time :: "stamp \<Rightarrow> pd_book \<Rightarrow> pd_book" where
  "bump_time t b = (if pd_lastUpdateTime b < t then b\<lparr>pd_lastUpdateTime := t\<rparr> else b)"

definition findBidById :: "string \<Rightarrow> pd_book \<Rightarrow> addr option" where
  "findBidById i b = map_of (pd_bidIds b) i"

definition findOfferById :: "string \<Rightarrow> pd_book \<Rightarrow> addr option" where
  "findOfferById i b = map_of (pd_offerIds b) i"

definition findEntryById :: "string \<Rightarrow> pd_book \<Rightarrow> addr option" where
  "findEntryById i b = (case findBidById i b of None \<Rightarrow> findOfferById i b | Some a \<Rightarrow> Some a)"

definition hasBidPrice :: "dbl \<Rightarrow> pd_book \<Rightarrow> bool" where
  "hasBidPrice p b \<longleftrightarrow> map_of (pd_bidPrices b) (price_key MDEntryType_BID p) \<noteq> None"

definition hasOfferPrice :: "dbl \<Rightarrow> pd_book \<Rightarrow> bool" where
  "hasOfferPrice p b \<longleftrightarrow> map_of (pd_offerPrices b) (price_key MDEntryType_OFFER p) \<noteq> None"

definition hasPrice :: "dbl \<Rightarrow> pd_book \<Rightarrow> bool" where
  "hasPrice p b \<longleftrightarrow> hasBidPrice p b \<or> hasOfferPrice p b"

definition hasBidId :: "string \<Rightarrow> pd_book \<Rightarrow> bool" where
  "hasBidId i b \<longleftrightarrow> map_of (pd_bidIds b) i \<noteq> None"

definition hasOfferId :: "string \<Rightarrow> pd_book \<Rightarrow> bool" where
  "hasOfferId i b \<longleftrightarrow> map_of (pd_offerIds b) i \<noteq> None"

definition hasId :: "string \<Rightarrow> pd_book \<Rightarrow> bool" where
  "hasId i b \<longleftrightarrow> hasBidId i b \<or> hasOfferId i b"

text \<open>The assertion that both maps of a side have the same size, which is returned as an \<^verbatim>\<open>int\<close>.\<close>

definition size_int :: "nat \<Rightarrow> int" where
  "size_int n = sint (of_nat n :: uint32)"

lemma size_int_small: "n < 2 ^ 31 \<Longrightarrow> size_int n = int n"
  by (simp add: size_int_def signed_of_nat signed_take_bit_int_eq_self)

definition numBids :: "pd_book \<Rightarrow> int option" where
  "numBids b = (if length (pd_bidIds b) = length (pd_bidPrices b) then Some (size_int (length (pd_bidIds b))) else None)"

definition numOffers :: "pd_book \<Rightarrow> int option" where
  "numOffers b = (if length (pd_offerIds b) = length (pd_offerPrices b) then Some (size_int (length (pd_offerIds b))) else None)"

section \<open>Trimming\<close>

text \<open>
  The iterator is decremented and its entry erased; a second round would decrement the iterator that
  the erasure invalidated (\<open>valid\<close>), which is undefined, as is decrementing the begin of an empty map.
\<close>

function trim_loop :: "uint32 \<Rightarrow> uint32 \<Rightarrow> bool \<Rightarrow> bool \<Rightarrow> pd_heap \<Rightarrow> price_map \<Rightarrow> id_map
    \<Rightarrow> (pd_heap \<times> price_map \<times> id_map) option" where
  "trim_loop n depth valid deleteValue h prices ids =
     (if n > depth
      then if \<not> valid \<or> prices = [] then None
        else (case h (snd (last prices)) of
            None \<Rightarrow> None
          | Some e \<Rightarrow> trim_loop (n - 1) depth False deleteValue
              (if deleteValue then h(snd (last prices) := None) else h) (butlast prices) (sm_del (pe_id e) ids))
      else Some (h, prices, ids))"
  by pat_completeness auto

termination
proof (relation "measure (\<lambda>(n, _). unat n)")
  fix n depth :: uint32
  assume "depth < n"
  then have "n \<noteq> 0" by auto
  then show "((n - 1, depth, False, d, h, p, i), n, depth, v, d, h', p', i') \<in> measure (\<lambda>(n, _). unat n)" for d h p i v h' p' i'
    by (simp add: unat_minus_one unat_gt_0)
qed simp

declare trim_loop.simps [simp del]

definition trimMap :: "uint32 \<Rightarrow> bool \<Rightarrow> pd_heap \<Rightarrow> price_map \<Rightarrow> id_map \<Rightarrow> (pd_heap \<times> price_map \<times> id_map) option" where
  "trimMap depth deleteValue h prices ids = trim_loop (of_nat (length prices)) depth True deleteValue h prices ids"

section \<open>Operations\<close>

text \<open>A false result is a failed check; a null pointer is \<open>None\<close> as an argument.\<close>

definition pd_add :: "addr option \<Rightarrow> pd_heap \<Rightarrow> pd_book \<Rightarrow> (bool \<times> pd_heap \<times> pd_book) option" where
  "pd_add entry h b = (case entry of None \<Rightarrow> Some (False, h, b)
     | Some a \<Rightarrow> (case h a of None \<Rightarrow> None
     | Some e \<Rightarrow>
        (let b = bump_time (pe_modified e) b in
         if pe_type e = MDEntryType_BID then
           (case trimMap (pd_depth b) True h (sm_put (price_key MDEntryType_BID (pe_price e)) a (pd_bidPrices b))
                   (sm_put (pe_id e) a (pd_bidIds b)) of
              None \<Rightarrow> None
            | Some (h, prices, ids) \<Rightarrow> Some (True, h, b\<lparr>pd_bidPrices := prices, pd_bidIds := ids\<rparr>))
         else if pe_type e \<noteq> MDEntryType_OFFER then Some (False, h, b)
         else
           (case trimMap (pd_depth b) True h (sm_put (price_key MDEntryType_OFFER (pe_price e)) a (pd_offerPrices b))
                   (sm_put (pe_id e) a (pd_offerIds b)) of
              None \<Rightarrow> None
            | Some (h, prices, ids) \<Rightarrow> Some (True, h, b\<lparr>pd_offerPrices := prices, pd_offerIds := ids\<rparr>)))))"

definition pd_remove :: "string \<Rightarrow> stamp \<Rightarrow> bool \<Rightarrow> pd_heap \<Rightarrow> pd_book \<Rightarrow> (bool \<times> pd_heap \<times> pd_book) option" where
  "pd_remove i t deleteEntry h b = (case map_of (pd_bidIds b) i of
     Some a \<Rightarrow> (case h a of None \<Rightarrow> None
     | Some e \<Rightarrow> (case map_of (pd_bidPrices b) (price_key MDEntryType_BID (pe_price e)) of
         None \<Rightarrow> Some (False, h, b)
       | Some _ \<Rightarrow> Some (True, if deleteEntry then h(a := None) else h,
           bump_time t (b\<lparr>pd_bidPrices := sm_del (price_key MDEntryType_BID (pe_price e)) (pd_bidPrices b),
             pd_bidIds := sm_del i (pd_bidIds b)\<rparr>))))
   | None \<Rightarrow> (case map_of (pd_offerIds b) i of
     Some a \<Rightarrow> (case h a of None \<Rightarrow> None
     | Some e \<Rightarrow> (case map_of (pd_offerPrices b) (price_key MDEntryType_OFFER (pe_price e)) of
         None \<Rightarrow> Some (False, h, b)
       | Some _ \<Rightarrow> Some (True, if deleteEntry then h(a := None) else h,
           bump_time t (b\<lparr>pd_offerPrices := sm_del (price_key MDEntryType_OFFER (pe_price e)) (pd_offerPrices b),
             pd_offerIds := sm_del i (pd_offerIds b)\<rparr>))))
   | None \<Rightarrow> Some (False, h, b)))"

definition pd_changeSize :: "string \<Rightarrow> uint32 \<Rightarrow> stamp \<Rightarrow> pd_heap \<Rightarrow> pd_book \<Rightarrow> (bool \<times> pd_heap \<times> pd_book) option" where
  "pd_changeSize i sz t h b =
    (let b = bump_time t b in
     case findEntryById i b of
       None \<Rightarrow> Some (False, h, b)
     | Some a \<Rightarrow> (case h a of None \<Rightarrow> None
       | Some e \<Rightarrow> Some (True, h(a \<mapsto> e\<lparr>pe_size := sz, pe_modified := t\<rparr>), bump_time t b)))"

definition pd_replace :: "string \<Rightarrow> addr option \<Rightarrow> pd_heap \<Rightarrow> pd_book \<Rightarrow> (bool \<times> pd_heap \<times> pd_book) option" where
  "pd_replace i entry h b = (case entry of None \<Rightarrow> Some (False, h, b)
     | Some a \<Rightarrow> (case h a of None \<Rightarrow> None
     | Some e \<Rightarrow>
        (let b = bump_time (pe_modified e) b in
         if map_of (pd_bidIds b) i \<noteq> None then
           Some (True, h, b\<lparr>pd_bidIds := sm_put i a (pd_bidIds b),
             pd_bidPrices := sm_put (price_key MDEntryType_BID (pe_price e)) a (pd_bidPrices b)\<rparr>)
         else if map_of (pd_offerIds b) i = None then Some (False, h, b)
         else Some (True, h, b\<lparr>pd_offerIds := sm_put i a (pd_offerIds b),
             pd_offerPrices := sm_put (price_key MDEntryType_OFFER (pe_price e)) a (pd_offerPrices b)\<rparr>))))"

section \<open>Walking the levels\<close>

text \<open>An iterator is the rest of the map from its position, the end is \<open>[]\<close>. A loop that does not end
  is \<open>None\<close>.\<close>

definition walkToLevel :: "price_map \<Rightarrow> uint32 \<Rightarrow> price_map option" where
  "walkToLevel m level = map_option snd
     (while_option (\<lambda>(i, it). i < level \<and> it \<noteq> []) (\<lambda>(i, it). (i + 1, tl it)) (0, m))"

text \<open>The entry of an iterator; the end has none.\<close>

definition deref :: "price_map \<Rightarrow> addr option" where
  "deref it = (case it of [] \<Rightarrow> None | (_, a) # _ \<Rightarrow> Some a)"

definition walkToBidLevelIter :: "uint32 \<Rightarrow> pd_book \<Rightarrow> price_map option" where
  "walkToBidLevelIter level b = walkToLevel (pd_bidPrices b) level"

definition walkToOfferLevelIter :: "uint32 \<Rightarrow> pd_book \<Rightarrow> price_map option" where
  "walkToOfferLevelIter level b = walkToLevel (pd_offerPrices b) level"

definition walkToBidLevel :: "uint32 \<Rightarrow> pd_book \<Rightarrow> addr option" where
  "walkToBidLevel level b = (case walkToBidLevelIter level b of None \<Rightarrow> None | Some it \<Rightarrow> deref it)"

definition walkToOfferLevel :: "uint32 \<Rightarrow> pd_book \<Rightarrow> addr option" where
  "walkToOfferLevel level b = (case walkToOfferLevelIter level b of None \<Rightarrow> None | Some it \<Rightarrow> deref it)"

text \<open>Both loops read the price of the entry they stand on.\<close>

fun walkToBidPriceIter :: "pd_heap \<Rightarrow> dbl \<Rightarrow> price_map \<Rightarrow> price_map option" where
  "walkToBidPriceIter h p [] = Some []"
| "walkToBidPriceIter h p ((k, a) # m) = (case h a of None \<Rightarrow> None
     | Some e \<Rightarrow> if p > pe_price e then walkToBidPriceIter h p m else Some ((k, a) # m))"

fun walkToOfferPriceIter :: "pd_heap \<Rightarrow> dbl \<Rightarrow> price_map \<Rightarrow> price_map option" where
  "walkToOfferPriceIter h p [] = Some []"
| "walkToOfferPriceIter h p ((k, a) # m) = (case h a of None \<Rightarrow> None
     | Some e \<Rightarrow> if p < pe_price e then walkToOfferPriceIter h p m else Some ((k, a) # m))"

definition walkToBidPrice :: "dbl \<Rightarrow> pd_heap \<Rightarrow> pd_book \<Rightarrow> addr option" where
  "walkToBidPrice p h b = (case walkToBidPriceIter h p (pd_bidPrices b) of None \<Rightarrow> None | Some it \<Rightarrow> deref it)"

definition walkToOfferPrice :: "dbl \<Rightarrow> pd_heap \<Rightarrow> pd_book \<Rightarrow> addr option" where
  "walkToOfferPrice p h b = (case walkToOfferPriceIter h p (pd_offerPrices b) of None \<Rightarrow> None | Some it \<Rightarrow> deref it)"

section \<open>Printing\<close>

text \<open>The varying fields of a line: time, side, level, price and size.\<close>

fun print_iter_range :: "pd_heap \<Rightarrow> side \<Rightarrow> nat \<Rightarrow> price_map \<Rightarrow> (stamp \<times> side \<times> nat \<times> dbl \<times> uint32) list option" where
  "print_iter_range h s i [] = Some []"
| "print_iter_range h s i ((k, a) # m) = (case h a of None \<Rightarrow> None
     | Some e \<Rightarrow> (case print_iter_range h s (i + 1) m of None \<Rightarrow> None
         | Some ls \<Rightarrow> Some ((pe_modified e, s, i, pe_price e, pe_size e) # ls)))"

definition pd_print :: "pd_heap \<Rightarrow> pd_book \<Rightarrow> (stamp \<times> (stamp \<times> side \<times> nat \<times> dbl \<times> uint32) list) option" where
  "pd_print h b = (case print_iter_range h BID 1 (pd_bidPrices b) of None \<Rightarrow> None
     | Some bids \<Rightarrow> (case print_iter_range h ASK 1 (pd_offerPrices b) of None \<Rightarrow> None
        | Some asks \<Rightarrow> Some (pd_lastUpdateTime b, bids @ asks)))"

end
