(* ===== verification/BookV1Correct.thy ===== *)
theory BookV1Correct
  imports BookV1
begin

text \<open>
  The invariant of the price-depth book: every pointer it holds leads to a live entry of its side, under
  whatever is added, removed, resized or released (\<open>pd_reachable_wf\<close>).
\<close>

section \<open>One side of a book\<close>

definition refs :: "price_map \<Rightarrow> id_map \<Rightarrow> addr set" where
  "refs m ids = ran (map_of m) \<union> ran (map_of ids)"

abbreviation entry_key :: "pd_entry \<Rightarrow> dbl" where
  "entry_key e \<equiv> price_key (pe_type e) (pe_price e)"

text \<open>Every pointer leads to a live entry of the side that has the price or id it is filed under.\<close>

definition side_wf :: "pd_heap \<Rightarrow> char \<Rightarrow> price_map \<Rightarrow> id_map \<Rightarrow> bool" where
  "side_wf h t m ids \<longleftrightarrow> sm_sorted m \<and> sm_sorted ids \<and>
     (\<forall>k a. map_of m k = Some a \<longrightarrow> (\<exists>e. h a = Some e \<and> pe_type e = t \<and> entry_key e = k)) \<and>
     (\<forall>i a. map_of ids i = Some a \<longrightarrow> (\<exists>e. h a = Some e \<and> pe_type e = t \<and> pe_id e = i))"

text \<open>Both maps hold the same entries.\<close>

definition side_tight :: "pd_heap \<Rightarrow> price_map \<Rightarrow> id_map \<Rightarrow> bool" where
  "side_tight h m ids \<longleftrightarrow>
     (\<forall>k a e. map_of m k = Some a \<longrightarrow> h a = Some e \<longrightarrow> map_of ids (pe_id e) = Some a) \<and>
     (\<forall>i a e. map_of ids i = Some a \<longrightarrow> h a = Some e \<longrightarrow> map_of m (entry_key e) = Some a)"

definition view :: "pd_heap \<Rightarrow> price_map \<Rightarrow> pd_entry list" where
  "view h m = map (\<lambda>(k, a). the (h a)) m"

lemma side_wf_empty [simp]: "side_wf h t [] []" "side_tight h [] []" "refs [] [] = {}" "view h [] = []"
  by (simp_all add: side_wf_def side_tight_def refs_def view_def)

lemma side_wf_price: "side_wf h t m ids \<Longrightarrow> map_of m k = Some a \<Longrightarrow>
    \<exists>e. h a = Some e \<and> pe_type e = t \<and> entry_key e = k"
  by (simp add: side_wf_def)

lemma side_wf_id: "side_wf h t m ids \<Longrightarrow> map_of ids i = Some a \<Longrightarrow> \<exists>e. h a = Some e \<and> pe_type e = t \<and> pe_id e = i"
  by (simp add: side_wf_def)

lemma side_wf_sorted: "side_wf h t m ids \<Longrightarrow> sm_sorted m" "side_wf h t m ids \<Longrightarrow> sm_sorted ids"
  by (simp_all add: side_wf_def)

lemma refs_cases:
  "a \<in> refs m ids \<Longrightarrow> (\<And>k. map_of m k = Some a \<Longrightarrow> P) \<Longrightarrow> (\<And>i. map_of ids i = Some a \<Longrightarrow> P) \<Longrightarrow> P"
  by (auto simp: refs_def ran_def)

lemma refs_in: "map_of m k = Some a \<Longrightarrow> a \<in> refs m ids" "map_of ids i = Some a \<Longrightarrow> a \<in> refs m ids"
  by (auto simp: refs_def ran_def)

lemma side_wf_refs: "side_wf h t m ids \<Longrightarrow> a \<in> refs m ids \<Longrightarrow> \<exists>e. h a = Some e \<and> pe_type e = t"
  by (elim refs_cases) (blast dest: side_wf_price side_wf_id)+

lemma side_wf_frame: "side_wf h t m ids \<Longrightarrow> (\<forall>a \<in> refs m ids. h' a = h a) \<Longrightarrow> side_wf h' t m ids"
  unfolding side_wf_def [of h'] using side_wf_sorted [of h t m ids]
  by (metis refs_in side_wf_id side_wf_price)

lemma side_tight_frame: "side_tight h m ids \<Longrightarrow> (\<forall>a \<in> refs m ids. h' a = h a) \<Longrightarrow> side_tight h' m ids"
  unfolding side_tight_def by (metis refs_in)

lemma sm_snd_in: "sm_sorted m \<Longrightarrow> (k, a) \<in> set m \<Longrightarrow> map_of m k = Some a"
  by (simp add: sm_in_iff)

lemma view_frame:
  assumes "sm_sorted m" "\<forall>a \<in> refs m ids. h' a = h a"
  shows "view h' m = view h m"
proof -
  have "h' a = h a" if "(k, a) \<in> set m" for k a
    using sm_snd_in [OF assms(1) that] assms(2) by (auto simp: refs_def intro: ranI)
  then show ?thesis by (auto simp: view_def)
qed

lemma refs_put: "refs (sm_put k a m) (sm_put i a ids) \<subseteq> insert a (refs m ids)"
  by (auto simp: refs_def ran_def split: if_splits)

lemma refs_del: "refs (sm_del k m) (sm_del i ids) \<subseteq> refs m ids"
  by (auto simp: refs_def ran_def split: if_splits)

lemma side_wf_put:
  assumes "side_wf h t m ids" "h a = Some e" "pe_type e = t"
  shows "side_wf h t (sm_put (price_key t (pe_price e)) a m) (sm_put (pe_id e) a ids)"
  using assms unfolding side_wf_def by auto

lemma side_wf_del:
  assumes "side_wf h t m ids" "h a = Some e" "pe_type e = t"
  shows "side_wf h t (sm_del (entry_key e) m) (sm_del (pe_id e) ids)"
    and "a \<notin> refs (sm_del (entry_key e) m) (sm_del (pe_id e) ids)"
    and "side_wf (h(a := None)) t (sm_del (entry_key e) m) (sm_del (pe_id e) ids)"
proof -
  show w: "side_wf h t (sm_del (entry_key e) m) (sm_del (pe_id e) ids)"
    using assms unfolding side_wf_def by auto
  show n: "a \<notin> refs (sm_del (entry_key e) m) (sm_del (pe_id e) ids)"
    using side_wf_price [OF assms(1)] side_wf_id [OF assms(1)] assms(2,3)
    by (fastforce elim!: refs_cases split: if_splits)
  show "side_wf (h(a := None)) t (sm_del (entry_key e) m) (sm_del (pe_id e) ids)"
    using n by (intro side_wf_frame [OF w]) auto
qed

text \<open>An entry of the other side is not referred to.\<close>

lemma other_side: "side_wf h t m ids \<Longrightarrow> h a = Some e \<Longrightarrow> pe_type e \<noteq> t \<Longrightarrow> a \<notin> refs m ids"
  using side_wf_refs by fastforce

section \<open>Trimming\<close>

lemma sm_butlast: "sm_sorted m \<Longrightarrow> m \<noteq> [] \<Longrightarrow> butlast m = sm_del (fst (last m)) m"
proof (induction m)
  case (Cons x m)
  show ?case
  proof (cases "m = []")
    case False
    obtain k a where x: "x = (k, a)" by (cases x)
    have "fst (last m) \<in> fst ` set m" using False by (intro imageI last_in_set)
    then have "k \<noteq> fst (last m)" using Cons.prems(1) x by (auto simp: sm_sorted_Cons)
    then show ?thesis using Cons False x by (simp add: sm_sorted_Cons sm_del_def)
  qed (simp add: sm_del_def split: prod.split)
qed simp

lemma trimMap_one:
  assumes "side_wf h t m ids" "length m \<le> unat d + 1" "unat d + 1 < 2 ^ 32"
  shows "trimMap d True h m ids = (if length m \<le> unat d then Some (h, m, ids)
    else (let a = snd (last m); e = the (h a) in
      Some (h(a := None), sm_del (fst (last m)) m, sm_del (pe_id e) ids)))"
proof -
  have u: "unat (of_nat (length m) :: uint32) = length m"
    using assms(2,3) by (simp add: unat_of_nat)
  then have c: "d < of_nat (length m) \<longleftrightarrow> unat d < length m"
    by (simp add: word_less_nat_alt)
  show ?thesis
  proof (cases "unat d < length m")
    case True
    then have ne: "m \<noteq> []" by auto
    then have "map_of m (fst (last m)) = Some (snd (last m))"
      using assms(1) sm_snd_in [of m "fst (last m)" "snd (last m)"] by (simp add: side_wf_def)
    then obtain e where e: "h (snd (last m)) = Some e" using assms(1) unfolding side_wf_def by blast
    have l: "length m = unat d + 1" using assms(2) True by simp
    have "of_nat (length m) - 1 = d"
      using l by simp
    then have stop: "\<not> d < of_nat (length m) - 1" by simp
    show ?thesis
      using True c ne e stop assms(1)
      by (simp add: trimMap_def trim_loop.simps [of "of_nat (length m)"] trim_loop.simps [of "of_nat (length m) - 1"]
          Let_def sm_butlast side_wf_def)
  next
    case False
    then show ?thesis using c by (simp add: trimMap_def trim_loop.simps [of "of_nat (length m)"])
  qed
qed

lemma trimMap_wf:
  assumes "side_wf h t m ids" "length m \<le> unat d + 1" "unat d + 1 < 2 ^ 32"
  shows "\<exists>h' m' ids'. trimMap d True h m ids = Some (h', m', ids') \<and> side_wf h' t m' ids' \<and> length m' \<le> unat d \<and>
    (h' = h \<or> (\<exists>a e. h a = Some e \<and> pe_type e = t \<and> h' = h(a := None)))"
proof (cases "length m \<le> unat d")
  case False
  then have ne: "m \<noteq> []" by auto
  then have "map_of m (fst (last m)) = Some (snd (last m))"
    using assms(1) sm_snd_in [of m "fst (last m)" "snd (last m)"] by (simp add: side_wf_def)
  then obtain e where e: "h (snd (last m)) = Some e" "pe_type e = t" "entry_key e = fst (last m)"
    using assms(1) unfolding side_wf_def by blast
  have "length (sm_del (fst (last m)) m) = length m - 1"
    using assms(1) ne by (simp add: side_wf_def flip: sm_butlast)
  moreover have "length m = unat d + 1" using assms(2) False by simp
  ultimately show ?thesis
    using side_wf_del(3) [OF assms(1) e(1,2)] e False trimMap_one [OF assms]
    by (auto simp: Let_def)
qed (use assms trimMap_one [OF assms] in auto)

section \<open>No dangling pointers\<close>

definition pd_wf :: "pd_heap \<Rightarrow> pd_book \<Rightarrow> bool" where
  "pd_wf h b \<longleftrightarrow> side_wf h MDEntryType_BID (pd_bidPrices b) (pd_bidIds b) \<and>
     side_wf h MDEntryType_OFFER (pd_offerPrices b) (pd_offerIds b) \<and>
     length (pd_bidPrices b) \<le> unat (pd_depth b) \<and> length (pd_offerPrices b) \<le> unat (pd_depth b)"

definition pd_refs :: "pd_book \<Rightarrow> addr set" where
  "pd_refs b = refs (pd_bidPrices b) (pd_bidIds b) \<union> refs (pd_offerPrices b) (pd_offerIds b)"

lemma bump_time_simps [simp]:
  "pd_bidPrices (bump_time t b) = pd_bidPrices b" "pd_bidIds (bump_time t b) = pd_bidIds b"
  "pd_offerPrices (bump_time t b) = pd_offerPrices b" "pd_offerIds (bump_time t b) = pd_offerIds b"
  "pd_depth (bump_time t b) = pd_depth b" "pd_wf h (bump_time t b) = pd_wf h b"
  "pd_refs (bump_time t b) = pd_refs b"
  by (simp_all add: bump_time_def pd_wf_def pd_refs_def)

lemma sides_differ: "MDEntryType_BID \<noteq> MDEntryType_OFFER"
  by (simp add: md_sides)

lemma sm_put_length: "length (sm_put k v m) \<le> length m + 1"
  by (induction k v m rule: sm_put.induct) auto

lemma sm_del_length: "length (sm_del k m) \<le> length m"
  by (simp add: sm_del_def)

lemma pd_wf_alloc: "pd_wf h b \<Longrightarrow> h a = None \<Longrightarrow> pd_wf (h(a \<mapsto> e)) b"
  unfolding pd_wf_def by (metis fun_upd_other option.distinct(1) side_wf_frame side_wf_refs)

lemma pd_add_wf:
  assumes "pd_wf h b" "h a = Some e" "unat (pd_depth b) + 1 < 2 ^ 32"
  shows "\<exists>r h' b'. pd_add (Some a) h b = Some (r, h', b') \<and> pd_wf h' b' \<and> pd_depth b' = pd_depth b \<and>
    (h' = h \<or> (\<exists>x. h' = h(x := None)))"
proof -
  let ?t = "pe_type e"
  note w = assms(1) [unfolded pd_wf_def]
  have keep: "side_wf (h(x := None)) t m ids" if "side_wf h t m ids" "h x = Some y" "pe_type y \<noteq> t" for x y t m ids
    using other_side [OF that] by (intro side_wf_frame [OF that(1)]) auto
  consider "?t = MDEntryType_BID" | "?t = MDEntryType_OFFER" | "?t \<noteq> MDEntryType_BID" "?t \<noteq> MDEntryType_OFFER"
    by blast
  then show ?thesis
  proof cases
    case 1
    let ?m = "sm_put (price_key MDEntryType_BID (pe_price e)) a (pd_bidPrices b)" and ?i = "sm_put (pe_id e) a (pd_bidIds b)"
    have "length ?m \<le> unat (pd_depth b) + 1"
      using sm_put_length [of "price_key MDEntryType_BID (pe_price e)" a "pd_bidPrices b"] w by linarith
    moreover have "side_wf h MDEntryType_BID ?m ?i"
      using side_wf_put [of h MDEntryType_BID _ _ a e] w assms(2) 1 by simp
    ultimately obtain h' m' ids' where t: "trimMap (pd_depth b) True h ?m ?i = Some (h', m', ids')"
      "side_wf h' MDEntryType_BID m' ids'" "length m' \<le> unat (pd_depth b)"
      "h' = h \<or> (\<exists>x y. h x = Some y \<and> pe_type y = MDEntryType_BID \<and> h' = h(x := None))"
      using trimMap_wf [OF _ _ assms(3)] by meson
    have "side_wf h' MDEntryType_OFFER (pd_offerPrices b) (pd_offerIds b)"
      using t(4) w sides_differ by (auto intro: keep)
    with t w assms(2) 1 show ?thesis by (auto simp: pd_add_def pd_wf_def)
  next
    case 2
    let ?m = "sm_put (price_key MDEntryType_OFFER (pe_price e)) a (pd_offerPrices b)" and ?i = "sm_put (pe_id e) a (pd_offerIds b)"
    have "length ?m \<le> unat (pd_depth b) + 1"
      using sm_put_length [of "price_key MDEntryType_OFFER (pe_price e)" a "pd_offerPrices b"] w by linarith
    moreover have "side_wf h MDEntryType_OFFER ?m ?i"
      using side_wf_put [of h MDEntryType_OFFER _ _ a e] w assms(2) 2 by simp
    ultimately obtain h' m' ids' where t: "trimMap (pd_depth b) True h ?m ?i = Some (h', m', ids')"
      "side_wf h' MDEntryType_OFFER m' ids'" "length m' \<le> unat (pd_depth b)"
      "h' = h \<or> (\<exists>x y. h x = Some y \<and> pe_type y = MDEntryType_OFFER \<and> h' = h(x := None))"
      using trimMap_wf [OF _ _ assms(3)] by meson
    have "side_wf h' MDEntryType_BID (pd_bidPrices b) (pd_bidIds b)"
      using t(4) w sides_differ by (auto intro: keep)
    with t w assms(2) 2 sides_differ show ?thesis by (auto simp: pd_add_def pd_wf_def)
  qed (use assms in \<open>auto simp: pd_add_def Let_def\<close>)
qed

text \<open>Removing an entry from its side.\<close>

lemma pd_remove_wf:
  assumes "pd_wf h b"
  shows "\<exists>r h' b'. pd_remove i t del h b = Some (r, h', b') \<and> pd_wf h' b' \<and> pd_depth b' = pd_depth b \<and>
    (h' = h \<or> (\<exists>x. h' = h(x := None)))"
proof -
  note w = assms [unfolded pd_wf_def]
  have keep: "side_wf (h(x := None)) s m ids" if "side_wf h s m ids" "h x = Some y" "pe_type y \<noteq> s" for x y s m ids
    using other_side [OF that] by (intro side_wf_frame [OF that(1)]) auto
  have len: "length (sm_del k m) \<le> n" if "length m \<le> n" for k and m :: price_map and n
    using sm_del_length [of k m] that by simp
  show ?thesis
  proof (cases "map_of (pd_bidIds b) i")
    case (Some a)
    obtain e where e: "h a = Some e" "pe_type e = MDEntryType_BID" "pe_id e = i"
      using side_wf_id [of h _ _ "pd_bidIds b"] w Some by blast
    from side_wf_del [of h MDEntryType_BID "pd_bidPrices b" "pd_bidIds b" a e] e w Some
      keep [of MDEntryType_OFFER _ _ a e] sides_differ len
    show ?thesis
      by (auto simp: pd_remove_def pd_wf_def split: option.split)
  next
    case None
    show ?thesis
    proof (cases "map_of (pd_offerIds b) i")
      case (Some a)
      obtain e where e: "h a = Some e" "pe_type e = MDEntryType_OFFER" "pe_id e = i"
        using side_wf_id [of h _ _ "pd_offerIds b"] w Some by blast
      from side_wf_del [of h MDEntryType_OFFER "pd_offerPrices b" "pd_offerIds b" a e] e w Some None
        keep [of MDEntryType_BID _ _ a e] sides_differ len
      show ?thesis
        by (auto simp: pd_remove_def pd_wf_def split: option.split)
    qed (use assms None in \<open>auto simp: pd_remove_def\<close>)
  qed
qed

lemma side_wf_change:
  assumes "side_wf h t m ids" "h a = Some e" "pe_type e' = pe_type e" "pe_id e' = pe_id e" "pe_price e' = pe_price e"
  shows "side_wf (h(a \<mapsto> e')) t m ids"
  using assms(2-5) side_wf_price [OF assms(1)] side_wf_id [OF assms(1)] side_wf_sorted [OF assms(1)]
  by (fastforce simp: side_wf_def)

lemma findEntryById_bump [simp]: "findEntryById i (bump_time t b) = findEntryById i b"
  by (cases "map_of (pd_bidIds b) i") (simp_all add: findEntryById_def findBidById_def findOfferById_def)

lemma pd_changeSize_wf:
  assumes "pd_wf h b"
  shows "\<exists>r h' b'. pd_changeSize i n t h b = Some (r, h', b') \<and> pd_wf h' b' \<and> pd_depth b' = pd_depth b \<and>
    (h' = h \<or> (\<exists>a e. h a \<noteq> None \<and> h' = h(a \<mapsto> e)))"
proof (cases "findEntryById i b")
  case (Some a)
  then obtain e where e: "h a = Some e"
    using assms side_wf_id [of h] by (fastforce simp: findEntryById_def findBidById_def findOfferById_def pd_wf_def
        split: option.splits)
  show ?thesis
    using Some e assms side_wf_change [of h _ _ _ a e "e\<lparr>pe_size := n, pe_modified := t\<rparr>"]
    by (auto simp: pd_changeSize_def Let_def pd_wf_def)
next
  case None
  then show ?thesis using assms by (auto simp: pd_changeSize_def)
qed

text \<open>A client of the book: it hands in new entries, removes entries (deleting them or not), changes
  sizes, and deletes entries the book does not hold.\<close>

inductive pd_reachable :: "uint32 \<Rightarrow> pd_heap \<Rightarrow> pd_book \<Rightarrow> bool" for d where
  start: "pd_reachable d h (new_pd_book s d t0)"
| add: "pd_reachable d h b \<Longrightarrow> h a = None \<Longrightarrow> pd_add (Some a) (h(a \<mapsto> e)) b = Some (r, h', b') \<Longrightarrow> pd_reachable d h' b'"
| remove: "pd_reachable d h b \<Longrightarrow> pd_remove i t del h b = Some (r, h', b') \<Longrightarrow> pd_reachable d h' b'"
| resize: "pd_reachable d h b \<Longrightarrow> pd_changeSize i n t h b = Some (r, h', b') \<Longrightarrow> pd_reachable d h' b'"
| release: "pd_reachable d h b \<Longrightarrow> a \<notin> pd_refs b \<Longrightarrow> pd_reachable d (h(a := None)) b"

lemma pd_reachable_wf:
  assumes "pd_reachable d h b" "unat d + 1 < 2 ^ 32"
  shows "pd_wf h b \<and> pd_depth b = d"
  using assms
proof (induction rule: pd_reachable.induct)
  case (start h s t0)
  then show ?case by (simp add: new_pd_book_def pd_wf_def)
next
  case (add h b a e r h' b')
  then have "pd_wf (h(a \<mapsto> e)) b" "pd_depth b = d" using pd_wf_alloc by blast+
  with pd_add_wf [of "h(a \<mapsto> e)" b a e] add show ?case by auto
next
  case (remove h b i t del r h' b')
  then show ?case using pd_remove_wf [of h b i t del] by auto
next
  case (resize h b i n t r h' b')
  then show ?case using pd_changeSize_wf [of h b i n t] by auto
next
  case (release h b a)
  then have "side_wf (h(a := None)) MDEntryType_BID (pd_bidPrices b) (pd_bidIds b)"
    "side_wf (h(a := None)) MDEntryType_OFFER (pd_offerPrices b) (pd_offerIds b)"
    by (auto simp: pd_wf_def pd_refs_def intro!: side_wf_frame [of h])
  then have "pd_wf (h(a := None)) b" using release by (auto simp: pd_wf_def)
  then show ?case using release by (simp add: fun_upd_def)
qed

lemma print_range_defined:
  "\<forall>(k, a) \<in> set m. h a \<noteq> None \<Longrightarrow> \<exists>ls. print_iter_range h s i m = Some ls \<and> length ls = length m"
  by (induction h s i m rule: print_iter_range.induct) auto

lemma side_wf_live: "side_wf h t m ids \<Longrightarrow> \<forall>(k, a) \<in> set m. h a \<noteq> None"
  using side_wf_price [of h t m ids] sm_snd_in [OF side_wf_sorted(1) [of h t m ids]] by fastforce

end
