(* ===== verification/BookV1Refine.thy ===== *)
theory BookV1Refine
  imports BookV1Correct
begin

text \<open>
  What the price-depth book shows: each side is the list of its best entries, best first.
\<close>

section \<open>The sides as lists\<close>

record pd_spec =
  ps_bids :: "pd_entry list"
  ps_offers :: "pd_entry list"
  ps_time :: stamp

definition spec_insert :: "nat \<Rightarrow> pd_entry \<Rightarrow> pd_entry list \<Rightarrow> pd_entry list" where
  "spec_insert d e es = take d (insort_key entry_key e es)"

definition spec_bump :: "stamp \<Rightarrow> pd_spec \<Rightarrow> pd_spec" where
  "spec_bump t s = s\<lparr>ps_time := max (ps_time s) t\<rparr>"

definition spec_add :: "nat \<Rightarrow> pd_entry \<Rightarrow> pd_spec \<Rightarrow> bool \<times> pd_spec" where
  "spec_add d e s = (let s = spec_bump (pe_modified e) s in
     if pe_type e = MDEntryType_BID then (True, s\<lparr>ps_bids := spec_insert d e (ps_bids s)\<rparr>)
     else if pe_type e = MDEntryType_OFFER then (True, s\<lparr>ps_offers := spec_insert d e (ps_offers s)\<rparr>)
     else (False, s))"

definition spec_remove :: "string \<Rightarrow> stamp \<Rightarrow> pd_spec \<Rightarrow> bool \<times> pd_spec" where
  "spec_remove i t s =
     (if i \<in> pe_id ` set (ps_bids s) then (True, (spec_bump t s)\<lparr>ps_bids := filter (\<lambda>e. pe_id e \<noteq> i) (ps_bids s)\<rparr>)
      else if i \<in> pe_id ` set (ps_offers s) then (True, (spec_bump t s)\<lparr>ps_offers := filter (\<lambda>e. pe_id e \<noteq> i) (ps_offers s)\<rparr>)
      else (False, s))"

definition resize_entry :: "string \<Rightarrow> uint32 \<Rightarrow> stamp \<Rightarrow> pd_entry \<Rightarrow> pd_entry" where
  "resize_entry i n t e = (if pe_id e = i then e\<lparr>pe_size := n, pe_modified := t\<rparr> else e)"

definition spec_resize :: "string \<Rightarrow> uint32 \<Rightarrow> stamp \<Rightarrow> pd_spec \<Rightarrow> bool \<times> pd_spec" where
  "spec_resize i n t s = (let s = spec_bump t s in
     if i \<in> pe_id ` set (ps_bids s) then (True, s\<lparr>ps_bids := map (resize_entry i n t) (ps_bids s)\<rparr>)
     else if i \<in> pe_id ` set (ps_offers s) then (True, s\<lparr>ps_offers := map (resize_entry i n t) (ps_offers s)\<rparr>)
     else (False, s))"

datatype pd_op = AddOp addr pd_entry | RemoveOp string stamp bool | ResizeOp string uint32 stamp

fun pd_exec :: "pd_op \<Rightarrow> pd_heap \<Rightarrow> pd_book \<Rightarrow> (bool \<times> pd_heap \<times> pd_book) option" where
  "pd_exec (AddOp a e) h b = pd_add (Some a) (h(a \<mapsto> e)) b"
| "pd_exec (RemoveOp i t del) h b = pd_remove i t del h b"
| "pd_exec (ResizeOp i n t) h b = pd_changeSize i n t h b"

fun pd_run :: "pd_op list \<Rightarrow> pd_heap \<Rightarrow> pd_book \<Rightarrow> (bool list \<times> pd_heap \<times> pd_book) option" where
  "pd_run [] h b = Some ([], h, b)"
| "pd_run (x # xs) h b = (case pd_exec x h b of None \<Rightarrow> None
     | Some (r, h, b) \<Rightarrow> (case pd_run xs h b of None \<Rightarrow> None | Some (rs, h, b) \<Rightarrow> Some (r # rs, h, b)))"

fun spec_exec :: "nat \<Rightarrow> pd_op \<Rightarrow> pd_spec \<Rightarrow> bool \<times> pd_spec" where
  "spec_exec d (AddOp a e) s = spec_add d e s"
| "spec_exec d (RemoveOp i t del) s = spec_remove i t s"
| "spec_exec d (ResizeOp i n t) s = spec_resize i n t s"

fun spec_run :: "nat \<Rightarrow> pd_op list \<Rightarrow> pd_spec \<Rightarrow> bool list \<times> pd_spec" where
  "spec_run d [] s = ([], s)"
| "spec_run d (x # xs) s = (case spec_exec d x s of (r, s) \<Rightarrow> (case spec_run d xs s of (rs, s) \<Rightarrow> (r # rs, s)))"

text \<open>An entry whose id and price are free on its side, and the runs that add only such entries.\<close>

fun op_fresh :: "pd_op \<Rightarrow> pd_spec \<Rightarrow> bool" where
  "op_fresh (AddOp a e) s \<longleftrightarrow>
     (pe_type e = MDEntryType_BID \<longrightarrow> pe_id e \<notin> pe_id ` set (ps_bids s) \<and> pe_price e \<notin> pe_price ` set (ps_bids s)) \<and>
     (pe_type e = MDEntryType_OFFER \<longrightarrow> pe_id e \<notin> pe_id ` set (ps_offers s) \<and> pe_price e \<notin> pe_price ` set (ps_offers s))"
| "op_fresh _ s \<longleftrightarrow> True"

fun run_fresh :: "nat \<Rightarrow> pd_op list \<Rightarrow> pd_spec \<Rightarrow> bool" where
  "run_fresh d [] s \<longleftrightarrow> True"
| "run_fresh d (x # xs) s \<longleftrightarrow> op_fresh x s \<and> run_fresh d xs (snd (spec_exec d x s))"

fun op_addrs :: "pd_op list \<Rightarrow> addr list" where
  "op_addrs [] = []"
| "op_addrs (AddOp a e # xs) = a # op_addrs xs"
| "op_addrs (_ # xs) = op_addrs xs"

section \<open>One side\<close>

definition side_shows :: "pd_heap \<Rightarrow> char \<Rightarrow> price_map \<Rightarrow> id_map \<Rightarrow> pd_entry list \<Rightarrow> bool" where
  "side_shows h t m ids es \<longleftrightarrow> side_wf h t m ids \<and> side_tight h m ids \<and> view h m = es"

lemma shows_entry:
  assumes "side_shows h t m ids es"
  shows "e \<in> set es \<longleftrightarrow> (\<exists>a. map_of m (entry_key e) = Some a \<and> h a = Some e \<and> pe_type e = t)" (is "?L = ?R")
proof -
  note w = assms [unfolded side_shows_def]
  have s: "sm_sorted m" using w side_wf_sorted by blast
  have "(k, a) \<in> set m \<longleftrightarrow> map_of m k = Some a" for k a using sm_in_iff [OF s] .
  moreover have "\<exists>e. h a = Some e \<and> pe_type e = t \<and> entry_key e = k" if "map_of m k = Some a" for k a
    using side_wf_price w that by blast
  ultimately show ?thesis using w by (force simp: view_def)
qed

lemma shows_ids:
  assumes "side_shows h t m ids es"
  shows "i \<in> pe_id ` set es \<longleftrightarrow> map_of ids i \<noteq> None"
proof -
  note w = assms [unfolded side_shows_def]
  have "map_of ids i \<noteq> None" if "i \<in> pe_id ` set es"
    using that w shows_entry [OF assms] unfolding side_tight_def by fastforce
  moreover have "i \<in> pe_id ` set es" if i: "map_of ids i = Some a" for a
  proof -
    obtain e where e: "h a = Some e" "pe_type e = t" "pe_id e = i"
      using side_wf_id [of h t m ids i a] w i by blast
    then have "map_of m (entry_key e) = Some a" using w i unfolding side_tight_def by blast
    then show ?thesis using e shows_entry [OF assms, of e] by force
  qed
  ultimately show ?thesis by blast
qed

lemma shows_price:
  assumes "side_shows h t m ids es" "pe_type e = t" "pe_price e \<notin> pe_price ` set es" "t = MDEntryType_BID \<or> t = MDEntryType_OFFER"
  shows "map_of m (entry_key e) = None"
proof (rule ccontr)
  assume "map_of m (entry_key e) \<noteq> None"
  then obtain a x where x: "map_of m (entry_key e) = Some a" "h a = Some x" "pe_type x = t" "entry_key x = entry_key e"
    using side_wf_price [of h t m ids] assms(1) unfolding side_shows_def by blast
  then have "x \<in> set es" using shows_entry [OF assms(1), of x] by auto
  moreover have "pe_price x = pe_price e" using x(3,4) assms(2) by (simp add: price_key_def split: if_splits)
  ultimately show False using assms(3) by (metis imageI)
qed

lemma shows_length: "side_shows h t m ids es \<Longrightarrow> length es = length m"
  by (auto simp: side_shows_def view_def)

lemma shows_frame:
  assumes "side_shows h t m ids es" "\<forall>a \<in> refs m ids. h' a = h a"
  shows "side_shows h' t m ids es"
  using assms side_wf_frame side_tight_frame view_frame [OF _ assms(2)] side_wf_sorted(1)
  unfolding side_shows_def by metis

text \<open>Adding a fresh entry.\<close>

lemma view_put:
  assumes "sm_sorted m" "\<forall>(k, a) \<in> set m. \<exists>e. h a = Some e \<and> entry_key e = k" "h a = Some e"
    "map_of m (entry_key e) = None"
  shows "view h (sm_put (entry_key e) a m) = insort_key entry_key e (view h m)"
  using assms(1,2,4)
proof (induction m)
  case (Cons x m)
  obtain k b where x: "x = (k, b)" by (cases x)
  obtain y where y: "h b = Some y" "entry_key y = k" using Cons.prems(2) x by auto
  have "view h (sm_put (entry_key e) a m) = insort_key entry_key e (view h m)"
    using Cons x by (auto simp: sm_sorted_Cons split: if_splits)
  then show ?case
    using Cons.prems(3) x y assms(3) by (auto simp: view_def split: if_splits)
qed (use assms(3) in \<open>simp add: view_def\<close>)

lemma shows_put:
  assumes "side_shows h t m ids es" "h a = Some e" "pe_type e = t" "a \<notin> refs m ids"
    "map_of ids (pe_id e) = None" "map_of m (entry_key e) = None"
  shows "side_shows h t (sm_put (entry_key e) a m) (sm_put (pe_id e) a ids) (insort_key entry_key e es)"
proof -
  note w = assms(1) [unfolded side_shows_def]
  have "side_wf h t (sm_put (entry_key e) a m) (sm_put (pe_id e) a ids)"
    using side_wf_put [of h t m ids a e] w assms(2,3) by simp
  moreover have "side_tight h (sm_put (entry_key e) a m) (sm_put (pe_id e) a ids)"
    using w assms(2-6) refs_in unfolding side_tight_def by (auto split: if_splits) fastforce+
  moreover have "\<forall>(k, b) \<in> set m. \<exists>e. h b = Some e \<and> entry_key e = k"
    using side_wf_price [of h t m ids] sm_snd_in [OF side_wf_sorted(1) [of h t m ids]] w by (clarify, blast)
  then have "view h (sm_put (entry_key e) a m) = insort_key entry_key e (view h m)"
    using view_put [of m h a e] w assms(2,6) side_wf_sorted(1) by blast
  ultimately show ?thesis using w by (simp add: side_shows_def)
qed

text \<open>Deleting an entry, and cutting the last one off.\<close>

lemma shows_del:
  assumes "side_shows h t m ids es" "h a = Some e" "pe_type e = t" "map_of m (entry_key e) = Some a"
  shows "side_shows h t (sm_del (entry_key e) m) (sm_del (pe_id e) ids) (filter (\<lambda>x. pe_id x \<noteq> pe_id e) es)"
proof -
  note w = assms(1) [unfolded side_shows_def]
  have d: "side_wf h t (sm_del (entry_key e) m) (sm_del (pe_id e) ids)"
    "a \<notin> refs (sm_del (entry_key e) m) (sm_del (pe_id e) ids)"
    using side_wf_del [of h t m ids a e] w assms(2,3) by blast+
  have ida: "map_of ids (pe_id e) = Some a" using w assms(2,4) unfolding side_tight_def by blast
  have same: "k = entry_key e \<longleftrightarrow> pe_id (the (h b)) = pe_id e" if kb: "(k, b) \<in> set m" for k b
  proof -
    have m: "map_of m k = Some b"
      by (rule sm_snd_in [OF side_wf_sorted(1) [OF conjunct1 [OF w]] kb])
    then obtain x where x: "h b = Some x" "entry_key x = k" using side_wf_price [of h t m ids] w by blast
    have "map_of ids (pe_id x) = Some b" using w m x unfolding side_tight_def by blast
    show ?thesis
    proof
      assume "k = entry_key e"
      then have "b = a" using m assms(4) by simp
      then show "pe_id (the (h b)) = pe_id e" using assms(2) by simp
    next
      assume "pe_id (the (h b)) = pe_id e"
      then have "b = a" using ida \<open>map_of ids (pe_id x) = Some b\<close> x(1) by simp
      then show "k = entry_key e" using x assms(2) by simp
    qed
  qed
  have "view h (sm_del (entry_key e) m) = filter (\<lambda>x. pe_id x \<noteq> pe_id e) (view h m)"
  proof -
    have "filter (\<lambda>(k, b). k \<noteq> entry_key e) m = filter (\<lambda>(k, b). pe_id (the (h b)) \<noteq> pe_id e) m"
      by (rule filter_cong [OF refl]) (clarify, use same in blast)
    then show ?thesis by (simp add: view_def sm_del_def filter_map comp_def split_def)
  qed
  moreover have "side_tight h (sm_del (entry_key e) m) (sm_del (pe_id e) ids)"
  proof -
    have "x \<noteq> a" if "map_of (sm_del (entry_key e) m) k = Some x \<or> map_of (sm_del (pe_id e) ids) i = Some x" for k i x
      using that d(2) refs_in by metis
    then show ?thesis
      using w assms(2,4) ida unfolding side_tight_def by (auto split: if_splits) (metis option.inject)+
  qed
  ultimately show ?thesis using d(1) w by (simp add: side_shows_def)
qed

lemma shows_trim:
  assumes "side_shows h t m ids es" "length m \<le> unat d + 1" "unat d + 1 < 2 ^ 32"
  shows "\<exists>h' m' ids'. trimMap d True h m ids = Some (h', m', ids') \<and> side_shows h' t m' ids' (take (unat d) es) \<and>
    (\<forall>x. h' x = h x \<or> h' x = None \<and> (\<exists>e. h x = Some e \<and> pe_type e = t))"
proof -
  note w = assms(1) [unfolded side_shows_def]
  note tr = trimMap_one [OF conjunct1 [OF w] assms(2,3)]
  show ?thesis
  proof (cases "length m \<le> unat d")
    case True
    then show ?thesis using tr assms(1) shows_length [OF assms(1)] by auto
  next
    case False
    define a where "a = snd (last m)"
    have ne: "m \<noteq> []" using False by auto
    have srt: "sm_sorted m" using w side_wf_sorted(1) by blast
    have "(fst (last m), a) \<in> set m" using ne by (simp add: a_def)
    then have m: "map_of m (fst (last m)) = Some a" by (rule sm_snd_in [OF srt])
    then obtain e where e: "h a = Some e" "pe_type e = t" "entry_key e = fst (last m)"
      using side_wf_price [of h t m ids] w by blast
    have d: "side_shows h t (sm_del (entry_key e) m) (sm_del (pe_id e) ids) (filter (\<lambda>x. pe_id x \<noteq> pe_id e) es)"
      using shows_del [OF assms(1) e(1,2)] m e(3) by simp
    have n: "a \<notin> refs (sm_del (entry_key e) m) (sm_del (pe_id e) ids)"
      using side_wf_del(2) [of h t m ids a e] w e by blast
    have b: "butlast m = sm_del (entry_key e) m"
      using sm_butlast [OF srt ne] e(3) by simp
    have "length m = unat d + 1" using False assms(2) by simp
    then have "take (unat d) es = butlast es"
      using shows_length [OF assms(1)] by (simp add: butlast_conv_take)
    also have "\<dots> = view h (sm_del (entry_key e) m)"
      using w b by (metis map_butlast view_def)
    also have "\<dots> = filter (\<lambda>x. pe_id x \<noteq> pe_id e) es" using d by (simp add: side_shows_def)
    finally have "side_shows (h(a := None)) t (sm_del (entry_key e) m) (sm_del (pe_id e) ids) (take (unat d) es)"
      using shows_frame [OF d, of "h(a := None)"] n by auto
    then show ?thesis
      using tr False e a_def by (auto simp: Let_def)
  qed
qed

lemma shows_other:
  assumes "side_shows h t m ids es" "\<forall>x. h' x = h x \<or> (\<exists>e. h x = Some e \<and> pe_type e \<noteq> t)"
  shows "side_shows h' t m ids es"
proof (rule shows_frame [OF assms(1)], rule ballI)
  fix x assume "x \<in> refs m ids"
  then obtain e where "h x = Some e" "pe_type e = t"
    using side_wf_refs assms(1) unfolding side_shows_def by blast
  then show "h' x = h x" using assms(2) by (metis option.inject)
qed

lemma shows_resize:
  assumes "side_shows h t m ids es" "map_of ids i = Some a" "h a = Some e"
  shows "side_shows (h(a \<mapsto> e\<lparr>pe_size := n, pe_modified := t0\<rparr>)) t m ids (map (resize_entry i n t0) es)"
proof -
  note w = assms(1) [unfolded side_shows_def]
  let ?h = "h(a \<mapsto> e\<lparr>pe_size := n, pe_modified := t0\<rparr>)"
  have ei: "pe_id e = i" using side_wf_id [of h t m ids i a] w assms(2,3) by auto
  have "side_wf ?h t m ids"
    using side_wf_change [of h t m ids a e] w assms(3) by simp
  moreover have "side_tight ?h m ids"
    using w assms(3) unfolding side_tight_def by (auto split: if_splits)
  moreover have "the (?h b) = resize_entry i n t0 (the (h b))" if kb: "(k, b) \<in> set m" for k b
  proof -
    have m: "map_of m k = Some b"
      by (rule sm_snd_in [OF side_wf_sorted(1) [OF conjunct1 [OF w]] kb])
    obtain x where x: "h b = Some x" using side_wf_price [of h t m ids k b] w m by blast
    then have ix: "map_of ids (pe_id x) = Some b" using w m unfolding side_tight_def by blast
    show ?thesis
    proof (cases "b = a")
      case True
      then show ?thesis using ei assms(3) by (simp add: resize_entry_def)
    next
      case False
      then have "pe_id x \<noteq> i" using ix assms(2) by auto
      then show ?thesis using x False by (simp add: resize_entry_def)
    qed
  qed
  then have "view ?h m = map (resize_entry i n t0) (view h m)"
    unfolding view_def by (simp del: fun_upd_apply) (clarify, blast)
  ultimately show ?thesis using w by (simp add: side_shows_def)
qed

section \<open>The book\<close>

definition book_shows :: "uint32 \<Rightarrow> pd_heap \<Rightarrow> pd_book \<Rightarrow> pd_spec \<Rightarrow> bool" where
  "book_shows d h b s \<longleftrightarrow>
     side_shows h MDEntryType_BID (pd_bidPrices b) (pd_bidIds b) (ps_bids s) \<and>
     side_shows h MDEntryType_OFFER (pd_offerPrices b) (pd_offerIds b) (ps_offers s) \<and>
     pd_depth b = d \<and> pd_lastUpdateTime b = ps_time s \<and>
     length (ps_bids s) \<le> unat d \<and> length (ps_offers s) \<le> unat d"

lemma time_bump: "pd_lastUpdateTime (bump_time t b) = max (pd_lastUpdateTime b) t"
  by (auto simp: bump_time_def)

lemma spec_bump_sel [simp]: "ps_bids (spec_bump t s) = ps_bids s" "ps_offers (spec_bump t s) = ps_offers s"
  "ps_time (spec_bump t s) = max (ps_time s) t"
  by (simp_all add: spec_bump_def)

lemma other_type: "t \<in> {MDEntryType_BID, MDEntryType_OFFER} \<Longrightarrow> t' \<in> {MDEntryType_BID, MDEntryType_OFFER} \<Longrightarrow> t \<noteq> t' \<Longrightarrow>
    side_shows h t m ids es \<Longrightarrow> (\<forall>x. h' x = h x \<or> h' x = None \<and> (\<exists>e. h x = Some e \<and> pe_type e = t')) \<Longrightarrow>
    side_shows h' t m ids es"
  by (rule shows_other) (assumption, metis)

text \<open>A fresh entry on its side, from the put to the trim.\<close>

lemma shows_add:
  assumes "side_shows h t m ids es" "h a = None" "pe_type e = t" "t = MDEntryType_BID \<or> t = MDEntryType_OFFER"
    "pe_id e \<notin> pe_id ` set es" "pe_price e \<notin> pe_price ` set es" "length es \<le> unat d" "unat d + 1 < 2 ^ 32"
  shows "\<exists>h' m' ids'. trimMap d True (h(a \<mapsto> e)) (sm_put (price_key t (pe_price e)) a m) (sm_put (pe_id e) a ids) = Some (h', m', ids') \<and>
    side_shows h' t m' ids' (spec_insert (unat d) e es) \<and>
    (\<forall>x. h' x = (h(a \<mapsto> e)) x \<or> h' x = None \<and> (\<exists>y. (h(a \<mapsto> e)) x = Some y \<and> pe_type y = t))"
proof -
  have n: "a \<notin> refs m ids" using side_wf_refs [of h t m ids a] assms(1,2) unfolding side_shows_def by auto
  then have s: "side_shows (h(a \<mapsto> e)) t m ids es" using shows_frame [OF assms(1), of "h(a \<mapsto> e)"] by auto
  have i: "map_of ids (pe_id e) = None" using shows_ids [OF assms(1), of "pe_id e"] assms(5) by blast
  have p: "map_of m (entry_key e) = None" using shows_price [OF assms(1,3,6,4)] .
  have "side_shows (h(a \<mapsto> e)) t (sm_put (entry_key e) a m) (sm_put (pe_id e) a ids) (insort_key entry_key e es)"
    using shows_put [OF s _ assms(3) n i p] by simp
  moreover have "length (sm_put (entry_key e) a m) \<le> unat d + 1"
    using sm_put_length [of "entry_key e" a m] shows_length [OF assms(1)] assms(7) by linarith
  ultimately show ?thesis
    using shows_trim [of "h(a \<mapsto> e)" t _ _ _ d] assms(3,8) by (simp add: spec_insert_def)
qed

lemma add_shows:
  assumes "book_shows d h b s" "h a = None" "op_fresh (AddOp a e) s" "unat d + 1 < 2 ^ 32"
  shows "\<exists>h' b'. pd_add (Some a) (h(a \<mapsto> e)) b = Some (fst (spec_add (unat d) e s), h', b') \<and>
    book_shows d h' b' (snd (spec_add (unat d) e s)) \<and> dom h' \<subseteq> insert a (dom h)"
proof -
  note r = assms(1) [unfolded book_shows_def]
  let ?h = "h(a \<mapsto> e)"
  have alloc: "side_shows ?h t m ids es" if "side_shows h t m ids es" for t m ids es
    using side_wf_refs [of h t m ids a] that assms(2) unfolding side_shows_def
    by (intro shows_frame [OF that, unfolded side_shows_def]) auto
  have len: "length (spec_insert (unat d) e es) \<le> unat d" for es
    by (simp add: spec_insert_def)
  have dom: "dom h' \<subseteq> insert a (dom h)" if "\<forall>x. h' x = ?h x \<or> h' x = None \<and> P x" for h' P
    using that by (auto split: if_splits)
  consider "pe_type e = MDEntryType_BID" | "pe_type e = MDEntryType_OFFER"
    | "pe_type e \<noteq> MDEntryType_BID" "pe_type e \<noteq> MDEntryType_OFFER" by blast
  then show ?thesis
  proof cases
    case 1
    from shows_add [of h MDEntryType_BID "pd_bidPrices b" "pd_bidIds b" "ps_bids s" a e d] r assms(2-4) 1
    obtain h' m' ids' where t: "trimMap d True ?h (sm_put (price_key MDEntryType_BID (pe_price e)) a (pd_bidPrices b))
        (sm_put (pe_id e) a (pd_bidIds b)) = Some (h', m', ids')"
      "side_shows h' MDEntryType_BID m' ids' (spec_insert (unat d) e (ps_bids s))"
      "\<forall>x. h' x = ?h x \<or> h' x = None \<and> (\<exists>y. ?h x = Some y \<and> pe_type y = MDEntryType_BID)" by auto
    have "side_shows h' MDEntryType_OFFER (pd_offerPrices b) (pd_offerIds b) (ps_offers s)"
      by (rule other_type [OF _ _ _ alloc t(3)]) (use r sides_differ in auto)
    with t(1,2) r 1 len dom [OF t(3)] show ?thesis
      by (auto simp: pd_add_def spec_add_def Let_def book_shows_def time_bump)
  next
    case 2
    from shows_add [of h MDEntryType_OFFER "pd_offerPrices b" "pd_offerIds b" "ps_offers s" a e d] r assms(2-4) 2
    obtain h' m' ids' where t: "trimMap d True ?h (sm_put (price_key MDEntryType_OFFER (pe_price e)) a (pd_offerPrices b))
        (sm_put (pe_id e) a (pd_offerIds b)) = Some (h', m', ids')"
      "side_shows h' MDEntryType_OFFER m' ids' (spec_insert (unat d) e (ps_offers s))"
      "\<forall>x. h' x = ?h x \<or> h' x = None \<and> (\<exists>y. ?h x = Some y \<and> pe_type y = MDEntryType_OFFER)" by auto
    have "side_shows h' MDEntryType_BID (pd_bidPrices b) (pd_bidIds b) (ps_bids s)"
      by (rule other_type [OF _ _ _ alloc t(3)]) (use r sides_differ in auto)
    with t(1,2) r 2 sides_differ len dom [OF t(3)] show ?thesis
      by (auto simp: pd_add_def spec_add_def Let_def book_shows_def time_bump)
  next
    case 3
    then show ?thesis using r alloc
      by (auto simp: pd_add_def spec_add_def Let_def book_shows_def time_bump)
  qed
qed

lemma remove_side:
  assumes "side_shows h t m ids es" "map_of ids i = Some a" "t = MDEntryType_BID \<or> t = MDEntryType_OFFER"
  shows "\<exists>e. h a = Some e \<and> pe_type e = t \<and> map_of m (price_key t (pe_price e)) = Some a \<and>
    side_shows (h(a := None)) t (sm_del (price_key t (pe_price e)) m) (sm_del i ids) (filter (\<lambda>x. pe_id x \<noteq> i) es) \<and>
    side_shows h t (sm_del (price_key t (pe_price e)) m) (sm_del i ids) (filter (\<lambda>x. pe_id x \<noteq> i) es)"
proof -
  note w = assms(1) [unfolded side_shows_def]
  obtain e where e: "h a = Some e" "pe_type e = t" "pe_id e = i"
    using side_wf_id [of h t m ids i a] w assms(2) by blast
  then have m: "map_of m (entry_key e) = Some a" using w assms(2) unfolding side_tight_def by blast
  have d: "side_shows h t (sm_del (entry_key e) m) (sm_del i ids) (filter (\<lambda>x. pe_id x \<noteq> i) es)"
    using shows_del [OF assms(1) e(1,2) m] e(3) by simp
  moreover have n: "a \<notin> refs (sm_del (entry_key e) m) (sm_del i ids)"
    using side_wf_del(2) [of h t m ids a e] w e by blast
  moreover have "side_shows (h(a := None)) t (sm_del (entry_key e) m) (sm_del i ids) (filter (\<lambda>x. pe_id x \<noteq> i) es)"
    by (rule shows_frame [OF d]) (use n in auto)
  ultimately show ?thesis
    using e m by auto
qed

lemma remove_shows:
  assumes "book_shows d h b s"
  shows "\<exists>h' b'. pd_remove i t del h b = Some (fst (spec_remove i t s), h', b') \<and>
    book_shows d h' b' (snd (spec_remove i t s)) \<and> dom h' \<subseteq> dom h"
proof -
  note r = assms [unfolded book_shows_def]
  have len: "length (filter P es) \<le> n" if "length es \<le> n" for P and es :: "pd_entry list" and n
    using that length_filter_le le_trans by blast
  have bids: "i \<in> pe_id ` set (ps_bids s) \<longleftrightarrow> map_of (pd_bidIds b) i \<noteq> None"
    using shows_ids r by blast
  have dom: "dom (if del then h(a := None) else h) \<subseteq> dom h" for a
    by auto
  have offers: "i \<in> pe_id ` set (ps_offers s) \<longleftrightarrow> map_of (pd_offerIds b) i \<noteq> None"
    using shows_ids r by blast
  show ?thesis
  proof (cases "map_of (pd_bidIds b) i")
    case (Some a)
    from remove_side [of h MDEntryType_BID "pd_bidPrices b" "pd_bidIds b" "ps_bids s" i a] r Some
    obtain e where e: "h a = Some e" "pe_type e = MDEntryType_BID"
      "map_of (pd_bidPrices b) (price_key MDEntryType_BID (pe_price e)) = Some a"
      "side_shows (h(a := None)) MDEntryType_BID (sm_del (price_key MDEntryType_BID (pe_price e)) (pd_bidPrices b))
        (sm_del i (pd_bidIds b)) (filter (\<lambda>x. pe_id x \<noteq> i) (ps_bids s))"
      "side_shows h MDEntryType_BID (sm_del (price_key MDEntryType_BID (pe_price e)) (pd_bidPrices b))
        (sm_del i (pd_bidIds b)) (filter (\<lambda>x. pe_id x \<noteq> i) (ps_bids s))" by auto
    have "side_shows (h(a := None)) MDEntryType_OFFER (pd_offerPrices b) (pd_offerIds b) (ps_offers s)"
      by (rule other_type [where t' = MDEntryType_BID and h = h]) (use r e(1,2) sides_differ in auto)
    then show ?thesis
      using e r Some bids len dom [of a]
      by (auto simp: pd_remove_def spec_remove_def book_shows_def time_bump simp del: fun_upd_apply)
  next
    case none: None
    show ?thesis
    proof (cases "map_of (pd_offerIds b) i")
      case (Some a)
      from remove_side [of h MDEntryType_OFFER "pd_offerPrices b" "pd_offerIds b" "ps_offers s" i a] r Some
      obtain e where e: "h a = Some e" "pe_type e = MDEntryType_OFFER"
        "map_of (pd_offerPrices b) (price_key MDEntryType_OFFER (pe_price e)) = Some a"
        "side_shows (h(a := None)) MDEntryType_OFFER (sm_del (price_key MDEntryType_OFFER (pe_price e)) (pd_offerPrices b))
          (sm_del i (pd_offerIds b)) (filter (\<lambda>x. pe_id x \<noteq> i) (ps_offers s))"
        "side_shows h MDEntryType_OFFER (sm_del (price_key MDEntryType_OFFER (pe_price e)) (pd_offerPrices b))
          (sm_del i (pd_offerIds b)) (filter (\<lambda>x. pe_id x \<noteq> i) (ps_offers s))" by auto
      have "side_shows (h(a := None)) MDEntryType_BID (pd_bidPrices b) (pd_bidIds b) (ps_bids s)"
        by (rule other_type [where t' = MDEntryType_OFFER and h = h]) (use r e(1,2) sides_differ in auto)
      then show ?thesis
        using e r Some none bids offers len dom [of a]
        by (auto simp: pd_remove_def spec_remove_def book_shows_def time_bump simp del: fun_upd_apply)
    next
      case None
      then show ?thesis using none bids offers assms by (auto simp: pd_remove_def spec_remove_def)
    qed
  qed
qed

lemma resize_shows:
  assumes "book_shows d h b s"
  shows "\<exists>h' b'. pd_changeSize i n t h b = Some (fst (spec_resize i n t s), h', b') \<and>
    book_shows d h' b' (snd (spec_resize i n t s)) \<and> dom h' \<subseteq> dom h"
proof -
  note r = assms [unfolded book_shows_def]
  have bids: "i \<in> pe_id ` set (ps_bids s) \<longleftrightarrow> map_of (pd_bidIds b) i \<noteq> None"
    using shows_ids r by blast
  have offers: "i \<in> pe_id ` set (ps_offers s) \<longleftrightarrow> map_of (pd_offerIds b) i \<noteq> None"
    using shows_ids r by blast
  have keep: "side_shows (h(a \<mapsto> e')) t m ids es"
    if "side_shows h t m ids es" "h a = Some e" "pe_type e \<noteq> t" for t m ids es a e e'
    by (rule shows_other [OF that(1)]) (use that(2,3) in auto)
  show ?thesis
  proof (cases "map_of (pd_bidIds b) i")
    case (Some a)
    obtain e where e: "h a = Some e" "pe_type e = MDEntryType_BID"
      using side_wf_id [of h _ "pd_bidPrices b" "pd_bidIds b" i a] r Some unfolding side_shows_def by blast
    have f: "findEntryById i b = Some a" using Some by (simp add: findEntryById_def findBidById_def)
    from shows_resize [of h MDEntryType_BID "pd_bidPrices b" "pd_bidIds b" "ps_bids s" i a e t n]
      keep [of MDEntryType_OFFER "pd_offerPrices b" "pd_offerIds b" "ps_offers s" a e "e\<lparr>pe_size := n, pe_modified := t\<rparr>"]
    show ?thesis using r Some e f bids sides_differ
      by (auto simp: pd_changeSize_def spec_resize_def Let_def book_shows_def time_bump simp del: fun_upd_apply)
  next
    case none: None
    show ?thesis
    proof (cases "map_of (pd_offerIds b) i")
      case (Some a)
      obtain e where e: "h a = Some e" "pe_type e = MDEntryType_OFFER"
        using side_wf_id [of h _ "pd_offerPrices b" "pd_offerIds b" i a] r Some unfolding side_shows_def by blast
      have f: "findEntryById i b = Some a" using Some none by (simp add: findEntryById_def findBidById_def findOfferById_def)
      from shows_resize [of h MDEntryType_OFFER "pd_offerPrices b" "pd_offerIds b" "ps_offers s" i a e t n]
        keep [of MDEntryType_BID "pd_bidPrices b" "pd_bidIds b" "ps_bids s" a e "e\<lparr>pe_size := n, pe_modified := t\<rparr>"]
      show ?thesis using r Some none e f bids offers sides_differ
        by (auto simp: pd_changeSize_def spec_resize_def Let_def book_shows_def time_bump simp del: fun_upd_apply)
    next
      case None
      then have "findEntryById i b = None" using none by (simp add: findEntryById_def findBidById_def findOfferById_def)
      then show ?thesis using none None bids offers r
        by (auto simp: pd_changeSize_def spec_resize_def Let_def book_shows_def time_bump)
    qed
  qed
qed

lemma exec_shows:
  assumes "book_shows d h b s" "op_fresh x s" "set (op_addrs [x]) \<inter> dom h = {}" "unat d + 1 < 2 ^ 32"
  shows "\<exists>h' b'. pd_exec x h b = Some (fst (spec_exec (unat d) x s), h', b') \<and>
    book_shows d h' b' (snd (spec_exec (unat d) x s)) \<and> dom h' \<subseteq> set (op_addrs [x]) \<union> dom h"
proof (cases x)
  case (AddOp a e)
  then have "h a = None" using assms(3) by auto
  from add_shows [OF assms(1) this, of e] assms(2,4) AddOp show ?thesis by auto
next
  case (RemoveOp i t del)
  then show ?thesis using remove_shows [OF assms(1), of i t del] by simp
next
  case (ResizeOp i n t)
  then show ?thesis using resize_shows [OF assms(1), of i n t] by simp
qed

lemma op_addrs_Cons: "op_addrs (x # xs) = op_addrs [x] @ op_addrs xs"
  by (cases x) simp_all

lemma run_shows:
  assumes "unat d + 1 < 2 ^ 32"
  shows "book_shows d h b s \<Longrightarrow> run_fresh (unat d) xs s \<Longrightarrow> distinct (op_addrs xs) \<Longrightarrow> set (op_addrs xs) \<inter> dom h = {} \<Longrightarrow>
    \<exists>h' b'. pd_run xs h b = Some (fst (spec_run (unat d) xs s), h', b') \<and> book_shows d h' b' (snd (spec_run (unat d) xs s))"
proof (induction xs arbitrary: h b s)
  case (Cons x xs)
  have "op_fresh x s" "set (op_addrs [x]) \<inter> dom h = {}"
    using Cons.prems op_addrs_Cons [of x xs] by auto
  from exec_shows [OF Cons.prems(1) this assms] obtain h1 b1 where
    1: "pd_exec x h b = Some (fst (spec_exec (unat d) x s), h1, b1)" "book_shows d h1 b1 (snd (spec_exec (unat d) x s))"
      "dom h1 \<subseteq> set (op_addrs [x]) \<union> dom h" by blast
  have "set (op_addrs [x]) \<inter> set (op_addrs xs) = {}" "set (op_addrs xs) \<inter> dom h = {}"
    using Cons.prems op_addrs_Cons [of x xs] by auto
  with 1(3) have "set (op_addrs xs) \<inter> dom h1 = {}" by blast
  moreover have "distinct (op_addrs xs)" "run_fresh (unat d) xs (snd (spec_exec (unat d) x s))"
    using Cons.prems op_addrs_Cons [of x xs] by auto
  ultimately show ?case using Cons.IH [OF 1(2)] 1(1)
    by (auto split: prod.splits)
qed simp

section \<open>Queries\<close>

lemma walk_loop:
  "unat i \<le> unat l \<Longrightarrow>
    map_option snd (while_option (\<lambda>(i, it). i < l \<and> it \<noteq> []) (\<lambda>(i, it). (i + 1, tl it)) (i :: uint32, it)) =
      Some (drop (unat l - unat i) it)"
proof (induction it arbitrary: i)
  case Nil
  show ?case by (subst while_option_unfold) simp
next
  case (Cons x it)
  show ?case
  proof (cases "i < l")
    case True
    moreover have "unat l < 2 ^ 32" using unsigned_less [of l] by simp
    ultimately have u: "unat (i + 1) = unat i + 1"
      using unat_word_ariths(1) [of i 1] by (simp add: word_less_nat_alt)
    then have "drop (unat l - unat i) (x # it) = drop (unat l - unat (i + 1)) it"
      using True by (simp add: word_less_nat_alt flip: Suc_diff_Suc)
    then show ?thesis
      using Cons.IH [of "i + 1"] True u by (subst while_option_unfold) (simp add: word_less_nat_alt)
  next
    case False
    then have "unat i = unat l" using Cons.prems by (simp add: word_less_nat_alt)
    then show ?thesis using False by (subst while_option_unfold) simp
  qed
qed

lemma walkToLevel_drop: "walkToLevel m l = Some (drop (unat l) m)"
  using walk_loop [of 0 l m] by (simp add: walkToLevel_def)

lemma deref_drop: "deref (drop n m) = (if n < length m then Some (snd (m ! n)) else None)"
  by (cases "n < length m") (auto simp: deref_def Cons_nth_drop_Suc [symmetric] split_def)

lemma shows_keys:
  assumes "side_shows h t m ids es"
  shows "map entry_key es = map fst m"
proof -
  note w = assms [unfolded side_shows_def]
  have "entry_key (the (h b)) = k" if kb: "(k, b) \<in> set m" for k b
  proof -
    have "map_of m k = Some b" by (rule sm_snd_in [OF side_wf_sorted(1) [OF conjunct1 [OF w]] kb])
    then show ?thesis using side_wf_price [of h t m ids k b] w by auto
  qed
  then show ?thesis using w by (auto simp: view_def)
qed

lemma shows_nth:
  assumes "side_shows h t m ids es" "n < length m"
  shows "h (snd (m ! n)) = Some (es ! n)"
proof -
  note w = assms(1) [unfolded side_shows_def]
  have "map_of m (fst (m ! n)) = Some (snd (m ! n))"
    using sm_snd_in [OF side_wf_sorted(1) [OF conjunct1 [OF w]], of "fst (m ! n)" "snd (m ! n)"] assms(2) by simp
  then obtain e where "h (snd (m ! n)) = Some e" using side_wf_price [of h t m ids] w by blast
  then show ?thesis using w assms(2) by (auto simp: view_def split_def)
qed

lemma shows_type: "side_shows h t m ids es \<Longrightarrow> e \<in> set es \<Longrightarrow> pe_type e = t"
  using shows_entry by blast

lemma shows_sizes:
  assumes "side_shows h t m ids es"
  shows "length ids = length m"
proof -
  note w = assms [unfolded side_shows_def]
  have s: "sm_sorted m" "sm_sorted ids" using w side_wf_sorted by blast+
  have len: "length m = card (dom (map_of m))" "length ids = card (dom (map_of ids))"
    using sm_sorted_distinct [OF s(1)] sm_sorted_distinct [OF s(2)]
    by (metis distinct_card dom_map_of_conv_image_fst length_map list.set_map)+
  have "dom (map_of m) = entry_key ` set es"
    using shows_keys [OF assms] by (metis dom_map_of_conv_image_fst list.set_map)
  moreover have "dom (map_of ids) = pe_id ` set es" using shows_ids [OF assms] by blast
  moreover have "inj_on entry_key (set es)"
    using sm_sorted_distinct [OF s(1)] shows_keys [OF assms] by (metis distinct_map)
  moreover have "inj_on pe_id (set es)"
  proof (rule inj_onI)
    fix x y assume xy: "x \<in> set es" "y \<in> set es" "pe_id x = pe_id y"
    then obtain a b where "map_of m (entry_key x) = Some a" "h a = Some x" "map_of m (entry_key y) = Some b" "h b = Some y"
      using shows_entry [OF assms] by blast
    moreover from this have "map_of ids (pe_id x) = Some a" "map_of ids (pe_id y) = Some b"
      using w unfolding side_tight_def by blast+
    ultimately show "x = y" using xy(3) by simp
  qed
  ultimately show ?thesis using len by (simp add: card_image)
qed

end
