(* ===== verification/BookV1Props.thy ===== *)
theory BookV1Props
  imports BookV1Refine
begin

text \<open>
  What the price-depth book promises its clients: no dangling pointer (\<open>pd_memory_safe\<close>); the best levels of each side whatever is added, removed
  and resized (\<open>pd_run_refines\<close>); which entry a walk finds (\<open>pd_walks_end\<close>); what a replacement at another
  price and an entry at a price that is taken leave behind (\<open>pd_replace_stale\<close>, \<open>pd_duplicate_price\<close>).
\<close>

section \<open>Memory\<close>

text \<open>
  C22. Memory safety of the price-depth book without replacements. Whatever is added (ids and prices that
  are taken included), removed, resized or released, the book holds no pointer to a deleted entry and no
  side has more levels than its depth, so that no further addition, removal or resizing, no walk to a
  level that the book has and no printing touches freed memory or an invalid iterator. (A replacement may
  leave a stale entry, \<open>pd_replace_stale\<close>; a walk to a level after the last, or to a price better
  than the best, dereferences the end of the map, \<open>pd_walks_end\<close>.)
\<close>

theorem pd_memory_safe:
  assumes "pd_reachable d h b" "unat d + 1 < 2 ^ 32"
  shows "(\<forall>a \<in> pd_refs b. h a \<noteq> None) \<and>
    length (pd_bidPrices b) \<le> unat d \<and> length (pd_offerPrices b) \<le> unat d \<and>
    (\<forall>a e. h a = None \<longrightarrow> pd_add (Some a) (h(a \<mapsto> e)) b \<noteq> None) \<and>
    (\<forall>i t del. pd_remove i t del h b \<noteq> None) \<and> (\<forall>i n t. pd_changeSize i n t h b \<noteq> None) \<and>
    (\<forall>l. unat l < length (pd_bidPrices b) \<longrightarrow> Option.bind (walkToBidLevel l b) h \<noteq> None) \<and>
    (\<forall>l. unat l < length (pd_offerPrices b) \<longrightarrow> Option.bind (walkToOfferLevel l b) h \<noteq> None) \<and>
    pd_print h b \<noteq> None"
proof -
  have w: "pd_wf h b" and d: "pd_depth b = d" using pd_reachable_wf [OF assms] by auto
  have live: "\<forall>(k, a) \<in> set (pd_bidPrices b). h a \<noteq> None" "\<forall>(k, a) \<in> set (pd_offerPrices b). h a \<noteq> None"
    using w by (auto simp: pd_wf_def dest!: side_wf_live)
  have walk: "Option.bind (deref (drop n m)) h \<noteq> None"
    if "\<forall>(k, a) \<in> set m. h a \<noteq> None" "n < length m" for n and m :: price_map
    using that nth_mem [OF that(2)] by (fastforce simp: deref_drop split_def)
  have "Option.bind (walkToBidLevel l b) h \<noteq> None" if "unat l < length (pd_bidPrices b)" for l
    using walk [OF live(1) that] by (simp add: walkToBidLevel_def walkToBidLevelIter_def walkToLevel_drop)
  moreover have "Option.bind (walkToOfferLevel l b) h \<noteq> None" if "unat l < length (pd_offerPrices b)" for l
    using walk [OF live(2) that] by (simp add: walkToOfferLevel_def walkToOfferLevelIter_def walkToLevel_drop)
  moreover have "\<forall>a \<in> pd_refs b. h a \<noteq> None"
    using w side_wf_refs unfolding pd_wf_def pd_refs_def by (metis Un_iff option.distinct(1))
  moreover have "pd_add (Some a) (h(a \<mapsto> e)) b \<noteq> None" if "h a = None" for a e
    using pd_add_wf [OF pd_wf_alloc [OF w that, of e], of a e] assms(2) d by auto
  moreover have "pd_remove i t del h b \<noteq> None" "pd_changeSize i n t h b \<noteq> None" for i t del n
    using pd_remove_wf [OF w, of i t del] pd_changeSize_wf [OF w, of i n t] by auto
  moreover have "pd_print h b \<noteq> None"
    using print_range_defined [OF live(1), of BID 1] print_range_defined [OF live(2), of ASK 1] by (auto simp: pd_print_def)
  ultimately show ?thesis using w d by (auto simp: pd_wf_def)
qed

section \<open>Runs\<close>

definition spec_lines :: "side \<Rightarrow> pd_entry list \<Rightarrow> (stamp \<times> side \<times> nat \<times> dbl \<times> uint32) list" where
  "spec_lines sd es = map (\<lambda>(i, e). (pe_modified e, sd, i, pe_price e, pe_size e)) (enumerate 1 es)"

lemma print_range_view:
  "\<forall>(k, a) \<in> set m. h a \<noteq> None \<Longrightarrow>
    print_iter_range h sd i m = Some (map (\<lambda>(i, e). (pe_modified e, sd, i, pe_price e, pe_size e)) (enumerate i (view h m)))"
  by (induction h sd i m rule: print_iter_range.induct) (auto simp: view_def)

lemma shows_lines: "side_shows h t m ids es \<Longrightarrow> print_iter_range h sd 1 m = Some (spec_lines sd es)"
  using print_range_view [of m h sd 1] side_wf_live [of h t m ids] by (simp add: side_shows_def spec_lines_def)

lemma shows_strict:
  assumes "side_shows h t m ids es"
  shows "sorted_wrt (\<lambda>x y. price_key t (pe_price x) < price_key t (pe_price y)) es"
proof -
  have "sorted_wrt (<) (map entry_key es)"
    using shows_keys [OF assms] side_wf_sorted(1) [of h t m ids] assms by (simp add: side_shows_def sm_sorted_def)
  then have "sorted_wrt (\<lambda>x y. entry_key x < entry_key y) es" by (simp add: sorted_wrt_map)
  then show ?thesis
    by (rule sorted_wrt_mono_rel [rotated]) (use shows_type [OF assms] in auto)
qed

lemma shows_walk:
  assumes "side_shows h t m ids es" "walkToLevel m l = Some it"
  shows "Option.bind (deref it) h = (if unat l < length es then Some (es ! unat l) else None)"
  using assms(2) [symmetric] shows_length [OF assms(1)] shows_nth [OF assms(1)] by (simp add: walkToLevel_drop deref_drop)

lemma new_shows: "book_shows d Map.empty (new_pd_book nm d t0) \<lparr>ps_bids = [], ps_offers = [], ps_time = t0\<rparr>"
  by (simp add: book_shows_def new_pd_book_def side_shows_def)

text \<open>
  C23. The price-depth book refines its specification, the best entries of each side. After any sequence of
  additions of entries whose id and price are free on their side, removals and resizings, with the
  deletions the depth forces in between, the results are those of the specification, each side holds
  the best levels in strict price order, both of its maps have that many entries, the walk to a level finds
  the entry of that level and nothing beyond the last, and the printed lines are the levels in order.
\<close>

theorem pd_run_refines:
  assumes "unat d + 1 < 2 ^ 32" "distinct (op_addrs ops)"
    "run_fresh (unat d) ops \<lparr>ps_bids = [], ps_offers = [], ps_time = t0\<rparr>"
    "spec_run (unat d) ops \<lparr>ps_bids = [], ps_offers = [], ps_time = t0\<rparr> = (rs, s)"
  shows "\<exists>h b. pd_run ops Map.empty (new_pd_book nm d t0) = Some (rs, h, b) \<and>
    sorted_wrt (\<lambda>x y. pe_price x > pe_price y) (ps_bids s) \<and>
    sorted_wrt (\<lambda>x y. pe_price x < pe_price y) (ps_offers s) \<and>
    numBids b = Some (size_int (length (ps_bids s))) \<and> numOffers b = Some (size_int (length (ps_offers s))) \<and>
    (\<forall>l. Option.bind (walkToBidLevel l b) h = (if unat l < length (ps_bids s) then Some (ps_bids s ! unat l) else None)) \<and>
    (\<forall>l. Option.bind (walkToOfferLevel l b) h = (if unat l < length (ps_offers s) then Some (ps_offers s ! unat l) else None)) \<and>
    pd_print h b = Some (ps_time s, spec_lines BID (ps_bids s) @ spec_lines ASK (ps_offers s))"
proof -
  obtain h b where r: "pd_run ops Map.empty (new_pd_book nm d t0) = Some (rs, h, b)" "book_shows d h b s"
    using run_shows [OF assms(1) new_shows [of d nm] assms(3,2)] assms(4) by auto
  then have bids: "side_shows h MDEntryType_BID (pd_bidPrices b) (pd_bidIds b) (ps_bids s)"
    and offers: "side_shows h MDEntryType_OFFER (pd_offerPrices b) (pd_offerIds b) (ps_offers s)"
    and time: "pd_lastUpdateTime b = ps_time s" by (auto simp: book_shows_def)
  note sizes = shows_sizes [OF bids] shows_length [OF bids] shows_sizes [OF offers] shows_length [OF offers]
  have walks: "Option.bind (walkToBidLevel l b) h = (if unat l < length (ps_bids s) then Some (ps_bids s ! unat l) else None)"
    "Option.bind (walkToOfferLevel l b) h = (if unat l < length (ps_offers s) then Some (ps_offers s ! unat l) else None)" for l
    using shows_walk [OF bids walkToLevel_drop] shows_walk [OF offers walkToLevel_drop]
    by (simp_all add: walkToBidLevel_def walkToOfferLevel_def walkToBidLevelIter_def walkToOfferLevelIter_def walkToLevel_drop)
  have "sorted_wrt (\<lambda>x y. pe_price x > pe_price y) (ps_bids s)" "sorted_wrt (\<lambda>x y. pe_price x < pe_price y) (ps_offers s)"
    using shows_strict [OF bids] shows_strict [OF offers] sides_differ by (simp_all add: price_key_def)
  moreover have "pd_print h b = Some (ps_time s, spec_lines BID (ps_bids s) @ spec_lines ASK (ps_offers s))"
    unfolding pd_print_def shows_lines [OF bids] shows_lines [OF offers] using time by simp
  ultimately show ?thesis
    using r(1) walks sizes by (simp add: numBids_def numOffers_def)
qed

definition sample_entry :: "char \<Rightarrow> string \<Rightarrow> dbl \<Rightarrow> uint32 \<Rightarrow> stamp \<Rightarrow> pd_entry" where
  "sample_entry t i p n tm = \<lparr>pe_created = tm, pe_modified = tm, pe_type = t, pe_id = i, pe_price = p, pe_size = n\<rparr>"

definition sample_ops :: "pd_op list" where
  "sample_ops = [AddOp 0 (sample_entry MDEntryType_BID ''A'' 100 7 1), AddOp 1 (sample_entry MDEntryType_BID ''B'' 101 8 2),
     AddOp 2 (sample_entry MDEntryType_OFFER ''A'' 103 9 3), AddOp 3 (sample_entry MDEntryType_BID ''C'' 102 5 4),
     ResizeOp ''C'' 6 5, RemoveOp ''A'' 6 True, RemoveOp ''A'' 7 True]"

lemmas sample_simps = sample_ops_def sample_entry_def md_sides spec_add_def spec_remove_def spec_resize_def spec_bump_def
  spec_insert_def resize_entry_def price_key_def Let_def

lemma sample_spec: "spec_run 2 sample_ops \<lparr>ps_bids = [], ps_offers = [], ps_time = 0\<rparr> =
    ([True, True, True, True, True, True, False],
     \<lparr>ps_bids = [(sample_entry MDEntryType_BID ''C'' 102 6 5)\<lparr>pe_created := 4\<rparr>, sample_entry MDEntryType_BID ''B'' 101 8 2],
      ps_offers = [], ps_time = 6\<rparr>)"
  by (simp add: sample_simps)

lemma sample_fresh: "run_fresh 2 sample_ops \<lparr>ps_bids = [], ps_offers = [], ps_time = 0\<rparr>" "distinct (op_addrs sample_ops)"
  by (simp_all add: sample_simps)

lemma pd_run_refines_witness:
  "\<exists>h b. pd_run sample_ops Map.empty (new_pd_book ''MSFT'' 2 0) = Some ([True, True, True, True, True, True, False], h, b) \<and>
    numBids b = Some 2 \<and> numOffers b = Some 0 \<and> walkToOfferLevel 0 b \<bind> h = None \<and>
    pd_print h b = Some (6, [(5, BID, 1, 102, 6), (2, BID, 2, 101, 8)])"
  using pd_run_refines [of 2 sample_ops 0, simplified, OF sample_fresh(2,1) sample_spec, of "''MSFT''"]
  by (auto simp: spec_lines_def sample_entry_def size_int_small)

text \<open>A book of depth one with one bid.\<close>

abbreviation sample_bid :: pd_entry where
  "sample_bid \<equiv> sample_entry MDEntryType_BID ''A'' 100 7 1"

definition sample_book :: pd_book where
  "sample_book = \<lparr>pd_symbol = ''MSFT'', pd_depth = 1, pd_bidIds = [(''A'', 0)], pd_bidPrices = [(-100, 0)],
     pd_offerIds = [], pd_offerPrices = [], pd_lastUpdateTime = 1\<rparr>"

lemma sample_book_add: "pd_add (Some 0) [0 \<mapsto> sample_bid] (new_pd_book ''MSFT'' 1 0) = Some (True, [0 \<mapsto> sample_bid], sample_book)"
  by (simp add: pd_add_def new_pd_book_def sample_book_def sample_simps bump_time_def trimMap_def trim_loop.simps)

lemma sample_book_reachable: "pd_reachable 1 [0 \<mapsto> sample_bid] sample_book"
  by (rule pd_reachable.add [OF pd_reachable.start _ sample_book_add]) simp

lemma sample_book_shows: "book_shows 1 [0 \<mapsto> sample_bid] sample_book \<lparr>ps_bids = [sample_bid], ps_offers = [], ps_time = 1\<rparr>"
  by (auto simp: book_shows_def side_shows_def side_wf_def side_tight_def view_def sample_book_def sample_entry_def
      price_key_def sm_sorted_def split: if_splits)

lemma pd_memory_safe_witness:
  "pd_print [0 \<mapsto> sample_bid] sample_book \<noteq> None \<and> pd_remove ''A'' 5 True [0 \<mapsto> sample_bid] sample_book \<noteq> None \<and>
    pd_add (Some 1) [0 \<mapsto> sample_bid, 1 \<mapsto> sample_bid] sample_book \<noteq> None"
  using pd_memory_safe [OF sample_book_reachable] by simp

section \<open>Walking to a price\<close>

lemma walk_bid_price:
  assumes "side_wf h MDEntryType_BID m ids"
  shows "walkToBidPriceIter h p m = Some (case m of [] \<Rightarrow> [] | x # _ \<Rightarrow> if - fst x < p then [] else m)"
proof -
  have "\<forall>(k, a) \<in> set m. \<exists>e. h a = Some e \<and> - k = pe_price e"
    using side_wf_price [OF assms] sm_snd_in [OF side_wf_sorted(1) [OF assms]] by (fastforce simp: price_key_def)
  with side_wf_sorted(1) [OF assms] show ?thesis
  proof (induction h p m rule: walkToBidPriceIter.induct)
    case (2 h p k a m)
    then show ?case by (cases m) (fastforce simp: sm_sorted_Cons split: option.split)+
  qed simp
qed

lemma walk_offer_price:
  assumes "side_wf h MDEntryType_OFFER m ids"
  shows "walkToOfferPriceIter h p m = Some (case m of [] \<Rightarrow> [] | x # _ \<Rightarrow> if p < fst x then [] else m)"
proof -
  have "\<forall>(k, a) \<in> set m. \<exists>e. h a = Some e \<and> k = pe_price e"
    using side_wf_price [OF assms] sm_snd_in [OF side_wf_sorted(1) [OF assms]] sides_differ
    by (fastforce simp: price_key_def)
  with side_wf_sorted(1) [OF assms] show ?thesis
  proof (induction h p m rule: walkToOfferPriceIter.induct)
    case (2 h p k a m)
    then show ?case by (cases m) (fastforce simp: sm_sorted_Cons split: option.split)+
  qed simp
qed

text \<open>The best entry of a side, as the loops see it.\<close>

lemma view_hd:
  assumes "side_wf h t m ids" "m = x # m'"
  shows "\<exists>e. h (snd x) = Some e \<and> pe_type e = t \<and> fst x = price_key t (pe_price e) \<and> view h m = e # view h m'"
  using side_wf_price [OF assms(1), of "fst x" "snd x"] assms(2) by (auto simp: view_def split_def)

text \<open>
  C24. Where the loops over the levels end. The walk to a level ends on every map, at that level or at the
  end when there are fewer, and the walks to a price end on every book that can arise; but they start
  at the best level and run in the direction the prices fall away, so that a bid asked for is the best
  bid when its price is no better than that, and otherwise the end of the map, which has no entry
  (likewise the offers): no price walk finds a level below the best.
\<close>

theorem pd_walks_end:
  assumes "pd_reachable d h b" "unat d + 1 < 2 ^ 32"
  shows "walkToLevel m l = Some (drop (unat l) m) \<and>
    walkToBidPriceIter h p (pd_bidPrices b) \<noteq> None \<and> walkToOfferPriceIter h p (pd_offerPrices b) \<noteq> None \<and>
    Option.bind (walkToBidPrice p h b) h = (case view h (pd_bidPrices b) of [] \<Rightarrow> None
      | best # _ \<Rightarrow> if p \<le> pe_price best then Some best else None) \<and>
    Option.bind (walkToOfferPrice p h b) h = (case view h (pd_offerPrices b) of [] \<Rightarrow> None
      | best # _ \<Rightarrow> if pe_price best \<le> p then Some best else None)"
proof -
  have w: "side_wf h MDEntryType_BID (pd_bidPrices b) (pd_bidIds b)" "side_wf h MDEntryType_OFFER (pd_offerPrices b) (pd_offerIds b)"
    using pd_reachable_wf [OF assms] by (auto simp: pd_wf_def)
  have "Option.bind (walkToBidPrice p h b) h = (case view h (pd_bidPrices b) of [] \<Rightarrow> None
      | best # _ \<Rightarrow> if p \<le> pe_price best then Some best else None)"
  proof (cases "pd_bidPrices b")
    case (Cons x m')
    from view_hd [OF w(1) Cons] Cons show ?thesis
      by (auto simp: walkToBidPrice_def walk_bid_price [OF w(1) [unfolded Cons]] deref_def price_key_def split_def)
  qed (simp add: walkToBidPrice_def deref_def view_def)
  moreover have "Option.bind (walkToOfferPrice p h b) h = (case view h (pd_offerPrices b) of [] \<Rightarrow> None
      | best # _ \<Rightarrow> if pe_price best \<le> p then Some best else None)"
  proof (cases "pd_offerPrices b")
    case (Cons x m')
    from view_hd [OF w(2) Cons] Cons sides_differ show ?thesis
      by (auto simp: walkToOfferPrice_def walk_offer_price [OF w(2) [unfolded Cons]] deref_def price_key_def split_def)
  qed (simp add: walkToOfferPrice_def deref_def view_def)
  ultimately show ?thesis
    by (simp add: walkToLevel_drop walk_bid_price [OF w(1)] walk_offer_price [OF w(2)])
qed

lemma pd_walks_end_witness:
  "walkToBidPrice 99 [0 \<mapsto> sample_bid] sample_book \<bind> [0 \<mapsto> sample_bid] = Some sample_bid \<and>
    walkToBidPrice 101 [0 \<mapsto> sample_bid] sample_book \<bind> [0 \<mapsto> sample_bid] = None \<and>
    walkToLevel (pd_bidPrices sample_book) 4 = Some []"
  using pd_walks_end [OF sample_book_reachable, of _ 4 99] pd_walks_end [OF sample_book_reachable, of "pd_bidPrices sample_book" 4 101]
  by (simp add: sample_book_def view_def sample_entry_def)

section \<open>Replacements and duplicates\<close>

lemma sm_put_new: "map_of m k = None \<Longrightarrow> length (sm_put k v m) = Suc (length m)"
  by (induction k v m rule: sm_put.induct) (auto split: if_splits)

lemma sm_put_old: "sm_sorted m \<Longrightarrow> map_of m k = Some x \<Longrightarrow> length (sm_put k v m) = length m"
proof (induction k v m rule: sm_put.induct)
  case (2 k v a b m)
  then show ?case by (auto simp: sm_sorted_Cons split: if_splits dest!: map_of_SomeD)
qed simp

lemma shows_addr:
  assumes "side_shows h t m ids es" "x \<in> set es"
  obtains a where "map_of m (entry_key x) = Some a" "map_of ids (pe_id x) = Some a" "h a = Some x" "pe_type x = t"
  using shows_entry [OF assms(1)] assms unfolding side_shows_def side_tight_def by blast

lemma side_wf_alloc: "side_wf h t m ids \<Longrightarrow> h a = None \<Longrightarrow> side_wf (h(a \<mapsto> e)) t m ids"
  by (metis fun_upd_other option.distinct(1) side_wf_frame side_wf_refs)

lemma shows_alloc: "side_shows h t m ids es \<Longrightarrow> h a = None \<Longrightarrow> side_wf (h(a \<mapsto> e)) t m ids"
  by (simp add: side_shows_def side_wf_alloc)

lemma unat_of_small: "n < 2 ^ 32 \<Longrightarrow> unat (of_nat n :: uint32) = n"
  by (simp add: unat_of_nat)

lemma trim_two:
  assumes "side_wf h t m ids" "length m = unat d + 2" "unat d + 2 < 2 ^ 32"
  shows "trimMap d True h m ids = None"
proof -
  have u: "unat (of_nat (length m) :: uint32) = length m" by (rule unat_of_small) (use assms(2,3) in simp)
  then have c: "d < of_nat (length m)" using assms(2) unfolding word_less_nat_alt by linarith
  have "of_nat (length m) - 1 = (of_nat (unat d + 1) :: uint32)" using assms(2) by simp
  moreover have "unat (of_nat (unat d + 1) :: uint32) = unat d + 1" by (rule unat_of_small) (use assms(3) in simp)
  ultimately have c1: "d < of_nat (length m) - 1" by (simp add: word_less_nat_alt)
  have ne: "m \<noteq> []" using assms(2) by auto
  then have "map_of m (fst (last m)) = Some (snd (last m))"
    using sm_snd_in [of m "fst (last m)" "snd (last m)"] side_wf_sorted(1) [OF assms(1)] by simp
  then obtain e where "h (snd (last m)) = Some e" using side_wf_price [OF assms(1)] by blast
  then show ?thesis
    using c c1 ne
    by (simp add: trimMap_def trim_loop.simps [of "of_nat (length m)"] trim_loop.simps [of "of_nat (length m) - 1"])
qed

text \<open>
  Replacing an entry by one at another price leaves the old level behind. The replacement succeeds,
  but from then on the two maps of the side differ in size, which the count of the levels asserts they do
  not; removing the replaced id takes the new level away and leaves the old one with no id that leads
  to it; and when the side was full, the next addition at a free price steps back an invalidated iterator.
\<close>

theorem pd_replace_stale:
  assumes "book_shows d h b s" "x \<in> set (ps_bids s)" "h a = None" "pe_type e = MDEntryType_BID"
    "pe_id e = pe_id x" "pe_price e \<notin> pe_price ` set (ps_bids s)" "unat d + 2 < 2 ^ 32"
  shows "\<exists>b1. pd_replace (pe_id x) (Some a) (h(a \<mapsto> e)) b = Some (True, h(a \<mapsto> e), b1) \<and>
    numBids b1 = None \<and> hasBidPrice (pe_price x) b1 \<and> hasBidPrice (pe_price e) b1 \<and>
    (\<forall>t. \<exists>b2. pd_remove (pe_id x) t True (h(a \<mapsto> e)) b1 = Some (True, h, b2) \<and>
      hasBidPrice (pe_price x) b2 \<and> \<not> hasBidPrice (pe_price e) b2 \<and> \<not> hasBidId (pe_id x) b2) \<and>
    (\<forall>a2 e2. length (ps_bids s) = unat d \<longrightarrow> (h(a \<mapsto> e)) a2 = None \<longrightarrow> pe_type e2 = MDEntryType_BID \<longrightarrow>
      \<not> hasBidPrice (pe_price e2) b1 \<longrightarrow> pd_add (Some a2) (h(a \<mapsto> e, a2 \<mapsto> e2)) b1 = None)"
proof -
  let ?m = "pd_bidPrices b" and ?ids = "pd_bidIds b" and ?k = "price_key MDEntryType_BID"
  let ?m1 = "sm_put (?k (pe_price e)) a ?m" and ?ids1 = "sm_put (pe_id x) a ?ids"
  have bids: "side_shows h MDEntryType_BID ?m ?ids (ps_bids s)" and dep: "pd_depth b = d"
    using assms(1) by (auto simp: book_shows_def)
  obtain ax where ax: "map_of ?m (entry_key x) = Some ax" "map_of ?ids (pe_id x) = Some ax" "h ax = Some x"
    "pe_type x = MDEntryType_BID" using shows_addr [OF bids assms(2)] .
  have free: "map_of ?m (?k (pe_price e)) = None" using shows_price [OF bids assms(4,6)] assms(4) by simp
  have differ: "pe_price e \<noteq> pe_price x" using assms(2,6) by auto
  have wf: "side_wf (h(a \<mapsto> e)) MDEntryType_BID ?m ?ids"
    using shows_alloc [OF bids assms(3)] .
  have len: "length ?m1 = Suc (length ?m)" "length ?ids1 = length ?m"
    using sm_put_new [OF free] sm_put_old [OF _ ax(2)] side_wf_sorted(2) [OF wf] shows_sizes [OF bids] by simp_all
  define b1 where "b1 = (bump_time (pe_modified e) b)\<lparr>pd_bidIds := ?ids1, pd_bidPrices := ?m1\<rparr>"
  have rep: "pd_replace (pe_id x) (Some a) (h(a \<mapsto> e)) b = Some (True, h(a \<mapsto> e), b1)"
    using ax(2) by (simp add: pd_replace_def Let_def b1_def)
  have h: "(h(a \<mapsto> e))(a := None) = h" using assms(3) by (simp add: fun_upd_idem_iff)
  have rem: "\<exists>b2. pd_remove (pe_id x) t True (h(a \<mapsto> e)) b1 = Some (True, h, b2) \<and>
      hasBidPrice (pe_price x) b2 \<and> \<not> hasBidPrice (pe_price e) b2 \<and> \<not> hasBidId (pe_id x) b2" for t
    using ax differ h by (simp add: pd_remove_def b1_def hasBidPrice_def hasBidId_def price_key_def)
  have full: "pd_add (Some a2) (h(a \<mapsto> e, a2 \<mapsto> e2)) b1 = None"
    if that: "length (ps_bids s) = unat d" "(h(a \<mapsto> e)) a2 = None" "pe_type e2 = MDEntryType_BID" "\<not> hasBidPrice (pe_price e2) b1" for a2 e2
  proof -
    let ?h = "h(a \<mapsto> e, a2 \<mapsto> e2)" and ?m2 = "sm_put (?k (pe_price e2)) a2 ?m1"
    have "side_wf (h(a \<mapsto> e)) MDEntryType_BID ?m1 (sm_put (pe_id e) a ?ids)"
      using side_wf_put [OF wf, of a e] assms(4) by simp
    then have "side_wf ?h MDEntryType_BID ?m1 (sm_put (pe_id e) a ?ids)"
      by (rule side_wf_alloc) (rule that(2))
    then have "side_wf ?h MDEntryType_BID ?m2 (sm_put (pe_id e2) a2 ?ids1)"
      using side_wf_put [of ?h MDEntryType_BID _ _ a2 e2] that(3) assms(5) by simp
    moreover have "length ?m2 = unat d + 2"
      using sm_put_new [of ?m1 "?k (pe_price e2)" a2] that(1,4) len shows_length [OF bids]
      by (simp add: hasBidPrice_def b1_def)
    ultimately have "trimMap d True ?h ?m2 (sm_put (pe_id e2) a2 ?ids1) = None" using trim_two assms(7) by blast
    then show ?thesis using that(3) dep by (simp add: pd_add_def b1_def Let_def bump_time_def)
  qed
  have "numBids b1 = None" using len by (simp add: numBids_def b1_def)
  moreover have "hasBidPrice (pe_price x) b1" "hasBidPrice (pe_price e) b1"
    using ax by (simp_all add: hasBidPrice_def b1_def)
  ultimately show ?thesis using rep rem full by blast
qed

lemma pd_replace_stale_witness:
  "\<exists>b1. pd_replace ''A'' (Some 1) [0 \<mapsto> sample_bid, 1 \<mapsto> sample_entry MDEntryType_BID ''A'' 99 8 2] sample_book =
      Some (True, [0 \<mapsto> sample_bid, 1 \<mapsto> sample_entry MDEntryType_BID ''A'' 99 8 2], b1) \<and> numBids b1 = None \<and>
      hasBidPrice 100 b1 \<and> hasBidPrice 99 b1"
  using pd_replace_stale [OF sample_book_shows, of sample_bid 1 "sample_entry MDEntryType_BID ''A'' 99 8 2"]
  by (force simp: sample_entry_def)

text \<open>
  An entry whose price a level of its side already has, under another id. The addition succeeds and
  puts the new entry in the place of the old one, whose id stays; the count of the levels fails its
  assertion, removing the old id takes the new entry's level away, and the new id can then no longer be
  removed.
\<close>

theorem pd_duplicate_price:
  assumes "book_shows d h b s" "x \<in> set (ps_bids s)" "h a = None" "pe_type e = MDEntryType_BID"
    "pe_price e = pe_price x" "pe_id e \<notin> pe_id ` set (ps_bids s)" "unat d + 1 < 2 ^ 32"
  shows "\<exists>b1. pd_add (Some a) (h(a \<mapsto> e)) b = Some (True, h(a \<mapsto> e), b1) \<and> numBids b1 = None \<and>
    hasBidId (pe_id x) b1 \<and> hasBidId (pe_id e) b1 \<and>
    (\<forall>t. \<exists>h2 b2. pd_remove (pe_id x) t True (h(a \<mapsto> e)) b1 = Some (True, h2, b2) \<and>
      h2 a = Some e \<and> \<not> hasBidPrice (pe_price e) b2 \<and> hasBidId (pe_id e) b2 \<and>
      (\<forall>t'. pd_remove (pe_id e) t' True h2 b2 = Some (False, h2, b2)))"
proof -
  let ?m = "pd_bidPrices b" and ?ids = "pd_bidIds b" and ?k = "price_key MDEntryType_BID"
  let ?m1 = "sm_put (?k (pe_price e)) a ?m" and ?ids1 = "sm_put (pe_id e) a ?ids"
  have bids: "side_shows h MDEntryType_BID ?m ?ids (ps_bids s)" and dep: "pd_depth b = d" "length (ps_bids s) \<le> unat d"
    using assms(1) by (auto simp: book_shows_def)
  obtain ax where ax: "map_of ?m (entry_key x) = Some ax" "map_of ?ids (pe_id x) = Some ax" "h ax = Some x"
    "pe_type x = MDEntryType_BID" using shows_addr [OF bids assms(2)] .
  have ne: "ax \<noteq> a" "pe_id x \<noteq> pe_id e" using ax(3) assms(3,6) imageI [OF assms(2), of pe_id] by auto
  have wf: "side_wf (h(a \<mapsto> e)) MDEntryType_BID ?m ?ids"
    using shows_alloc [OF bids assms(3)] .
  have free: "map_of ?ids (pe_id e) = None" using shows_ids [OF bids] assms(6) by blast
  have len: "length ?m1 = length ?m" "length ?ids1 = Suc (length ?m)"
    using sm_put_old [OF side_wf_sorted(1) [OF wf], of "?k (pe_price e)" ax] ax(1,4) assms(5) sm_put_new [OF free]
      shows_sizes [OF bids] by simp_all
  have "side_wf (h(a \<mapsto> e)) MDEntryType_BID ?m1 ?ids1" using side_wf_put [OF wf, of a e] assms(4) by simp
  then have "trimMap d True (h(a \<mapsto> e)) ?m1 ?ids1 = Some (h(a \<mapsto> e), ?m1, ?ids1)"
    using trimMap_one [of "h(a \<mapsto> e)" MDEntryType_BID ?m1 ?ids1 d] assms(7) len shows_length [OF bids] dep(2) by simp
  then have "pd_add (Some a) (h(a \<mapsto> e)) b =
      Some (True, h(a \<mapsto> e), (bump_time (pe_modified e) b)\<lparr>pd_bidPrices := ?m1, pd_bidIds := ?ids1\<rparr>)"
    using assms(4) dep by (simp add: pd_add_def Let_def)
  moreover define b1 where "b1 = (bump_time (pe_modified e) b)\<lparr>pd_bidPrices := ?m1, pd_bidIds := ?ids1\<rparr>"
  ultimately have add: "pd_add (Some a) (h(a \<mapsto> e)) b = Some (True, h(a \<mapsto> e), b1)" by simp
  have rem: "\<exists>h2 b2. pd_remove (pe_id x) t True (h(a \<mapsto> e)) b1 = Some (True, h2, b2) \<and>
      h2 a = Some e \<and> \<not> hasBidPrice (pe_price e) b2 \<and> hasBidId (pe_id e) b2 \<and>
      (\<forall>t'. pd_remove (pe_id e) t' True h2 b2 = Some (False, h2, b2))" for t
    using ax ne assms(5) by (simp add: pd_remove_def b1_def hasBidPrice_def hasBidId_def)
  have "numBids b1 = None" using len by (simp add: numBids_def b1_def)
  moreover have "hasBidId (pe_id x) b1" "hasBidId (pe_id e) b1"
    using ax ne by (simp_all add: hasBidId_def b1_def)
  ultimately show ?thesis using add rem by blast
qed

lemma pd_duplicate_price_witness:
  "\<exists>b1. pd_add (Some 1) [0 \<mapsto> sample_bid, 1 \<mapsto> sample_entry MDEntryType_BID ''B'' 100 8 2] sample_book =
      Some (True, [0 \<mapsto> sample_bid, 1 \<mapsto> sample_entry MDEntryType_BID ''B'' 100 8 2], b1) \<and> numBids b1 = None"
  using pd_duplicate_price [OF sample_book_shows, of sample_bid 1 "sample_entry MDEntryType_BID ''B'' 100 8 2"]
  by (force simp: sample_entry_def)

end
