(* ===== verification/Collector.thy ===== *)
theory Collector
  imports MdParser
begin

text \<open>
  The FIX collector beside the Interactive Brokers interface,
  \<^verbatim>\<open>collect-ib-fix_api/Application.cpp\<close>, for FIX 4.2, 4.3 and 4.4: after a logon it creates a book
  and a log file for every symbol and subscribes; snapshots and incremental refreshes change the books of
  \<^verbatim>\<open>BookV2\<close>, every update is written to the log of its symbol, and the best prices are published.

  Fields, field objects and the results of a handler are those of \<^verbatim>\<open>MdParser\<close>. A log line is
  modelled by its contents, a file by the lines written to it in order; opening a file and creating a
  directory succeed. Debug printing is off but for its effect on the message count; console output and
  the destruction of books and streams are not modelled.
\<close>

section \<open>Configuration and state\<close>

record co_config =
  cc_mic_string :: string
  cc_venue_id :: int
  cc_username :: string
  cc_password :: string
  cc_sendPasswordInRawDataField :: bool
  cc_aggregatedBook :: bool
  cc_sendIndividualMarketDataRequests :: bool
  cc_version :: int
  cc_printDebug :: bool
  cc_marketDepth :: int

text \<open>What is published, and the environment: that of \<^verbatim>\<open>MdParser\<close> and the size of a serialised
  message.\<close>

record mic_bbo =
  mb_symbol :: string
  mb_bid_price :: dbl
  mb_ask_price :: dbl
  mb_bid_size :: dbl
  mb_ask_size :: dbl
  mb_venue_id :: int

record ('tm, 'dt, 't) co_env =
  ce_md :: "('tm, 'dt, 't) md_env"
  ce_size :: "mic_bbo \<Rightarrow> nat"

text \<open>The lines of a log: the restart and the header with the name and depth of a book; the side,
  size and price of an addition, modification or deletion; the whole book with its two times.\<close>

datatype log_line =
    LogRestart timespec
  | LogHeader string uint32 timespec
  | LogAdd side dbl dbl timespec
  | LogMod side dbl dbl timespec
  | LogDel side dbl dbl timespec
  | LogBook kbook

record co_app =
  co_cfg :: co_config
  co_session :: "string \<times> string"
  co_symbols :: "string list"
  co_loggedIn :: bool
  co_loggedOut :: bool
  co_loginCount :: uint32
  co_appMsgCount :: uint32
  co_resetSequence :: bool
  co_publishing :: bool
  co_logging :: bool
  co_update_type :: int
  co_dataPath :: string
  co_books :: "(string \<times> kbook) list"
  co_streams :: "(string \<times> string) list"
  co_files :: "(string \<times> log_line list) list"
  co_clock :: nat
  co_sent :: "group_message list"
  co_bcast :: "mic_bbo list"
  co_socket :: "string option"

text \<open>The constructor leaves the flags for publishing and logging and the update type
  indeterminate: \<open>pub\<close>, \<open>lg\<close> and \<open>upd\<close> are what the memory holds; \<open>fs\<close> are the files that exist. The
  socket is not set either.\<close>

definition new_co_app ::
  "bool \<Rightarrow> co_config \<Rightarrow> bool \<Rightarrow> bool \<Rightarrow> int \<Rightarrow> (string \<times> log_line list) list \<Rightarrow> co_app" where
  "new_co_app reset cfg pub lg upd fs = \<lparr>co_cfg = cfg, co_session = ([], []), co_symbols = [],
     co_loggedIn = False, co_loggedOut = False, co_loginCount = 0, co_appMsgCount = 0,
     co_resetSequence = reset, co_publishing = pub, co_logging = lg, co_update_type = upd, co_dataPath = [],
     co_books = [], co_streams = [], co_files = fs, co_clock = 0, co_sent = [], co_bcast = [], co_socket = None\<rparr>"

definition co_addSymbols :: "string list \<Rightarrow> co_app \<Rightarrow> co_app" where
  "co_addSymbols ss ap = ap\<lparr>co_symbols := ss\<rparr>"

definition co_addBook :: "string \<Rightarrow> kbook \<Rightarrow> co_app \<Rightarrow> co_app" where
  "co_addBook s b ap = ap\<lparr>co_books := sm_put s b (co_books ap)\<rparr>"

definition co_getBook :: "string \<Rightarrow> co_app \<Rightarrow> kbook option" where
  "co_getBook s ap = map_of (co_books ap) s"

text \<open>A stream is the path of its file.\<close>

definition addStream :: "string \<Rightarrow> string \<Rightarrow> co_app \<Rightarrow> co_app" where
  "addStream s path ap = ap\<lparr>co_streams := sm_put s path (co_streams ap)\<rparr>"

definition getStream :: "string \<Rightarrow> co_app \<Rightarrow> string option" where
  "getStream s ap = map_of (co_streams ap) s"

definition setUpdateType :: "int \<Rightarrow> co_app \<Rightarrow> co_app" where
  "setUpdateType u ap = ap\<lparr>co_update_type := (if u \<noteq> -1 then u else 1)\<rparr>"

definition setDataPath :: "string \<Rightarrow> co_app \<Rightarrow> co_app" where
  "setDataPath p ap = ap\<lparr>co_dataPath := p\<rparr>"

definition setPublishing :: "bool \<Rightarrow> co_app \<Rightarrow> co_app" where
  "setPublishing p ap = ap\<lparr>co_publishing := p\<rparr>"

definition co_setZMQSocket :: "string \<Rightarrow> co_app \<Rightarrow> co_app" where
  "co_setZMQSocket addr ap = ap\<lparr>co_socket := Some addr\<rparr>"

text \<open>\<^verbatim>\<open>main\<close> publishes if there is an address, to a socket bound to it.\<close>

definition co_connect :: "string \<Rightarrow> co_app \<Rightarrow> co_app" where
  "co_connect addr ap = setPublishing (addr \<noteq> []) (if addr \<noteq> [] then co_setZMQSocket addr ap else ap)"

definition file_lines :: "string \<Rightarrow> co_app \<Rightarrow> log_line list" where
  "file_lines path ap = (case map_of (co_files ap) path of None \<Rightarrow> [] | Some ls \<Rightarrow> ls)"

definition append_lines :: "string \<Rightarrow> log_line list \<Rightarrow> co_app \<Rightarrow> co_app" where
  "append_lines path ls ap = ap\<lparr>co_files := sm_put path (file_lines path ap @ ls) (co_files ap)\<rparr>"

section \<open>Requests\<close>

text \<open>The parts the requests share; how the flag for aggregated books is set is an argument.\<close>

definition co_request ::
  "string \<Rightarrow> string \<Rightarrow> int \<Rightarrow> (fields \<Rightarrow> fields) \<Rightarrow> string list \<Rightarrow> co_app \<Rightarrow> group_message" where
  "co_request version reqID depth agg ss ap =
    (let b = agg [MDReqID \<mapsto> FString reqID, SubscriptionRequestType \<mapsto> FChar CHR ''1'', MarketDepth \<mapsto> FInt depth]
     in \<lparr>fm_type = ''V'',
         fm_header = [BeginString \<mapsto> FString version, SenderCompID \<mapsto> FString (fst (co_session ap)),
                      TargetCompID \<mapsto> FString (snd (co_session ap))],
         fm_body = b(MDUpdateType \<mapsto> FInt (co_update_type ap)),
         fm_groups = [(NoMDEntryTypes, [MDEntryType \<mapsto> FChar MDEntryType_BID]),
                      (NoMDEntryTypes, [MDEntryType \<mapsto> FChar MDEntryType_OFFER])] @ map symbol_group ss\<rparr>)"

definition set_aggregated :: "co_app \<Rightarrow> fields \<Rightarrow> fields" where
  "set_aggregated ap b = (if cc_aggregatedBook (co_cfg ap) then b(AggregatedBook \<mapsto> FBool True)
     else b(AggregatedBook \<mapsto> FBool False))"

definition want_aggregated :: "co_app \<Rightarrow> fields \<Rightarrow> fields" where
  "want_aggregated ap b = (if cc_aggregatedBook (co_cfg ap) then b(AggregatedBook \<mapsto> FBool True) else b)"

definition querySingleMarketDataRequest44 :: "string \<Rightarrow> co_app \<Rightarrow> group_message" where
  "querySingleMarketDataRequest44 s ap =
     co_request ''FIX.4.4'' (c_str (''CAPK-'' @ s)) (cc_marketDepth (co_cfg ap)) (set_aggregated ap) [s] ap"

definition querySingleMarketDataRequest43 :: "string \<Rightarrow> co_app \<Rightarrow> group_message" where
  "querySingleMarketDataRequest43 s ap =
     co_request ''FIX.4.3'' (c_str (''CAPK-'' @ s)) (cc_marketDepth (co_cfg ap)) (set_aggregated ap) [s] ap"

definition querySingleMarketDataRequest42 :: "string \<Rightarrow> co_app \<Rightarrow> group_message" where
  "querySingleMarketDataRequest42 s ap =
     co_request ''FIX.4.2'' (c_str (''CAPK-'' @ s)) (cc_marketDepth (co_cfg ap)) (set_aggregated ap) [s] ap"

definition queryMarketDataRequest44 :: "string list \<Rightarrow> co_app \<Rightarrow> group_message" where
  "queryMarketDataRequest44 ss ap = co_request ''FIX.4.4'' ''MARKETDATAID'' (cc_marketDepth (co_cfg ap))
     (want_aggregated ap) (filter (\<lambda>s. s \<noteq> []) ss) ap"

definition queryMarketDataRequest43 :: "string list \<Rightarrow> co_app \<Rightarrow> group_message" where
  "queryMarketDataRequest43 ss ap = co_request ''FIX.4.3'' ''MARKETDATAID'' (cc_marketDepth (co_cfg ap))
     (want_aggregated ap) (filter (\<lambda>s. s \<noteq> []) ss) ap"

text \<open>The request for FIX 4.2 asks for the full depth, whatever the configuration says.\<close>

definition queryMarketDataRequest42 :: "string list \<Rightarrow> co_app \<Rightarrow> group_message" where
  "queryMarketDataRequest42 ss ap = co_request ''FIX.4.2'' ''MARKETDATAID'' 0
     (want_aggregated ap) (filter (\<lambda>s. s \<noteq> []) ss) ap"

definition co_send :: "group_message \<Rightarrow> co_app \<Rightarrow> co_app" where
  "co_send m ap = ap\<lparr>co_sent := co_sent ap @ [m]\<rparr>"

definition querySingleMarketDataRequest :: "string \<Rightarrow> co_app \<Rightarrow> md_stop option \<times> co_app" where
  "querySingleMarketDataRequest s ap = (let v = cc_version (co_cfg ap) in
     if v = 42 then (None, co_send (querySingleMarketDataRequest42 s ap) ap)
     else if v = 43 then (None, co_send (querySingleMarketDataRequest43 s ap) ap)
     else if v = 44 then (None, co_send (querySingleMarketDataRequest44 s ap) ap)
     else (Some UnsupportedVersion, ap))"

definition queryMarketDataRequest :: "string list \<Rightarrow> co_app \<Rightarrow> md_stop option \<times> co_app" where
  "queryMarketDataRequest ss ap = (let v = cc_version (co_cfg ap) in
     if v = 42 then (None, co_send (queryMarketDataRequest42 ss ap) ap)
     else if v = 43 then (None, co_send (queryMarketDataRequest43 ss ap) ap)
     else if v = 44 then (None, co_send (queryMarketDataRequest44 ss ap) ap)
     else (Some UnsupportedVersion, ap))"

text \<open>A test request of each version; \<^verbatim>\<open>sendToTarget\<close> with a session sets the header's ids.\<close>

definition co_test_request :: "string \<Rightarrow> group_message" where
  "co_test_request version = \<lparr>fm_type = ''1'', fm_header = [BeginString \<mapsto> FString version],
     fm_body = [TestReqID \<mapsto> FString ''TestRequest''], fm_groups = []\<rparr>"

definition co_sendTestRequest :: "co_app \<Rightarrow> md_stop option \<times> co_app" where
  "co_sendTestRequest ap = (let v = cc_version (co_cfg ap);
       ids = (\<lambda>m. m\<lparr>fm_header := (fm_header m)(SenderCompID \<mapsto> FString (fst (co_session ap)),
                      TargetCompID \<mapsto> FString (snd (co_session ap)))\<rparr>) in
     if v = 42 then (None, co_send (ids (co_test_request ''FIX.4.2'')) ap)
     else if v = 43 then (None, co_send (ids (co_test_request ''FIX.4.3'')) ap)
     else if v = 44 then (None, co_send (ids (co_test_request ''FIX.4.4'')) ap)
     else (Some UnsupportedVersion, ap))"

section \<open>Session\<close>

text \<open>The file defines the functions of \<^verbatim>\<open>time_utils.cpp\<close> that clean file names once more. Paths are
  concatenated with a right side that does not begin with a separator.\<close>

definition path_div :: "string \<Rightarrow> string \<Rightarrow> string" where
  "path_div a b = (if a = [] \<or> last a = CHR ''/'' then a @ b else a @ ''/'' @ b)"

definition co_log_path :: "string \<Rightarrow> string \<Rightarrow> co_app \<Rightarrow> string" where
  "co_log_path today s ap = (let prefix = (if 0 < length (cc_mic_string (co_cfg ap)) then cc_mic_string (co_cfg ap) @ ''_'' else [])
     in path_div (path_div (co_dataPath ap) today) (prefix @ remove_bad_filename_chars s @ ''_'' @ today @ ''.csv''))"

text \<open>One symbol of \<^verbatim>\<open>run\<close>: its book, and its log file, which is appended to if it exists.\<close>

definition co_make_book :: "('tm, 'dt, 't) co_env \<Rightarrow> string \<Rightarrow> string \<Rightarrow> co_app \<Rightarrow> co_app" where
  "co_make_book E today s ap =
    (let b = new_book (Some (c_str s)) (word_of_int (cc_marketDepth (co_cfg ap)));
         path = co_log_path today s ap;
         isRestart = (map_of (co_files ap) path \<noteq> None);
         t = me_clk (ce_md E) (co_clock ap);
         line = (if isRestart then LogRestart t else LogHeader (bookName b) (bookDepth b) t);
         ap = ap\<lparr>co_clock := co_clock ap + 1\<rparr>
     in co_addBook s b (addStream s path (append_lines path (if co_logging ap then [line] else []) ap)))"

fun co_make_books :: "('tm, 'dt, 't) co_env \<Rightarrow> string \<Rightarrow> string list \<Rightarrow> co_app \<Rightarrow> co_app" where
  "co_make_books E today [] ap = ap"
| "co_make_books E today (s # ss) ap =
     (if s = [] then ap else co_make_books E today ss (co_make_book E today s ap))"

fun query_all_single :: "string list \<Rightarrow> co_app \<Rightarrow> md_stop option \<times> co_app" where
  "query_all_single [] ap = (None, ap)"
| "query_all_single (s # ss) ap = (if s = [] then query_all_single ss ap
     else case querySingleMarketDataRequest s ap of
       (None, ap') \<Rightarrow> query_all_single ss ap' | (Some e, ap') \<Rightarrow> (Some e, ap'))"

definition co_run :: "('tm, 'dt, 't) co_env \<Rightarrow> string \<Rightarrow> co_app \<Rightarrow> md_stop option \<times> co_app" where
  "co_run E today ap = (let ap = co_make_books E today (co_symbols ap) ap in
     if cc_sendIndividualMarketDataRequests (co_cfg ap)
     then query_all_single (co_symbols ap) ap
     else queryMarketDataRequest (co_symbols ap) ap)"

definition co_onLogon ::
  "('tm, 'dt, 't) co_env \<Rightarrow> string \<Rightarrow> string \<times> string \<Rightarrow> co_app \<Rightarrow> md_stop option \<times> co_app" where
  "co_onLogon E today sess ap = co_run E today
     (ap\<lparr>co_loggedIn := True, co_loggedOut := False, co_session := sess, co_loginCount := co_loginCount ap + 1\<rparr>)"

definition co_onLogout :: "co_app \<Rightarrow> co_app" where
  "co_onLogout ap = ap\<lparr>co_loggedIn := False, co_loggedOut := True\<rparr>"

definition co_toAdmin :: "co_app \<Rightarrow> fix_message \<Rightarrow> fix_message" where
  "co_toAdmin ap m = (if fm_type m = ''A'' then
     let cfg = co_cfg ap; h = fm_header m;
         h = (if 0 < length (cc_username cfg) then h(Username \<mapsto> FString (cc_username cfg)) else h);
         h = (if cc_sendPasswordInRawDataField cfg
              then h(RawData \<mapsto> FString (c_str (cc_password cfg)),
                     RawDataLength \<mapsto> FInt (int (length (cc_password cfg))))
              else if cc_password cfg \<noteq> [] then h(Password \<mapsto> FString (cc_password cfg)) else h);
         b = (if co_resetSequence ap then (fm_body m)(ResetSeqNumFlag \<mapsto> FString ''Y'') else fm_body m)
     in m\<lparr>fm_header := h, fm_body := b\<rparr>
   else m)"

definition co_toApp :: "bool \<Rightarrow> fix_message \<Rightarrow> bool" where
  "co_toApp derived m = (check_possdup m = Some ThrowsDoNotSend \<longrightarrow> derived)"

section \<open>Snapshots\<close>

text \<open>The fields an entry of a snapshot sets: those of FIX 4.3 and 4.4 have no symbol of their own.\<close>

definition snap_vars :: "fields \<Rightarrow> md_vars \<Rightarrow> md_vars" where
  "snap_vars g v = v\<lparr>v_type := if_set g MDEntryType (v_type v), v_id := if_set g MDEntryID (v_id v),
     v_px := if_set g MDEntryPx (v_px v), v_size := if_set g MDEntrySize (v_size v),
     v_quote_id := if_set g QuoteEntryID (v_quote_id v)\<rparr>"

definition snap_vars42 :: "fields \<Rightarrow> md_vars \<Rightarrow> md_vars" where
  "snap_vars42 g v = snap_vars g (v\<lparr>v_symbol := if_set g Symbol (v_symbol v)\<rparr>)"

text \<open>What is done with an entry: it is added to the book of the symbol as it is, and only reported
  when there is no book.\<close>

definition add_snapshot ::
  "('tm, 'dt, 't) md_env \<Rightarrow> fix_value \<Rightarrow> md_vars \<Rightarrow> co_app \<Rightarrow> md_stop option \<times> co_app" where
  "add_snapshot E st v ap = (case get_string (v_symbol v) of
     Inl e \<Rightarrow> (Some e, ap)
   | Inr k \<Rightarrow> (case co_getBook k ap of
       None \<Rightarrow> (None, ap)
     | Some b \<Rightarrow> (case snapshot_quote E st v of
         Inl e \<Rightarrow> (Some e, ap)
       | Inr (i, s, sz, p, xt) \<Rightarrow>
          (case book_add i s sz p (me_clk E (co_clock ap)) xt b of
             None \<Rightarrow> (Some Undefined, ap)
           | Some (_, b') \<Rightarrow> (None, co_addBook k b' (ap\<lparr>co_clock := co_clock ap + 1\<rparr>))))))"

definition snap_entry ::
  "(fields \<Rightarrow> md_vars \<Rightarrow> md_vars) \<Rightarrow> ('tm, 'dt, 't) md_env \<Rightarrow> fix_value \<Rightarrow> fields \<Rightarrow> md_vars \<times> co_app
     \<Rightarrow> md_stop option \<times> md_vars \<times> co_app" where
  "snap_entry read E st g = (\<lambda>(v0, ap). let v = read g v0; (r, ap) = add_snapshot E st v ap in (r, v, ap))"

text \<open>A count that is no number is reported and taken for zero.\<close>

definition entry_count :: "fix_value \<Rightarrow> int" where
  "entry_count nv = (case get_int nv of Inr n \<Rightarrow> n | Inl _ \<Rightarrow> 0)"

definition drop_vars :: "md_stop option \<times> md_vars \<times> co_app \<Rightarrow> md_stop option \<times> co_app" where
  "drop_vars r = (fst r, snd (snd r))"

text \<open>The snapshots of FIX 4.3 and 4.4 must have a request id and a symbol, those of FIX 4.2 need not.\<close>

definition snapshot44 :: "('tm, 'dt, 't) md_env \<Rightarrow> group_message \<Rightarrow> co_app \<Rightarrow> md_stop option \<times> co_app" where
  "snapshot44 E m ap =
    (case (fm_header m SendingTime, fm_body m MDReqID, fm_body m Symbol) of
       (Some st, Some _, Some s) \<Rightarrow>
         (case fm_body m NoMDEntries of
            None \<Rightarrow> (None, ap)
          | Some nv \<Rightarrow> drop_vars (for_groups (snap_entry snap_vars E st) (nat (entry_count nv))
              (groups_of NoMDEntries m) (init_vars\<lparr>v_symbol := s\<rparr>, ap)))
     | _ \<Rightarrow> (Some FieldError, ap))"

definition snapshot43 :: "('tm, 'dt, 't) md_env \<Rightarrow> group_message \<Rightarrow> co_app \<Rightarrow> md_stop option \<times> co_app" where
  "snapshot43 E m ap =
    (case (fm_header m SendingTime, fm_body m MDReqID, fm_body m Symbol) of
       (Some st, Some _, Some s) \<Rightarrow>
         (case fm_body m NoMDEntries of
            None \<Rightarrow> (None, ap)
          | Some nv \<Rightarrow> drop_vars (for_groups (snap_entry snap_vars E st) (nat (entry_count nv))
              (groups_of NoMDEntries m) (init_vars\<lparr>v_symbol := s\<rparr>, ap)))
     | _ \<Rightarrow> (Some FieldError, ap))"

definition snapshot42 :: "('tm, 'dt, 't) md_env \<Rightarrow> group_message \<Rightarrow> co_app \<Rightarrow> md_stop option \<times> co_app" where
  "snapshot42 E m ap = (case fm_header m SendingTime of
     None \<Rightarrow> (Some FieldError, ap)
   | Some st \<Rightarrow> (case fm_body m NoMDEntries of
       None \<Rightarrow> (None, ap)
     | Some nv \<Rightarrow> drop_vars (for_groups (snap_entry snap_vars42 E st) (nat (entry_count nv))
         (groups_of NoMDEntries m) (init_vars\<lparr>v_symbol := if_set (fm_body m) Symbol FEmpty\<rparr>, ap))))"

section \<open>Incremental refreshes\<close>

text \<open>The cases of an entry, each with the lines it writes when logging is on. A new entry first
  removes the order of the same id, if there is one.\<close>

definition co_apply_new ::
  "uint32 \<Rightarrow> side \<Rightarrow> dbl \<Rightarrow> dbl \<Rightarrow> timespec \<Rightarrow> timespec \<Rightarrow> kbook \<Rightarrow> md_stop + kbook \<times> log_line list" where
  "co_apply_new i s sz p t xt b =
     bnd (defined (book_remove i t xt b)) (\<lambda>(_, b).
     bnd (defined (book_add i s sz p t xt b)) (\<lambda>(_, b). Inr (b, [LogAdd s sz p t])))"

definition co_apply_rename ::
  "uint32 \<Rightarrow> uint32 \<Rightarrow> side \<Rightarrow> dbl \<Rightarrow> dbl \<Rightarrow> timespec \<Rightarrow> timespec \<Rightarrow> kbook \<Rightarrow> md_stop + kbook \<times> log_line list" where
  "co_apply_rename r i s sz p t xt b =
     bnd (defined (book_remove r t xt b)) (\<lambda>(_, b).
     bnd (defined (book_add i s sz p t xt b)) (\<lambda>(_, b). Inr (b, [LogMod s sz p t])))"

definition co_apply_change ::
  "uint32 \<Rightarrow> dbl \<Rightarrow> timespec \<Rightarrow> timespec \<Rightarrow> kbook \<Rightarrow> md_stop + kbook \<times> log_line list" where
  "co_apply_change i sz t xt b = (case getOrder i b of
     None \<Rightarrow> Inr (b, [])
   | Some ord \<Rightarrow> bnd (defined (book_modify i sz t xt b)) (\<lambda>(_, b').
       Inr (b', [LogMod (ordSide ord) sz (ordPrice ord) t])))"

definition co_apply_delete ::
  "uint32 \<Rightarrow> timespec \<Rightarrow> timespec \<Rightarrow> kbook \<Rightarrow> md_stop + kbook \<times> log_line list" where
  "co_apply_delete i t xt b = (case getOrder i b of
     None \<Rightarrow> Inl AssertFails
   | Some ord \<Rightarrow> bnd (defined (book_remove i t xt b)) (\<lambda>(_, b').
       Inr (b', [LogDel (ordSide ord) (ordSize ord) (ordPrice ord) t])))"

definition co_apply_update ::
  "('tm, 'dt, 't) md_env \<Rightarrow> fields \<Rightarrow> md_vars \<Rightarrow> timespec \<Rightarrow> timespec \<Rightarrow> kbook \<Rightarrow> md_stop + kbook \<times> log_line list" where
  "co_apply_update E g v t xt b =
     bnd (get_char (v_type v)) (\<lambda>c. bnd (get_size (v_size v)) (\<lambda>sz. bnd (get_string (v_id v)) (\<lambda>id.
     bnd (get_char (v_action v)) (\<lambda>action.
       let s = char2side_t c; i = md_hash E id in
       if action = MDUpdateAction_NEW then
         bnd (get_double (v_px v)) (\<lambda>p. co_apply_new i s sz p t xt b)
       else if action = MDUpdateAction_CHANGE then
         bnd (get_double (v_px v)) (\<lambda>p. case g MDEntryRefID of
             Some rv \<Rightarrow> bnd (get_string rv) (\<lambda>r. co_apply_rename (md_hash E r) i s sz p t xt b)
           | None \<Rightarrow> co_apply_change i sz t xt b)
       else if action = MDUpdateAction_DELETE then co_apply_delete i t xt b
       else Inl Exits))))"

text \<open>Writing to the stream in hand, which may be the null pointer.\<close>

definition write_log :: "string option \<Rightarrow> log_line list \<Rightarrow> co_app \<Rightarrow> md_stop option \<times> co_app" where
  "write_log lg ls ap = (if co_logging ap \<and> ls \<noteq> [] then
       (case lg of None \<Rightarrow> (Some NullStream, ap) | Some path \<Rightarrow> (None, append_lines path ls ap))
     else (None, ap))"

text \<open>One entry; the state is the field objects, the book and the stream in hand (by their symbol and
  path), and the application.\<close>

definition co_update_entry ::
  "('tm, 'dt, 't) md_env \<Rightarrow> fix_value \<Rightarrow> fields \<Rightarrow> md_vars \<times> string option \<times> string option \<times> co_app
     \<Rightarrow> md_stop option \<times> md_vars \<times> string option \<times> string option \<times> co_app" where
  "co_update_entry E st g = (\<lambda>(v0, cur, lg, ap). let v = update_vars g v0 in
     case send_time E st of
       Inl e \<Rightarrow> (Some e, v, cur, lg, ap)
     | Inr xt \<Rightarrow>
        (let t = me_clk E (co_clock ap); ap = ap\<lparr>co_clock := co_clock ap + 1\<rparr> in
         case get_string (v_symbol v) of
           Inl e \<Rightarrow> (Some e, v, cur, lg, ap)
         | Inr k \<Rightarrow>
            (let lg = getStream k ap in
             case co_getBook k ap of
               None \<Rightarrow> (None, v, None, lg, ap)
             | Some b \<Rightarrow> (case co_apply_update E g v t xt b of
                 Inl e \<Rightarrow> (Some e, v, Some k, lg, ap)
               | Inr (b', ls) \<Rightarrow>
                  (let (r, ap) = write_log lg ls (co_addBook k b' ap) in (r, v, Some k, lg, ap))))))"

definition co_publish ::
  "('tm, 'dt, 't) co_env \<Rightarrow> md_vars \<Rightarrow> kbook \<Rightarrow> co_app \<Rightarrow> md_stop option \<times> co_app" where
  "co_publish E v b ap = (if \<not> co_publishing ap then (None, ap)
     else case get_string (v_symbol v) of
       Inl e \<Rightarrow> (Some e, ap)
     | Inr s \<Rightarrow>
        (let m = \<lparr>mb_symbol = s, mb_bid_price = bestPrice BID b, mb_ask_price = bestPrice ASK b,
                  mb_bid_size = bestPriceVolume BID b, mb_ask_size = bestPriceVolume ASK b,
                  mb_venue_id = cc_venue_id (co_cfg ap)\<rparr>
         in if ce_size E m < 256 then (case co_socket ap of
                None \<Rightarrow> (Some Undefined, ap) | Some _ \<Rightarrow> (None, ap\<lparr>co_bcast := co_bcast ap @ [m]\<rparr>))
            else (Some AssertFails, ap)))"

text \<open>The end of a message: the book in hand is read through its pointer, published, and written to
  the stream in hand if there is one.\<close>

definition co_finish ::
  "('tm, 'dt, 't) co_env \<Rightarrow> md_vars \<Rightarrow> string option \<Rightarrow> string option \<Rightarrow> co_app \<Rightarrow> md_stop option \<times> co_app" where
  "co_finish E v cur lg ap = (case (case cur of None \<Rightarrow> None | Some k \<Rightarrow> co_getBook k ap) of
     None \<Rightarrow> (Some NullBook, ap)
   | Some b \<Rightarrow> (case co_publish E v b ap of
       (Some e, ap) \<Rightarrow> (Some e, ap)
     | (None, ap) \<Rightarrow> (None, case lg of None \<Rightarrow> ap
         | Some path \<Rightarrow> if co_logging ap then append_lines path [LogBook b] ap else ap)))"

definition incremental_update_template ::
  "('tm, 'dt, 't) co_env \<Rightarrow> group_message \<Rightarrow> co_app \<Rightarrow> md_stop option \<times> co_app" where
  "incremental_update_template E m ap = (case fm_header m SendingTime of
     None \<Rightarrow> (Some FieldError, ap)
   | Some st \<Rightarrow> (case fm_body m NoMDEntries of
       None \<Rightarrow> (None, ap)
     | Some nv \<Rightarrow> (case get_int nv of
         Inl e \<Rightarrow> (Some e, ap)
       | Inr n \<Rightarrow>
          (let v = init_vars\<lparr>v_symbol := if_set (fm_body m) Symbol FEmpty\<rparr> in
           case for_groups (co_update_entry (ce_md E) st) (nat n) (groups_of NoMDEntries m) (v, None, None, ap) of
             (Some e, v', cur, lg, ap') \<Rightarrow> (Some e, ap')
           | (None, v', cur, lg, ap') \<Rightarrow> co_finish E v' cur lg ap'))))"

section \<open>Dispatch\<close>

text \<open>The messages for which the class has a handler in every version. A message of a version the
  collector does not know has no handler at all.\<close>

datatype co_message =
    CoSnapshot group_message
  | CoIncremental group_message
  | CoSessionStatus group_message
  | CoPrinted
  | CoOther

definition co_session_status :: "group_message \<Rightarrow> co_app \<Rightarrow> md_stop option \<times> co_app" where
  "co_session_status m ap = (case fm_body m TradSesStatus of
     None \<Rightarrow> (None, ap)
   | Some v \<Rightarrow> (case get_int v of Inl e \<Rightarrow> (Some e, ap) | Inr _ \<Rightarrow> (None, ap)))"

definition co_crack ::
  "('tm, 'dt, 't) co_env \<Rightarrow> (('tm, 'dt, 't) md_env \<Rightarrow> group_message \<Rightarrow> co_app \<Rightarrow> md_stop option \<times> co_app)
     \<Rightarrow> co_message \<Rightarrow> co_app \<Rightarrow> md_stop option \<times> co_app" where
  "co_crack E snapshot msg ap = (case msg of
     CoSnapshot m \<Rightarrow> snapshot (ce_md E) m ap
   | CoIncremental m \<Rightarrow> incremental_update_template E m ap
   | CoSessionStatus m \<Rightarrow> co_session_status m ap
   | CoPrinted \<Rightarrow> (None, ap)
   | CoOther \<Rightarrow> (Some UnsupportedMessage, ap))"

definition co_fromApp ::
  "('tm, 'dt, 't) co_env \<Rightarrow> string \<Rightarrow> co_message \<Rightarrow> co_app \<Rightarrow> md_stop option \<times> co_app" where
  "co_fromApp E version msg ap =
    (let ap = (if cc_printDebug (co_cfg ap) then ap else ap\<lparr>co_appMsgCount := co_appMsgCount ap + 1\<rparr>) in
     if version = ''FIX.4.2'' then co_crack E snapshot42 msg ap
     else if version = ''FIX.4.3'' then co_crack E snapshot43 msg ap
     else if version = ''FIX.4.4'' then co_crack E snapshot44 msg ap
     else (None, ap))"

end
