(* ===== verification/CollectorSim.thy ===== *)
theory CollectorSim
  imports Collector MdFeedCorrect
begin

text \<open>
  The collector against the market data handler. Both programs treat an incremental refresh in the same
  way, the collector with logs on top: read as a state of the handler, its state makes the same step, in
  every state it can reach, where each book has a log stream.
\<close>

section \<open>The collector's state as one of the handler\<close>

definition bbo_of_mic :: "mic_bbo \<Rightarrow> bbo_msg" where
  "bbo_of_mic m = \<lparr>m_symbol = c_str (mb_symbol m), m_bid_venue_id = word_of_int (mb_venue_id m),
     m_bid_price = mb_bid_price m, m_bid_size = mb_bid_size m, m_ask_venue_id = word_of_int (mb_venue_id m),
     m_ask_price = mb_ask_price m, m_ask_size = mb_ask_size m, m_sequence = 0\<rparr>"

definition md_of :: "co_app \<Rightarrow> md_app" where
  "md_of ap = (let cfg = co_cfg ap in
     \<lparr>md_cfg = \<lparr>mdc_venue_id = cc_venue_id cfg, mdc_username = cc_username cfg, mdc_password = cc_password cfg,
        mdc_sendPasswordInRawDataField = cc_sendPasswordInRawDataField cfg,
        mdc_sendIndividualMarketDataRequests = cc_sendIndividualMarketDataRequests cfg, mdc_version = cc_version cfg,
        mdc_is_publishing = co_publishing ap, mdc_market_depth = cc_marketDepth cfg,
        mdc_want_aggregated_book = cc_aggregatedBook cfg, mdc_update_type = co_update_type ap,
        mdc_reset_seq_nums = co_resetSequence ap, mdc_new_replaces = True\<rparr>,
      md_session = co_session ap, md_symbols = co_symbols ap, md_loginCount = co_loginCount ap,
      md_appMsgCount = co_appMsgCount ap, md_books = co_books ap, md_clock = co_clock ap, md_sent = co_sent ap,
      md_bcast = map bbo_of_mic (co_bcast ap), md_socket = co_socket ap\<rparr>)"

lemma md_of_simps [simp]:
  "md_clock (md_of ap) = co_clock ap" "md_socket (md_of ap) = co_socket ap" "getBook k (md_of ap) = co_getBook k ap"
  "mdc_new_replaces (md_cfg (md_of ap))" "mdc_is_publishing (md_cfg (md_of ap)) = co_publishing ap"
  "mdc_venue_id (md_cfg (md_of ap)) = cc_venue_id (co_cfg ap)"
  "(md_of ap)\<lparr>md_clock := n\<rparr> = md_of (ap\<lparr>co_clock := n\<rparr>)"
  "md_of (co_addBook k b ap) = addBook k b (md_of ap)"
  "md_of (append_lines path ls ap) = md_of ap"
  "md_of (ap\<lparr>co_bcast := co_bcast ap @ [m]\<rparr>) = (md_of ap)\<lparr>md_bcast := md_bcast (md_of ap) @ [bbo_of_mic m]\<rparr>"
  by (simp_all add: md_of_def Let_def getBook_def co_getBook_def co_addBook_def addBook_def append_lines_def)

text \<open>Every book has a stream.\<close>

definition covered :: "co_app \<Rightarrow> bool" where
  "covered ap \<longleftrightarrow> (\<forall>k. co_getBook k ap \<noteq> None \<longrightarrow> getStream k ap \<noteq> None)"

lemma co_simps [simp]:
  "co_getBook j (co_addBook k b ap) = (if j = k then Some b else co_getBook j ap)"
  "getStream k (co_addBook j b ap) = getStream k ap" "getStream k (append_lines path ls ap) = getStream k ap"
  "getStream k (ap\<lparr>co_clock := n\<rparr>) = getStream k ap" "getStream k (ap\<lparr>co_bcast := bs\<rparr>) = getStream k ap"
  "co_getBook k (append_lines path ls ap) = co_getBook k ap" "co_getBook k (ap\<lparr>co_clock := n\<rparr>) = co_getBook k ap"
  "co_getBook k (ap\<lparr>co_bcast := bs\<rparr>) = co_getBook k ap"
  "getStream j (addStream k path ap) = (if j = k then Some path else getStream j ap)"
  "co_getBook k (addStream j path ap) = co_getBook k ap"
  "co_logging (co_addBook k b ap) = co_logging ap" "co_logging (append_lines path ls ap) = co_logging ap"
  "co_publishing (append_lines path ls ap) = co_publishing ap" "co_publishing (co_addBook k b ap) = co_publishing ap"
  "co_socket (append_lines path ls ap) = co_socket ap" "co_socket (co_addBook k b ap) = co_socket ap"
  "co_cfg (append_lines path ls ap) = co_cfg ap" "co_cfg (co_addBook k b ap) = co_cfg ap"
  "co_bcast (append_lines path ls ap) = co_bcast ap" "co_bcast (co_addBook k b ap) = co_bcast ap"
  by (simp_all add: co_getBook_def getStream_def co_addBook_def append_lines_def addStream_def)

lemma covered_simps [simp]:
  "covered (append_lines path ls ap) = covered ap" "covered (ap\<lparr>co_clock := n\<rparr>) = covered ap"
  "covered (ap\<lparr>co_bcast := bs\<rparr>) = covered ap"
  by (simp_all add: covered_def)

lemma covered_addBook: "covered ap \<Longrightarrow> getStream k ap \<noteq> None \<Longrightarrow> covered (co_addBook k b ap)"
  by (simp add: covered_def)

section \<open>Entries\<close>

lemma bnd_defined:
  "bnd (defined x) (\<lambda>y. f y) = (case x of None \<Rightarrow> Inl Undefined | Some y \<Rightarrow> f y)"
  by (cases x) (simp_all add: defined_def)

lemma map_sum_bnd [simp]: "map_sum id f (bnd x g) = bnd x (\<lambda>y. map_sum id f (g y))"
  by (cases x) simp_all

lemma co_apply_md: "apply_update E True g v t xt b = map_sum id fst (co_apply_update E g v t xt b)"
proof -
  have "map_sum id fst (co_apply_new i s sz p t xt b) = apply_new True i s sz p t xt b"
    "map_sum id fst (co_apply_rename r i s sz p t xt b) = apply_rename r i s sz p t xt b"
    "map_sum id fst (co_apply_change i sz t xt b) = apply_change i sz t xt b"
    "map_sum id fst (co_apply_delete i t xt b) = apply_delete i t xt b" for r i s sz p
    by (auto simp: co_apply_new_def co_apply_rename_def co_apply_change_def co_apply_delete_def apply_new_def
        apply_rename_def apply_change_def apply_delete_def bnd_defined defined_def split: option.splits)
  then show ?thesis
    unfolding apply_update_def co_apply_update_def map_sum_bnd
    by (auto simp: Let_def intro!: arg_cong2 [of _ _ _ _ bnd] ext split: option.splits)
qed

lemma write_log_Some [simp]:
  "write_log (Some path) ls ap = (None, if co_logging ap \<and> ls \<noteq> [] then append_lines path ls ap else ap)"
  by (simp add: write_log_def)

definition handler_entry ::
  "md_vars \<times> string option \<times> string option \<times> co_app \<Rightarrow> md_vars \<times> string option \<times> md_app" where
  "handler_entry = (\<lambda>(v, cur, lg, ap). (v, cur, md_of ap))"

definition covered_entry :: "md_vars \<times> string option \<times> string option \<times> co_app \<Rightarrow> bool" where
  "covered_entry = (\<lambda>(v, cur, lg, ap). covered ap)"

text \<open>Neither reading a field nor a change of the book fails with a null stream.\<close>

lemma bnd_Inl_iff: "bnd x f = Inl e \<longleftrightarrow> x = Inl e \<or> (\<exists>y. x = Inr y \<and> f y = Inl e)"
  by (cases x) simp_all

lemma get_never:
  "get_string v \<noteq> Inl NullStream" "get_char v \<noteq> Inl NullStream" "get_double v \<noteq> Inl NullStream"
  "get_time v \<noteq> Inl NullStream" "get_int v \<noteq> Inl NullStream" "defined x \<noteq> Inl NullStream"
  by (auto simp: get_string_def get_char_def get_double_def get_time_def get_int_def defined_def
      split: fix_value.splits option.splits)

lemma size_time_never: "get_size v \<noteq> Inl NullStream" "send_time E v \<noteq> Inl NullStream"
  by (auto simp: get_size_def send_time_def bnd_Inl_iff get_never split: option.splits)

lemma apply_never: "co_apply_update E g v t xt b \<noteq> Inl NullStream"
proof -
  have "co_apply_new i s sz p t xt b \<noteq> Inl NullStream" "co_apply_rename r i s sz p t xt b \<noteq> Inl NullStream"
    "co_apply_change i sz t xt b \<noteq> Inl NullStream" "co_apply_delete i t xt b \<noteq> Inl NullStream" for r i s sz p
    by (auto simp: co_apply_new_def co_apply_rename_def co_apply_change_def co_apply_delete_def bnd_defined
        split: option.splits)
  then show ?thesis
    by (simp add: co_apply_update_def bnd_Inl_iff get_never size_time_never Let_def split: option.splits)
qed

lemmas never = get_never size_time_never apply_never

lemma update_entry_sim:
  assumes "covered_entry s"
  shows "update_entry E st g (handler_entry s) = map_prod id handler_entry (co_update_entry E st g s) \<and>
    covered_entry (snd (co_update_entry E st g s)) \<and> fst (co_update_entry E st g s) \<noteq> Some NullStream"
proof -
  obtain v cur lg ap where s: "s = (v, cur, lg, ap)" by (metis prod.exhaust)
  have cov: "covered ap" using assms by (simp add: s covered_entry_def)
  show ?thesis
  proof (cases "\<exists>xt k b b' ls. send_time E st = Inr xt \<and> get_string (v_symbol (update_vars g v)) = Inr k \<and>
      co_getBook k ap = Some b \<and> co_apply_update E g (update_vars g v) (me_clk E (co_clock ap)) xt b = Inr (b', ls)")
    case True
    then obtain xt k b b' ls where t: "send_time E st = Inr xt" "get_string (v_symbol (update_vars g v)) = Inr k"
      "co_getBook k ap = Some b" "co_apply_update E g (update_vars g v) (me_clk E (co_clock ap)) xt b = Inr (b', ls)"
      by blast
    have k: "getStream k ap \<noteq> None" using cov t(3) by (simp add: covered_def)
    let ?ap = "co_addBook k b' (ap\<lparr>co_clock := co_clock ap + 1\<rparr>)"
    have "covered ?ap" using cov k by (auto intro: covered_addBook)
    then show ?thesis
      using t k by (auto simp: s update_entry_def co_update_entry_def handler_entry_def covered_entry_def co_apply_md Let_def)
  next
    case False
    then show ?thesis
      using cov
      by (auto simp: never s update_entry_def co_update_entry_def handler_entry_def covered_entry_def co_apply_md Let_def
          split: sum.splits option.splits)
  qed
qed

text \<open>A simulation of the loop over the entries.\<close>

lemma list_induct_groups:
  assumes "\<And>gs. Q 0 gs" "\<And>n. Q (Suc n) []" "\<And>n g gs. Q n gs \<Longrightarrow> Q (Suc n) (g # gs)"
  shows "Q n gs"
proof (induction n arbitrary: gs)
  case (Suc n)
  then show ?case using assms(2,3) by (cases gs) simp_all
qed (rule assms(1))

lemma for_groups_sim:
  assumes "\<And>g s. P s \<Longrightarrow> f' g (h s) = map_prod id h (f g s) \<and> P (snd (f g s)) \<and> fst (f g s) \<noteq> x"
    and "x \<noteq> None" "x \<noteq> Some FieldError"
  shows "P s \<Longrightarrow> for_groups f' n gs (h s) = map_prod id h (for_groups f n gs s) \<and>
    P (snd (for_groups f n gs s)) \<and> fst (for_groups f n gs s) \<noteq> x"
proof (induction n gs arbitrary: s rule: list_induct_groups)
  case (3 n g gs)
  obtain r s' where f: "f g s = (r, s')" by fastforce
  have "f' g (h s) = (r, h s')" "P s'" "r \<noteq> x" using assms(1) [OF 3(2), of g] by (simp_all add: f)
  then show ?case using 3(1) [of s'] by (cases r) (simp_all add: f)
qed (use assms in auto)

lemma co_for_groups_inv:
  assumes "\<And>g s. P s \<Longrightarrow> P (snd (f g s))"
  shows "P s \<Longrightarrow> P (snd (for_groups f n gs s))"
proof (induction n gs arbitrary: s rule: list_induct_groups)
  case (3 n g gs)
  obtain r s' where f: "f g s = (r, s')" by fastforce
  have "P s'" using assms [OF 3(2), of g] by (simp add: f)
  then show ?case using 3(1) [of s'] by (cases r) (simp_all add: f)
qed simp_all

section \<open>Messages\<close>

text \<open>Whatever the prices, a publication for a symbol fits the buffers of both programs. The collector's
  message names the venue once and is a little shorter.\<close>

definition sizes_fit :: "('tm, 'dt, 't) co_env \<Rightarrow> string \<Rightarrow> bool" where
  "sizes_fit E s \<longleftrightarrow> (\<forall>m. mb_symbol m = s \<longrightarrow> ce_size E m < 256 \<and> me_size (ce_md E) (bbo_of_mic m) < MAX_MSG_SIZE)"

text \<open>The symbols that a message can be published under.\<close>

definition message_symbols :: "group_message \<Rightarrow> string set" where
  "message_symbols m = {s. \<exists>v \<in> {FEmpty} \<union> set_option (fm_body m Symbol) \<union>
     (\<Union>g \<in> set (groups_of NoMDEntries m). set_option (g Symbol)). get_string v = Inr s}"

definition publishes :: "('tm, 'dt, 't) co_env \<Rightarrow> group_message \<Rightarrow> co_app \<Rightarrow> bool" where
  "publishes E m ap \<longleftrightarrow> (co_publishing ap \<longrightarrow> co_socket ap \<noteq> None \<and> (\<forall>s \<in> message_symbols m. sizes_fit E s))"

lemma co_update_entry_keeps:
  assumes "co_update_entry E st g (v, cur, lg, ap) = (r, v', cur', lg', ap')"
  shows "v_symbol v' = if_set g Symbol (v_symbol v) \<and> co_publishing ap' = co_publishing ap \<and> co_socket ap' = co_socket ap"
  using assms by (auto simp: co_update_entry_def update_vars_def write_log_def Let_def
      split: sum.splits option.splits prod.splits if_splits)

lemma co_update_entries_keep:
  "for_groups (co_update_entry E st) n gs (v, cur, lg, ap) = (r, v', cur', lg', ap') \<Longrightarrow>
    v_symbol v' \<in> {v_symbol v} \<union> (\<Union>g \<in> set gs. set_option (g Symbol)) \<and>
    co_publishing ap' = co_publishing ap \<and> co_socket ap' = co_socket ap"
proof (induction n gs arbitrary: v cur lg ap rule: list_induct_groups)
  case (3 n g gs)
  obtain q v1 cur1 lg1 ap1 where e: "co_update_entry E st g (v, cur, lg, ap) = (q, v1, cur1, lg1, ap1)"
    by (metis prod.exhaust)
  note k = co_update_entry_keeps [OF e]
  have sym: "v_symbol v1 \<in> {v_symbol v} \<union> set_option (g Symbol)"
    using k by (simp add: if_set_def split: option.splits)
  show ?case
  proof (cases q)
    case None
    then have "for_groups (co_update_entry E st) n gs (v1, cur1, lg1, ap1) = (r, v', cur', lg', ap')"
      using 3(2) e by simp
    then show ?thesis using 3(1) k sym by fastforce
  qed (use 3(2) e k sym in auto)
qed auto

lemma finish_sim:
  assumes "co_publishing ap \<longrightarrow> co_socket ap \<noteq> None \<and> (\<forall>s. get_string (v_symbol v) = Inr s \<longrightarrow> sizes_fit E s)"
  shows "broadcast_book (ce_md E) (co_publishing ap) v cur (md_of ap) = map_prod id md_of (co_finish E v cur lg ap)"
    and "fst (co_finish E v cur lg ap) \<noteq> Some NullStream"
proof -
  let ?mic = "\<lambda>s b. \<lparr>mb_symbol = s, mb_bid_price = bestPrice BID b, mb_ask_price = bestPrice ASK b,
                  mb_bid_size = bestPriceVolume BID b, mb_ask_size = bestPriceVolume ASK b,
                  mb_venue_id = cc_venue_id (co_cfg ap)\<rparr>"
  have fit: "ce_size E (?mic s b) < 256" "me_size (ce_md E) (bbo_of_mic (?mic s b)) < MAX_MSG_SIZE"
    if "co_publishing ap" "get_string (v_symbol v) = Inr s" for s b
    using assms that by (auto simp: sizes_fit_def)
  show "broadcast_book (ce_md E) (co_publishing ap) v cur (md_of ap) = map_prod id md_of (co_finish E v cur lg ap)"
    "fst (co_finish E v cur lg ap) \<noteq> Some NullStream"
    using fit assms
    by (auto simp: never broadcast_book_def book_in_hand_def co_finish_def co_publish_def broadcast_bbo_book_def
        bbo_of_mic_def Let_def split: option.splits sum.splits)
qed

lemma incremental_sim:
  assumes "publishes E m ap" "covered ap"
  shows "incremental_update (ce_md E) m (md_of ap) = map_prod id md_of (incremental_update_template E m ap) \<and>
    fst (incremental_update_template E m ap) \<noteq> Some NullStream"
proof (cases "\<exists>st nv n. fm_header m SendingTime = Some st \<and> fm_body m NoMDEntries = Some nv \<and> get_int nv = Inr n")
  case True
  then obtain st nv n where h: "fm_header m SendingTime = Some st" "fm_body m NoMDEntries = Some nv" "get_int nv = Inr n"
    by blast
  let ?v = "init_vars\<lparr>v_symbol := if_set (fm_body m) Symbol FEmpty\<rparr>"
  let ?f = "for_groups (co_update_entry (ce_md E) st) (nat n) (groups_of NoMDEntries m) (?v, None, None, ap)"
  have sim: "for_groups (update_entry (ce_md E) st) (nat n) (groups_of NoMDEntries m) (handler_entry (?v, None, None, ap))
      = map_prod id handler_entry ?f \<and> covered_entry (snd ?f) \<and> fst ?f \<noteq> Some NullStream"
    by (rule for_groups_sim [where P = covered_entry], rule update_entry_sim)
      (use assms(2) in \<open>simp_all add: covered_entry_def\<close>)
  obtain r v' cur lg ap' where f: "?f = (r, v', cur, lg, ap')" by (metis prod.exhaust)
  note k = co_update_entries_keep [OF f]
  have "get_string (v_symbol v') = Inr s \<Longrightarrow> s \<in> message_symbols m" for s
    using k by (auto simp: message_symbols_def if_set_def split: option.splits)
  then have fin: "co_publishing ap' \<longrightarrow> co_socket ap' \<noteq> None \<and> (\<forall>s. get_string (v_symbol v') = Inr s \<longrightarrow> sizes_fit E s)"
    using assms(1) k by (auto simp: publishes_def)
  have "covered ap'" "r \<noteq> Some NullStream" using sim by (simp_all add: f covered_entry_def)
  then show ?thesis
    using sim h finish_sim [OF fin, where cur = cur and lg = lg]
    by (cases r) (simp_all add: f handler_entry_def incremental_update_def incremental_update_template_def Let_def)
next
  case False
  then show ?thesis
    using False assms(2)
    by (auto simp: never incremental_update_def incremental_update_template_def split: option.splits sum.splits)
qed

end
