(* ===== verification/CollectorFeed.thy ===== *)
theory CollectorFeed
  imports CollectorSim
begin

text \<open>
  What the collector does with a feed. The specification is that of \<^verbatim>\<open>MdParserCorrect\<close>, the quotes
  of every symbol by the texts of their ids, with every update leaving a line in the log of its symbol.
  For the exchange a snapshot replaces the quotes of its symbol; the collector adds its quotes to those
  there are, which is the same as long as there are none.
\<close>

section \<open>The specification\<close>

text \<open>The lines of a log without their times; \<open>FBook\<close> are the quotes of the symbol.\<close>

datatype log_fact = FAdd side dbl dbl | FMod side dbl dbl | FDel side dbl dbl | FBook quotes

fun line_is :: "string set \<Rightarrow> log_line \<Rightarrow> log_fact \<Rightarrow> bool" where
  "line_is I (LogAdd s sz p t) (FAdd s' sz' p') = (s = s' \<and> sz = sz' \<and> p = p')"
| "line_is I (LogMod s sz p t) (FMod s' sz' p') = (s = s' \<and> sz = sz' \<and> p = p')"
| "line_is I (LogDel s sz p t) (FDel s' sz' p') = (s = s' \<and> sz = sz' \<and> p = p')"
| "line_is I (LogBook b) (FBook m) = kbook.tracks I b m"
| "line_is I _ _ = False"

text \<open>The lines of an operation: \<open>new\<close> tells a new entry from a replacement. The quote that a new
  entry replaces is not logged; a change is logged with the side and price of the live quote.\<close>

fun op_facts :: "bool \<Rightarrow> quote_op \<Rightarrow> quotes \<Rightarrow> log_fact list" where
  "op_facts new (QReplace r i s sz p) m = [if new then FAdd s sz p else FMod s sz p]"
| "op_facts new (QResize i sz) m = (case m i of None \<Rightarrow> [] | Some (s, p, _) \<Rightarrow> [FMod s sz p])"
| "op_facts new (QDelete i) m = (case m i of None \<Rightarrow> [] | Some (s, p, sz) \<Rightarrow> [FDel s sz p])"
| "op_facts new (QNew i s sz p) m = []"

fun co_feed_run :: "(string \<times> bool \<times> quote_op) list \<Rightarrow> feed \<Rightarrow> (feed \<times> (string \<times> log_fact) list) option" where
  "co_feed_run [] f = Some (f, [])"
| "co_feed_run ((k, new, q) # es) f = (case f k of
     None \<Rightarrow> None
   | Some m \<Rightarrow> (case q_step q m of
       None \<Rightarrow> None
     | Some m' \<Rightarrow> map_option (\<lambda>(f', xs). (f', map (Pair k) (op_facts new q m) @ xs)) (co_feed_run es (f(k \<mapsto> m')))))"

fun add_quotes :: "(string \<times> string \<times> side \<times> dbl \<times> dbl) list \<Rightarrow> feed \<Rightarrow> feed option" where
  "add_quotes [] f = Some f"
| "add_quotes ((k, i, s, sz, p) # qs) f = (case f k of
     None \<Rightarrow> add_quotes qs f
   | Some m \<Rightarrow> (case put_quote i s sz p m of None \<Rightarrow> None | Some m' \<Rightarrow> add_quotes qs (f(k \<mapsto> m'))))"

datatype co_event =
    CoQuotes "(string \<times> string \<times> side \<times> dbl \<times> dbl) list"
  | CoUpdates "(string \<times> bool \<times> quote_op) list"

fun co_event_ids :: "co_event \<Rightarrow> string set" where
  "co_event_ids (CoQuotes qs) = (\<lambda>q. fst (snd q)) ` set qs"
| "co_event_ids (CoUpdates es) = (\<Union>e \<in> set es. q_ids (snd (snd e)))"

definition mic_of :: "int \<Rightarrow> string \<Rightarrow> quotes \<Rightarrow> mic_bbo" where
  "mic_of vid k m = \<lparr>mb_symbol = k, mb_bid_price = best_quote BID m, mb_ask_price = best_quote ASK m,
     mb_bid_size = best_volume BID m, mb_ask_size = best_volume ASK m, mb_venue_id = vid\<rparr>"

text \<open>What a message does to the quotes in the collector, what it publishes and what it logs.\<close>

fun co_event_step ::
  "int \<Rightarrow> bool \<Rightarrow> bool \<Rightarrow> co_event \<Rightarrow> feed \<Rightarrow> (feed \<times> mic_bbo list \<times> (string \<times> log_fact) list) option" where
  "co_event_step vid pub lg (CoQuotes qs) f = map_option (\<lambda>f'. (f', [], [])) (add_quotes qs f)"
| "co_event_step vid pub lg (CoUpdates es) f =
     (if es = [] then None else case co_feed_run es f of
        None \<Rightarrow> None
      | Some (f', xs) \<Rightarrow> (let k = fst (last es); m = the (f' k) in
          Some (f', if pub then [mic_of vid k m] else [], if lg then xs @ [(k, FBook m)] else [])))"

fun co_event_run ::
  "int \<Rightarrow> bool \<Rightarrow> bool \<Rightarrow> co_event list \<Rightarrow> feed \<Rightarrow> (feed \<times> mic_bbo list \<times> (string \<times> log_fact) list) option" where
  "co_event_run vid pub lg [] f = Some (f, [], [])"
| "co_event_run vid pub lg (ev # evs) f = (case co_event_step vid pub lg ev f of
     None \<Rightarrow> None
   | Some (f', out, xs) \<Rightarrow> map_option (\<lambda>(f'', outs, ys). (f'', out @ outs, xs @ ys)) (co_event_run vid pub lg evs f'))"

text \<open>What a message does to the quotes of the exchange, for whom a snapshot is a full refresh: it replaces
  the quotes of every symbol that it lists quotes for.\<close>

definition full_quotes :: "(string \<times> string \<times> side \<times> dbl \<times> dbl) list \<Rightarrow> feed \<Rightarrow> feed option" where
  "full_quotes qs f = add_quotes qs (\<lambda>k. if f k \<noteq> None \<and> k \<in> fst ` set qs then Some Map.empty else f k)"

fun full_event_step ::
  "int \<Rightarrow> bool \<Rightarrow> bool \<Rightarrow> co_event \<Rightarrow> feed \<Rightarrow> (feed \<times> mic_bbo list \<times> (string \<times> log_fact) list) option" where
  "full_event_step vid pub lg (CoQuotes qs) f =
     (if qs = [] then None else map_option (\<lambda>f'. (f', [], [])) (full_quotes qs f))"
| "full_event_step vid pub lg (CoUpdates es) f = co_event_step vid pub lg (CoUpdates es) f"

fun full_event_run ::
  "int \<Rightarrow> bool \<Rightarrow> bool \<Rightarrow> co_event list \<Rightarrow> feed \<Rightarrow> (feed \<times> mic_bbo list \<times> (string \<times> log_fact) list) option" where
  "full_event_run vid pub lg [] f = Some (f, [], [])"
| "full_event_run vid pub lg (ev # evs) f = (case full_event_step vid pub lg ev f of
     None \<Rightarrow> None
   | Some (f', out, xs) \<Rightarrow> map_option (\<lambda>(f'', outs, ys). (f'', out @ outs, xs @ ys)) (full_event_run vid pub lg evs f'))"

text \<open>No snapshot comes for a symbol with live quotes, so that none can withdraw one.\<close>

fun withdraws_none :: "int \<Rightarrow> bool \<Rightarrow> bool \<Rightarrow> co_event list \<Rightarrow> feed \<Rightarrow> bool" where
  "withdraws_none vid pub lg [] f = True"
| "withdraws_none vid pub lg (ev # evs) f =
     ((case ev of CoQuotes qs \<Rightarrow> list_all (\<lambda>q. case f (fst q) of None \<Rightarrow> True | Some m \<Rightarrow> m = Map.empty) qs | CoUpdates es \<Rightarrow> True) \<and>
      (case full_event_step vid pub lg ev f of None \<Rightarrow> True | Some (f', _, _) \<Rightarrow> withdraws_none vid pub lg evs f'))"

lemma full_quotes_empty:
  "list_all (\<lambda>q. case f (fst q) of None \<Rightarrow> True | Some m \<Rightarrow> m = Map.empty) qs \<Longrightarrow> full_quotes qs f = add_quotes qs f"
  unfolding full_quotes_def
  by (intro arg_cong [where f = "add_quotes qs"] ext) (fastforce simp: list_all_iff split: option.splits)

text \<open>Then the collector, which only adds, does what the exchange says.\<close>

lemma full_run_adds:
  "withdraws_none vid pub lg evs f \<Longrightarrow> full_event_run vid pub lg evs f = Some r \<Longrightarrow>
    co_event_run vid pub lg evs f = Some r"
proof (induction evs arbitrary: f r)
  case (Cons ev evs)
  obtain f1 out1 xs1 where st: "full_event_step vid pub lg ev f = Some (f1, out1, xs1)"
    using Cons.prems(2) by (auto split: option.splits)
  have "co_event_step vid pub lg ev f = Some (f1, out1, xs1)"
    using Cons.prems(1) st full_quotes_empty by (cases ev) (auto split: if_splits)
  moreover have "withdraws_none vid pub lg evs f1" using Cons.prems(1) st by simp
  ultimately show ?case using Cons.IH [of f1] Cons.prems(2) st by auto
qed simp

text \<open>On a snapshot of one symbol this is the market data handler's specification.\<close>

lemma add_quotes_symbol:
  "f k = Some q \<Longrightarrow> add_quotes (map (Pair k) qs) f = map_option (\<lambda>m. f(k \<mapsto> m)) (put_quotes qs q)"
proof (induction qs arbitrary: f q)
  case (Cons e qs)
  obtain i s sz p where "e = (i, s, sz, p)" by (metis prod.exhaust)
  then show ?case
    using Cons.prems by (simp add: Cons.IH [OF fun_upd_same] del: fun_upd_apply split: option.splits)
qed (simp add: fun_upd_idem)

lemma full_quotes_handler:
  assumes "f k \<noteq> None" "qs \<noteq> []"
  shows "full_quotes (map (Pair k) qs) f = map_option fst (event_step cfg (Snapshot k j qs) f)"
proof -
  have "k \<in> fst ` set (map (Pair k) qs)" using assms(2) by (cases qs) auto
  then have "(\<lambda>i. if f i \<noteq> None \<and> i \<in> fst ` set (map (Pair k) qs) then Some Map.empty else f i) = f(k \<mapsto> Map.empty)"
    using assms(1) by (auto simp: fun_eq_iff)
  then show ?thesis
    using assms add_quotes_symbol [of "f(k \<mapsto> Map.empty)" k Map.empty qs]
    by (simp add: full_quotes_def split: option.splits del: image_set set_map)
qed

text \<open>What the messages say.\<close>

definition is_new :: "md_vars \<Rightarrow> bool" where
  "is_new v \<longleftrightarrow> get_char (v_action v) = Inr MDUpdateAction_NEW"

fun co_read_entries :: "fields list \<Rightarrow> md_vars \<Rightarrow> ((string \<times> bool \<times> quote_op) list \<times> md_vars) option" where
  "co_read_entries [] v = Some ([], v)"
| "co_read_entries (g # gs) v = (let v1 = update_vars g v in
     case read_entry True g v1 of None \<Rightarrow> None
     | Some (k, q) \<Rightarrow> map_option (\<lambda>(es, v'). ((k, is_new v1, q) # es, v')) (co_read_entries gs v1))"

fun co_read_quotes ::
  "(fields \<Rightarrow> md_vars \<Rightarrow> md_vars) \<Rightarrow> fields list \<Rightarrow> md_vars \<Rightarrow> (string \<times> string \<times> side \<times> dbl \<times> dbl) list option" where
  "co_read_quotes read [] v = Some []"
| "co_read_quotes read (g # gs) v = (let v1 = read g v in
     case (get_string (v_symbol v1), read_quote v1) of
       (Inr k, Some q) \<Rightarrow> map_option (\<lambda>qs. (k, q) # qs) (co_read_quotes read gs v1)
     | _ \<Rightarrow> None)"

definition co_read_message :: "('tm, 'dt, 't) md_env \<Rightarrow> string \<Rightarrow> co_message \<Rightarrow> co_event option" where
  "co_read_message E version msg = (case msg of
     CoSnapshot m \<Rightarrow>
       (if \<not> well_framed E m then None
        else if version = ''FIX.4.2'' then
          map_option CoQuotes (co_read_quotes snap_vars42 (groups_of NoMDEntries m) (body_vars m))
        else if version \<in> {''FIX.4.3'', ''FIX.4.4''} \<and> fm_body m MDReqID \<noteq> None \<and> fm_body m Symbol \<noteq> None then
          map_option CoQuotes (co_read_quotes snap_vars (groups_of NoMDEntries m) (body_vars m))
        else None)
   | CoIncremental m \<Rightarrow>
       (if well_framed E m \<and> version \<in> {''FIX.4.2'', ''FIX.4.3'', ''FIX.4.4''}
        then map_option (\<lambda>(es, v). CoUpdates es) (co_read_entries (groups_of NoMDEntries m) (body_vars m))
        else None)
   | _ \<Rightarrow> None)"

section \<open>Logs\<close>

text \<open>Between two states the file of every path has grown by the lines of the symbols that are logged
  there, in their order.\<close>

definition logged :: "string set \<Rightarrow> co_app \<Rightarrow> co_app \<Rightarrow> (string \<times> log_fact) list \<Rightarrow> bool" where
  "logged I ap ap' xs \<longleftrightarrow> (\<forall>k. getStream k ap' = getStream k ap) \<and>
     (\<forall>path. \<exists>ls. file_lines path ap' = file_lines path ap @ ls \<and>
        list_all2 (line_is I) ls (map snd (filter (\<lambda>x. getStream (fst x) ap = Some path) xs)))"

lemma logged_refl: "(\<And>k. getStream k ap' = getStream k ap) \<Longrightarrow> co_files ap' = co_files ap \<Longrightarrow> logged I ap ap' []"
  by (auto simp: logged_def file_lines_def)

lemma logged_trans:
  assumes "logged I ap ap1 xs" "logged I ap1 ap2 ys"
  shows "logged I ap ap2 (xs @ ys)"
  unfolding logged_def
proof (intro conjI allI)
  show "getStream k ap2 = getStream k ap" for k using assms by (simp add: logged_def)
  fix path
  have s: "getStream k ap1 = getStream k ap" for k using assms(1) by (simp add: logged_def)
  obtain ls1 where 1: "file_lines path ap1 = file_lines path ap @ ls1"
    "list_all2 (line_is I) ls1 (map snd (filter (\<lambda>x. getStream (fst x) ap = Some path) xs))"
    using assms(1) by (auto simp: logged_def)
  obtain ls2 where 2: "file_lines path ap2 = file_lines path ap1 @ ls2"
    "list_all2 (line_is I) ls2 (map snd (filter (\<lambda>x. getStream (fst x) ap = Some path) ys))"
    using assms(2) unfolding logged_def s by blast
  show "\<exists>ls. file_lines path ap2 = file_lines path ap @ ls \<and>
      list_all2 (line_is I) ls (map snd (filter (\<lambda>x. getStream (fst x) ap = Some path) (xs @ ys)))"
    using 1 2 list_all2_appendI [OF 1(2) 2(2)] by auto
qed

lemma file_lines_append [simp]:
  "file_lines path (append_lines path' ls ap) = (if path = path' then file_lines path ap @ ls else file_lines path ap)"
  by (auto simp: file_lines_def append_lines_def)

lemma file_lines_simps [simp]:
  "file_lines path (co_addBook k b ap) = file_lines path ap" "file_lines path (ap\<lparr>co_clock := n\<rparr>) = file_lines path ap"
  "file_lines path (ap\<lparr>co_bcast := bs\<rparr>) = file_lines path ap"
  by (simp_all add: file_lines_def co_addBook_def)

lemma logged_append:
  assumes "getStream k ap = Some path" "list_all2 (line_is I) ls xs"
    "\<And>j. getStream j ap' = getStream j ap" "\<And>p. file_lines p ap' = file_lines p (append_lines path ls ap)"
  shows "logged I ap ap' (map (Pair k) xs)"
  using assms by (auto simp: logged_def filter_map comp_def)

section \<open>Updates\<close>

definition co_same :: "co_app \<Rightarrow> co_app \<Rightarrow> bool" where
  "co_same ap ap' \<longleftrightarrow> co_cfg ap' = co_cfg ap \<and> co_logging ap' = co_logging ap \<and> co_publishing ap' = co_publishing ap \<and>
     co_socket ap' = co_socket ap"

definition if_logging :: "co_app \<Rightarrow> 'a list \<Rightarrow> 'a list" where
  "if_logging ap xs = (if co_logging ap then xs else [])"

lemma tracks_order:
  assumes "kbook.tracks I b m" "i \<in> I"
  shows "m i = map_option (\<lambda>d. (ordSide d, ordPrice d, ordSize d)) (getOrder (entry_hash i) b)"
  using tracks_view [OF assms] by (simp add: abs_book_def getOrder_def option.map_comp comp_def)

lemma co_apply_line:
  assumes "inj_on entry_hash I" "kbook.tracks I b m" "read_entry True g v = Some (k, q)" "q_ids q \<subseteq> I" "q_step q m = Some m'"
  shows "\<exists>b' ls. co_apply_update E g v t xt b = Inr (b', ls) \<and> kbook.tracks I b' m' \<and>
    list_all2 (line_is I) ls (op_facts (is_new v) q m)"
proof -
  obtain b' where b': "apply_update E True g v t xt b = Inr b'" "kbook.tracks I b' m'"
    using apply_q_tracks [OF assms(1,2) apply_update_read(2) [OF assms(3)] assms(4,5)]
    by (auto simp: apply_update_read(1) [OF assms(3)])
  then obtain ls where ls: "co_apply_update E g v t xt b = Inr (b', ls)"
    by (cases "co_apply_update E g v t xt b") (auto simp: co_apply_md)
  have "list_all2 (line_is I) ls (op_facts (is_new v) q m)"
    using ls assms(3,4) tracks_order [OF assms(2)]
    by (auto simp: read_entry_def co_apply_update_def is_new_def md_hash_text co_apply_new_def co_apply_rename_def
        co_apply_change_def co_apply_delete_def bnd_defined Let_def md_chars
        split: sum.splits if_splits option.splits)
  then show ?thesis using ls b'(2) by blast
qed

lemma co_update_entry_feed:
  assumes "inj_on entry_hash I" "feed_rel I (md_of ap) f" "covered ap" "send_time E st = Inr xt"
    "read_entry True g (update_vars g v) = Some (k, q)" "q_ids q \<subseteq> I" "f k = Some m" "q_step q m = Some m'"
  shows "\<exists>ap'. co_update_entry E st g (v, cur, lg, ap) = (None, update_vars g v, Some k, getStream k ap, ap') \<and>
    feed_rel I (md_of ap') (f(k \<mapsto> m')) \<and> covered ap' \<and> co_same ap ap' \<and> co_bcast ap' = co_bcast ap \<and>
    logged I ap ap' (if_logging ap (map (Pair k) (op_facts (is_new (update_vars g v)) q m)))"
proof -
  obtain b where b: "co_getBook k ap = Some b" "kbook.tracks I b m"
    using feed_rel_book [OF assms(2,7)] by auto
  obtain b' ls where b': "co_apply_update E g (update_vars g v) (me_clk E (co_clock ap)) xt b = Inr (b', ls)"
    "kbook.tracks I b' m'" "list_all2 (line_is I) ls (op_facts (is_new (update_vars g v)) q m)"
    using co_apply_line [OF assms(1) b(2) assms(5,6,8)] by blast
  obtain path where p: "getStream k ap = Some path" using assms(3) b(1) by (auto simp: covered_def)
  let ?ap1 = "co_addBook k b' (ap\<lparr>co_clock := co_clock ap + 1\<rparr>)"
  let ?ap2 = "if co_logging ap \<and> ls \<noteq> [] then append_lines path ls ?ap1 else ?ap1"
  have f: "feed_rel I (md_of ?ap2) (f(k \<mapsto> m'))"
    using feed_rel_addBook [OF _ b'(2), of "md_of (ap\<lparr>co_clock := co_clock ap + 1\<rparr>)" f k] assms(2)
    by (simp flip: md_of_simps(7))
  have c: "covered ?ap2" using assms(3) p by (simp add: covered_addBook)
  have l: "logged I ap ?ap2 (if_logging ap (map (Pair k) (op_facts (is_new (update_vars g v)) q m)))"
  proof (cases "co_logging ap")
    case True
    then show ?thesis
      by (simp only: if_logging_def if_True, intro logged_append [OF p b'(3)]) auto
  qed (simp add: if_logging_def logged_def)
  have "co_update_entry E st g (v, cur, lg, ap) = (None, update_vars g v, Some k, getStream k ap, ?ap2)"
    using b(1) b'(1) p assms(4) apply_update_read(3) [OF assms(5)]
    by (simp add: co_update_entry_def Let_def)
  moreover have "co_same ap ?ap2" "co_bcast ?ap2 = co_bcast ap" by (simp_all add: co_same_def)
  ultimately show ?thesis using f c l by blast
qed

definition co_last :: "string option \<Rightarrow> (string \<times> bool \<times> quote_op) list \<Rightarrow> string option" where
  "co_last cur es = (if es = [] then cur else Some (fst (last es)))"

lemma co_last_simps [simp]: "co_last cur [] = cur" "co_last cur ((k, e) # es) = co_last (Some k) es"
  by (simp_all add: co_last_def)

lemma co_update_entries_feed:
  assumes "inj_on entry_hash I" "send_time E st = Inr xt"
  shows "feed_rel I (md_of ap) f \<Longrightarrow> covered ap \<Longrightarrow> co_read_entries gs v = Some (es, v') \<Longrightarrow>
    (\<Union>e \<in> set es. q_ids (snd (snd e))) \<subseteq> I \<Longrightarrow> co_feed_run es f = Some (f', xs) \<Longrightarrow>
    lg = Option.bind cur (\<lambda>k. getStream k ap) \<Longrightarrow>
    \<exists>ap'. for_groups (co_update_entry E st) (length gs) gs (v, cur, lg, ap) =
        (None, v', co_last cur es, Option.bind (co_last cur es) (\<lambda>k. getStream k ap'), ap') \<and>
      feed_rel I (md_of ap') f' \<and> covered ap' \<and> co_same ap ap' \<and> co_bcast ap' = co_bcast ap \<and>
      logged I ap ap' (if_logging ap xs)"
proof (induction gs arbitrary: es v f cur lg ap xs)
  case Nil
  then show ?case by (auto simp: co_same_def if_logging_def logged_refl)
next
  case (Cons g gs)
  let ?v = "update_vars g v"
  obtain k q es1 where e: "es = (k, is_new ?v, q) # es1" "read_entry True g ?v = Some (k, q)"
    "co_read_entries gs ?v = Some (es1, v')"
    using Cons.prems(3) by (auto simp: Let_def split: option.splits prod.splits)
  obtain m m' ys where m: "f k = Some m" "q_step q m = Some m'" "co_feed_run es1 (f(k \<mapsto> m')) = Some (f', ys)"
    "xs = map (Pair k) (op_facts (is_new ?v) q m) @ ys"
    using Cons.prems(5) by (auto simp: e split: option.splits)
  have ids: "q_ids q \<subseteq> I" "(\<Union>e \<in> set es1. q_ids (snd (snd e))) \<subseteq> I" using Cons.prems(4) by (auto simp: e)
  obtain ap1 where ap1: "co_update_entry E st g (v, cur, lg, ap) = (None, ?v, Some k, getStream k ap, ap1)"
    "feed_rel I (md_of ap1) (f(k \<mapsto> m'))" "covered ap1" "co_same ap ap1" "co_bcast ap1 = co_bcast ap"
    "logged I ap ap1 (if_logging ap (map (Pair k) (op_facts (is_new ?v) q m)))"
    using co_update_entry_feed [OF assms(1) Cons.prems(1,2) assms(2) e(2) ids(1) m(1,2)] by blast
  have s: "getStream k ap = Option.bind (Some k) (\<lambda>k. getStream k ap1)"
    using ap1(6) by (simp add: logged_def)
  obtain ap2 where ap2: "for_groups (co_update_entry E st) (length gs) gs (?v, Some k, getStream k ap, ap1) =
        (None, v', co_last (Some k) es1, Option.bind (co_last (Some k) es1) (\<lambda>k. getStream k ap2), ap2)"
    "feed_rel I (md_of ap2) f'" "covered ap2" "co_same ap1 ap2" "co_bcast ap2 = co_bcast ap1"
    "logged I ap1 ap2 (if_logging ap1 ys)"
    using Cons.IH [OF ap1(2,3) e(3) ids(2) m(3) s] by blast
  have "logged I ap ap2 (if_logging ap xs)"
    using logged_trans [OF ap1(6) ap2(6)] ap1(4) by (auto simp: m(4) if_logging_def co_same_def)
  then show ?case using ap1 ap2 by (auto simp: e(1) co_same_def)
qed

lemma co_read_entries_symbol:
  "co_read_entries gs v = Some (es, v') \<Longrightarrow> es \<noteq> [] \<Longrightarrow> get_string (v_symbol v') = Inr (fst (last es))"
proof (induction gs arbitrary: es v)
  case (Cons g gs)
  obtain k q es1 where e: "es = (k, is_new (update_vars g v), q) # es1" "read_entry True g (update_vars g v) = Some (k, q)"
    "co_read_entries gs (update_vars g v) = Some (es1, v')"
    using Cons.prems(1) by (auto simp: Let_def split: option.splits prod.splits)
  show ?case
    using e Cons.IH [OF e(3)] apply_update_read(3) [OF e(2)]
    by (cases gs; cases "es1 = []") (auto simp: Let_def split: option.splits)
qed simp

lemma co_feed_run_last: "co_feed_run es f = Some (f', xs) \<Longrightarrow> es \<noteq> [] \<Longrightarrow> \<exists>m. f' (fst (last es)) = Some m"
proof -
  have keep: "co_feed_run es f = Some (f', xs) \<Longrightarrow> f k \<noteq> None \<Longrightarrow> f' k \<noteq> None" for es f f' xs k
    by (induction es f arbitrary: xs rule: co_feed_run.induct) (auto split: option.splits if_splits)
  assume "co_feed_run es f = Some (f', xs)" "es \<noteq> []"
  then show ?thesis
  proof (induction es f arbitrary: xs rule: co_feed_run.induct)
    case (2 k new q es f)
    then obtain m m' ys where m: "f k = Some m" "q_step q m = Some m'" "co_feed_run es (f(k \<mapsto> m')) = Some (f', ys)"
      by (auto split: option.splits)
    show ?case using 2(1) [OF m] keep [OF m(3), of k] by (cases "es = []") (use m(3) in auto)
  qed simp
qed

lemma co_finish_feed:
  assumes "inj_on entry_hash I" "feed_rel I (md_of ap) f" "covered ap" "f k = Some m" "get_string (v_symbol v) = Inr k"
    "co_publishing ap \<longrightarrow> co_socket ap \<noteq> None \<and> ce_size E (mic_of (cc_venue_id (co_cfg ap)) k m) < 256"
  shows "\<exists>ap'. co_finish E v (Some k) (getStream k ap) ap = (None, ap') \<and> feed_rel I (md_of ap') f \<and> covered ap' \<and>
    co_same ap ap' \<and>
    co_bcast ap' = co_bcast ap @ (if co_publishing ap then [mic_of (cc_venue_id (co_cfg ap)) k m] else []) \<and>
    logged I ap ap' (if_logging ap [(k, FBook m)])"
proof -
  obtain b where b: "co_getBook k ap = Some b" "kbook.tracks I b m"
    using feed_rel_book [OF assms(2,4)] by auto
  obtain path where p: "getStream k ap = Some path" using assms(3) b(1) by (auto simp: covered_def)
  let ?ap1 = "if co_publishing ap then ap\<lparr>co_bcast := co_bcast ap @ [mic_of (cc_venue_id (co_cfg ap)) k m]\<rparr> else ap"
  let ?ap2 = "if co_logging ap then append_lines path [LogBook b] ?ap1 else ?ap1"
  have pub: "co_publish E v b ap = (None, ?ap1)"
    using tracks_best [OF assms(1) b(2)] assms(5,6) by (auto simp: co_publish_def mic_of_def Let_def)
  have l: "logged I ap ?ap2 (if_logging ap [(k, FBook m)])"
  proof (cases "co_logging ap")
    case True
    then show ?thesis
      using b(2) logged_append [OF p, where ls = "[LogBook b]" and xs = "[FBook m]" and I = I and ap' = ?ap2]
      by (auto simp: if_logging_def)
  qed (simp add: if_logging_def logged_def)
  have r: "co_finish E v (Some k) (getStream k ap) ap = (None, ?ap2)"
    using b(1) p pub by (simp add: co_finish_def)
  have "feed_rel I (md_of ?ap2) f" "covered ?ap2" "co_same ap ?ap2"
    "co_bcast ?ap2 = co_bcast ap @ (if co_publishing ap then [mic_of (cc_venue_id (co_cfg ap)) k m] else [])"
    using assms(2,3) by (auto simp: co_same_def)
  then show ?thesis using r l by blast
qed

section \<open>Snapshots\<close>

definition untouched :: "co_app \<Rightarrow> co_app \<Rightarrow> bool" where
  "untouched ap ap' \<longleftrightarrow> co_same ap ap' \<and> co_bcast ap' = co_bcast ap \<and> co_files ap' = co_files ap \<and>
     co_streams ap' = co_streams ap"

lemma untouched_refl [simp]: "untouched ap ap"
  by (simp add: untouched_def co_same_def)

lemma untouched_trans: "untouched a b \<Longrightarrow> untouched b c \<Longrightarrow> untouched a c"
  by (simp add: untouched_def co_same_def)

lemma untouched_logged: "untouched ap ap' \<Longrightarrow> logged I ap ap' []"
  by (simp add: untouched_def getStream_def logged_refl)

lemma add_snapshot_feed:
  assumes "inj_on entry_hash I" "feed_rel I (md_of ap) f" "covered ap" "send_time E st = Inr xt"
    "get_string (v_symbol v) = Inr k" "read_quote v = Some (i, s, sz, p)" "i \<in> I"
    "add_quotes [(k, i, s, sz, p)] f = Some f'"
  shows "\<exists>ap'. add_snapshot E st v ap = (None, ap') \<and> feed_rel I (md_of ap') f' \<and> covered ap' \<and> untouched ap ap'"
proof (cases "f k")
  case None
  then have "co_getBook k ap = None" using feed_rel_no_book [OF assms(2), of k] by simp
  then show ?thesis using None assms(2,3,5,8) by (simp add: add_snapshot_def)
next
  case (Some m)
  then obtain m' where m': "put_quote i s sz p m = Some m'" "f' = f(k \<mapsto> m')"
    using assms(8) by (auto split: option.splits)
  obtain b where b: "co_getBook k ap = Some b" "kbook.tracks I b m"
    using feed_rel_book [OF assms(2) Some] by auto
  note q = snapshot_quote_read [OF assms(4,6)]
  obtain r b' where b': "book_add (entry_hash i) s sz p (me_clk E (co_clock ap)) xt b = Some (r, b')"
    "kbook.tracks I b' m'"
    using kbook_tracks(1) [OF assms(1) b(2) assms(7) _ m'(1)] q by blast
  let ?ap = "co_addBook k b' (ap\<lparr>co_clock := co_clock ap + 1\<rparr>)"
  have "feed_rel I (md_of ?ap) f'"
    using feed_rel_addBook [OF _ b'(2), of "md_of (ap\<lparr>co_clock := co_clock ap + 1\<rparr>)" f k] assms(2)
    by (simp add: m'(2) flip: md_of_simps(7))
  moreover have "covered ?ap" using assms(3) b(1) by (auto simp: covered_def)
  moreover have "untouched ap ?ap" by (simp add: untouched_def co_same_def co_addBook_def)
  ultimately show ?thesis using b(1) b'(1) q assms(5) by (simp add: add_snapshot_def)
qed

lemma add_quotes_Cons:
  "add_quotes (q # qs) f = (case add_quotes [q] f of None \<Rightarrow> None | Some f' \<Rightarrow> add_quotes qs f')"
  by (cases q) (auto split: option.splits)

lemma snap_entries_feed:
  assumes "inj_on entry_hash I" "send_time E st = Inr xt"
  shows "feed_rel I (md_of ap) f \<Longrightarrow> covered ap \<Longrightarrow> co_read_quotes read gs v = Some qs \<Longrightarrow>
    (\<lambda>q. fst (snd q)) ` set qs \<subseteq> I \<Longrightarrow> add_quotes qs f = Some f' \<Longrightarrow>
    \<exists>ap' v'. for_groups (snap_entry read E st) (length gs) gs (v, ap) = (None, v', ap') \<and>
      feed_rel I (md_of ap') f' \<and> covered ap' \<and> untouched ap ap'"
proof (induction gs arbitrary: qs v f ap)
  case (Cons g gs)
  let ?v = "read g v"
  obtain k i s sz p qs1 where e: "qs = (k, i, s, sz, p) # qs1" "get_string (v_symbol ?v) = Inr k"
    "read_quote ?v = Some (i, s, sz, p)" "co_read_quotes read gs ?v = Some qs1"
    using Cons.prems(3) by (auto simp: Let_def split: option.splits sum.splits)
  obtain f1 where f1: "add_quotes [(k, i, s, sz, p)] f = Some f1" "add_quotes qs1 f1 = Some f'"
    using Cons.prems(5) add_quotes_Cons [of "(k, i, s, sz, p)" qs1 f] by (auto simp: e(1) split: option.splits)
  have ids: "i \<in> I" "(\<lambda>q. fst (snd q)) ` set qs1 \<subseteq> I" using Cons.prems(4) by (auto simp: e(1))
  obtain ap1 where ap1: "add_snapshot E st ?v ap = (None, ap1)" "feed_rel I (md_of ap1) f1" "covered ap1" "untouched ap ap1"
    using add_snapshot_feed [OF assms(1) Cons.prems(1,2) assms(2) e(2,3) ids(1) f1(1)] by blast
  obtain ap2 v' where "for_groups (snap_entry read E st) (length gs) gs (?v, ap1) = (None, v', ap2)"
    "feed_rel I (md_of ap2) f'" "covered ap2" "untouched ap1 ap2"
    using Cons.IH [OF ap1(2,3) e(4) ids(2) f1(2)] by blast
  moreover have "snap_entry read E st g (v, ap) = (None, ?v, ap1)" by (simp add: snap_entry_def ap1(1))
  ultimately show ?case using untouched_trans [OF ap1(4)] by auto
qed auto

section \<open>Messages\<close>

definition known_version :: "string \<Rightarrow> bool" where
  "known_version version \<longleftrightarrow> version \<in> {''FIX.4.2'', ''FIX.4.3'', ''FIX.4.4''}"

definition co_fits :: "('tm, 'dt, 't) co_env \<Rightarrow> mic_bbo list \<Rightarrow> bool" where
  "co_fits E out \<longleftrightarrow> (\<forall>b \<in> set out. ce_size E b < 256)"

text \<open>After a message the state follows the specification again.\<close>

definition co_follows ::
  "string set \<Rightarrow> co_app \<Rightarrow> md_stop option \<times> co_app \<Rightarrow> feed \<times> mic_bbo list \<times> (string \<times> log_fact) list \<Rightarrow> bool" where
  "co_follows I ap = (\<lambda>(r, ap') (f, out, xs). r = None \<and> feed_rel I (md_of ap') f \<and> covered ap' \<and> co_same ap ap' \<and>
     co_bcast ap' = co_bcast ap @ out \<and> logged I ap ap' xs)"

definition snapshot_of ::
  "string \<Rightarrow> ('tm, 'dt, 't) md_env \<Rightarrow> group_message \<Rightarrow> co_app \<Rightarrow> md_stop option \<times> co_app" where
  "snapshot_of version = (if version = ''FIX.4.2'' then snapshot42
     else if version = ''FIX.4.3'' then snapshot43 else snapshot44)"

lemma snapshot_feed:
  assumes "inj_on entry_hash I" "feed_rel I (md_of ap) f" "covered ap"
    "co_read_message (ce_md E) version (CoSnapshot m) = Some (CoQuotes qs)"
    "co_event_ids (CoQuotes qs) \<subseteq> I" "add_quotes qs f = Some f'"
  shows "co_follows I ap (co_crack E (snapshot_of version) (CoSnapshot m) ap) (f', [], [])"
proof -
  have w: "well_framed (ce_md E) m" using assms(4) by (auto simp: co_read_message_def split: if_splits)
  obtain st xt where st: "fm_header m SendingTime = Some st" "send_time (ce_md E) st = Inr xt"
    "fm_body m NoMDEntries = Some (FInt (int (length (groups_of NoMDEntries m))))"
    using well_framedE [OF w] .
  have n: "nat (entry_count (FInt (int k))) = k" for k by (simp add: entry_count_def get_int_def)
  have go: "co_follows I ap (drop_vars (for_groups (snap_entry read (ce_md E) st) (length (groups_of NoMDEntries m))
      (groups_of NoMDEntries m) (body_vars m, ap))) (f', [], [])"
    if r: "co_read_quotes read (groups_of NoMDEntries m) (body_vars m) = Some qs" for read
  proof -
    obtain ap' v' where "for_groups (snap_entry read (ce_md E) st) (length (groups_of NoMDEntries m))
        (groups_of NoMDEntries m) (body_vars m, ap) = (None, v', ap')" "feed_rel I (md_of ap') f'" "covered ap'"
      "untouched ap ap'"
      using snap_entries_feed [OF assms(1) st(2) assms(2,3) r] assms(5,6) by auto
    then show ?thesis by (auto simp: co_follows_def drop_vars_def untouched_logged) (simp_all add: untouched_def)
  qed
  consider "version = ''FIX.4.2''" "co_read_quotes snap_vars42 (groups_of NoMDEntries m) (body_vars m) = Some qs"
    | s i where "version = ''FIX.4.3'' \<or> version = ''FIX.4.4''" "fm_body m MDReqID = Some i" "fm_body m Symbol = Some s"
      "co_read_quotes snap_vars (groups_of NoMDEntries m) (body_vars m) = Some qs"
    using assms(4) by (auto simp: co_read_message_def split: if_splits)
  then show ?thesis
  proof cases
    case 1
    then show ?thesis
      using go [OF 1(2)] st by (simp add: co_crack_def snapshot_of_def snapshot42_def n flip: body_vars_def)
  next
    case 2
    have b: "body_vars m = init_vars\<lparr>v_symbol := s\<rparr>" by (simp add: body_vars_def 2 if_set_def)
    show ?thesis
      using go [OF 2(4)] st 2(1-3) by (auto simp: co_crack_def snapshot_of_def snapshot43_def snapshot44_def n b)
  qed
qed

lemma co_incremental_feed:
  assumes "inj_on entry_hash I" "feed_rel I (md_of ap) f" "covered ap" "well_framed (ce_md E) m"
    "co_read_entries (groups_of NoMDEntries m) (body_vars m) = Some (es, v')"
    "co_event_ids (CoUpdates es) \<subseteq> I"
    "co_event_step (cc_venue_id (co_cfg ap)) (co_publishing ap) (co_logging ap) (CoUpdates es) f = Some (f', out, xs)"
    "co_fits E out" "out = [] \<or> co_socket ap \<noteq> None"
  shows "co_follows I ap (incremental_update_template E m ap) (f', out, xs)"
proof -
  obtain st xt where st: "fm_header m SendingTime = Some st" "send_time (ce_md E) st = Inr xt"
    "fm_body m NoMDEntries = Some (FInt (int (length (groups_of NoMDEntries m))))"
    using well_framedE [OF assms(4)] .
  obtain ys where e: "es \<noteq> []" "co_feed_run es f = Some (f', ys)"
    "out = (if co_publishing ap then [mic_of (cc_venue_id (co_cfg ap)) (fst (last es)) (the (f' (fst (last es))))] else [])"
    "xs = if_logging ap (ys @ [(fst (last es), FBook (the (f' (fst (last es)))))])"
    using assms(7) by (auto simp: Let_def if_logging_def split: if_splits option.splits)
  let ?k = "fst (last es)"
  obtain mq where mq: "f' ?k = Some mq" using co_feed_run_last [OF e(2,1)] by blast
  obtain ap1 where ap1: "for_groups (co_update_entry (ce_md E) st) (length (groups_of NoMDEntries m))
      (groups_of NoMDEntries m) (body_vars m, None, None, ap) = (None, v', Some ?k, getStream ?k ap1, ap1)"
    "feed_rel I (md_of ap1) f'" "covered ap1" "co_same ap ap1" "co_bcast ap1 = co_bcast ap"
    "logged I ap ap1 (if_logging ap ys)"
    using co_update_entries_feed [OF assms(1) st(2) assms(2,3,5) _ e(2), where cur = None and lg = None] e(1) assms(6)
    by (auto simp: co_last_def)
  have fit: "co_publishing ap1 \<longrightarrow> co_socket ap1 \<noteq> None \<and> ce_size E (mic_of (cc_venue_id (co_cfg ap1)) ?k mq) < 256"
    using assms(8,9) ap1(4) by (auto simp: co_fits_def e(3) mq co_same_def)
  obtain ap2 where ap2: "co_finish E v' (Some ?k) (getStream ?k ap1) ap1 = (None, ap2)" "feed_rel I (md_of ap2) f'"
    "covered ap2" "co_same ap1 ap2"
    "co_bcast ap2 = co_bcast ap1 @ (if co_publishing ap1 then [mic_of (cc_venue_id (co_cfg ap1)) ?k mq] else [])"
    "logged I ap1 ap2 (if_logging ap1 [(?k, FBook mq)])"
    using co_finish_feed [OF assms(1) ap1(2,3) mq co_read_entries_symbol [OF assms(5) e(1)] fit] by blast
  have "logged I ap ap2 xs"
    using logged_trans [OF ap1(6) ap2(6)] ap1(4) by (auto simp: e(4) mq if_logging_def co_same_def)
  then show ?thesis
    using st ap1 ap2
    by (auto simp: co_follows_def incremental_update_template_def body_vars_def [symmetric] get_int_def e(3) mq
        co_same_def Let_def)
qed

lemma feed_rel_count [simp]: "feed_rel I (md_of (ap\<lparr>co_appMsgCount := n\<rparr>)) f = feed_rel I (md_of ap) f"
  by (simp add: feed_rel_def co_getBook_def)

lemma count_fields [simp]:
  "getStream k (ap\<lparr>co_appMsgCount := n\<rparr>) = getStream k ap" "file_lines p (ap\<lparr>co_appMsgCount := n\<rparr>) = file_lines p ap"
  "covered (ap\<lparr>co_appMsgCount := n\<rparr>) = covered ap"
  by (simp_all add: getStream_def file_lines_def covered_def co_getBook_def)

lemma co_follows_count [simp]: "co_follows I (ap\<lparr>co_appMsgCount := n\<rparr>) = co_follows I ap"
  by (simp add: co_follows_def co_same_def logged_def fun_eq_iff)

lemma co_crack_feed:
  assumes "inj_on entry_hash I" "feed_rel I (md_of ap) f" "covered ap"
    "co_read_message (ce_md E) version msg = Some ev" "co_event_ids ev \<subseteq> I"
    "co_event_step (cc_venue_id (co_cfg ap)) (co_publishing ap) (co_logging ap) ev f = Some (f', out, xs)" "co_fits E out"
    "out = [] \<or> co_socket ap \<noteq> None"
  shows "co_follows I ap (co_crack E (snapshot_of version) msg ap) (f', out, xs) \<and> known_version version"
proof (cases msg)
  case (CoSnapshot m)
  then obtain qs where ev: "ev = CoQuotes qs" "known_version version"
    using assms(4) by (auto simp: co_read_message_def known_version_def split: if_splits)
  show ?thesis
    using snapshot_feed [OF assms(1-3), of E version m qs f'] assms(4-6) ev(2) by (auto simp: CoSnapshot ev(1))
next
  case (CoIncremental m)
  then obtain es v' where r: "well_framed (ce_md E) m" "known_version version" "ev = CoUpdates es"
    "co_read_entries (groups_of NoMDEntries m) (body_vars m) = Some (es, v')"
    using assms(4) by (auto simp: co_read_message_def known_version_def split: if_splits)
  show ?thesis
    using co_incremental_feed [OF assms(1-3) r(1,4), of f' out xs] assms(5-8) r(2,3)
    by (simp add: CoIncremental co_crack_def)
qed (use assms(4) in \<open>simp_all add: co_read_message_def\<close>)

lemma fromApp_crack:
  "known_version version \<Longrightarrow> co_fromApp E version msg ap = co_crack E (snapshot_of version) msg
     (if cc_printDebug (co_cfg ap) then ap else ap\<lparr>co_appMsgCount := co_appMsgCount ap + 1\<rparr>)"
  by (auto simp: co_fromApp_def snapshot_of_def known_version_def)

lemma co_fromApp_feed:
  assumes "inj_on entry_hash I" "feed_rel I (md_of ap) f" "covered ap"
    "co_read_message (ce_md E) version msg = Some ev" "co_event_ids ev \<subseteq> I"
    "co_event_step (cc_venue_id (co_cfg ap)) (co_publishing ap) (co_logging ap) ev f = Some (f', out, xs)" "co_fits E out"
    "out = [] \<or> co_socket ap \<noteq> None"
  shows "co_follows I ap (co_fromApp E version msg ap) (f', out, xs)"
  using co_crack_feed [OF assms] fromApp_crack [of version E msg ap]
    co_crack_feed [OF assms(1) _ _ assms(4,5) _ assms(7), of "ap\<lparr>co_appMsgCount := co_appMsgCount ap + 1\<rparr>" f f' xs]
    assms(2,3,6,8)
  by (cases "cc_printDebug (co_cfg ap)") simp_all

end
