(* ===== verification/CollectorCorrect.thy ===== *)
theory CollectorCorrect
  imports CollectorFeed
begin

text \<open>
  The properties of the collector: it agrees with the market data handler on incremental refreshes in
  every state it can reach, its books, publications and logs are those of the specification of
  \<^verbatim>\<open>CollectorFeed\<close>, a snapshot leaves withdrawn quotes in place, and a blank line in the list of
  symbols brings it down.
\<close>

section \<open>Reachable states\<close>

text \<open>The states after any set-up, logons, logouts and messages, whatever their results.\<close>

inductive co_reachable :: "('tm, 'dt, 't) co_env \<Rightarrow> co_app \<Rightarrow> bool" for E where
  Start: "co_reachable E (new_co_app reset cfg pub lg upd fs)"
| Symbols: "co_reachable E ap \<Longrightarrow> co_reachable E (co_addSymbols ss ap)"
| UpdateType: "co_reachable E ap \<Longrightarrow> co_reachable E (setUpdateType u ap)"
| DataPath: "co_reachable E ap \<Longrightarrow> co_reachable E (setDataPath p ap)"
| Socket: "co_reachable E ap \<Longrightarrow> co_reachable E (co_setZMQSocket addr ap)"
| Publishing: "co_reachable E ap \<Longrightarrow> co_reachable E (setPublishing x ap)"
| Logon: "co_reachable E ap \<Longrightarrow> co_reachable E (snd (co_onLogon E today sess ap))"
| Logout: "co_reachable E ap \<Longrightarrow> co_reachable E (co_onLogout ap)"
| TestRequest: "co_reachable E ap \<Longrightarrow> co_reachable E (snd (co_sendTestRequest ap))"
| Message: "co_reachable E ap \<Longrightarrow> co_reachable E (snd (co_fromApp E version msg ap))"

lemma covered_fields [simp]:
  "covered (ap\<lparr>co_symbols := ss\<rparr>) = covered ap" "covered (ap\<lparr>co_update_type := u\<rparr>) = covered ap"
  "covered (ap\<lparr>co_dataPath := p\<rparr>) = covered ap" "covered (ap\<lparr>co_publishing := x\<rparr>) = covered ap"
  "covered (ap\<lparr>co_socket := z\<rparr>) = covered ap"
  "covered (ap\<lparr>co_loggedIn := a, co_loggedOut := c, co_session := se, co_loginCount := n\<rparr>) = covered ap"
  "covered (ap\<lparr>co_loggedIn := a, co_loggedOut := c\<rparr>) = covered ap"
  "covered (ap\<lparr>co_appMsgCount := n\<rparr>) = covered ap" "covered (ap\<lparr>co_sent := ms\<rparr>) = covered ap"
  by (simp_all add: covered_def co_getBook_def getStream_def)

lemma covered_make_book: "covered ap \<Longrightarrow> covered (co_make_book E today s ap)"
  by (simp add: co_make_book_def Let_def covered_def)

lemma covered_make_books: "covered ap \<Longrightarrow> covered (co_make_books E today ss ap)"
  by (induction E today ss ap rule: co_make_books.induct) (auto simp: covered_make_book)

text \<open>A request changes nothing but what was sent.\<close>

definition only_sent :: "co_app \<Rightarrow> co_app \<Rightarrow> bool" where
  "only_sent ap ap' \<longleftrightarrow> ap' = ap\<lparr>co_sent := co_sent ap'\<rparr>"

lemma only_sent_simps [simp]: "only_sent ap ap" "only_sent ap (co_send m ap)"
  by (simp_all add: only_sent_def co_send_def)

lemma only_sent_trans: "only_sent a b \<Longrightarrow> only_sent b c \<Longrightarrow> only_sent a c"
  by (cases a; cases b; cases c) (simp add: only_sent_def)

lemma only_sent_covered: "only_sent ap ap' \<Longrightarrow> covered ap' = covered ap"
  unfolding only_sent_def by (metis covered_fields(9))

lemma query_sent:
  "only_sent ap (snd (querySingleMarketDataRequest s ap))" "only_sent ap (snd (queryMarketDataRequest ss ap))"
  "only_sent ap (snd (co_sendTestRequest ap))"
  by (simp_all add: querySingleMarketDataRequest_def queryMarketDataRequest_def co_sendTestRequest_def Let_def)

lemma query_all_sent: "only_sent ap (snd (query_all_single ss ap))"
proof (induction ss arbitrary: ap)
  case (Cons s ss)
  obtain r ap1 where q: "querySingleMarketDataRequest s ap = (r, ap1)" "only_sent ap ap1"
    using query_sent(1) [of ap s] by (metis prod.collapse)
  show ?case using Cons.IH [of ap] only_sent_trans [OF q(2) Cons.IH] q by (auto split: option.splits)
qed simp

lemma covered_run: "covered ap \<Longrightarrow> covered (snd (co_run E today ap))"
  using only_sent_covered [OF query_all_sent] only_sent_covered [OF query_sent(2)]
  by (simp add: co_run_def Let_def covered_make_books)

lemma covered_add_snapshot: "covered ap \<Longrightarrow> covered (snd (add_snapshot E st v ap))"
  by (auto simp: add_snapshot_def covered_def split: sum.splits option.splits prod.splits)

lemma covered_snap_entries:
  assumes "covered ap"
  shows "covered (snd (drop_vars (for_groups (snap_entry read E st) n gs (v, ap))))"
  using co_for_groups_inv [of "\<lambda>s. covered (snd s)" "snap_entry read E st" "(v, ap)" n gs] assms
    covered_add_snapshot
  by (auto simp: snap_entry_def drop_vars_def Let_def split_beta)

lemma covered_finish: "covered ap \<Longrightarrow> covered (snd (co_finish E v cur lg ap))"
  by (auto simp: co_finish_def co_publish_def Let_def split: option.splits sum.splits)

lemma covered_incremental:
  assumes "covered ap"
  shows "covered (snd (incremental_update_template E m ap))"
proof -
  have c: "covered_entry (v, None, None, ap)" for v using assms by (simp add: covered_entry_def)
  have "covered_entry (snd (for_groups (co_update_entry (ce_md E) st) n gs (v, None, None, ap)))" for st n gs v
    by (rule co_for_groups_inv [where P = covered_entry, OF update_entry_sim [THEN conjunct2, THEN conjunct1] c])
  then have "for_groups (co_update_entry (ce_md E) st) n gs (v, None, None, ap) = (r, v', cur, lg, ap') \<Longrightarrow> covered ap'"
    for st n gs v r v' cur lg ap' by (metis (mono_tags, lifting) covered_entry_def old.prod.case snd_conv)
  then show ?thesis
    using assms by (auto simp: incremental_update_template_def Let_def intro!: covered_finish
        split: option.splits sum.splits prod.splits)
qed

lemma covered_fromApp:
  assumes "covered ap"
  shows "covered (snd (co_fromApp E version msg ap))"
proof -
  have "covered (snd (co_crack E sn msg a))"
    if "covered a" "sn \<in> {snapshot42, snapshot43, snapshot44}" for sn a
    using that covered_incremental [OF that(1)]
    by (auto simp: co_crack_def snapshot42_def snapshot43_def snapshot44_def co_session_status_def
        intro!: covered_snap_entries split: co_message.splits option.splits sum.splits)
  then show ?thesis using assms by (simp add: co_fromApp_def Let_def)
qed

lemma reachable_covered: "co_reachable E ap \<Longrightarrow> covered ap"
proof (induction rule: co_reachable.induct)
  case (Start reset cfg pub lg upd fs)
  show ?case by (simp add: covered_def new_co_app_def co_getBook_def)
next
  case (TestRequest ap)
  then show ?case using only_sent_covered [OF query_sent(3)] by blast
qed (simp_all add: co_addSymbols_def setUpdateType_def setDataPath_def setPublishing_def co_setZMQSocket_def co_onLogon_def co_onLogout_def
    covered_run covered_fromApp)

section \<open>Agreement with the market data handler\<close>

text \<open>C31. Equivalence: in every state the collector can reach, by any set-up, logons and messages, an
  incremental refresh of any version has the effect it has on the market data handler
  (\<^verbatim>\<open>market_data/fix/md_parser_qf.cpp\<close>, with new entries replacing) from the corresponding
  state: the same stop or none, the same books, the same publications; and no log is written through a
  null stream. The debug output of messages is off, and a collector that publishes has its socket and gets
  a message whose symbols are short enough for a publication to fit either program's buffer.\<close>

theorem collector_as_handler:
  assumes "co_reachable E ap" and "\<not> cc_printDebug (co_cfg ap)" and "publishes E m ap"
    and "version \<in> {''FIX.4.2'', ''FIX.4.3'', ''FIX.4.4''}"
  shows "md_fromApp (ce_md E) (MarketDataIncrementalRefresh m) (md_of ap)
      = map_prod id md_of (co_fromApp E version (CoIncremental m) ap) \<and>
    fst (co_fromApp E version (CoIncremental m) ap) \<noteq> Some NullStream"
proof -
  let ?ap = "ap\<lparr>co_appMsgCount := co_appMsgCount ap + 1\<rparr>"
  have "(md_of ap)\<lparr>md_appMsgCount := md_appMsgCount (md_of ap) + 1\<rparr> = md_of ?ap"
    by (simp add: md_of_def Let_def)
  moreover have "publishes E m ?ap" using assms(3) by (simp add: publishes_def)
  ultimately show ?thesis
    using incremental_sim [of E m ?ap] reachable_covered [OF assms(1)] assms(2,4)
    by (auto simp: md_fromApp_def md_onMessage_def co_fromApp_def co_crack_def)
qed

section \<open>The feed\<close>

text \<open>A session: messages until one brings the process down; QuickFIX catches an exception.\<close>

fun co_session_run ::
  "('tm, 'dt, 't) co_env \<Rightarrow> (string \<times> co_message) list \<Rightarrow> co_app \<Rightarrow> md_stop option list \<times> co_app" where
  "co_session_run E [] ap = ([], ap)"
| "co_session_run E ((version, msg) # msgs) ap = (case co_fromApp E version msg ap of (r, ap') \<Rightarrow>
     if r \<in> {None, Some FieldError, Some UnsupportedMessage}
     then (case co_session_run E msgs ap' of (rs, ap'') \<Rightarrow> (r # rs, ap''))
     else ([r], ap'))"

lemma co_session_feed:
  assumes "inj_on entry_hash I"
  shows "feed_rel I (md_of ap) f \<Longrightarrow> covered ap \<Longrightarrow>
    map (\<lambda>(version, msg). co_read_message (ce_md E) version msg) msgs = map Some evs \<Longrightarrow>
    \<forall>ev \<in> set evs. co_event_ids ev \<subseteq> I \<Longrightarrow>
    co_event_run (cc_venue_id (co_cfg ap)) (co_publishing ap) (co_logging ap) evs f = Some (f', out, xs) \<Longrightarrow>
    co_fits E out \<Longrightarrow> out = [] \<or> co_socket ap \<noteq> None \<Longrightarrow>
    \<exists>ap'. co_session_run E msgs ap = (replicate (length msgs) None, ap') \<and> feed_rel I (md_of ap') f' \<and>
      co_bcast ap' = co_bcast ap @ out \<and> logged I ap ap' xs"
proof (induction msgs arbitrary: evs ap f out xs)
  case Nil
  then show ?case by (simp add: logged_refl)
next
  case (Cons vm msgs)
  obtain version msg where vm: "vm = (version, msg)" by fastforce
  obtain ev evs1 where ev: "evs = ev # evs1" "co_read_message (ce_md E) version msg = Some ev"
    "map (\<lambda>(version, msg). co_read_message (ce_md E) version msg) msgs = map Some evs1"
    using Cons.prems(3) by (cases evs) (auto simp: vm)
  obtain f1 out1 out2 xs1 xs2 where f1:
    "co_event_step (cc_venue_id (co_cfg ap)) (co_publishing ap) (co_logging ap) ev f = Some (f1, out1, xs1)"
    "co_event_run (cc_venue_id (co_cfg ap)) (co_publishing ap) (co_logging ap) evs1 f1 = Some (f', out2, xs2)"
    "out = out1 @ out2" "xs = xs1 @ xs2"
    using Cons.prems(5) by (auto simp: ev(1) split: option.splits prod.splits)
  have fit: "co_fits E out1" "co_fits E out2" using Cons.prems(6) by (auto simp: f1(3) co_fits_def)
  have sock: "out1 = [] \<or> co_socket ap \<noteq> None" "out2 = [] \<or> co_socket ap \<noteq> None" using Cons.prems(7) by (auto simp: f1(3))
  have ids: "co_event_ids ev \<subseteq> I" "\<forall>ev \<in> set evs1. co_event_ids ev \<subseteq> I" using Cons.prems(4) by (auto simp: ev(1))
  have "co_follows I ap (co_fromApp E version msg ap) (f1, out1, xs1)"
    by (rule co_fromApp_feed [OF assms Cons.prems(1,2) ev(2) ids(1) f1(1) fit(1) sock(1)])
  then obtain ap1 where ap1: "co_fromApp E version msg ap = (None, ap1)" "feed_rel I (md_of ap1) f1" "covered ap1"
    "co_same ap ap1" "co_bcast ap1 = co_bcast ap @ out1" "logged I ap ap1 xs1"
    by (auto simp: co_follows_def)
  have run: "co_event_run (cc_venue_id (co_cfg ap1)) (co_publishing ap1) (co_logging ap1) evs1 f1 = Some (f', out2, xs2)"
    using f1(2) ap1(4) by (simp add: co_same_def)
  have sock1: "out2 = [] \<or> co_socket ap1 \<noteq> None" using sock(2) ap1(4) by (simp add: co_same_def)
  obtain ap2 where "co_session_run E msgs ap1 = (replicate (length msgs) None, ap2)" "feed_rel I (md_of ap2) f'"
    "co_bcast ap2 = co_bcast ap1 @ out2" "logged I ap1 ap2 xs2"
    using Cons.IH [OF ap1(2,3) ev(3) ids(2) run fit(2) sock1] by blast
  then show ?case using ap1 logged_trans [OF ap1(6)] by (auto simp: vm f1(3,4))
qed

lemma make_book_fields [simp]:
  "co_cfg (co_make_book E today s ap) = co_cfg ap" "co_publishing (co_make_book E today s ap) = co_publishing ap"
  "co_logging (co_make_book E today s ap) = co_logging ap" "co_bcast (co_make_book E today s ap) = co_bcast ap"
  "co_symbols (co_make_book E today s ap) = co_symbols ap" "co_socket (co_make_book E today s ap) = co_socket ap"
  by (simp_all add: co_make_book_def Let_def addStream_def co_addBook_def append_lines_def)

lemma co_make_books_fields [simp]:
  "co_cfg (co_make_books E today ss ap) = co_cfg ap" "co_publishing (co_make_books E today ss ap) = co_publishing ap"
  "co_logging (co_make_books E today ss ap) = co_logging ap" "co_bcast (co_make_books E today ss ap) = co_bcast ap"
  "co_symbols (co_make_books E today ss ap) = co_symbols ap" "co_socket (co_make_books E today ss ap) = co_socket ap"
  by (induction E today ss ap rule: co_make_books.induct) auto

lemma co_make_book_feed:
  assumes "feed_rel I (md_of ap) f"
  shows "feed_rel I (md_of (co_make_book E today s ap)) (f(s \<mapsto> Map.empty))"
  using assms tracks_new by (simp add: feed_rel_def co_make_book_def Let_def)

lemma co_make_books_feed:
  "feed_rel I (md_of ap) f \<Longrightarrow> feed_rel I (md_of (co_make_books E today ss ap)) (f ++ subscribed ss)"
proof (induction E today ss ap arbitrary: f rule: co_make_books.induct)
  case (2 E today s ss ap)
  show ?case
  proof (cases "s = []")
    case False
    have "f(s \<mapsto> Map.empty) ++ subscribed ss = f ++ subscribed (s # ss)"
      using False by (auto simp: subscribed_def map_add_def fun_eq_iff)
    then show ?thesis
      using 2(1) [OF False co_make_book_feed [OF 2(2)]] False by (metis co_make_books.simps(2))
  qed (use 2 in \<open>simp add: subscribed_def map_add_def\<close>)
qed (simp add: subscribed_def map_add_def)

definition co_version_ok :: "co_config \<Rightarrow> bool" where
  "co_version_ok cfg \<longleftrightarrow> cc_version cfg \<in> {42, 43, 44}"

lemma query_ok:
  assumes "co_version_ok (co_cfg ap)"
  shows "fst (querySingleMarketDataRequest s ap) = None" "fst (queryMarketDataRequest ss ap) = None"
  using assms by (auto simp: co_version_ok_def querySingleMarketDataRequest_def queryMarketDataRequest_def Let_def)

lemma only_sent_fields:
  assumes "only_sent ap ap'"
  shows "co_cfg ap' = co_cfg ap" "co_books ap' = co_books ap" "co_streams ap' = co_streams ap" "co_bcast ap' = co_bcast ap"
    "co_publishing ap' = co_publishing ap" "co_logging ap' = co_logging ap" "co_files ap' = co_files ap" "co_socket ap' = co_socket ap"
  using assms by (cases ap; cases ap'; simp add: only_sent_def)+

lemma query_all_ok:
  "co_version_ok (co_cfg ap) \<Longrightarrow> fst (query_all_single ss ap) = None"
proof (induction ss arbitrary: ap)
  case (Cons s ss)
  obtain ap1 where q: "querySingleMarketDataRequest s ap = (None, ap1)" "only_sent ap ap1"
    using query_ok(1) [OF Cons.prems, of s] query_sent(1) [of ap s] by (metis prod.collapse)
  show ?case using Cons.IH [of ap] Cons.IH [of ap1] only_sent_fields(1) [OF q(2)] Cons.prems q(1) by simp
qed simp

lemma co_run_only_sent:
  "only_sent (co_make_books E today (co_symbols ap) ap) (snd (co_run E today ap))"
  by (simp add: co_run_def Let_def query_all_sent query_sent)

lemma co_logon_feed:
  assumes "co_version_ok cfg" "feed_rel I (md_of ap0) Map.empty" "covered ap0" "co_cfg ap0 = cfg"
  obtains ap where "co_onLogon E today sess ap0 = (None, ap)" "feed_rel I (md_of ap) (subscribed (co_symbols ap0))"
    "covered ap" "co_same ap0 ap" "co_bcast ap = co_bcast ap0"
proof -
  let ?ap0 = "ap0\<lparr>co_loggedIn := True, co_loggedOut := False, co_session := sess, co_loginCount := co_loginCount ap0 + 1\<rparr>"
  let ?ap1 = "co_make_books E today (co_symbols ap0) ?ap0"
  obtain r ap where r: "co_run E today ?ap0 = (r, ap)" by fastforce
  have s: "only_sent ?ap1 ap" using co_run_only_sent [of E today ?ap0] by (simp add: r)
  have "r = None"
    using r query_all_ok [of ?ap1 "co_symbols ap0"] query_ok(2) [of ?ap1 "co_symbols ap0"] assms(1,4)
    by (auto simp: co_run_def Let_def split: if_splits dest: arg_cong [where f = fst])
  moreover have "feed_rel I (md_of ?ap0) Map.empty" using assms(2) by (simp add: feed_rel_def co_getBook_def)
  then have "feed_rel I (md_of ?ap1) (subscribed (co_symbols ap0))"
    using co_make_books_feed by fastforce
  then have "feed_rel I (md_of ap) (subscribed (co_symbols ap0))"
    by (simp add: feed_rel_def co_getBook_def only_sent_fields [OF s])
  moreover have "covered ap"
    using only_sent_covered [OF s] covered_make_books [of ?ap0 E today "co_symbols ap0"] assms(3) by simp
  moreover have "co_same ap0 ap" "co_bcast ap = co_bcast ap0" by (simp_all add: co_same_def only_sent_fields [OF s])
  ultimately show ?thesis using that r by (simp add: co_onLogon_def)
qed

lemma fresh_collector:
  "feed_rel I (md_of (co_addSymbols ss (new_co_app reset cfg pub lg upd fs))) Map.empty"
  "covered (co_addSymbols ss (new_co_app reset cfg pub lg upd fs))"
  by (simp_all add: feed_rel_def covered_def co_getBook_def co_addSymbols_def new_co_app_def)

text \<open>The collector as \<^verbatim>\<open>main\<close> sets it up: symbols and the publisher's address.\<close>

definition collector_app ::
  "string \<Rightarrow> string list \<Rightarrow> bool \<Rightarrow> co_config \<Rightarrow> bool \<Rightarrow> bool \<Rightarrow> int \<Rightarrow> (string \<times> log_line list) list \<Rightarrow> co_app" where
  "collector_app addr ss reset cfg pub lg upd fs = co_connect addr (co_addSymbols ss (new_co_app reset cfg pub lg upd fs))"

lemma collector_app_fields [simp]:
  "co_cfg (collector_app addr ss reset cfg pub lg upd fs) = cfg" "co_symbols (collector_app addr ss reset cfg pub lg upd fs) = ss"
  "co_publishing (collector_app addr ss reset cfg pub lg upd fs) \<longleftrightarrow> addr \<noteq> []"
  "co_socket (collector_app addr ss reset cfg pub lg upd fs) = (if addr \<noteq> [] then Some addr else None)"
  "co_logging (collector_app addr ss reset cfg pub lg upd fs) = lg" "co_bcast (collector_app addr ss reset cfg pub lg upd fs) = []"
  by (simp_all add: collector_app_def co_connect_def setPublishing_def co_setZMQSocket_def co_addSymbols_def new_co_app_def)

lemma fresh_collector_app:
  "feed_rel I (md_of (collector_app addr ss reset cfg pub lg upd fs)) Map.empty"
  "covered (collector_app addr ss reset cfg pub lg upd fs)"
  by (simp_all add: feed_rel_def covered_def co_getBook_def collector_app_def co_connect_def setPublishing_def
      co_setZMQSocket_def co_addSymbols_def new_co_app_def)

lemma co_run_quiet: "co_event_run vid False lg evs f = Some (f', out, xs) \<Longrightarrow> out = []"
proof (induction evs arbitrary: f out xs)
  case (Cons ev evs)
  have "co_event_step vid False lg ev f = Some (f1, out1, xs1) \<Longrightarrow> out1 = []" for f1 out1 xs1
    by (cases ev) (auto simp: Let_def split: if_splits option.splits prod.splits)
  then show ?case using Cons by (fastforce split: option.splits prod.splits)
qed simp

text \<open>C30. Refinement: set up with an address to publish to or without one, after a logon the collector
  processes every sequence of well-formed snapshots and incremental refreshes of the three FIX versions
  without an exception or a crash. Its books are the quotes announced, a snapshot being a full refresh of
  its symbols; with an address it publishes the best prices of the symbol of the last entry after every
  incremental refresh. If the flag for logging, which nothing initialises, is set, every log file has grown
  by exactly the operations on the quotes of the symbols logged there, in their order, each message's
  followed by the whole book of the last entry's symbol; if it is not, by nothing. This holds as long as
  no snapshot comes for a symbol with live quotes (the collector would keep quotes that it withdraws), no
  two ids have the same hash, the exchange follows the protocol (no live id is announced again by a
  snapshot, no quote deleted that is not live, no update without entries or for a symbol without a book)
  and a publication fits its buffer.\<close>

theorem collector_refines:
  assumes "inj_on entry_hash I" and "co_version_ok cfg"
    and "map (\<lambda>(version, msg). co_read_message (ce_md E) version msg) msgs = map Some evs"
    and "\<forall>ev \<in> set evs. co_event_ids ev \<subseteq> I"
    and "full_event_run (cc_venue_id cfg) (addr \<noteq> []) lg evs (subscribed ss) = Some (f, out, xs)"
    and "withdraws_none (cc_venue_id cfg) (addr \<noteq> []) lg evs (subscribed ss)" and "co_fits E out"
  shows "\<exists>ap ap'. co_onLogon E today sess (collector_app addr ss reset cfg pub lg upd fs) = (None, ap) \<and>
    co_session_run E msgs ap = (replicate (length msgs) None, ap') \<and> feed_rel I (md_of ap') f \<and>
    co_bcast ap' = out \<and> logged I ap ap' xs"
proof -
  let ?ap0 = "collector_app addr ss reset cfg pub lg upd fs"
  obtain ap where ap: "co_onLogon E today sess ?ap0 = (None, ap)" "feed_rel I (md_of ap) (subscribed ss)"
    "covered ap" "co_same ?ap0 ap" "co_bcast ap = []"
    using co_logon_feed [OF assms(2) fresh_collector_app, of addr ss reset cfg pub lg upd fs E today sess I] by auto
  have run: "co_event_run (cc_venue_id cfg) (addr \<noteq> []) lg evs (subscribed ss) = Some (f, out, xs)"
    using assms(5,6) by (simp add: full_run_adds)
  have "out = [] \<or> co_socket ap \<noteq> None" using ap(4) run co_run_quiet by (cases "addr = []") (auto simp: co_same_def)
  moreover have "co_event_run (cc_venue_id (co_cfg ap)) (co_publishing ap) (co_logging ap) evs (subscribed ss) = Some (f, out, xs)"
    using run ap(4) by (simp add: co_same_def)
  ultimately show ?thesis
    using co_session_feed [OF assms(1) ap(2,3) assms(3,4) _ assms(7)] ap(1,5) by fastforce
qed

section \<open>Withdrawn quotes\<close>

lemma put_quotes_mono: "put_quotes qs m = Some m' \<Longrightarrow> m \<subseteq>\<^sub>m m'"
proof (induction qs m rule: put_quotes.induct)
  case (2 i s sz p qs m)
  then obtain m1 where m1: "put_quote i s sz p m = Some m1" "put_quotes qs m1 = Some m'"
    by (auto split: option.splits)
  have "m \<subseteq>\<^sub>m m1" using m1(1) by (auto simp: put_quote_def map_le_def split: if_splits)
  then show ?case using 2(1) [OF m1] map_le_trans by blast
qed (simp add: map_le_def)

lemma put_quotes_add:
  "put_quotes qs m = Some m' \<Longrightarrow> dom m' \<inter> dom q = {} \<Longrightarrow> put_quotes qs (q ++ m) = Some (q ++ m')"
proof (induction qs m rule: put_quotes.induct)
  case (2 i s sz p qs m)
  then obtain m1 where m1: "put_quote i s sz p m = Some m1" "put_quotes qs m1 = Some m'"
    by (auto split: option.splits)
  have "dom m1 \<inter> dom q = {}"
    using put_quotes_mono [OF m1(2)] 2(3) map_le_implies_dom_le by blast
  then have "put_quote i s sz p (q ++ m) = Some (q ++ m1)"
    using m1(1) by (auto simp: put_quote_def map_add_None split: if_splits)
  then show ?case using 2(1) [OF m1 2(3)] by simp
qed simp

lemma feed_best:
  assumes "inj_on entry_hash I" "feed_rel I a f" "f k = Some q"
  shows "\<exists>b. getBook k a = Some b \<and> bestPrice BID b = best_quote BID q \<and> bestPrice ASK b = best_quote ASK q"
proof -
  obtain b where "getBook k a = Some b" "kbook.tracks I b q" using feed_rel_book [OF assms(2,3)] .
  then show ?thesis using tracks_best(1) [OF assms(1)] by simp
qed

text \<open>Withdrawn quotes: a snapshot lists the quotes that are left. From states with the same quotes the
  market data handler has just those afterwards, whatever it had before; the collector keeps all others,
  so that its best prices may be those of quotes the exchange has withdrawn.\<close>

theorem collector_keeps_withdrawn:
  assumes "inj_on entry_hash I" and "co_reachable E ap" and "feed_rel I (md_of ap) f" and "f k = Some q"
    and "co_read_message (ce_md E) version (CoSnapshot m) = Some (CoQuotes (map (Pair k) qs))"
    and "read_message (ce_md E) (md_cfg (md_of ap)) (MarketDataSnapshotFullRefresh m) = Some (Snapshot k k qs)"
    and "quote_ids qs \<subseteq> I" and "qs \<noteq> []" and "put_quotes qs Map.empty = Some q'" and "dom q' \<inter> dom q = {}"
    and "\<forall>b. me_size (ce_md E) b < MAX_MSG_SIZE" and "co_socket ap \<noteq> None"
  shows "(\<exists>ap' b. co_fromApp E version (CoSnapshot m) ap = (None, ap') \<and> co_getBook k ap' = Some b \<and>
      bestPrice BID b = best_quote BID (q ++ q') \<and> bestPrice ASK b = best_quote ASK (q ++ q')) \<and>
    (\<exists>md b. md_fromApp (ce_md E) (MarketDataSnapshotFullRefresh m) (md_of ap) = (None, md) \<and> getBook k md = Some b \<and>
      bestPrice BID b = best_quote BID q' \<and> bestPrice ASK b = best_quote ASK q')"
proof
  have ids: "co_event_ids (CoQuotes (map (Pair k) qs)) \<subseteq> I" using assms(7) by (auto simp: quote_ids_def)
  have step: "co_event_step (cc_venue_id (co_cfg ap)) (co_publishing ap) (co_logging ap) (CoQuotes (map (Pair k) qs)) f
      = Some (f(k \<mapsto> q ++ q'), [], [])"
    using put_quotes_add [OF assms(9,10)] by (simp add: add_quotes_symbol [of f k q qs, OF assms(4)])
  have "co_follows I ap (co_fromApp E version (CoSnapshot m) ap) (f(k \<mapsto> q ++ q'), [], [])"
    by (rule co_fromApp_feed [OF assms(1,3) reachable_covered [OF assms(2)] assms(5) ids step])
      (simp_all add: co_fits_def)
  then obtain ap' where ap': "co_fromApp E version (CoSnapshot m) ap = (None, ap')" "feed_rel I (md_of ap') (f(k \<mapsto> q ++ q'))"
    by (auto simp: co_follows_def simp del: fun_upd_apply)
  then show "\<exists>ap' b. co_fromApp E version (CoSnapshot m) ap = (None, ap') \<and> co_getBook k ap' = Some b \<and>
      bestPrice BID b = best_quote BID (q ++ q') \<and> bestPrice ASK b = best_quote ASK (q ++ q')"
    using feed_best [OF assms(1) ap'(2) fun_upd_same] by simp
  have ev: "event_step (md_cfg (md_of ap)) (Snapshot k k qs) f
      = Some (f(k \<mapsto> q'), [bbo_of (venue_of (md_cfg (md_of ap))) k q'])"
    using assms(4,8,9) by simp
  obtain md where md: "md_fromApp (ce_md E) (MarketDataSnapshotFullRefresh m) (md_of ap) = (None, md)"
    "feed_rel I md (f(k \<mapsto> q'))"
    using fromApp_feed [OF assms(1,3,6) _ ev] assms(7,11,12) by auto
  then show "\<exists>md b. md_fromApp (ce_md E) (MarketDataSnapshotFullRefresh m) (md_of ap) = (None, md) \<and> getBook k md = Some b \<and>
      bestPrice BID b = best_quote BID q' \<and> bestPrice ASK b = best_quote ASK q'"
    using feed_best [OF assms(1) md(2) fun_upd_same] by simp
qed

section \<open>Subscriptions\<close>

lemma query_subscribes:
  assumes "co_version_ok (co_cfg ap)"
  shows "\<exists>msg \<in> set (co_sent (snd (querySingleMarketDataRequest k ap))). symbol_group k \<in> set (fm_groups msg)"
    and "k \<in> set ss \<Longrightarrow> k \<noteq> [] \<Longrightarrow>
      \<exists>msg \<in> set (co_sent (snd (queryMarketDataRequest ss ap))). symbol_group k \<in> set (fm_groups msg)"
  using assms
  by (auto simp: co_version_ok_def querySingleMarketDataRequest_def queryMarketDataRequest_def co_send_def co_request_def
      querySingleMarketDataRequest42_def querySingleMarketDataRequest43_def querySingleMarketDataRequest44_def
      queryMarketDataRequest42_def queryMarketDataRequest43_def queryMarketDataRequest44_def Let_def)

lemma query_all_keeps: "set (co_sent ap) \<subseteq> set (co_sent (snd (query_all_single ss ap)))"
proof (induction ss arbitrary: ap)
  case (Cons s ss)
  obtain r ap1 where q: "querySingleMarketDataRequest s ap = (r, ap1)" by fastforce
  then have "set (co_sent ap) \<subseteq> set (co_sent ap1)"
    by (auto simp: querySingleMarketDataRequest_def co_send_def Let_def split: if_splits)
  then show ?case using Cons.IH [of ap] Cons.IH [of ap1] q by (auto split: option.splits)
qed simp

lemma query_all_subscribes:
  "co_version_ok (co_cfg ap) \<Longrightarrow> k \<in> set ss \<Longrightarrow> k \<noteq> [] \<Longrightarrow>
     \<exists>msg \<in> set (co_sent (snd (query_all_single ss ap))). symbol_group k \<in> set (fm_groups msg)"
proof (induction ss arbitrary: ap)
  case (Cons s ss)
  obtain ap1 where q: "querySingleMarketDataRequest s ap = (None, ap1)" "only_sent ap ap1"
    using query_ok(1) [OF Cons.prems(1), of s] query_sent(1) [of ap s] by (metis prod.collapse)
  have "co_version_ok (co_cfg ap1)" using Cons.prems(1) only_sent_fields(1) [OF q(2)] by simp
  then show ?case
    using Cons.IH [of ap] Cons.IH [of ap1] Cons.prems q(1) query_subscribes(1) [OF Cons.prems(1), of k]
      query_all_keeps [of ap1 ss]
    by (cases "s = k") auto
qed simp

lemma no_book_entries:
  assumes "send_time E st = Inr xt" "co_getBook k ap = None" "\<forall>g \<in> set gs. g Symbol = Some (FString k)" "cur = None"
  shows "\<exists>v' lg' ap'. for_groups (co_update_entry E st) (length gs) gs (v, cur, lg, ap) = (None, v', None, lg', ap')"
  using assms
proof (induction gs arbitrary: v lg cur ap)
  case (Cons g gs)
  have "co_update_entry E st g (v, cur, lg, ap) =
      (None, update_vars g v, None, getStream k ap, ap\<lparr>co_clock := co_clock ap + 1\<rparr>)"
    using Cons.prems by (simp add: co_update_entry_def update_vars_def if_set_def get_string_def Let_def)
  then show ?case using Cons.IH [of "ap\<lparr>co_clock := co_clock ap + 1\<rparr>" None] Cons.prems by simp
qed simp

text \<open>C32. Subscriptions: books are made for the symbols up to the first blank one, but every symbol
  that is not blank is subscribed to. For a symbol after a blank line the collector asks for market data
  that it has no book for, and the first incremental refresh for it is read through a null book.\<close>

theorem blank_symbol_crashes:
  assumes "co_version_ok cfg" and "k \<in> set ss" and "k \<noteq> []" and "k \<notin> set (takeWhile (\<lambda>s. s \<noteq> []) ss)"
    and "well_framed (ce_md E) m" and "\<forall>g \<in> set (groups_of NoMDEntries m). g Symbol = Some (FString k)"
    and "known_version version"
  shows "\<exists>ap msg. co_onLogon E today sess (co_addSymbols ss (new_co_app reset cfg pub lg upd fs)) = (None, ap) \<and>
    msg \<in> set (co_sent ap) \<and> symbol_group k \<in> set (fm_groups msg) \<and>
    fst (co_fromApp E version (CoIncremental m) ap) = Some NullBook"
proof -
  let ?ap0 = "co_addSymbols ss (new_co_app reset cfg pub lg upd fs)"
  have c: "co_cfg ?ap0 = cfg" "co_symbols ?ap0 = ss" by (simp_all add: co_addSymbols_def new_co_app_def)
  obtain ap where ap: "co_onLogon E today sess ?ap0 = (None, ap)" "feed_rel {} (md_of ap) (subscribed ss)"
    using co_logon_feed [OF assms(1) fresh_collector c(1), of E today sess "{}"] by (auto simp: c(2))
  let ?s = "?ap0\<lparr>co_loggedIn := True, co_loggedOut := False, co_session := sess, co_loginCount := co_loginCount ?ap0 + 1\<rparr>"
  have "ap = snd (co_run E today ?s)" using ap(1) by (simp add: co_onLogon_def)
  then have sub: "\<exists>msg \<in> set (co_sent ap). symbol_group k \<in> set (fm_groups msg)"
    using query_all_subscribes [of "co_make_books E today ss ?s" k ss] query_subscribes(2) [of "co_make_books E today ss ?s" k ss]
      assms(1-3) c by (simp add: co_run_def Let_def)
  have "co_getBook k ap = None"
    using feed_rel_no_book [OF ap(2), of k] assms(4) by (simp add: subscribed_def)
  then have crash: "fst (incremental_update_template E m (ap\<lparr>co_appMsgCount := n\<rparr>)) = Some NullBook"
    "fst (incremental_update_template E m ap) = Some NullBook" for n
  proof -
    obtain st xt where st: "fm_header m SendingTime = Some st" "send_time (ce_md E) st = Inr xt"
      "fm_body m NoMDEntries = Some (FInt (int (length (groups_of NoMDEntries m))))"
      using well_framedE [OF assms(5)] .
    have "fst (incremental_update_template E m a) = Some NullBook" if a: "co_getBook k a = None" for a
      using no_book_entries [OF st(2) a assms(6) refl, of "body_vars m" None] st
      by (auto simp: incremental_update_template_def get_int_def co_finish_def Let_def simp flip: body_vars_def)
    then show "fst (incremental_update_template E m (ap\<lparr>co_appMsgCount := n\<rparr>)) = Some NullBook"
      "fst (incremental_update_template E m ap) = Some NullBook"
      using \<open>co_getBook k ap = None\<close> by (simp_all add: co_getBook_def)
  qed
  then have "fst (co_fromApp E version (CoIncremental m) ap) = Some NullBook"
    by (simp add: fromApp_crack [OF assms(7)] co_crack_def)
  then show ?thesis using ap(1) sub by blast
qed

section \<open>Witnesses\<close>

definition demo_co_env :: "(int, int \<times> int, int \<times> int) co_env" where
  "demo_co_env = \<lparr>ce_md = demo_env, ce_size = (\<lambda>_. 64)\<rparr>"

definition demo_co_cfg :: co_config where
  "demo_co_cfg = \<lparr>cc_mic_string = ''XCNX'', cc_venue_id = 7, cc_username = ''u'', cc_password = ''p'',
     cc_sendPasswordInRawDataField = False, cc_aggregatedBook = False, cc_sendIndividualMarketDataRequests = True,
     cc_version = 42, cc_printDebug = False, cc_marketDepth = 5\<rparr>"

definition demo_co :: "string list \<Rightarrow> co_app" where
  "demo_co ss = collector_app ''a'' ss True demo_co_cfg True True 1 []"

lemma demo_co_facts [simp]:
  "ce_md demo_co_env = demo_env" "co_version_ok demo_co_cfg" "cc_venue_id demo_co_cfg = 7" "cc_printDebug demo_co_cfg = False"
  "co_cfg (demo_co ss) = demo_co_cfg" "co_symbols (demo_co ss) = ss" "co_publishing (demo_co ss)" "co_logging (demo_co ss)"
  "co_socket (demo_co ss) = Some ''a''" "co_fits demo_co_env out" "me_size demo_env b < MAX_MSG_SIZE" "co_bcast (demo_co ss) = []"
  by (simp_all add: demo_co_env_def demo_co_cfg_def co_version_ok_def demo_co_def co_fits_def demo_env_def MAX_MSG_SIZE_def)

lemma demo_co_reachable: "co_reachable E (demo_co ss)"
  unfolding demo_co_def collector_app_def co_connect_def by (simp add: co_reachable.intros)

lemma demo_co_logon:
  obtains ap where "co_onLogon E ''2013_02_17'' (''S'', ''T'') (demo_co ss) = (None, ap)"
    "feed_rel I (md_of ap) (subscribed ss)" "covered ap" "co_same (demo_co ss) ap" "co_reachable E ap"
proof -
  obtain ap where ap: "co_onLogon E ''2013_02_17'' (''S'', ''T'') (demo_co ss) = (None, ap)"
    "feed_rel I (md_of ap) (subscribed ss)" "covered ap" "co_same (demo_co ss) ap"
    using co_logon_feed [OF demo_co_facts(2) fresh_collector_app [where addr = "''a''" and ss = ss and reset = True and
        cfg = demo_co_cfg and pub = True and lg = True and upd = 1 and fs = "[]", folded demo_co_def],
        of E "''2013_02_17''" "(''S'', ''T'')"] by auto
  then show ?thesis
    using that co_reachable.Logon [OF demo_co_reachable, of E "''2013_02_17''" "(''S'', ''T'')" ss] by simp
qed

text \<open>The sizes of the messages of \<^verbatim>\<open>proto/spot_fx_md_1.proto\<close>: a tag and eight bytes for a number, a tag
  and four for a venue, and the symbol with its tag and length.\<close>

definition proto_string_size :: "string \<Rightarrow> nat" where
  "proto_string_size s = 1 + (if length s < 128 then 1 else if length s < 16384 then 2 else 3) + length s"

definition proto_env :: "(int, int \<times> int, int \<times> int) co_env" where
  "proto_env = \<lparr>ce_md = demo_env\<lparr>me_size := \<lambda>m. proto_string_size (m_symbol m) + 4 * 9 + 2 * 5\<rparr>,
     ce_size = (\<lambda>m. proto_string_size (mb_symbol m) + 4 * 9 + 5)\<rparr>"

lemma proto_fits: "length s \<le> 200 \<Longrightarrow> sizes_fit proto_env s"
proof -
  assume "length s \<le> 200"
  moreover have "length (c_str s) \<le> length s" by (simp add: c_str_def length_takeWhile_le)
  ultimately show ?thesis
    by (auto simp: sizes_fit_def proto_env_def bbo_of_mic_def proto_string_size_def MAX_MSG_SIZE_def)
qed

lemma collector_as_handler_witness:
  "\<exists>ap. co_onLogon proto_env ''2013_02_17'' (''S'', ''T'') (demo_co [''EUR/USD'']) = (None, ap) \<and> co_publishing ap \<and>
     md_fromApp (ce_md proto_env) (MarketDataIncrementalRefresh demo_update) (md_of ap)
       = map_prod id md_of (co_fromApp proto_env ''FIX.4.3'' (CoIncremental demo_update) ap)"
proof -
  obtain ap where ap: "co_onLogon proto_env ''2013_02_17'' (''S'', ''T'') (demo_co [''EUR/USD'']) = (None, ap)"
    "co_same (demo_co [''EUR/USD'']) ap" "co_reachable proto_env ap"
    using demo_co_logon by blast
  have d: "\<not> cc_printDebug (co_cfg ap)" "co_publishing ap" "co_socket ap \<noteq> None" using ap(2) by (simp_all add: co_same_def)
  have "message_symbols demo_update = {[], ''EUR/USD''}"
    by (auto simp: message_symbols_def demo_update_def get_string_def)
  then have "publishes proto_env demo_update ap" using d(3) by (simp add: publishes_def proto_fits)
  from collector_as_handler [OF ap(3) d(1) this, of "''FIX.4.3''"] ap(1) d(2) show ?thesis by simp
qed

lemma demo_co_events:
  "co_read_message demo_env ''FIX.4.2'' (CoSnapshot demo_snapshot) =
     Some (CoQuotes [(''EUR/USD'', ''A'', BID, 10, 5/4), (''EUR/USD'', ''C'', BID, 10, 6/5)])"
  "co_read_message demo_env ''FIX.4.4'' (CoIncremental demo_update) =
     Some (CoUpdates [(''EUR/USD'', False, QReplace ''A'' ''B'' BID 20 (9/8)), (''EUR/USD'', False, QDelete ''C'')])"
  by (simp_all add: co_read_message_def demo_snapshot_def demo_update_def snap_vars42_def snap_vars_def is_new_def demo_defs)

lemma demo_co_run:
  "co_event_run 7 True True [CoQuotes [(''EUR/USD'', ''A'', BID, 10, 5/4), (''EUR/USD'', ''C'', BID, 10, 6/5)],
      CoUpdates [(''EUR/USD'', False, QReplace ''A'' ''B'' BID 20 (9/8)), (''EUR/USD'', False, QDelete ''C'')]]
      (subscribed [''EUR/USD'']) =
   Some ([''EUR/USD'' \<mapsto> [''B'' \<mapsto> (BID, 9/8, 20)]], [mic_of 7 ''EUR/USD'' [''B'' \<mapsto> (BID, 9/8, 20)]],
     map (Pair ''EUR/USD'') [FMod BID 20 (9/8), FDel BID 10 (6/5), FBook [''B'' \<mapsto> (BID, 9/8, 20)]])"
  by (simp add: subscribed_def put_quote_def fun_eq_iff Let_def)

lemma demo_full_run:
  fixes evs defines "evs \<equiv> [CoQuotes [(''EUR/USD'', ''A'', BID, 10, 5/4), (''EUR/USD'', ''C'', BID, 10, 6/5)],
      CoUpdates [(''EUR/USD'', False, QReplace ''A'' ''B'' BID 20 (9/8)), (''EUR/USD'', False, QDelete ''C'')]]"
  shows "withdraws_none 7 True True evs (subscribed [''EUR/USD''])"
    "full_event_run 7 True True evs (subscribed [''EUR/USD'']) = co_event_run 7 True True evs (subscribed [''EUR/USD''])"
proof -
  have "full_quotes [(''EUR/USD'', ''A'', BID, 10, 5/4), (''EUR/USD'', ''C'', BID, 10, 6/5)] (subscribed [''EUR/USD''])
      = add_quotes [(''EUR/USD'', ''A'', BID, 10, 5/4), (''EUR/USD'', ''C'', BID, 10, 6/5)] (subscribed [''EUR/USD''])"
    by (rule full_quotes_empty) (simp add: subscribed_def)
  then show "withdraws_none 7 True True evs (subscribed [''EUR/USD''])"
    "full_event_run 7 True True evs (subscribed [''EUR/USD'']) = co_event_run 7 True True evs (subscribed [''EUR/USD''])"
    by (simp_all add: evs_def subscribed_def split: option.splits prod.splits)
qed

lemma collector_refines_witness:
  "\<exists>ap ap'. co_onLogon demo_co_env ''2013_02_17'' (''S'', ''T'') (collector_app ''a'' [''EUR/USD''] True demo_co_cfg True True 1 [])
       = (None, ap) \<and>
     co_session_run demo_co_env [(''FIX.4.2'', CoSnapshot demo_snapshot), (''FIX.4.4'', CoIncremental demo_update)] ap
       = ([None, None], ap') \<and>
     feed_rel {''A'', ''B'', ''C''} (md_of ap') [''EUR/USD'' \<mapsto> [''B'' \<mapsto> (BID, 9/8, 20)]] \<and> length (co_bcast ap') = 1"
proof -
  let ?msgs = "[(''FIX.4.2'', CoSnapshot demo_snapshot), (''FIX.4.4'', CoIncremental demo_update)]"
  obtain ap ap' where "co_onLogon demo_co_env ''2013_02_17'' (''S'', ''T'')
      (collector_app ''a'' [''EUR/USD''] True demo_co_cfg True True 1 []) = (None, ap)"
    "co_session_run demo_co_env ?msgs ap = (replicate (length ?msgs) None, ap')"
    "feed_rel {''A'', ''B'', ''C''} (md_of ap') [''EUR/USD'' \<mapsto> [''B'' \<mapsto> (BID, 9/8, 20)]]"
    "co_bcast ap' = [mic_of 7 ''EUR/USD'' [''B'' \<mapsto> (BID, 9/8, 20)]]"
    using collector_refines [OF demo_hashes demo_co_facts(2) _ _ _ _ demo_co_facts(10),
        where msgs = ?msgs and addr = "''a''" and pub = True and lg = True and ss = "[''EUR/USD'']" and today = "''2013_02_17''"
          and sess = "(''S'', ''T'')" and reset = True and upd = 1 and fs = "[]" and evs = "[CoQuotes [(''EUR/USD'', ''A'', BID, 10, 5/4), (''EUR/USD'', ''C'', BID, 10, 6/5)],
          CoUpdates [(''EUR/USD'', False, QReplace ''A'' ''B'' BID 20 (9/8)), (''EUR/USD'', False, QDelete ''C'')]]"]
      demo_co_run demo_full_run by (auto simp: demo_co_events)
  then show ?thesis by simp
qed

text \<open>A snapshot of one bid after another.\<close>

definition bid_snapshot :: "string \<Rightarrow> dbl \<Rightarrow> group_message" where
  "bid_snapshot i p = demo_message ''W'' [(Symbol, FString ''EUR/USD'')]
     [[(MDEntryType, FChar MDEntryType_BID), (MDEntryID, FString i), (MDEntryPx, FDouble p), (MDEntrySize, FDouble 10)]]"

lemma bid_snapshot_events:
  assumes "i \<noteq> []"
  shows "co_read_message demo_env ''FIX.4.2'' (CoSnapshot (bid_snapshot i p)) = Some (CoQuotes (map (Pair ''EUR/USD'') [(i, BID, 10, p)]))"
    "read_message demo_env cfg (MarketDataSnapshotFullRefresh (bid_snapshot i p)) = Some (Snapshot ''EUR/USD'' ''EUR/USD'' [(i, BID, 10, p)])"
  using assms
  by (simp_all add: co_read_message_def read_message_def bid_snapshot_def snap_vars42_def snap_vars_def demo_defs)

lemma collector_keeps_withdrawn_witness:
  "\<exists>ap ap' b. co_reachable demo_co_env ap \<and> co_fromApp demo_co_env ''FIX.4.2'' (CoSnapshot (bid_snapshot ''B'' (9/8))) ap = (None, ap') \<and>
     co_getBook ''EUR/USD'' ap' = Some b \<and>
     bestPrice BID b = best_quote BID ([''A'' \<mapsto> (BID, 5/4, 10)] ++ [''B'' \<mapsto> (BID, 9/8, 10)])"
proof -
  obtain ap0 where ap0: "feed_rel {''A'', ''B'', ''C''} (md_of ap0) (subscribed [''EUR/USD''])"
    "covered ap0" "co_reachable demo_co_env ap0" "co_socket ap0 = Some ''a''"
    using demo_co_logon [of demo_co_env "[''EUR/USD'']" "{''A'', ''B'', ''C''}"] by (auto simp: co_same_def)
  have step: "co_event_step (cc_venue_id (co_cfg ap0)) (co_publishing ap0) (co_logging ap0)
      (CoQuotes (map (Pair ''EUR/USD'') [(''A'', BID, 10, 5/4)])) (subscribed [''EUR/USD''])
      = Some ((subscribed [''EUR/USD''])(''EUR/USD'' \<mapsto> [''A'' \<mapsto> (BID, 5/4, 10)]), [], [])"
    by (simp add: subscribed_def put_quote_def)
  have r: "co_read_message (ce_md demo_co_env) ''FIX.4.2'' (CoSnapshot (bid_snapshot ''A'' (5/4)))
      = Some (CoQuotes (map (Pair ''EUR/USD'') [(''A'', BID, 10, 5/4)]))"
    using bid_snapshot_events(1) [of "''A''" "5/4"] by simp
  obtain ap where ap: "co_fromApp demo_co_env ''FIX.4.2'' (CoSnapshot (bid_snapshot ''A'' (5/4))) ap0 = (None, ap)"
    "feed_rel {''A'', ''B'', ''C''} (md_of ap) ((subscribed [''EUR/USD''])(''EUR/USD'' \<mapsto> [''A'' \<mapsto> (BID, 5/4, 10)]))"
    "co_same ap0 ap"
    using co_fromApp_feed [OF demo_hashes ap0(1,2) r _ step demo_co_facts(10)] by (auto simp: co_follows_def simp del: fun_upd_apply)
  have reach: "co_reachable demo_co_env ap"
    using co_reachable.Message [OF ap0(3), of "''FIX.4.2''" "CoSnapshot (bid_snapshot ''A'' (5/4))"] by (simp add: ap(1))
  have h: "quote_ids [(''B'', BID, 10, 9/8)] \<subseteq> {''A'', ''B'', ''C''}" "[(''B'', BID, 10, 9/8)] \<noteq> []"
    "put_quotes [(''B'', BID, 10, 9/8)] Map.empty = Some [''B'' \<mapsto> (BID, 9/8, 10)]"
    "dom [''B'' \<mapsto> (BID, 9/8, 10)] \<inter> dom [''A'' \<mapsto> (BID, 5/4 :: dbl, 10 :: dbl)] = {}"
    "\<forall>b. me_size (ce_md demo_co_env) b < MAX_MSG_SIZE"
    by (simp_all add: quote_ids_def put_quote_def)
  have m: "co_read_message (ce_md demo_co_env) ''FIX.4.2'' (CoSnapshot (bid_snapshot ''B'' (9/8)))
      = Some (CoQuotes (map (Pair ''EUR/USD'') [(''B'', BID, 10, 9/8)]))"
    "read_message (ce_md demo_co_env) (md_cfg (md_of ap)) (MarketDataSnapshotFullRefresh (bid_snapshot ''B'' (9/8)))
      = Some (Snapshot ''EUR/USD'' ''EUR/USD'' [(''B'', BID, 10, 9/8)])"
    using bid_snapshot_events [of "''B''"] by simp_all
  have "co_socket ap \<noteq> None" using ap(3) ap0(4) by (simp add: co_same_def)
  from collector_keeps_withdrawn [OF demo_hashes reach ap(2) fun_upd_same m h this] reach show ?thesis by blast
qed

lemma blank_symbol_crashes_witness:
  "\<exists>ap msg. co_onLogon demo_co_env ''2013_02_17'' (''S'', ''T'')
       (co_addSymbols [''EUR/USD'', [], ''GBP/USD''] (new_co_app True demo_co_cfg True True 1 [])) = (None, ap) \<and>
     msg \<in> set (co_sent ap) \<and> symbol_group ''GBP/USD'' \<in> set (fm_groups msg) \<and>
     fst (co_fromApp demo_co_env ''FIX.4.2'' (CoIncremental (demo_message ''X'' [] [[(Symbol, FString ''GBP/USD'')]])) ap) = Some NullBook"
  by (rule blank_symbol_crashes) (simp_all add: known_version_def)

end
