(* ===== verification/TextFiles.thy ===== *)
theory TextFiles
  imports Prelude
begin

text \<open>
  Text files read by lines, as the symbol files of the programs are: \<^verbatim>\<open>std::getline\<close>, the loop
  that reads until the stream is no longer good, and what it yields for a file with one line each.
\<close>

definition newline :: char where "newline = CHR 0x0A"

definition to_lines :: "string list \<Rightarrow> string" where
  "to_lines ss = concat (map (\<lambda>s. s @ [newline]) ss)"

text \<open>\<^verbatim>\<open>getline\<close>: the line, what is left of the file, and whether the end of the file was met.\<close>

definition getline :: "string \<Rightarrow> string \<times> string \<times> bool" where
  "getline f = (case dropWhile (\<lambda>c. c \<noteq> newline) f of
       [] \<Rightarrow> (f, [], True)
     | _ # rest \<Rightarrow> (takeWhile (\<lambda>c. c \<noteq> newline) f, rest, False))"

lemma getline_shorter: "getline f = (l, rest, False) \<Longrightarrow> length rest < length f"
proof -
  assume "getline f = (l, rest, False)"
  then obtain c where "dropWhile (\<lambda>c. c \<noteq> newline) f = c # rest"
    by (auto simp: getline_def split: list.splits)
  then show ?thesis using length_dropWhile_le [of "\<lambda>c. c \<noteq> newline" f] by simp
qed

function read_lines :: "string \<Rightarrow> string list" where
  "read_lines f = (case getline f of (l, rest, eof) \<Rightarrow> l # (if eof then [] else read_lines rest))"
  by pat_completeness auto
termination by (relation "measure length") (auto dest: getline_shorter [OF sym])

declare read_lines.simps [simp del]

lemma getline_line: "newline \<notin> set l \<Longrightarrow> getline (l @ newline # rest) = (l, rest, False)"
  by (induction l) (auto simp: getline_def split: list.splits)

lemma getline_last: "newline \<notin> set l \<Longrightarrow> getline l = (l, [], True)"
proof -
  assume "newline \<notin> set l"
  then have "dropWhile (\<lambda>c. c \<noteq> newline) l = []" by auto
  then show ?thesis unfolding getline_def by (simp only: list.case)
qed

lemma read_lines_to_lines:
  assumes "\<forall>s \<in> set ss. newline \<notin> set s" "newline \<notin> set l"
  shows "read_lines (to_lines ss @ l) = ss @ [l]"
  using assms
proof (induction ss)
  case Nil
  then show ?case by (simp add: to_lines_def read_lines.simps [of l] getline_last)
next
  case (Cons s ss)
  then show ?case
    by (simp add: to_lines_def read_lines.simps [of "s @ _"] getline_line)
qed

end
