(* ===== verification/Validate.thy ===== *)
theory Validate
  imports FixFields Numeric TextFiles
begin

text \<open>
  The symbol validation, \<^verbatim>\<open>validate_symbols\<close>: after a logon it asks the venue for its securities,
  collects the symbols of the answers, and when the list is complete writes two files: all symbols of the
  venue, and those of the configured symbols that the venue has.

  Parameters are what QuickFIX does with a message for which the class has no handler (\<open>crk\<close>), the
  parsed command line, the settings file and its booleans. Files are texts by name; opening one for
  writing succeeds and empties it. Console output, the set-up of the initiator and the loop that waits for
  the user to quit are not modelled.
\<close>

section \<open>Configuration and state\<close>

abbreviation (input) SecurityReqID :: fix_tag where "SecurityReqID \<equiv> 320"
abbreviation (input) SecurityRequestType :: fix_tag where "SecurityRequestType \<equiv> 321"
abbreviation (input) SecurityResponseID :: fix_tag where "SecurityResponseID \<equiv> 322"
abbreviation (input) SecurityResponseType :: fix_tag where "SecurityResponseType \<equiv> 323"
abbreviation (input) TotalNumSecurities :: fix_tag where "TotalNumSecurities \<equiv> 393"

record va_config =
  vc_mic_code :: string
  vc_username :: string
  vc_password :: string
  vc_sendPasswordInRawDataField :: bool
  vc_version :: int
  vc_printDebug :: bool

record va_app =
  va_cfg :: va_config
  va_session :: "string \<times> string"
  va_symbols :: "string list"
  va_nValidSymbols :: int
  va_validSymbols :: "string list"
  va_loggedIn :: bool
  va_loggedOut :: bool
  va_loginCount :: uint32
  va_appMsgCount :: uint32
  va_resetSequence :: bool
  va_complete :: bool
  va_sent :: "fix_message list"
  va_files :: "string \<rightharpoonup> string"

text \<open>What a handler throws: an exception for a missing or unreadable field, the one for unsupported
  messages, the text for unsupported versions; \<open>VaTerminates\<close> is an exception that leaves a function
  whose exception specification does not list it.\<close>

datatype va_stop = VaFieldError | VaUnsupportedMessage | VaUnsupportedVersion | VaTerminates

text \<open>The constructor does not initialise the number of valid symbols; \<open>n\<close> is what the memory holds.\<close>

definition new_va_app :: "bool \<Rightarrow> va_config \<Rightarrow> int \<Rightarrow> (string \<rightharpoonup> string) \<Rightarrow> va_app" where
  "new_va_app reset cfg n fs = \<lparr>va_cfg = cfg, va_session = ([], []), va_symbols = [], va_nValidSymbols = n,
     va_validSymbols = [], va_loggedIn = False, va_loggedOut = False, va_loginCount = 0, va_appMsgCount = 0,
     va_resetSequence = reset, va_complete = False, va_sent = [], va_files = fs\<rparr>"

definition va_addSymbols :: "string list \<Rightarrow> va_app \<Rightarrow> va_app" where
  "va_addSymbols ss ap = ap\<lparr>va_symbols := ss\<rparr>"

definition va_getSymbols :: "va_app \<Rightarrow> string list" where
  "va_getSymbols ap = va_symbols ap"

section \<open>Requests and session\<close>

definition va_ids :: "string \<Rightarrow> va_app \<Rightarrow> fields" where
  "va_ids version ap = [BeginString \<mapsto> FString version, SenderCompID \<mapsto> FString (fst (va_session ap)),
     TargetCompID \<mapsto> FString (snd (va_session ap))]"

text \<open>The requests ignore the id they are given. Request type 3 asks for the list of securities.\<close>

definition querySecurityDefinitionRequest42 :: "string \<Rightarrow> va_app \<Rightarrow> fix_message" where
  "querySecurityDefinitionRequest42 securityReqID ap = \<lparr>fm_type = ''c'', fm_header = va_ids ''FIX.4.2'' ap,
     fm_body = [SecurityReqID \<mapsto> FString ''CAPK-SecDefReq'', SecurityRequestType \<mapsto> FInt 3]\<rparr>"

definition querySecurityDefinitionRequest43 :: "string \<Rightarrow> va_app \<Rightarrow> fix_message" where
  "querySecurityDefinitionRequest43 securityReqID ap = \<lparr>fm_type = ''c'', fm_header = va_ids ''FIX.4.3'' ap,
     fm_body = [SecurityReqID \<mapsto> FString ''CAPK-SecDefReq'', SecurityRequestType \<mapsto> FInt 3]\<rparr>"

definition logout42 :: "va_app \<Rightarrow> fix_message" where
  "logout42 ap = \<lparr>fm_type = ''5'', fm_header = va_ids ''FIX.4.2'' ap, fm_body = Map.empty\<rparr>"

definition logout43 :: "va_app \<Rightarrow> fix_message" where
  "logout43 ap = \<lparr>fm_type = ''5'', fm_header = va_ids ''FIX.4.3'' ap, fm_body = Map.empty\<rparr>"

definition va_send :: "fix_message \<Rightarrow> va_app \<Rightarrow> va_app" where
  "va_send m ap = ap\<lparr>va_sent := va_sent ap @ [m]\<rparr>"

definition querySecurityDefinitionRequest :: "string \<Rightarrow> va_app \<Rightarrow> va_stop option \<times> va_app" where
  "querySecurityDefinitionRequest securityReqID ap =
    (if vc_version (va_cfg ap) = 42 then (None, va_send (querySecurityDefinitionRequest42 securityReqID ap) ap)
     else if vc_version (va_cfg ap) = 43 then (None, va_send (querySecurityDefinitionRequest43 securityReqID ap) ap)
     else (Some VaUnsupportedVersion, ap))"

definition va_logout :: "va_app \<Rightarrow> va_stop option \<times> va_app" where
  "va_logout ap = (if vc_version (va_cfg ap) = 42 then (None, va_send (logout42 ap) ap)
     else if vc_version (va_cfg ap) = 43 then (None, va_send (logout43 ap) ap)
     else (Some VaUnsupportedVersion, ap))"

definition va_run :: "va_app \<Rightarrow> va_stop option \<times> va_app" where
  "va_run ap = querySecurityDefinitionRequest ''CAPK'' ap"

definition va_onLogon :: "string \<times> string \<Rightarrow> va_app \<Rightarrow> va_stop option \<times> va_app" where
  "va_onLogon sess ap = va_run (ap\<lparr>va_loggedIn := True, va_loggedOut := False, va_session := sess,
     va_loginCount := va_loginCount ap + 1\<rparr>)"

definition va_onLogout :: "va_app \<Rightarrow> va_app" where
  "va_onLogout ap = ap\<lparr>va_loggedIn := False, va_loggedOut := True\<rparr>"

definition va_toAdmin :: "va_app \<Rightarrow> fix_message \<Rightarrow> fix_message" where
  "va_toAdmin ap m = (if fm_type m = ''A'' then
     let cfg = va_cfg ap; h = fm_header m;
         h = (if 0 < length (vc_username cfg) then h(Username \<mapsto> FString (vc_username cfg)) else h);
         h = (if vc_sendPasswordInRawDataField cfg
              then h(RawData \<mapsto> FString (c_str (vc_password cfg)),
                     RawDataLength \<mapsto> FInt (int (length (vc_password cfg))))
              else if vc_password cfg \<noteq> [] then h(Password \<mapsto> FString (vc_password cfg)) else h);
         b = (if va_resetSequence ap then (fm_body m)(ResetSeqNumFlag \<mapsto> FString ''Y'') else fm_body m)
     in m\<lparr>fm_header := h, fm_body := b\<rparr>
   else m)"

definition va_toApp :: "bool \<Rightarrow> fix_message \<Rightarrow> bool" where
  "va_toApp derived m = (check_possdup m = Some ThrowsDoNotSend \<longrightarrow> derived)"

section \<open>The list of securities\<close>

definition all_file :: "va_app \<Rightarrow> string" where
  "all_file ap = vc_mic_code (va_cfg ap) @ ''.all_supported.symbols''"

definition subset_file :: "va_app \<Rightarrow> string" where
  "subset_file ap = vc_mic_code (va_cfg ap) @ ''.valid_subset.symbols''"

text \<open>The loops that write the two files: each ends at the first empty symbol.\<close>

fun write_all :: "string list \<Rightarrow> string" where
  "write_all [] = []"
| "write_all (s # ss) = (if s \<noteq> [] then s @ [newline] @ write_all ss else [])"

fun write_subset :: "string list \<Rightarrow> string list \<Rightarrow> string" where
  "write_subset valid [] = []"
| "write_subset valid (s # ss) = (if s = [] then []
     else (if s \<in> set valid then s @ [newline] else []) @ write_subset valid ss)"

definition list_complete :: "va_app \<Rightarrow> va_app" where
  "list_complete ap = ap\<lparr>va_files := (va_files ap)(all_file ap \<mapsto> write_all (va_validSymbols ap),
       subset_file ap \<mapsto> write_subset (va_validSymbols ap) (va_symbols ap)),
     va_complete := True\<rparr>"

text \<open>Reading a field that is set into a field object of its type.\<close>

definition read_string :: "fields \<Rightarrow> fix_tag \<Rightarrow> bool" where
  "read_string b t = (case b t of Some (FString _) \<Rightarrow> True | None \<Rightarrow> True | _ \<Rightarrow> False)"

definition read_int :: "fields \<Rightarrow> fix_tag \<Rightarrow> bool" where
  "read_int b t = (case b t of Some (FInt _) \<Rightarrow> True | None \<Rightarrow> True | _ \<Rightarrow> False)"

definition add_symbol :: "fields \<Rightarrow> va_app \<Rightarrow> va_stop option \<times> va_app" where
  "add_symbol b ap = (if b SecurityReqID = None then (None, ap)
     else case b Symbol of
       Some (FString s) \<Rightarrow>
         (let ap = ap\<lparr>va_validSymbols := va_validSymbols ap @ [s]\<rparr> in
          (None, if int (length (va_validSymbols ap)) = va_nValidSymbols ap then list_complete ap else ap))
     | _ \<Rightarrow> (Some VaFieldError, ap))"

definition securityDefinition :: "fix_message \<Rightarrow> va_app \<Rightarrow> va_stop option \<times> va_app" where
  "securityDefinition m ap = (let b = fm_body m in case add_symbol b ap of
     (Some e, ap) \<Rightarrow> (Some e, ap)
   | (None, ap) \<Rightarrow>
      (if \<not> read_string b SecurityReqID \<or> \<not> read_string b SecurityResponseID \<or> \<not> read_int b SecurityResponseType
       then (Some VaFieldError, ap)
       else case b TotalNumSecurities of
         None \<Rightarrow> (None, ap)
       | Some (FInt n) \<Rightarrow> (None, ap\<lparr>va_nValidSymbols := n\<rparr>)
       | Some _ \<Rightarrow> (Some VaFieldError, ap)))"

section \<open>Dispatch\<close>

abbreviation (input) TradingSessionID :: fix_tag where "TradingSessionID \<equiv> 336"

definition va_session_status :: "fix_message \<Rightarrow> va_stop option" where
  "va_session_status m = (if read_string (fm_body m) TradingSessionID \<and> read_int (fm_body m) 340 then None
     else Some VaFieldError)"

text \<open>The handlers that only print.\<close>

definition va_printed :: "fix_message \<Rightarrow> va_app \<Rightarrow> va_stop option \<times> va_app" where
  "va_printed m ap = (None, ap)"

text \<open>The handlers of the class by version; only FIX 4.2 has one for the definition of a security.\<close>

definition va_crack ::
  "(string \<Rightarrow> string \<Rightarrow> va_stop option) \<Rightarrow> string \<Rightarrow> fix_message \<Rightarrow> va_app \<Rightarrow> va_stop option \<times> va_app" where
  "va_crack crk v m ap =
    (if v = ''FIX.4.2'' \<and> fm_type m = ''d'' then securityDefinition m ap
     else if v = ''FIX.4.2'' \<or> v = ''FIX.4.3'' then
       (if fm_type m = ''h'' then (va_session_status m, ap)
        else if fm_type m \<in> {''f'', ''0'', ''5'', ''A''} then va_printed m ap
        else (crk v (fm_type m), ap))
     else (None, ap))"

definition va_fromApp ::
  "(string \<Rightarrow> string \<Rightarrow> va_stop option) \<Rightarrow> fix_message \<Rightarrow> va_app \<Rightarrow> va_stop option \<times> va_app" where
  "va_fromApp crk m ap =
    (let ap = (if vc_printDebug (va_cfg ap) then ap else ap\<lparr>va_appMsgCount := va_appMsgCount ap + 1\<rparr>) in
     case fm_header m BeginString of
       Some (FString v) \<Rightarrow> if fm_type m = ''j'' then (Some VaUnsupportedMessage, ap) else va_crack crk v m ap
     | _ \<Rightarrow> (Some VaFieldError, ap))"

text \<open>The exception specification of \<^verbatim>\<open>fromAdmin\<close> does not allow the exception for unsupported
  messages, which it throws itself for a reject.\<close>

definition va_fromAdmin ::
  "(string \<Rightarrow> string \<Rightarrow> va_stop option) \<Rightarrow> fix_message \<Rightarrow> va_app \<Rightarrow> va_stop option \<times> va_app" where
  "va_fromAdmin crk m ap = (case fm_header m BeginString of
       Some (FString v) \<Rightarrow>
         if fm_type m = ''3'' then (Some VaTerminates, ap)
         else (case va_crack crk v m ap of
             (Some VaUnsupportedMessage, ap) \<Rightarrow> (Some VaTerminates, ap)
           | r \<Rightarrow> r)
     | _ \<Rightarrow> (Some VaFieldError, ap))"

section \<open>Start\<close>

text \<open>A file that cannot be opened has no symbols.\<close>

definition readSymbols :: "string option \<Rightarrow> string list" where
  "readSymbols f = (case f of None \<Rightarrow> [] | Some contents \<Rightarrow> read_lines contents)"

record va_args =
  arg_help :: bool
  arg_s :: "string option"
  arg_c :: "string option"
  arg_d :: bool

definition symbol_file :: "va_args \<Rightarrow> string" where
  "symbol_file a = (case arg_s a of Some f \<Rightarrow> f | None \<Rightarrow> ''symbols.cfg'')"

definition va_configure ::
  "(string \<Rightarrow> bool option) \<Rightarrow> (string \<rightharpoonup> string) \<Rightarrow> bool \<Rightarrow> (va_config \<times> bool) option" where
  "va_configure getBool dict printDebug =
    (case (dict_bool getBool dict ''SendPasswordInRawData'', dict_bool getBool dict ''ResetSeqNo'') of
       (Some raw, Some reset) \<Rightarrow> Some (\<lparr>vc_mic_code = dict_string dict ''MIC'',
           vc_username = dict_string dict ''Username'', vc_password = dict_string dict ''Password'',
           vc_sendPasswordInRawDataField = raw,
           vc_version = (case dict ''FIXVersion'' of
               Some s \<Rightarrow> atoi s | None \<Rightarrow> 42),
           vc_printDebug = printDebug\<rparr>, reset)
     | _ \<Rightarrow> None)"

text \<open>\<open>args\<close> is \<open>None\<close> when the command line cannot be parsed; the settings of a file are \<open>None\<close> when
  they cannot be read, else the number of sessions and the settings of the first.\<close>

definition va_main ::
  "va_args option \<Rightarrow> (string \<rightharpoonup> string) \<Rightarrow> (string \<rightharpoonup> nat \<times> (string \<rightharpoonup> string)) \<Rightarrow> (string \<Rightarrow> bool option)
     \<Rightarrow> int \<Rightarrow> va_app start" where
  "va_main args fs settings getBool n = (case args of
     None \<Rightarrow> StopExit 1
   | Some a \<Rightarrow> (if arg_help a then StopExit 1 else case arg_c a of
       None \<Rightarrow> StopExit 1
     | Some c \<Rightarrow> (case settings c of
         None \<Rightarrow> StopExit 1
       | Some (sessions, dict) \<Rightarrow>
          (if sessions \<noteq> 1 then StopAssert
           else case va_configure getBool dict (arg_d a) of
             None \<Rightarrow> StopExit 1
           | Some (cfg, reset) \<Rightarrow>
               Go (va_addSymbols (readSymbols (fs (symbol_file a))) (new_va_app reset cfg n fs))))))"

end
