(* ===== verification/ValidateCorrect.thy ===== *)
theory ValidateCorrect
  imports Validate
begin

text \<open>
  The properties of the symbol validation: the files it writes after a complete list, what a logon in the
  middle of a list does to them, and the venues for which no list is ever complete.
\<close>

section \<open>The files written\<close>

lemma write_all_lines: "write_all ss = to_lines (takeWhile (\<lambda>s. s \<noteq> []) ss)"
  by (induction ss) (auto simp: to_lines_def)

lemma write_subset_lines:
  "write_subset v ss = to_lines (filter (\<lambda>s. s \<in> set v) (takeWhile (\<lambda>s. s \<noteq> []) ss))"
  by (induction ss) (auto simp: to_lines_def)

lemma takeWhile_nonempty: "[] \<notin> set ss \<Longrightarrow> takeWhile (\<lambda>s. s \<noteq> []) ss = ss"
  by (auto simp: takeWhile_eq_all_conv)

section \<open>The messages of a list\<close>

text \<open>A message that lists the symbol \<open>s\<close> as one of \<open>n\<close>.\<close>

definition lists_symbol :: "int \<Rightarrow> string \<Rightarrow> fix_message \<Rightarrow> bool" where
  "lists_symbol n s m \<longleftrightarrow> fm_header m BeginString = Some (FString ''FIX.4.2'') \<and> fm_type m = ''d'' \<and>
     (\<exists>r. fm_body m SecurityReqID = Some (FString r)) \<and> fm_body m Symbol = Some (FString s) \<and>
     fm_body m TotalNumSecurities = Some (FInt n) \<and>
     read_string (fm_body m) SecurityResponseID \<and> read_int (fm_body m) SecurityResponseType"

definition va_messages ::
  "(string \<Rightarrow> string \<Rightarrow> va_stop option) \<Rightarrow> fix_message list \<Rightarrow> va_app \<Rightarrow> va_app" where
  "va_messages crk ms ap = fold (\<lambda>m ap. snd (va_fromApp crk m ap)) ms ap"

lemma va_messages_simps [simp]:
  "va_messages crk [] ap = ap"
  "va_messages crk (m # ms) ap = va_messages crk ms (snd (va_fromApp crk m ap))"
  by (simp_all add: va_messages_def)

text \<open>The part of the state that matters for the files.\<close>

definition same_setup :: "va_app \<Rightarrow> va_app \<Rightarrow> bool" where
  "same_setup ap ap' \<longleftrightarrow> va_cfg ap' = va_cfg ap \<and> va_symbols ap' = va_symbols ap"

lemma same_setup_files: "same_setup ap ap' \<Longrightarrow> all_file ap' = all_file ap \<and> subset_file ap' = subset_file ap"
  by (simp add: same_setup_def all_file_def subset_file_def)

definition completed :: "string list \<Rightarrow> va_app \<Rightarrow> va_app \<Rightarrow> bool" where
  "completed vs ap ap' \<longleftrightarrow> va_complete ap' \<and> va_files ap' = (va_files ap)(all_file ap \<mapsto> write_all vs,
     subset_file ap \<mapsto> write_subset vs (va_symbols ap))"

definition untouched_files :: "va_app \<Rightarrow> va_app \<Rightarrow> bool" where
  "untouched_files ap ap' \<longleftrightarrow> va_complete ap' = va_complete ap \<and> va_files ap' = va_files ap"

lemmas views = same_setup_def completed_def untouched_files_def

lemma listed_step:
  fixes crk and ap
  assumes "lists_symbol n s m"
  defines "ap' \<equiv> snd (va_fromApp crk m ap)"
  shows "same_setup ap ap'" "va_nValidSymbols ap' = n" "va_validSymbols ap' = va_validSymbols ap @ [s]"
    "if int (length (va_validSymbols ap) + 1) = va_nValidSymbols ap
     then completed (va_validSymbols ap @ [s]) ap ap' else untouched_files ap ap'"
  using assms
  by (auto simp: lists_symbol_def va_fromApp_def va_crack_def securityDefinition_def add_symbol_def list_complete_def
      views all_file_def subset_file_def read_string_def Let_def)

lemma completed_over:
  assumes "same_setup ap ap'" "completed vs ap ap' \<or> untouched_files ap ap'" "completed ws ap' ap''"
  shows "completed ws ap ap''"
proof -
  have "all_file ap \<noteq> subset_file ap" by (simp add: all_file_def subset_file_def)
  then show ?thesis
    using assms same_setup_files [OF assms(1)] by (auto simp: views fun_eq_iff)
qed

lemma same_setup_trans: "same_setup a b \<Longrightarrow> same_setup b c \<Longrightarrow> same_setup a c"
  by (simp add: same_setup_def)

text \<open>A run of messages when the total is known.\<close>

lemma listed_run:
  fixes crk and ap
  assumes "list_all2 (lists_symbol (int t)) ss ms" "va_nValidSymbols ap = int t"
  defines "ap' \<equiv> va_messages crk ms ap"
  shows "same_setup ap ap' \<and> va_nValidSymbols ap' = int t \<and> va_validSymbols ap' = va_validSymbols ap @ ss \<and>
    (if length (va_validSymbols ap) < t \<and> t \<le> length (va_validSymbols ap) + length ss
     then completed (take t (va_validSymbols ap @ ss)) ap ap' else untouched_files ap ap')"
  using assms(1,2) unfolding ap'_def
proof (induction arbitrary: ap rule: list_all2_induct)
  case Nil
  then show ?case by (auto simp: views)
next
  case (Cons s ss m ms)
  define a1 where "a1 = snd (va_fromApp crk m ap)"
  note st = listed_step [OF Cons.hyps(1), where ap = ap and crk = crk, folded a1_def]
  note ih = Cons.IH [OF st(2)]
  note su = st(1) ih [THEN conjunct1]
  consider "length (va_validSymbols ap) + 1 = t" | "length (va_validSymbols ap) + 1 < t"
    | "t < length (va_validSymbols ap) + 1" by linarith
  then show ?case
  proof cases
    case 1
    then have "completed (va_validSymbols ap @ [s]) ap a1" "untouched_files a1 (va_messages crk ms a1)"
      using st ih Cons.prems by auto
    then show ?thesis
      using 1 st ih same_setup_trans [OF su] by (auto simp: a1_def [symmetric] views take_Cons')
  next
    case 2
    then have u: "untouched_files ap a1" using st Cons.prems by auto
    show ?thesis
    proof (cases "t \<le> length (va_validSymbols ap) + length (s # ss)")
      case True
      then have "completed (take t (va_validSymbols a1 @ ss)) a1 (va_messages crk ms a1)"
        using 2 st ih by auto
      then show ?thesis
        using True 2 st ih same_setup_trans [OF su] completed_over [OF su(1) disjI2 [OF u]]
        by (auto simp: a1_def [symmetric])
    next
      case False
      then have "untouched_files a1 (va_messages crk ms a1)" using 2 st ih by auto
      then show ?thesis
        using False 2 st ih u same_setup_trans [OF su] by (auto simp: a1_def [symmetric] untouched_files_def)
    qed
  next
    case 3
    then have "untouched_files ap a1" "untouched_files a1 (va_messages crk ms a1)"
      using st ih Cons.prems by auto
    then show ?thesis
      using 3 st ih same_setup_trans [OF su] by (auto simp: a1_def [symmetric] untouched_files_def)
  qed
qed

text \<open>A run from the start, where the total is not known before the first message.\<close>

lemma listed_first:
  fixes crk and ap
  assumes "list_all2 (lists_symbol (int t)) ss ms" "ss \<noteq> []" "va_validSymbols ap = []"
  defines "ap' \<equiv> va_messages crk ms ap"
  shows "same_setup ap ap' \<and> va_nValidSymbols ap' = int t \<and> va_validSymbols ap' = ss \<and>
    (if 2 \<le> t \<and> t \<le> length ss then completed (take t ss) ap ap'
     else completed [hd ss] ap ap' \<or> untouched_files ap ap')"
proof -
  obtain s ss' m ms' where ms: "ss = s # ss'" "ms = m # ms'" "lists_symbol (int t) s m"
    "list_all2 (lists_symbol (int t)) ss' ms'"
    using assms(1,2) by (cases ss; cases ms) auto
  define a1 where "a1 = snd (va_fromApp crk m ap)"
  note st = listed_step [OF ms(3), where ap = ap and crk = crk, folded a1_def]
  have v: "va_validSymbols a1 = [s]" using st(3) assms(3) by simp
  note run = listed_run [OF ms(4) st(2), where crk = crk]
  have ap': "ap' = va_messages crk ms' a1" by (simp add: ap'_def ms(2) a1_def)
  have first: "completed [s] ap a1 \<or> untouched_files ap a1" using st(4) assms(3) by (auto split: if_splits)
  have su: "same_setup ap ap'" using same_setup_trans st(1) run ap' by blast
  show ?thesis
  proof (cases "2 \<le> t \<and> t \<le> length ss")
    case True
    then have "completed (take t ss) a1 ap'" using run v ap' ms(1) by (simp add: take_Cons')
    then show ?thesis using True su run v ap' ms(1) completed_over [OF st(1) first] by simp
  next
    case False
    then have "untouched_files a1 ap'" using run v ap' ms(1) by auto
    then have "completed [s] ap ap' \<or> untouched_files ap ap'" using first by (auto simp: views)
    then show ?thesis using False su run v ap' ms(1) by auto
  qed
qed

section \<open>Sessions\<close>

lemma onLogon_fields:
  "same_setup ap (snd (va_onLogon sess ap))" "untouched_files ap (snd (va_onLogon sess ap))"
  "va_validSymbols (snd (va_onLogon sess ap)) = va_validSymbols ap"
  "va_nValidSymbols (snd (va_onLogon sess ap)) = va_nValidSymbols ap"
  by (simp_all add: va_onLogon_def va_run_def querySecurityDefinitionRequest_def va_send_def views)

lemma onLogout_fields:
  "same_setup ap (va_onLogout ap)" "untouched_files ap (va_onLogout ap)"
  "va_validSymbols (va_onLogout ap) = va_validSymbols ap" "va_nValidSymbols (va_onLogout ap) = va_nValidSymbols ap"
  by (simp_all add: va_onLogout_def views)

lemma main_started:
  assumes "va_main (Some a) fs settings getBool n = Go ap"
  shows "va_symbols ap = readSymbols (fs (symbol_file a))" "va_validSymbols ap = []" "\<not> va_complete ap"
    "va_files ap = fs" "va_nValidSymbols ap = n"
  using assms
  by (auto simp: va_main_def va_addSymbols_def new_va_app_def split: if_splits option.splits prod.splits)

section \<open>Properties\<close>

text \<open>The state in which the application waits for the list.\<close>

lemma started_lists:
  fixes sess
  assumes "va_main (Some a) fs settings getBool n = Go ap0"
  defines "ap \<equiv> snd (va_onLogon sess ap0)"
  shows "same_setup ap0 ap" "va_files ap = fs" "va_validSymbols ap = []"
  using main_started [OF assms(1)] onLogon_fields [where ap = ap0 and sess = sess]
  by (auto simp: ap_def untouched_files_def)

lemma started_symbols:
  assumes "va_main (Some a) fs settings getBool n = Go ap0"
    and "fs (symbol_file a) = Some (to_lines syms)" and "\<forall>s \<in> set syms. s \<noteq> [] \<and> newline \<notin> set s"
  shows "write_subset vs (va_symbols ap0) = to_lines (filter (\<lambda>s. s \<in> set vs) syms)"
proof -
  have "read_lines (to_lines syms @ []) = syms @ [[]]" using assms(3) by (intro read_lines_to_lines) auto
  then have "va_symbols ap0 = syms @ [[]]"
    using main_started(1) [OF assms(1)] assms(2) by (simp add: readSymbols_def)
  moreover have "takeWhile (\<lambda>s. s \<noteq> []) (syms @ [[]]) = syms" using assms(3) by (simp add: takeWhile_append)
  ultimately show ?thesis by (simp add: write_subset_lines)
qed

text \<open>C33. A venue lists its symbols in at least two messages, each with the number of them all. When the
  last has come the two files are written: the symbols of the venue, and the lines of the symbol file,
  none of them blank, that are among them. What the uninitialised counter held does not matter.\<close>

theorem validated_symbols:
  fixes crk and sess
  assumes "va_main (Some a) fs settings getBool n = Go ap0"
    and "fs (symbol_file a) = Some (to_lines syms)" and "\<forall>s \<in> set syms. s \<noteq> [] \<and> newline \<notin> set s"
    and "list_all2 (lists_symbol (int (length ss))) ss ms" and "2 \<le> length ss" and "[] \<notin> set ss"
  defines "ap \<equiv> va_messages crk ms (snd (va_onLogon sess ap0))"
  shows "va_complete ap \<and> va_files ap = fs(all_file ap0 \<mapsto> to_lines ss,
     subset_file ap0 \<mapsto> to_lines (filter (\<lambda>s. s \<in> set ss) syms))"
proof -
  note st = started_lists [OF assms(1), where sess = sess] started_symbols [OF assms(1-3)]
  have "completed (take (length ss) ss) (snd (va_onLogon sess ap0)) ap"
    using listed_first [OF assms(4) _ st(3), where crk = crk] assms(5) by (cases ss) (auto simp: ap_def)
  then show ?thesis
    using same_setup_files [OF st(1)] st(1,2) assms(6)
    by (simp add: completed_def st(4) same_setup_def write_all_lines takeWhile_nonempty)
qed

text \<open>C34. A session that ends after \<open>k\<close> symbols is followed by a logon, and the venue lists all its symbols
  again. The symbols received before are not forgotten: the list counts as complete \<open>k\<close> messages before
  its end, the first symbols are written twice, and configured symbols that the venue lists last are left
  out.\<close>

theorem interrupted_validation:
  fixes crk and sess and sess'
  assumes "va_main (Some a) fs settings getBool n = Go ap0"
    and "fs (symbol_file a) = Some (to_lines syms)" and "\<forall>s \<in> set syms. s \<noteq> [] \<and> newline \<notin> set s"
    and "list_all2 (lists_symbol (int (length ss))) (take k ss) ms1" and "list_all2 (lists_symbol (int (length ss))) ss ms2"
    and "0 < k" and "k < length ss" and "[] \<notin> set ss"
  defines "ap1 \<equiv> va_messages crk ms1 (snd (va_onLogon sess ap0))"
  defines "ap2 \<equiv> va_messages crk ms2 (snd (va_onLogon sess' (va_onLogout ap1)))"
  shows "va_complete ap2 \<and> va_files ap2 = fs(all_file ap0 \<mapsto> to_lines (take k ss @ take (length ss - k) ss),
     subset_file ap0 \<mapsto> to_lines (filter (\<lambda>s. s \<in> set (take (max k (length ss - k)) ss)) syms))"
proof -
  define ap where "ap = snd (va_onLogon sess ap0)"
  define b where "b = snd (va_onLogon sess' (va_onLogout ap1))"
  define vs where "vs = take k ss @ take (length ss - k) ss"
  note st = started_lists [OF assms(1), where sess = sess, folded ap_def] started_symbols [OF assms(1-3)]
  have "ss \<noteq> []" using assms(7) by auto
  then have one: "same_setup ap ap1" "va_nValidSymbols ap1 = int (length ss)" "va_validSymbols ap1 = take k ss"
      "completed [hd ss] ap ap1 \<or> untouched_files ap ap1"
    using listed_first [OF assms(4) _ st(3), where crk = crk] assms(6,7) by (auto simp: ap1_def ap_def)
  have b: "same_setup ap1 b" "untouched_files ap1 b" "va_validSymbols b = take k ss"
      "va_nValidSymbols b = int (length ss)"
    using one onLogon_fields [where ap = "va_onLogout ap1" and sess = sess'] onLogout_fields [of ap1]
    by (auto simp: b_def views)
  have "completed (take (length ss) (take k ss @ ss)) b ap2"
    using listed_run [OF assms(5) b(4), where crk = crk] b(3) assms(6,7) by (auto simp: ap2_def b_def)
  then have "completed vs b ap2" using assms(7) by (simp add: vs_def)
  moreover have "completed [hd ss] ap b \<or> untouched_files ap b"
    using one(4) b(2) by (auto simp: views)
  ultimately have c: "completed vs ap ap2"
    using completed_over [OF same_setup_trans [OF one(1) b(1)]] by blast
  have "set vs = set (take (max k (length ss - k)) ss)"
    using set_take_subset_set_take [of k "length ss - k" ss] set_take_subset_set_take [of "length ss - k" k ss]
    by (auto simp: vs_def max_def)
  moreover have "[] \<notin> set vs" using assms(8) by (auto simp: vs_def dest: in_set_takeD)
  ultimately show ?thesis
    using c same_setup_files [OF st(1)] st(1,2)
    by (simp add: completed_def st(4) same_setup_def write_all_lines takeWhile_nonempty vs_def)
qed

text \<open>Sessions in which one message of the venue arrives.\<close>

definition va_sessions ::
  "(string \<Rightarrow> string \<Rightarrow> va_stop option) \<Rightarrow> ((string \<times> string) \<times> fix_message) list \<Rightarrow> va_app \<Rightarrow> va_app" where
  "va_sessions crk es ap =
     fold (\<lambda>(sess, m) ap. va_onLogout (snd (va_fromApp crk m (snd (va_onLogon sess ap))))) es ap"

lemma fix43_step:
  assumes "fm_header m BeginString = Some (FString ''FIX.4.3'')"
  shows "untouched_files ap (snd (va_fromApp crk m ap))"
  using assms by (simp add: va_fromApp_def va_crack_def va_printed_def Let_def untouched_files_def)

lemma unfinished_session:
  fixes crk and sess and ap
  assumes "lists_symbol 1 s m \<and> (va_nValidSymbols ap = 1 \<longleftrightarrow> va_validSymbols ap \<noteq> []) \<or>
      fm_header m BeginString = Some (FString ''FIX.4.3'')"
  defines "ap' \<equiv> va_onLogout (snd (va_fromApp crk m (snd (va_onLogon sess ap))))"
  shows "untouched_files ap ap'"
    and "lists_symbol 1 s m \<Longrightarrow> va_nValidSymbols ap' = 1 \<longleftrightarrow> va_validSymbols ap' \<noteq> []"
proof -
  define b where "b = snd (va_onLogon sess ap)"
  note l = onLogon_fields [where ap = ap and sess = sess, folded b_def]
  note o = onLogout_fields [of "snd (va_fromApp crk m b)"]
  have "untouched_files b (snd (va_fromApp crk m b))"
    using assms(1) listed_step(4) [where n = 1 and s = s and m = m and ap = b and crk = crk] fix43_step [where m = m and ap = b and crk = crk] l(3,4) by (auto split: if_splits)
  then show "untouched_files ap ap'" using l(2) o(2) by (simp add: ap'_def b_def untouched_files_def)
  show "va_nValidSymbols ap' = 1 \<longleftrightarrow> va_validSymbols ap' \<noteq> []" if "lists_symbol 1 s m"
    using listed_step(2,3) [OF that, where ap = b and crk = crk] o(3,4) by (simp add: ap'_def b_def)
qed

lemma unfinished_sessions:
  assumes "(\<forall>(sess, m) \<in> set es. \<exists>s. lists_symbol 1 s m) \<and> (va_nValidSymbols ap = 1 \<longleftrightarrow> va_validSymbols ap \<noteq> []) \<or>
      (\<forall>(sess, m) \<in> set es. fm_header m BeginString = Some (FString ''FIX.4.3''))"
  shows "untouched_files ap (va_sessions crk es ap)"
  using assms
proof (induction es arbitrary: ap)
  case Nil
  then show ?case by (simp add: va_sessions_def untouched_files_def)
next
  case (Cons e es)
  obtain sess m where e: "e = (sess, m)" by fastforce
  define b where "b = va_onLogout (snd (va_fromApp crk m (snd (va_onLogon sess ap))))"
  from Cons.prems e obtain s where
    c: "lists_symbol 1 s m \<and> (va_nValidSymbols ap = 1 \<longleftrightarrow> va_validSymbols ap \<noteq> []) \<or>
      fm_header m BeginString = Some (FString ''FIX.4.3'')" by auto
  note u = unfinished_session [OF c, where crk = crk and sess = sess, folded b_def]
  have "untouched_files b (va_sessions crk es b)"
  proof (rule Cons.IH, cases "\<exists>s. lists_symbol 1 s m")
    case True
    then show "(\<forall>(sess, m) \<in> set es. \<exists>s. lists_symbol 1 s m) \<and> (va_nValidSymbols b = 1 \<longleftrightarrow> va_validSymbols b \<noteq> []) \<or>
      (\<forall>(sess, m) \<in> set es. fm_header m BeginString = Some (FString ''FIX.4.3''))"
      using Cons.prems e unfinished_session(2) [where m = m and ap = ap and crk = crk and sess = sess, folded b_def] by (auto simp: lists_symbol_def)
  qed (use Cons.prems e in auto)
  then show ?case using u(1) e by (simp add: va_sessions_def b_def untouched_files_def)
qed

text \<open>Venues whose list is never complete: one that has a single symbol, unless the uninitialised
  counter happens to hold 1, and one that speaks FIX 4.3, for which the class has no handler. However
  often the application logs on, it writes no file.\<close>

theorem validation_unfinished:
  assumes "va_main (Some a) fs settings getBool n = Go ap0"
    and "(\<forall>(sess, m) \<in> set es. \<exists>s. lists_symbol 1 s m) \<and> n \<noteq> 1 \<or>
      (\<forall>(sess, m) \<in> set es. fm_header m BeginString = Some (FString ''FIX.4.3''))"
  shows "\<not> va_complete (va_sessions crk es ap0) \<and> va_files (va_sessions crk es ap0) = fs"
  using unfinished_sessions [where es = es and ap = ap0 and crk = crk] main_started [OF assms(1)] assms(2)
  by (auto simp: untouched_files_def)

section \<open>The theorems on a concrete venue\<close>

definition demo_args :: va_args where
  "demo_args = \<lparr>arg_help = False, arg_s = None, arg_c = Some ''cfg'', arg_d = False\<rparr>"

definition demo_fs :: "string \<rightharpoonup> string" where
  "demo_fs = [''symbols.cfg'' \<mapsto> to_lines [''EUR/USD'', ''USD/XXX'', ''USD/JPY'']]"

definition demo_start :: "va_app start" where
  "demo_start = va_main (Some demo_args) demo_fs [''cfg'' \<mapsto> (1, [''MIC'' \<mapsto> ''FXCM''])] (\<lambda>_. None) 7"

definition demo_va :: va_app where
  "demo_va = (case demo_start of Go ap \<Rightarrow> ap | _ \<Rightarrow> undefined)"

definition demo_def :: "int \<Rightarrow> string \<Rightarrow> fix_message" where
  "demo_def n s = \<lparr>fm_type = ''d'', fm_header = [BeginString \<mapsto> FString ''FIX.4.2''],
     fm_body = [SecurityReqID \<mapsto> FString ''CAPK-SecDefReq'', Symbol \<mapsto> FString s, TotalNumSecurities \<mapsto> FInt n]\<rparr>"

lemma demo_started: "va_main (Some demo_args) demo_fs [''cfg'' \<mapsto> (1, [''MIC'' \<mapsto> ''FXCM''])] (\<lambda>_. None) 7 =
    Go demo_va"
  by (simp add: demo_va_def demo_start_def va_main_def demo_args_def va_configure_def dict_bool_def)

lemma demo_lists: "lists_symbol n s (demo_def n s)"
  by (simp add: lists_symbol_def demo_def_def read_string_def read_int_def)

lemma demo_symbols: "demo_fs (symbol_file demo_args) = Some (to_lines [''EUR/USD'', ''USD/XXX'', ''USD/JPY''])"
  "\<forall>s \<in> set [''EUR/USD'', ''USD/XXX'', ''USD/JPY'']. s \<noteq> [] \<and> newline \<notin> set s"
  by (simp_all add: demo_fs_def symbol_file_def demo_args_def newline_def)

lemma validated_symbols_witness:
  "va_files (va_messages (\<lambda>_ _. None) [demo_def 2 ''USD/JPY'', demo_def 2 ''EUR/USD''] (snd (va_onLogon ([], []) demo_va)))
      (subset_file demo_va) = Some (to_lines [''EUR/USD'', ''USD/JPY''])"
proof -
  have "list_all2 (lists_symbol (int (length [''USD/JPY'', ''EUR/USD'']))) [''USD/JPY'', ''EUR/USD'']
      [demo_def 2 ''USD/JPY'', demo_def 2 ''EUR/USD'']" by (simp add: demo_lists)
  from validated_symbols [OF demo_started demo_symbols this, where crk = "\<lambda>_ _. None" and sess = "([], [])"]
  show ?thesis by simp
qed

lemma interrupted_validation_witness:
  "va_files (va_messages (\<lambda>_ _. None) [demo_def 2 ''USD/JPY'', demo_def 2 ''EUR/USD'']
       (snd (va_onLogon ([], []) (va_onLogout (va_messages (\<lambda>_ _. None) [demo_def 2 ''USD/JPY'']
         (snd (va_onLogon ([], []) demo_va)))))))
     (subset_file demo_va) = Some (to_lines [''USD/JPY''])"
proof -
  have "list_all2 (lists_symbol (int (length [''USD/JPY'', ''EUR/USD'']))) (take 1 [''USD/JPY'', ''EUR/USD''])
      [demo_def 2 ''USD/JPY'']"
    "list_all2 (lists_symbol (int (length [''USD/JPY'', ''EUR/USD'']))) [''USD/JPY'', ''EUR/USD'']
      [demo_def 2 ''USD/JPY'', demo_def 2 ''EUR/USD'']" by (simp_all add: demo_lists)
  from interrupted_validation [OF demo_started demo_symbols this, where crk = "\<lambda>_ _. None"
      and sess = "([], [])" and sess' = "([], [])"]
  show ?thesis by simp
qed

lemma validation_unfinished_witness:
  "\<not> va_complete (va_sessions (\<lambda>_ _. None) [(([], []), demo_def 1 ''EUR/USD'')] demo_va)"
proof -
  have "(\<forall>(sess, m) \<in> set [(([] :: string, [] :: string), demo_def 1 ''EUR/USD'')]. \<exists>s. lists_symbol 1 s m) \<and>
      (7 :: int) \<noteq> 1" using demo_lists by auto
  then show ?thesis using validation_unfinished [OF demo_started disjI1] by blast
qed

end
