(* ===== verification/VenueConfig.thy ===== *)
theory VenueConfig
  imports FixFields Numeric TextFiles
begin

text \<open>
  The configuration of the venues, \<^verbatim>\<open>common/src/c++/utils/config_server.cpp\<close>: reading it from a
  file, requesting it from the configuration server, looking up a venue by its MIC, and the file of
  symbols.

  Parameters (\<open>boost\<close>): Boost's ini parser, whose trees are of an abstract type, its property trees, its
  lexical casts and \<^verbatim>\<open>trim\<close>; what is documented of them is \<open>boost_ok\<close>. The results of the
  ZeroMQ calls are data, and the protobuf parser an argument. A protobuf message is a record of optional
  fields, unset ones read as the empty text, zero or false.
\<close>

section \<open>Configurations\<close>

record venue_configuration =
  vn_venue_id :: "int option"
  vn_mic_name :: "string option"
  vn_order_interface_addr :: "string option"
  vn_order_ping_addr :: "string option"
  vn_market_data_broadcast_addr :: "string option"
  vn_logging_broadcast_addr :: "string option"
  vn_use_synthetic_cancel_replace :: "bool option"

record configuration =
  cf_trade_serialization_addr :: "string option"
  cf_recovery_listener_addr :: "string option"
  cf_aggregated_bbo_book_addr :: "string option"
  cf_aggregated_bbo_book_id :: "int option"
  cf_configs :: "venue_configuration list"

definition no_venue :: venue_configuration where
  "no_venue = \<lparr>vn_venue_id = None, vn_mic_name = None, vn_order_interface_addr = None,
     vn_order_ping_addr = None, vn_market_data_broadcast_addr = None, vn_logging_broadcast_addr = None,
     vn_use_synthetic_cancel_replace = None\<rparr>"

definition no_configuration :: configuration where
  "no_configuration = \<lparr>cf_trade_serialization_addr = None, cf_recovery_listener_addr = None,
     cf_aggregated_bbo_book_addr = None, cf_aggregated_bbo_book_id = None, cf_configs = []\<rparr>"

definition text_of :: "string option \<Rightarrow> string" where
  "text_of x = (case x of None \<Rightarrow> [] | Some s \<Rightarrow> s)"

definition number_of :: "int option \<Rightarrow> int" where
  "number_of x = (case x of None \<Rightarrow> 0 | Some i \<Rightarrow> i)"

text \<open>The first venue of a name; a fresh message when there is none or no configuration.\<close>

fun find_venue :: "venue_configuration list \<Rightarrow> string \<Rightarrow> venue_configuration" where
  "find_venue [] mic = no_venue"
| "find_venue (vc # vcs) mic = (if text_of (vn_mic_name vc) = mic then vc else find_venue vcs mic)"

definition get_venue_config :: "configuration option \<Rightarrow> string \<Rightarrow> venue_configuration" where
  "get_venue_config config mic = (case config of None \<Rightarrow> no_venue
     | Some c \<Rightarrow> find_venue (cf_configs c) (c_str mic))"

section \<open>The configuration file\<close>

record 't boost =
  b_read_ini :: "string \<Rightarrow> 't option"
  b_get_child :: "'t \<Rightarrow> string \<Rightarrow> 't option"
  b_find :: "'t \<Rightarrow> string \<Rightarrow> 't option"
  b_items :: "'t \<Rightarrow> (string \<times> 't) list"
  b_data :: "'t \<Rightarrow> string"
  b_int :: "string \<Rightarrow> int option"
  b_bool :: "string \<Rightarrow> bool option"
  b_trim :: "string \<Rightarrow> string"

text \<open>A path is split at its dots; \<^verbatim>\<open>find\<close> looks for a key as it stands. \<^verbatim>\<open>trim\<close> removes
  white space from both ends.\<close>

definition boost_ok :: "'t boost \<Rightarrow> bool" where
  "boost_ok B \<longleftrightarrow>
     (\<forall>t k. k \<noteq> [] \<and> CHR ''.'' \<notin> set k \<longrightarrow> b_get_child B t k = b_find B t k) \<and>
     (\<forall>t k p. k \<noteq> [] \<and> CHR ''.'' \<notin> set k \<and> p \<noteq> [] \<longrightarrow>
        b_get_child B t (k @ CHR ''.'' # p) = (case b_find B t k of None \<Rightarrow> None | Some t' \<Rightarrow> b_get_child B t' p)) \<and>
     (\<forall>a s b. list_all is_space a \<and> list_all is_space b \<and>
        (s \<noteq> [] \<longrightarrow> \<not> is_space (hd s) \<and> \<not> is_space (last s)) \<longrightarrow> b_trim B (a @ s @ b) = s)"

definition isQuote :: "char \<Rightarrow> bool" where
  "isQuote c \<longleftrightarrow> c = CHR 0x22"

text \<open>Setting a field from the value of a key, if there is one; \<open>None\<close> when its text cannot be converted.\<close>

definition text_key :: "'t boost \<Rightarrow> 't \<Rightarrow> string \<Rightarrow> string option \<Rightarrow> string option" where
  "text_key B t k old = (case b_find B t k of None \<Rightarrow> old | Some x \<Rightarrow> Some (b_data B x))"

definition cast_key :: "'t boost \<Rightarrow> (string \<Rightarrow> 'a option) \<Rightarrow> 't \<Rightarrow> string \<Rightarrow> 'a option \<Rightarrow> 'a option option" where
  "cast_key B cast t k old = (case b_find B t k of None \<Rightarrow> Some old
     | Some x \<Rightarrow> (case cast (b_data B x) of None \<Rightarrow> None | Some i \<Rightarrow> Some (Some i)))"

text \<open>Each reader says whether it ended without an exception, and what the message holds then.\<close>

definition read_globals :: "'t boost \<Rightarrow> 't \<Rightarrow> configuration \<Rightarrow> bool \<times> configuration" where
  "read_globals B g c =
    (let c = c\<lparr>cf_trade_serialization_addr := text_key B g ''trade_serialization_addr'' (cf_trade_serialization_addr c),
               cf_recovery_listener_addr := text_key B g ''recovery_listener_addr'' (cf_recovery_listener_addr c),
               cf_aggregated_bbo_book_addr := text_key B g ''aggregated_bbo_book_addr'' (cf_aggregated_bbo_book_addr c)\<rparr>
     in case cast_key B (b_int B) g ''aggregated_bbo_book_id'' (cf_aggregated_bbo_book_id c) of
          None \<Rightarrow> (False, c)
        | Some i \<Rightarrow> (True, c\<lparr>cf_aggregated_bbo_book_id := i\<rparr>))"

definition read_venue :: "'t boost \<Rightarrow> 't \<Rightarrow> bool \<times> venue_configuration" where
  "read_venue B t = (case cast_key B (b_int B) t ''venue_id'' None of
     None \<Rightarrow> (False, no_venue)
   | Some i \<Rightarrow>
      (let vc = no_venue\<lparr>vn_venue_id := i, vn_mic_name := text_key B t ''mic_name'' None,
             vn_order_interface_addr := text_key B t ''order_interface_addr'' None,
             vn_order_ping_addr := text_key B t ''order_ping_addr'' None,
             vn_market_data_broadcast_addr := text_key B t ''market_data_broadcast_addr'' None,
             vn_logging_broadcast_addr := text_key B t ''logging_broadcast_addr'' None\<rparr>
       in case cast_key B (b_bool B) t ''use_synthetic_cancel_replace'' None of
            None \<Rightarrow> (False, vc)
          | Some s \<Rightarrow> (True, vc\<lparr>vn_use_synthetic_cancel_replace := s\<rparr>)))"

definition add_config :: "configuration \<Rightarrow> venue_configuration \<Rightarrow> configuration" where
  "add_config c vc = c\<lparr>cf_configs := cf_configs c @ [vc]\<rparr>"

text \<open>The venues in the order of their section; an exception leaves the message added for the venue it
  happens at, as far as it was filled.\<close>

fun read_venues :: "'t boost \<Rightarrow> 't \<Rightarrow> (string \<times> 't) list \<Rightarrow> configuration \<Rightarrow> bool \<times> configuration" where
  "read_venues B ini [] c = (True, c)"
| "read_venues B ini ((name, x) # items) c =
    (case b_get_child B ini (filter (\<lambda>ch. \<not> isQuote ch) (b_data B x)) of
       None \<Rightarrow> (False, add_config c no_venue)
     | Some section \<Rightarrow> (case read_venue B section of
         (False, vc) \<Rightarrow> (False, add_config c vc)
       | (True, vc) \<Rightarrow> read_venues B ini items (add_config c vc)))"

definition readVenueConfigFile :: "'t boost \<Rightarrow> string \<Rightarrow> configuration option \<Rightarrow> bool \<times> configuration option" where
  "readVenueConfigFile B filename config = (case config of
     None \<Rightarrow> (True, None)
   | Some c \<Rightarrow> map_prod id Some (case b_read_ini B filename of
       None \<Rightarrow> (False, c)
     | Some ini \<Rightarrow> (case b_get_child B ini ''GLOBAL'' of
         None \<Rightarrow> (False, c)
       | Some g \<Rightarrow> (case read_globals B g c of
           (False, c) \<Rightarrow> (False, c)
         | (True, c) \<Rightarrow> (case b_get_child B ini ''VENUES'' of
             None \<Rightarrow> (False, c)
           | Some v \<Rightarrow> read_venues B ini (b_items B v) c)))))"

section \<open>The configuration server\<close>

text \<open>What the calls of ZeroMQ yield: one poll, with the parts received when it finds the reply. A part
  is received by two calls; \<open>pr_more\<close> says whether another follows.\<close>

record 'f part =
  pr_reply :: int
  pr_config :: int
  pr_frame :: 'f
  pr_more :: bool

datatype 'f poll = PollFails | PollTimeout | PollReply "'f part list"

record 'f zmq_calls =
  zc_context :: bool
  zc_socket :: bool
  zc_connect :: int
  zc_init :: int
  zc_send :: int
  zc_polls :: "'f poll list"

text \<open>The outcome: a return value with whether the socket was closed and the configuration, a failed
  assertion, or waiting for more than the calls given.\<close>

datatype cs_result = CsReturns int bool configuration | CsAsserts | CsWaits

fun recv_parts :: "('f \<Rightarrow> bool \<times> configuration) \<Rightarrow> 'f part list \<Rightarrow> cs_result" where
  "recv_parts parse [] = CsWaits"
| "recv_parts parse (p # ps) =
    (if pr_reply p \<noteq> 0 \<or> pr_config p \<noteq> 0 then CsAsserts
     else if pr_more p then recv_parts parse ps
     else (case parse (pr_frame p) of (parseOK, cfg) \<Rightarrow> CsReturns (if parseOK then 0 else -1) True cfg))"

fun poll_reply ::
  "('f \<Rightarrow> bool \<times> configuration) \<Rightarrow> uint32 \<Rightarrow> configuration \<Rightarrow> 'f poll list \<Rightarrow> cs_result" where
  "poll_reply parse retry_count cfg [] = CsWaits"
| "poll_reply parse retry_count cfg (PollFails # es) = CsReturns (-1) False cfg"
| "poll_reply parse retry_count cfg (PollReply ps # es) = recv_parts parse ps"
| "poll_reply parse retry_count cfg (PollTimeout # es) =
    (let retry_count = retry_count - 1 in
     if retry_count = 0 then CsReturns (-1) True cfg else poll_reply parse retry_count cfg es)"

definition readConfigServer ::
  "('f \<Rightarrow> bool \<times> configuration) \<Rightarrow> 'f zmq_calls \<Rightarrow> configuration \<Rightarrow> cs_result" where
  "readConfigServer parse z cfg =
    (if \<not> zc_context z \<or> \<not> zc_socket z \<or> zc_connect z \<noteq> 0 \<or> zc_init z \<noteq> 0 \<or> zc_send z \<noteq> 0 then CsAsserts
     else poll_reply parse 3 cfg (zc_polls z))"

section \<open>The symbol file\<close>

definition readSymbolsFile :: "(string \<Rightarrow> string) \<Rightarrow> (string \<rightharpoonup> string) \<Rightarrow> string \<Rightarrow> string list" where
  "readSymbolsFile trim fs name = (if name = [] then [] else
     case fs name of None \<Rightarrow> [] | Some contents \<Rightarrow> map trim (read_lines contents))"

end
