(* ===== verification/MdStart.thy ===== *)
theory MdStart
  imports MdParser VenueConfig
begin

text \<open>
  The start of the market data handler, \<^verbatim>\<open>market_data/fix/md_fix.cpp\<close>: the command line, the
  symbol file, the FIX settings, and the venue's configuration from a file or from the server, up to the
  application that is handed to QuickFIX.

  Parameters are the parsed command line, QuickFIX's settings and conversions, and those of
  \<^verbatim>\<open>VenueConfig\<close>. Creating directories succeeds; logging, signals, the QuickFIX initiator and the
  loop that waits for the user to quit are not modelled.
\<close>

section \<open>Settings\<close>

record md_settings = md_config +
  ms_mic_string :: string
  ms_print_debug :: bool
  ms_root_output_dir :: string
  ms_fix_log_output_dir :: string
  ms_fix_store_output_dir :: string
  ms_symbol_file_name :: string
  ms_config_file_name :: string
  ms_venue_config_file_name :: string
  ms_publishing_addr :: string
  ms_config_server_addr :: string
  ms_is_logging :: bool

record md_args =
  ma_help :: bool
  ma_c :: "string option"
  ma_v :: "string option"
  ma_s :: "string option"
  ma_o :: "string option"
  ma_config_server :: "string option"
  ma_nolog :: bool
  ma_d :: bool

definition DEFAULT_SYMBOLS_FILE_NAME :: string where "DEFAULT_SYMBOLS_FILE_NAME = ''symbols.cfg''"
definition DEFAULT_CONFIG_SERVER_ADDRESS :: string where
  "DEFAULT_CONFIG_SERVER_ADDRESS = ''tcp://127.0.0.1:11111''"
definition DEFAULT_ROOT_DIR :: string where "DEFAULT_ROOT_DIR = ''.''"

section \<open>The sources of the settings\<close>

text \<open>The command line; it is \<open>None\<close> when it cannot be parsed. The symbol file has a default name and
  must be given all the same.\<close>

definition ReadCommandLineParams :: "md_args option \<Rightarrow> md_settings \<Rightarrow> int \<times> md_settings" where
  "ReadCommandLineParams args c = (case args of
     None \<Rightarrow> (-1, c)
   | Some a \<Rightarrow>
      (if ma_help a then (1, c) else
       let c = c\<lparr>ms_is_logging := \<not> ma_nolog a,
             ms_root_output_dir := option_or (ma_o a) DEFAULT_ROOT_DIR,
             ms_symbol_file_name := option_or (ma_s a) DEFAULT_SYMBOLS_FILE_NAME,
             ms_venue_config_file_name := option_or (ma_v a) (ms_venue_config_file_name c),
             ms_config_file_name := option_or (ma_c a) (ms_config_file_name c),
             ms_print_debug := ma_d a,
             ms_config_server_addr := DEFAULT_CONFIG_SERVER_ADDRESS\<rparr>;
           err = (if ma_s a = None then 1 else 0) + (if ma_c a = None then 1 else 0)
       in case ma_config_server a of
            None \<Rightarrow> (err, c)
          | Some addr \<Rightarrow> if ma_v a \<noteq> None then (-1, c) else (err, c\<lparr>ms_config_server_addr := addr\<rparr>)))"

definition dict_long :: "(string \<Rightarrow> int option) \<Rightarrow> (string \<rightharpoonup> string) \<Rightarrow> string \<Rightarrow> int \<Rightarrow> int option" where
  "dict_long getLong dict k d = (case dict k of None \<Rightarrow> Some d | Some s \<Rightarrow> getLong s)"

text \<open>The FIX settings: how many of them are wrong, and the settings; \<open>None\<close> when a text cannot be
  converted.\<close>

definition ReadFIXConfig ::
  "(string \<Rightarrow> bool option) \<Rightarrow> (string \<Rightarrow> int option) \<Rightarrow> (string \<rightharpoonup> string) \<Rightarrow> md_settings
     \<Rightarrow> (int \<times> md_settings) option" where
  "ReadFIXConfig getBool getLong dict c = do {
     raw \<leftarrow> dict_bool getBool dict ''SendPasswordInRawData'';
     aggregated \<leftarrow> dict_bool getBool dict ''AggregatedBook'';
     reset \<leftarrow> dict_bool getBool dict ''ResetSeqNo'';
     individual \<leftarrow> dict_bool getBool dict ''SendIndividualMarketDataRequests'';
     replaces \<leftarrow> dict_bool getBool dict ''new_replaces'';
     update_type \<leftarrow> dict_long getLong dict ''MDUpdateType'' (-1);
     publishing \<leftarrow> dict_bool getBool dict ''should_publish_prices'';
     let version = (case dict ''FIXVersion'' of Some s \<Rightarrow> atoi s | None \<Rightarrow> 0);
         depth = atoi (dict_string dict ''MarketDepth'');
         err = (if version = 0 then 1 else 0) + (if depth < 0 then 1 else 0) + (if update_type < 0 then 1 else 0)
     in Some (err, c\<lparr>ms_mic_string := dict_string dict ''MIC'',
          mdc_username := dict_string dict ''Username'', mdc_password := dict_string dict ''Password'',
          mdc_sendPasswordInRawDataField := raw,
          ms_fix_log_output_dir := option_or (dict ''FileLogPath'') DEFAULT_ROOT_DIR,
          ms_fix_store_output_dir := option_or (dict ''FileStorePath'') DEFAULT_ROOT_DIR,
          mdc_want_aggregated_book := aggregated, mdc_reset_seq_nums := reset,
          mdc_sendIndividualMarketDataRequests := individual, mdc_new_replaces := replaces,
          mdc_version := version, mdc_market_depth := depth, mdc_update_type := update_type,
          mdc_is_publishing := publishing\<rparr>)
   }"

text \<open>What both readers do with the configuration of the venue. Publishing without an address is only
  logged.\<close>

definition venue_settings :: "venue_configuration \<Rightarrow> md_settings \<Rightarrow> int \<times> md_settings" where
  "venue_settings vc c =
    (if number_of (vn_venue_id vc) \<le> 0 then (-1, c)
     else let c = c\<lparr>mdc_venue_id := number_of (vn_venue_id vc)\<rparr>;
              addr = text_of (vn_market_data_broadcast_addr vc)
          in (0, if mdc_is_publishing c \<and> 0 < length addr then c\<lparr>ms_publishing_addr := addr\<rparr> else c))"

definition ReadLocalVenueConfig :: "'t boost \<Rightarrow> string \<Rightarrow> md_settings \<Rightarrow> (int \<times> md_settings) start" where
  "ReadLocalVenueConfig B venue_config_file c =
    (case readVenueConfigFile B venue_config_file (Some no_configuration) of
       (False, _) \<Rightarrow> StopTerminate
     | (True, all_venue_config) \<Rightarrow> Go (venue_settings (get_venue_config all_venue_config (c_str (ms_mic_string c))) c))"

definition ReadRemoteConfig ::
  "('f \<Rightarrow> bool \<times> configuration) \<Rightarrow> 'f zmq_calls \<Rightarrow> md_settings \<Rightarrow> (int \<times> md_settings) start" where
  "ReadRemoteConfig parse z c = (case readConfigServer parse z no_configuration of
     CsAsserts \<Rightarrow> StopAssert
   | CsWaits \<Rightarrow> StopWait
   | CsReturns ret _ all_venue_config \<Rightarrow>
       if ret \<noteq> 0 then Go (-1, c)
       else Go (venue_settings (get_venue_config (Some all_venue_config) (c_str (ms_mic_string c))) c))"

section \<open>The start\<close>

text \<open>The environment: whether ZeroMQ can be initialised and the file of the process id written, the
  texts of the symbol files, and the settings files: the number of sessions and the first one's settings.\<close>

record ('t, 'f) start_env =
  se_zmq :: bool
  se_pid_file :: bool
  se_files :: "string \<rightharpoonup> string"
  se_settings :: "string \<rightharpoonup> nat \<times> (string \<rightharpoonup> string)"
  se_getBool :: "string \<Rightarrow> bool option"
  se_getLong :: "string \<Rightarrow> int option"
  se_boost :: "'t boost"
  se_parse :: "'f \<Rightarrow> bool \<times> configuration"
  se_server :: "'f zmq_calls"

definition check_code :: "int \<times> md_settings \<Rightarrow> md_settings start" where
  "check_code r = (if fst r \<noteq> 0 then StopExit (-1) else Go (snd r))"

text \<open>Directories for the FIX log and store below the root directory, which is never empty unless it is
  given as such; they replace those of the settings file.\<close>

definition append_path :: "string \<Rightarrow> string \<Rightarrow> string" where
  "append_path d s = (if d \<noteq> [] \<and> last d = CHR ''/'' then d @ s else d @ ''/'' @ s)"

definition output_dirs :: "md_settings \<Rightarrow> md_settings" where
  "output_dirs c = (if 0 < length (ms_root_output_dir c)
     then c\<lparr>ms_fix_log_output_dir := append_path (ms_root_output_dir c) ''log'',
            ms_fix_store_output_dir := append_path (ms_root_output_dir c) ''store''\<rparr> else c)"

definition read_fix_settings :: "('t, 'f) start_env \<Rightarrow> md_settings \<Rightarrow> md_settings start" where
  "read_fix_settings E c = (case se_settings E (ms_config_file_name c) of
     None \<Rightarrow> StopExit 1
   | Some (sessions, dict) \<Rightarrow> (if sessions \<noteq> 1 then StopAssert else
       case ReadFIXConfig (se_getBool E) (se_getLong E) dict c of
         None \<Rightarrow> StopExit 1
       | Some r \<Rightarrow> check_code r))"

definition read_venue_settings :: "('t, 'f) start_env \<Rightarrow> md_settings \<Rightarrow> md_settings start" where
  "read_venue_settings E c = (if ms_venue_config_file_name c = []
     then go_on (ReadRemoteConfig (se_parse E) (se_server E) c) check_code
     else go_on (ReadLocalVenueConfig (se_boost E) (ms_venue_config_file_name c) c)
       check_code)"

text \<open>\<open>c0\<close> are the settings as the memory holds them, the texts being empty.\<close>

definition md_main :: "('t, 'f) start_env \<Rightarrow> md_args option \<Rightarrow> md_settings \<Rightarrow> (md_app \<times> md_settings) start" where
  "md_main E args c0 = (if \<not> se_zmq E then StopAssert else
     go_on (check_code (ReadCommandLineParams args (c0\<lparr>ms_print_debug := False, ms_is_logging := True\<rparr>)))
     (\<lambda>c. let symbols = readSymbolsFile (b_trim (se_boost E)) (se_files E) (ms_symbol_file_name c) in
       if length symbols = 0 then StopExit (-1)
       else go_on (read_fix_settings E c) (\<lambda>c. go_on (read_venue_settings E c) (\<lambda>c.
         let ap = addSymbols symbols (new_md_app (md_config.truncate c)); c = output_dirs c in
         if \<not> se_pid_file E then StopExit (-1) else Go (connect_publisher (ms_publishing_addr c) ap, c)))))"

end
