(* ===== verification/GatewayStart.thy ===== *)
theory GatewayStart
  imports FixApp VenueConfig
begin

text \<open>
  The start of the order gateway, \<^verbatim>\<open>order_entry/order-fix/order-fix.cpp\<close>: the command line, the FIX
  settings and the venue's configuration, up to the application that is handed to QuickFIX and run. The
  function that asks the configuration server is not in the repository: the configuration it yields is a
  parameter, like the parsed command line and QuickFIX's settings. Logging, signals, the QuickFIX
  initiator and the interactive test mode are not modelled.
\<close>

record gw_settings = app_config +
  gs_mic_code :: string
  gs_begin_string :: string
  gs_orderListenerAddr :: string
  gs_pingListenerAddr :: string
  gs_loggingBroadcastAddr :: string
  gs_printDebug :: bool

record gw_args =
  ga_help :: bool
  ga_c :: "string option"
  ga_d :: bool
  ga_nolog :: bool
  ga_i :: bool

text \<open>Interactive mode, and whether messages are logged.\<close>

record gw_modes =
  gm_runInteractive :: bool
  gm_isLogging :: bool
  gm_logOutputDir :: string
  gm_storeOutputDir :: string

text \<open>The first character of a text; the one at the end of an empty text is NUL.\<close>

definition first_char :: "string \<Rightarrow> char" where
  "first_char s = (case s of [] \<Rightarrow> NUL | c # _ \<Rightarrow> c)"

text \<open>The settings, with the application's own: reset, account, handling instruction, order type and
  currency. The comp ids and the account pass through C strings.\<close>

record fix_settings =
  fs_reset :: bool
  fs_account :: string
  fs_handlInst :: char
  fs_limitOrder :: char
  fs_useCurrency :: bool

definition read_gw_settings ::
  "(string \<Rightarrow> bool option) \<Rightarrow> (string \<rightharpoonup> string) \<Rightarrow> (gw_settings \<times> fix_settings) option" where
  "read_gw_settings getBool dict = do {
     raw \<leftarrow> dict_bool getBool dict ''SendPasswordInRawData'';
     reset \<leftarrow> dict_bool getBool dict ''ResetSeqNo'';
     currency \<leftarrow> dict_bool getBool dict ''UseCurrency15'';
     Some (\<lparr>cfg_username = dict_string dict ''Username'', cfg_password = dict_string dict ''Password'',
         cfg_senderCompID = c_str (dict_string dict ''SenderCompID''),
         cfg_targetCompID = c_str (dict_string dict ''TargetCompID''),
         cfg_sendPasswordInRawDataField = raw,
         cfg_version = (case dict ''FIXVersion'' of Some s \<Rightarrow> atoi s | None \<Rightarrow> 42), cfg_venue_id = 0,
         gs_mic_code = dict_string dict ''MIC'',
         gs_begin_string = (case dict ''BeginString'' of Some s \<Rightarrow> c_str s | None \<Rightarrow> ''UNKNOWN FIX VERSION''),
         gs_orderListenerAddr = [], gs_pingListenerAddr = [], gs_loggingBroadcastAddr = [], gs_printDebug = False\<rparr>,
       \<lparr>fs_reset = reset, fs_account = c_str (dict_string dict ''Account1''),
         fs_handlInst = first_char (dict_string dict ''HandlInst21''),
         fs_limitOrder = first_char (option_or (dict ''LimitOrder40'') ''2''), fs_useCurrency = currency\<rparr>)
   }"

text \<open>The venue's part: the address for the broadcast of logs is taken over only when it is empty.\<close>

definition gw_venue_settings :: "venue_configuration \<Rightarrow> gw_settings \<Rightarrow> gw_settings start" where
  "gw_venue_settings vc c =
    (if number_of (vn_venue_id vc) \<le> 0 then StopExit (-1)
     else if text_of (vn_order_ping_addr vc) = [] then StopExit (-1)
     else if text_of (vn_order_interface_addr vc) = [] then StopExit (-1)
     else Go (c\<lparr>cfg_venue_id := word_of_int (number_of (vn_venue_id vc)),
            gs_pingListenerAddr := text_of (vn_order_ping_addr vc),
            gs_orderListenerAddr := text_of (vn_order_interface_addr vc),
            gs_loggingBroadcastAddr :=
              (if text_of (vn_logging_broadcast_addr vc) = [] \<or> vn_logging_broadcast_addr vc = None
               then text_of (vn_logging_broadcast_addr vc) else gs_loggingBroadcastAddr c)\<rparr>))"

text \<open>\<open>cur\<close> and \<open>lim0\<close> are what the members the constructor does not set hold, \<open>all_venue_config\<close> what
  the configuration server sent.\<close>

definition gw_application :: "bool \<Rightarrow> char \<Rightarrow> gw_settings \<Rightarrow> fix_settings \<Rightarrow> application" where
  "gw_application cur lim0 c f =
     setUseCurrency15 (fs_useCurrency f) (setLimitOrderChar40 (fs_limitOrder f) (setAccount1 (fs_account f)
       (setHandlInst21 (fs_handlInst f) (new_application (fs_reset f) (app_config.truncate c) cur lim0))))"

definition gw_main ::
  "gw_args option \<Rightarrow> (string \<rightharpoonup> nat \<times> (string \<rightharpoonup> string)) \<Rightarrow> (string \<Rightarrow> bool option) \<Rightarrow> configuration
     \<Rightarrow> bool \<Rightarrow> bool \<Rightarrow> char \<Rightarrow> (application \<times> gw_settings \<times> gw_modes) start" where
  "gw_main args settings getBool all_venue_config pid_file cur lim0 = (case args of
     None \<Rightarrow> StopExit 1
   | Some a \<Rightarrow> (if ga_help a then StopExit 1 else case ga_c a of
       None \<Rightarrow> StopExit 1
     | Some configFile \<Rightarrow> (case settings configFile of
         None \<Rightarrow> StopExit 1
       | Some (sessions, dict) \<Rightarrow> (if sessions \<noteq> 1 then StopAssert else
           case read_gw_settings getBool dict of
             None \<Rightarrow> StopExit 1
           | Some (c, f) \<Rightarrow>
              (if cfg_senderCompID c = [] \<or> cfg_targetCompID c = [] then StopExit (-1) else
               case dict_bool getBool dict ''UseSyntheticModify'' of
                 None \<Rightarrow> StopExit 1
               | Some _ \<Rightarrow> go_on (gw_venue_settings
                     (get_venue_config (Some all_venue_config) (c_str (gs_mic_code c))) c)
                   (\<lambda>c. if \<not> pid_file then StopExit (-1)
                      else Go (gw_application cur lim0 c f, c\<lparr>gs_printDebug := ga_d a\<rparr>,
                        \<lparr>gm_runInteractive = ga_i a, gm_isLogging = \<not> ga_nolog a \<or> ga_i a,
                         gm_logOutputDir = option_or (dict ''FileLogPath'') ''.'',
                         gm_storeOutputDir = option_or (dict ''FileStorePath'') ''.''\<rparr>)))))))"

end
