(* ===== verification/AggStart.thy ===== *)
theory AggStart
  imports AggBook VenueConfig
begin

text \<open>
  The start of the aggregated book, \<^verbatim>\<open>main\<close> of \<^verbatim>\<open>aggregated_book.cpp\<close>: the symbols from a
  file, the venues from a file or from the configuration server, up to the initialised instruments and
  the addresses the listeners are made for. The runs of the threads are those of \<^verbatim>\<open>AggBook\<close>. Assertions
  are modelled as failing, as in a build that has them.
\<close>

record agg_args =
  aa_help :: bool
  aa_c :: "string option"
  aa_s :: "string option"

text \<open>Without venues an assertion fails; symbols that are too short are read past their end, and more
  venues than there is room for are written past it.\<close>

definition agg_start :: "configuration \<Rightarrow> string list \<Rightarrow> (agg \<times> string list) start" where
  "agg_start conf symbols = (if cf_configs conf = [] then StopAssert else
     case agg_setup (map (\<lambda>vc. word_of_int (number_of (vn_venue_id vc))) (cf_configs conf)) symbols of
     None \<Rightarrow> StopUndefined
   | Some a \<Rightarrow> Go (a, map (\<lambda>vc. text_of (vn_market_data_broadcast_addr vc)) (cf_configs conf)))"

definition agg_main ::
  "'t boost \<Rightarrow> ('f \<Rightarrow> bool \<times> configuration) \<Rightarrow> 'f zmq_calls \<Rightarrow> (string \<rightharpoonup> string) \<Rightarrow> agg_args option
     \<Rightarrow> (agg \<times> string list) start" where
  "agg_main B parse z files args = (case args of
     None \<Rightarrow> StopExit (-1)
   | Some a \<Rightarrow> (if aa_help a then StopExit (-1) else case aa_s a of
       None \<Rightarrow> StopExit (-1)
     | Some symbol_file \<Rightarrow>
        (let symbols = readSymbolsFile (b_trim B) files symbol_file in
         if \<not> length symbols < MAX_SYMBOLS then StopAssert
         else if symbols = [] then StopExit (-1)
         else case aa_c a of
             Some config_file \<Rightarrow> (case readVenueConfigFile B config_file (Some no_configuration) of
               (True, Some conf) \<Rightarrow> agg_start conf symbols | _ \<Rightarrow> StopExit (-1))
           | None \<Rightarrow> (case readConfigServer parse z no_configuration of
               CsAsserts \<Rightarrow> StopAssert | CsWaits \<Rightarrow> StopWait
             | CsReturns ret _ conf \<Rightarrow> if ret \<noteq> 0 then StopExit (-1) else agg_start conf symbols))))"

end
