(* ===== verification/VenueConfigCorrect.thy ===== *)
theory VenueConfigCorrect
  imports VenueConfig
begin

text \<open>
  The configuration readers: a file that stores a configuration is read back as that configuration, and
  each venue found by its MIC; the name of a section may not have a dot; the configuration server is
  polled three times.
\<close>

section \<open>Files that store a configuration\<close>

text \<open>A key holds a text, or the text of a value, or there is no such key and no value.\<close>

definition stores_text :: "'t boost \<Rightarrow> 't \<Rightarrow> string \<Rightarrow> string option \<Rightarrow> bool" where
  "stores_text B t k v \<longleftrightarrow> map_option (b_data B) (b_find B t k) = v"

definition stores_value :: "'t boost \<Rightarrow> (string \<Rightarrow> 'a option) \<Rightarrow> 't \<Rightarrow> string \<Rightarrow> 'a option \<Rightarrow> bool" where
  "stores_value B cast t k v \<longleftrightarrow> (case b_find B t k of None \<Rightarrow> v = None
     | Some x \<Rightarrow> v \<noteq> None \<and> cast (b_data B x) = v)"

definition stores_globals :: "'t boost \<Rightarrow> 't \<Rightarrow> configuration \<Rightarrow> bool" where
  "stores_globals B g c \<longleftrightarrow>
     stores_text B g ''trade_serialization_addr'' (cf_trade_serialization_addr c) \<and>
     stores_text B g ''recovery_listener_addr'' (cf_recovery_listener_addr c) \<and>
     stores_text B g ''aggregated_bbo_book_addr'' (cf_aggregated_bbo_book_addr c) \<and>
     stores_value B (b_int B) g ''aggregated_bbo_book_id'' (cf_aggregated_bbo_book_id c)"

definition stores_venue :: "'t boost \<Rightarrow> 't \<Rightarrow> venue_configuration \<Rightarrow> bool" where
  "stores_venue B t vc \<longleftrightarrow>
     stores_value B (b_int B) t ''venue_id'' (vn_venue_id vc) \<and>
     stores_text B t ''mic_name'' (vn_mic_name vc) \<and>
     stores_text B t ''order_interface_addr'' (vn_order_interface_addr vc) \<and>
     stores_text B t ''order_ping_addr'' (vn_order_ping_addr vc) \<and>
     stores_text B t ''market_data_broadcast_addr'' (vn_market_data_broadcast_addr vc) \<and>
     stores_text B t ''logging_broadcast_addr'' (vn_logging_broadcast_addr vc) \<and>
     stores_value B (b_bool B) t ''use_synthetic_cancel_replace'' (vn_use_synthetic_cancel_replace vc)"

text \<open>An entry of the section of venues names the section of the venue, which has no dot in its name.\<close>

definition plain_name :: "string \<Rightarrow> bool" where
  "plain_name k \<longleftrightarrow> k \<noteq> [] \<and> CHR ''.'' \<notin> set k"

definition section_name :: "'t boost \<Rightarrow> 't \<Rightarrow> string" where
  "section_name B x = filter (\<lambda>c. \<not> isQuote c) (b_data B x)"

definition stores_entry :: "'t boost \<Rightarrow> 't \<Rightarrow> string \<times> 't \<Rightarrow> venue_configuration \<Rightarrow> bool" where
  "stores_entry B ini e vc \<longleftrightarrow> plain_name (section_name B (snd e)) \<and>
     (\<exists>t. b_find B ini (section_name B (snd e)) = Some t \<and> stores_venue B t vc)"

definition stores_config :: "'t boost \<Rightarrow> 't \<Rightarrow> configuration \<Rightarrow> bool" where
  "stores_config B ini c \<longleftrightarrow>
     (\<exists>g v. b_find B ini ''GLOBAL'' = Some g \<and> stores_globals B g c \<and>
        b_find B ini ''VENUES'' = Some v \<and> list_all2 (stores_entry B ini) (b_items B v) (cf_configs c))"

lemma get_child_plain: "boost_ok B \<Longrightarrow> plain_name k \<Longrightarrow> b_get_child B t k = b_find B t k"
  by (simp add: boost_ok_def plain_name_def)

lemma plain_sections [simp]: "plain_name ''GLOBAL''" "plain_name ''VENUES''"
  by (simp_all add: plain_name_def)

lemma stores_text_key: "stores_text B t k v \<longleftrightarrow> text_key B t k None = v"
  by (auto simp: stores_text_def text_key_def split: option.splits)

lemma stores_cast_key: "stores_value B cast t k v \<longleftrightarrow> cast_key B cast t k None = Some v"
  by (auto simp: stores_value_def cast_key_def split: option.splits)

lemma read_globals_stores:
  "stores_globals B g c \<Longrightarrow> read_globals B g no_configuration = (True, c\<lparr>cf_configs := []\<rparr>)"
  by (simp add: stores_globals_def stores_text_key stores_cast_key read_globals_def no_configuration_def Let_def)

lemma read_venue_stores: "stores_venue B t vc \<Longrightarrow> read_venue B t = (True, vc)"
  by (simp add: stores_venue_def stores_text_key stores_cast_key read_venue_def no_venue_def)

lemma read_venues_stores:
  assumes "boost_ok B" "list_all2 (stores_entry B ini) items vcs"
  shows "read_venues B ini (items @ later) c = read_venues B ini later (c\<lparr>cf_configs := cf_configs c @ vcs\<rparr>)"
  using assms(2)
proof (induction arbitrary: c rule: list_all2_induct)
  case (Cons e es vc vcs)
  obtain n x where e: "e = (n, x)" by fastforce
  then show ?case
    using Cons get_child_plain [OF assms(1)]
    by (auto simp: stores_entry_def section_name_def read_venue_stores add_config_def)
qed simp

lemma find_venue_name:
  "vc \<in> set vcs \<Longrightarrow> distinct (map (\<lambda>vc. text_of (vn_mic_name vc)) vcs) \<Longrightarrow>
     find_venue vcs (text_of (vn_mic_name vc)) = vc"
  by (induction vcs) force+

lemma read_config_stores:
  assumes "boost_ok B" "b_read_ini B name = Some ini" "stores_config B ini c"
  shows "readVenueConfigFile B name (Some no_configuration) = (True, Some c)"
proof -
  obtain g v where "b_find B ini ''GLOBAL'' = Some g" "stores_globals B g c" "b_find B ini ''VENUES'' = Some v"
    "list_all2 (stores_entry B ini) (b_items B v) (cf_configs c)"
    using assms(3) by (auto simp: stores_config_def)
  then show ?thesis
    using assms(2) get_child_plain [OF assms(1)] read_globals_stores [where B = B and g = g and c = c]
      read_venues_stores [OF assms(1), of ini "b_items B v" "cf_configs c" "[]"]
    by (simp add: readVenueConfigFile_def)
qed

text \<open>C36. Round trip: a file that stores a configuration, no name of a section having a dot, is read
  back as that configuration, and every venue in it is found by its MIC if no two have the same.\<close>

theorem venue_config_roundtrip:
  assumes "boost_ok B" and "b_read_ini B name = Some ini" and "stores_config B ini c"
    and "distinct (map (\<lambda>vc. text_of (vn_mic_name vc)) (cf_configs c))" and "vc \<in> set (cf_configs c)"
    and "NUL \<notin> set (text_of (vn_mic_name vc))"
  shows "readVenueConfigFile B name (Some no_configuration) = (True, Some c) \<and>
     get_venue_config (Some c) (text_of (vn_mic_name vc)) = vc"
proof -
  have "c_str (text_of (vn_mic_name vc)) = text_of (vn_mic_name vc)"
    using assms(6) by (auto simp: c_str_def takeWhile_eq_all_conv)
  then show ?thesis
    using read_config_stores [OF assms(1-3)] find_venue_name [OF assms(5,4)] by (simp add: get_venue_config_def)
qed

section \<open>Names with a dot\<close>

text \<open>Boost takes the part of the name before the dot for a section, which there is not.\<close>

definition dotted_entry :: "'t boost \<Rightarrow> 't \<Rightarrow> string \<times> 't \<Rightarrow> bool" where
  "dotted_entry B ini e \<longleftrightarrow> (\<exists>k p. section_name B (snd e) = k @ CHR ''.'' # p \<and> plain_name k \<and> p \<noteq> [] \<and>
     b_find B ini k = None)"

lemma dotted_child: "boost_ok B \<Longrightarrow> dotted_entry B ini e \<Longrightarrow> b_get_child B ini (section_name B (snd e)) = None"
  by (auto simp: dotted_entry_def boost_ok_def plain_name_def)

lemma dotted_read:
  assumes "boost_ok B" "b_read_ini B name = Some ini"
    and "b_find B ini ''GLOBAL'' = Some g" "stores_globals B g c" "b_find B ini ''VENUES'' = Some v"
    and "b_items B v = es @ e # later" "list_all2 (stores_entry B ini) es (cf_configs c)" "dotted_entry B ini e"
  shows "readVenueConfigFile B name (Some no_configuration) = (False, Some (add_config c no_venue))"
proof -
  obtain n x where e: "e = (n, x)" by fastforce
  then have "b_get_child B ini (filter (\<lambda>c. \<not> isQuote c) (b_data B x)) = None"
    using dotted_child [OF assms(1,8)] by (simp add: section_name_def)
  then show ?thesis
    using assms get_child_plain [OF assms(1)] read_globals_stores [OF assms(4)] e
      read_venues_stores [OF assms(1,7), of "e # later"]
    by (simp add: readVenueConfigFile_def)
qed

section \<open>The configuration server\<close>

text \<open>The reply counts when it comes in one of the first three polls; the request is never repeated.\<close>

lemma polls:
  "poll_reply parse 3 cfg (PollTimeout # es) = poll_reply parse 2 cfg es"
  "poll_reply parse 2 cfg (PollTimeout # es) = poll_reply parse 1 cfg es"
  "poll_reply parse 1 cfg (PollTimeout # es) = CsReturns (-1) True cfg"
  by simp_all

lemma server_replies:
  assumes "zc_context z" "zc_socket z" "zc_connect z = 0" "zc_init z = 0" "zc_send z = 0"
    and "zc_polls z = replicate n PollTimeout @ PollReply ps # es"
  shows "readConfigServer parse z cfg = (if n < 3 then recv_parts parse ps else CsReturns (-1) True cfg)"
proof -
  have s: "readConfigServer parse z cfg = poll_reply parse 3 cfg (zc_polls z)"
    using assms(1-5) by (simp add: readConfigServer_def del: poll_reply.simps)
  consider "n = 0" | "n = 1" | "n = 2" | m where "n = Suc (Suc (Suc m))"
    by (metis One_nat_def Suc_1 not0_implies_Suc)
  then show ?thesis
  proof cases
    case 4
    then have "zc_polls z = PollTimeout # PollTimeout # PollTimeout # replicate m PollTimeout @ PollReply ps # es"
      using assms(6) by simp
    then show ?thesis using 4 s by (simp only: polls) simp
  qed (use s assms(6) in \<open>simp_all add: numeral_2_eq_2 polls del: poll_reply.simps(4)\<close>)
qed

lemma parts_end: "\<exists>p \<in> set ps. \<not> pr_more p \<Longrightarrow> recv_parts parse ps \<noteq> CsWaits"
  by (induction ps) (auto split: prod.splits)

lemma server_never_waits:
  assumes "3 \<le> length (zc_polls z)" "\<forall>e \<in> set (zc_polls z). \<forall>ps. e = PollReply ps \<longrightarrow> (\<exists>p \<in> set ps. \<not> pr_more p)"
  shows "readConfigServer parse z cfg \<noteq> CsWaits"
proof -
  obtain a b c es where z: "zc_polls z = a # b # c # es"
    using assms(1) by (metis Suc_le_length_iff numeral_3_eq_3)
  have "poll_reply parse 1 cfg (c # es) \<noteq> CsWaits"
    using assms(2) z parts_end by (cases c) (auto simp: polls simp del: poll_reply.simps(4))
  then have "poll_reply parse 2 cfg (b # c # es) \<noteq> CsWaits"
    using assms(2) z parts_end by (cases b) (auto simp: polls simp del: poll_reply.simps(4))
  then have "poll_reply parse 3 cfg (a # b # c # es) \<noteq> CsWaits"
    using assms(2) z parts_end by (cases a) (auto simp: polls simp del: poll_reply.simps(4))
  then show ?thesis by (simp add: readConfigServer_def z)
qed

section \<open>The symbol file\<close>

definition plain_symbol :: "string \<Rightarrow> bool" where
  "plain_symbol s \<longleftrightarrow> s \<noteq> [] \<and> newline \<notin> set s \<and> \<not> is_space (hd s) \<and> \<not> is_space (last s)"

lemma boost_trim:
  assumes "boost_ok B" "s \<noteq> [] \<longrightarrow> \<not> is_space (hd s) \<and> \<not> is_space (last s)"
  shows "b_trim B s = s"
proof -
  have "\<forall>a s b. list_all is_space a \<and> list_all is_space b \<and>
      (s \<noteq> [] \<longrightarrow> \<not> is_space (hd s) \<and> \<not> is_space (last s)) \<longrightarrow> b_trim B (a @ s @ b) = s"
    using assms(1) unfolding boost_ok_def by (elim conjE)
  from this [rule_format, of "[]" "[]" s] show ?thesis using assms(2) by simp
qed

lemma symbols_of_file:
  assumes "boost_ok B" "list_all plain_symbol syms" "files name = Some (to_lines syms)" "name \<noteq> []"
  shows "readSymbolsFile (b_trim B) files name = syms @ [[]]"
proof -
  have "read_lines (to_lines syms @ []) = syms @ [[]]"
    using assms(2) by (intro read_lines_to_lines) (auto simp: list_all_iff plain_symbol_def)
  moreover have "map (b_trim B) syms = syms"
    using assms(2) boost_trim [OF assms(1)] by (intro map_idI) (auto simp: list_all_iff plain_symbol_def)
  ultimately show ?thesis using assms(3,4) boost_trim [OF assms(1), of "[]"] by (simp add: readSymbolsFile_def)
qed

section \<open>A concrete property tree\<close>

datatype ptree = PTree string "(string \<times> ptree) list"

fun pt_data :: "ptree \<Rightarrow> string" where "pt_data (PTree d ts) = d"
fun pt_items :: "ptree \<Rightarrow> (string \<times> ptree) list" where "pt_items (PTree d ts) = ts"

fun split_path :: "string \<Rightarrow> string list" where
  "split_path [] = []"
| "split_path (c # cs) = (if c = CHR ''.'' then [] # split_path cs
     else case split_path cs of [] \<Rightarrow> [[c]] | w # ws \<Rightarrow> (c # w) # ws)"

fun walk :: "string list \<Rightarrow> ptree \<Rightarrow> ptree option" where
  "walk [] t = Some t"
| "walk (k # ks) t = (case map_of (pt_items t) k of None \<Rightarrow> None | Some t' \<Rightarrow> walk ks t')"

definition pt_boost :: "(string \<rightharpoonup> ptree) \<Rightarrow> ptree boost" where
  "pt_boost ini = \<lparr>b_read_ini = ini, b_get_child = (\<lambda>t p. walk (split_path p) t),
     b_find = (\<lambda>t. map_of (pt_items t)), b_items = pt_items, b_data = pt_data, b_int = [''7'' \<mapsto> 7, ''9'' \<mapsto> 9],
     b_bool = [''1'' \<mapsto> True, ''0'' \<mapsto> False], b_trim = (\<lambda>s. trim_right (dropWhile is_space s))\<rparr>"

lemma split_plain: "CHR ''.'' \<notin> set k \<Longrightarrow> k \<noteq> [] \<Longrightarrow> split_path k = [k]"
proof (induction k)
  case (Cons c k)
  then show ?case by (cases k) auto
qed simp

lemma split_dot: "CHR ''.'' \<notin> set k \<Longrightarrow> k \<noteq> [] \<Longrightarrow> split_path (k @ CHR ''.'' # p) = k # split_path p"
proof (induction k)
  case (Cons c k)
  then show ?case by (cases k) auto
qed simp

lemma trim_spaces:
  assumes "list_all is_space a" "list_all is_space b" "s \<noteq> [] \<longrightarrow> \<not> is_space (hd s) \<and> \<not> is_space (last s)"
  shows "trim_right (dropWhile is_space (a @ s @ b)) = s"
proof (cases "s = []")
  case True
  then have d: "dropWhile is_space (a @ s @ b) = []" using assms(1,2) by (simp only: dropWhile_eq_Nil_conv) (auto simp: list_all_iff)
  show ?thesis using True unfolding trim_right_def d by simp
next
  case False
  have "dropWhile is_space (a @ s @ b) = s @ b"
    using assms(1,3) False by (cases s) (auto simp: dropWhile_append list_all_iff)
  moreover have "dropWhile is_space (rev b @ rev s) = rev s"
    using assms(2,3) False by (cases "rev s") (auto simp: dropWhile_append list_all_iff hd_rev [symmetric])
  ultimately show ?thesis by (simp add: trim_right_def)
qed

lemma pt_boost_ok [simp]: "boost_ok (pt_boost ini)"
  unfolding boost_ok_def
proof (intro conjI allI impI)
  fix t k assume "k \<noteq> [] \<and> CHR ''.'' \<notin> set k"
  then show "b_get_child (pt_boost ini) t k = b_find (pt_boost ini) t k"
    by (simp add: pt_boost_def split_plain split: option.splits)
next
  fix t k p assume "k \<noteq> [] \<and> CHR ''.'' \<notin> set k \<and> p \<noteq> ([] :: string)"
  then show "b_get_child (pt_boost ini) t (k @ CHR ''.'' # p) =
      (case b_find (pt_boost ini) t k of None \<Rightarrow> None | Some t' \<Rightarrow> b_get_child (pt_boost ini) t' p)"
    by (simp add: pt_boost_def split_dot split: option.splits)
next
  fix a s b assume "list_all is_space a \<and> list_all is_space b \<and>
      (s \<noteq> [] \<longrightarrow> \<not> is_space (hd s) \<and> \<not> is_space (last s))"
  then show "b_trim (pt_boost ini) (a @ s @ b) = s" by (simp add: pt_boost_def trim_spaces)
qed

definition demo_fxcm :: venue_configuration where
  "demo_fxcm = no_venue\<lparr>vn_venue_id := Some 7, vn_mic_name := Some ''FXCM'', vn_market_data_broadcast_addr := Some ''tcp://*:7''\<rparr>"

definition demo_xcde :: venue_configuration where
  "demo_xcde = no_venue\<lparr>vn_venue_id := Some 9, vn_mic_name := Some ''XCDE.dev''\<rparr>"

definition demo_conf :: configuration where
  "demo_conf = no_configuration\<lparr>cf_aggregated_bbo_book_id := Some 7, cf_configs := [demo_fxcm, demo_xcde]\<rparr>"

definition demo_ini :: ptree where
  "demo_ini = PTree [] [(''GLOBAL'', PTree [] [(''aggregated_bbo_book_id'', PTree ''7'' [])]),
     (''VENUES'', PTree [] [(''venue1'', PTree ''FXCM'' []), (''venue2'', PTree (CHR 0x22 # ''XCDE'' @ [CHR 0x22]) [])]),
     (''FXCM'', PTree [] [(''venue_id'', PTree ''7'' []), (''mic_name'', PTree ''FXCM'' []),
        (''market_data_broadcast_addr'', PTree ''tcp://*:7'' [])]),
     (''XCDE'', PTree [] [(''venue_id'', PTree ''9'' []), (''mic_name'', PTree ''XCDE.dev'' [])])]"

definition demo_boost :: "ptree boost" where
  "demo_boost = pt_boost [''venues.ini'' \<mapsto> demo_ini]"

lemma demo_stored: "stores_config demo_boost demo_ini demo_conf"
  by (simp add: stores_config_def demo_boost_def pt_boost_def demo_ini_def demo_conf_def demo_fxcm_def demo_xcde_def
      no_venue_def no_configuration_def stores_globals_def stores_entry_def stores_venue_def stores_text_def
      stores_value_def section_name_def plain_name_def isQuote_def)

lemma demo_boost_facts [simp]: "boost_ok demo_boost" "b_read_ini demo_boost ''venues.ini'' = Some demo_ini"
  by (simp add: demo_boost_def) (simp add: demo_boost_def pt_boost_def)

lemma demo_venues:
  "distinct (map (\<lambda>vc. text_of (vn_mic_name vc)) (cf_configs demo_conf))" "demo_fxcm \<in> set (cf_configs demo_conf)"
  "NUL \<notin> set (text_of (vn_mic_name demo_fxcm))"
  by (simp_all add: demo_conf_def demo_fxcm_def demo_xcde_def no_venue_def text_of_def NUL_def)

lemma venue_config_roundtrip_witness:
  "get_venue_config (snd (readVenueConfigFile demo_boost ''venues.ini'' (Some no_configuration))) ''FXCM'' = demo_fxcm"
proof -
  have "text_of (vn_mic_name demo_fxcm) = ''FXCM''" by (simp add: demo_fxcm_def text_of_def)
  then show ?thesis
    using venue_config_roundtrip [OF demo_boost_facts demo_stored demo_venues] by simp
qed

end
