(* ===== verification/StartCorrect.thy ===== *)
theory StartCorrect
  imports MdStart GatewayStart AggStart VenueConfigCorrect MdFeedCorrect AggBookCorrect
begin

text \<open>
  The programs from their files on: the market data handler started from its files has the settings they
  give, and after a logon follows the feed of the symbols in its symbol file; what the names of sections,
  the end of a symbol file and the settings of the gateway lead to.
\<close>

section \<open>The handler's settings\<close>

text \<open>Settings that are accepted: flags and the update type convert, the numbers are not negative, and
  the version is FIX 4.2.\<close>

definition accepted_settings :: "(string \<Rightarrow> bool option) \<Rightarrow> (string \<Rightarrow> int option) \<Rightarrow> (string \<rightharpoonup> string) \<Rightarrow> bool" where
  "accepted_settings getBool getLong dict \<longleftrightarrow>
     list_all (\<lambda>k. dict_bool getBool dict k \<noteq> None) [''SendPasswordInRawData'', ''AggregatedBook'', ''ResetSeqNo'',
       ''SendIndividualMarketDataRequests'', ''new_replaces'', ''should_publish_prices''] \<and>
     (\<exists>s. dict ''FIXVersion'' = Some s \<and> atoi s = 42) \<and> 0 \<le> atoi (dict_string dict ''MarketDepth'') \<and>
     (\<exists>s u. dict ''MDUpdateType'' = Some s \<and> getLong s = Some u \<and> 0 \<le> u)"

definition flag :: "(string \<Rightarrow> bool option) \<Rightarrow> (string \<rightharpoonup> string) \<Rightarrow> string \<Rightarrow> bool" where
  "flag getBool dict k \<longleftrightarrow> dict_bool getBool dict k = Some True"

text \<open>The configuration of the handler that the settings and the configuration of its venue give.\<close>

definition given_config ::
  "(string \<Rightarrow> bool option) \<Rightarrow> (string \<Rightarrow> int option) \<Rightarrow> (string \<rightharpoonup> string) \<Rightarrow> venue_configuration \<Rightarrow> md_config" where
  "given_config getBool getLong dict vc = \<lparr>mdc_venue_id = number_of (vn_venue_id vc),
     mdc_username = dict_string dict ''Username'', mdc_password = dict_string dict ''Password'',
     mdc_sendPasswordInRawDataField = flag getBool dict ''SendPasswordInRawData'',
     mdc_sendIndividualMarketDataRequests = flag getBool dict ''SendIndividualMarketDataRequests'',
     mdc_version = 42, mdc_is_publishing = flag getBool dict ''should_publish_prices'',
     mdc_market_depth = atoi (dict_string dict ''MarketDepth''),
     mdc_want_aggregated_book = flag getBool dict ''AggregatedBook'',
     mdc_update_type = (case dict ''MDUpdateType'' of Some s \<Rightarrow> (case getLong s of Some u \<Rightarrow> u | None \<Rightarrow> 0) | None \<Rightarrow> 0),
     mdc_reset_seq_nums = flag getBool dict ''ResetSeqNo'', mdc_new_replaces = flag getBool dict ''new_replaces''\<rparr>"

lemma flag_value: "dict_bool getBool dict k \<noteq> None \<Longrightarrow> dict_bool getBool dict k = Some (flag getBool dict k)"
  by (auto simp: flag_def)

lemma fix_config_accepted:
  assumes "accepted_settings getBool getLong dict"
  shows "\<exists>c'. ReadFIXConfig getBool getLong dict c = Some (0, c') \<and> ms_mic_string c' = dict_string dict ''MIC'' \<and>
    ms_venue_config_file_name c' = ms_venue_config_file_name c \<and>
    (\<forall>vc. 0 < number_of (vn_venue_id vc) \<longrightarrow> (\<exists>c2. venue_settings vc c' = (0, c2) \<and>
       md_config.truncate c2 = given_config getBool getLong dict vc \<and>
       (mdc_is_publishing c2 \<and> text_of (vn_market_data_broadcast_addr vc) \<noteq> [] \<longrightarrow>
          ms_publishing_addr c2 = text_of (vn_market_data_broadcast_addr vc))))"
proof -
  obtain s u w where v: "dict ''FIXVersion'' = Some s" "atoi s = 42" "dict ''MDUpdateType'' = Some u"
    "getLong u = Some w" "0 \<le> w" "0 \<le> atoi (dict_string dict ''MarketDepth'')"
    using assms by (auto simp: accepted_settings_def)
  have flags: "dict_bool getBool dict k = Some (flag getBool dict k)"
    if "k \<in> {''SendPasswordInRawData'', ''AggregatedBook'', ''ResetSeqNo'',
       ''SendIndividualMarketDataRequests'', ''new_replaces'', ''should_publish_prices''}" for k
    using assms that by (intro flag_value) (auto simp: accepted_settings_def)
  show ?thesis
    using v(5,6) by (simp add: ReadFIXConfig_def flags v(1-4) dict_long_def venue_settings_def given_config_def Let_def
        md_config.truncate_def)
qed

section \<open>The handler started from files\<close>

text \<open>The files of a start: symbols one on a line, accepted settings, and a file of venues that stores the
  configuration \<open>vc\<close> of the venue with the MIC of the settings.\<close>

definition handler_files ::
  "('t, 'f) start_env \<Rightarrow> md_args \<Rightarrow> string list \<Rightarrow> (string \<rightharpoonup> string) \<Rightarrow> venue_configuration \<Rightarrow> bool" where
  "handler_files E a syms dict vc \<longleftrightarrow>
     boost_ok (se_boost E) \<and> se_zmq E \<and> se_pid_file E \<and> \<not> ma_help a \<and> ma_config_server a = None \<and>
     (\<exists>cf sf vf ini conf. ma_c a = Some cf \<and> ma_s a = Some sf \<and> ma_v a = Some vf \<and> sf \<noteq> [] \<and> vf \<noteq> [] \<and>
        se_settings E cf = Some (1, dict) \<and> se_files E sf = Some (to_lines syms) \<and>
        b_read_ini (se_boost E) vf = Some ini \<and> stores_config (se_boost E) ini conf \<and>
        distinct (map (\<lambda>vc. text_of (vn_mic_name vc)) (cf_configs conf)) \<and> vc \<in> set (cf_configs conf)) \<and>
     list_all plain_symbol syms \<and> accepted_settings (se_getBool E) (se_getLong E) dict \<and>
     0 < number_of (vn_venue_id vc) \<and> dict ''MIC'' = vn_mic_name vc \<and> NUL \<notin> set (text_of (vn_mic_name vc))"

lemma c_str_plain: "NUL \<notin> set s \<Longrightarrow> c_str s = s"
  by (auto simp: c_str_def takeWhile_eq_all_conv)

lemma venue_found:
  assumes "boost_ok B" "b_read_ini B vf = Some ini" "stores_config B ini conf"
    and "distinct (map (\<lambda>vc. text_of (vn_mic_name vc)) (cf_configs conf))" "vc \<in> set (cf_configs conf)"
    and "NUL \<notin> set (text_of (vn_mic_name vc))" "ms_mic_string c = text_of (vn_mic_name vc)"
  shows "ReadLocalVenueConfig B vf c = Go (venue_settings vc c)"
  using read_config_stores [OF assms(1-3)] find_venue_name [OF assms(5,4)] c_str_plain [OF assms(6)] assms(7)
  by (simp add: ReadLocalVenueConfig_def get_venue_config_def)

lemma output_dirs_fields [simp]: "ms_publishing_addr (output_dirs c) = ms_publishing_addr c"
  by (simp add: output_dirs_def)

lemma handler_started:
  assumes "handler_files E a syms dict vc"
  defines "cfg \<equiv> given_config (se_getBool E) (se_getLong E) dict vc"
  shows "\<exists>c. md_main E (Some a) c0 = Go (handler_app (ms_publishing_addr c) (syms @ [[]]) cfg, c) \<and>
    (mdc_is_publishing cfg \<and> text_of (vn_market_data_broadcast_addr vc) \<noteq> [] \<longrightarrow>
       ms_publishing_addr c = text_of (vn_market_data_broadcast_addr vc))"
proof -
  obtain cf sf vf ini conf where f: "ma_c a = Some cf" "ma_s a = Some sf" "ma_v a = Some vf" "sf \<noteq> []" "vf \<noteq> []"
      "se_settings E cf = Some (1, dict)" "se_files E sf = Some (to_lines syms)"
    and ini: "b_read_ini (se_boost E) vf = Some ini" "stores_config (se_boost E) ini conf"
      "distinct (map (\<lambda>vc. text_of (vn_mic_name vc)) (cf_configs conf))" "vc \<in> set (cf_configs conf)"
    and o: "boost_ok (se_boost E)" "se_zmq E" "se_pid_file E" "\<not> ma_help a" "ma_config_server a = None"
      "list_all plain_symbol syms" "accepted_settings (se_getBool E) (se_getLong E) dict" "0 < number_of (vn_venue_id vc)"
      "dict ''MIC'' = vn_mic_name vc" "NUL \<notin> set (text_of (vn_mic_name vc))"
    using assms(1) unfolding handler_files_def by blast
  define c1 where "c1 = snd (ReadCommandLineParams (Some a) (c0\<lparr>ms_print_debug := False, ms_is_logging := True\<rparr>))"
  have c1: "ReadCommandLineParams (Some a) (c0\<lparr>ms_print_debug := False, ms_is_logging := True\<rparr>) = (0, c1)"
    "ms_symbol_file_name c1 = sf" "ms_config_file_name c1 = cf" "ms_venue_config_file_name c1 = vf"
    using f o by (simp_all add: c1_def ReadCommandLineParams_def option_or_def)
  have syms: "readSymbolsFile (b_trim (se_boost E)) (se_files E) sf = syms @ [[]]"
    by (rule symbols_of_file [where files = "se_files E" and name = sf, OF o(1) o(6) f(7) f(4)])
  obtain c2 where c2: "ReadFIXConfig (se_getBool E) (se_getLong E) dict c1 = Some (0, c2)"
      "ms_mic_string c2 = dict_string dict ''MIC''" "ms_venue_config_file_name c2 = vf"
      "\<exists>c3. venue_settings vc c2 = (0, c3) \<and> md_config.truncate c3 = cfg \<and>
       (mdc_is_publishing c3 \<and> text_of (vn_market_data_broadcast_addr vc) \<noteq> [] \<longrightarrow>
          ms_publishing_addr c3 = text_of (vn_market_data_broadcast_addr vc))"
    using fix_config_accepted [OF o(7), of c1] o(8) c1(4) unfolding cfg_def by metis
  then obtain c3 where c3: "venue_settings vc c2 = (0, c3)" "md_config.truncate c3 = cfg"
      "mdc_is_publishing c3 \<and> text_of (vn_market_data_broadcast_addr vc) \<noteq> [] \<longrightarrow>
          ms_publishing_addr c3 = text_of (vn_market_data_broadcast_addr vc)" by blast
  have "ms_mic_string c2 = text_of (vn_mic_name vc)" using c2(2) o(9) by (simp add: dict_string_def text_of_def)
  then have v: "ReadLocalVenueConfig (se_boost E) vf c2 = Go (0, c3)"
    using venue_found [OF o(1) ini o(10)] c3(1) by simp
  have "mdc_is_publishing cfg = mdc_is_publishing c3" using c3(2) by (auto simp: md_config.truncate_def)
  then show ?thesis
    using c3(2,3) f(5) o(2,3)
    by (simp add: handler_app_def md_main_def c1 check_code_def syms read_fix_settings_def f(6) c2(1,3) read_venue_settings_def v Let_def)
qed

lemma subscribed_file: "list_all plain_symbol syms \<Longrightarrow> subscribed (syms @ [[]]) = subscribed syms"
proof -
  assume "list_all plain_symbol syms"
  then have "takeWhile (\<lambda>s. s \<noteq> []) (syms @ [[]]) = syms" "takeWhile (\<lambda>s. s \<noteq> []) syms = syms"
    by (auto simp: takeWhile_append takeWhile_eq_all_conv list_all_iff plain_symbol_def)
  then show ?thesis by (simp only: subscribed_def)
qed

text \<open>C35. The market data handler from its files on: started with a symbol file with one symbol on each
  line, settings that are accepted and a file of venues that has the venue, it gets to QuickFIX. If the
  settings let it publish, it processes after a logon every sequence of well-formed messages, its books are
  the quotes announced for the symbols of the file, and it broadcasts the best prices (after an incremental
  refresh those of the symbol of the last entry), with the venue's id, to a socket bound to the venue's
  address, when the venue has one; if not, it does so for incremental refreshes, and broadcasts nothing.
  This holds as long as no two of the ids have the same hash, the exchange follows the protocol (no live id
  is announced again, no quote deleted that is not live, no message without entries or for a symbol that is
  not in the file) and a broadcast fits its buffer.\<close>

theorem handler_from_files:
  assumes "handler_files E a syms dict vc" and "cfg = given_config (se_getBool E) (se_getLong E) dict vc"
    and "inj_on entry_hash I" and "map (read_message M cfg) msgs = map Some evs"
    and "\<forall>ev \<in> set evs. event_ids ev \<subseteq> I" and "can_process cfg evs"
    and "event_run cfg evs (subscribed syms) = Some (f, out)"
    and "\<forall>b \<in> set out. me_size M b < MAX_MSG_SIZE"
  shows "\<exists>ap0 c ap ap'. md_main E (Some a) c0 = Go (ap0, c) \<and> md_onLogon sess ap0 = (None, ap) \<and>
    md_session_run M msgs ap = (replicate (length msgs) None, ap') \<and> feed_rel I ap' f \<and> md_bcast ap' = out \<and>
    (mdc_is_publishing cfg \<and> text_of (vn_market_data_broadcast_addr vc) \<noteq> [] \<longrightarrow>
       md_socket ap' = Some (text_of (vn_market_data_broadcast_addr vc)))"
proof -
  obtain c where c: "md_main E (Some a) c0 = Go (handler_app (ms_publishing_addr c) (syms @ [[]]) cfg, c)"
    "mdc_is_publishing cfg \<and> text_of (vn_market_data_broadcast_addr vc) \<noteq> [] \<longrightarrow>
       ms_publishing_addr c = text_of (vn_market_data_broadcast_addr vc)"
    using handler_started [OF assms(1), of c0] assms(2) by blast
  have "mdc_version cfg = 42" by (simp add: assms(2) given_config_def)
  then obtain ap where ap: "md_onLogon sess (handler_app (ms_publishing_addr c) (syms @ [[]]) cfg) = (None, ap)"
    "feed_rel I ap (subscribed (syms @ [[]]))" "md_cfg ap = cfg" "md_bcast ap = []"
    "md_socket ap = (if mdc_is_publishing cfg then Some (ms_publishing_addr c) else None)"
    using logon_feed by blast
  have "subscribed (syms @ [[]]) = subscribed syms"
    using assms(1) by (intro subscribed_file) (simp add: handler_files_def)
  moreover have "out = [] \<or> md_socket ap \<noteq> None" using can_process_socket [OF assms(6,7)] ap(5) by auto
  ultimately obtain ap' where "md_session_run M msgs ap = (replicate (length msgs) None, ap')" "feed_rel I ap' f"
    "md_bcast ap' = out" "md_socket ap' = md_socket ap"
    using session_feed [OF assms(3), of ap "subscribed syms" M msgs evs f out] ap(2-4) assms(4,5,7,8) by auto
  then show ?thesis using c ap(1,5) by auto
qed

section \<open>The aggregated book started from files\<close>

definition venue_ids :: "configuration \<Rightarrow> uint32 list" where
  "venue_ids c = map (\<lambda>vc. word_of_int (number_of (vn_venue_id vc))) (cf_configs c)"

definition venue_addrs :: "configuration \<Rightarrow> string list" where
  "venue_addrs c = map (\<lambda>vc. text_of (vn_market_data_broadcast_addr vc)) (cf_configs c)"

text \<open>A file with one symbol on each line, the last without the end of the line.\<close>

lemma symbols_unended:
  assumes "boost_ok B" "list_all plain_symbol (ss @ [s])" "files name = Some (to_lines ss @ s)" "name \<noteq> []"
  shows "readSymbolsFile (b_trim B) files name = ss @ [s]"
proof -
  have "read_lines (to_lines ss @ s) = ss @ [s]"
    using assms(2) by (intro read_lines_to_lines) (auto simp: list_all_iff plain_symbol_def)
  moreover have "map (b_trim B) (ss @ [s]) = ss @ [s]"
    using assms(2) boost_trim [OF assms(1)] by (intro map_idI) (auto simp: list_all_iff plain_symbol_def)
  ultimately show ?thesis using assms(3,4) by (simp add: readSymbolsFile_def)
qed

text \<open>However it starts, the global socket is not set.\<close>

lemma agg_main_no_sock:
  assumes "agg_main B parse z files args = Go (a, addrs)"
  shows "\<not> bcast_sock a"
  using assms agg_setup_sock
  by (auto simp: agg_main_def agg_start_def Let_def split: option.splits if_splits prod.splits bool.splits cs_result.splits)

text \<open>C37. The aggregated book from its files on: with a file of venues and a file with one symbol on each
  line, the last line not ended, it starts with a listener for the address of every venue, at least one,
  and it never listens: the run of each listener dereferences the global socket, a null pointer, before it
  connects, and where assertions are compiled in the aggregator fails one on the same socket. That
  is the one thing missing: with the socket set, in either build, each broadcast is the best of the
  venues' last quotes.\<close>

theorem agg_from_files:
  assumes "boost_ok B" and "list_all plain_symbol (ss @ [s])" and "files sf = Some (to_lines ss @ s)" and "sf \<noteq> []"
    and "b_read_ini B cf = Some ini" and "stores_config B ini c" and "book_config (venue_ids c) (ss @ [s])"
    and "clk_ok clk" and "small_msgs bsz" and "\<forall>p \<in> set ps. sym_ok (m_symbol p)"
  shows "\<exists>a. agg_main B parse z files (Some \<lparr>aa_help = False, aa_c = Some cf, aa_s = Some sf\<rparr>) = Go (a, venue_addrs c) \<and>
    venue_addrs c \<noteq> [] \<and> (\<forall>addr bind_ok frames. listener_run bind_ok addr frames a = None) \<and>
    agg_run True clk bsz (length (ss @ [s])) ps a = None \<and>
    (\<exists>out a'. agg_run asserts clk bsz (length (ss @ [s])) ps (a\<lparr>bcast_sock := True\<rparr>) = Some (out, a') \<and>
      list_all2 best_of (expected clk (venue_ids c) (ss @ [s]) ps (\<lambda>_ _. None) 0) (map snd out))"
proof -
  obtain a where a: "agg_setup (venue_ids c) (ss @ [s]) = Some a"
    "arel clk (venue_ids c) (\<lambda>_ _. None) (ss @ [s]) a" "clock_reads a = 0"
    using agg_setup_ok [OF assms(7)] by blast
  have c: "cf_configs c \<noteq> []" "length (ss @ [s]) < MAX_SYMBOLS"
    using assms(7) by (auto simp: book_config_def venue_ids_def MAX_SYMBOLS_def)
  then have go: "agg_main B parse z files (Some \<lparr>aa_help = False, aa_c = Some cf, aa_s = Some sf\<rparr>) = Go (a, venue_addrs c)"
    using a(1) read_config_stores [OF assms(1,5,6)] symbols_unended [where files = files, OF assms(1-4)]
    by (simp add: agg_main_def agg_start_def venue_ids_def venue_addrs_def)
  have "arel clk (venue_ids c) (\<lambda>_ _. None) (ss @ [s]) (a\<lparr>bcast_sock := True\<rparr>)" using a(2) by (simp add: arel_def)
  from agg_loop_sim [OF assms(8,9,7) this assms(10)] show ?thesis
    using go agg_main_no_sock [OF go] a(3) c(1) by (auto simp: agg_run_def listener_run_def venue_addrs_def)
qed

lemma init_short:
  "s \<in> set (take n ss) \<Longrightarrow> length s < 7 \<Longrightarrow> init_instruments conf n ss is = None"
proof (induction conf n ss "is" rule: init_instruments.induct)
  case (2 conf n s1 ss i "is")
  show ?case
  proof (cases "length s1 < 7")
    case False
    then have "s \<in> set (take n ss)" using 2(2,3) by auto
    then show ?thesis using 2(1) 2(3) False by (auto simp: STRCPY8_def split: bind_splits)
  qed (simp add: STRCPY8_def)
qed auto

text \<open>A file of symbols whose last line is ended, as lines usually are, has an empty line for the
  aggregated book: with any configuration, from a file or the server, it does not start; where the rest
  is in order it reads past the end of the empty symbol.\<close>

theorem agg_final_newline:
  assumes "boost_ok B" and "list_all plain_symbol syms" and "files sf = Some (to_lines syms)" and "sf \<noteq> []"
  shows "(\<forall>parse z args x. aa_s args = Some sf \<longrightarrow> agg_main B parse z files (Some args) \<noteq> Go x) \<and>
    (\<forall>parse z cf ini c. b_read_ini B cf = Some ini \<and> stores_config B ini c \<and> cf_configs c \<noteq> [] \<and> length syms < 499 \<longrightarrow>
      agg_main B parse z files (Some \<lparr>aa_help = False, aa_c = Some cf, aa_s = Some sf\<rparr>) = StopUndefined)"
proof -
  have ss: "readSymbolsFile (b_trim B) files sf = syms @ [[]]" by (rule symbols_of_file [where files = files, OF assms])
  have "agg_setup conf (syms @ [[]]) = None" for conf
    by (simp add: agg_setup_def initialize_instrument_info_def init_short [of "[]"])
  then have st: "cf_configs c \<noteq> [] \<Longrightarrow> agg_start c (syms @ [[]]) = StopUndefined"
    "agg_start c (syms @ [[]]) \<noteq> Go x" for c x by (simp_all add: agg_start_def)
  show ?thesis
    using read_config_stores [OF assms(1)]
    by (auto simp: agg_main_def ss st Let_def MAX_SYMBOLS_def split: option.splits cs_result.splits prod.splits bool.splits)
qed

section \<open>Sections with a dot\<close>

text \<open>C38. In a file of venues whose list names a section with a dot that is not a path to a section, as
  \<^verbatim>\<open>aggregated_book/config.ini\<close> does, reading stops there, the venues before it and an empty one
  being read: neither the market data handler nor the aggregated book starts with such a file.\<close>

theorem dotted_section_stops:
  assumes "boost_ok B" and "b_read_ini B vf = Some ini" and "vf \<noteq> []"
    and "b_find B ini ''GLOBAL'' = Some g" and "stores_globals B g c" and "b_find B ini ''VENUES'' = Some v"
    and "b_items B v = es @ e # later" and "list_all2 (stores_entry B ini) es (cf_configs c)"
    and "dotted_entry B ini e"
  shows "readVenueConfigFile B vf (Some no_configuration) = (False, Some (add_config c no_venue)) \<and>
    (\<forall>E a c0 x. se_boost E = B \<and> ma_v a = Some vf \<longrightarrow> md_main E (Some a) c0 \<noteq> Go x) \<and>
    (\<forall>parse z files a x. aa_c a = Some vf \<longrightarrow> agg_main B parse z files (Some a) \<noteq> Go x)"
proof -
  have r: "readVenueConfigFile B vf (Some no_configuration) = (False, Some (add_config c no_venue))"
    by (rule dotted_read [OF assms(1,2,4-9)])
  have p: "ms_venue_config_file_name c1 = vf"
    if "ma_v a = Some vf" "check_code (ReadCommandLineParams (Some a) c0) = Go c1" for a c0 c1
    using that by (auto simp: ReadCommandLineParams_def check_code_def option_or_def Let_def split: if_splits option.splits)
  have f: "ms_venue_config_file_name c2 = ms_venue_config_file_name c1" if "read_fix_settings E c1 = Go c2" for E c1 c2
    using that by (auto simp: read_fix_settings_def check_code_def ReadFIXConfig_def Let_def bind_eq_Some_conv
        split: if_splits option.splits prod.splits)
  have "md_main E (Some a) c0 \<noteq> Go x" if "se_boost E = B" "ma_v a = Some vf" for E a c0 x
  proof
    assume "md_main E (Some a) c0 = Go x"
    then obtain c1 c2 c3 where "check_code (ReadCommandLineParams (Some a) (c0\<lparr>ms_print_debug := False, ms_is_logging := True\<rparr>)) = Go c1"
      "read_fix_settings E c1 = Go c2" "read_venue_settings E c2 = Go c3"
      by (auto simp: md_main_def Let_def go_on_Go split: if_splits)
    moreover from this have "ms_venue_config_file_name c2 = vf" using p f that(2) by metis
    ultimately show False using that(1) assms(3) r by (simp add: read_venue_settings_def ReadLocalVenueConfig_def)
  qed
  moreover have "agg_main B parse z files (Some a) \<noteq> Go x" if "aa_c a = Some vf" for parse z files a x
    using that r by (auto simp: agg_main_def Let_def split: option.splits)
  ultimately show ?thesis using r by blast
qed

section \<open>The gateway's settings\<close>

text \<open>A gateway that starts has its comp ids and its two addresses, and the id of a venue; the address for
  the broadcast of logs is empty, whatever the configuration says.\<close>

lemma gw_main_steps:
  assumes "gw_main args settings getBool conf pid_file cur lim0 = Go (ap, c, m)"
  shows "\<exists>dict c1 f c2 d. read_gw_settings getBool dict = Some (c1, f) \<and> cfg_senderCompID c1 \<noteq> [] \<and>
    cfg_targetCompID c1 \<noteq> [] \<and>
    gw_venue_settings (get_venue_config (Some conf) (c_str (gs_mic_code c1))) c1 = Go c2 \<and>
    ap = gw_application cur lim0 c2 f \<and> c = c2\<lparr>gs_printDebug := d\<rparr>"
  using assms unfolding gw_main_def go_on_Go
  by (clarsimp simp: go_on_Go split: option.splits if_splits) metis

lemma gw_application_config [simp]: "ap_config (gw_application cur lim0 c f) = app_config.truncate c"
  by (simp add: gw_application_def setUseCurrency15_def setLimitOrderChar40_def setAccount1_def setHandlInst21_def
      new_application_def)

lemma gateway_settings:
  assumes "gw_main args settings getBool conf pid_file cur lim0 = Go (ap, c, m)"
  shows "cfg_senderCompID c \<noteq> [] \<and> cfg_targetCompID c \<noteq> [] \<and> gs_orderListenerAddr c \<noteq> [] \<and>
    gs_pingListenerAddr c \<noteq> [] \<and> gs_loggingBroadcastAddr c = [] \<and> ap_config ap = app_config.truncate c \<and>
    0 < number_of (vn_venue_id (get_venue_config (Some conf) (c_str (gs_mic_code c))))"
proof -
  obtain dict c1 f c2 d where g: "read_gw_settings getBool dict = Some (c1, f)" "cfg_senderCompID c1 \<noteq> []"
    "cfg_targetCompID c1 \<noteq> []" "gw_venue_settings (get_venue_config (Some conf) (c_str (gs_mic_code c1))) c1 = Go c2"
    "ap = gw_application cur lim0 c2 f" "c = c2\<lparr>gs_printDebug := d\<rparr>"
    using gw_main_steps [OF assms] by blast
  have "gs_loggingBroadcastAddr c1 = []" using g(1) by (auto simp: read_gw_settings_def bind_eq_Some_conv)
  then show ?thesis
    using g(2-6) by (auto simp: gw_venue_settings_def text_of_def app_config.truncate_def split: if_splits)
qed

section \<open>The theorems on concrete files\<close>

definition demo_settings :: "string \<rightharpoonup> string" where
  "demo_settings = [''MIC'' \<mapsto> ''FXCM'', ''Username'' \<mapsto> ''u'', ''Password'' \<mapsto> ''p'', ''FIXVersion'' \<mapsto> ''42'',
     ''SendIndividualMarketDataRequests'' \<mapsto> ''Y'', ''should_publish_prices'' \<mapsto> ''Y'', ''ResetSeqNo'' \<mapsto> ''Y'',
     ''MarketDepth'' \<mapsto> ''5'', ''MDUpdateType'' \<mapsto> ''1'']"

definition demo_start_env :: "(ptree, unit) start_env" where
  "demo_start_env = \<lparr>se_zmq = True, se_pid_file = True, se_files = [''symbols.cfg'' \<mapsto> to_lines [''EUR/USD'']],
     se_settings = [''fix.cfg'' \<mapsto> (1, demo_settings)], se_getBool = [''Y'' \<mapsto> True, ''N'' \<mapsto> False],
     se_getLong = [''1'' \<mapsto> 1], se_boost = demo_boost, se_parse = (\<lambda>_. (False, no_configuration)),
     se_server = \<lparr>zc_context = True, zc_socket = True, zc_connect = 0, zc_init = 0, zc_send = 0, zc_polls = []\<rparr>\<rparr>"

definition demo_md_args :: md_args where
  "demo_md_args = \<lparr>ma_help = False, ma_c = Some ''fix.cfg'', ma_v = Some ''venues.ini'', ma_s = Some ''symbols.cfg'',
     ma_o = None, ma_config_server = None, ma_nolog = False, ma_d = False\<rparr>"

lemma demo_atoi: "atoi ''42'' = 42" "atoi ''5'' = 5"
  by (simp_all add: atoi_def c_str_def NUL_def strtol10_def read_sign_def is_space_def ord_c_def is_digit_def
      digits_val_def digit_val_def LONG_MIN_def LONG_MAX_def int_of_long_def)

lemma demo_given: "given_config (se_getBool demo_start_env) (se_getLong demo_start_env) demo_settings demo_fxcm = demo_cfg"
  by (simp add: given_config_def demo_start_env_def demo_settings_def demo_fxcm_def demo_cfg_def number_of_def
      dict_string_def flag_def dict_bool_def demo_atoi)

lemma demo_plain: "list_all plain_symbol [''EUR/USD'']"
  by (simp add: plain_symbol_def newline_def is_space_def ord_c_def)

lemma demo_accepted: "accepted_settings (se_getBool demo_start_env) (se_getLong demo_start_env) demo_settings"
  by (simp add: accepted_settings_def demo_start_env_def demo_settings_def dict_bool_def dict_string_def demo_atoi) blast

lemma demo_handler_files: "handler_files demo_start_env demo_md_args [''EUR/USD''] demo_settings demo_fxcm"
proof -
  have "demo_settings ''MIC'' = vn_mic_name demo_fxcm" "0 < number_of (vn_venue_id demo_fxcm)"
    by (simp_all add: demo_settings_def demo_fxcm_def number_of_def)
  then show ?thesis
    using demo_venues demo_stored demo_plain demo_accepted unfolding handler_files_def
    by (simp add: demo_start_env_def demo_md_args_def) blast
qed

lemma handler_from_files_witness:
  "\<forall>c0. \<exists>ap0 c ap ap'. md_main demo_start_env (Some demo_md_args) c0 = Go (ap0, c) \<and> md_onLogon (''S'', ''T'') ap0 = (None, ap) \<and>
     md_session_run demo_env [MarketDataSnapshotFullRefresh demo_snapshot, MarketDataIncrementalRefresh demo_update] ap
       = ([None, None], ap') \<and> length (md_bcast ap') = 2 \<and> md_socket ap' = Some ''tcp://*:7''"
proof
  fix c0
  let ?msgs = "[MarketDataSnapshotFullRefresh demo_snapshot, MarketDataIncrementalRefresh demo_update]"
  have v: "mdc_is_publishing demo_cfg" "text_of (vn_market_data_broadcast_addr demo_fxcm) = ''tcp://*:7''"
    by (simp_all add: demo_cfg_def demo_fxcm_def text_of_def)
  obtain ap0 c ap ap' out where "md_main demo_start_env (Some demo_md_args) c0 = Go (ap0, c)"
    "md_onLogon (''S'', ''T'') ap0 = (None, ap)"
    "md_session_run demo_env ?msgs ap = (replicate (length ?msgs) None, ap')" "md_bcast ap' = out" "length out = 2"
    "md_socket ap' = Some ''tcp://*:7''"
    using handler_from_files [OF demo_handler_files demo_given [symmetric] demo_hashes _ _ demo_can demo_run,
        of demo_env ?msgs c0 "(''S'', ''T'')"] v
    by (auto simp: demo_events quote_ids_def feed_ids_def demo_fits)
  then show "\<exists>ap0 c ap ap'. md_main demo_start_env (Some demo_md_args) c0 = Go (ap0, c) \<and> md_onLogon (''S'', ''T'') ap0 = (None, ap) \<and>
     md_session_run demo_env ?msgs ap = ([None, None], ap') \<and> length (md_bcast ap') = 2 \<and> md_socket ap' = Some ''tcp://*:7''"
    by (simp add: numeral_2_eq_2)
qed

lemma agg_from_files_witness:
  "\<exists>a. agg_main demo_boost (\<lambda>_ :: unit. (False, no_configuration)) (se_server demo_start_env) [''s'' \<mapsto> ''EUR/USD'']
      (Some \<lparr>aa_help = False, aa_c = Some ''venues.ini'', aa_s = Some ''s''\<rparr>) = Go (a, [''tcp://*:7'', []]) \<and>
     listener_run True ''tcp://*:7'' [] a = None \<and>
     (\<exists>out a'. agg_run True demo_clock (\<lambda>_. 64) 1 [demo_quote] (a\<lparr>bcast_sock := True\<rparr>) = Some (out, a'))"
proof -
  have ids: "venue_ids demo_conf = [7, 9]" "venue_addrs demo_conf = [''tcp://*:7'', []]"
    by (simp_all add: venue_ids_def venue_addrs_def demo_conf_def demo_fxcm_def demo_xcde_def no_venue_def number_of_def text_of_def)
  have f: "[''s'' \<mapsto> ''EUR/USD''] ''s'' = Some (to_lines [] @ ''EUR/USD'')" by (simp add: to_lines_def)
  have "list_all plain_symbol ([] @ [''EUR/USD''])" "book_config (venue_ids demo_conf) ([] @ [''EUR/USD''])"
    "\<forall>p \<in> set [demo_quote]. sym_ok (m_symbol p)" using demo_plain demo_book(3,4) by (simp_all add: ids)
  from agg_from_files [where files = "[''s'' \<mapsto> ''EUR/USD'']" and asserts = True, OF demo_boost_facts(1) this(1) f _ demo_boost_facts(2)
      demo_stored this(2) demo_book(1,2) this(3)]
  show ?thesis by (simp add: ids del: agg_loop.simps) blast
qed

lemma agg_final_newline_witness:
  "agg_main demo_boost (\<lambda>_ :: unit. (False, no_configuration)) (se_server demo_start_env)
     [''symbols.cfg'' \<mapsto> to_lines [''EUR/USD'']] (Some \<lparr>aa_help = False, aa_c = Some ''venues.ini'', aa_s = Some ''symbols.cfg''\<rparr>)
   = StopUndefined"
proof -
  have f: "[''symbols.cfg'' \<mapsto> to_lines [''EUR/USD'']] ''symbols.cfg'' = Some (to_lines [''EUR/USD''])" by simp
  have c: "b_read_ini demo_boost ''venues.ini'' = Some demo_ini \<and> stores_config demo_boost demo_ini demo_conf \<and>
      cf_configs demo_conf \<noteq> [] \<and> length [''EUR/USD''] < 499"
    using demo_stored by (simp add: demo_conf_def)
  note t = agg_final_newline [where files = "[''symbols.cfg'' \<mapsto> to_lines [''EUR/USD'']]" and sf = "''symbols.cfg''",
      OF demo_boost_facts(1) demo_plain f]
  show ?thesis by (rule t [THEN conjunct2, rule_format, OF _ c]) simp
qed

definition dotted_ini :: ptree where
  "dotted_ini = PTree [] [(''GLOBAL'', PTree [] []), (''VENUES'', PTree [] [(''venue1'', PTree ''FXCM.dev'' [])]),
     (''FXCM.dev'', PTree [] [(''venue_id'', PTree ''7'' [])])]"

lemma dotted_section_stops_witness:
  "readVenueConfigFile (pt_boost [''config.ini'' \<mapsto> dotted_ini]) ''config.ini'' (Some no_configuration) =
     (False, Some (add_config no_configuration no_venue))"
proof -
  let ?B = "pt_boost [''config.ini'' \<mapsto> dotted_ini]"
  have "dotted_entry ?B dotted_ini (''venue1'', PTree ''FXCM.dev'' [])"
    unfolding dotted_entry_def
    by (rule exI [of _ "''FXCM''"], rule exI [of _ "''dev''"])
      (simp add: section_name_def pt_boost_def dotted_ini_def plain_name_def isQuote_def)
  moreover have "b_find ?B dotted_ini ''GLOBAL'' = Some (PTree [] [])"
    "b_find ?B dotted_ini ''VENUES'' = Some (PTree [] [(''venue1'', PTree ''FXCM.dev'' [])])"
    "b_items ?B (PTree [] [(''venue1'', PTree ''FXCM.dev'' [])]) = [] @ (''venue1'', PTree ''FXCM.dev'' []) # []"
    "b_read_ini ?B ''config.ini'' = Some dotted_ini" "stores_globals ?B (PTree [] []) no_configuration"
    by (simp_all add: pt_boost_def dotted_ini_def stores_globals_def stores_text_def stores_value_def no_configuration_def)
  moreover have "list_all2 (stores_entry ?B dotted_ini) [] (cf_configs no_configuration)" by (simp add: no_configuration_def)
  ultimately show ?thesis
    using dotted_section_stops [OF pt_boost_ok, of "[''config.ini'' \<mapsto> dotted_ini]" "''config.ini''" dotted_ini] by blast
qed

end
