(* ===== verification/BookV3.thy ===== *)
theory BookV3
  imports Numeric Types
begin

text \<open>
  The array order book of \<^verbatim>\<open>order_book/order_book.v3\<close>, a prototype: a book is created with its price
  levels, adding an order only checks the bounds, deleting and changing one do nothing. Whether the three
  allocations succeed is an input; \<open>None\<close> is undefined behaviour or a failing assertion.
  The properties: what the prices and bounds of a book are, and which orders it takes.
\<close>

section \<open>Books\<close>

definition E_OUT_OF_BOUNDS :: int where "E_OUT_OF_BOUNDS = -2"
definition MAX_ORDERS_PER_LEVEL :: nat where "MAX_ORDERS_PER_LEVEL = 100"
definition MAX_ORDER_ID_LEN :: nat where "MAX_ORDER_ID_LEN = 32"
definition ORDER_ID_INIT_CHAR :: char where "ORDER_ID_INIT_CHAR = CHR 0xAA"

record slot =
  sl_quantity :: uint32
  sl_order_id :: string

record price_level =
  pl_price :: dbl
  pl_aggregate_qty :: uint32
  pl_num_orders :: uint32
  pl_bids :: "slot list"
  pl_asks :: "slot list"

record array_book =
  ab_symbol :: string
  ab_init_price :: dbl
  ab_multiplier :: uint32
  ab_num_levels :: uint32
  ab_one_way_offset_pct :: dbl
  ab_tick_size :: dbl
  ab_lower_price_bound :: dbl
  ab_upper_price_bound :: dbl
  ab_levels :: "price_level list"
  ab_best_bid :: "price_level option"
  ab_best_ask :: "price_level option"

text \<open>Memory set to zero.\<close>

definition zero_slot :: slot where
  "zero_slot = \<lparr>sl_quantity = 0, sl_order_id = replicate MAX_ORDER_ID_LEN NUL\<rparr>"

definition zero_level :: price_level where
  "zero_level = \<lparr>pl_price = 0, pl_aggregate_qty = 0, pl_num_orders = 0,
     pl_bids = replicate MAX_ORDERS_PER_LEVEL zero_slot, pl_asks = replicate MAX_ORDERS_PER_LEVEL zero_slot\<rparr>"

text \<open>An unsigned factor times a double, back as unsigned.\<close>

definition scaled :: "uint32 \<Rightarrow> dbl \<Rightarrow> uint32 option" where
  "scaled m x = u32_of_dbl (dbl_round (of_int (uint m) * x))"

text \<open>The quotient of two unsigned numbers, as a double.\<close>

definition quot :: "uint32 \<Rightarrow> uint32 \<Rightarrow> dbl" where
  "quot a m = of_int (uint (a div m))"

text \<open>The ids of the bids are set twice, those of the asks never.\<close>

definition init_level :: "uint32 \<Rightarrow> uint32 \<Rightarrow> uint32 \<Rightarrow> nat \<Rightarrow> price_level \<Rightarrow> price_level" where
  "init_level big_lower_bound big_tick_increment m i l =
     l\<lparr>pl_price := quot (big_lower_bound + of_nat i * big_tick_increment) m, pl_aggregate_qty := 0, pl_num_orders := 0,
       pl_bids := map (\<lambda>s. \<lparr>sl_quantity = 0, sl_order_id = replicate MAX_ORDER_ID_LEN ORDER_ID_INIT_CHAR\<rparr>) (pl_bids l),
       pl_asks := map (\<lambda>s. s\<lparr>sl_quantity := 0\<rparr>) (pl_asks l)\<rparr>"

definition init_order_book :: "array_book option \<Rightarrow> (int \<times> array_book option) option" where
  "init_order_book ob = (case ob of None \<Rightarrow> Some (-1, None)
   | Some b \<Rightarrow> do {
       big_init_price \<leftarrow> scaled (ab_multiplier b) (ab_init_price b);
       big_tick_increment \<leftarrow> scaled (ab_multiplier b) (ab_tick_size b);
       big_offset \<leftarrow> scaled (ab_multiplier b) (dbl_round (ab_one_way_offset_pct b * ab_init_price b));
       let big_lower_bound = big_init_price - big_offset;
           ls = map2 (init_level big_lower_bound big_tick_increment (ab_multiplier b)) [0..<length (ab_levels b)] (ab_levels b)
       in if ab_multiplier b = 0 \<and> ab_num_levels b \<noteq> 0 then None
          else Some (0, Some (b\<lparr>ab_levels := ls, ab_best_bid := None, ab_best_ask := None\<rparr>)) })"

record allocs =
  al_levels :: bool
  al_book :: bool
  al_symbol :: bool

text \<open>The inner option is the null pointer.\<close>

definition new_order_book ::
  "allocs \<Rightarrow> string option \<Rightarrow> dbl \<Rightarrow> uint32 \<Rightarrow> dbl \<Rightarrow> dbl \<Rightarrow> array_book option option" where
  "new_order_book al sym_ptr init_price multiplier one_way_offset_pct tick_size = (case sym_ptr of None \<Rightarrow> Some None
   | Some s \<Rightarrow> do {
       big_init_price \<leftarrow> scaled multiplier init_price;
       big_tick_increment \<leftarrow> scaled multiplier tick_size;
       big_offset \<leftarrow> scaled multiplier (dbl_round (one_way_offset_pct * init_price));
       let big_upper_bound = big_init_price + big_offset;
           big_lower_bound = big_init_price - big_offset;
           range = big_upper_bound - big_lower_bound
       in if big_tick_increment < 1 then Some None
          else let num_levels = range div big_tick_increment in
            if \<not> big_upper_bound > big_lower_bound then None
            else if \<not> al_levels al then Some None
            else if \<not> al_book al then Some None
            else if \<not> al_symbol al then None
            else map_option snd (init_order_book (Some
              \<lparr>ab_symbol = c_str s, ab_init_price = init_price, ab_multiplier = multiplier, ab_num_levels = num_levels,
               ab_one_way_offset_pct = one_way_offset_pct, ab_tick_size = tick_size,
               ab_lower_price_bound = quot big_lower_bound multiplier, ab_upper_price_bound = quot big_upper_bound multiplier,
               ab_levels = replicate (unat num_levels) zero_level, ab_best_bid = None, ab_best_ask = None\<rparr>)) })"

definition validate_init_price :: "array_book \<Rightarrow> int option" where
  "validate_init_price b = do {
     big_init_price \<leftarrow> scaled (ab_multiplier b) (ab_init_price b);
     big_tick_increment \<leftarrow> scaled (ab_multiplier b) (ab_tick_size b);
     (if big_tick_increment = 0 then None else Some (if big_init_price mod big_tick_increment \<noteq> 0 then -1 else 0)) }"

definition array_addOrder :: "array_book option \<Rightarrow> side \<Rightarrow> string \<Rightarrow> dbl \<Rightarrow> uint32 \<Rightarrow> (int \<times> array_book) option" where
  "array_addOrder ob sd order_id price quantity = (case ob of None \<Rightarrow> None
     | Some b \<Rightarrow> if price > ab_upper_price_bound b \<or> price < ab_lower_price_bound b then Some (E_OUT_OF_BOUNDS, b)
         else Some (0, b))"

definition array_delOrder :: "array_book option \<Rightarrow> side \<Rightarrow> string \<Rightarrow> dbl \<Rightarrow> uint32 \<Rightarrow> int \<times> array_book option" where
  "array_delOrder ob sd order_id price quantity = (0, ob)"

definition array_modOrder :: "array_book option \<Rightarrow> side \<Rightarrow> string \<Rightarrow> dbl \<Rightarrow> uint32 \<Rightarrow> int \<times> array_book option" where
  "array_modOrder ob sd order_id new_price new_quantity = (0, ob)"

definition array_best_bid :: "array_book option \<Rightarrow> price_level option" where "array_best_bid ob = None"
definition array_best_ask :: "array_book option \<Rightarrow> price_level option" where "array_best_ask ob = None"

text \<open>The numbers that are printed; the first level is read even when there is none.\<close>

definition array_dump :: "array_book option \<Rightarrow> dbl list option" where
  "array_dump ob = (case ob of None \<Rightarrow> Some []
     | Some b \<Rightarrow> (case ab_levels b of [] \<Rightarrow> None
         | l # _ \<Rightarrow> Some [ab_init_price b, of_int (uint (ab_num_levels b)), of_int (uint (ab_multiplier b)),
             ab_one_way_offset_pct b, ab_tick_size b, ab_lower_price_bound b, ab_upper_price_bound b,
             ab_init_price b, pl_price l, of_int (uint (ab_num_levels b)), ab_init_price b]))"

section \<open>The wrapper class\<close>

datatype wrapper_result = WBook array_book | WThrows

definition order_book_init :: "allocs \<Rightarrow> string option \<Rightarrow> dbl \<Rightarrow> uint32 \<Rightarrow> dbl \<Rightarrow> dbl \<Rightarrow> wrapper_result option" where
  "order_book_init al sym_ptr init_price multiplier one_way_offset_pct min_tick_size =
     (if \<not> 0 \<le> init_price \<or> one_way_offset_pct = 0 then None
      else map_option (\<lambda>ob. case ob of None \<Rightarrow> WThrows | Some b \<Rightarrow> WBook b)
        (new_order_book al sym_ptr init_price multiplier one_way_offset_pct min_tick_size))"

section \<open>Prices and bounds\<close>

lemma quot_mono: "a \<le> b \<Longrightarrow> quot a m \<le> quot b m"
proof -
  assume "a \<le> b"
  then have "uint a div uint m \<le> uint b div uint m"
    by (cases "uint m = 0") (auto simp: word_le_def order_less_le intro!: zdiv_mono1)
  then show ?thesis by (simp only: quot_def uint_div_distrib of_int_le_iff)
qed

lemma quot_int: "quot a m \<in> \<int>"
  by (simp only: quot_def Ints_of_int)

text \<open>No level lies above the upper bound, and none wraps around.\<close>

lemma level_bounds:
  fixes lo hi t :: uint32
  assumes "lo < hi" "0 < t" "i < unat ((hi - lo) div t)"
  shows "lo \<le> lo + of_nat i * t \<and> lo + of_nat i * t \<le> hi"
proof -
  have d: "unat (hi - lo) = unat hi - unat lo" using assms(1) by (simp add: unat_sub word_le_less_eq)
  have "i < unat (hi - lo) div unat t" using assms(3) by (simp add: unat_div_distrib)
  then have "i * unat t \<le> unat (hi - lo)"
    by (meson div_times_less_eq_dividend le_trans less_imp_le mult_le_mono1)
  then have s: "unat lo + i * unat t \<le> unat hi" using d assms(1) by (simp add: word_less_nat_alt)
  then have "unat lo + i * unat t < 2 ^ 32" using unsigned_less [of hi, where ?'a = nat] by simp
  then have "unat (lo + of_nat i * t) = unat lo + i * unat t"
    by (simp add: unat_word_ariths unat_of_nat mod_mult_left_eq mod_add_right_eq)
  then show ?thesis using s by (simp add: word_le_nat_alt)
qed

lemma new_book_shape:
  assumes "new_order_book al sym_ptr p m pct tick = Some (Some b)"
  shows "\<exists>lo hi t. lo < hi \<and> 0 < t \<and> ab_lower_price_bound b = quot lo m \<and> ab_upper_price_bound b = quot hi m \<and>
    ab_num_levels b = (hi - lo) div t \<and> ab_best_bid b = None \<and> ab_best_ask b = None \<and>
    ab_levels b = map (\<lambda>i. init_level lo t m i zero_level) [0..<unat ((hi - lo) div t)]"
proof -
  have z: "map2 f [0..<n] (replicate n z) = map (\<lambda>i. f i z) [0..<n]" for f :: "nat \<Rightarrow> price_level \<Rightarrow> price_level" and n z
    by (intro nth_equalityI) simp_all
  show ?thesis
  proof (cases sym_ptr)
    case (Some s)
    obtain pr t off where v: "scaled m p = Some pr" "scaled m tick = Some t" "scaled m (dbl_round (pct * p)) = Some off"
      using assms Some by (auto simp: new_order_book_def bind_eq_Some_conv)
    define lo hi where lh: "lo = pr - off" "hi = pr + off"
    show ?thesis
      using assms
      by (intro exI [of _ lo] exI [of _ hi] exI [of _ t])
        (auto simp: Some v new_order_book_def init_order_book_def Let_def z word_gt_0 lh [symmetric] split: if_splits)
  qed (use assms in \<open>simp add: new_order_book_def\<close>)
qed

text \<open>C39. A book that is created has as many levels as it says, all empty; their prices and the bounds are
  whole numbers, as the division is one of integers, and the prices lie within the bounds. An order is
  accepted within the bounds, which changes nothing: so a book whose bounds are the same number takes
  orders at that price only, at which then all its levels are.\<close>

theorem array_book_prices:
  assumes "new_order_book al sym_ptr p m pct tick = Some (Some b)"
  shows "length (ab_levels b) = unat (ab_num_levels b) \<and>
    (\<forall>l \<in> set (ab_levels b). ab_lower_price_bound b \<le> pl_price l \<and> pl_price l \<le> ab_upper_price_bound b \<and>
       pl_price l \<in> \<int> \<and> pl_num_orders l = 0) \<and> ab_lower_price_bound b \<in> \<int> \<and> ab_upper_price_bound b \<in> \<int> \<and>
    (\<forall>sd i x q. array_addOrder (Some b) sd i x q =
       Some (if ab_lower_price_bound b \<le> x \<and> x \<le> ab_upper_price_bound b then 0 else E_OUT_OF_BOUNDS, b)) \<and>
    (ab_lower_price_bound b = ab_upper_price_bound b \<longrightarrow>
       (\<forall>sd i x q. x \<noteq> ab_lower_price_bound b \<longrightarrow> array_addOrder (Some b) sd i x q = Some (E_OUT_OF_BOUNDS, b)) \<and>
       (\<forall>l \<in> set (ab_levels b). pl_price l = ab_lower_price_bound b))"
proof -
  obtain lo hi t where s: "lo < hi" "0 < t" "ab_lower_price_bound b = quot lo m" "ab_upper_price_bound b = quot hi m"
    "ab_num_levels b = (hi - lo) div t"
    "ab_levels b = map (\<lambda>i. init_level lo t m i zero_level) [0..<unat ((hi - lo) div t)]"
    using new_book_shape [OF assms] by blast
  have l: "ab_lower_price_bound b \<le> pl_price l \<and> pl_price l \<le> ab_upper_price_bound b \<and> pl_price l \<in> \<int> \<and> pl_num_orders l = 0"
    if "l \<in> set (ab_levels b)" for l
    using that level_bounds [OF s(1,2)] quot_mono quot_int by (auto simp: s(3,4,6) init_level_def)
  have e: "pl_price l = ab_lower_price_bound b" if "l \<in> set (ab_levels b)" "ab_lower_price_bound b = ab_upper_price_bound b" for l
    using l [OF that(1)] that(2) by (intro order_antisym) auto
  have "length (ab_levels b) = unat (ab_num_levels b)" by (simp add: s(5,6))
  then show ?thesis using l e by (auto simp: array_addOrder_def s(3,4) quot_int)
qed

text \<open>The book of a currency pair at 1.25, in hundredths: both bounds are 1, and it does not take an order at
  its own price.\<close>

lemma demo_scaled: "scaled 100 (5/4) = Some 125" "scaled 100 (1/4) = Some 25"
  "scaled 100 (dbl_round (1/8 * (5/4))) = Some 15"
  by code_simp+

lemma array_book_prices_witness:
  "\<exists>b. new_order_book \<lparr>al_levels = True, al_book = True, al_symbol = True\<rparr> (Some ''EUR/USD'') (5/4) 100 (1/8) (1/4) =
     Some (Some b) \<and> array_addOrder (Some b) BID ''id'' (5/4) 1 = Some (E_OUT_OF_BOUNDS, b)"
proof -
  obtain b where b: "new_order_book \<lparr>al_levels = True, al_book = True, al_symbol = True\<rparr> (Some ''EUR/USD'') (5/4) 100 (1/8) (1/4) =
     Some (Some b)" "ab_lower_price_bound b = quot 110 100" "ab_upper_price_bound b = quot 140 100"
    by (simp add: new_order_book_def init_order_book_def demo_scaled demo_scaled(3) [simplified] Let_def)
  have "quot 110 100 = 1" "quot 140 100 = 1" by (simp_all add: quot_def)
  then show ?thesis using array_book_prices [OF b(1)] b by simp
qed

end
