(* ===== verification/MdVersions.thy ===== *)
theory MdVersions
  imports MdFeedCorrect
begin

text \<open>
  The FIX market data handler for every version of FIX. Which versions a handler speaks is fixed when it
  is built, by the macros \<^verbatim>\<open>USE_FIX_42\<close> to \<^verbatim>\<open>USE_FIX_50SP2\<close> of
  \<^verbatim>\<open>md_parser_qf.h\<close>; \<open>MdParser\<close> models the build of the repository. In any build a
  handler of a version that is built in subscribes to its symbols and follows the feed.
\<close>

section \<open>Builds\<close>

record md_build =
  USE_FIX_42 :: bool
  USE_FIX_43 :: bool
  USE_FIX_44 :: bool
  USE_FIX_50 :: bool
  USE_FIX_50SP2 :: bool

text \<open>The values of \<^verbatim>\<open>FIXVersion\<close>.\<close>

definition FIX_42 :: int where "FIX_42 = 42"
definition FIX_43 :: int where "FIX_43 = 43"
definition FIX_44 :: int where "FIX_44 = 44"
definition FIX_50 :: int where "FIX_50 = 50"
definition FIX_50SP2 :: int where "FIX_50SP2 = 52"

lemmas versions = FIX_42_def FIX_43_def FIX_44_def FIX_50_def FIX_50SP2_def

text \<open>The build of the repository.\<close>

definition build42 :: md_build where
  "build42 = \<lparr>USE_FIX_42 = True, USE_FIX_43 = False, USE_FIX_44 = False, USE_FIX_50 = False, USE_FIX_50SP2 = False\<rparr>"

text \<open>\<^verbatim>\<open>USE_FIXT11\<close> asks for the macro \<^verbatim>\<open>USE_FIX50SP2\<close>, which nothing defines: with FIX 5.0
  SP2 alone, the test request that its branch calls is not declared, and the handler does not compile.\<close>

definition USE_FIXT11 :: "md_build \<Rightarrow> bool" where
  "USE_FIXT11 b \<longleftrightarrow> USE_FIX_50 b"

definition buildable :: "md_build \<Rightarrow> bool" where
  "buildable b \<longleftrightarrow> (USE_FIX_50 b \<or> USE_FIX_50SP2 b \<longrightarrow> USE_FIXT11 b)"

section \<open>Requests\<close>

definition sendSingleMarketDataRequest43 :: "string \<Rightarrow> md_app \<Rightarrow> group_message" where
  "sendSingleMarketDataRequest43 s ap =
     market_data_request ''FIX.4.3'' (c_str (''CAPK-'' @ s)) [symbol_group s] ap"

definition sendMarketDataRequest43 :: "string list \<Rightarrow> md_app \<Rightarrow> group_message" where
  "sendMarketDataRequest43 ss ap =
     market_data_request ''FIX.4.3'' ''CAPK'' (map symbol_group (filter (\<lambda>s. s \<noteq> []) ss)) ap"

definition sendTestRequest43 :: group_message where
  "sendTestRequest43 = test_request ''FIX.4.3''"

definition sendSingleMarketDataRequest44 :: "string \<Rightarrow> md_app \<Rightarrow> group_message" where
  "sendSingleMarketDataRequest44 s ap =
     market_data_request ''FIX.4.4'' (c_str (''CAPK-'' @ s)) [symbol_group s] ap"

definition sendMarketDataRequest44 :: "string list \<Rightarrow> md_app \<Rightarrow> group_message" where
  "sendMarketDataRequest44 ss ap =
     market_data_request ''FIX.4.4'' ''CAPK'' (map symbol_group (filter (\<lambda>s. s \<noteq> []) ss)) ap"

definition sendTestRequest44 :: group_message where
  "sendTestRequest44 = test_request ''FIX.4.4''"

text \<open>From FIX 5.0 on, a single request names the type of the instrument.\<close>

definition fx_group :: "string \<Rightarrow> fix_tag \<times> fields" where
  "fx_group s = (case symbol_group s of (t, g) \<Rightarrow> (t, g(SecurityType \<mapsto> FString ''FOR'')))"

definition sendSingleMarketDataRequest50 :: "string \<Rightarrow> md_app \<Rightarrow> group_message" where
  "sendSingleMarketDataRequest50 s ap =
     market_data_request ''FIXT.1.1'' (c_str (''CAPK-'' @ s)) [fx_group s] ap"

definition sendMarketDataRequest50 :: "string list \<Rightarrow> md_app \<Rightarrow> group_message" where
  "sendMarketDataRequest50 ss ap =
     market_data_request ''FIXT.1.1'' ''CAPK'' (map symbol_group (filter (\<lambda>s. s \<noteq> []) ss)) ap"

definition sendSingleMarketDataRequest50SP2 :: "string \<Rightarrow> md_app \<Rightarrow> group_message" where
  "sendSingleMarketDataRequest50SP2 s ap =
     market_data_request ''FIXT.1.1'' (c_str (''CAPK-'' @ s)) [fx_group s] ap"

definition sendMarketDataRequest50SP2 :: "string list \<Rightarrow> md_app \<Rightarrow> group_message" where
  "sendMarketDataRequest50SP2 ss ap =
     market_data_request ''FIXT.1.1'' ''CAPK'' (map symbol_group (filter (\<lambda>s. s \<noteq> []) ss)) ap"

definition sendTestRequestFIXT11 :: group_message where
  "sendTestRequestFIXT11 = test_request ''FIXT.1.1''"

text \<open>The switches over the configured version.\<close>

definition sendTestRequest_in :: "md_build \<Rightarrow> md_app \<Rightarrow> md_stop option \<times> md_app" where
  "sendTestRequest_in b ap = (let v = mdc_version (md_cfg ap) in
     if v = FIX_42 \<and> USE_FIX_42 b then (None, md_send (to_session ap sendTestRequest42) ap)
     else if v = FIX_43 \<and> USE_FIX_43 b then (None, md_send (to_session ap sendTestRequest43) ap)
     else if v = FIX_44 \<and> USE_FIX_44 b then (None, md_send (to_session ap sendTestRequest44) ap)
     else if v = FIX_50 \<and> USE_FIX_50 b then (None, md_send (to_session ap sendTestRequestFIXT11) ap)
     else if v = FIX_50SP2 \<and> USE_FIX_50SP2 b then (None, md_send (to_session ap sendTestRequestFIXT11) ap)
     else (Some UnsupportedVersion, ap))"

definition sendSingleMarketDataRequest_in :: "md_build \<Rightarrow> string \<Rightarrow> md_app \<Rightarrow> md_stop option \<times> md_app" where
  "sendSingleMarketDataRequest_in b s ap = (let v = mdc_version (md_cfg ap) in
     if v = FIX_42 \<and> USE_FIX_42 b then (None, md_send (sendSingleMarketDataRequest42 s ap) ap)
     else if v = FIX_43 \<and> USE_FIX_43 b then (None, md_send (sendSingleMarketDataRequest43 s ap) ap)
     else if v = FIX_44 \<and> USE_FIX_44 b then (None, md_send (sendSingleMarketDataRequest44 s ap) ap)
     else if v = FIX_50 \<and> USE_FIX_50 b then (None, md_send (sendSingleMarketDataRequest50 s ap) ap)
     else if v = FIX_50SP2 \<and> USE_FIX_50SP2 b then (None, md_send (sendSingleMarketDataRequest50SP2 s ap) ap)
     else (Some UnsupportedVersion, ap))"

definition sendMarketDataRequest_in :: "md_build \<Rightarrow> string list \<Rightarrow> md_app \<Rightarrow> md_stop option \<times> md_app" where
  "sendMarketDataRequest_in b ss ap = (let v = mdc_version (md_cfg ap) in
     if v = FIX_42 \<and> USE_FIX_42 b then (None, md_send (sendMarketDataRequest42 ss ap) ap)
     else if v = FIX_43 \<and> USE_FIX_43 b then (None, md_send (sendMarketDataRequest43 ss ap) ap)
     else if v = FIX_44 \<and> USE_FIX_44 b then (None, md_send (sendMarketDataRequest44 ss ap) ap)
     else if v = FIX_50 \<and> USE_FIX_50 b then (None, md_send (sendMarketDataRequest50 ss ap) ap)
     else if v = FIX_50SP2 \<and> USE_FIX_50SP2 b then (None, md_send (sendMarketDataRequest50SP2 ss ap) ap)
     else (Some UnsupportedVersion, ap))"

section \<open>Session and dispatch\<close>

fun send_all_single_in :: "md_build \<Rightarrow> string list \<Rightarrow> md_app \<Rightarrow> md_stop option \<times> md_app" where
  "send_all_single_in b [] ap = (None, ap)"
| "send_all_single_in b (s # ss) ap = (if s = [] then send_all_single_in b ss ap
     else case sendSingleMarketDataRequest_in b s ap of
       (None, ap') \<Rightarrow> send_all_single_in b ss ap' | (Some e, ap') \<Rightarrow> (Some e, ap'))"

definition md_run_app_in :: "md_build \<Rightarrow> md_app \<Rightarrow> md_stop option \<times> md_app" where
  "md_run_app_in b ap = (let ap = make_books (md_symbols ap) ap in
     if mdc_sendIndividualMarketDataRequests (md_cfg ap)
     then send_all_single_in b (md_symbols ap) ap
     else sendMarketDataRequest_in b (md_symbols ap) ap)"

definition md_onLogon_in :: "md_build \<Rightarrow> string \<times> string \<Rightarrow> md_app \<Rightarrow> md_stop option \<times> md_app" where
  "md_onLogon_in b sess ap = md_run_app_in b (ap\<lparr>md_session := sess, md_loginCount := md_loginCount ap + 1\<rparr>)"

text \<open>The handlers the class has in a build, by the version of the message, whatever version is
  configured. There is none for the status of a trading session or a rejection from FIX 5.0 on; the
  cracker refuses what has no handler.\<close>

definition has_handler :: "md_build \<Rightarrow> int \<Rightarrow> md_message \<Rightarrow> bool" where
  "has_handler b v msg \<longleftrightarrow>
     (if v = FIX_42 then USE_FIX_42 b else if v = FIX_43 then USE_FIX_43 b else if v = FIX_44 then USE_FIX_44 b
      else (case msg of
          MarketDataSnapshotFullRefresh m \<Rightarrow> True | MarketDataIncrementalRefresh m \<Rightarrow> True | _ \<Rightarrow> False) \<and>
        (if v = FIX_50 then USE_FIX_50 b else v = FIX_50SP2 \<and> USE_FIX_50SP2 b))"

definition md_onMessage_in ::
  "md_build \<Rightarrow> ('tm, 'dt, 't) md_env \<Rightarrow> int \<Rightarrow> md_message \<Rightarrow> md_app \<Rightarrow> md_stop option \<times> md_app" where
  "md_onMessage_in b E v msg ap =
     (if has_handler b v msg then md_onMessage E msg ap else (Some UnsupportedMessage, ap))"

definition md_fromApp_in ::
  "md_build \<Rightarrow> ('tm, 'dt, 't) md_env \<Rightarrow> int \<Rightarrow> md_message \<Rightarrow> md_app \<Rightarrow> md_stop option \<times> md_app" where
  "md_fromApp_in b E v msg ap = md_onMessage_in b E v msg (ap\<lparr>md_appMsgCount := md_appMsgCount ap + 1\<rparr>)"

fun md_session_run_in ::
  "md_build \<Rightarrow> ('tm, 'dt, 't) md_env \<Rightarrow> (int \<times> md_message) list \<Rightarrow> md_app \<Rightarrow> md_stop option list \<times> md_app" where
  "md_session_run_in b E [] ap = ([], ap)"
| "md_session_run_in b E ((v, msg) # msgs) ap = (case md_fromApp_in b E v msg ap of (r, ap') \<Rightarrow>
     if r \<in> {None, Some FieldError, Some UnsupportedMessage}
     then (case md_session_run_in b E msgs ap' of (rs, ap'') \<Rightarrow> (r # rs, ap''))
     else ([r], ap'))"

section \<open>The build of the repository\<close>

text \<open>With the macros as they are, the handler is the one of \<open>MdParser\<close>.\<close>

lemma build42_requests:
  "sendTestRequest_in build42 = sendTestRequest" "sendSingleMarketDataRequest_in build42 = sendSingleMarketDataRequest"
  "sendMarketDataRequest_in build42 = sendMarketDataRequest"
  by (simp_all add: fun_eq_iff sendTestRequest_in_def sendTestRequest_def sendSingleMarketDataRequest_in_def
      sendSingleMarketDataRequest_def sendMarketDataRequest_in_def sendMarketDataRequest_def build42_def versions)

lemma build42_send_all: "send_all_single_in build42 ss ap = send_all_single ss ap"
  by (induction ss arbitrary: ap) (auto simp: build42_requests split: option.splits prod.splits)

lemma build42_logon: "md_onLogon_in build42 = md_onLogon"
  by (simp add: fun_eq_iff md_onLogon_in_def md_onLogon_def md_run_app_in_def md_run_app_def Let_def
      build42_send_all build42_requests)

lemma build42_messages: "md_fromApp_in build42 E 42 = md_fromApp E"
  by (simp add: fun_eq_iff md_fromApp_in_def md_fromApp_def md_onMessage_in_def has_handler_def build42_def versions)

lemma build42_session: "md_session_run_in build42 E (map (Pair 42) msgs) ap = md_session_run E msgs ap"
  by (induction msgs arbitrary: ap) (simp_all add: build42_messages split: prod.splits)

section \<open>Any build\<close>

definition supported :: "md_build \<Rightarrow> int \<Rightarrow> bool" where
  "supported b v \<longleftrightarrow> v = FIX_42 \<and> USE_FIX_42 b \<or> v = FIX_43 \<and> USE_FIX_43 b \<or> v = FIX_44 \<and> USE_FIX_44 b \<or>
     v = FIX_50 \<and> USE_FIX_50 b \<or> v = FIX_50SP2 \<and> USE_FIX_50SP2 b"

definition begin_string :: "int \<Rightarrow> string" where
  "begin_string v = (if v = FIX_42 then ''FIX.4.2'' else if v = FIX_43 then ''FIX.4.3''
     else if v = FIX_44 then ''FIX.4.4'' else ''FIXT.1.1'')"

text \<open>What a request asks for: its session, version and symbols.\<close>

definition asks_for :: "md_app \<Rightarrow> string list \<Rightarrow> group_message \<Rightarrow> bool" where
  "asks_for ap ss m \<longleftrightarrow> fm_header m = [BeginString \<mapsto> FString (begin_string (mdc_version (md_cfg ap))),
       SenderCompID \<mapsto> FString (fst (md_session ap)), TargetCompID \<mapsto> FString (snd (md_session ap))] \<and>
     map (\<lambda>g. g Symbol) (groups_of NoRelatedSym m) = map (Some \<circ> FString) ss"

lemma request_asks:
  assumes "v = begin_string (mdc_version (md_cfg ap))" "map fst gs = replicate (length ss) NoRelatedSym"
    "map (\<lambda>g. snd g Symbol) gs = map (Some \<circ> FString) ss"
  shows "asks_for ap ss (market_data_request v r gs ap)"
proof -
  have "\<forall>g \<in> set gs. fst g = NoRelatedSym"
    using assms(2) by (metis image_eqI in_set_replicate list.set_map)
  then have "filter (\<lambda>(u, g). u = NoRelatedSym) gs = gs" by (auto simp: filter_id_conv)
  then show ?thesis
    using assms by (simp add: asks_for_def market_data_request_def Let_def groups_of_def comp_def)
qed

lemma single_request:
  "supported b (mdc_version (md_cfg ap)) \<Longrightarrow>
    \<exists>m. sendSingleMarketDataRequest_in b s ap = (None, md_send m ap) \<and> asks_for ap [s] m"
  by (auto simp: supported_def sendSingleMarketDataRequest_in_def begin_string_def versions symbol_group_def fx_group_def
      sendSingleMarketDataRequest42_def sendSingleMarketDataRequest43_def sendSingleMarketDataRequest44_def
      sendSingleMarketDataRequest50_def sendSingleMarketDataRequest50SP2_def intro!: request_asks)

lemma multi_request:
  "supported b (mdc_version (md_cfg ap)) \<Longrightarrow>
    \<exists>m. sendMarketDataRequest_in b ss ap = (None, md_send m ap) \<and> asks_for ap (filter (\<lambda>s. s \<noteq> []) ss) m"
  by (auto simp: supported_def sendMarketDataRequest_in_def begin_string_def versions symbol_group_def comp_def
      sendMarketDataRequest42_def sendMarketDataRequest43_def sendMarketDataRequest44_def map_replicate_const
      sendMarketDataRequest50_def sendMarketDataRequest50SP2_def intro!: request_asks)

text \<open>The symbols of the requests a list of symbols leads to: one request each, or one for all.\<close>

definition requests_of :: "md_config \<Rightarrow> string list \<Rightarrow> string list list" where
  "requests_of cfg ss = (let ss = filter (\<lambda>s. s \<noteq> []) ss in
     if mdc_sendIndividualMarketDataRequests cfg then map (\<lambda>s. [s]) ss else [ss])"

lemma single_requests:
  "supported b (mdc_version (md_cfg ap)) \<Longrightarrow>
    \<exists>ms. send_all_single_in b ss ap = (None, ap\<lparr>md_sent := md_sent ap @ ms\<rparr>) \<and>
      list_all2 (asks_for ap) (map (\<lambda>s. [s]) (filter (\<lambda>s. s \<noteq> []) ss)) ms"
proof (induction ss arbitrary: ap)
  case (Cons s ss)
  obtain m where m: "sendSingleMarketDataRequest_in b s ap = (None, md_send m ap)" "asks_for ap [s] m"
    using single_request [OF Cons.prems] by blast
  have same: "asks_for (md_send m ap) = asks_for ap" by (simp add: fun_eq_iff asks_for_def md_send_def)
  obtain ms where ms: "send_all_single_in b ss (md_send m ap) = (None, (md_send m ap)\<lparr>md_sent := md_sent (md_send m ap) @ ms\<rparr>)"
    "list_all2 (asks_for ap) (map (\<lambda>s. [s]) (filter (\<lambda>s. s \<noteq> []) ss)) ms"
    using Cons.IH [of "md_send m ap"] Cons.prems same by (auto simp: md_send_def)
  show ?case
  proof (cases "s = []")
    case False
    then show ?thesis using m ms by (intro exI [of _ "m # ms"]) (simp add: md_send_def)
  qed (use Cons in simp)
next
  case (Nil ap)
  then show ?case by (intro exI [of _ "[]"]) simp
qed

lemma make_books_rest [simp]:
  "md_session (make_books ss ap) = md_session ap" "md_sent (make_books ss ap) = md_sent ap"
  by (induction ss ap rule: make_books.induct) (auto simp: addBook_def)

lemma asks_for_sent [simp]:
  "asks_for (ap\<lparr>md_sent := ms\<rparr>) = asks_for ap" "asks_for (make_books ss ap) = asks_for ap"
  by (simp_all add: fun_eq_iff asks_for_def)

lemma run_requests:
  assumes "supported b (mdc_version (md_cfg ap))"
  shows "\<exists>ms. md_run_app_in b ap = (None, (make_books (md_symbols ap) ap)\<lparr>md_sent := md_sent ap @ ms\<rparr>) \<and>
    list_all2 (asks_for ap) (requests_of (md_cfg ap) (md_symbols ap)) ms"
proof (cases "mdc_sendIndividualMarketDataRequests (md_cfg ap)")
  case True
  then show ?thesis
    using single_requests [of b "make_books (md_symbols ap) ap" "md_symbols ap"] assms
    by (simp add: md_run_app_in_def requests_of_def Let_def)
next
  case False
  obtain m where "sendMarketDataRequest_in b (md_symbols ap) (make_books (md_symbols ap) ap) =
      (None, md_send m (make_books (md_symbols ap) ap))" "asks_for ap (filter (\<lambda>s. s \<noteq> []) (md_symbols ap)) m"
    using multi_request [of b "make_books (md_symbols ap) ap" "md_symbols ap"] assms by auto
  then show ?thesis
    using False by (intro exI [of _ "[m]"]) (simp add: md_run_app_in_def requests_of_def Let_def md_send_def)
qed

lemma feed_rel_sent [simp]: "feed_rel I (ap\<lparr>md_sent := ms\<rparr>) f = feed_rel I ap f"
  by (simp add: feed_rel_def getBook_def)

lemma logon_feed_in:
  assumes "supported b (mdc_version cfg)"
  shows "\<exists>ap. md_onLogon_in b sess (handler_app addr ss cfg) = (None, ap) \<and> feed_rel I ap (subscribed ss) \<and>
    md_cfg ap = cfg \<and> md_session ap = sess \<and> md_bcast ap = [] \<and>
    md_socket ap = (if mdc_is_publishing cfg then Some addr else None) \<and> list_all2 (asks_for ap) (requests_of cfg ss) (md_sent ap)"
proof -
  define ap0 where "ap0 = (handler_app addr ss cfg)\<lparr>md_session := sess,
      md_loginCount := md_loginCount (handler_app addr ss cfg) + 1\<rparr>"
  have c: "md_cfg ap0 = cfg" "md_bcast ap0 = []" "md_symbols ap0 = ss" "md_session ap0 = sess" "md_sent ap0 = []"
    "md_socket ap0 = (if mdc_is_publishing cfg then Some addr else None)"
    by (simp_all add: ap0_def)
  have "feed_rel I ap0 Map.empty" by (simp add: ap0_def feed_rel_def getBook_def)
  then have f: "feed_rel I (make_books ss ap0) (subscribed ss)" using make_books_feed by fastforce
  obtain ms where "md_run_app_in b ap0 = (None, (make_books ss ap0)\<lparr>md_sent := ms\<rparr>)"
    "list_all2 (asks_for ap0) (requests_of cfg ss) ms"
    using run_requests [of b ap0] assms by (auto simp: c)
  moreover have "md_onLogon_in b sess (handler_app addr ss cfg) = md_run_app_in b ap0"
    by (simp only: md_onLogon_in_def ap0_def)
  ultimately show ?thesis using f by (auto simp: c)
qed

text \<open>A configured version that is not built in stops the first request.\<close>

lemma unsupported_logon:
  assumes "\<not> supported b (mdc_version (md_cfg ap))"
    and "\<not> mdc_sendIndividualMarketDataRequests (md_cfg ap) \<or> (\<exists>s \<in> set (md_symbols ap). s \<noteq> [])"
  shows "fst (md_onLogon_in b sess ap) = Some UnsupportedVersion \<and> md_sent (snd (md_onLogon_in b sess ap)) = md_sent ap"
proof -
  have q: "sendSingleMarketDataRequest_in b s a = (Some UnsupportedVersion, a)"
    "sendMarketDataRequest_in b ss a = (Some UnsupportedVersion, a)" if "md_cfg a = md_cfg ap" for s ss a
    using assms(1) that by (auto simp: sendSingleMarketDataRequest_in_def sendMarketDataRequest_in_def supported_def Let_def)
  have "send_all_single_in b ss a = (Some UnsupportedVersion, a)" if "\<exists>s \<in> set ss. s \<noteq> []" "md_cfg a = md_cfg ap" for ss a
    using that by (induction ss) (auto simp: q)
  then show ?thesis
    using assms(2) q by (auto simp: md_onLogon_in_def md_run_app_in_def Let_def)
qed

lemma fromApp_in:
  assumes "supported b v" "read_message E cfg msg = Some ev"
  shows "md_fromApp_in b E v msg = md_fromApp E msg"
  using assms by (cases msg) (auto simp: fun_eq_iff md_fromApp_in_def md_onMessage_in_def md_fromApp_def has_handler_def
      supported_def versions read_message_def)

lemma session_run_in:
  assumes "map (read_message E cfg) (map snd msgs) = map Some evs" "\<forall>(v, msg) \<in> set msgs. supported b v"
  shows "md_session_run_in b E msgs ap = md_session_run E (map snd msgs) ap"
  using assms
proof (induction msgs arbitrary: evs ap)
  case (Cons m msgs)
  obtain v msg ev evs1 where m: "m = (v, msg)" "read_message E cfg msg = Some ev" "evs = ev # evs1"
    "map (read_message E cfg) (map snd msgs) = map Some evs1"
    using Cons.prems(1) by (cases m; cases evs) auto
  have "supported b v" using Cons.prems(2) m(1) by auto
  then show ?case
    using Cons.IH [OF m(4)] Cons.prems(2) fromApp_in [OF _ m(2)] by (simp add: m(1) split: prod.splits)
qed simp

text \<open>C40. Refinement: whatever versions of FIX are built in, a handler configured for one of them
  subscribes after a logon to exactly its symbols, on its session and in its version. If it publishes, it
  processes every sequence of well-formed snapshots and incremental refreshes of any of the versions
  without an exception or a crash, has exactly the announced quotes in its books and broadcasts the best
  prices, after an incremental refresh those of the symbol of the last entry; if it does not publish, the
  same holds of incremental refreshes, and nothing is broadcast. The conditions are those of the handler
  of FIX 4.2: no two of the ids have the same hash, the exchange follows the protocol (no live id is
  announced again, no quote deleted that is not live, no message without entries or for a symbol that was
  not subscribed) and a broadcast fits its buffer.\<close>

theorem versions_follow_feed:
  assumes "inj_on entry_hash I" and "supported b (mdc_version cfg)"
    and "map (read_message E cfg) (map snd msgs) = map Some evs" and "\<forall>(v, msg) \<in> set msgs. supported b v"
    and "\<forall>ev \<in> set evs. event_ids ev \<subseteq> I" and "can_process cfg evs"
    and "event_run cfg evs (subscribed ss) = Some (f, out)" and "\<forall>m \<in> set out. me_size E m < MAX_MSG_SIZE"
  shows "\<exists>ap ap'. md_onLogon_in b sess (handler_app addr ss cfg) = (None, ap) \<and> md_session ap = sess \<and>
    list_all2 (asks_for ap) (requests_of cfg ss) (md_sent ap) \<and>
    md_session_run_in b E msgs ap = (replicate (length msgs) None, ap') \<and> feed_rel I ap' f \<and> md_bcast ap' = out"
proof -
  obtain ap where ap: "md_onLogon_in b sess (handler_app addr ss cfg) = (None, ap)" "feed_rel I ap (subscribed ss)"
    "md_cfg ap = cfg" "md_session ap = sess" "md_bcast ap = []"
    "md_socket ap = (if mdc_is_publishing cfg then Some addr else None)" "list_all2 (asks_for ap) (requests_of cfg ss) (md_sent ap)"
    using logon_feed_in [OF assms(2)] by blast
  then show ?thesis
    using session_feed [OF assms(1) ap(2), of E "map snd msgs" evs f out] session_run_in [OF assms(3,4)]
      can_process_socket [OF assms(6,7)] assms(3,5,7,8) by auto
qed

text \<open>A build for FIX 4.4, 5.0 and 5.0 SP2, configured for the last, with messages of two versions.\<close>

definition demo_build :: md_build where
  "demo_build = \<lparr>USE_FIX_42 = False, USE_FIX_43 = False, USE_FIX_44 = True, USE_FIX_50 = True, USE_FIX_50SP2 = True\<rparr>"

lemma demo_version:
  "read_message E (cfg\<lparr>mdc_version := v\<rparr>) msg = read_message E cfg msg"
  by (cases msg) (simp_all add: read_message_def)

lemma event_run_version: "event_run (cfg\<lparr>mdc_version := v\<rparr>) evs f = event_run cfg evs f"
proof (induction evs arbitrary: f)
  case (Cons ev evs)
  have "event_step (cfg\<lparr>mdc_version := v\<rparr>) ev f = event_step cfg ev f" by (cases ev) (simp_all add: venue_of_def Let_def split: option.splits)
  then show ?case using Cons by (simp split: option.splits prod.splits)
qed simp

lemma versions_follow_feed_witness:
  "\<exists>ap ap'. md_onLogon_in demo_build (''S'', ''T'') (handler_app ''a'' [''EUR/USD''] (demo_cfg\<lparr>mdc_version := 52\<rparr>)) = (None, ap) \<and>
     list_all2 (asks_for ap) [[''EUR/USD'']] (md_sent ap) \<and>
     md_session_run_in demo_build demo_env [(52, MarketDataSnapshotFullRefresh demo_snapshot),
         (44, MarketDataIncrementalRefresh demo_update)] ap = ([None, None], ap') \<and>
     feed_rel {''A'', ''B'', ''C''} ap' [''EUR/USD'' \<mapsto> [''B'' \<mapsto> (BID, 9/8, 20)]] \<and> length (md_bcast ap') = 2"
proof -
  let ?cfg = "demo_cfg\<lparr>mdc_version := 52\<rparr>"
  let ?msgs = "[(52, MarketDataSnapshotFullRefresh demo_snapshot), (44, MarketDataIncrementalRefresh demo_update)]"
  have s: "supported demo_build 52" "supported demo_build 44" by (simp_all add: supported_def demo_build_def versions)
  have can: "can_process ?cfg evs" for evs by (simp add: can_process_def demo_cfg_def)
  obtain ap ap' where "md_onLogon_in demo_build (''S'', ''T'') (handler_app ''a'' [''EUR/USD''] ?cfg) = (None, ap)"
    "list_all2 (asks_for ap) (requests_of ?cfg [''EUR/USD'']) (md_sent ap)"
    "md_session_run_in demo_build demo_env ?msgs ap = (replicate (length ?msgs) None, ap')"
    "feed_rel {''A'', ''B'', ''C''} ap' [''EUR/USD'' \<mapsto> [''B'' \<mapsto> (BID, 9/8, 20)]]" "length (md_bcast ap') = 2"
    using versions_follow_feed [OF demo_hashes _ _ _ _ _ demo_run [folded event_run_version [where cfg = demo_cfg and v = 52]],
        of demo_build demo_env ?msgs "(''S'', ''T'')" "''a''"] s
    by (auto simp: demo_version demo_events quote_ids_def feed_ids_def demo_fits can)
  then show ?thesis by (simp add: numeral_2_eq_2 requests_of_def demo_cfg_def)
qed

end
