(* ===== verification/Spec2Isabelle.thy ===== *)
theory Spec2Isabelle
  imports BookV2Correct ItchSession AggBookCorrect JenkinsCorrect MdErrors ExchangeCorrect BookV1Props CollectorCorrect ValidateCorrect StartCorrect BookV3 MdVersions
begin

text \<open>
  A model of the trading system in this repository, with the properties that make its parts correct.

  The system. Market data handlers (\<^verbatim>\<open>src/market_data\<close>) receive quotes from trading venues; the
  ITCH handler speaks the HotspotFX protocol over TCP. Limit order books (\<^verbatim>\<open>src/order_book\<close>) keep
  the orders of a venue by price and time. The aggregated book (\<^verbatim>\<open>src/aggregated_book\<close>) collects the
  best quotes of all venues over ZeroMQ and broadcasts the best of them. The order gateway
  (\<^verbatim>\<open>src/order_entry/order-fix\<close>) takes orders from strategies over ZeroMQ, hands them to a FIX
  interface and returns messages to the strategies by the routes they announced. They share the types of
  \<^verbatim>\<open>src/common/src/c++/utils\<close>.

  Theories.
  \<^item> \<^verbatim>\<open>Prelude\<close>: words, doubles, time stamps, ordered maps and their locale \<open>ordered_map\<close>.
    \<^verbatim>\<open>Types\<close>: sides and constants.
  \<^item> \<^verbatim>\<open>BookV2\<close>, \<^verbatim>\<open>BookV2Correct\<close>: orders, limits and the book of \<^verbatim>\<open>order_book.v2\<close>.
    Where it is undefined (an ask is removed by comparing its iterator with the end of the bids) and the
    invariant (\<open>book_run_defined\<close>); for the GNU library's comparison the refinement to a map of live
    orders (\<open>book_run_refines\<close>), queries, time priority, duplicate ids. The locale \<open>order_store\<close> is the
    contract a client of a book relies on.
  \<^item> \<^verbatim>\<open>BookV1\<close>, \<^verbatim>\<open>BookV1Correct\<close>, \<^verbatim>\<open>BookV1Refine\<close>,
    \<^verbatim>\<open>BookV1Props\<close>: the price-depth book of \<^verbatim>\<open>order_book.v1\<close> over a heap of entries, with
    its two maps per side. Memory safety without replacements (\<open>pd_memory_safe\<close>), the refinement for
    free ids and prices (\<open>pd_run_refines\<close>), the end of its level walks (\<open>pd_walks_end\<close>), and what
    replacing an entry leaves behind (\<open>pd_replace_stale\<close>).
  \<^item> \<^verbatim>\<open>BookV3\<close>: the array book of \<^verbatim>\<open>order_book.v3\<close>, a prototype: its levels, bounds and
    the orders it takes (\<open>array_book_prices\<close>).
  \<^item> \<^verbatim>\<open>RingBuffer\<close>: the receive buffer \<^verbatim>\<open>ExpandableRingBuffer\<close> with its memory, a
    byte queue (locale \<open>byte_queue\<close>, \<open>ring_fifo\<close>), its sums within \<^verbatim>\<open>int\<close>, delimiter
    search, and where all three fail.
  \<^item> \<^verbatim>\<open>Numeric\<close>, \<^verbatim>\<open>NumericCorrect\<close>: \<^verbatim>\<open>strtol\<close>, \<^verbatim>\<open>strtod\<close>, \<^verbatim>\<open>printf\<close>, the
    rounding of binary64, and the round trips of number fields.
  \<^item> \<^verbatim>\<open>Packet\<close>, \<^verbatim>\<open>ItchMessages\<close>, \<^verbatim>\<open>ItchCorrect\<close>: the packet readers and writers, every
    message with its loader, and the factory. The wire round trip of every server message
    (\<open>itch_roundtrip\<close>), the bytes of client messages (locale \<open>field_format\<close>).
  \<^item> \<^verbatim>\<open>ItchSocket\<close>, \<^verbatim>\<open>ItchSocketCorrect\<close>: sending, framing and receiving over the results of
    the system calls.
  \<^item> \<^verbatim>\<open>ItchSession\<close>: the session's threads as the step relation \<open>session_step\<close>, in which a
    dispatcher of the pool takes a message under the mutex and handles it in a later step: messages are
    taken in the order of their arrival and handled once each (\<open>session_dispatch_order\<close>); routing, type confusion.
  \<^item> \<^verbatim>\<open>Ids\<close>, \<^verbatim>\<open>IdsCorrect\<close>: nodes, routes and ids of \<^verbatim>\<open>types.h\<close>. A route
    is a bounded stack of addresses; the text of ids.
  \<^item> \<^verbatim>\<open>TimeUtils\<close>: \<^verbatim>\<open>time_utils.cpp\<close> and \<^verbatim>\<open>fix_convertors.cpp\<close>: exact
    differences, time stamp round trip.
  \<^item> \<^verbatim>\<open>AggBook\<close>, \<^verbatim>\<open>AggBookCorrect\<close>: the aggregated book. Every broadcast is the best
    of the fresh quotes (\<open>agg_run_refines\<close>), and carries no symbol; with assertions it fails the one on a
    global socket that nothing sets.
  \<^item> \<^verbatim>\<open>MsgCache\<close>, \<^verbatim>\<open>Gateway\<close>, \<^verbatim>\<open>GatewayCorrect\<close>: the caches and the message processor of
    the order gateway: cache files, routing of every message (\<open>gateway_run_refines\<close>).
  \<^item> \<^verbatim>\<open>JenkinsHash\<close>, \<^verbatim>\<open>JenkinsCorrect\<close>: the hash functions of \<^verbatim>\<open>jenkins_hash.cpp\<close>
    that turn venue texts into ids: the branches by alignment agree with one another and with
    a byte-wise reference (locale \<open>block_reader\<close>, \<open>hash_branches_agree\<close>).
  \<^item> \<^verbatim>\<open>FixFields\<close>: FIX tags, values and messages, shared by the FIX applications.
  \<^item> \<^verbatim>\<open>FixApp\<close>, \<^verbatim>\<open>FixAppCorrect\<close>: the FIX application of the gateway
    (\<^verbatim>\<open>application.cpp\<close>), composed with \<^verbatim>\<open>Gateway\<close>: orders and
    reports keep their meaning (\<open>order_echo\<close>), an order's cycle returns to its strategy (\<open>order_cycle\<close>).
  \<^item> \<^verbatim>\<open>MdParser\<close>, \<^verbatim>\<open>MdParserCorrect\<close>, \<^verbatim>\<open>MdFeedCorrect\<close>,
    \<^verbatim>\<open>MdSafety\<close>, \<^verbatim>\<open>MdErrors\<close>: the FIX market data handler (\<^verbatim>\<open>md_parser_qf.cpp\<close>,
    \<^verbatim>\<open>md_broadcast.cpp\<close>) on top of \<open>BookV2\<close> (a client of the locale \<open>order_store\<close>), the id
    hash and the time conversions: it refines a feed of quotes keyed by the exchange's entry
    ids and broadcasts their best prices (\<open>feed_refinement\<close>), its invariant under arbitrary messages,
    what an exception in the middle of a message leaves behind, and the messages that bring it down.
    A snapshot is sent on a socket that only a handler that publishes has: for one that does not, these
    results are about incremental refreshes (\<open>snapshot_without_publisher\<close>).
    These model the handler as it is built, for FIX 4.2; \<^verbatim>\<open>MdVersions\<close> is the handler of any build,
    which follows the feed in every version that is built in (\<open>versions_follow_feed\<close>).
  \<^item> \<^verbatim>\<open>Collector\<close>, \<^verbatim>\<open>CollectorSim\<close>, \<^verbatim>\<open>CollectorFeed\<close>,
    \<^verbatim>\<open>CollectorCorrect\<close>: the FIX collector beside the Interactive Brokers interface, for FIX 4.2,
    4.3 and 4.4. It agrees with the handler on incremental refreshes (\<open>collector_as_handler\<close>), its books,
    publications and logs follow the feed as long as no snapshot comes for a symbol with live quotes
    (\<open>collector_refines\<close>); where its snapshots and its list of
    symbols go wrong (\<open>collector_keeps_withdrawn\<close>, \<open>blank_symbol_crashes\<close>).
  \<^item> \<^verbatim>\<open>TradeSerializer\<close>, \<^verbatim>\<open>TradeSerializerCorrect\<close>: the recorder of orders and reports
    (\<^verbatim>\<open>trade_serializer.cpp\<close>) over a parameter for the database: the rows a history
    of messages leaves (\<open>tables_of_history\<close>), the composition with the gateway's application
    (\<open>order_recorded\<close>), and the frames that silence it (\<open>recording_errors\<close>).
  \<^item> \<^verbatim>\<open>Replay\<close>, \<^verbatim>\<open>ReplayCorrect\<close>: the replay server's pump and dispatcher
    (\<^verbatim>\<open>msg_pump.cpp\<close>, \<^verbatim>\<open>msg_dispatcher.cpp\<close>) with the engine's thread that logs out,
    as the step relation of three threads over the shared message. Every interleaving sends what one thread
    would that read the log in pairs (\<open>replay_interleavings\<close>), every run ends (\<open>replay_terminates\<close>), what a log of
    messages sends (\<open>replay_of_log\<close>), where a logout hangs (\<open>replay_logout\<close>).
  \<^item> \<^verbatim>\<open>Exchange\<close>, \<^verbatim>\<open>ExchangeCorrect\<close>: the replay server's FIX application, which answers
    the orders of every FIX version with fills, in whatever order the compiler evaluates the arguments of a
    report (\<open>exchange_fills\<close>), keeps the sessions and starts the
    replay; composed with gateway, FIX application and recorder (\<open>order_filled_cycle\<close>).

  \<^item> \<^verbatim>\<open>Validate\<close>, \<^verbatim>\<open>ValidateCorrect\<close>: the symbol validation
    (\<^verbatim>\<open>validate_symbols\<close>): the files written after a complete list (\<open>validated_symbols\<close>), and what a
    logon within a list (\<open>interrupted_validation\<close>), a single symbol or FIX 4.3 (\<open>validation_unfinished\<close>) do.
  \<^item> \<^verbatim>\<open>TextFiles\<close>, \<^verbatim>\<open>VenueConfig\<close>, \<^verbatim>\<open>VenueConfigCorrect\<close>: files read by
    lines, and \<^verbatim>\<open>config_server.cpp\<close>: the configuration of the venues from a file, where it is read
    back as it was stored (\<open>venue_config_roundtrip\<close>), and from the configuration server.
  \<^item> \<^verbatim>\<open>MdStart\<close>, \<^verbatim>\<open>GatewayStart\<close>, \<^verbatim>\<open>AggStart\<close>,
    \<^verbatim>\<open>StartCorrect\<close>: the \<^verbatim>\<open>main\<close> functions of the handler
    (\<^verbatim>\<open>md_fix.cpp\<close>), the gateway (\<^verbatim>\<open>order-fix.cpp\<close>) and the aggregated book, composed
    with the programs they start: from the files on, the handler follows the feed (\<open>handler_from_files\<close>),
    and the aggregated book starts its listeners, which never listen (\<open>agg_from_files\<close>); which files stop them
    (\<open>agg_final_newline\<close>, \<open>dotted_section_stops\<close>).

  How the models correspond to the code. A definition has the name of the function it models where
  Isabelle allows it; the state a method changes is passed in and returned. \<^verbatim>\<open>std::map\<close> is a sorted
  association list, a character array a string of its length, a pointer that may be null an option.
  Undefined behaviour and failing assertions are \<open>None\<close> (or \<open>Fails\<close>, \<open>Undefined\<close>, \<open>Died\<close>), error codes are
  values. Assertions are those of a build without \<^verbatim>\<open>NDEBUG\<close>; the default Makefile defines it,
  and where the difference matters a property says so or has both builds. Threads
  and the network are sequences of events or step relations. Doubles are exact rationals; NaN and
  infinities occur only where text is parsed.

  Bounds and fuel. No function here needs fuel: loops recurse on the data, on a count, or on the list of
  results the system calls return; that a receive loop consumes any such list without returning is
  itself a property (\<open>recv_packet_closed_blocks\<close>). The level walks of the first book, which need not end, are
  \<^verbatim>\<open>while_option\<close>; that they do end on reachable books is a property. The threads of the replay
  server take at most 6n+12 steps over a log of n lines. Machine integers keep their width where it
  matters: volumes are 32 bit words, route sizes 64 bit words, time differences wrap in 64 bits.

  Not under \<^verbatim>\<open>src/\<close> and therefore parameters: libuuid (\<open>uuid_ok\<close>), google's dense_hash_map
  (\<open>dense_ok\<close>), QuickFIX time stamps (\<open>fix_time_ok\<close>) and messages (typed field maps in \<open>FixFields\<close>;
  what is handed to \<^verbatim>\<open>sendToTarget\<close> is recorded), the generated protobuf code (\<open>codec\<close>, and the
  size of a serialised message), Boost's time parser, its ini parser, property trees and conversions
  (\<open>boost_ok\<close>), the clocks. The configuration server is a Python script: its reply is an input.

  Not modelled: the interactive test menu of the order gateway; the Interactive Brokers interface (the
  vendor's code), the third-party hash murmur_hash3 and time utilities; logging and console output,
  option parsing, socket set-up, signals, the threads QuickFIX runs the applications in.
\<close>

end
